(* ===== verification/Psm_Prelude.thy ===== *)
theory Psm_Prelude
  imports Main "HOL-Library.List_Lexorder" "HOL-Library.Product_Lexorder" "HOL-Library.Char_ord" "HOL-Library.Code_Target_Nat"
begin

text \<open>
  Shared vocabulary of the development: the exceptions of the code base as values, the result
  type of an operation that may raise, keyed tables (the shape of both the SQLite \<open>jobs\<close> table
  and the worker list of the fleet registry), and the generic facts about lists and
  reachability that several components use.
\<close>

named_theorems py_simps \<open>evaluation of the modelled Python primitives\<close>
named_theorems row_simps \<open>lookups and updates of keyed tables\<close>
named_theorems inv_intros \<open>preservation of component invariants\<close>

section \<open>Exceptions as values\<close>

text \<open>
  One constructor per exception class the modelled code raises or tells apart. The first
  group are the subclasses of \<open>PSMatrixError\<close>; the second are the builtins.
\<close>

datatype exn_class =
    PSMatrixError
  | VerificationError
  | DependencyError
  | FleetQueueError
  | FleetError
  | FleetRunError
  | QueueRunnerError
  | RecoveryError
  | SnapshotError
  | WorkerError
  | RemoteProtocolError
  | RepairError
  | CompatibilityError
  | ModuleInstallError
  | HybridError
  | FullMatrixError
  | HTTPAuthError
  | GateError
  | GAGateError
  | AttestationError
  | ValueError
  | TypeError
  | KeyError
  | IndexError
  | OSError
  | AttributeError
  | RuntimeError
  | AssertionError
  | OverflowError
  | RunConfigurationError
  | SigningError
  | TransferError
  | IntegrityError

datatype exn = Exn (exn_class: exn_class) (exn_text: string)

type_synonym 'a res = "exn + 'a"

text \<open>\<open>isinstance(exc, PSMatrixError)\<close>: the class itself and its subclasses.\<close>

definition is_psmatrix_error :: "exn \<Rightarrow> bool" where
  "is_psmatrix_error e \<longleftrightarrow> exn_class e \<in>
     {PSMatrixError, VerificationError, DependencyError, FleetQueueError, FleetError,
      FleetRunError, QueueRunnerError, RecoveryError, SnapshotError, WorkerError, RemoteProtocolError, RepairError, CompatibilityError,
      ModuleInstallError, HybridError,
      FullMatrixError, HTTPAuthError, GateError, GAGateError, AttestationError,
      RunConfigurationError, SigningError, TransferError}"

abbreviation throw :: "exn_class \<Rightarrow> string \<Rightarrow> 'a res" where
  "throw c m \<equiv> Inl (Exn c m)"

definition res_bind :: "'a res \<Rightarrow> ('a \<Rightarrow> 'b res) \<Rightarrow> 'b res" where
  "res_bind r k = (case r of Inl e \<Rightarrow> Inl e | Inr x \<Rightarrow> k x)"

lemma res_bind_simps [simp]:
  "res_bind (Inl e) k = Inl e"
  "res_bind (Inr x) k = k x"
  by (simp_all add: res_bind_def)

lemma res_bind_eq_Inr [simp]: "res_bind r k = Inr y \<longleftrightarrow> (\<exists>x. r = Inr x \<and> k x = Inr y)"
  by (cases r) auto

lemma res_bind_eq_Inl: "res_bind r k = Inl e \<longleftrightarrow> r = Inl e \<or> (\<exists>x. r = Inr x \<and> k x = Inl e)"
  by (cases r) auto

lemma res_bind_cong [fundef_cong]:
  "r = r' \<Longrightarrow> (\<And>x. r' = Inr x \<Longrightarrow> k x = k' x) \<Longrightarrow> res_bind r k = res_bind r' k'"
  by (cases r') auto

text \<open>A comprehension whose body may raise: it stops at the first element that does.\<close>

fun res_map :: "('a \<Rightarrow> 'b res) \<Rightarrow> 'a list \<Rightarrow> 'b list res" where
  "res_map f [] = Inr []"
| "res_map f (x # xs) = res_bind (f x) (\<lambda>y. res_bind (res_map f xs) (\<lambda>ys. Inr (y # ys)))"

lemma res_map_cong [fundef_cong]:
  "xs = ys \<Longrightarrow> (\<And>x. x \<in> set ys \<Longrightarrow> f x = g x) \<Longrightarrow> res_map f xs = res_map g ys"
  by (induction ys arbitrary: xs) auto

lemma res_map_Inr_iff:
  "res_map f xs = Inr ys \<longleftrightarrow> list_all2 (\<lambda>x y. f x = Inr y) xs ys"
proof (induction xs arbitrary: ys)
  case Nil
  then show ?case by auto
next
  case (Cons x xs)
  then show ?case by (cases ys) auto
qed

lemma res_map_length: "res_map f xs = Inr ys \<Longrightarrow> length ys = length xs"
  by (simp add: res_map_Inr_iff list_all2_lengthD)

lemma res_map_in:
  assumes "res_map f xs = Inr ys" and "y \<in> set ys"
  shows "\<exists>x \<in> set xs. f x = Inr y"
  using assms unfolding res_map_Inr_iff
  by (induction rule: list_all2_induct) auto

lemma res_map_all:
  assumes "res_map f xs = Inr ys" and "x \<in> set xs"
  shows "\<exists>y \<in> set ys. f x = Inr y"
  using assms unfolding res_map_Inr_iff
  by (induction rule: list_all2_induct) auto

text \<open>Lists built one after the other, each part of which may raise.\<close>

fun res_concat :: "'a list res list \<Rightarrow> 'a list res" where
  "res_concat [] = Inr []"
| "res_concat (r # rs) = res_bind r (\<lambda>xs. res_bind (res_concat rs) (\<lambda>ys. Inr (xs @ ys)))"

lemma res_concat_Inr: "res_concat rs = Inr xs \<Longrightarrow> r \<in> set rs \<Longrightarrow> \<exists>ys. r = Inr ys"
  by (induction rs arbitrary: xs) auto

text \<open>\<open>next((x for x in xs if test(x)), None)\<close> where the test may raise\<close>

fun res_find :: "('a \<Rightarrow> bool res) \<Rightarrow> 'a list \<Rightarrow> 'a option res" where
  "res_find f [] = Inr None"
| "res_find f (x # xs) = res_bind (f x) (\<lambda>b. if b then Inr (Some x) else res_find f xs)"

section \<open>Keyed tables\<close>

definition find_by :: "('row \<Rightarrow> 'key) \<Rightarrow> 'key \<Rightarrow> 'row list \<Rightarrow> 'row option" where
  "find_by key k rows = find (\<lambda>r. key r = k) rows"

definition upd_by :: "('row \<Rightarrow> 'key) \<Rightarrow> 'key \<Rightarrow> ('row \<Rightarrow> 'row) \<Rightarrow> 'row list \<Rightarrow> 'row list" where
  "upd_by key k f rows = map (\<lambda>r. if key r = k then f r else r) rows"

text \<open>
  The interface both tables provide to their clients. Rows are looked up and updated in place
  by a key; an update that keeps the key is what \<open>UPDATE ... WHERE key=?\<close> and the mutation of a
  found record do.
\<close>

locale keyed_table =
  fixes key :: "'row \<Rightarrow> 'key"
    and find_row :: "'key \<Rightarrow> 'row list \<Rightarrow> 'row option"
    and upd_row :: "'key \<Rightarrow> ('row \<Rightarrow> 'row) \<Rightarrow> 'row list \<Rightarrow> 'row list"
  assumes find_row_Some: "find_row k rows = Some r \<Longrightarrow> r \<in> set rows \<and> key r = k"
    and find_row_None: "find_row k rows = None \<longleftrightarrow> k \<notin> key ` set rows"
    and upd_row_map: "upd_row k f rows = map (\<lambda>r. if key r = k then f r else r) rows"
begin

lemma find_row_unique:
  assumes "distinct (map key rows)" and "r \<in> set rows"
  shows "find_row (key r) rows = Some r"
proof (cases "find_row (key r) rows")
  case None
  with assms(2) show ?thesis by (auto simp: find_row_None)
next
  case (Some r')
  then have "r' \<in> set rows" "key r' = key r" by (auto dest: find_row_Some)
  with assms have "r' = r" by (auto simp: distinct_map dest: inj_onD)
  with Some show ?thesis by simp
qed

lemma upd_row_keys:
  assumes "\<And>r. key (f r) = key r"
  shows "map key (upd_row k f rows) = map key rows"
  using assms by (simp add: upd_row_map)

lemma upd_row_length [simp]: "length (upd_row k f rows) = length rows"
  by (simp add: upd_row_map)

lemma upd_row_absent: "find_row k rows = None \<Longrightarrow> upd_row k f rows = rows"
  by (auto simp: find_row_None upd_row_map image_iff intro!: map_idI)

lemma in_upd_rowE:
  assumes "r \<in> set (upd_row k f rows)"
  obtains (same) "r \<in> set rows" "key r \<noteq> k"
    | (changed) r0 where "r0 \<in> set rows" "key r0 = k" "r = f r0"
  using assms by (auto simp: upd_row_map split: if_splits)

lemma find_upd_row:
  assumes dist: "distinct (map key rows)" and kf: "\<And>r. key (f r) = key r"
  shows "find_row k' (upd_row k f rows) =
    (if k' = k then map_option f (find_row k rows) else find_row k' rows)"
proof (cases "find_row k' rows")
  case None
  then have "find_row k' (upd_row k f rows) = None"
    using kf by (auto simp: find_row_None upd_row_map split: if_splits)
  with None show ?thesis by auto
next
  case (Some r)
  then have r: "r \<in> set rows" "key r = k'" by (auto dest: find_row_Some)
  let ?r' = "if key r = k then f r else r"
  have "?r' \<in> set (upd_row k f rows)"
    using r(1) by (auto simp: upd_row_map)
  moreover have "distinct (map key (upd_row k f rows))"
    using dist by (simp add: upd_row_keys [OF kf])
  ultimately have "find_row (key ?r') (upd_row k f rows) = Some ?r'"
    by (rule find_row_unique [rotated])
  moreover have "key ?r' = k'" using r kf by simp
  ultimately show ?thesis using Some r by (auto split: if_splits)
qed

end

lemma find_by_Some: "find_by key k rows = Some r \<Longrightarrow> r \<in> set rows \<and> key r = k"
  by (auto simp: find_by_def find_Some_iff in_set_conv_nth)

lemma find_by_None: "find_by key k rows = None \<longleftrightarrow> k \<notin> key ` set rows"
  by (auto simp: find_by_def find_None_iff)

lemma find_by_distinct_perm:
  assumes "distinct (map key xs)" "set xs = set ys" "distinct (map key ys)"
  shows "find_by key k xs = find_by key k ys"
proof (cases "find_by key k xs")
  case None
  with assms(2) have "k \<notin> key ` set ys" by (simp add: find_by_None)
  with None show ?thesis by (metis find_by_None)
next
  case (Some r)
  then have r: "r \<in> set ys" "key r = k" using assms(2) by (auto dest: find_by_Some)
  show ?thesis
  proof (cases "find_by key k ys")
    case None
    with r show ?thesis by (auto simp: find_by_None)
  next
    case (Some r')
    then have "r' \<in> set ys" "key r' = k" by (auto dest: find_by_Some)
    with r assms(3) have "r' = r" by (auto simp: distinct_map dest: inj_onD)
    with Some \<open>find_by key k xs = Some r\<close> show ?thesis by simp
  qed
qed

section \<open>Reachability and invariants\<close>

text \<open>
  The contract of a component whose behaviour is a step relation: an invariant of the initial
  states that every step keeps. Its one consequence, used by every interpretation, is that the
  invariant holds wherever the steps lead.
\<close>

locale step_system =
  fixes init :: "'s \<Rightarrow> bool"
    and step :: "'s \<Rightarrow> 's \<Rightarrow> bool"
    and inv :: "'s \<Rightarrow> bool"
  assumes init_inv: "init s \<Longrightarrow> inv s"
    and step_inv: "inv s \<Longrightarrow> step s t \<Longrightarrow> inv t"
begin

lemma steps_inv: "step\<^sup>*\<^sup>* s t \<Longrightarrow> inv s \<Longrightarrow> inv t"
  by (induction rule: rtranclp_induct) (auto intro: step_inv)

lemma reachable_inv: "init s \<Longrightarrow> step\<^sup>*\<^sup>* s t \<Longrightarrow> inv t"
  by (blast intro: steps_inv init_inv)

lemma steps_rel:
  assumes "step\<^sup>*\<^sup>* s t" and "inv s"
    and "\<And>x. R x x" and "\<And>x y z. R x y \<Longrightarrow> R y z \<Longrightarrow> R x z"
    and "\<And>x y. inv x \<Longrightarrow> step x y \<Longrightarrow> R x y"
  shows "R s t"
  using assms(1)
proof (induction rule: rtranclp_induct)
  case base
  show ?case by (rule assms(3))
next
  case (step y z)
  have "inv y" using step.hyps(1) assms(2) by (rule steps_inv)
  with step.hyps(2) have "R y z" by (simp add: assms(5))
  with step.IH show ?case by (rule assms(4))
qed

end

section \<open>Lists and strings\<close>

definition starts_with :: "string \<Rightarrow> string \<Rightarrow> bool" where
  "starts_with p s \<longleftrightarrow> take (length p) s = p"

text \<open>\<open>str.removeprefix\<close>\<close>

definition removeprefix :: "string \<Rightarrow> string \<Rightarrow> string" where
  "removeprefix p s = (if starts_with p s then drop (length p) s else s)"

text \<open>\<open>sep.join(parts)\<close>\<close>

fun join :: "string \<Rightarrow> string list \<Rightarrow> string" where
  "join sep [] = []"
| "join sep [x] = x"
| "join sep (x # y # xs) = x @ sep @ join sep (y # xs)"

text \<open>\<open>list(dict.fromkeys(xs))\<close>: the first occurrence of every element, in order.\<close>

fun dedup_first :: "'a list \<Rightarrow> 'a list" where
  "dedup_first [] = []"
| "dedup_first (x # xs) = x # filter (\<lambda>y. y \<noteq> x) (dedup_first xs)"

lemma set_dedup_first [simp]: "set (dedup_first xs) = set xs"
  by (induction xs) auto

lemma distinct_dedup_first [simp]: "distinct (dedup_first xs)"
  by (induction xs) auto

lemma dedup_first_id: "distinct xs \<Longrightarrow> dedup_first xs = xs"
  by (induction xs) (auto intro: filter_True)

lemma starts_with_append [simp]: "starts_with p (p @ s)"
  by (simp add: starts_with_def)

lemma starts_with_iff: "starts_with p s \<longleftrightarrow> (\<exists>r. s = p @ r)"
  unfolding starts_with_def by (metis append_take_drop_id append_eq_conv_conj)

lemma removeprefix_append [simp]: "removeprefix p (p @ s) = s"
  by (simp add: removeprefix_def)

text \<open>Matching one given character, and a prefix or a suffix.\<close>

definition eat :: "char \<Rightarrow> string \<Rightarrow> string option" where
  "eat c s = (case s of [] \<Rightarrow> None | x # r \<Rightarrow> if x = c then Some r else None)"

definition eat_suffix :: "string \<Rightarrow> string \<Rightarrow> string option" where
  "eat_suffix p s = (if length p \<le> length s \<and> drop (length s - length p) s = p
     then Some (take (length s - length p) s) else None)"

lemma eat_Cons [simp]: "eat c (c # s) = Some s"
  by (simp add: eat_def)

lemma eat_eq_Some: "eat c s = Some r \<longleftrightarrow> s = c # r"
  by (cases s) (auto simp: eat_def)

lemma eat_suffix_append [simp]: "eat_suffix p (s @ p) = Some s"
  by (simp add: eat_suffix_def)

lemma eat_suffix_eq_Some: "eat_suffix p s = Some r \<longleftrightarrow> s = r @ p"
  by (auto simp: eat_suffix_def) (metis append_take_drop_id)

text \<open>\<open>s.split(sep)\<close> for a one-character separator\<close>

fun split_on :: "char \<Rightarrow> string \<Rightarrow> string list" where
  "split_on c [] = [[]]"
| "split_on c (x # xs) = (if x = c then [] # split_on c xs
     else (case split_on c xs of [] \<Rightarrow> [[x]] | w # ws \<Rightarrow> (x # w) # ws))"

lemma split_on_nonempty [simp]: "split_on c s \<noteq> []"
  by (induction s) (auto split: list.splits)

lemma join_split_on: "join [c] (split_on c s) = s"
proof (induction s)
  case (Cons x xs)
  then show ?case by (cases "split_on c xs"; cases "tl (split_on c xs)") auto
qed simp

lemma split_on_parts: "x \<in> set (split_on c s) \<Longrightarrow> c \<notin> set x"
  by (induction s arbitrary: x) (auto split: list.splits if_splits)

lemma split_on_word: "c \<notin> set w \<Longrightarrow> split_on c w = [w]"
  by (induction w) auto

lemma split_on_append: "c \<notin> set w \<Longrightarrow> split_on c (w @ c # s) = w # split_on c s"
  by (induction w) auto

lemma split_on_join: "ws \<noteq> [] \<Longrightarrow> \<forall>w \<in> set ws. c \<notin> set w \<Longrightarrow> split_on c (join [c] ws) = ws"
proof (induction ws)
  case (Cons w ws)
  then show ?case by (cases ws) (simp_all add: split_on_word split_on_append)
qed simp

text \<open>\<open>needle in text\<close>\<close>

fun contains :: "string \<Rightarrow> string \<Rightarrow> bool" where
  "contains p [] \<longleftrightarrow> p = []"
| "contains p (c # s) \<longleftrightarrow> starts_with p (c # s) \<or> contains p s"

lemma contains_iff: "contains p s \<longleftrightarrow> (\<exists>a b. s = a @ p @ b)"
proof (induction s)
  case (Cons c s)
  show ?case
  proof
    assume "contains p (c # s)"
    then show "\<exists>a b. c # s = a @ p @ b"
    proof (simp, elim disjE)
      assume "starts_with p (c # s)"
      then show ?thesis by (auto simp: starts_with_iff intro: exI [of _ "[]"])
    next
      assume "contains p s"
      then show ?thesis using Cons by (metis append_Cons)
    qed
  next
    assume "\<exists>a b. c # s = a @ p @ b"
    then obtain a b where ab: "c # s = a @ p @ b" by blast
    show "contains p (c # s)"
    proof (cases a)
      case Nil
      with ab have "starts_with p (c # s)" unfolding starts_with_iff by auto
      then show ?thesis by simp
    next
      case (Cons d a')
      with ab \<open>contains p s \<longleftrightarrow> (\<exists>a b. s = a @ p @ b)\<close> show ?thesis by auto
    qed
  qed
qed simp

text \<open>\<open>s.replace(old, new)\<close> for a nonempty \<open>old\<close>\<close>

function replace_all :: "string \<Rightarrow> string \<Rightarrow> string \<Rightarrow> string" where
  "replace_all p q s = (if p = [] then s else case s of [] \<Rightarrow> []
     | c # r \<Rightarrow> if starts_with p s then q @ replace_all p q (drop (length p) s) else c # replace_all p q r)"
  by pat_completeness auto
termination by (relation "measure (\<lambda>(p, q, s). length s)") auto

declare replace_all.simps [simp del]

end
