(* ===== verification/Psm_Json.thy ===== *)
theory Psm_Json
  imports Psm_Prelude "HOL-Library.AList"
begin

text \<open>
  The Python values that cross a module boundary of the program: what \<open>json.loads\<close> returns and
  \<open>json.dumps\<close> accepts. A dict is an association list in insertion order; a finite float is its
  decimal value \<open>m * 10^e\<close> (the digits \<open>repr\<close> prints). A \<open>str\<close> is a list of code points up to
  255. The operations are the ones the modelled code applies to such values: truth testing,
  \<open>.get\<close>, item assignment, \<open>==\<close>, \<open>str\<close>, \<open>int\<close> and \<open>isinstance\<close>.
\<close>

datatype json =
    JNull
  | JBool bool
  | JInt int
  | JFloat int int
  | JStr string
  | JArr "json list"
  | JObj "(string \<times> json) list"

section \<open>Tests and accessors\<close>

primrec py_true :: "json \<Rightarrow> bool" where
  "py_true JNull = False"
| "py_true (JBool b) = b"
| "py_true (JInt i) = (i \<noteq> 0)"
| "py_true (JFloat m e) = (m \<noteq> 0)"
| "py_true (JStr s) = (s \<noteq> [])"
| "py_true (JArr xs) = (xs \<noteq> [])"
| "py_true (JObj kvs) = (kvs \<noteq> [])"

definition py_or :: "json \<Rightarrow> json \<Rightarrow> json" where
  "py_or a b = (if py_true a then a else b)"

fun is_dict :: "json \<Rightarrow> bool" where
  "is_dict (JObj _) = True"
| "is_dict _ = False"

fun is_list :: "json \<Rightarrow> bool" where
  "is_list (JArr _) = True"
| "is_list _ = False"

fun is_str :: "json \<Rightarrow> bool" where
  "is_str (JStr _) = True"
| "is_str _ = False"

text \<open>\<open>isinstance(x, int)\<close>, which holds for a \<open>bool\<close> too.\<close>

fun is_int :: "json \<Rightarrow> bool" where
  "is_int (JInt _) = True"
| "is_int (JBool _) = True"
| "is_int _ = False"

fun list_items :: "json \<Rightarrow> json list" where
  "list_items (JArr xs) = xs"
| "list_items _ = []"

fun dict_items :: "json \<Rightarrow> (string \<times> json) list" where
  "dict_items (JObj kvs) = kvs"
| "dict_items _ = []"

definition jget :: "string \<Rightarrow> json \<Rightarrow> json option" where
  "jget k v = map_of (dict_items v) k"

text \<open>\<open>v.get(k)\<close> and \<open>v.get(k, d)\<close>\<close>

definition get_or :: "string \<Rightarrow> json \<Rightarrow> json \<Rightarrow> json" where
  "get_or k d v = (case jget k v of None \<Rightarrow> d | Some x \<Rightarrow> x)"

abbreviation get_none :: "string \<Rightarrow> json \<Rightarrow> json" where
  "get_none k v \<equiv> get_or k JNull v"

text \<open>\<open>v[k]\<close> of a dict\<close>

definition jitem :: "string \<Rightarrow> json \<Rightarrow> json res" where
  "jitem k v = (case jget k v of None \<Rightarrow> throw KeyError k | Some x \<Rightarrow> Inr x)"

text \<open>\<open>v[k] = x\<close>: a new key goes to the end, an old one keeps its place.\<close>

definition jset :: "string \<Rightarrow> json \<Rightarrow> json \<Rightarrow> json" where
  "jset k x v = JObj (AList.update k x (dict_items v))"

text \<open>\<open>{key: item for key, item in v.items() if key != k}\<close>\<close>

definition jdel :: "string \<Rightarrow> json \<Rightarrow> json" where
  "jdel k v = JObj (filter (\<lambda>p. fst p \<noteq> k) (dict_items v))"

lemma jget_JObj [simp]: "jget k (JObj kvs) = map_of kvs k"
  by (simp add: jget_def)

lemma is_dict_jset [simp]: "is_dict (jset k x v)"
  by (simp add: jset_def)

lemma is_dict_jdel [simp]: "is_dict (jdel k v)"
  by (simp add: jdel_def)

lemma is_dict_iff: "is_dict v \<longleftrightarrow> (\<exists>kvs. v = JObj kvs)"
  by (cases v) auto

lemma is_list_iff: "is_list v \<longleftrightarrow> (\<exists>xs. v = JArr xs)"
  by (cases v) auto

lemma is_str_iff: "is_str v \<longleftrightarrow> (\<exists>s. v = JStr s)"
  by (cases v) auto

lemma jget_jset [simp]: "jget k' (jset k x v) = (if k' = k then Some x else jget k' v)"
  by (simp add: jset_def jget_def update_conv)

lemma map_of_filter_key: "map_of (filter (\<lambda>p. fst p \<noteq> k) kvs) k' =
    (if k' = k then None else map_of kvs k')"
  by (induction kvs) auto

lemma jget_jdel [simp]: "jget k' (jdel k v) = (if k' = k then None else jget k' v)"
  by (simp add: jdel_def jget_def map_of_filter_key)

lemma get_or_jset [simp]: "get_or k' d (jset k x v) = (if k' = k then x else get_or k' d v)"
  by (simp add: get_or_def)

lemma get_or_jdel [simp]: "get_or k' d (jdel k v) = (if k' = k then d else get_or k' d v)"
  by (simp add: get_or_def)

section \<open>Decimal text\<close>

definition digit_char :: "nat \<Rightarrow> char" where
  "digit_char n = char_of (48 + n)"

definition is_digit :: "char \<Rightarrow> bool" where
  "is_digit c \<longleftrightarrow> 48 \<le> (of_char c :: nat) \<and> (of_char c :: nat) \<le> 57"

definition digit_val :: "char \<Rightarrow> nat" where
  "digit_val c = of_char c - 48"

fun nat_str :: "nat \<Rightarrow> string" where
  "nat_str n = (if n < 10 then [digit_char n] else nat_str (n div 10) @ [digit_char (n mod 10)])"

declare nat_str.simps [simp del]

definition int_str :: "int \<Rightarrow> string" where
  "int_str i = (if i < 0 then CHR ''-'' # nat_str (nat (- i)) else nat_str (nat i))"

definition dec_val :: "string \<Rightarrow> nat" where
  "dec_val ds = foldl (\<lambda>a c. 10 * a + digit_val c) 0 ds"

lemma of_char_digit [simp]: "n < 10 \<Longrightarrow> (of_char (digit_char n) :: nat) = 48 + n"
  by (simp add: digit_char_def)

lemma is_digit_digit_char [simp]: "n < 10 \<Longrightarrow> is_digit (digit_char n)"
  by (simp add: is_digit_def)

lemma digit_val_digit_char [simp]: "n < 10 \<Longrightarrow> digit_val (digit_char n) = n"
  by (simp add: digit_val_def)

lemma digit_char_digit_val [simp]: "is_digit c \<Longrightarrow> digit_char (digit_val c) = c"
  by (simp add: digit_char_def digit_val_def is_digit_def)

lemma digit_val_less: "is_digit c \<Longrightarrow> digit_val c < 10"
  unfolding digit_val_def is_digit_def by linarith

lemma digit_char_less_iff [simp]:
  "a < 10 \<Longrightarrow> b < 10 \<Longrightarrow> digit_char a < digit_char b \<longleftrightarrow> a < b"
  by (simp add: less_char_def)

lemma digit_char_eq_iff [simp]:
  "a < 10 \<Longrightarrow> b < 10 \<Longrightarrow> digit_char a = digit_char b \<longleftrightarrow> a = b"
  by (metis digit_val_digit_char)

lemma nat_str_digits: "list_all is_digit (nat_str n)"
proof (induction n rule: nat_str.induct)
  case (1 n)
  then show ?case by (subst nat_str.simps) auto
qed

lemma nat_str_nonempty [simp]: "nat_str n \<noteq> []"
  by (subst nat_str.simps) simp

lemma dec_val_append: "dec_val (xs @ [c]) = 10 * dec_val xs + digit_val c"
  by (simp add: dec_val_def)

lemma dec_val_nat_str [simp]: "dec_val (nat_str n) = n"
proof (induction n rule: nat_str.induct)
  case (1 n)
  show ?case
  proof (cases "n < 10")
    case True
    then show ?thesis by (subst nat_str.simps) (simp add: dec_val_def)
  next
    case False
    with 1 show ?thesis by (subst nat_str.simps) (simp add: dec_val_append)
  qed
qed

lemma nat_str_inject [simp]: "nat_str m = nat_str n \<longleftrightarrow> m = n"
  by (metis dec_val_nat_str)

lemma hd_nat_str: "is_digit (hd (nat_str n))"
  using nat_str_digits [of n] by (cases "nat_str n") auto

section \<open>Numbers\<close>

text \<open>The decimal value of a number, trailing zeros moved into the exponent.\<close>

function strip_zeros :: "int \<Rightarrow> int \<Rightarrow> int \<times> int" where
  "strip_zeros m e =
     (if m = 0 then (0, 0)
      else if m mod 10 = 0 then strip_zeros (m div 10) (e + 1) else (m, e))"
  by pat_completeness auto
termination
  by (relation "measure (\<lambda>(m, e). nat \<bar>m\<bar>)") auto

declare strip_zeros.simps [simp del]

fun num_value :: "json \<Rightarrow> (int \<times> int) option" where
  "num_value (JBool b) = Some (if b then (1, 0) else (0, 0))"
| "num_value (JInt i) = Some (strip_zeros i 0)"
| "num_value (JFloat m e) = Some (strip_zeros m e)"
| "num_value _ = None"

text \<open>Truncation of \<open>m * 10^e\<close> toward zero, as \<open>int(float)\<close>.\<close>

definition trunc10 :: "int \<Rightarrow> int \<Rightarrow> int" where
  "trunc10 m e = (if 0 \<le> e then m * 10 ^ nat e else sgn m * (\<bar>m\<bar> div 10 ^ nat (- e)))"

definition is_space :: "char \<Rightarrow> bool" where
  "is_space c \<longleftrightarrow> (let n = (of_char c :: nat) in
     n = 32 \<or> (9 \<le> n \<and> n \<le> 13) \<or> (28 \<le> n \<and> n \<le> 31) \<or> n = 133 \<or> n = 160)"

text \<open>\<open>str.rstrip()\<close>\<close>

definition rstrip :: "string \<Rightarrow> string" where
  "rstrip s = rev (dropWhile is_space (rev s))"

text \<open>\<open>str.lower\<close> on the characters up to \<open>u00FF\<close>\<close>

definition lower_char :: "char \<Rightarrow> char" where
  "lower_char c = (let n = (of_char c :: nat) in
     if (65 \<le> n \<and> n \<le> 90) \<or> (192 \<le> n \<and> n \<le> 222 \<and> n \<noteq> 215) then char_of (n + 32) else c)"

definition py_lower :: "string \<Rightarrow> string" where
  "py_lower s = map lower_char s"

text \<open>\<open>str.casefold()\<close> up to \<open>u00FF\<close>, where only the sharp s grows\<close>

definition casefold :: "string \<Rightarrow> string" where
  "casefold s = concat (map (\<lambda>c. if (of_char c :: nat) = 223 then ''ss'' else [lower_char c]) s)"

text \<open>A SHA-256 digest in lower case\<close>

definition hex_digest_text :: "string \<Rightarrow> bool" where
  "hex_digest_text s \<longleftrightarrow> length s = 64 \<and> list_all (\<lambda>c. c \<in> set ''0123456789abcdef'') s"

text \<open>\<open>str.upper()\<close> of ASCII text\<close>

definition str_upper :: "string \<Rightarrow> string" where
  "str_upper s = map (\<lambda>c. let n = (of_char c :: nat) in
     if 97 \<le> n \<and> n \<le> 122 then char_of (n - 32) else c) s"

text \<open>\<open>str.strip()\<close>\<close>

definition strip_space :: "string \<Rightarrow> string" where
  "strip_space s = rev (dropWhile is_space (rev (dropWhile is_space s)))"

text \<open>Digits with single underscores between them, as the integer literals \<open>int(text)\<close> takes.\<close>

fun digits_us :: "string \<Rightarrow> bool" where
  "digits_us [] = False"
| "digits_us [c] = is_digit c"
| "digits_us (c # d # s) =
     (is_digit c \<and> (if d = CHR ''_'' then digits_us s else digits_us (d # s)))"

definition int_of_text :: "string \<Rightarrow> int option" where
  "int_of_text t =
     (let s = strip_space t;
          (neg, ds) = (case s of
              c # r \<Rightarrow> if c = CHR ''-'' then (True, r) else if c = CHR ''+'' then (False, r)
                      else (False, s)
            | [] \<Rightarrow> (False, []))
      in if digits_us ds
         then Some ((if neg then -1 else 1) * int (dec_val (filter (\<lambda>c. c \<noteq> CHR ''_'') ds)))
         else None)"

text \<open>\<open>int(value)\<close>\<close>

fun py_int :: "json \<Rightarrow> int res" where
  "py_int (JBool b) = Inr (if b then 1 else 0)"
| "py_int (JInt i) = Inr i"
| "py_int (JFloat m e) = Inr (trunc10 m e)"
| "py_int (JStr s) = (case int_of_text s of
      None \<Rightarrow> throw ValueError ''invalid literal for int() with base 10'' | Some i \<Rightarrow> Inr i)"
| "py_int _ = throw TypeError ''int() argument must be a string or a number''"

text \<open>\<open>v == n\<close> against an integer constant, and \<open>v is True\<close>.\<close>

definition eq_int :: "json \<Rightarrow> int \<Rightarrow> bool" where
  "eq_int v n \<longleftrightarrow> num_value v = num_value (JInt n)"

abbreviation is_true :: "json \<Rightarrow> bool" where
  "is_true v \<equiv> v = JBool True"

lemma strip_zeros_pos: "m \<noteq> 0 \<Longrightarrow> fst (strip_zeros m e) \<noteq> 0"
proof (induction m e rule: strip_zeros.induct)
  case (1 m e)
  show ?case
  proof (cases "m mod 10 = 0")
    case True
    with "1.prems" have "m div 10 \<noteq> 0" by auto
    with "1.IH" True "1.prems" have "fst (strip_zeros (m div 10) (e + 1)) \<noteq> 0" by simp
    with True "1.prems" show ?thesis by (subst strip_zeros.simps) simp
  next
    case False
    with "1.prems" show ?thesis by (subst strip_zeros.simps) simp
  qed
qed

lemma strip_zeros_value:
  "\<exists>k. m = fst (strip_zeros m e) * 10 ^ k \<and> (m \<noteq> 0 \<longrightarrow> snd (strip_zeros m e) = e + int k)"
proof (induction m e rule: strip_zeros.induct)
  case (1 m e)
  consider "m = 0" | "m \<noteq> 0" "m mod 10 = 0" | "m \<noteq> 0" "m mod 10 \<noteq> 0" by blast
  then show ?case
  proof cases
    case 1
    then show ?thesis by (subst strip_zeros.simps) (simp add: exI [of _ 0])
  next
    case 2
    then obtain k where k: "m div 10 = fst (strip_zeros (m div 10) (e + 1)) * 10 ^ k"
      "m div 10 \<noteq> 0 \<longrightarrow> snd (strip_zeros (m div 10) (e + 1)) = e + 1 + int k"
      using "1.IH" 2 by blast
    from 2 have eq: "strip_zeros m e = strip_zeros (m div 10) (e + 1)"
      by (subst strip_zeros.simps) simp
    from 2 have m: "m = (m div 10) * 10" and nz: "m div 10 \<noteq> 0" by auto
    have "m = fst (strip_zeros m e) * 10 ^ Suc k"
      unfolding eq by (subst m, subst k(1)) simp
    moreover have "snd (strip_zeros m e) = e + int (Suc k)"
      unfolding eq using k(2) nz by simp
    ultimately show ?thesis by blast
  next
    case 3
    then show ?thesis by (subst (1 2) strip_zeros.simps) (simp add: exI [of _ 0])
  qed
qed

lemma eq_int_JInt [simp]: "eq_int (JInt i) n \<longleftrightarrow> i = n"
proof
  assume "eq_int (JInt i) n"
  then have eq: "strip_zeros i 0 = strip_zeros n 0" by (simp add: eq_int_def)
  obtain j where j: "i = fst (strip_zeros i 0) * 10 ^ j"
    "i \<noteq> 0 \<longrightarrow> snd (strip_zeros i 0) = int j" using strip_zeros_value [of i 0] by auto
  obtain k where k: "n = fst (strip_zeros n 0) * 10 ^ k"
    "n \<noteq> 0 \<longrightarrow> snd (strip_zeros n 0) = int k" using strip_zeros_value [of n 0] by auto
  show "i = n"
  proof (cases "i = 0 \<or> n = 0")
    case True
    moreover have "strip_zeros 0 0 = (0, 0)" by (simp add: strip_zeros.simps)
    ultimately show ?thesis
      using eq strip_zeros_pos [of i 0] strip_zeros_pos [of n 0] by fastforce
  next
    case False
    with eq j(2) k(2) have "j = k" by simp
    with eq j(1) k(1) show ?thesis by simp
  qed
qed (simp add: eq_int_def)

lemma eq_int_other [simp]:
  "\<not> eq_int JNull n" "\<not> eq_int (JStr s) n" "\<not> eq_int (JArr xs) n" "\<not> eq_int (JObj kvs) n"
  by (simp_all add: eq_int_def)

section \<open>Equality, text and well-formed dicts\<close>

text \<open>
  A normal form for \<open>==\<close>: numbers by value (\<open>True == 1 == 1.0\<close>), dicts up to the order of their
  keys. Two values compare equal exactly when their normal forms are the same term.
\<close>

definition norm_num :: "int \<Rightarrow> int \<Rightarrow> json" where
  "norm_num m e = (let (a, b) = strip_zeros m e in JFloat a b)"

primrec py_norm :: "json \<Rightarrow> json" where
  "py_norm JNull = JNull"
| "py_norm (JBool b) = norm_num (if b then 1 else 0) 0"
| "py_norm (JInt i) = norm_num i 0"
| "py_norm (JFloat m e) = norm_num m e"
| "py_norm (JStr s) = JStr s"
| "py_norm (JArr xs) = JArr (map py_norm xs)"
| "py_norm (JObj kvs) = JObj (sort_key fst (map (map_prod id py_norm) kvs))"

definition py_eq :: "json \<Rightarrow> json \<Rightarrow> bool" where
  "py_eq a b \<longleftrightarrow> py_norm a = py_norm b"

lemma py_eq_refl [simp]: "py_eq a a"
  by (simp add: py_eq_def)

lemma py_eq_sym: "py_eq a b \<Longrightarrow> py_eq b a"
  by (simp add: py_eq_def)

lemma py_eq_trans: "py_eq a b \<Longrightarrow> py_eq b c \<Longrightarrow> py_eq a c"
  by (simp add: py_eq_def)

lemma norm_num_neq [simp]:
  "norm_num m e \<noteq> JNull" "norm_num m e \<noteq> JStr s" "norm_num m e \<noteq> JArr xs"
  "norm_num m e \<noteq> JObj kvs" "JNull \<noteq> norm_num m e" "JStr s \<noteq> norm_num m e"
  "JArr xs \<noteq> norm_num m e" "JObj kvs \<noteq> norm_num m e"
  by (simp_all add: norm_num_def split: prod.splits)

lemma py_eq_JStr [simp]: "py_eq v (JStr s) \<longleftrightarrow> v = JStr s" "py_eq (JStr s) v \<longleftrightarrow> v = JStr s"
  by (cases v; auto simp: py_eq_def)+

lemma py_eq_JNull [simp]: "py_eq v JNull \<longleftrightarrow> v = JNull" "py_eq JNull v \<longleftrightarrow> v = JNull"
  by (cases v; auto simp: py_eq_def)+

lemma py_eq_JInt: "py_eq v (JInt n) \<longleftrightarrow> eq_int v n"
proof -
  have *: "norm_num m e = norm_num n 0 \<longleftrightarrow> strip_zeros m e = strip_zeros n 0" for m e
    by (auto simp: norm_num_def split: prod.splits)
  have one: "strip_zeros 1 0 = (1, 0)" "strip_zeros 0 0 = (0, 0)"
    by (simp_all add: strip_zeros.simps)
  show ?thesis
    by (cases v) (auto simp: py_eq_def eq_int_def * one)
qed

text \<open>Every key of every dict inside the value occurs once, as in any Python dict.\<close>

primrec json_wf :: "json \<Rightarrow> bool" where
  "json_wf JNull = True"
| "json_wf (JBool b) = True"
| "json_wf (JInt i) = True"
| "json_wf (JFloat m e) = True"
| "json_wf (JStr s) = True"
| "json_wf (JArr xs) = list_all id (map json_wf xs)"
| "json_wf (JObj kvs) =
     (distinct (map fst kvs) \<and> list_all id (map snd (map (map_prod id json_wf) kvs)))"

lemma json_wf_JObj: "json_wf (JObj kvs) \<longleftrightarrow> distinct (map fst kvs) \<and> (\<forall>(k, v) \<in> set kvs. json_wf v)"
  by (auto simp: list_all_iff)

lemma json_wf_JArr: "json_wf (JArr xs) \<longleftrightarrow> (\<forall>x \<in> set xs. json_wf x)"
  by (auto simp: list_all_iff)

lemma json_wf_jset: "json_wf v \<Longrightarrow> is_dict v \<Longrightarrow> json_wf x \<Longrightarrow> json_wf (jset k x v)"
proof -
  assume v: "json_wf v" "is_dict v" and x: "json_wf x"
  then obtain kvs where "v = JObj kvs" by (auto simp: is_dict_iff)
  moreover have "set (AList.update k x kvs) \<subseteq> insert (k, x) (set kvs)"
    by (induction kvs) auto
  ultimately show ?thesis
    using v x by (fastforce simp: jset_def json_wf_JObj distinct_update simp del: json_wf.simps)
qed

text \<open>\<open>repr(float)\<close> from the shortest digits: fixed notation for exponents -4 to 15.\<close>

definition float_str :: "int \<Rightarrow> int \<Rightarrow> string" where
  "float_str m0 e0 =
     (let (m, e) = strip_zeros m0 e0;
          ds = nat_str (nat \<bar>m\<bar>);
          pt = int (length ds) + (if m = 0 then 0 else e);
          sign = (if m < 0 then ''-'' else '''');
          body =
            (if m = 0 then ''0.0''
             else if -4 < pt \<and> pt \<le> 16 then
               (if pt \<le> 0 then ''0.'' @ replicate (nat (- pt)) (CHR ''0'') @ ds
                else if int (length ds) \<le> pt
                  then ds @ replicate (nat (pt - int (length ds))) (CHR ''0'') @ ''.0''
                else take (nat pt) ds @ ''.'' @ drop (nat pt) ds)
             else (let x = pt - 1; xs = nat_str (nat \<bar>x\<bar>) in
               take 1 ds @ (if length ds = 1 then '''' else ''.'' @ drop 1 ds) @ ''e'' @
               (if x < 0 then ''-'' else ''+'') @ (if length xs < 2 then ''0'' @ xs else xs)))
      in sign @ body)"

definition hex_digit :: "nat \<Rightarrow> char" where
  "hex_digit n = (if n < 10 then digit_char n else char_of (87 + n))"

definition repr_char :: "char \<Rightarrow> char \<Rightarrow> string" where
  "repr_char q c =
     (let n = (of_char c :: nat) in
      if c = q \<or> n = 92 then [CHR 0x5C, c]
      else if n = 9 then [CHR 0x5C, CHR ''t''] else if n = 10 then [CHR 0x5C, CHR ''n'']
      else if n = 13 then [CHR 0x5C, CHR ''r'']
      else if n < 32 \<or> (127 \<le> n \<and> n \<le> 160) \<or> n = 173
        then [CHR 0x5C, CHR ''x'', hex_digit (n div 16), hex_digit (n mod 16)]
      else [c])"

definition repr_str :: "string \<Rightarrow> string" where
  "repr_str s =
     (let q = (if CHR 0x27 \<in> set s \<and> CHR 0x22 \<notin> set s then CHR 0x22 else CHR 0x27)
      in q # concat (map (repr_char q) s) @ [q])"

primrec py_repr :: "json \<Rightarrow> string" where
  "py_repr JNull = ''None''"
| "py_repr (JBool b) = (if b then ''True'' else ''False'')"
| "py_repr (JInt i) = int_str i"
| "py_repr (JFloat m e) = float_str m e"
| "py_repr (JStr s) = repr_str s"
| "py_repr (JArr xs) = ''['' @ join '', '' (map py_repr xs) @ '']''"
| "py_repr (JObj kvs) =
     ''{'' @ join '', '' (map (\<lambda>(k, t). repr_str k @ '': '' @ t) (map (map_prod id py_repr) kvs))
     @ ''}''"

definition py_str :: "json \<Rightarrow> string" where
  "py_str v = (case v of JStr s \<Rightarrow> s | _ \<Rightarrow> py_repr v)"

lemma py_str_JStr [simp]: "py_str (JStr s) = s"
  by (simp add: py_str_def)

text \<open>\<open>str(v.get(k) or "")\<close>, the idiom the loaders use for text fields.\<close>

definition text_field :: "string \<Rightarrow> json \<Rightarrow> string" where
  "text_field k v = py_str (py_or (get_none k v) (JStr ''''))"

definition opt_str :: "string option \<Rightarrow> json" where
  "opt_str v = (case v of None \<Rightarrow> JNull | Some s \<Rightarrow> JStr s)"

lemmas json_unfold = get_or_def jitem_def py_or_def text_field_def

declare py_or_def [py_simps] get_or_def [py_simps] jitem_def [py_simps] text_field_def [py_simps]

text \<open>
  Operations that raise on a value of the wrong kind: iterating (a dict yields its keys, a string
  its characters), \<open>len\<close>, and the method \<open>get\<close>, which only a dict has.
\<close>

fun py_iter :: "json \<Rightarrow> json list res" where
  "py_iter (JArr xs) = Inr xs"
| "py_iter (JObj kvs) = Inr (map (\<lambda>p. JStr (fst p)) kvs)"
| "py_iter (JStr s) = Inr (map (\<lambda>c. JStr [c]) s)"
| "py_iter _ = throw TypeError ''object is not iterable''"

fun py_len :: "json \<Rightarrow> int res" where
  "py_len (JArr xs) = Inr (int (length xs))"
| "py_len (JObj kvs) = Inr (int (length kvs))"
| "py_len (JStr s) = Inr (int (length s))"
| "py_len _ = throw TypeError ''object has no len()''"

definition dget :: "string \<Rightarrow> json \<Rightarrow> json \<Rightarrow> json res" where
  "dget k d v = (if is_dict v then Inr (get_or k d v) else throw AttributeError ''get'')"

abbreviation dget_none :: "string \<Rightarrow> json \<Rightarrow> json res" where
  "dget_none k v \<equiv> dget k JNull v"

lemma dget_dict [simp]: "is_dict v \<Longrightarrow> dget k d v = Inr (get_or k d v)"
  by (simp add: dget_def)

text \<open>\<open>str(exc)\<close>: a \<open>KeyError\<close> prints the \<open>repr\<close> of its key.\<close>

definition exn_str :: "exn \<Rightarrow> string" where
  "exn_str e = (if exn_class e = KeyError then repr_str (exn_text e) else exn_text e)"

text \<open>\<open>v.get(k, {})\<close> and the guard \<open>isinstance\<close> the code puts around optional sections\<close>

definition dict_field :: "string \<Rightarrow> json \<Rightarrow> json" where
  "dict_field k v = (if is_dict v then get_or k (JObj []) v else JObj [])"

definition opt_int :: "int option \<Rightarrow> json" where
  "opt_int v = (case v of None \<Rightarrow> JNull | Some i \<Rightarrow> JInt i)"

lemma jdel_jset_new:
  assumes "is_dict v" "jget k v = None"
  shows "jdel k (jset k x v) = v"
proof -
  obtain kvs where v: "v = JObj kvs" using assms(1) by (auto simp: is_dict_iff)
  with assms(2) have k: "k \<notin> fst ` set kvs" by (auto simp: map_of_eq_None_iff)
  then have "AList.update k x kvs = kvs @ [(k, x)]" by (induction kvs) auto
  with k show ?thesis by (auto simp: jdel_def jset_def v intro: filter_True)
qed

lemma get_or_JObj: "get_or k d (JObj kvs) = (case map_of kvs k of None \<Rightarrow> d | Some x \<Rightarrow> x)"
  by (simp add: get_or_def)

lemma text_field_JStr: "jget k v = Some (JStr s) \<Longrightarrow> text_field k v = s"
  by (cases s) (simp_all add: text_field_def py_or_def get_or_def)

end
