(* ===== verification/Psm_JsonText.thy ===== *)
theory Psm_JsonText
  imports Psm_Json
begin

text \<open>
  The text form of the values: \<open>dumps\<close> is \<open>json.dumps\<close> with sorted keys, compact separators and
  \<open>ensure_ascii=False\<close>, which \<open>signing.canonical_json_bytes\<close> encodes as UTF-8, and \<open>loads\<close> is
  \<open>json.loads\<close>. The theory proves that \<open>loads\<close> inverts \<open>dumps\<close> up to the order of the keys, so the
  canonical bytes determine the value that was signed, hashed or stored. \<open>loads\<close> keeps the exact
  decimal value of a float; the literals \<open>NaN\<close> and \<open>Infinity\<close> and escapes beyond \<open>u00FF\<close> have no
  counterpart in the value type and are rejected.
\<close>

section \<open>Writing\<close>

definition dump_char :: "char \<Rightarrow> string" where
  "dump_char c =
     (let n = (of_char c :: nat) in
      if n = 34 \<or> n = 92 then [CHR 0x5C, c]
      else if n = 8 then [CHR 0x5C, CHR ''b''] else if n = 9 then [CHR 0x5C, CHR ''t'']
      else if n = 10 then [CHR 0x5C, CHR ''n''] else if n = 12 then [CHR 0x5C, CHR ''f'']
      else if n = 13 then [CHR 0x5C, CHR ''r'']
      else if n < 32 then [CHR 0x5C, CHR ''u'', CHR ''0'', CHR ''0'', hex_digit (n div 16),
        hex_digit (n mod 16)]
      else [c])"

definition dump_str :: "string \<Rightarrow> string" where
  "dump_str s = CHR 0x22 # concat (map dump_char s) @ [CHR 0x22]"

text \<open>The first argument is what follows the \<open>,\<close> and \<open>:\<close> of the separators.\<close>

primrec dumps_with :: "string \<Rightarrow> json \<Rightarrow> string" where
  "dumps_with w JNull = ''null''"
| "dumps_with w (JBool b) = (if b then ''true'' else ''false'')"
| "dumps_with w (JInt i) = int_str i"
| "dumps_with w (JFloat m e) = float_str m e"
| "dumps_with w (JStr s) = dump_str s"
| "dumps_with w (JArr xs) = CHR ''['' # join (CHR '','' # w) (map (dumps_with w) xs) @ '']''"
| "dumps_with w (JObj kvs) = CHR ''{'' #
     join (CHR '','' # w) (map (\<lambda>(k, t). dump_str k @ CHR '':'' # w @ t)
       (sort_key fst (map (map_prod id (dumps_with w)) kvs))) @ ''}''"

text \<open>\<open>separators=(",", ":")\<close> and the default separators\<close>

definition dumps :: "json \<Rightarrow> string" where
  "dumps v = dumps_with '''' v"

definition dumps_spaced :: "json \<Rightarrow> string" where
  "dumps_spaced v = dumps_with '' '' v"

definition utf8_char :: "char \<Rightarrow> string" where
  "utf8_char c = (let n = (of_char c :: nat) in
     if n < 128 then [c] else [char_of (192 + n div 64), char_of (128 + n mod 64)])"

definition utf8 :: "string \<Rightarrow> string" where
  "utf8 s = concat (map utf8_char s)"

definition canonical_json_bytes :: "json \<Rightarrow> string" where
  "canonical_json_bytes v = utf8 (dumps v)"

text \<open>The escapes of \<open>ensure_ascii\<close>, which only occur inside the strings of a JSON text\<close>

definition ensure_ascii :: "string \<Rightarrow> string" where
  "ensure_ascii s = concat (map (\<lambda>c. let n = (of_char c :: nat) in
     if n < 127 then [c] else CHR 0x5C # ''u00'' @ [hex_digit (n div 16), hex_digit (n mod 16)]) s)"

section \<open>Reading\<close>

definition json_ws :: "char \<Rightarrow> bool" where
  "json_ws c \<longleftrightarrow> c = CHR '' '' \<or> c = CHR 0x09 \<or> c = CHR 0x0A \<or> c = CHR 0x0D"

definition skip_ws :: "string \<Rightarrow> string" where
  "skip_ws s = dropWhile json_ws s"

definition hex_val :: "char \<Rightarrow> nat option" where
  "hex_val c = (let n = (of_char c :: nat) in
     if 48 \<le> n \<and> n \<le> 57 then Some (n - 48)
     else if 97 \<le> n \<and> n \<le> 102 then Some (n - 87)
     else if 65 \<le> n \<and> n \<le> 70 then Some (n - 55) else None)"

definition unescape :: "char \<Rightarrow> char option" where
  "unescape c =
     (if c = CHR 0x22 \<or> c = CHR 0x5C \<or> c = CHR ''/'' then Some c
      else if c = CHR ''b'' then Some (CHR 0x08) else if c = CHR ''f'' then Some (CHR 0x0C)
      else if c = CHR ''n'' then Some (CHR 0x0A) else if c = CHR ''r'' then Some (CHR 0x0D)
      else if c = CHR ''t'' then Some (CHR 0x09) else None)"

definition hex4 :: "char \<Rightarrow> char \<Rightarrow> char \<Rightarrow> char \<Rightarrow> char option" where
  "hex4 a b c d = (case (hex_val a, hex_val b, hex_val c, hex_val d) of
     (Some w, Some x, Some y, Some z) \<Rightarrow>
       if w = 0 \<and> x = 0 then Some (char_of (16 * y + z)) else None
   | _ \<Rightarrow> None)"

fun parse_str :: "string \<Rightarrow> (string \<times> string) option" where
  "parse_str [] = None"
| "parse_str (c # r) =
     (if c = CHR 0x22 then Some ([], r)
      else if c = CHR 0x5C then
        (case r of [] \<Rightarrow> None
         | e # r1 \<Rightarrow>
           if e = CHR ''u'' then
             (case r1 of h1 # h2 # h3 # h4 # r2 \<Rightarrow>
                (case hex4 h1 h2 h3 h4 of None \<Rightarrow> None
                 | Some x \<Rightarrow> map_option (\<lambda>(s, t). (x # s, t)) (parse_str r2))
              | _ \<Rightarrow> None)
           else (case unescape e of None \<Rightarrow> None
                 | Some x \<Rightarrow> map_option (\<lambda>(s, t). (x # s, t)) (parse_str r1)))
      else if (of_char c :: nat) < 32 then None
      else map_option (\<lambda>(s, t). (c # s, t)) (parse_str r))"

definition parse_frac :: "string \<Rightarrow> string \<times> string" where
  "parse_frac s = (case s of c # d # r \<Rightarrow>
       if c = CHR ''.'' \<and> is_digit d then (takeWhile is_digit (d # r), dropWhile is_digit (d # r))
       else ([], s)
     | _ \<Rightarrow> ([], s))"

definition parse_exp :: "string \<Rightarrow> int option \<times> string" where
  "parse_exp s = (case s of [] \<Rightarrow> (None, s)
     | c # r \<Rightarrow>
       if c = CHR ''e'' \<or> c = CHR ''E'' then
         (let neg = (r \<noteq> [] \<and> hd r = CHR ''-'');
              r1 = (if r \<noteq> [] \<and> (hd r = CHR ''-'' \<or> hd r = CHR ''+'') then tl r else r);
              ds = takeWhile is_digit r1
          in if ds = [] then (None, s)
             else (Some ((if neg then -1 else 1) * int (dec_val ds)), dropWhile is_digit r1))
       else (None, s))"

definition parse_num :: "string \<Rightarrow> (json \<times> string) option" where
  "parse_num s0 =
     (let neg = (s0 \<noteq> [] \<and> hd s0 = CHR ''-'');
          s = (if neg then tl s0 else s0);
          ds0 = takeWhile is_digit s;
          ds = (if ds0 \<noteq> [] \<and> hd ds0 = CHR ''0'' then ''0'' else ds0);
          r = drop (length ds) s;
          (fs, r1) = parse_frac r;
          (ex, r2) = parse_exp r1;
          sg = (if neg then -1 else 1 :: int)
      in if ds = [] then None
         else if fs = [] \<and> ex = None then Some (JInt (sg * int (dec_val ds)), r2)
         else (let (m, e) = strip_zeros (sg * int (dec_val (ds @ fs)))
                 ((case ex of None \<Rightarrow> 0 | Some x \<Rightarrow> x) - int (length fs))
               in Some (JFloat m e, r2)))"

definition dict_of :: "(string \<times> json) list \<Rightarrow> (string \<times> json) list" where
  "dict_of kvs = foldl (\<lambda>d (k, v). AList.update k v d) [] kvs"

fun parse_value :: "nat \<Rightarrow> string \<Rightarrow> (json \<times> string) option"
  and parse_elems :: "nat \<Rightarrow> string \<Rightarrow> (json list \<times> string) option"
  and parse_members :: "nat \<Rightarrow> string \<Rightarrow> ((string \<times> json) list \<times> string) option" where
  "parse_value 0 s = None"
| "parse_value (Suc n) s0 =
     (let s = skip_ws s0 in case s of [] \<Rightarrow> None | c # r \<Rightarrow>
      if c = CHR 0x22 then map_option (\<lambda>(t, q). (JStr t, q)) (parse_str r)
      else if c = CHR ''['' then
        (let r1 = skip_ws r in
         if r1 \<noteq> [] \<and> hd r1 = CHR '']'' then Some (JArr [], tl r1)
         else map_option (\<lambda>(xs, q). (JArr xs, q)) (parse_elems n r1))
      else if c = CHR ''{'' then
        (let r1 = skip_ws r in
         if r1 \<noteq> [] \<and> hd r1 = CHR ''}'' then Some (JObj [], tl r1)
         else map_option (\<lambda>(kvs, q). (JObj (dict_of kvs), q)) (parse_members n r1))
      else if starts_with ''null'' s then Some (JNull, drop 4 s)
      else if starts_with ''true'' s then Some (JBool True, drop 4 s)
      else if starts_with ''false'' s then Some (JBool False, drop 5 s)
      else parse_num s)"
| "parse_elems 0 s = None"
| "parse_elems (Suc n) s =
     (case parse_value n s of None \<Rightarrow> None
      | Some (v, s1) \<Rightarrow>
        (let s2 = skip_ws s1 in
         if s2 = [] then None
         else if hd s2 = CHR '','' then
           map_option (\<lambda>(vs, q). (v # vs, q)) (parse_elems n (tl s2))
         else if hd s2 = CHR '']'' then Some ([v], tl s2)
         else None))"
| "parse_members 0 s = None"
| "parse_members (Suc n) s =
     (let s0 = skip_ws s in
      if s0 = [] \<or> hd s0 \<noteq> CHR 0x22 then None
      else (case parse_str (tl s0) of None \<Rightarrow> None
      | Some (k, s1) \<Rightarrow>
        (let s2 = skip_ws s1 in
         if s2 = [] \<or> hd s2 \<noteq> CHR '':'' then None
         else (case parse_value n (tl s2) of None \<Rightarrow> None
           | Some (v, s3) \<Rightarrow>
             (let s4 = skip_ws s3 in
              if s4 = [] then None
              else if hd s4 = CHR '','' then
                map_option (\<lambda>(kvs, q). ((k, v) # kvs, q)) (parse_members n (tl s4))
              else if hd s4 = CHR ''}'' then Some ([(k, v)], tl s4)
              else None)))))"

text \<open>Each recursive call consumes a character first, so the length of the text is enough fuel.\<close>

definition loads :: "string \<Rightarrow> json option" where
  "loads s = (case parse_value (Suc (length s)) s of
     Some (v, r) \<Rightarrow> if skip_ws r = [] then Some v else None
   | None \<Rightarrow> None)"

section \<open>Reading what was written\<close>

primrec canon :: "json \<Rightarrow> json" where
  "canon JNull = JNull"
| "canon (JBool b) = JBool b"
| "canon (JInt i) = JInt i"
| "canon (JFloat m e) = JFloat m e"
| "canon (JStr s) = JStr s"
| "canon (JArr xs) = JArr (map canon xs)"
| "canon (JObj kvs) = JObj (sort_key fst (map (map_prod id canon) kvs))"

primrec float_free :: "json \<Rightarrow> bool" where
  "float_free JNull = True"
| "float_free (JBool b) = True"
| "float_free (JInt i) = True"
| "float_free (JFloat m e) = False"
| "float_free (JStr s) = True"
| "float_free (JArr xs) = list_all id (map float_free xs)"
| "float_free (JObj kvs) = list_all id (map snd (map (map_prod id float_free) kvs))"

lemma insort_key_map_prod:
  "insort_key fst (k, f v) (map (map_prod id f) kvs) =
   map (map_prod id f) (insort_key fst (k, v) kvs)"
  by (induction kvs) auto

lemma sort_key_map_prod:
  "sort_key fst (map (map_prod id f) kvs) = map (map_prod id f) (sort_key fst kvs)"
proof (induction kvs)
  case (Cons p kvs)
  then show ?case by (cases p) (simp add: insort_key_map_prod [unfolded id_def] id_def)
qed simp

lemma map_of_sort_key:
  assumes "distinct (map fst kvs)"
  shows "map_of (sort_key fst kvs) = map_of kvs"
proof (rule map_of_inject_set [THEN iffD2])
  show "distinct (map fst (sort_key fst kvs))"
    using assms by (simp add: distinct_map)
qed (use assms in simp_all)

lemma hex_val_hex_digit [simp]: "n < 16 \<Longrightarrow> hex_val (hex_digit n) = Some n"
  by (simp add: hex_val_def hex_digit_def Let_def)

lemma char_of_of_char_eq: "(of_char c :: nat) = n \<Longrightarrow> c = char_of n"
  by auto

lemma hex4_low:
  assumes "n < 256"
  shows "hex4 (CHR ''0'') (CHR ''0'') (hex_digit (n div 16)) (hex_digit (n mod 16)) = Some (char_of n)"
proof -
  have "n div 16 < 16" using assms by (simp add: less_mult_imp_div_less)
  moreover have "n mod 16 < 16" by simp
  moreover have "hex_val (CHR ''0'') = Some 0" by code_simp
  moreover have "16 * (n div 16) + n mod 16 = n" by (rule mult_div_mod_eq)
  ultimately show ?thesis by (simp only: hex4_def prod.case option.case hex_val_hex_digit) simp
qed

lemma parse_dump_char: "parse_str (dump_char c @ r) = map_option (\<lambda>(s, t). (c # s, t)) (parse_str r)"
proof -
  let ?n = "of_char c :: nat"
  consider "?n \<in> {34, 92, 8, 9, 10, 12, 13}" | "?n \<notin> {34, 92, 8, 9, 10, 12, 13}" "?n < 32"
    | "?n \<notin> {34, 92, 8, 9, 10, 12, 13}" "\<not> ?n < 32" by blast
  then show ?thesis
  proof cases
    case 1
    then have "?n \<in> of_char ` {CHR 0x22, CHR 0x5C, CHR 0x08, CHR 0x09, CHR 0x0A, CHR 0x0C, CHR 0x0D}"
      by simp
    then obtain x where x: "x \<in> {CHR 0x22, CHR 0x5C, CHR 0x08, CHR 0x09, CHR 0x0A, CHR 0x0C, CHR 0x0D}"
      and "?n = of_char x" by (elim imageE)
    then have "c = x" by simp
    with x show ?thesis
      by (elim insertE emptyE) (simp_all add: dump_char_def unescape_def)
  next
    case 2
    then have "dump_char c = [CHR 0x5C, CHR ''u'', CHR ''0'', CHR ''0'', hex_digit (?n div 16),
        hex_digit (?n mod 16)]"
      by (simp add: dump_char_def Let_def)
    with hex4_low [of ?n] show ?thesis by simp
  next
    case 3
    then have "c \<noteq> CHR 0x22" "c \<noteq> CHR 0x5C" by auto
    with 3 show ?thesis by (simp add: dump_char_def)
  qed
qed

lemma parse_str_dump: "parse_str (concat (map dump_char s) @ CHR 0x22 # r) = Some (s, r)"
  by (induction s) (simp_all add: parse_dump_char)

definition num_stop :: "string \<Rightarrow> bool" where
  "num_stop r \<longleftrightarrow> r = [] \<or> (\<not> is_digit (hd r) \<and> hd r \<noteq> CHR ''.'' \<and> hd r \<noteq> CHR ''e'' \<and> hd r \<noteq> CHR ''E'')"

lemma digit_char_zero: "digit_char n = CHR ''0'' \<Longrightarrow> n < 10 \<Longrightarrow> n = 0"
proof -
  assume "digit_char n = CHR ''0''" "n < 10"
  moreover have "digit_char 0 = CHR ''0''" by code_simp
  ultimately have "digit_val (digit_char n) = digit_val (digit_char 0)" by simp
  with \<open>n < 10\<close> show ?thesis by simp
qed

lemma nat_str_no_zero: "0 < n \<Longrightarrow> hd (nat_str n) \<noteq> CHR ''0''"
proof (induction n rule: nat_str.induct)
  case (1 n)
  show ?case
  proof (cases "n < 10")
    case True
    with "1.prems" show ?thesis
      by (subst nat_str.simps) (auto dest: digit_char_zero)
  next
    case False
    then have "0 < n div 10" by auto
    with "1.IH" False show ?thesis by (subst nat_str.simps) simp
  qed
qed

lemma takeWhile_digits: "num_stop r \<Longrightarrow> list_all is_digit ds \<Longrightarrow> takeWhile is_digit (ds @ r) = ds"
  by (cases r) (auto simp: takeWhile_append2 list_all_iff num_stop_def takeWhile_append)

lemma parse_frac_stop: "num_stop r \<Longrightarrow> parse_frac r = ([], r)"
  by (auto simp: parse_frac_def num_stop_def split: list.splits)

lemma parse_exp_stop: "num_stop r \<Longrightarrow> parse_exp r = (None, r)"
  by (auto simp: parse_exp_def num_stop_def split: list.splits)

lemma parse_num_digits:
  assumes "num_stop r" "list_all is_digit ds" "ds \<noteq> []" "hd ds \<noteq> CHR ''0'' \<or> ds = ''0''"
  shows "parse_num (ds @ r) = Some (JInt (int (dec_val ds)), r)"
    and "parse_num (CHR ''-'' # ds @ r) = Some (JInt (- int (dec_val ds)), r)"
proof -
  have t: "takeWhile is_digit (ds @ r) = ds" using assms by (intro takeWhile_digits)
  have h: "hd (ds @ r) \<noteq> CHR ''-''" using assms(2,3) by (cases ds) (auto simp: is_digit_def)
  note f = parse_frac_stop [OF assms(1)] parse_exp_stop [OF assms(1)]
  from assms(4) show "parse_num (ds @ r) = Some (JInt (int (dec_val ds)), r)"
  proof
    assume "hd ds \<noteq> CHR ''0''"
    with t h f assms(3) show ?thesis by (simp add: parse_num_def Let_def)
  next
    assume "ds = ''0''"
    with t h f show ?thesis by (simp add: parse_num_def Let_def)
  qed
  from assms(4) show "parse_num (CHR ''-'' # ds @ r) = Some (JInt (- int (dec_val ds)), r)"
  proof
    assume "hd ds \<noteq> CHR ''0''"
    with t f assms(3) show ?thesis by (simp add: parse_num_def Let_def)
  next
    assume "ds = ''0''"
    with t f show ?thesis by (simp add: parse_num_def Let_def)
  qed
qed

lemma nat_str_lead: "hd (nat_str n) \<noteq> CHR ''0'' \<or> nat_str n = ''0''"
  by (cases "n = 0") (auto simp: nat_str_no_zero nat_str.simps [of 0] digit_char_def)

lemma parse_num_nat:
  assumes "num_stop r"
  shows "parse_num (nat_str n @ r) = Some (JInt (int n), r)"
    and "parse_num (CHR ''-'' # nat_str n @ r) = Some (JInt (- int n), r)"
  using parse_num_digits [OF assms nat_str_digits nat_str_nonempty nat_str_lead, of n] by simp_all

lemma parse_num_int: "num_stop r \<Longrightarrow> parse_num (int_str i @ r) = Some (JInt i, r)"
  using parse_num_nat(1) [of r "nat i"] parse_num_nat(2) [of r "nat (- i)"]
  by (auto simp: int_str_def)

lemma hd_int_str: "is_digit (hd (int_str i)) \<or> hd (int_str i) = CHR ''-''"
  using hd_nat_str by (auto simp: int_str_def)

lemma int_str_nonempty [simp]: "int_str i \<noteq> []"
  by (simp add: int_str_def)

lemma dumps_nonempty: "dumps_with w v \<noteq> []"
  by (cases v) (auto simp: dump_str_def float_str_def Let_def split: prod.splits)

lemma skip_ws_digit: "is_digit c \<or> c = CHR ''-'' \<Longrightarrow> \<not> json_ws c"
  by (auto simp: json_ws_def is_digit_def)

lemma skip_ws_simps [simp]:
  "skip_ws [] = []"
  "\<not> json_ws c \<Longrightarrow> skip_ws (c # s) = c # s"
  by (simp_all add: skip_ws_def)

lemma json_ws_marks [simp]:
  "\<not> json_ws (CHR 0x22)" "\<not> json_ws (CHR ''['')" "\<not> json_ws (CHR '']'')" "\<not> json_ws (CHR ''{'')"
  "\<not> json_ws (CHR ''}'')" "\<not> json_ws (CHR '','')" "\<not> json_ws (CHR '':'')" "\<not> json_ws (CHR ''n'')"
  "\<not> json_ws (CHR ''t'')" "\<not> json_ws (CHR ''f'')"
  by (simp_all add: json_ws_def)

lemma num_stop_marks [simp]:
  "num_stop []" "num_stop (CHR '','' # r)" "num_stop (CHR '']'' # r)" "num_stop (CHR ''}'' # r)"
  by (simp_all add: num_stop_def is_digit_def)

declare parse_value.simps [simp del]

lemma parse_value_null [simp]: "parse_value (Suc n) (CHR ''n'' # CHR ''u'' # CHR ''l'' # CHR ''l'' # r) = Some (JNull, r)"
  by (simp add: parse_value.simps starts_with_def)

lemma parse_value_true [simp]: "parse_value (Suc n) (CHR ''t'' # CHR ''r'' # CHR ''u'' # CHR ''e'' # r) = Some (JBool True, r)"
  by (simp add: parse_value.simps starts_with_def)

lemma parse_value_false [simp]: "parse_value (Suc n) (CHR ''f'' # CHR ''a'' # CHR ''l'' # CHR ''s'' # CHR ''e'' # r) = Some (JBool False, r)"
  by (simp add: parse_value.simps starts_with_def)

lemma parse_value_str: "parse_value (Suc n) (dump_str s @ r) = Some (JStr s, r)"
  by (simp add: parse_value.simps dump_str_def parse_str_dump)

lemma parse_value_arr:
  "parse_value (Suc n) (CHR ''['' # CHR '']'' # r) = Some (JArr [], r)"
  "\<lbrakk>s \<noteq> []; hd s \<noteq> CHR '']''; \<not> json_ws (hd s); parse_elems n s = Some (xs, r)\<rbrakk> \<Longrightarrow>
   parse_value (Suc n) (CHR ''['' # s) = Some (JArr xs, r)"
  by (simp add: parse_value.simps) (cases s; simp add: parse_value.simps)

lemma parse_value_obj:
  "parse_value (Suc n) (CHR ''{'' # CHR ''}'' # r) = Some (JObj [], r)"
  "\<lbrakk>s \<noteq> []; hd s = CHR 0x22; parse_members n s = Some (kvs, r)\<rbrakk> \<Longrightarrow>
   parse_value (Suc n) (CHR ''{'' # s) = Some (JObj (dict_of kvs), r)"
  by (simp add: parse_value.simps) (cases s; simp add: parse_value.simps)

lemma parse_value_int:
  assumes "num_stop r"
  shows "parse_value (Suc n) (int_str i @ r) = Some (JInt i, r)"
proof -
  obtain c s where cs: "int_str i = c # s" by (cases "int_str i") auto
  with hd_int_str [of i] have c: "is_digit c \<or> c = CHR ''-''" by simp
  then have "c \<noteq> CHR 0x22" "c \<noteq> CHR ''[''" "c \<noteq> CHR ''{''" "c \<noteq> CHR ''n''" "c \<noteq> CHR ''t''"
    "c \<noteq> CHR ''f''" "\<not> json_ws c"
    by (auto simp: is_digit_def json_ws_def)
  with parse_num_int [OF assms, of i] cs show ?thesis
    by (simp add: starts_with_def parse_value.simps)
qed

text \<open>What reading a written value means: the value comes back and the rest is untouched.\<close>

lemma skip_ws_append [simp]: "list_all json_ws w \<Longrightarrow> skip_ws (w @ s) = skip_ws s"
  by (auto simp: skip_ws_def list_all_iff dropWhile_append)

lemma parse_skip:
  assumes "list_all json_ws w"
  shows "parse_value n (w @ s) = parse_value n s" "parse_elems n (w @ s) = parse_elems n s"
    "parse_members n (w @ s) = parse_members n s"
proof -
  show v: "parse_value n (w @ s) = parse_value n s" for n
    by (cases n) (simp_all add: parse_value.simps assms)
  show "parse_elems n (w @ s) = parse_elems n s" by (cases n) (simp_all add: v)
  show "parse_members n (w @ s) = parse_members n s" by (cases n) (simp_all add: assms)
qed

definition reads_back :: "string \<Rightarrow> json \<Rightarrow> bool" where
  "reads_back w v \<longleftrightarrow> (\<forall>n r. length (dumps_with w v) \<le> n \<longrightarrow> num_stop r \<longrightarrow>
     parse_value n (dumps_with w v @ r) = Some (canon v, r))"

lemma parse_elems_dumps:
  assumes ws: "list_all json_ws w"
    and "\<forall>x \<in> set xs. reads_back w x" "xs \<noteq> []"
    "length (join (CHR '','' # w) (map (dumps_with w) xs)) < n"
  shows "parse_elems n (join (CHR '','' # w) (map (dumps_with w) xs) @ CHR '']'' # r) = Some (map canon xs, r)"
  using assms(2-)
proof (induction xs arbitrary: n)
  case Nil
  then show ?case by simp
next
  case (Cons x xs)
  then obtain m where n: "n = Suc m" by (cases n) auto
  show ?case
  proof (cases xs)
    case Nil
    with Cons.prems n show ?thesis by (simp add: reads_back_def)
  next
    case (Cons y ys)
    then have j: "join (CHR '','' # w) (map (dumps_with w) (x # xs)) = dumps_with w x @ CHR '','' # w @ join (CHR '','' # w) (map (dumps_with w) xs)"
      by simp
    with Cons.prems n have "parse_value m (dumps_with w x @ CHR '','' # w @ join (CHR '','' # w) (map (dumps_with w) xs) @ CHR '']'' # r)
        = Some (canon x, CHR '','' # w @ join (CHR '','' # w) (map (dumps_with w) xs) @ CHR '']'' # r)"
      by (simp add: reads_back_def)
    moreover have "parse_elems m (join (CHR '','' # w) (map (dumps_with w) xs) @ CHR '']'' # r) = Some (map canon xs, r)"
      using Cons.prems n j Cons by (intro Cons.IH) auto
    ultimately show ?thesis unfolding n j by (simp add: parse_skip [OF ws])
  qed
qed

abbreviation dump_member :: "string \<Rightarrow> string \<times> json \<Rightarrow> string" where
  "dump_member w \<equiv> \<lambda>(k, v). dump_str k @ CHR '':'' # w @ dumps_with w v"

lemma parse_members_dumps:
  assumes ws: "list_all json_ws w"
    and "\<forall>(k, v) \<in> set kvs. reads_back w v" "kvs \<noteq> []"
    "length (join (CHR '','' # w) (map (dump_member w) kvs)) < n"
  shows "parse_members n (join (CHR '','' # w) (map (dump_member w) kvs) @ CHR ''}'' # r) =
    Some (map (map_prod id canon) kvs, r)"
  using assms(2-)
proof (induction kvs arbitrary: n)
  case Nil
  then show ?case by simp
next
  case (Cons p kvs)
  then obtain m where n: "n = Suc m" by (cases n) auto
  obtain k v where p: "p = (k, v)" by (cases p)
  have rb: "reads_back w v" using Cons.prems(1) p by auto
  have str: "parse_str (concat (map dump_char k) @ CHR 0x22 # q) = Some (k, q)" for q
    by (rule parse_str_dump)
  show ?case
  proof (cases kvs)
    case Nil
    with Cons.prems n p rb show ?thesis
      by (simp add: reads_back_def dump_str_def str parse_skip [OF ws])
  next
    case (Cons q qs)
    then have j: "join (CHR '','' # w) (map (dump_member w) (p # kvs)) =
        dump_str k @ CHR '':'' # w @ dumps_with w v @ CHR '','' # w @ join (CHR '','' # w) (map (dump_member w) kvs)"
      by (simp add: p)
    let ?rest = "CHR '','' # w @ join (CHR '','' # w) (map (dump_member w) kvs) @ CHR ''}'' # r"
    from Cons.prems n j rb have "parse_value m (dumps_with w v @ ?rest) = Some (canon v, ?rest)"
      by (simp add: reads_back_def)
    moreover have "parse_members m (join (CHR '','' # w) (map (dump_member w) kvs) @ CHR ''}'' # r) =
        Some (map (map_prod id canon) kvs, r)"
      using Cons.prems n j Cons by (intro Cons.IH) auto
    ultimately show ?thesis unfolding n j by (simp add: dump_str_def str p id_def parse_skip [OF ws])
  qed
qed

lemma dict_of_distinct: "distinct (map fst kvs) \<Longrightarrow> dict_of kvs = kvs"
proof (induction kvs rule: rev_induct)
  case (snoc p kvs)
  have new: "k \<notin> fst ` set d \<Longrightarrow> AList.update k v d = d @ [(k, v)]" for k and v :: json and d
    by (induction d) auto
  from snoc show ?case by (cases p) (auto simp: dict_of_def new)
qed (simp add: dict_of_def)

lemma dumps_JObj:
  "dumps_with w (JObj kvs) = CHR ''{'' # join (CHR '','' # w) (map (dump_member w) (sort_key fst kvs)) @ ''}''"
proof -
  have "map (\<lambda>(k, t). dump_str k @ CHR '':'' # w @ t) (map (map_prod id (dumps_with w)) l) = map (dump_member w) l" for l
    by (induction l) auto
  then show ?thesis by (simp only: dumps_with.simps sort_key_map_prod)
qed

lemma join_hd_nonempty: "xs \<noteq> [] \<Longrightarrow> hd xs \<noteq> [] \<Longrightarrow> hd (join sep xs) = hd (hd xs) \<and> join sep xs \<noteq> []"
  by (cases "(sep, xs)" rule: join.cases) auto

lemma dumps_hd: "hd (dumps_with w v) \<noteq> CHR '']'' \<and> \<not> json_ws (hd (dumps_with w v))" if "float_free v"
proof (cases v)
  case (JInt i)
  with hd_int_str [of i] show ?thesis by (auto simp: json_ws_def is_digit_def)
qed (use that in \<open>auto simp: dump_str_def\<close>)

lemma reads_backI:
  assumes "\<And>m r. length (dumps_with w v) \<le> Suc m \<Longrightarrow> num_stop r \<Longrightarrow>
    parse_value (Suc m) (dumps_with w v @ r) = Some (canon v, r)"
  shows "reads_back w v"
  unfolding reads_back_def
proof (intro allI impI)
  fix n r
  assume len: "length (dumps_with w v) \<le> n" and r: "num_stop r"
  then obtain m where "n = Suc m" using dumps_nonempty [of w v] by (cases n) auto
  with assms len r show "parse_value n (dumps_with w v @ r) = Some (canon v, r)" by simp
qed

lemma reads_back_arr:
  assumes ws: "list_all json_ws w" and rb: "\<forall>x \<in> set xs. reads_back w x \<and> float_free x"
  shows "reads_back w (JArr xs)"
proof (rule reads_backI)
  fix m r
  assume len: "length (dumps_with w (JArr xs)) \<le> Suc m"
  show "parse_value (Suc m) (dumps_with w (JArr xs) @ r) = Some (canon (JArr xs), r)"
  proof (cases xs)
    case Nil
    then show ?thesis by (simp add: parse_value_arr)
  next
    case (Cons x ys)
    let ?t = "join (CHR '','' # w) (map (dumps_with w) xs) @ CHR '']'' # r"
    have "hd (map (dumps_with w) xs) = dumps_with w x" by (simp add: Cons)
    then have h: "hd ?t \<noteq> CHR '']''" "\<not> json_ws (hd ?t)" "?t \<noteq> []"
      using Cons rb dumps_hd [of x w] dumps_nonempty [of w x]
        join_hd_nonempty [of "map (dumps_with w) xs" "CHR '','' # w"] by simp_all
    have "parse_elems m ?t = Some (map canon xs, r)"
      using rb Cons len by (intro parse_elems_dumps [OF ws]) auto
    from parse_value_arr(2) [OF h(3,1,2) this] show ?thesis by simp
  qed
qed

lemma reads_back_obj:
  assumes ws: "list_all json_ws w" and rb: "\<forall>(k, v) \<in> set kvs. reads_back w v" and dist: "distinct (map fst kvs)"
  shows "reads_back w (JObj kvs)"
proof (rule reads_backI)
  fix m r
  assume len: "length (dumps_with w (JObj kvs)) \<le> Suc m"
  let ?kvs = "sort_key fst kvs"
  have "distinct (map fst (map (map_prod id canon) ?kvs))"
    using dist by (simp add: distinct_map comp_def)
  then have dict: "dict_of (map (map_prod id canon) ?kvs) = map (map_prod id canon) ?kvs"
    by (rule dict_of_distinct)
  have canon: "canon (JObj kvs) = JObj (map (map_prod id canon) ?kvs)"
    by (simp only: canon.simps sort_key_map_prod)
  show "parse_value (Suc m) (dumps_with w (JObj kvs) @ r) = Some (canon (JObj kvs), r)"
  proof (cases "?kvs")
    case Nil
    then have "kvs = []" by (metis length_0_conv length_sort)
    then show ?thesis by (simp add: parse_value_obj)
  next
    case (Cons p ps)
    let ?t = "join (CHR '','' # w) (map (dump_member w) ?kvs) @ CHR ''}'' # r"
    have "hd (map (dump_member w) ?kvs) = dump_member w p" by (simp add: Cons)
    then have h: "?t \<noteq> []" "hd ?t = CHR 0x22"
      using Cons join_hd_nonempty [of "map (dump_member w) ?kvs" "CHR '','' # w"]
      by (simp_all add: dump_str_def split: prod.splits)
    have "parse_members m ?t = Some (map (map_prod id canon) ?kvs, r)"
    proof (rule parse_members_dumps [OF ws])
      show "\<forall>(k, v) \<in> set ?kvs. reads_back w v" using rb by simp
    qed (use Cons len in \<open>simp_all add: dumps_JObj del: dumps_with.simps\<close>)
    from parse_value_obj(2) [OF h this] dict canon show ?thesis
      by (simp add: dumps_JObj del: dumps_with.simps canon.simps)
  qed
qed

theorem dumps_reads_back: "list_all json_ws w \<Longrightarrow> json_wf v \<Longrightarrow> float_free v \<Longrightarrow> reads_back w v"
proof (induction v)
  case (JArr xs)
  then show ?case by (intro reads_back_arr) (auto simp: list_all_iff)
next
  case (JObj kvs)
  then show ?case by (intro reads_back_obj) (fastforce simp: list_all_iff)+
qed (auto intro!: reads_backI simp: parse_value_int parse_value_str)

lemma loads_dumps_with:
  assumes "list_all json_ws w" "json_wf v" "float_free v"
  shows "loads (dumps_with w v) = Some (canon v)"
proof -
  have "reads_back w v" using assms by (rule dumps_reads_back)
  then have "parse_value (Suc (length (dumps_with w v))) (dumps_with w v @ []) = Some (canon v, [])"
    unfolding reads_back_def by (meson le_SucI le_refl num_stop_marks(1))
  then show ?thesis by (simp add: loads_def)
qed

lemma loads_dumps: "json_wf v \<Longrightarrow> float_free v \<Longrightarrow> loads (dumps v) = Some (canon v)"
  by (simp add: dumps_def loads_dumps_with)

lemma loads_dumps_spaced: "json_wf v \<Longrightarrow> float_free v \<Longrightarrow> loads (dumps_spaced v) = Some (canon v)"
  by (simp add: dumps_spaced_def loads_dumps_with json_ws_def)

section \<open>The bytes that are signed\<close>

lemma utf8_simps [simp]: "utf8 [] = []" "utf8 (c # s) = utf8_char c @ utf8 s"
  by (simp_all add: utf8_def)

lemma utf8_char_cases:
  obtains (one) "(of_char c :: nat) < 128" "utf8_char c = [c]"
  | (two) "128 \<le> (of_char c :: nat)"
      "utf8_char c = [char_of (192 + of_char c div 64 :: nat), char_of (128 + of_char c mod 64 :: nat)]"
  by (cases "(of_char c :: nat) < 128") (auto simp: utf8_char_def Let_def)

lemma lead_byte: "n < 256 \<Longrightarrow> of_char (char_of (192 + n div 64 :: nat)) = 192 + n div 64"
  using less_mult_imp_div_less [of n 4 64] by simp

lemma tail_byte: "of_char (char_of (128 + n mod 64 :: nat)) = 128 + n mod 64"
proof -
  have "n mod 64 < 64" by simp
  then show ?thesis by simp
qed

lemma of_char_less_256: "(of_char c :: nat) < 256"
  using nat_of_char_less_256 by simp

lemma utf8_char_prefix:
  assumes "utf8_char c @ s = utf8_char d @ t"
  shows "c = d \<and> s = t"
proof (cases c rule: utf8_char_cases)
  case one
  show ?thesis
  proof (cases d rule: utf8_char_cases)
    case one': one
    with one assms show ?thesis by simp
  next
    case two
    with one assms have "c = char_of (192 + of_char d div 64 :: nat)" by simp
    then have "(of_char c :: nat) = 192 + of_char d div 64"
      by (simp only: lead_byte of_char_less_256)
    with one show ?thesis by simp
  qed
next
  case two
  show ?thesis
  proof (cases d rule: utf8_char_cases)
    case one
    with two assms have "d = char_of (192 + of_char c div 64 :: nat)" by simp
    then have "(of_char d :: nat) = 192 + of_char c div 64"
      by (simp only: lead_byte of_char_less_256)
    with one show ?thesis by simp
  next
    case two': two
    from two two' assms have "char_of (192 + of_char c div 64 :: nat) = char_of (192 + of_char d div 64 :: nat)"
      "char_of (128 + of_char c mod 64 :: nat) = char_of (128 + of_char d mod 64 :: nat)" and st: "s = t"
      by simp_all
    then have "(of_char (char_of (192 + of_char c div 64 :: nat)) :: nat) = of_char (char_of (192 + of_char d div 64 :: nat))"
      "(of_char (char_of (128 + of_char c mod 64 :: nat)) :: nat) = of_char (char_of (128 + of_char d mod 64 :: nat))"
      by simp_all
    then have "of_char c div 64 = of_char d div (64 :: nat)" "of_char c mod 64 = of_char d mod (64 :: nat)"
      using lead_byte [of "of_char c"] of_char_less_256 [of c] lead_byte [of "of_char d"]
        of_char_less_256 [of d] by (simp_all add: tail_byte del: char_of_eq_iff)
    then have "(of_char c :: nat) = of_char d" by (metis div_mult_mod_eq)
    with st show ?thesis by simp
  qed
qed

lemma utf8_inject: "utf8 s = utf8 t \<Longrightarrow> s = t"
proof (induction s arbitrary: t)
  case Nil
  then show ?case by (cases t) (auto simp: utf8_char_def Let_def split: if_splits)
next
  case (Cons c s)
  show ?case
  proof (cases t)
    case Nil
    with Cons.prems show ?thesis by (auto simp: utf8_char_def Let_def split: if_splits)
  next
    case (Cons d u)
    with Cons.prems utf8_char_prefix [of c "utf8 s" d "utf8 u"] have "c = d" "utf8 s = utf8 u" by auto
    with Cons.IH Cons show ?thesis by simp
  qed
qed

lemma canonical_bytes_canon:
  assumes "json_wf v" "float_free v" "json_wf w" "float_free w"
  shows "canonical_json_bytes v = canonical_json_bytes w \<Longrightarrow> canon v = canon w"
  using loads_dumps [OF assms(1,2)] loads_dumps [OF assms(3,4)]
  by (auto simp: canonical_json_bytes_def dest!: utf8_inject)

end
