(* ===== verification/Psm_Models.thy ===== *)
theory Psm_Models
  imports Psm_JsonText
begin

text \<open>
  The report data of \<open>models.py\<close> as records, with the dicts that \<open>asdict\<close> makes of them, and the
  two path operations the reporting code uses. Fields annotated \<open>Any\<close> or \<open>dict[str, Any]\<close> are
  values; an optional field is an option.
\<close>

section \<open>Records\<close>

record parse_diagnostic =
  pd_message :: string
  pd_error_id :: "string option"
  pd_line :: "int option"
  pd_column :: "int option"
  pd_extent :: "string option"

record execution_result =
  ex_command :: "string list"
  ex_cwd :: string
  ex_exit_code :: "int option"
  ex_timed_out :: bool
  ex_duration_ms :: int
  ex_stdout :: string
  ex_stderr :: string
  ex_stdout_truncated :: bool
  ex_stderr_truncated :: bool
  ex_resource_violation :: "string option"

record verification_check =
  vc_kind :: string
  vc_passed :: bool
  vc_subject :: string
  vc_expected :: json
  vc_actual :: json
  vc_message :: "string option"

record file_change =
  fc_path :: string
  fc_change :: string
  fc_size_before :: "int option"
  fc_size_after :: "int option"
  fc_sha256_before :: "string option"
  fc_sha256_after :: "string option"

record target_report =
  tr_runtime_id :: string
  tr_runtime_version :: string
  tr_source :: string
  tr_source_sha256 :: string
  tr_status :: string
  tr_parse_ok :: bool
  tr_parse_diagnostics :: "parse_diagnostic list"
  tr_execution :: "execution_result option"
  tr_test_execution :: "execution_result option"
  tr_tests :: json
  tr_verification :: "verification_check list"
  tr_file_changes :: "file_change list"
  tr_windows_requirements :: "string list"
  tr_warnings :: "string list"
  tr_sandbox :: json
  tr_analysis :: json
  tr_observation :: json
  tr_runtime :: json
  tr_inputs :: json
  tr_dependencies :: json
  tr_hooks :: json
  tr_cache :: json

record matrix_report =
  mr_schema :: int
  mr_tool_version :: string
  mr_started_at :: string
  mr_finished_at :: string
  mr_status :: string
  mr_targets :: "target_report list"
  mr_differential :: "json list"
  mr_matrix :: json
  mr_diagnostics :: "json list"

section \<open>As dicts\<close>

definition parse_diagnostic_dict :: "parse_diagnostic \<Rightarrow> json" where
  "parse_diagnostic_dict d = JObj
     [(''message'', JStr (pd_message d)), (''error_id'', opt_str (pd_error_id d)),
      (''line'', opt_int (pd_line d)), (''column'', opt_int (pd_column d)),
      (''extent'', opt_str (pd_extent d))]"

definition execution_dict :: "execution_result \<Rightarrow> json" where
  "execution_dict e = JObj
     [(''command'', JArr (map JStr (ex_command e))), (''cwd'', JStr (ex_cwd e)),
      (''exit_code'', opt_int (ex_exit_code e)), (''timed_out'', JBool (ex_timed_out e)),
      (''duration_ms'', JInt (ex_duration_ms e)), (''stdout'', JStr (ex_stdout e)),
      (''stderr'', JStr (ex_stderr e)), (''stdout_truncated'', JBool (ex_stdout_truncated e)),
      (''stderr_truncated'', JBool (ex_stderr_truncated e)),
      (''resource_violation'', opt_str (ex_resource_violation e))]"

definition check_dict :: "verification_check \<Rightarrow> json" where
  "check_dict c = JObj
     [(''kind'', JStr (vc_kind c)), (''passed'', JBool (vc_passed c)), (''subject'', JStr (vc_subject c)),
      (''expected'', vc_expected c), (''actual'', vc_actual c), (''message'', opt_str (vc_message c))]"

definition file_change_dict :: "file_change \<Rightarrow> json" where
  "file_change_dict c = JObj
     [(''path'', JStr (fc_path c)), (''change'', JStr (fc_change c)),
      (''size_before'', opt_int (fc_size_before c)), (''size_after'', opt_int (fc_size_after c)),
      (''sha256_before'', opt_str (fc_sha256_before c)), (''sha256_after'', opt_str (fc_sha256_after c))]"

definition opt_execution :: "execution_result option \<Rightarrow> json" where
  "opt_execution e = (case e of None \<Rightarrow> JNull | Some x \<Rightarrow> execution_dict x)"

definition target_dict :: "target_report \<Rightarrow> json" where
  "target_dict t = JObj
     [(''runtime_id'', JStr (tr_runtime_id t)), (''runtime_version'', JStr (tr_runtime_version t)),
      (''source'', JStr (tr_source t)), (''source_sha256'', JStr (tr_source_sha256 t)),
      (''status'', JStr (tr_status t)), (''parse_ok'', JBool (tr_parse_ok t)),
      (''parse_diagnostics'', JArr (map parse_diagnostic_dict (tr_parse_diagnostics t))),
      (''execution'', opt_execution (tr_execution t)),
      (''test_execution'', opt_execution (tr_test_execution t)), (''tests'', tr_tests t),
      (''verification'', JArr (map check_dict (tr_verification t))),
      (''file_changes'', JArr (map file_change_dict (tr_file_changes t))),
      (''windows_requirements'', JArr (map JStr (tr_windows_requirements t))),
      (''warnings'', JArr (map JStr (tr_warnings t))), (''sandbox'', tr_sandbox t),
      (''analysis'', tr_analysis t), (''observation'', tr_observation t), (''runtime'', tr_runtime t),
      (''inputs'', tr_inputs t), (''dependencies'', tr_dependencies t), (''hooks'', tr_hooks t),
      (''cache'', tr_cache t)]"

definition matrix_report_dict :: "matrix_report \<Rightarrow> json" where
  "matrix_report_dict r = JObj
     [(''schema'', JInt (mr_schema r)), (''tool_version'', JStr (mr_tool_version r)),
      (''started_at'', JStr (mr_started_at r)), (''finished_at'', JStr (mr_finished_at r)),
      (''status'', JStr (mr_status r)), (''targets'', JArr (map target_dict (mr_targets r))),
      (''differential'', JArr (mr_differential r)), (''matrix'', mr_matrix r),
      (''diagnostics'', JArr (mr_diagnostics r))]"

text \<open>A bare report, for the concrete instances of the properties.\<close>

definition sample_report :: "string \<Rightarrow> string \<Rightarrow> target_report" where
  "sample_report version status =
     \<lparr>tr_runtime_id = ''powershell-'' @ version, tr_runtime_version = version, tr_source = ''/p/a.ps1'',
      tr_source_sha256 = ''00'', tr_status = status, tr_parse_ok = True, tr_parse_diagnostics = [],
      tr_execution = None, tr_test_execution = None, tr_tests = JObj [], tr_verification = [],
      tr_file_changes = [], tr_windows_requirements = [], tr_warnings = [], tr_sandbox = JObj [],
      tr_analysis = JObj [], tr_observation = JObj [], tr_runtime = JObj [], tr_inputs = JObj [],
      tr_dependencies = JObj [], tr_hooks = JObj [], tr_cache = JObj []\<rparr>"

section \<open>Paths\<close>

text \<open>The parts of a POSIX path; \<open>str(Path(s))\<close> drops empty and \<open>.\<close> parts.\<close>

definition path_parts :: "string \<Rightarrow> string list" where
  "path_parts s = filter (\<lambda>p. p \<noteq> [] \<and> p \<noteq> ''.'') (split_on (CHR ''/'') s)"

definition path_root :: "string \<Rightarrow> string" where
  "path_root s = (if starts_with ''//'' s \<and> \<not> starts_with ''///'' s then ''//''
     else if starts_with ''/'' s then ''/'' else '''')"

definition path_str :: "string \<Rightarrow> string" where
  "path_str s = (let t = path_root s @ join ''/'' (path_parts s) in if t = [] then ''.'' else t)"

text \<open>\<open>(base / value)\<close> as absolute parts\<close>

definition path_join :: "string list \<Rightarrow> string \<Rightarrow> string list" where
  "path_join base value = (if starts_with ''/'' value then path_parts value else base @ path_parts value)"

definition is_within :: "string list \<Rightarrow> string list \<Rightarrow> bool" where
  "is_within root p \<longleftrightarrow> take (length root) p = root"

end
