(* ===== verification/Psm_ModelsRead.thy ===== *)
theory Psm_ModelsRead
  imports Psm_Models
begin

text \<open>
  Rebuilding report records from dicts: \<open>execution_result_from_dict\<close> and
  \<open>target_report_from_dict\<close> of \<open>models.py\<close>. An unknown or missing keyword raises \<open>TypeError\<close>, as
  the dataclass constructor does. The dataclasses do not check the types of their fields; the
  records do, so a dict whose fields are not of the annotated types is outside the model and is
  reported as a \<open>TypeError\<close> too. The round trip with \<open>asdict\<close> is the property of the theory.
\<close>

section \<open>Typed fields\<close>

fun as_str :: "json \<Rightarrow> string res" where
  "as_str (JStr s) = Inr s"
| "as_str _ = throw TypeError ''str''"

fun as_bool :: "json \<Rightarrow> bool res" where
  "as_bool (JBool b) = Inr b"
| "as_bool _ = throw TypeError ''bool''"

fun as_int :: "json \<Rightarrow> int res" where
  "as_int (JInt i) = Inr i"
| "as_int _ = throw TypeError ''int''"

definition as_opt :: "(json \<Rightarrow> 'a res) \<Rightarrow> json \<Rightarrow> 'a option res" where
  "as_opt f v = (if v = JNull then Inr None else res_bind (f v) (\<lambda>x. Inr (Some x)))"

definition as_list :: "(json \<Rightarrow> 'a res) \<Rightarrow> json \<Rightarrow> 'a list res" where
  "as_list f v = res_bind (py_iter v) (res_map f)"

text \<open>\<open>C(**v)\<close>: the keywords are the fields of the class, and those without a default are given.\<close>

definition kwargs :: "string list \<Rightarrow> string list \<Rightarrow> json \<Rightarrow> unit res" where
  "kwargs required optional v =
     (if is_dict v \<and> list_all (\<lambda>(k, _). k \<in> set (required @ optional)) (dict_items v)
         \<and> list_all (\<lambda>k. jget k v \<noteq> None) required
      then Inr () else throw TypeError ''__init__() got an unexpected or missing argument'')"

definition parse_diagnostic_of :: "json \<Rightarrow> parse_diagnostic res" where
  "parse_diagnostic_of v =
     res_bind (kwargs [''message''] [''error_id'', ''line'', ''column'', ''extent''] v) (\<lambda>_.
     res_bind (as_str (get_none ''message'' v)) (\<lambda>message.
     res_bind (as_opt as_str (get_none ''error_id'' v)) (\<lambda>error_id.
     res_bind (as_opt as_int (get_none ''line'' v)) (\<lambda>line.
     res_bind (as_opt as_int (get_none ''column'' v)) (\<lambda>column.
     res_bind (as_opt as_str (get_none ''extent'' v)) (\<lambda>extent.
       Inr \<lparr>pd_message = message, pd_error_id = error_id, pd_line = line, pd_column = column,
            pd_extent = extent\<rparr>))))))"

definition execution_of :: "json \<Rightarrow> execution_result res" where
  "execution_of v =
     res_bind (kwargs
       [''command'', ''cwd'', ''exit_code'', ''timed_out'', ''duration_ms'', ''stdout'', ''stderr'']
       [''stdout_truncated'', ''stderr_truncated'', ''resource_violation''] v) (\<lambda>_.
     res_bind (as_list as_str (get_none ''command'' v)) (\<lambda>command.
     res_bind (as_str (get_none ''cwd'' v)) (\<lambda>cwd.
     res_bind (as_opt as_int (get_none ''exit_code'' v)) (\<lambda>exit_code.
     res_bind (as_bool (get_none ''timed_out'' v)) (\<lambda>timed_out.
     res_bind (as_int (get_none ''duration_ms'' v)) (\<lambda>duration.
     res_bind (as_str (get_none ''stdout'' v)) (\<lambda>stdout.
     res_bind (as_str (get_none ''stderr'' v)) (\<lambda>stderr.
     res_bind (as_bool (get_or ''stdout_truncated'' (JBool False) v)) (\<lambda>stdout_truncated.
     res_bind (as_bool (get_or ''stderr_truncated'' (JBool False) v)) (\<lambda>stderr_truncated.
     res_bind (as_opt as_str (get_none ''resource_violation'' v)) (\<lambda>violation.
       Inr \<lparr>ex_command = command, ex_cwd = cwd, ex_exit_code = exit_code, ex_timed_out = timed_out,
            ex_duration_ms = duration, ex_stdout = stdout, ex_stderr = stderr,
            ex_stdout_truncated = stdout_truncated, ex_stderr_truncated = stderr_truncated,
            ex_resource_violation = violation\<rparr>)))))))))))"

definition execution_result_from_dict :: "json \<Rightarrow> execution_result option res" where
  "execution_result_from_dict v = as_opt execution_of v"

definition check_of :: "json \<Rightarrow> verification_check res" where
  "check_of v =
     res_bind (kwargs [''kind'', ''passed'', ''subject''] [''expected'', ''actual'', ''message''] v) (\<lambda>_.
     res_bind (as_str (get_none ''kind'' v)) (\<lambda>kind.
     res_bind (as_bool (get_none ''passed'' v)) (\<lambda>passed.
     res_bind (as_str (get_none ''subject'' v)) (\<lambda>subject.
     res_bind (as_opt as_str (get_none ''message'' v)) (\<lambda>message.
       Inr \<lparr>vc_kind = kind, vc_passed = passed, vc_subject = subject, vc_expected = get_none ''expected'' v,
            vc_actual = get_none ''actual'' v, vc_message = message\<rparr>)))))"

definition file_change_of :: "json \<Rightarrow> file_change res" where
  "file_change_of v =
     res_bind (kwargs [''path'', ''change'']
       [''size_before'', ''size_after'', ''sha256_before'', ''sha256_after''] v) (\<lambda>_.
     res_bind (as_str (get_none ''path'' v)) (\<lambda>path.
     res_bind (as_str (get_none ''change'' v)) (\<lambda>change.
     res_bind (as_opt as_int (get_none ''size_before'' v)) (\<lambda>size_before.
     res_bind (as_opt as_int (get_none ''size_after'' v)) (\<lambda>size_after.
     res_bind (as_opt as_str (get_none ''sha256_before'' v)) (\<lambda>sha_before.
     res_bind (as_opt as_str (get_none ''sha256_after'' v)) (\<lambda>sha_after.
       Inr \<lparr>fc_path = path, fc_change = change, fc_size_before = size_before, fc_size_after = size_after,
            fc_sha256_before = sha_before, fc_sha256_after = sha_after\<rparr>)))))))"

section \<open>Target reports\<close>

definition report_required :: "string list" where
  "report_required =
     [''runtime_id'', ''runtime_version'', ''source'', ''source_sha256'', ''status'', ''parse_ok'']"

definition report_optional :: "string list" where
  "report_optional =
     [''parse_diagnostics'', ''execution'', ''test_execution'', ''tests'', ''verification'', ''file_changes'',
      ''windows_requirements'', ''warnings'', ''sandbox'', ''analysis'', ''observation'', ''runtime'',
      ''inputs'', ''dependencies'', ''hooks'', ''cache'']"

definition target_report_from_dict :: "json \<Rightarrow> target_report res" where
  "target_report_from_dict v =
     res_bind (as_list parse_diagnostic_of (get_or ''parse_diagnostics'' (JArr []) v)) (\<lambda>parse_diagnostics.
     res_bind (execution_result_from_dict (get_none ''execution'' v)) (\<lambda>execution.
     res_bind (execution_result_from_dict (get_none ''test_execution'' v)) (\<lambda>test_execution.
     res_bind (as_list check_of (get_or ''verification'' (JArr []) v)) (\<lambda>verification.
     res_bind (as_list file_change_of (get_or ''file_changes'' (JArr []) v)) (\<lambda>file_changes.
     res_bind (kwargs report_required report_optional v) (\<lambda>_.
     res_bind (as_str (get_none ''runtime_id'' v)) (\<lambda>runtime_id.
     res_bind (as_str (get_none ''runtime_version'' v)) (\<lambda>runtime_version.
     res_bind (as_str (get_none ''source'' v)) (\<lambda>source.
     res_bind (as_str (get_none ''source_sha256'' v)) (\<lambda>source_sha256.
     res_bind (as_str (get_none ''status'' v)) (\<lambda>status.
     res_bind (as_bool (get_none ''parse_ok'' v)) (\<lambda>parse_ok.
     res_bind (as_list as_str (get_or ''windows_requirements'' (JArr []) v)) (\<lambda>requirements.
     res_bind (as_list as_str (get_or ''warnings'' (JArr []) v)) (\<lambda>warnings.
       Inr \<lparr>tr_runtime_id = runtime_id, tr_runtime_version = runtime_version, tr_source = source,
            tr_source_sha256 = source_sha256, tr_status = status, tr_parse_ok = parse_ok,
            tr_parse_diagnostics = parse_diagnostics, tr_execution = execution,
            tr_test_execution = test_execution, tr_tests = get_or ''tests'' (JObj []) v,
            tr_verification = verification, tr_file_changes = file_changes,
            tr_windows_requirements = requirements, tr_warnings = warnings,
            tr_sandbox = get_or ''sandbox'' (JObj []) v, tr_analysis = get_or ''analysis'' (JObj []) v,
            tr_observation = get_or ''observation'' (JObj []) v, tr_runtime = get_or ''runtime'' (JObj []) v,
            tr_inputs = get_or ''inputs'' (JObj []) v, tr_dependencies = get_or ''dependencies'' (JObj []) v,
            tr_hooks = get_or ''hooks'' (JObj []) v, tr_cache = get_or ''cache'' (JObj []) v\<rparr>))))))))))))))"

section \<open>Round trip\<close>

named_theorems read_simps \<open>decoding what \<open>asdict\<close> wrote\<close>

lemma as_opt_str [read_simps]: "as_opt as_str (opt_str x) = Inr x"
  by (cases x) (simp_all add: as_opt_def opt_str_def)

lemma as_opt_int [read_simps]: "as_opt as_int (opt_int x) = Inr x"
  by (cases x) (simp_all add: as_opt_def opt_int_def)

lemma res_map_inverse: "(\<And>x. f (g x) = Inr x) \<Longrightarrow> res_map f (map g xs) = Inr xs"
  by (induction xs) simp_all

lemma as_list_map [read_simps]: "(\<And>x. f (g x) = Inr x) \<Longrightarrow> as_list f (JArr (map g xs)) = Inr xs"
  by (simp add: as_list_def res_map_inverse)

lemma parse_diagnostic_of_dict [read_simps]: "parse_diagnostic_of (parse_diagnostic_dict d) = Inr d"
  by (simp add: parse_diagnostic_of_def parse_diagnostic_dict_def kwargs_def get_or_def read_simps)

lemma check_of_dict [read_simps]: "check_of (check_dict c) = Inr c"
  by (simp add: check_of_def check_dict_def kwargs_def get_or_def read_simps)

lemma file_change_of_dict [read_simps]: "file_change_of (file_change_dict c) = Inr c"
  by (simp add: file_change_of_def file_change_dict_def kwargs_def get_or_def read_simps)

lemma execution_of_dict [read_simps]: "execution_of (execution_dict e) = Inr e"
  by (simp add: execution_of_def execution_dict_def kwargs_def get_or_def read_simps)

lemma execution_from_dict [read_simps]: "execution_result_from_dict (opt_execution e) = Inr e"
proof (cases e)
  case (Some x)
  have "execution_dict x \<noteq> JNull" by (simp add: execution_dict_def)
  with Some show ?thesis
    by (simp add: execution_result_from_dict_def opt_execution_def as_opt_def execution_of_dict)
qed (simp add: execution_result_from_dict_def opt_execution_def as_opt_def)

lemma target_dict_keys:
  "kwargs report_required report_optional (target_dict t) = Inr ()"
  by (simp add: kwargs_def target_dict_def report_required_def report_optional_def)

lemma report_of_dict: "target_report_from_dict (target_dict t) = Inr t"
  using target_dict_keys [of t]
  by (simp add: target_report_from_dict_def target_dict_def get_or_def read_simps)

text \<open>A target report rebuilt from the dict it was exported to is the same report.\<close>

lemma target_report_roundtrip:
  "target_report_from_dict (target_dict t) = Inr t"
  by (rule report_of_dict)

end
