(* ===== verification/Psm_Files.thy ===== *)
theory Psm_Files
  imports Psm_JsonText Psm_Models
begin

text \<open>
  The file system as the modelled code sees it: a tree of folders, regular files and symbolic
  links, the path operations of \<open>pathlib\<close> and \<open>os\<close> (name, suffix, \<open>resolve\<close>, \<open>lstat\<close>, following
  links), and \<open>read_json\<close> and \<open>sha256_file\<close> of \<open>util.py\<close>. An absolute path is the list of its
  parts. A file holds its bytes; a link holds its target text. At most 40 links are followed on
  the way to a file, as in the kernel.
\<close>

section \<open>Trees and paths\<close>

datatype node =
    RegFile string
  | Folder "(string \<times> node) list"
  | Link string

fun lookup_node :: "node \<Rightarrow> string list \<Rightarrow> node option" where
  "lookup_node x [] = Some x"
| "lookup_node (Folder es) (p # ps) =
     (case map_of es p of None \<Rightarrow> None | Some y \<Rightarrow> lookup_node y ps)"
| "lookup_node _ (p # ps) = None"

definition path_text :: "string list \<Rightarrow> string" where
  "path_text ps = CHR ''/'' # join ''/'' ps"

definition is_absolute :: "string \<Rightarrow> bool" where
  "is_absolute s \<longleftrightarrow> starts_with ''/'' s"

text \<open>\<open>Path(s).name\<close>, and \<open>suffix\<close> and \<open>stem\<close> of a name\<close>

definition name_of :: "string list \<Rightarrow> string" where
  "name_of ps = (if ps = [] then '''' else last ps)"

definition rfind_dot :: "string \<Rightarrow> nat option" where
  "rfind_dot s = (if CHR ''.'' \<in> set s
     then Some (length s - 1 - length (takeWhile (\<lambda>c. c \<noteq> CHR ''.'') (rev s))) else None)"

definition suffix_of :: "string \<Rightarrow> string" where
  "suffix_of name = (case rfind_dot name of
     Some i \<Rightarrow> if 0 < i \<and> i < length name - 1 then drop i name else ''''
   | None \<Rightarrow> '''')"

definition stem_of :: "string \<Rightarrow> string" where
  "stem_of name = take (length name - length (suffix_of name)) name"

definition with_name :: "string list \<Rightarrow> string \<Rightarrow> string list" where
  "with_name ps name = butlast ps @ [name]"

section \<open>Following links\<close>

text \<open>
  \<open>Path.resolve()\<close>: parts that do not exist are kept, \<open>..\<close> drops the resolved part before it.
  The first list is what has been resolved so far.
\<close>

function resolve_from :: "node \<Rightarrow> nat \<Rightarrow> string list \<Rightarrow> string list \<Rightarrow> string list res" where
  "resolve_from fs n d [] = Inr d"
| "resolve_from fs n d (p # ps) =
     (if p = ''..'' then resolve_from fs n (butlast d) ps
      else case lookup_node fs (d @ [p]) of
        Some (Link t) \<Rightarrow>
          (case n of 0 \<Rightarrow> throw RuntimeError ''Symlink loop''
           | Suc m \<Rightarrow> resolve_from fs m (if is_absolute t then [] else d) (path_parts t @ ps))
      | _ \<Rightarrow> resolve_from fs n (d @ [p]) ps)"
  by pat_completeness auto
termination
  by (relation "measures [\<lambda>(fs, n, d, ps). n, \<lambda>(fs, n, d, ps). length ps]") auto

declare resolve_from.simps(2) [simp del]

definition link_budget :: nat where
  "link_budget = 40"

definition resolve :: "node \<Rightarrow> string list \<Rightarrow> string list res" where
  "resolve fs p = resolve_from fs link_budget [] p"

text \<open>What the kernel reaches for a path: every part must exist, and all but the last be folders.\<close>

definition os_error :: "string \<Rightarrow> string list \<Rightarrow> 'a res" where
  "os_error text p = throw OSError (text @ '': '' @ repr_str (path_text p))"

function walk_from :: "node \<Rightarrow> nat \<Rightarrow> string list \<Rightarrow> string list \<Rightarrow> string list \<Rightarrow> node res" where
  "walk_from fs n org d [] =
     (case lookup_node fs d of Some x \<Rightarrow> Inr x | None \<Rightarrow> os_error ''[Errno 2] No such file or directory'' org)"
| "walk_from fs n org d (p # ps) =
     (case lookup_node fs d of
        Some (Folder es) \<Rightarrow>
          if p = ''..'' then walk_from fs n org (butlast d) ps
          else (case map_of es p of
              None \<Rightarrow> os_error ''[Errno 2] No such file or directory'' org
            | Some (Link t) \<Rightarrow>
                (case n of 0 \<Rightarrow> os_error ''[Errno 40] Too many levels of symbolic links'' org
                 | Suc m \<Rightarrow> walk_from fs m org (if is_absolute t then [] else d) (path_parts t @ ps))
            | Some _ \<Rightarrow> walk_from fs n org (d @ [p]) ps)
      | None \<Rightarrow> os_error ''[Errno 2] No such file or directory'' org
      | Some _ \<Rightarrow> os_error ''[Errno 20] Not a directory'' org)"
  by pat_completeness auto
termination
  by (relation "measures [\<lambda>(fs, n, org, d, ps). n, \<lambda>(fs, n, org, d, ps). length ps]") auto

definition stat_path :: "node \<Rightarrow> string list \<Rightarrow> node res" where
  "stat_path fs p = walk_from fs link_budget p [] p"

definition path_exists :: "node \<Rightarrow> string list \<Rightarrow> bool" where
  "path_exists fs p = (case stat_path fs p of Inr _ \<Rightarrow> True | Inl _ \<Rightarrow> False)"

definition is_file :: "node \<Rightarrow> string list \<Rightarrow> bool" where
  "is_file fs p = (case stat_path fs p of Inr (RegFile _) \<Rightarrow> True | _ \<Rightarrow> False)"

definition is_dir :: "node \<Rightarrow> string list \<Rightarrow> bool" where
  "is_dir fs p = (case stat_path fs p of Inr (Folder _) \<Rightarrow> True | _ \<Rightarrow> False)"

section \<open>Reading\<close>

definition read_bytes :: "node \<Rightarrow> string list \<Rightarrow> string res" where
  "read_bytes fs p = res_bind (stat_path fs p) (\<lambda>x. case x of
       RegFile b \<Rightarrow> Inr b
     | _ \<Rightarrow> os_error ''[Errno 21] Is a directory'' p)"

text \<open>Decoding UTF-8 up to \<open>u00FF\<close>, the range of the string type of the development\<close>

fun utf8_decode :: "string \<Rightarrow> string option" where
  "utf8_decode [] = Some []"
| "utf8_decode (c # s) = (let n = (of_char c :: nat) in
     if n < 128 then map_option (Cons c) (utf8_decode s)
     else if n = 194 \<or> n = 195 then
       (case s of [] \<Rightarrow> None
        | d # r \<Rightarrow> let m = (of_char d :: nat) in
            if 128 \<le> m \<and> m < 192 then map_option (Cons (char_of ((n - 192) * 64 + (m - 128)))) (utf8_decode r)
            else None)
     else None)"

definition read_json :: "node \<Rightarrow> string list \<Rightarrow> json res" where
  "read_json fs p = res_bind (read_bytes fs p) (\<lambda>b.
     case utf8_decode b of
       None \<Rightarrow> throw ValueError ''invalid utf-8''
     | Some t \<Rightarrow> (case loads t of None \<Rightarrow> throw ValueError ''invalid JSON'' | Some v \<Rightarrow> Inr v))"

definition sha256_file :: "(string \<Rightarrow> string) \<Rightarrow> node \<Rightarrow> string list \<Rightarrow> string res" where
  "sha256_file H fs p = res_bind (read_bytes fs p) (\<lambda>b. Inr (H b))"

section \<open>Lemmas\<close>

lemma utf8_decode_char: "utf8_decode (utf8_char c @ s) = map_option (Cons c) (utf8_decode s)"
proof -
  have n: "(of_char c :: nat) < 256" by simp
  show ?thesis
  proof (cases "(of_char c :: nat) < 128")
    case False
    let ?n = "of_char c :: nat"
    have hi: "192 + ?n div 64 = 194 \<or> 192 + ?n div 64 = 195" using False n by (auto; linarith)
    have "?n div 64 < 64" using n by linarith
    then have lt: "192 + ?n div 64 < 256" "128 + ?n mod 64 < 256" using n by auto
    have "(192 + ?n div 64 - 192) * 64 + (128 + ?n mod 64 - 128) = ?n" by simp
    with False hi lt show ?thesis by (auto simp: utf8_char_def Let_def)
  qed (simp add: utf8_char_def Let_def)
qed

lemma utf8_decode_utf8 [simp]: "utf8_decode (utf8 s) = Some s"
  by (induction s) (simp_all add: utf8_def utf8_decode_char)

lemma read_json_dumps:
  assumes "stat_path fs p = Inr (RegFile (utf8 t))" and "loads t = Some v"
  shows "read_json fs p = Inr v"
  using assms by (simp add: read_json_def read_bytes_def)

text \<open>Where no link stands in the way, resolving only removes \<open>..\<close> and following changes nothing.\<close>

definition link_free :: "node \<Rightarrow> string list \<Rightarrow> bool" where
  "link_free fs p \<longleftrightarrow> (\<forall>i \<le> length p. \<forall>t. lookup_node fs (take i p) \<noteq> Some (Link t))"

lemma resolve_from_link_free:
  assumes "link_free fs (d @ ps)" and "''..'' \<notin> set ps"
  shows "resolve_from fs n d ps = Inr (d @ ps)"
  using assms
proof (induction ps arbitrary: d)
  case (Cons p ps)
  have "lookup_node fs (take (Suc (length d)) (d @ p # ps)) \<noteq> Some (Link t)" for t
    using Cons.prems(1) unfolding link_free_def by (metis Suc_leI length_append length_Cons add_Suc_right less_add_Suc1)
  then have "lookup_node fs (d @ [p]) \<noteq> Some (Link t)" for t by simp
  with Cons show ?case
    by (auto simp: resolve_from.simps(2) split: option.splits node.splits)
qed simp

lemma resolve_link_free: "link_free fs p \<Longrightarrow> ''..'' \<notin> set p \<Longrightarrow> resolve fs p = Inr p"
  by (simp add: resolve_def resolve_from_link_free)

text \<open>A resolved path has no link in it.\<close>

lemma link_free_butlast: "link_free fs d \<Longrightarrow> link_free fs (butlast d)"
  unfolding link_free_def
  by (metis butlast_conv_take length_butlast min.absorb1 min_le_iff_disj take_take diff_le_self le_trans)

lemma link_free_snoc:
  assumes "link_free fs d" and "\<And>t. lookup_node fs (d @ [p]) \<noteq> Some (Link t)"
  shows "link_free fs (d @ [p])"
  unfolding link_free_def
proof (intro allI impI)
  fix i t
  assume "i \<le> length (d @ [p])"
  then show "lookup_node fs (take i (d @ [p])) \<noteq> Some (Link t)"
    using assms unfolding link_free_def by (cases "i \<le> length d") (auto simp: not_le le_Suc_eq)
qed

lemma link_free_root: "link_free fs d \<Longrightarrow> link_free fs []"
  unfolding link_free_def by (metis le_zero_eq list.size(3) take_eq_Nil zero_le)

lemma resolve_from_result:
  assumes "resolve_from fs n d ps = Inr q" and "link_free fs d"
  shows "link_free fs q"
  using assms
proof (induction fs n d ps rule: resolve_from.induct)
  case (2 fs n d p ps)
  consider (up) "p = ''..''"
    | (follow) t m where "p \<noteq> ''..''" "lookup_node fs (d @ [p]) = Some (Link t)" "n = Suc m"
    | (loop) t where "p \<noteq> ''..''" "lookup_node fs (d @ [p]) = Some (Link t)" "n = 0"
    | (none) "p \<noteq> ''..''" "lookup_node fs (d @ [p]) = None"
    | (reg) b where "p \<noteq> ''..''" "lookup_node fs (d @ [p]) = Some (RegFile b)"
    | (dir) es where "p \<noteq> ''..''" "lookup_node fs (d @ [p]) = Some (Folder es)"
    by (cases "lookup_node fs (d @ [p])"; cases "the (lookup_node fs (d @ [p]))"; cases n) auto
  then show ?case
  proof cases
    case up
    with 2 show ?thesis by (simp add: resolve_from.simps(2) link_free_butlast)
  next
    case follow
    with "2.prems" have "resolve_from fs m (if is_absolute t then [] else d) (path_parts t @ ps) = Inr q"
      "link_free fs (if is_absolute t then [] else d)"
      by (auto simp: resolve_from.simps(2) dest: link_free_root)
    with follow show ?thesis by (intro "2.IH"(5)) simp_all
  next
    case none
    with "2.prems" show ?thesis by (intro "2.IH"(2)) (auto simp: resolve_from.simps(2) intro: link_free_snoc)
  next
    case reg
    with "2.prems" show ?thesis by (intro "2.IH"(3)) (auto simp: resolve_from.simps(2) intro: link_free_snoc)
  next
    case dir
    with "2.prems" show ?thesis by (intro "2.IH"(4)) (auto simp: resolve_from.simps(2) intro: link_free_snoc)
  qed (use "2.prems" in \<open>simp add: resolve_from.simps(2)\<close>)
qed simp

section \<open>Refusing indirection\<close>

text \<open>\<open>Path.lstat()\<close>: the last part is not followed.\<close>

definition lstat_path :: "node \<Rightarrow> string list \<Rightarrow> node res" where
  "lstat_path fs p =
     (if p = [] \<or> last p = ''..'' then stat_path fs p
      else res_bind (stat_path fs (butlast p)) (\<lambda>x. case x of
          Folder es \<Rightarrow> (case map_of es (last p) of
              Some y \<Rightarrow> Inr y | None \<Rightarrow> os_error ''[Errno 2] No such file or directory'' p)
        | _ \<Rightarrow> os_error ''[Errno 20] Not a directory'' p))"

definition is_enoent :: "exn \<Rightarrow> bool" where
  "is_enoent e \<longleftrightarrow> exn_class e = OSError \<and> starts_with ''[Errno 2]'' (exn_text e)"

text \<open>The loop over the components of a path that the loaders share; only the exception differs.\<close>

definition inspect_component :: "exn_class \<Rightarrow> string \<Rightarrow> node \<Rightarrow> string list \<Rightarrow> unit res" where
  "inspect_component cls label fs p = (case lstat_path fs p of
       Inr (Link _) \<Rightarrow> throw cls (label @ '' path contains a symlink or reparse point: '' @ path_text p)
     | Inr _ \<Rightarrow> Inr ()
     | Inl e \<Rightarrow> if is_enoent e then Inr ()
         else throw cls (''Unable to inspect '' @ label @ '' path '' @ path_text p @ '': '' @ exn_text e))"

definition reject_indirect :: "exn_class \<Rightarrow> string \<Rightarrow> node \<Rightarrow> string list \<Rightarrow> unit res" where
  "reject_indirect cls label fs p =
     res_bind (res_map (inspect_component cls label fs) (map (\<lambda>i. take (Suc i) p) [0..<length p])) (\<lambda>_. Inr ())"

definition resolve_strict :: "node \<Rightarrow> string list \<Rightarrow> string list res" where
  "resolve_strict fs p = res_bind (stat_path fs p) (\<lambda>_. resolve fs p)"

end
