(* ===== verification/Psm_Canon.thy ===== *)
theory Psm_Canon
  imports Psm_Files
begin

text \<open>
  Canonical values, whose keys are sorted at every level as \<open>json.dumps(sort_keys=True)\<close> writes them,
  and what a reader makes of a canonical text that was cut off: no proper part of the text of a
  dict is a JSON text. The stores that hash or append records rest on both.
\<close>


section \<open>Canonical values\<close>

lemma canon_canon [simp]: "canon (canon v) = canon v"
proof (induction v)
  case (JObj kvs)
  have "map (map_prod id canon) (map (map_prod id canon) kvs) = map (map_prod id canon) kvs"
    using JObj by (auto simp: snds.simps)
  moreover have "sort_key fst (sort_key fst l) = sort_key fst l" for l :: "(string \<times> json) list"
    by (rule sort_key_id_if_sorted [OF sorted_sort_key])
  ultimately show ?case by (simp add: sort_key_map_prod [symmetric] del: map_map)
qed (auto simp: comp_def)

lemma dumps_with_canon: "dumps_with w (canon v) = dumps_with w v"
proof (induction v)
  case (JArr xs)
  then have "map (dumps_with w \<circ> canon) xs = map (dumps_with w) xs" by simp
  then show ?case by (simp only: canon.simps dumps_with.simps map_map)
next
  case (JObj kvs)
  have "map (map_prod id (dumps_with w)) (map (map_prod id canon) kvs) = map (map_prod id (dumps_with w)) kvs"
    using JObj by (auto simp: snds.simps)
  moreover have "sort_key fst (sort_key fst l) = sort_key fst l" for l :: "(string \<times> string) list"
    by (rule sort_key_id_if_sorted [OF sorted_sort_key])
  ultimately show ?case by (simp add: sort_key_map_prod [symmetric] del: map_map)
qed simp_all

lemma canonical_canon: "canonical_json_bytes (canon v) = canonical_json_bytes v"
  by (simp add: canonical_json_bytes_def dumps_def dumps_with_canon)

lemma float_free_canon: "float_free (canon v) = float_free v"
proof (induction v)
  case (JObj kvs)
  then show ?case by (fastforce simp: list_all_iff snds.simps)
qed (auto simp: list_all_iff)

lemma json_wf_canon: "json_wf v \<Longrightarrow> json_wf (canon v)"
proof (induction v)
  case (JObj kvs)
  then have "\<forall>(k, x) \<in> set kvs. json_wf (canon x)" "distinct (map fst kvs)"
    by (fastforce simp: json_wf_JObj snds.simps simp del: json_wf.simps)+
  moreover have "map fst (map (map_prod id canon) kvs) = map fst kvs" by simp
  ultimately show ?case
    by (auto simp: json_wf_JObj distinct_map sort_key_map_prod inj_on_def image_iff simp del: json_wf.simps)
qed (auto simp: list_all_iff)

lemma jdel_canon: "is_dict v \<Longrightarrow> jdel k (canon v) = canon (jdel k v)"
  by (auto simp: is_dict_iff jdel_def filter_sort filter_map comp_def)

lemma map_of_map_canon: "map_of (map (\<lambda>p. map_prod id canon p) kvs) k = map_option canon (map_of kvs k)"
  by (induction kvs) auto

lemma jget_canon: "json_wf v \<Longrightarrow> is_dict v \<Longrightarrow> jget k (canon v) = map_option canon (jget k v)"
  by (auto simp: is_dict_iff map_of_sort_key comp_def map_of_map_canon distinct_map)

section \<open>Truncated text\<close>

lemma parse_str_plain:
  "c \<noteq> CHR 0x22 \<Longrightarrow> c \<noteq> CHR 0x5C \<Longrightarrow> parse_str (c # r) =
     (if (of_char c :: nat) < 32 then None else map_option (\<lambda>(s, t). (c # s, t)) (parse_str r))"
  by (simp del: of_char_eq_iff)

lemma parse_str_escaped:
  assumes "parse_str (CHR 0x5C # r) = Some (v, t)"
  obtains e r' x s where "r = e # r'" "e \<noteq> CHR ''u''" "unescape e = Some x" "parse_str r' = Some (s, t)" "v = x # s"
  | h1 h2 h3 h4 r' x s where "r = CHR ''u'' # h1 # h2 # h3 # h4 # r'" "hex4 h1 h2 h3 h4 = Some x"
      "parse_str r' = Some (s, t)" "v = x # s"
proof -
  from assms have a: "(case r of [] \<Rightarrow> None
     | e # r1 \<Rightarrow>
       if e = CHR ''u'' then
         (case r1 of h1 # h2 # h3 # h4 # r2 \<Rightarrow>
            (case hex4 h1 h2 h3 h4 of None \<Rightarrow> None
             | Some x \<Rightarrow> map_option (\<lambda>(s, t). (x # s, t)) (parse_str r2))
          | _ \<Rightarrow> None)
       else (case unescape e of None \<Rightarrow> None
             | Some x \<Rightarrow> map_option (\<lambda>(s, t). (x # s, t)) (parse_str r1))) = Some (v, t)"
    by (subst (asm) parse_str.simps) (simp only: if_False if_True refl char.inject simp_thms)
  then obtain e r1 where r: "r = e # r1" by (cases r) simp_all
  show ?thesis
  proof (cases "e = CHR ''u''")
    case True
    with a r obtain h1 h2 h3 h4 r2 where "r1 = h1 # h2 # h3 # h4 # r2"
      by (simp del: parse_str.simps split: list.split_asm)
    with a r True that(2) show ?thesis by (auto simp del: parse_str.simps split: option.split_asm)
  next
    case False
    with a r that(1) show ?thesis by (auto simp del: parse_str.simps split: option.split_asm)
  qed
qed

lemma parse_str_extend: "parse_str s = Some (v, r) \<Longrightarrow> parse_str (s @ q) = Some (v, r @ q)"
proof (induction "length s" arbitrary: s v r rule: less_induct)
  case less
  show ?case
  proof (cases s)
    case (Cons c s')
    consider "c = CHR 0x22" | "c = CHR 0x5C" | "c \<noteq> CHR 0x22" "c \<noteq> CHR 0x5C" by blast
    then show ?thesis
    proof cases
      case 2
      from less.prems have "parse_str (CHR 0x5C # s') = Some (v, r)" unfolding Cons 2 .
      then show ?thesis by (rule parse_str_escaped) (simp_all add: Cons 2 less.hyps parse_str.simps(2) [of "CHR 0x5C"] del: parse_str.simps)
    next
      case 3
      then show ?thesis using less.prems less.hyps [of s']
        by (auto simp: Cons parse_str_plain simp del: parse_str.simps split: if_split_asm)
    qed (use less.prems Cons in simp)
  qed (use less.prems in simp)
qed

lemma skip_ws_extend: "skip_ws s \<noteq> [] \<Longrightarrow> skip_ws (s @ q) = skip_ws s @ q"
  by (auto simp: skip_ws_def dropWhile_append)

lemma takeWhile_extend: "dropWhile P s \<noteq> [] \<Longrightarrow> takeWhile P (s @ q) = takeWhile P s \<and> dropWhile P (s @ q) = dropWhile P s @ q"
  by (induction s) auto


lemma skip_ws_Cons: "skip_ws s = c # r \<Longrightarrow> skip_ws (s @ q) = c # r @ q"
  by (simp add: skip_ws_extend)

lemma skip_ws_idem: "skip_ws s = c # r \<Longrightarrow> \<not> json_ws c"
  by (metis hd_dropWhile list.distinct(1) list.sel(1) skip_ws_def)

lemma parse_frac_extend:
  assumes "parse_frac s = (fs, r)" "r \<noteq> []" "fs = [] \<Longrightarrow> hd r \<noteq> CHR ''.''"
  shows "parse_frac (s @ q) = (fs, r @ q)"
proof (cases s)
  case (Cons c s')
  show ?thesis
  proof (cases s')
    case (Cons d s'')
    show ?thesis
    proof (cases "c = CHR ''.'' \<and> is_digit d")
      case True
      with assms \<open>s = c # s'\<close> Cons have "fs = takeWhile is_digit (d # s'')" "r = dropWhile is_digit (d # s'')"
        by (simp_all add: parse_frac_def)
      with True assms(2) takeWhile_extend [of is_digit "d # s''" q] \<open>s = c # s'\<close> Cons show ?thesis
        by (simp add: parse_frac_def)
    qed (use assms \<open>s = c # s'\<close> Cons in \<open>auto simp: parse_frac_def\<close>)
  qed (use assms Cons in \<open>auto simp: parse_frac_def split: list.split\<close>)
qed (use assms in \<open>simp add: parse_frac_def\<close>)

lemma parse_exp_extend:
  assumes "parse_exp s = (ex, r)" "r \<noteq> []" "ex = None \<Longrightarrow> num_stop r"
  shows "parse_exp (s @ q) = (ex, r @ q)"
proof (cases ex)
  case None
  with assms have "r = s" by (auto simp: parse_exp_def Let_def split: list.splits if_splits)
  with assms None have "num_stop (r @ q)" by (cases r) (simp_all add: num_stop_def)
  with \<open>r = s\<close> None show ?thesis by (simp add: parse_exp_stop)
next
  case (Some x)
  with assms obtain c s' where s: "s = c # s'" and c: "c = CHR ''e'' \<or> c = CHR ''E''"
    by (auto simp: parse_exp_def Let_def split: list.splits if_splits)
  let ?r = "if s' \<noteq> [] \<and> (hd s' = CHR ''-'' \<or> hd s' = CHR ''+'') then tl s' else s'"
  from assms Some s c have ds: "takeWhile is_digit ?r \<noteq> []" and r: "r = dropWhile is_digit ?r"
    by (auto simp: parse_exp_def Let_def split: if_split_asm)
  then have "s' \<noteq> []" by auto
  then obtain d t where s': "s' = d # t" by (cases s') auto
  from takeWhile_extend [of is_digit ?r q] assms(2) r
  have "takeWhile is_digit (?r @ q) = takeWhile is_digit ?r" "dropWhile is_digit (?r @ q) = r @ q" by auto
  with assms(1) ds s c s' r show ?thesis
    by (auto simp: parse_exp_def Let_def split: if_split_asm)
qed


lemma parse_frac_stop_dot: "parse_frac s = (fs, r) \<Longrightarrow> fs = [] \<Longrightarrow> r = s"
  by (auto simp: parse_frac_def split: list.splits if_splits)

lemma parse_exp_none: "parse_exp s = (None, r) \<Longrightarrow> r = s"
  by (auto simp: parse_exp_def Let_def split: list.splits if_splits)

lemma parse_exp_some: "parse_exp s = (Some x, r) \<Longrightarrow> hd s = CHR ''e'' \<or> hd s = CHR ''E''"
  by (auto simp: parse_exp_def Let_def split: list.splits if_splits)

lemma frac_exp_extend:
  assumes "parse_frac s = (fs, r1)" "parse_exp r1 = (ex, r)" "r \<noteq> []" "num_stop r"
  shows "parse_frac (s @ q) = (fs, r1 @ q)" "parse_exp (r1 @ q) = (ex, r @ q)" "s \<noteq> []" "r1 \<noteq> []"
proof -
  from assms have ne: "r1 \<noteq> []" by (auto simp: parse_exp_def)
  have "hd r1 \<noteq> CHR ''.''"
    using assms parse_exp_none [of r1 r] parse_exp_some [of r1 _ r]
    by (cases ex) (auto simp: num_stop_def)
  with assms ne show "parse_frac (s @ q) = (fs, r1 @ q)" by (intro parse_frac_extend)
  from assms show "parse_exp (r1 @ q) = (ex, r @ q)" by (intro parse_exp_extend)
  from ne show "r1 \<noteq> []" .
  from ne assms(1) show "s \<noteq> []" by (auto simp: parse_frac_def)
qed

definition int_digits :: "string \<Rightarrow> string" where
  "int_digits s = (let ds = takeWhile is_digit s in if ds \<noteq> [] \<and> hd ds = CHR ''0'' then ''0'' else ds)"

lemma int_digits_extend:
  assumes "drop (length (int_digits s)) s \<noteq> []" "int_digits s \<noteq> []"
  shows "int_digits (s @ q) = int_digits s \<and> drop (length (int_digits s)) (s @ q) = drop (length (int_digits s)) s @ q"
proof (cases "hd (takeWhile is_digit s) = CHR ''0''")
  case True
  with assms(2) obtain s' where "s = CHR ''0'' # s'"
    by (cases s) (auto simp: int_digits_def split: if_splits)
  then show ?thesis by (simp add: int_digits_def is_digit_def)
next
  case False
  then have ds: "int_digits s = takeWhile is_digit s" by (auto simp: int_digits_def)
  with assms(1) have "dropWhile is_digit s \<noteq> []" by (simp add: dropWhile_eq_drop)
  from takeWhile_extend [OF this, of q] ds show ?thesis using False assms(2)
    by (auto simp: int_digits_def dropWhile_eq_drop)
qed

definition unsigned_num :: "int \<Rightarrow> string \<Rightarrow> (json \<times> string) option" where
  "unsigned_num sg s =
     (let ds = int_digits s; (fs, r1) = parse_frac (drop (length ds) s); (ex, r2) = parse_exp r1
      in if ds = [] then None
         else if fs = [] \<and> ex = None then Some (JInt (sg * int (dec_val ds)), r2)
         else (let (m, e) = strip_zeros (sg * int (dec_val (ds @ fs)))
                 ((case ex of None \<Rightarrow> 0 | Some x \<Rightarrow> x) - int (length fs))
               in Some (JFloat m e, r2)))"

lemma parse_num_unsigned:
  "parse_num s = (if s \<noteq> [] \<and> hd s = CHR ''-'' then unsigned_num (-1) (tl s) else unsigned_num 1 s)"
  by (simp add: parse_num_def unsigned_num_def int_digits_def Let_def)

lemma unsigned_num_extend:
  assumes "unsigned_num sg s = Some (v, r)" "r \<noteq> []" "num_stop r"
  shows "unsigned_num sg (s @ q) = Some (v, r @ q)"
proof -
  obtain fs r1 where f: "parse_frac (drop (length (int_digits s)) s) = (fs, r1)" by fastforce
  obtain ex r2 where e: "parse_exp r1 = (ex, r2)" by fastforce
  have ds: "int_digits s \<noteq> []" and r: "r2 = r"
    using assms(1) f e by (auto simp: unsigned_num_def Let_def split: prod.splits if_splits)
  note fe = frac_exp_extend(1,2) [OF f e [unfolded r] assms(2,3), of q]
    frac_exp_extend(3) [OF f e [unfolded r] assms(2,3)]
  from int_digits_extend [OF fe(3) ds, of q] have
    "int_digits (s @ q) = int_digits s" "drop (length (int_digits s)) (s @ q) = drop (length (int_digits s)) s @ q"
    by blast+
  with assms(1) show ?thesis
    by (auto simp: unsigned_num_def Let_def f e fe r ds simp del: drop_append split: if_split_asm prod.split_asm)
qed

lemma parse_num_extend:
  "parse_num s = Some (v, r) \<Longrightarrow> r \<noteq> [] \<Longrightarrow> num_stop r \<Longrightarrow> parse_num (s @ q) = Some (v, r @ q)"
proof -
  assume "parse_num s = Some (v, r)" "r \<noteq> []" "num_stop r"
  moreover from this have "s \<noteq> []" by (auto simp: parse_num_def Let_def)
  ultimately show ?thesis by (auto simp: parse_num_unsigned unsigned_num_extend split: if_splits)
qed

lemma parse_num_hd:
  assumes "parse_num s = Some x"
  shows "s \<noteq> []" and "is_digit (hd s) \<or> hd s = CHR ''-''"
proof -
  show "s \<noteq> []" using assms by (auto simp: parse_num_def Let_def)
  have "int_digits s \<noteq> []" if "hd s \<noteq> CHR ''-''"
    using assms that by (auto simp: parse_num_unsigned unsigned_num_def Let_def split: if_splits prod.splits)
  with \<open>s \<noteq> []\<close> show "is_digit (hd s) \<or> hd s = CHR ''-''"
    by (cases s) (auto simp: int_digits_def split: if_splits)
qed

section \<open>Reading more text than the value\<close>

definition is_num :: "json \<Rightarrow> bool" where
  "is_num v = (case v of JInt i \<Rightarrow> True | JFloat m e \<Rightarrow> True | _ \<Rightarrow> False)"

definition ends_well :: "json \<Rightarrow> string \<Rightarrow> bool" where
  "ends_well v r \<longleftrightarrow> (is_num v \<longrightarrow> r \<noteq> [] \<and> num_stop r)"

lemma starts_with_extend: "starts_with p s \<Longrightarrow> starts_with p (s @ q) \<and> drop (length p) (s @ q) = drop (length p) s @ q"
  by (auto simp: starts_with_iff)

lemma mark_ends_well: "skip_ws r = c # t \<Longrightarrow> c = CHR '','' \<or> c = CHR '']'' \<or> c = CHR ''}'' \<Longrightarrow> ends_well v r"
proof -
  assume a: "skip_ws r = c # t" "c = CHR '','' \<or> c = CHR '']'' \<or> c = CHR ''}''"
  then obtain d r' where r: "r = d # r'" by (cases r) (auto simp: skip_ws_def)
  with a have "json_ws d \<or> d = c" by (auto simp: skip_ws_def split: if_splits)
  with a(2) have "num_stop (d # r')" by (auto simp: num_stop_def json_ws_def is_digit_def)
  with r show ?thesis by (simp add: ends_well_def)
qed


lemma parse_value_cases:
  assumes "parse_value (Suc n) s = Some (v, r)"
  obtains (str) t t' where "skip_ws s = CHR 0x22 # t" "parse_str t = Some (t', r)" "v = JStr t'"
  | (arr0) t where "skip_ws s = CHR ''['' # t" "skip_ws t = CHR '']'' # r" "v = JArr []"
  | (arr) t c u xs where "skip_ws s = CHR ''['' # t" "skip_ws t = c # u" "c \<noteq> CHR '']''"
      "parse_elems n (c # u) = Some (xs, r)" "v = JArr xs"
  | (obj0) t where "skip_ws s = CHR ''{'' # t" "skip_ws t = CHR ''}'' # r" "v = JObj []"
  | (obj) t c u kvs where "skip_ws s = CHR ''{'' # t" "skip_ws t = c # u" "c \<noteq> CHR ''}''"
      "parse_members n (c # u) = Some (kvs, r)" "v = JObj (dict_of kvs)"
  | (const) w where "skip_ws s = w @ r" "(w, v) \<in> {(''null'', JNull), (''true'', JBool True), (''false'', JBool False)}"
  | (num) "parse_num (skip_ws s) = Some (v, r)"
proof (cases "skip_ws s")
  case Nil
  with assms show ?thesis by (simp add: parse_value.simps)
next
  case (Cons c t)
  have e0: "parse_elems n [] = None" "parse_members n [] = None" by (cases n; cases "n - 1"; simp add: parse_value.simps)+
  consider "c = CHR 0x22" | "c = CHR ''[''" | "c = CHR ''{''" | (c) "c \<noteq> CHR 0x22" "c \<noteq> CHR ''[''" "c \<noteq> CHR ''{''"
    by blast
  then show ?thesis
  proof cases
    case 1
    with assms Cons str show ?thesis by (auto simp: parse_value.simps)
  next
    case 2
    with assms Cons arr0 arr e0 show ?thesis
      by (cases "skip_ws t") (auto simp: parse_value.simps Let_def split: if_splits)
  next
    case 3
    with assms Cons obj0 obj e0 show ?thesis
      by (cases "skip_ws t") (auto simp: parse_value.simps Let_def split: if_splits)
  next
    case c
    with assms Cons have "(if starts_with ''null'' (skip_ws s) then Some (JNull, drop 4 (skip_ws s))
      else if starts_with ''true'' (skip_ws s) then Some (JBool True, drop 4 (skip_ws s))
      else if starts_with ''false'' (skip_ws s) then Some (JBool False, drop 5 (skip_ws s))
      else parse_num (skip_ws s)) = Some (v, r)"
      by (auto simp: parse_value.simps Let_def split: if_split_asm)
    then show ?thesis using num const [of "''null''"] const [of "''true''"] const [of "''false''"]
      by (auto simp: starts_with_iff split: if_split_asm)
  qed
qed

lemma parse_members_cases:
  assumes "parse_members (Suc n) s = Some (kvs, r)"
  obtains t k s1 t1 v s3 c t3 where "skip_ws s = CHR 0x22 # t" "parse_str t = Some (k, s1)"
    "skip_ws s1 = CHR '':'' # t1" "parse_value n t1 = Some (v, s3)" "skip_ws s3 = c # t3"
    "c = CHR '','' \<and> (\<exists>ms. parse_members n t3 = Some (ms, r) \<and> kvs = (k, v) # ms)
     \<or> c = CHR ''}'' \<and> r = t3 \<and> kvs = [(k, v)]"
proof -
  from assms obtain t where 1: "skip_ws s = CHR 0x22 # t"
    by (cases "skip_ws s") (auto simp: Let_def parse_value.simps split: if_splits)
  with assms obtain k s1 where 2: "parse_str t = Some (k, s1)"
    by (auto simp: Let_def parse_value.simps split: option.splits)
  with assms 1 obtain t1 where 3: "skip_ws s1 = CHR '':'' # t1"
    by (cases "skip_ws s1") (auto simp: Let_def parse_value.simps split: if_splits)
  with assms 1 2 obtain v s3 where 4: "parse_value n t1 = Some (v, s3)"
    by (auto simp: Let_def parse_value.simps split: option.splits)
  with assms 1 2 3 obtain c t3 where 5: "skip_ws s3 = c # t3"
    by (cases "skip_ws s3") (auto simp: Let_def parse_value.simps split: if_splits)
  from assms 1 2 3 4 5 that show ?thesis
    by (auto simp: Let_def parse_value.simps split: if_splits)
qed

lemma parse_elems_cases:
  assumes "parse_elems (Suc n) s = Some (xs, r)"
  obtains v s1 c t where "parse_value n s = Some (v, s1)" "skip_ws s1 = c # t"
    "c = CHR '','' \<and> (\<exists>vs. parse_elems n t = Some (vs, r) \<and> xs = v # vs)
     \<or> c = CHR '']'' \<and> r = t \<and> xs = [v]"
proof -
  from assms obtain v s1 where 1: "parse_value n s = Some (v, s1)"
    by (auto simp: Let_def parse_value.simps split: option.splits)
  with assms obtain c t where 2: "skip_ws s1 = c # t"
    by (cases "skip_ws s1") (auto simp: Let_def parse_value.simps split: if_splits)
  from assms 1 2 that show ?thesis by (auto simp: Let_def parse_value.simps split: if_splits)
qed


lemma skip_ws_skip: "skip_ws s = c # t \<Longrightarrow> skip_ws (c # t) = c # t"
  using skip_ws_idem by (fastforce simp: skip_ws_def)

lemma parse_const_extend:
  assumes "skip_ws s = w @ r" "(w, v) \<in> {(''null'', JNull), (''true'', JBool True), (''false'', JBool False)}"
  shows "parse_value (Suc n) (s @ q) = Some (v, r @ q)"
proof -
  from assms have "skip_ws s \<noteq> []" by auto
  with assms have "skip_ws (s @ q) = w @ r @ q" by (simp add: skip_ws_extend)
  with assms(2) show ?thesis by (auto simp: parse_value.simps starts_with_def)
qed

lemma parse_number_value:
  assumes "skip_ws s = p" "parse_num p = Some (v, r)"
  shows "parse_value (Suc n) s = Some (v, r)"
proof -
  obtain c t where p: "p = c # t" using parse_num_hd(1) [OF assms(2)] by (cases p) auto
  with parse_num_hd(2) [OF assms(2)] have "is_digit c \<or> c = CHR ''-''" by simp
  then have "c \<noteq> CHR 0x22 \<and> c \<noteq> CHR ''['' \<and> c \<noteq> CHR ''{'' \<and> c \<noteq> CHR ''n'' \<and> c \<noteq> CHR ''t'' \<and> c \<noteq> CHR ''f''"
    by (auto simp: is_digit_def)
  with assms p show ?thesis by (simp add: parse_value.simps starts_with_def)
qed

theorem parse_extend:
  "parse_value n s = Some (v, r) \<Longrightarrow> ends_well v r \<Longrightarrow> n \<le> m \<Longrightarrow> parse_value m (s @ q) = Some (v, r @ q)"
  "parse_elems n s = Some (xs, r) \<Longrightarrow> n \<le> m \<Longrightarrow> parse_elems m (s @ q) = Some (xs, r @ q)"
  "parse_members n s = Some (kvs, r) \<Longrightarrow> n \<le> m \<Longrightarrow> parse_members m (s @ q) = Some (kvs, r @ q)"
proof (induction n arbitrary: m s v xs kvs r)
  case 0
  { case 1 then show ?case by (simp add: parse_value.simps) }
  { case 2 then show ?case by (simp add: parse_value.simps) }
  { case 3 then show ?case by (simp add: parse_value.simps) }
next
  case (Suc n)
  { case 1
    then obtain m' where m: "m = Suc m'" "n \<le> m'" by (cases m) auto
    from 1(1) show ?case
    proof (cases rule: parse_value_cases)
      case (str t t')
      with parse_str_extend [OF str(2), of q] skip_ws_Cons [OF str(1), of q] show ?thesis
        by (simp add: m parse_value.simps)
    next
      case (arr0 t)
      with skip_ws_Cons [of s _ _ q] skip_ws_Cons [of t _ _ q] show ?thesis by (simp add: m parse_value.simps)
    next
      case (arr t c u ys)
      with skip_ws_Cons [of s _ _ q] skip_ws_Cons [of t _ _ q] Suc.IH(2) [OF arr(4) m(2)] show ?thesis
        by (simp add: m parse_value.simps)
    next
      case (obj0 t)
      with skip_ws_Cons [of s _ _ q] skip_ws_Cons [of t _ _ q] show ?thesis by (simp add: m parse_value.simps)
    next
      case (obj t c u ms)
      with skip_ws_Cons [of s _ _ q] skip_ws_Cons [of t _ _ q] Suc.IH(3) [OF obj(4) m(2)] show ?thesis
        by (simp add: m parse_value.simps)
    next
      case (const w)
      then show ?thesis unfolding m by (rule parse_const_extend)
    next
      case num
      then have "is_num v" by (auto simp: parse_num_def is_num_def Let_def split: if_splits prod.splits)
      with 1(2) have "r \<noteq> []" "num_stop r" by (simp_all add: ends_well_def)
      with parse_num_extend [OF num, of q] have "parse_num (skip_ws s @ q) = Some (v, r @ q)" by simp
      moreover have "skip_ws (s @ q) = skip_ws s @ q" using parse_num_hd(1) [OF num] by (rule skip_ws_extend)
      ultimately show ?thesis unfolding m by (intro parse_number_value) simp_all
    qed }
  { case 2
    then obtain m' where m: "m = Suc m'" "n \<le> m'" by (cases m) auto
    from 2(1) show ?case
    proof (cases rule: parse_elems_cases)
      case (1 v s1 c t)
      then have "ends_well v s1" by (intro mark_ends_well [OF 1(2)]) auto
      note v = Suc.IH(1) [OF 1(1) this m(2)]
      from 1(3) show ?thesis
      proof (elim disjE conjE exE)
        fix vs assume "parse_elems n t = Some (vs, r)" "c = CHR '',''" "xs = v # vs"
        with v Suc.IH(2) [OF this(1) m(2)] skip_ws_Cons [OF 1(2), of q] show ?thesis by (simp add: m)
      qed (use v skip_ws_Cons [OF 1(2), of q] in \<open>simp add: m\<close>)
    qed }
  { case 3
    then obtain m' where m: "m = Suc m'" "n \<le> m'" by (cases m) auto
    from 3(1) show ?case
    proof (cases rule: parse_members_cases)
      case (1 t k s1 t1 v s3 c t3)
      then have "ends_well v s3" by (intro mark_ends_well [OF 1(5)]) auto
      note v = Suc.IH(1) [OF 1(4) this m(2)]
      note e = v parse_str_extend [OF 1(2), of q] skip_ws_Cons [OF 1(1), of q] skip_ws_Cons [OF 1(3), of q]
        skip_ws_Cons [OF 1(5), of q]
      from 1(6) show ?thesis
      proof (elim disjE conjE exE)
        fix ms assume "parse_members n t3 = Some (ms, r)" "c = CHR '',''" "kvs = (k, v) # ms"
        with e Suc.IH(3) [OF this(1) m(2)] show ?thesis by (simp add: m)
      qed (use e in \<open>simp add: m\<close>)
    qed }
qed


lemma dict_prefix_unreadable:
  assumes v: "is_dict v" "json_wf v" "float_free v" and w: "list_all json_ws w"
    and split: "dumps_with w v = p @ q" "q \<noteq> []"
  shows "loads p = None"
proof (rule ccontr)
  assume "loads p \<noteq> None"
  then obtain x r where x: "parse_value (Suc (length p)) p = Some (x, r)" by (auto simp: loads_def split: option.splits)
  then have "p \<noteq> []" by (auto simp: parse_value.simps skip_ws_def)
  with split(1) v(1) obtain p' where p: "p = CHR ''{'' # p'"
    by (cases p) (auto simp: is_dict_iff)
  then have "skip_ws p = p" by (simp add: skip_ws_def json_ws_def)
  with x p have "\<not> is_num x" by (auto simp: parse_value.simps Let_def is_num_def split: if_splits)
  then have "ends_well x r" by (simp add: ends_well_def)
  then have "parse_value (Suc (length (p @ q))) (p @ q) = Some (x, r @ q)"
    by (intro parse_extend(1) [OF x]) simp_all
  moreover have "reads_back w v" using w v(2,3) by (rule dumps_reads_back)
  then have "parse_value (Suc (length (p @ q))) ((p @ q) @ []) = Some (canon v, [])"
    unfolding reads_back_def split(1) [symmetric] by (meson le_SucI le_refl num_stop_marks(1))
  ultimately show False using split(2) by simp
qed

lemma utf8_decode_Nil: "utf8_decode q = Some [] \<Longrightarrow> q = []"
  by (induction q rule: utf8_decode.induct) (auto simp: Let_def split: if_splits list.splits)

lemma utf8_decode_append:
  "utf8_decode p = Some a \<Longrightarrow> utf8_decode (p @ q) = map_option ((@) a) (utf8_decode q)"
proof (induction p arbitrary: a rule: utf8_decode.induct)
  case 1
  then show ?case by (simp add: option.map_ident)
next
  case (2 c s)
  consider (one) "(of_char c :: nat) < 128"
    | (two) d r where "s = d # r" "\<not> (of_char c :: nat) < 128" "(of_char c :: nat) = 194 \<or> (of_char c :: nat) = 195"
        "128 \<le> (of_char d :: nat) \<and> (of_char d :: nat) < 192"
    using "2.prems" by (auto simp: Let_def simp del: of_char_eq_iff split: if_split_asm list.split_asm)
  then show ?case
  proof cases
    case one
    with "2.prems" obtain b where "utf8_decode s = Some b" "a = c # b" by auto
    with one "2.IH"(1) [OF refl, of b] show ?thesis by (cases "utf8_decode q") simp_all
  next
    case two
    then obtain b where "utf8_decode r = Some b"
      "a = char_of (((of_char c :: nat) - 192) * 64 + ((of_char d :: nat) - 128)) # b"
      using "2.prems" by (auto simp: Let_def simp del: of_char_eq_iff char_of_eq_iff)
    with two "2.IH"(2) [OF refl _ _ two(1) refl, of b] show ?thesis
      by (cases "utf8_decode q") (simp_all add: Let_def del: of_char_eq_iff char_of_eq_iff)
  qed
qed

lemma canonical_prefix_unreadable:
  assumes v: "is_dict v" "json_wf v" "float_free v" and split: "canonical_json_bytes v = p @ q" "q \<noteq> []"
  shows "Option.bind (utf8_decode p) loads = None"
proof (cases "utf8_decode p")
  case (Some a)
  from split have "utf8_decode (p @ q) = Some (dumps v)"
    by (metis canonical_json_bytes_def utf8_decode_utf8)
  with utf8_decode_append [OF Some, of q] obtain b where b: "utf8_decode q = Some b" "dumps v = a @ b"
    by (cases "utf8_decode q") auto
  then have "b \<noteq> []" using split(2) utf8_decode_Nil by blast
  with dict_prefix_unreadable [OF v, of "[]" a b] b Some show ?thesis by (simp add: dumps_def)
qed simp

lemma canonical_reads_back:
  assumes "json_wf v" "float_free v" "list_all json_ws w" "list_all (\<lambda>c. (of_char c :: nat) < 128) w"
  shows "Option.bind (utf8_decode (canonical_json_bytes v @ w)) loads = Some (canon v)"
proof -
  have w: "utf8_decode w = Some w" using assms(4) by (induction w) (auto simp: Let_def)
  have stop: "num_stop w" using assms(3) by (cases w) (auto simp: num_stop_def json_ws_def is_digit_def)
  have "reads_back '''' v" using assms(1,2) by (intro dumps_reads_back) simp_all
  then have "parse_value (Suc (length (dumps v @ w))) (dumps v @ w) = Some (canon v, w)"
    using stop by (simp add: reads_back_def dumps_def)
  moreover have "skip_ws w = []" using assms(3) by (induction w) (auto simp: skip_ws_def)
  ultimately have "loads (dumps v @ w) = Some (canon v)" by (simp add: loads_def)
  then show ?thesis by (simp add: canonical_json_bytes_def utf8_decode_append [OF utf8_decode_utf8] w)
qed

end
