(* ===== verification/Psm_RuntimeIds.thy ===== *)
theory Psm_RuntimeIds
  imports Psm_Json
begin

text \<open>
  Runtime identifiers: \<open>runtime_ids.py\<close> (the exact Windows runtime ids the fleet accepts), the
  \<open>RuntimeSpec\<close> of \<open>models.py\<close> with its derived names, and \<open>catalog.py\<close> (channels, release
  lines, matrices and the version order). The two regular expressions are written as the
  deterministic matchers they denote; the lemmas \<open>core_version_iff\<close> and \<open>version_match_dotted\<close>
  show what they accept.
\<close>

section \<open>Matching\<close>

text \<open>\<open>[0-9]+\<close> at the front of the text, greedily\<close>

definition take_digits :: "string \<Rightarrow> (string \<times> string) option" where
  "take_digits s = (if takeWhile is_digit s = [] then None
     else Some (takeWhile is_digit s, dropWhile is_digit s))"

definition is_alpha :: "char \<Rightarrow> bool" where
  "is_alpha c = (let n = (of_char c :: nat) in (65 \<le> n \<and> n \<le> 90) \<or> (97 \<le> n \<and> n \<le> 122))"

definition is_alnum :: "char \<Rightarrow> bool" where
  "is_alnum c \<longleftrightarrow> is_alpha c \<or> is_digit c"

definition is_label_char :: "char \<Rightarrow> bool" where
  "is_label_char c \<longleftrightarrow> is_alpha c \<or> is_digit c \<or> c = CHR ''.'' \<or> c = CHR ''-''"

lemma take_digits_append:
  assumes "list_all is_digit ds" "ds \<noteq> []" "r = [] \<or> \<not> is_digit (hd r)"
  shows "take_digits (ds @ r) = Some (ds, r)"
proof -
  have "takeWhile is_digit (ds @ r) = ds" "dropWhile is_digit (ds @ r) = r"
    using assms(1,3) by (cases r; auto simp: list_all_iff takeWhile_append dropWhile_append)+
  with assms(2) show ?thesis by (simp add: take_digits_def)
qed

lemma take_digits_SomeD:
  assumes "take_digits s = Some (ds, r)"
  shows "s = ds @ r" "ds \<noteq> []" "list_all is_digit ds" "r = [] \<or> \<not> is_digit (hd r)"
proof -
  from assms have "ds = takeWhile is_digit s" "r = dropWhile is_digit s" "ds \<noteq> []"
    by (simp_all add: take_digits_def split: if_splits)
  then show "s = ds @ r" "ds \<noteq> []" "list_all is_digit ds" "r = [] \<or> \<not> is_digit (hd r)"
    using hd_dropWhile [of is_digit s] by (auto simp: list_all_iff dest: set_takeWhileD)
qed

lemma not_digit_marks [simp]: "\<not> is_digit (CHR ''.'')" "\<not> is_digit (CHR ''-'')"
  by (simp_all add: is_digit_def)

section \<open>Exact Windows runtime ids\<close>

record windows_runtime =
  wr_runtime_id :: string
  wr_family :: string
  wr_edition :: string
  wr_version :: string
  wr_platform :: string
  wr_arch :: string

definition desktop_versions :: "string list" where
  "desktop_versions = [''4.0'', ''5.0'', ''5.1'']"

definition windows_archs :: "string list" where
  "windows_archs = [''x64'', ''x86'', ''arm64'']"

text \<open>The \<open>version\<close> group of \<open>_CORE_WINDOWS_RE\<close>\<close>

definition core_version :: "string \<Rightarrow> bool" where
  "core_version v =
     (case Option.bind (take_digits v) (\<lambda>(a, r).
           Option.bind (eat (CHR ''.'') r) (\<lambda>r.
           Option.bind (take_digits r) (\<lambda>(b, r).
           Option.bind (eat (CHR ''.'') r) (\<lambda>r. take_digits r)))) of
        None \<Rightarrow> False
      | Some (c, r) \<Rightarrow> r = [] \<or>
          (hd r = CHR ''-'' \<and> tl r \<noteq> [] \<and> list_all is_label_char (tl r)))"

definition desktop_match :: "string \<Rightarrow> string option" where
  "desktop_match s = Option.bind
     (if starts_with ''windows-powershell-'' s then Some (drop 19 s) else None)
     (\<lambda>v. if v \<in> set desktop_versions then Some v else None)"

text \<open>
  The three architectures are no suffixes of one another, so the first that fits is the only one
  and the group in front of it is determined.
\<close>

definition core_match :: "string \<Rightarrow> (string \<times> string) option" where
  "core_match s =
     (case List.find (\<lambda>a. eat_suffix (''-windows-'' @ a) s \<noteq> None) windows_archs of
        None \<Rightarrow> None
      | Some a \<Rightarrow>
        (case eat_suffix (''-windows-'' @ a) s of None \<Rightarrow> None
         | Some p \<Rightarrow>
           if starts_with ''powershell-'' p \<and> core_version (drop 11 p) then Some (drop 11 p, a)
           else None))"

definition parse_windows_runtime_id :: "string \<Rightarrow> windows_runtime option" where
  "parse_windows_runtime_id value =
     (case desktop_match value of
        Some v \<Rightarrow> Some \<lparr>wr_runtime_id = value, wr_family = ''windows-powershell'',
          wr_edition = ''Desktop'', wr_version = v, wr_platform = ''windows'',
          wr_arch = ''x64-or-x86''\<rparr>
      | None \<Rightarrow>
        (case core_match value of
           Some (v, a) \<Rightarrow> Some \<lparr>wr_runtime_id = value, wr_family = ''powershell-core'',
             wr_edition = ''Core'', wr_version = v, wr_platform = ''windows'', wr_arch = a\<rparr>
         | None \<Rightarrow> None))"

definition is_exact_windows_runtime_id :: "string \<Rightarrow> bool" where
  "is_exact_windows_runtime_id value \<longleftrightarrow> parse_windows_runtime_id value \<noteq> None"

definition windows_runtime_version :: "string \<Rightarrow> string res" where
  "windows_runtime_version value =
     (case parse_windows_runtime_id value of
        None \<Rightarrow> throw ValueError (''Invalid exact Windows runtime id: '' @ value)
      | Some r \<Rightarrow> Inr (wr_version r))"

lemma core_version_iff:
  "core_version v \<longleftrightarrow> (\<exists>a b c l. v = a @ ''.'' @ b @ ''.'' @ c @ l
     \<and> a \<noteq> [] \<and> b \<noteq> [] \<and> c \<noteq> [] \<and> list_all is_digit a \<and> list_all is_digit b \<and> list_all is_digit c
     \<and> (l = [] \<or> (\<exists>t. l = CHR ''-'' # t \<and> t \<noteq> [] \<and> list_all is_label_char t)))"
    (is "?L \<longleftrightarrow> ?R")
proof
  assume ?L
  then obtain a r1 r2 b r3 r4 c l where d: "take_digits v = Some (a, r1)" "r1 = CHR ''.'' # r2"
    "take_digits r2 = Some (b, r3)" "r3 = CHR ''.'' # r4" "take_digits r4 = Some (c, l)"
    "l = [] \<or> (hd l = CHR ''-'' \<and> tl l \<noteq> [] \<and> list_all is_label_char (tl l))"
    by (auto simp: core_version_def eat_eq_Some split: option.splits Option.bind_splits)
  note t = take_digits_SomeD [OF d(1)] take_digits_SomeD [OF d(3)] take_digits_SomeD [OF d(5)]
  have "v = a @ ''.'' @ b @ ''.'' @ c @ l" using t d(2,4) by simp
  moreover have "l = [] \<or> (\<exists>t. l = CHR ''-'' # t \<and> t \<noteq> [] \<and> list_all is_label_char t)"
    using d(6) by (cases l) auto
  ultimately show ?R using t by blast
next
  assume ?R
  then obtain a b c l where v: "v = a @ ''.'' @ b @ ''.'' @ c @ l"
    and ne: "a \<noteq> []" "b \<noteq> []" "c \<noteq> []"
    and dg: "list_all is_digit a" "list_all is_digit b" "list_all is_digit c"
    and l: "l = [] \<or> (\<exists>t. l = CHR ''-'' # t \<and> t \<noteq> [] \<and> list_all is_label_char t)" by blast
  have "take_digits (a @ CHR ''.'' # r) = Some (a, CHR ''.'' # r)"
    "take_digits (b @ CHR ''.'' # r) = Some (b, CHR ''.'' # r)" for r
    using ne dg by (simp_all add: take_digits_append)
  moreover have "take_digits (c @ l) = Some (c, l)"
    using ne dg l by (intro take_digits_append) auto
  ultimately show ?L using l by (auto simp: core_version_def v)
qed

lemma find_unique:
  "a \<in> set xs \<Longrightarrow> P a \<Longrightarrow> (\<And>b. b \<in> set xs \<Longrightarrow> b \<noteq> a \<Longrightarrow> \<not> P b) \<Longrightarrow> List.find P xs = Some a"
  by (induction xs) auto

lemma core_match_iff:
  "core_match s = Some (v, a) \<longleftrightarrow>
     s = ''powershell-'' @ v @ ''-windows-'' @ a \<and> core_version v \<and> a \<in> set windows_archs"
    (is "?L \<longleftrightarrow> ?R")
proof
  assume L: ?L
  let ?find = "List.find (\<lambda>a. eat_suffix (''-windows-'' @ a) s \<noteq> None) windows_archs"
  obtain b where b: "?find = Some b" using L by (cases ?find) (simp_all only: core_match_def option.case option.distinct)
  obtain p where pb: "eat_suffix (''-windows-'' @ b) s = Some p"
    using L b by (cases "eat_suffix (''-windows-'' @ b) s") (simp_all only: core_match_def option.case option.distinct)
  have "(if starts_with ''powershell-'' p \<and> core_version (drop 11 p) then Some (drop 11 p, b) else None)
      = Some (v, a)"
    using L b pb by (simp only: core_match_def option.case)
  then have p: "eat_suffix (''-windows-'' @ a) s = Some p" "starts_with ''powershell-'' p"
    "core_version (drop 11 p)" "v = drop 11 p" and f: "?find = Some a"
    using b pb by (simp_all split: if_split_asm)
  from f have "a \<in> set windows_archs" by (auto simp: find_Some_iff)
  moreover from p(2) obtain q where "p = ''powershell-'' @ q" by (auto simp: starts_with_iff)
  ultimately show ?R using p by (auto simp: eat_suffix_eq_Some)
next
  assume R: ?R
  let ?p = "''powershell-'' @ v"
  have s: "s = ?p @ (''-windows-'' @ a)" using R by simp
  have other: "eat_suffix (''-windows-'' @ b) s = None" if "b \<in> set windows_archs" "b \<noteq> a" for b
  proof (rule ccontr)
    assume "eat_suffix (''-windows-'' @ b) s \<noteq> None"
    then obtain q where q: "s = q @ (''-windows-'' @ b)" by (auto simp: eat_suffix_eq_Some)
    with s have "rev (q @ (''-windows-'' @ b)) = rev (?p @ (''-windows-'' @ a))" by simp
    then have "rev b @ ''-swodniw-'' @ rev q = rev a @ ''-swodniw-'' @ rev ?p" by simp
    then show False using R that by (auto simp: windows_archs_def)
  qed
  have here: "eat_suffix (''-windows-'' @ a) s = Some ?p" unfolding s by (rule eat_suffix_append)
  have "List.find (\<lambda>a. eat_suffix (''-windows-'' @ a) s \<noteq> None) windows_archs = Some a"
  proof (rule find_unique)
    show "a \<in> set windows_archs" using R by simp
    show "eat_suffix (''-windows-'' @ a) s \<noteq> None" unfolding here by simp
    show "\<not> eat_suffix (''-windows-'' @ b) s \<noteq> None" if "b \<in> set windows_archs" "b \<noteq> a" for b
      using other [OF that] by simp
  qed
  with here R show ?L by (simp add: core_match_def starts_with_def)
qed

lemma desktop_match_iff:
  "desktop_match s = Some v \<longleftrightarrow> s = ''windows-powershell-'' @ v \<and> v \<in> set desktop_versions"
  by (auto simp: desktop_match_def starts_with_iff split: if_splits Option.bind_splits)

lemma desktop_not_core: "desktop_match s = Some v \<Longrightarrow> core_match s = None"
  by (rule ccontr) (auto simp: desktop_match_iff core_match_iff)

section \<open>Runtime specifications\<close>

record runtime_spec =
  rs_version :: string
  rs_os :: string
  rs_arch :: string
  rs_libc :: string
  rs_channel :: string

definition runtime_id :: "runtime_spec \<Rightarrow> string" where
  "runtime_id r = ''powershell-'' @ rs_version r @ ''-'' @ rs_os r @ ''-'' @ rs_arch r
     @ (if rs_libc r = ''glibc'' then '''' else CHR ''-'' # rs_libc r)"

definition artifact_name :: "runtime_spec \<Rightarrow> string res" where
  "artifact_name r =
     (if rs_os r \<noteq> ''linux'' then throw ValueError (''Unsupported local runtime OS: '' @ rs_os r)
      else Inr (''powershell-'' @ rs_version r @ ''-''
        @ (if rs_libc r = ''glibc'' then ''linux'' else ''linux-'' @ rs_libc r)
        @ ''-'' @ rs_arch r @ ''.tar.gz''))"

definition release_tag :: "runtime_spec \<Rightarrow> string" where
  "release_tag r = CHR ''v'' # rs_version r"

definition download_url :: "runtime_spec \<Rightarrow> string res" where
  "download_url r = res_bind (artifact_name r) (\<lambda>a.
     Inr (''https://github.com/PowerShell/PowerShell/releases/download/'' @ release_tag r @ ''/'' @ a))"

definition hashes_url :: "runtime_spec \<Rightarrow> string" where
  "hashes_url r = ''https://github.com/PowerShell/PowerShell/releases/download/''
     @ release_tag r @ ''/hashes.sha256''"

section \<open>Channels, release lines and matrices\<close>

record channel =
  ch_name :: string
  ch_version :: string
  ch_description :: string

record release_line =
  rl_family :: string
  rl_version :: string
  rl_lifecycle :: string
  rl_legacy_host :: bool
  rl_description :: string

definition mk_channel :: "string \<Rightarrow> string \<Rightarrow> string \<Rightarrow> channel" where
  "mk_channel n v d = \<lparr>ch_name = n, ch_version = v, ch_description = d\<rparr>"

definition mk_release :: "string \<Rightarrow> string \<Rightarrow> string \<Rightarrow> bool \<Rightarrow> string \<Rightarrow> release_line" where
  "mk_release f v l h d = \<lparr>rl_family = f, rl_version = v, rl_lifecycle = l, rl_legacy_host = h,
     rl_description = d\<rparr>"

definition builtin_channels :: "(string \<times> channel) list" where
  "builtin_channels =
    [(''stable'', mk_channel ''stable'' ''7.6.5'' ''Current stable PowerShell line''),
     (''lts'', mk_channel ''lts'' ''7.6.5'' ''Current LTS PowerShell line''),
     (''previous-lts'', mk_channel ''previous-lts'' ''7.4.19'' ''Previous supported LTS line''),
     (''previous'', mk_channel ''previous'' ''7.5.10'' ''Previous stable line''),
     (''preview'', mk_channel ''preview'' ''7.7.0-preview.4'' ''Current preview line'')]"

definition core_release_lines :: "release_line list" where
  "core_release_lines =
    [mk_release ''6.0'' ''6.0.5'' ''eol'' True ''PowerShell Core 6.0 final patch'',
     mk_release ''6.1'' ''6.1.6'' ''eol'' True ''PowerShell Core 6.1 final patch'',
     mk_release ''6.2'' ''6.2.7'' ''eol'' True ''PowerShell Core 6.2 final patch'',
     mk_release ''7.0'' ''7.0.13'' ''eol'' True ''PowerShell 7.0 final patch'',
     mk_release ''7.1'' ''7.1.7'' ''eol'' True ''PowerShell 7.1 final patch'',
     mk_release ''7.2'' ''7.2.24'' ''eol'' False ''PowerShell 7.2 final patch'',
     mk_release ''7.3'' ''7.3.12'' ''eol'' False ''PowerShell 7.3 final patch'',
     mk_release ''7.4'' ''7.4.19'' ''supported'' False ''PowerShell 7.4 selected patch'',
     mk_release ''7.5'' ''7.5.10'' ''supported'' False ''PowerShell 7.5 selected patch'',
     mk_release ''7.6'' ''7.6.5'' ''supported'' False ''PowerShell 7.6 selected patch'']"

definition channel_version :: "string \<Rightarrow> string" where
  "channel_version n = (case map_of builtin_channels n of Some c \<Rightarrow> ch_version c | None \<Rightarrow> [])"

definition matrices :: "(string \<times> string list) list" where
  "matrices =
    [(''stable'', [channel_version ''stable'']),
     (''default'', [channel_version ''previous-lts'', channel_version ''stable'']),
     (''supported'', [channel_version ''previous-lts'', channel_version ''previous'',
        channel_version ''stable'']),
     (''current'', [channel_version ''previous-lts'', channel_version ''previous'',
        channel_version ''stable'', channel_version ''preview'']),
     (''core-6'', map rl_version (filter (\<lambda>r. starts_with ''6.'' (rl_family r)) core_release_lines)),
     (''core-7'', map rl_version (filter (\<lambda>r. starts_with ''7.'' (rl_family r)) core_release_lines)),
     (''core-all'', map rl_version core_release_lines)]"

definition matrix_versions :: "string \<Rightarrow> string list res" where
  "matrix_versions name =
     (case map_of matrices (py_lower name) of
        None \<Rightarrow> throw ValueError (''Unknown matrix: '' @ name)
      | Some vs \<Rightarrow> Inr (dedup_first vs))"

definition resolve_runtime :: "string \<Rightarrow> string \<Rightarrow> string \<Rightarrow> runtime_spec" where
  "resolve_runtime value arch libc =
     (case map_of builtin_channels (py_lower value) of
        Some c \<Rightarrow> \<lparr>rs_version = ch_version c, rs_os = ''linux'', rs_arch = arch, rs_libc = libc,
          rs_channel = ch_name c\<rparr>
      | None \<Rightarrow> \<lparr>rs_version = removeprefix ''v'' value, rs_os = ''linux'', rs_arch = arch,
          rs_libc = libc, rs_channel = ''exact''\<rparr>)"

definition release_metadata :: "string \<Rightarrow> json" where
  "release_metadata version =
     (case List.find (\<lambda>r. rl_version r = removeprefix ''v'' version) core_release_lines of
        None \<Rightarrow> JObj [(''family'', JStr (join ''.'' (take 2 (split_on (CHR ''.'') (removeprefix ''v'' version))))),
          (''lifecycle'', JStr ''unknown''), (''legacy_host'', JBool False),
          (''description'', JStr ''Exact user-selected runtime'')]
      | Some r \<Rightarrow> JObj [(''family'', JStr (rl_family r)), (''lifecycle'', JStr (rl_lifecycle r)),
          (''legacy_host'', JBool (rl_legacy_host r)), (''description'', JStr (rl_description r))])"

section \<open>The version order\<close>

text \<open>
  \<open>_VERSION_RE\<close>: major, minor, optional patch, optional label and optional label number. Each
  optional group can only start with a character the rest of the pattern does not accept, so the
  greedy choice is the only one.
\<close>

definition opt_dot_digits :: "string \<Rightarrow> string option \<times> string" where
  "opt_dot_digits s = (case Option.bind (eat (CHR ''.'') s) take_digits of
     Some (d, r) \<Rightarrow> (Some d, r) | None \<Rightarrow> (None, s))"

definition opt_label :: "string \<Rightarrow> (string \<times> string option) option \<times> string" where
  "opt_label s = (case eat (CHR ''-'') s of None \<Rightarrow> (None, s)
     | Some r \<Rightarrow>
       if takeWhile is_alpha r = [] then (None, s)
       else (let (n, q) = opt_dot_digits (dropWhile is_alpha r) in
         (Some (takeWhile is_alpha r, n), q)))"

definition version_match ::
    "string \<Rightarrow> (string \<times> string \<times> string option \<times> (string \<times> string option) option) option" where
  "version_match s =
     Option.bind (take_digits s) (\<lambda>(a, r).
     Option.bind (eat (CHR ''.'') r) (\<lambda>r.
     Option.bind (take_digits r) (\<lambda>(b, r).
     let (c, r) = opt_dot_digits r; (l, r) = opt_label r
     in if r = [] then Some (a, b, c, l) else None)))"

definition opt_num :: "string option \<Rightarrow> nat" where
  "opt_num d = (case d of None \<Rightarrow> 0 | Some t \<Rightarrow> dec_val t)"

definition version_key :: "string \<Rightarrow> nat \<times> nat \<times> nat \<times> nat \<times> string \<times> nat" where
  "version_key value =
     (let normalized = removeprefix ''v'' value in
      case version_match normalized of
        None \<Rightarrow> (0, 0, 0, 0, normalized, 0)
      | Some (a, b, c, l) \<Rightarrow>
        (let label = (case l of None \<Rightarrow> [] | Some (t, _) \<Rightarrow> py_lower t);
             num = (case l of None \<Rightarrow> None | Some (_, n) \<Rightarrow> n)
         in (dec_val a, dec_val b, opt_num c, if label = [] then 1 else 0, label, opt_num num)))"

definition dotted :: "nat \<Rightarrow> nat \<Rightarrow> nat \<Rightarrow> string" where
  "dotted a b c = nat_str a @ ''.'' @ nat_str b @ ''.'' @ nat_str c"

lemma take_digits_nat_str:
  "r = [] \<or> \<not> is_digit (hd r) \<Longrightarrow> take_digits (nat_str n @ r) = Some (nat_str n, r)"
  by (intro take_digits_append) (simp_all add: nat_str_digits)

lemma version_match_dotted:
  assumes "opt_label r = (l, [])" "r = [] \<or> hd r = CHR ''-''"
  shows "version_match (dotted a b c @ r) = Some (nat_str a, nat_str b, Some (nat_str c), l)"
proof -
  have "take_digits (nat_str c @ r) = Some (nat_str c, r)"
    using assms(2) by (intro take_digits_nat_str) auto
  then have "opt_dot_digits (CHR ''.'' # nat_str c @ r) = (Some (nat_str c), r)"
    by (simp add: opt_dot_digits_def)
  with assms(1) show ?thesis by (simp add: version_match_def dotted_def take_digits_nat_str)
qed

lemma removeprefix_v_digit: "is_digit (hd s) \<Longrightarrow> removeprefix ''v'' s = s"
  by (cases s) (auto simp: removeprefix_def starts_with_def is_digit_def)

lemma hd_dotted: "is_digit (hd (dotted a b c @ r))"
  using hd_nat_str [of a] by (simp add: dotted_def)

lemma version_key_dotted_gen:
  assumes "opt_label r = (l, [])" "r = [] \<or> hd r = CHR ''-''"
  shows "version_key (dotted a b c @ r) =
    (a, b, c, (if l = None \<or> (\<exists>n. l = Some ([], n)) then 1 else 0),
     (case l of None \<Rightarrow> [] | Some (t, _) \<Rightarrow> py_lower t),
     opt_num (case l of None \<Rightarrow> None | Some (_, n) \<Rightarrow> n))"
  unfolding version_key_def Let_def removeprefix_v_digit [OF hd_dotted] version_match_dotted [OF assms]
  by (cases l) (auto simp: opt_num_def py_lower_def)

lemma version_key_dotted: "version_key (dotted a b c) = (a, b, c, 1, [], 0)"
  using version_key_dotted_gen [of "[]" None a b c]
  by (simp add: opt_label_def eat_def opt_num_def)

lemma opt_label_preview:
  assumes "t \<noteq> []" "list_all is_alpha t"
  shows "opt_label (CHR ''-'' # t @ CHR ''.'' # nat_str n) = (Some (t, Some (nat_str n)), [])"
proof -
  have na: "\<not> is_alpha (CHR ''.'')" by code_simp
  have "takeWhile is_alpha (t @ CHR ''.'' # nat_str n) = t"
    "dropWhile is_alpha (t @ CHR ''.'' # nat_str n) = CHR ''.'' # nat_str n"
    using assms(2) na by (auto simp: list_all_iff takeWhile_append dropWhile_append)
  moreover have "take_digits (nat_str n) = Some (nat_str n, [])"
    using take_digits_nat_str [of "[]" n] by simp
  ultimately show ?thesis using assms(1) by (simp add: opt_label_def opt_dot_digits_def)
qed

lemma version_key_preview:
  assumes "t \<noteq> []" "list_all is_alpha t"
  shows "version_key (dotted a b c @ ''-'' @ t @ ''.'' @ nat_str n) = (a, b, c, 0, py_lower t, n)"
  using version_key_dotted_gen [OF opt_label_preview [OF assms, of n], of a b c] assms(1)
  by (simp add: opt_num_def)

lemma catalog_matrices:
  "list_all (\<lambda>(n, vs). sorted_wrt (<) (map version_key vs) \<and> list_all (\<lambda>v. core_version v) vs) matrices"
  by code_simp

end
