(* ===== verification/Psm_Clock.thy ===== *)
theory Psm_Clock
  imports Psm_Json
begin

text \<open>
  UTC instants and the ISO-8601 text the program stores for them. An instant is a number of
  microseconds since 0001-01-01T00:00:00+00:00, the range of \<open>datetime\<close>; \<open>iso\<close> is
  \<open>datetime.isoformat()\<close> of an aware UTC datetime and \<open>from_iso\<close> reads back the extended format
  that it writes. The theory shows that comparing the texts is comparing the instants, which the
  SQL of the queue relies on, and that parsing inverts formatting.
\<close>

type_synonym instant = int

abbreviation usec_per_sec :: int where "usec_per_sec \<equiv> 1000000"

definition valid_instant :: "instant \<Rightarrow> bool" where
  "valid_instant t \<longleftrightarrow> 0 \<le> t \<and> t < 3652059 * 86400 * usec_per_sec"

section \<open>The proleptic Gregorian calendar\<close>

text \<open>Days before year \<open>z + 1\<close>.\<close>

definition days_before :: "int \<Rightarrow> int" where
  "days_before z = 365 * z + z div 4 - z div 100 + z div 400"

definition leap_year :: "int \<Rightarrow> bool" where
  "leap_year y \<longleftrightarrow> y mod 4 = 0 \<and> (y mod 100 \<noteq> 0 \<or> y mod 400 = 0)"

definition month_lengths :: "int \<Rightarrow> int list" where
  "month_lengths y = [31, if leap_year y then 29 else 28, 31, 30, 31, 30, 31, 31, 30, 31, 30, 31]"

definition year_of_day :: "int \<Rightarrow> int" where
  "year_of_day n = (let z = 400 * n div 146097 in if days_before (z + 1) \<le> n then z + 2 else z + 1)"

fun month_day :: "int list \<Rightarrow> int \<Rightarrow> int \<times> int" where
  "month_day [] d = (1, d + 1)"
| "month_day (l # ls) d =
     (if d < l then (1, d + 1) else (let (m, r) = month_day ls (d - l) in (m + 1, r)))"

definition ymd_of_day :: "int \<Rightarrow> int \<times> int \<times> int" where
  "ymd_of_day n =
     (let y = year_of_day n; (m, d) = month_day (month_lengths y) (n - days_before (y - 1))
      in (y, m, d))"

definition day_of_ymd :: "int \<Rightarrow> int \<Rightarrow> int \<Rightarrow> int" where
  "day_of_ymd y m d = days_before (y - 1) + sum_list (take (nat (m - 1)) (month_lengths y)) + d - 1"

lemma div_split:
  fixes x k :: int
  assumes "0 < k"
  shows "x = k * (x div k) + x mod k" "0 \<le> x mod k" "x mod k < k"
  using assms by simp_all

lemma div_bounds:
  fixes x k :: int
  assumes "0 < k"
  shows "k * (x div k) \<le> x" "x < k * (x div k) + k"
  using div_split [OF assms, of x] by linarith+

lemma div_pred:
  fixes y k :: int
  assumes "0 < k"
  shows "(y - 1) div k = y div k - (if y mod k = 0 then 1 else 0)"
proof -
  have r: "0 \<le> y mod k" "y mod k < k" using assms by simp_all
  have y: "y = (y div k) * k + y mod k" by simp
  show ?thesis
  proof (cases "y mod k = 0")
    case True
    with y have "y - 1 = (k - 1) + (y div k - 1) * k" by (simp add: algebra_simps)
    then have "(y - 1) div k = (k - 1) div k + (y div k - 1)"
      using assms by (metis add.commute div_mult_self1 less_irrefl)
    with assms True show ?thesis by (simp add: div_pos_pos_trivial)
  next
    case False
    with r have m: "0 \<le> y mod k - 1" "y mod k - 1 < k" by auto
    from y have "y - 1 = (y mod k - 1) + (y div k) * k" by (simp add: algebra_simps)
    then have "(y - 1) div k = (y mod k - 1) div k + y div k"
      using assms by (metis add.commute div_mult_self1 less_irrefl)
    with m False show ?thesis by (simp add: div_pos_pos_trivial)
  qed
qed

lemma days_before_arith:
  fixes a b c z :: int
  assumes "4 * a \<le> z" "z < 4 * a + 4" "100 * b \<le> z" "z < 100 * b + 100"
    "400 * c \<le> z" "z < 400 * c + 400"
  shows "400 * (365 * z + a - b + c) \<le> 146097 * z + 396 \<and>
    146097 * z - 699 \<le> 400 * (365 * z + a - b + c)"
  using assms unfolding distrib_left right_diff_distrib by (intro conjI; linarith)

lemma days_before_bounds:
  "400 * days_before z \<le> 146097 * z + 396 \<and> 146097 * z - 699 \<le> 400 * days_before z"
  unfolding days_before_def by (rule days_before_arith; (rule div_bounds)?; simp only: zero_less_numeral)

lemma days_before_diff:
  fixes y a b c p q r :: int
  shows "365 * y + a - b + c - (365 * (y - 1) + (a - p) - (b - q) + (c - r)) = 365 + p - q + r"
  by simp

lemma leap_cases:
  "(B \<Longrightarrow> A) \<Longrightarrow> (C \<Longrightarrow> B) \<Longrightarrow>
   365 + (if A then 1 else 0) - (if B then 1 else 0) + (if C then 1 else 0) =
     (if A \<and> (\<not> B \<or> C) then 366 else (365::int))"
  by (cases A; cases B; cases C) simp_all

lemma days_before_leap: "days_before y - days_before (y - 1) = (if leap_year y then 366 else 365)"
proof -
  have "(4::int) dvd 100" "(100::int) dvd 400" by simp_all
  then have m: "y mod 100 = 0 \<Longrightarrow> y mod 4 = 0" "y mod 400 = 0 \<Longrightarrow> y mod 100 = 0"
    by (meson dvd_trans mod_0_imp_dvd dvd_imp_mod_0)+
  have pos: "(0::int) < 4" "(0::int) < 100" "(0::int) < 400" by simp_all
  have "days_before y - days_before (y - 1) =
    365 + (if y mod 4 = 0 then 1 else 0) - (if y mod 100 = 0 then 1 else 0)
    + (if y mod 400 = 0 then 1 else 0)"
    unfolding days_before_def div_pred [OF pos(1)] div_pred [OF pos(2)] div_pred [OF pos(3)]
    by (rule days_before_diff)
  also have "\<dots> = (if leap_year y then 366 else 365)"
    unfolding leap_year_def by (rule leap_cases [OF m])
  finally show ?thesis .
qed

lemma int_div_less:
  fixes n k b :: int
  assumes "0 < k" "n < k * b"
  shows "n div k < b"
proof -
  have "k * (n div k) < k * b" using div_bounds(1) [OF assms(1), of n] assms(2) by (rule order_le_less_trans)
  with assms(1) show ?thesis by simp
qed

lemma mixed_lex:
  fixes k a b a' b' :: int
  assumes "k * a + b < k * a' + b'" "0 \<le> b" "b' < k" "0 < k"
  shows "a < a' \<or> a = a' \<and> b < b'"
proof (cases a a' rule: linorder_cases)
  case greater
  then have "k * (a' + 1) \<le> k * a" using assms(4) by (intro mult_left_mono) auto
  with assms show ?thesis by (simp add: distrib_left)
qed (use assms in auto)

lemma mixed_eq:
  fixes k a b a' b' :: int
  assumes "k * a + b = k * a' + b'" "0 \<le> b" "b < k" "0 \<le> b'" "b' < k"
  shows "a = a' \<and> b = b'"
proof -
  have "(k * a + b) div k = a" "(k * a' + b') div k = a'"
    using assms(2-) by (simp_all add: div_pos_pos_trivial)
  with assms(1) show ?thesis by auto
qed

lemma hms_lex:
  fixes h m x h' m' x' :: int
  assumes "3600 * h + 60 * m + x < 3600 * h' + 60 * m' + x'"
    and "0 \<le> m" "m < 60" "0 \<le> x" "x < 60" "0 \<le> m'" "m' < 60" "0 \<le> x'" "x' < 60"
  shows "h < h' \<or> h = h' \<and> (m < m' \<or> m = m' \<and> x < x')"
proof -
  have "60 * (60 * h + m) + x < 60 * (60 * h' + m') + x'" using assms(1) by simp
  then have "60 * h + m < 60 * h' + m' \<or> 60 * h + m = 60 * h' + m' \<and> x < x'"
    using assms by (intro mixed_lex [of 60]) simp_all
  then show ?thesis
  proof
    assume "60 * h + m < 60 * h' + m'"
    then have "h < h' \<or> h = h' \<and> m < m'" using assms by (intro mixed_lex [of 60]) simp_all
    then show ?thesis by blast
  next
    assume e: "60 * h + m = 60 * h' + m' \<and> x < x'"
    then have "h = h' \<and> m = m'" using assms(2,3,6,7) by (intro mixed_eq [of 60]) simp_all
    with e show ?thesis by simp
  qed
qed

lemma days_before_step: "days_before z + 365 \<le> days_before (z + 1)"
  using days_before_leap [of "z + 1"] by (simp split: if_splits)

lemma sum_month_lengths: "sum_list (month_lengths y) = days_before y - days_before (y - 1)"
  by (simp add: days_before_leap month_lengths_def)

lemma year_of_day_bounds:
  "days_before (year_of_day n - 1) \<le> n" "n < days_before (year_of_day n)"
proof -
  define z where "z = 400 * n div 146097"
  have z: "146097 * z \<le> 400 * n" "400 * n < 146097 * (z + 1)"
    unfolding z_def using div_bounds [of 146097 "400 * n"] by simp_all
  have lo: "days_before z \<le> n"
    using z(1) days_before_bounds [of z] by linarith
  have hi: "n - 1 \<le> days_before (z + 1)"
    using z(2) days_before_bounds [of "z + 1"] by linarith
  have up: "days_before (z + 1) + 365 \<le> days_before (z + 2)"
    using days_before_step [of "z + 1"] by (simp add: add.commute)
  show "days_before (year_of_day n - 1) \<le> n" "n < days_before (year_of_day n)"
    unfolding year_of_day_def Let_def z_def [symmetric] using lo hi up by (auto simp: add.commute)
qed

lemma days_before_mono: "x \<le> y \<Longrightarrow> days_before x \<le> days_before y"
proof (induction y rule: int_ge_induct)
  case (step i)
  with days_before_step [of i] show ?case by linarith
qed simp

lemma year_of_day_mono:
  assumes "n \<le> n'"
  shows "year_of_day n \<le> year_of_day n'"
proof (rule ccontr)
  assume "\<not> ?thesis"
  then have "days_before (year_of_day n') \<le> days_before (year_of_day n - 1)"
    by (intro days_before_mono) simp
  with year_of_day_bounds(1) [of n] year_of_day_bounds(2) [of n'] assms show False by linarith
qed

lemma year_of_day_unique:
  assumes "days_before (y - 1) \<le> n" and "n < days_before y"
  shows "year_of_day n = y"
proof (rule antisym; rule ccontr)
  assume "\<not> year_of_day n \<le> y"
  then have "days_before y \<le> days_before (year_of_day n - 1)" by (intro days_before_mono) simp
  with assms year_of_day_bounds(1) [of n] show False by linarith
next
  assume "\<not> y \<le> year_of_day n"
  then have "days_before (year_of_day n) \<le> days_before (y - 1)" by (intro days_before_mono) simp
  with assms year_of_day_bounds(2) [of n] show False by linarith
qed

lemma year_range:
  assumes "0 \<le> n" and "n < 3652059"
  shows "1 \<le> year_of_day n" "year_of_day n \<le> 9999"
proof -
  have "year_of_day 0 = 1" "year_of_day 3652058 = 9999" by (simp_all add: year_of_day_def days_before_def)
  with year_of_day_mono [of 0 n] year_of_day_mono [of n 3652058] assms
  show "1 \<le> year_of_day n" "year_of_day n \<le> 9999" by auto
qed

lemma month_day_range:
  assumes "0 \<le> d" and "d < sum_list ls" and "\<forall>l \<in> set ls. 0 < l \<and> l \<le> 31"
  shows "1 \<le> fst (month_day ls d) \<and> fst (month_day ls d) \<le> int (length ls) \<and>
    1 \<le> snd (month_day ls d) \<and> snd (month_day ls d) \<le> 31 \<and>
    snd (month_day ls d) \<le> ls ! nat (fst (month_day ls d) - 1) \<and>
    sum_list (take (nat (fst (month_day ls d) - 1)) ls) + snd (month_day ls d) - 1 = d"
  using assms
proof (induction ls d rule: month_day.induct)
  case (1 d)
  then show ?case by simp
next
  case (2 l ls d)
  show ?case
  proof (cases "d < l")
    case True
    with "2.prems" show ?thesis by auto
  next
    case False
    obtain m r where mr: "month_day ls (d - l) = (m, r)" by fastforce
    with "2.IH" [OF False] "2.prems" False
    have ih: "1 \<le> m" "m \<le> int (length ls)" "1 \<le> r" "r \<le> 31" "r \<le> ls ! nat (m - 1)"
      "sum_list (take (nat (m - 1)) ls) + r - 1 = d - l" by auto
    have "nat m = Suc (nat (m - 1))" using ih(1) by simp
    with False mr ih show ?thesis by simp
  qed
qed

lemma month_day_mono:
  assumes "d < d'"
  shows "fst (month_day ls d) < fst (month_day ls d') \<or>
    fst (month_day ls d) = fst (month_day ls d') \<and> snd (month_day ls d) < snd (month_day ls d')"
  using assms
proof (induction ls d arbitrary: d' rule: month_day.induct)
  case (1 d)
  then show ?case by simp
next
  case (2 l ls d)
  have pos: "1 \<le> fst (month_day ls x)" for ls x
    by (induction ls x rule: month_day.induct) (auto split: prod.splits)
  show ?case
  proof (cases "d < l")
    case True
    with "2.prems" pos [of ls "d' - l"] show ?thesis by (auto split: prod.splits)
  next
    case False
    with "2.prems" "2.IH" [OF False, of "d' - l"] show ?thesis by (auto split: prod.splits)
  qed
qed

lemma month_lengths_range: "\<forall>l \<in> set (month_lengths y). 0 < l \<and> l \<le> 31"
  by (simp add: month_lengths_def)

lemma length_month_lengths [simp]: "length (month_lengths y) = 12"
  by (simp add: month_lengths_def)

lemma ymd_of_day_range:
  assumes "ymd_of_day n = (y, m, d)"
  shows "1 \<le> m" "m \<le> 12" "1 \<le> d" "d \<le> 31" "d \<le> month_lengths y ! nat (m - 1)"
    "y = year_of_day n" "day_of_ymd y m d = n"
proof -
  let ?ls = "month_lengths (year_of_day n)"
  let ?r = "n - days_before (year_of_day n - 1)"
  have y: "y = year_of_day n" and md: "month_day ?ls ?r = (m, d)"
    using assms by (auto simp: ymd_of_day_def Let_def split: prod.splits)
  have "0 \<le> ?r" "?r < sum_list ?ls"
    using year_of_day_bounds [of n] by (auto simp: sum_month_lengths)
  from month_day_range [OF this month_lengths_range] md y
  show "1 \<le> m" "m \<le> 12" "1 \<le> d" "d \<le> 31" "d \<le> month_lengths y ! nat (m - 1)"
    "y = year_of_day n" "day_of_ymd y m d = n"
    by (auto simp: day_of_ymd_def)
qed

section \<open>Fixed-width decimals and text order\<close>

fun pad :: "nat \<Rightarrow> int \<Rightarrow> string" where
  "pad 0 n = []"
| "pad (Suc w) n = pad w (n div 10) @ [digit_char (nat (n mod 10))]"

lemma length_pad [simp]: "length (pad w n) = w"
  by (induction w arbitrary: n) auto

lemma pad_digits: "list_all is_digit (pad w n)"
  by (induction w arbitrary: n) (auto simp: nat_less_iff)

lemma append_less_iff:
  fixes xs ys us vs :: "'a::order list"
  assumes "length xs = length ys"
  shows "xs @ us < ys @ vs \<longleftrightarrow> xs < ys \<or> xs = ys \<and> us < vs"
  using assms by (induction xs ys rule: list_induct2) auto

lemma pad_less:
  assumes "0 \<le> m" "m < n" "n < 10 ^ w"
  shows "pad w m < pad w n"
  using assms
proof (induction w arbitrary: m n)
  case 0
  then show ?case by simp
next
  case (Suc w)
  have nm: "nat (m mod 10) < 10" "nat (n mod 10) < 10" by (simp_all add: nat_less_iff)
  show ?case
  proof (cases "m div 10 = n div 10")
    case True
    have "m = 10 * (n div 10) + m mod 10" "n = 10 * (n div 10) + n mod 10"
      using div_split(1) [of 10 m] div_split(1) [of 10 n] True by simp_all
    then have "m mod 10 < n mod 10" using Suc.prems(2) by (metis add_less_cancel_left)
    then have "nat (m mod 10) < nat (n mod 10)" by (simp add: nat_less_eq_zless)
    with True nm show ?thesis by (simp add: append_less_iff)
  next
    case False
    have "m div 10 \<le> n div 10" using Suc.prems by (intro zdiv_mono1) auto
    moreover have "n div 10 < 10 ^ w" using Suc.prems by (intro int_div_less) auto
    moreover have "0 \<le> m div 10" using Suc.prems(1) by (rule pos_imp_zdiv_nonneg_iff [THEN iffD2, rotated]) simp
    ultimately show ?thesis using False using Suc.IH [of "m div 10" "n div 10"] by (simp add: append_less_iff)
  qed
qed

lemma dec_val_pad:
  assumes "0 \<le> n" "n < 10 ^ w"
  shows "int (dec_val (pad w n)) = n"
  using assms
proof (induction w arbitrary: n)
  case 0
  then show ?case by (simp add: dec_val_def)
next
  case (Suc w)
  then have "int (dec_val (pad w (n div 10))) = n div 10" by simp
  moreover have "nat (n mod 10) < 10" by (simp add: nat_less_iff)
  ultimately show ?case by (simp add: dec_val_append)
qed

section \<open>isoformat\<close>

text \<open>The parts of an instant: day number, time of day and microseconds.\<close>

definition hour_of :: "int \<Rightarrow> int" where "hour_of s = s div 3600"
definition minute_of :: "int \<Rightarrow> int" where "minute_of s = s mod 3600 div 60"
definition second_of :: "int \<Rightarrow> int" where "second_of s = s mod 60"
definition day_no :: "instant \<Rightarrow> int" where "day_no t = t div usec_per_sec div 86400"
definition sec_of_day :: "instant \<Rightarrow> int" where "sec_of_day t = t div usec_per_sec mod 86400"
definition usec_of :: "instant \<Rightarrow> int" where "usec_of t = t mod usec_per_sec"

definition date_text :: "int \<Rightarrow> string" where
  "date_text n = (let (y, m, d) = ymd_of_day n in pad 4 y @ ''-'' @ pad 2 m @ ''-'' @ pad 2 d)"

definition time_text :: "int \<Rightarrow> string" where
  "time_text s = pad 2 (hour_of s) @ '':'' @ pad 2 (minute_of s) @ '':'' @ pad 2 (second_of s)"

definition frac_text :: "int \<Rightarrow> string" where
  "frac_text u = (if u = 0 then '''' else ''.'' @ pad 6 u)"

definition iso :: "instant \<Rightarrow> string" where
  "iso t = date_text (day_no t) @ ''T'' @ time_text (sec_of_day t) @ frac_text (usec_of t)
     @ ''+00:00''"

lemma hms:
  shows "s = 3600 * hour_of s + 60 * minute_of s + second_of s"
    and "0 \<le> minute_of s" "minute_of s < 60" "0 \<le> second_of s" "second_of s < 60"
proof -
  have "s mod 3600 mod 60 = s mod 60" by (simp add: mod_mod_cancel)
  then have "s mod 3600 = 60 * minute_of s + second_of s"
    unfolding minute_of_def second_of_def by (metis div_split(1) zero_less_numeral)
  then show "s = 3600 * hour_of s + 60 * minute_of s + second_of s"
    unfolding hour_of_def by (metis add.assoc div_split(1) zero_less_numeral)
  show "0 \<le> minute_of s" by (simp add: minute_of_def pos_imp_zdiv_nonneg_iff)
  show "minute_of s < 60" unfolding minute_of_def by (rule int_div_less) simp_all
qed (simp_all add: second_of_def)

lemma hour_of_range: "0 \<le> s \<Longrightarrow> 0 \<le> hour_of s" "s < 86400 \<Longrightarrow> hour_of s < 24"
  unfolding hour_of_def by (simp add: pos_imp_zdiv_nonneg_iff) (rule int_div_less; simp)

lemma instant_parts:
  shows "t = usec_per_sec * (86400 * day_no t + sec_of_day t) + usec_of t"
    and "0 \<le> sec_of_day t" "sec_of_day t < 86400" "0 \<le> usec_of t" "usec_of t < usec_per_sec"
proof -
  have "t div usec_per_sec = 86400 * day_no t + sec_of_day t"
    unfolding day_no_def sec_of_day_def by (metis div_split(1) zero_less_numeral)
  then show "t = usec_per_sec * (86400 * day_no t + sec_of_day t) + usec_of t"
    unfolding usec_of_def by (metis div_split(1) zero_less_numeral)
qed (simp_all add: sec_of_day_def usec_of_def)

lemma day_no_range:
  assumes "valid_instant t"
  shows "0 \<le> day_no t" "day_no t < 3652059"
proof -
  have "0 \<le> t" using assms by (simp add: valid_instant_def)
  then have "0 \<le> t div usec_per_sec" by (simp add: pos_imp_zdiv_nonneg_iff)
  then show "0 \<le> day_no t" by (simp add: day_no_def pos_imp_zdiv_nonneg_iff)
  have "t div usec_per_sec < 3652059 * 86400"
    using assms by (intro int_div_less) (auto simp: valid_instant_def)
  then show "day_no t < 3652059"
    unfolding day_no_def by (intro int_div_less) simp_all
qed

lemma instant_lex:
  assumes "t < t'"
  shows "day_no t < day_no t' \<or> day_no t = day_no t' \<and>
    (sec_of_day t < sec_of_day t' \<or> sec_of_day t = sec_of_day t' \<and> usec_of t < usec_of t')"
proof -
  note p = instant_parts [of t] and p' = instant_parts [of t']
  have "86400 * day_no t + sec_of_day t < 86400 * day_no t' + sec_of_day t' \<or>
    86400 * day_no t + sec_of_day t = 86400 * day_no t' + sec_of_day t' \<and> usec_of t < usec_of t'"
    using p p' assms by (intro mixed_lex [of usec_per_sec]) simp_all
  then show ?thesis
  proof
    assume "86400 * day_no t + sec_of_day t < 86400 * day_no t' + sec_of_day t'"
    then have "day_no t < day_no t' \<or> day_no t = day_no t' \<and> sec_of_day t < sec_of_day t'"
      using p(2,3) p'(2,3) by (intro mixed_lex [of 86400]) simp_all
    then show ?thesis by blast
  next
    assume e: "86400 * day_no t + sec_of_day t = 86400 * day_no t' + sec_of_day t' \<and>
      usec_of t < usec_of t'"
    then have "day_no t = day_no t' \<and> sec_of_day t = sec_of_day t'"
      using p(2,3) p'(2,3) by (intro mixed_eq [of 86400]) simp_all
    with e show ?thesis by simp
  qed
qed

lemma length_date_text [simp]: "length (date_text n) = 10"
  by (simp add: date_text_def split: prod.splits)

lemma length_time_text [simp]: "length (time_text n) = 8"
  by (simp add: time_text_def)

lemma date_text_less:
  assumes "0 \<le> n" "n < n'" "n' < 3652059"
  shows "date_text n < date_text n'"
proof -
  obtain y m d where e: "ymd_of_day n = (y, m, d)" by (metis prod_cases3)
  obtain y' m' d' where e': "ymd_of_day n' = (y', m', d')" by (metis prod_cases3)
  note r = ymd_of_day_range [OF e] and r' = ymd_of_day_range [OF e']
  have yr: "1 \<le> y" "y' \<le> 9999" "y \<le> y'"
    using year_range [of n] year_range [of n'] year_of_day_mono [of n n'] assms r(6) r'(6) by auto
  have lex: "y < y' \<or> y = y' \<and> (m < m' \<or> m = m' \<and> d < d')"
  proof (cases "y = y'")
    case True
    let ?ls = "month_lengths y"
    have "month_day ?ls (n - days_before (y - 1)) = (m, d)"
      "month_day ?ls (n' - days_before (y - 1)) = (m', d')"
      using e e' True r(6) r'(6) by (auto simp: ymd_of_day_def Let_def split: prod.splits)
    with month_day_mono [of "n - days_before (y - 1)" "n' - days_before (y - 1)" ?ls] assms True
    show ?thesis by auto
  qed (use yr in auto)
  have "y < y' \<Longrightarrow> pad 4 y < pad 4 y'" "m < m' \<Longrightarrow> pad 2 m < pad 2 m'" "d < d' \<Longrightarrow> pad 2 d < pad 2 d'"
    using pad_less [of y y' 4] pad_less [of m m' 2] pad_less [of d d' 2] yr r r' by auto
  with lex show ?thesis by (auto simp: date_text_def e e' append_less_iff)
qed

lemma time_text_less:
  assumes "0 \<le> s" "s < s'" "s' < 86400"
  shows "time_text s < time_text s'"
proof -
  note p = hms [of s] and p' = hms [of s']
  have lex: "hour_of s < hour_of s' \<or> hour_of s = hour_of s' \<and>
    (minute_of s < minute_of s' \<or> minute_of s = minute_of s' \<and> second_of s < second_of s')"
    using p(1) p'(1) assms(2) by (intro hms_lex p(2-) p'(2-)) simp
  have "0 \<le> hour_of s" "hour_of s' < 24" using hour_of_range assms by auto
  then have "hour_of s < hour_of s' \<Longrightarrow> pad 2 (hour_of s) < pad 2 (hour_of s')"
    "minute_of s < minute_of s' \<Longrightarrow> pad 2 (minute_of s) < pad 2 (minute_of s')"
    "second_of s < second_of s' \<Longrightarrow> pad 2 (second_of s) < pad 2 (second_of s')"
    using p(2-) p'(2-) by (simp_all add: pad_less)
  with lex show ?thesis by (auto simp: time_text_def append_less_iff)
qed

lemma frac_text_less:
  assumes "0 \<le> u" "u < u'" "u' < usec_per_sec"
  shows "frac_text u @ ''+00:00'' < frac_text u' @ ''+00:00''"
proof (cases "u = 0")
  case True
  with assms show ?thesis by (simp add: frac_text_def less_char_def)
next
  case False
  with assms pad_less [of u u' 6] show ?thesis by (simp add: frac_text_def append_less_iff)
qed

lemma iso_strict_mono:
  assumes "valid_instant t" "valid_instant t'" "t < t'"
  shows "iso t < iso t'"
proof -
  note p = instant_parts [of t] and p' = instant_parts [of t']
  have "day_no t < day_no t' \<Longrightarrow> date_text (day_no t) < date_text (day_no t')"
    using day_no_range [OF assms(1)] day_no_range [OF assms(2)] by (intro date_text_less)
  moreover have "sec_of_day t < sec_of_day t' \<Longrightarrow> time_text (sec_of_day t) < time_text (sec_of_day t')"
    using p(2,3) p'(2,3) by (intro time_text_less)
  moreover have "usec_of t < usec_of t' \<Longrightarrow>
    frac_text (usec_of t) @ ''+00:00'' < frac_text (usec_of t') @ ''+00:00''"
    using p(4,5) p'(4,5) by (intro frac_text_less)
  ultimately show ?thesis
    using instant_lex [OF assms(3)] by (auto simp: iso_def append_less_iff)
qed

lemma iso_less_iff [simp]:
  assumes "valid_instant t" "valid_instant t'"
  shows "iso t < iso t' \<longleftrightarrow> t < t'"
proof (cases t t' rule: linorder_cases)
  case less
  with assms show ?thesis by (simp add: iso_strict_mono)
next
  case greater
  with iso_strict_mono [OF assms(2,1)] show ?thesis by auto
qed auto

lemma iso_inject:
  assumes "valid_instant t" "valid_instant t'"
  shows "iso t = iso t' \<longleftrightarrow> t = t'"
  using iso_strict_mono assms by (metis linorder_neqE order_less_irrefl)

section \<open>fromisoformat\<close>

text \<open>
  Parsing of the extended format that \<open>isoformat\<close> writes, with an optional UTC offset. The
  result is the local time and the offset in seconds, \<open>None\<close> for a naive datetime; text that is
  not of this form is the \<open>ValueError\<close> of \<open>datetime.fromisoformat\<close>.
\<close>

definition take_num :: "nat \<Rightarrow> string \<Rightarrow> (int \<times> string) option" where
  "take_num w s =
     (if w \<le> length s \<and> list_all is_digit (take w s)
      then Some (int (dec_val (take w s)), drop w s) else None)"

definition take_sep_num :: "char \<Rightarrow> nat \<Rightarrow> string \<Rightarrow> (int \<times> string) option" where
  "take_sep_num c w s = Option.bind (eat c s) (take_num w)"

definition parse_offset :: "string \<Rightarrow> int option option" where
  "parse_offset s =
     (if s = [] then Some None
      else if hd s = CHR ''+'' \<or> hd s = CHR ''-'' then
        Option.bind (take_num 2 (tl s)) (\<lambda>(h, s1).
        Option.bind (take_sep_num (CHR '':'') 2 s1) (\<lambda>(m, s2).
          if s2 = [] \<and> h < 24 \<and> m < 60
          then Some (Some ((if hd s = CHR ''-'' then -1 else 1) * (3600 * h + 60 * m)))
          else None))
      else None)"

definition from_iso :: "string \<Rightarrow> (instant \<times> int option) option" where
  "from_iso s =
     Option.bind (take_num 4 s) (\<lambda>(y, s).
     Option.bind (take_sep_num (CHR ''-'') 2 s) (\<lambda>(mo, s).
     Option.bind (take_sep_num (CHR ''-'') 2 s) (\<lambda>(d, s).
     Option.bind (take_sep_num (CHR ''T'') 2 s) (\<lambda>(h, s).
     Option.bind (take_sep_num (CHR '':'') 2 s) (\<lambda>(mi, s).
     Option.bind (take_sep_num (CHR '':'') 2 s) (\<lambda>(sec, s).
     Option.bind (if s \<noteq> [] \<and> hd s = CHR ''.'' then take_num 6 (tl s) else Some (0, s)) (\<lambda>(u, s).
     Option.bind (parse_offset s) (\<lambda>off.
       if 1 \<le> y \<and> 1 \<le> mo \<and> mo \<le> 12 \<and> 1 \<le> d \<and> d \<le> month_lengths y ! nat (mo - 1)
          \<and> h < 24 \<and> mi < 60 \<and> sec < 60
       then Some (usec_per_sec * (86400 * day_of_ymd y mo d + (3600 * h + 60 * mi + sec)) + u, off)
       else None))))))))"

text \<open>\<open>parsed.astimezone(UTC)\<close> of an aware datetime\<close>

definition to_utc :: "instant \<Rightarrow> int \<Rightarrow> instant" where
  "to_utc local off = local - usec_per_sec * off"

lemma take_num_pad [simp]:
  "0 \<le> n \<Longrightarrow> n < 10 ^ w \<Longrightarrow> take_num w (pad w n @ r) = Some (n, r)"
  using pad_digits [of w n] by (simp add: take_num_def dec_val_pad)

lemma take_sep_num_pad [simp]:
  "0 \<le> n \<Longrightarrow> n < 10 ^ w \<Longrightarrow> take_sep_num c w (c # pad w n @ r) = Some (n, r)"
  by (simp add: take_sep_num_def eat_def)

lemma parse_offset_utc [simp]: "parse_offset ''+00:00'' = Some (Some 0)"
  by (simp add: parse_offset_def take_num_def take_sep_num_def eat_def is_digit_def dec_val_def
      digit_val_def)

lemma from_iso_iso:
  assumes "valid_instant t"
  shows "from_iso (iso t) = Some (t, Some 0)"
proof -
  obtain y m d where e: "ymd_of_day (day_no t) = (y, m, d)" by (metis prod_cases3)
  note r = ymd_of_day_range [OF e]
  note p = instant_parts [of t]
  let ?s = "sec_of_day t"
  note q = hms [of ?s]
  have y: "1 \<le> y" "y \<le> 9999"
    using year_range [OF day_no_range [OF assms]] r(6) by auto
  have h: "0 \<le> hour_of ?s" "hour_of ?s < 24" using hour_of_range p(2,3) by auto
  have tail: "\<exists>rest. frac_text (usec_of t) @ ''+00:00'' = rest \<and>
    (if rest \<noteq> [] \<and> hd rest = CHR ''.'' then take_num 6 (tl rest) else Some (0, rest))
      = Some (usec_of t, ''+00:00'')"
    using p(4,5) by (auto simp: frac_text_def)
  have "from_iso (iso t) =
    Some (usec_per_sec * (86400 * day_of_ymd y m d
      + (3600 * hour_of ?s + 60 * minute_of ?s + second_of ?s)) + usec_of t, Some 0)"
    using tail y r h q
    by (auto simp: iso_def date_text_def e time_text_def from_iso_def Let_def simp del: parse_offset_def)
  also have "\<dots> = Some (t, Some 0)"
    using p(1) q(1) r(7) by (simp only: add.assoc)
  finally show ?thesis .
qed

end
