(* ===== verification/Psm_Cache.thy ===== *)
theory Psm_Cache
  imports Psm_ModelsRead Psm_Canon Psm_RuntimeIds Psm_Clock
begin

text \<open>
  What the scheduler remembers between runs: the keys of a target's result (\<open>cache_and_shard_keys\<close>,
  \<open>cache_key\<close>, \<open>shard_key\<close> of \<open>cache.py\<close>), the result cache (\<open>ResultCache.load\<close> and \<open>store\<close>)
  and the checkpoint file (\<open>CheckpointStore\<close> of \<open>scheduler.py\<close>). \<open>H\<close> is the SHA-256 hex digest of a
  byte string. A file is the value its JSON text reads as, or \<open>None\<close> when it cannot be read or parsed;
  a written value is read back with its keys in sorted order.
\<close>

section \<open>Keys\<close>

definition digest_json :: "(string \<Rightarrow> string) \<Rightarrow> json \<Rightarrow> string" where
  "digest_json H v = H (canonical_json_bytes v)"

text \<open>\<open>_portable\<close>: no path of this machine, keys in sorted order\<close>

primrec portable :: "json \<Rightarrow> json" where
  "portable JNull = JNull"
| "portable (JBool b) = JBool b"
| "portable (JInt i) = JInt i"
| "portable (JFloat m e) = JFloat m e"
| "portable (JStr s) = JStr s"
| "portable (JArr xs) = JArr (map portable xs)"
| "portable (JObj kvs) = JObj (sort_key fst (filter (\<lambda>p. fst p \<notin> {''path'', ''stdin_source''})
     (map (map_prod id portable) kvs)))"

definition without_fingerprint :: "json \<Rightarrow> json" where
  "without_fingerprint runtime = (case runtime of
     JObj kvs \<Rightarrow> JObj (filter (\<lambda>p. fst p \<noteq> ''fingerprint'') kvs) | _ \<Rightarrow> runtime)"

text \<open>What of the material tells the shard of a job: neither the machine, nor the tools installed\<close>

definition with_runtime :: "json \<Rightarrow> string \<times> json \<Rightarrow> string \<times> json" where
  "with_runtime r p = (fst p, if fst p = ''runtime'' then r else snd p)"

definition shard_material :: "json \<Rightarrow> json" where
  "shard_material v = JObj (map (with_runtime (without_fingerprint (get_none ''runtime'' v)))
     (filter (\<lambda>p. fst p \<notin> {''execution_context'', ''tool_modules'', ''engine''}) (dict_items v)))"

definition cache_key :: "(string \<Rightarrow> string) \<Rightarrow> json \<Rightarrow> string" where
  "cache_key H material = digest_json H (portable material)"

definition shard_key :: "(string \<Rightarrow> string) \<Rightarrow> json \<Rightarrow> string" where
  "shard_key H material = digest_json H (portable (shard_material material))"

text \<open>Both at once, with one pass over the material\<close>

definition cache_and_shard_keys :: "(string \<Rightarrow> string) \<Rightarrow> json \<Rightarrow> string \<times> string" where
  "cache_and_shard_keys H material =
     (let p = portable material in (digest_json H p, digest_json H (shard_material p)))"

section \<open>The result cache\<close>

text \<open>
  The folder of the records is direct (no link) or not; the folder of a shard of it is missing, a
  direct folder, or something else in its place.
\<close>

datatype shard_entry = Missing | Folder | Obstacle

record result_cache =
  rc_direct :: bool
  rc_shard :: "string \<Rightarrow> shard_entry"
  rc_file :: "string \<Rightarrow> json option option"

definition cache_key_ok :: "string \<Rightarrow> bool" where
  "cache_key_ok key \<longleftrightarrow> length key = 64 \<and> list_all (\<lambda>c. c \<in> set ''0123456789abcdef'') key"

definition shard_dir :: "string \<Rightarrow> string" where
  "shard_dir key = take 2 key"

definition stored_report :: "(string \<Rightarrow> string) \<Rightarrow> json \<Rightarrow> target_report res" where
  "stored_report H payload =
     res_bind (jitem ''report'' payload) (\<lambda>report.
     if get_none ''report_sha256'' payload \<noteq> JStr (digest_json H report) then throw ValueError ''''
     else target_report_from_dict report)"

text \<open>\<open>load\<close>: every mismatch means that there is no cached result. Only a record that is not a dict
  raises: \<open>AttributeError\<close> is not among the exceptions it catches.\<close>

definition cache_load :: "(string \<Rightarrow> string) \<Rightarrow> string \<Rightarrow> result_cache \<Rightarrow> target_report option res" where
  "cache_load H key c =
     (if \<not> cache_key_ok key \<or> \<not> rc_direct c \<or> rc_shard c (shard_dir key) \<noteq> Folder then Inr None
      else case rc_file c key of
        None \<Rightarrow> Inr None
      | Some None \<Rightarrow> Inr None
      | Some (Some payload) \<Rightarrow>
          if \<not> is_dict payload then throw AttributeError ''get''
          else if \<not> eq_int (get_none ''schema'' payload) 2 \<or> get_none ''key'' payload \<noteq> JStr key
              \<or> get_none ''material_digest'' payload \<noteq> JStr key then Inr None
          else (case stored_report H payload of
              Inl e \<Rightarrow> Inr None
            | Inr report \<Rightarrow>
                if tr_status report \<noteq> ''PASS'' then Inr None
                else Inr (Some (report\<lparr>tr_cache := JObj [(''status'', JStr ''hit''), (''key'', JStr key),
                    (''created_at'', get_none ''created_at'' payload)]\<rparr>))))"

definition cache_payload :: "(string \<Rightarrow> string) \<Rightarrow> instant \<Rightarrow> string \<Rightarrow> target_report \<Rightarrow> json" where
  "cache_payload H now key report = JObj
     [(''schema'', JInt 2), (''key'', JStr key), (''created_at'', JStr (iso now)), (''material_digest'', JStr key),
      (''report_sha256'', JStr (digest_json H (target_dict report))), (''report'', target_dict report)]"

definition cache_store ::
    "(string \<Rightarrow> string) \<Rightarrow> instant \<Rightarrow> string \<Rightarrow> target_report \<Rightarrow> json \<Rightarrow> string option \<Rightarrow> result_cache
      \<Rightarrow> (result_cache \<times> bool) res" where
  "cache_store H now key report material material_digest c =
     (if tr_status report \<noteq> ''PASS'' then Inr (c, False)
      else if \<not> cache_key_ok key then throw ValueError ''cache key must be a 64-character lowercase SHA-256 digest''
      else if key \<noteq> (case material_digest of Some d \<Rightarrow> d | None \<Rightarrow> digest_json H (portable material)) then Inr (c, False)
      else if \<not> rc_direct c \<or> rc_shard c (shard_dir key) = Obstacle then Inr (c, False)
      else Inr (c\<lparr>rc_shard := (rc_shard c)(shard_dir key := Folder),
          rc_file := (rc_file c)(key := Some (Some (canon (cache_payload H now key report))))\<rparr>, True))"

section \<open>The checkpoint file\<close>

record checkpoint =
  cp_path :: "string option"
  cp_file :: "json option option"
  cp_records :: json

text \<open>The records of the file, or none when it is missing, unreadable or of another schema\<close>

definition read_records :: "json option option \<Rightarrow> json res" where
  "read_records f = (case f of
     Some (Some payload) \<Rightarrow>
       if \<not> is_dict payload then throw AttributeError ''get''
       else if eq_int (get_none ''schema'' payload) 3 \<and> is_dict (get_none ''records'' payload)
       then Inr (get_none ''records'' payload) else Inr (JObj [])
   | _ \<Rightarrow> Inr (JObj []))"

definition open_checkpoint :: "string option \<Rightarrow> json option option \<Rightarrow> checkpoint res" where
  "open_checkpoint path f =
     (case path of
        None \<Rightarrow> Inr \<lparr>cp_path = None, cp_file = f, cp_records = JObj []\<rparr>
      | Some p \<Rightarrow> res_bind (read_records f) (\<lambda>records. Inr \<lparr>cp_path = path, cp_file = f, cp_records = records\<rparr>))"

definition cp_load :: "(string \<Rightarrow> string) \<Rightarrow> string \<Rightarrow> checkpoint \<Rightarrow> target_report option" where
  "cp_load H key c =
     (let v = get_none key (cp_records c) in
      if \<not> is_dict v \<or> get_none ''key'' v \<noteq> JStr key then None
      else case stored_report H v of
          Inl e \<Rightarrow> None
        | Inr report \<Rightarrow> Some (report\<lparr>tr_cache := JObj [(''status'', JStr ''resume''), (''key'', JStr key),
            (''checkpoint'', opt_str (cp_path c)), (''completed_at'', get_none ''completed_at'' v)]\<rparr>))"

definition checkpoint_record :: "(string \<Rightarrow> string) \<Rightarrow> instant \<Rightarrow> string \<Rightarrow> target_report \<Rightarrow> json" where
  "checkpoint_record H now key report = JObj
     [(''key'', JStr key), (''completed_at'', JStr (iso now)),
      (''report_sha256'', JStr (digest_json H (target_dict report))), (''report'', target_dict report)]"

definition merge_records :: "json \<Rightarrow> json \<Rightarrow> json" where
  "merge_records mine disk = foldl (\<lambda>v p. jset (fst p) (snd p) v) mine (dict_items disk)"

definition cp_save ::
    "(string \<Rightarrow> string) \<Rightarrow> instant \<Rightarrow> instant \<Rightarrow> string \<Rightarrow> target_report \<Rightarrow> checkpoint \<Rightarrow> checkpoint res" where
  "cp_save H now now' key report c =
     (if cp_path c = None then Inr c
      else res_bind (read_records (cp_file c)) (\<lambda>disk.
        let records = jset key (checkpoint_record H now key report) (merge_records (cp_records c) disk) in
        Inr (c\<lparr>cp_records := records,
          cp_file := Some (Some (canon (JObj [(''schema'', JInt 3), (''updated_at'', JStr (iso now')),
            (''records'', records)])))\<rparr>)))"

section \<open>One pass or two\<close>

lemma map_of_sorted: "map_of (sort_key fst kvs) k = map_of kvs k"
proof -
  have head: "map_of xs k = (case filter (\<lambda>p. fst p = k) xs of [] \<Rightarrow> None | p # _ \<Rightarrow> Some (snd p))"
    for xs :: "('c \<times> 'd) list" and k
    by (induction xs) auto
  show ?thesis unfolding head [of "sort_key fst kvs"] head [of kvs] by (simp only: sort_key_stable)
qed

lemma sort_key_keeping:
  assumes "\<And>p. fst (g p) = fst p"
  shows "map g (sort_key fst kvs) = sort_key fst (map g kvs)"
proof -
  have "map g (insort_key fst x xs) = insort_key fst (g x) (map g xs)" for x xs
    by (induction xs) (simp_all add: assms)
  then show ?thesis by (induction kvs) simp_all
qed

lemma map_of_portable:
  assumes "k \<notin> {''path'', ''stdin_source''}"
  shows "get_none k (portable (JObj kvs)) = portable (get_none k (JObj kvs))"
proof -
  have "map_of (filter (\<lambda>p. fst p \<notin> {''path'', ''stdin_source''}) (map (map_prod id portable) kvs)) k
      = map_option portable (map_of kvs k)"
    using assms by (induction kvs) auto
  then show ?thesis by (simp add: get_or_def map_of_sorted split: option.split)
qed

lemma portable_without_fingerprint: "portable (without_fingerprint v) = without_fingerprint (portable v)"
proof (cases v)
  case (JObj kvs)
  have "filter (\<lambda>p. fst p \<notin> {''path'', ''stdin_source''}) (map (map_prod id portable) (filter (\<lambda>p. fst p \<noteq> ''fingerprint'') kvs))
      = filter (\<lambda>p. fst p \<noteq> ''fingerprint'') (filter (\<lambda>p. fst p \<notin> {''path'', ''stdin_source''}) (map (map_prod id portable) kvs))"
    by (induction kvs) auto
  then show ?thesis by (simp add: without_fingerprint_def JObj filter_sort del: filter_filter)
qed (simp_all add: without_fingerprint_def)

lemma portable_entries:
  "filter (\<lambda>p. fst p \<notin> {''path'', ''stdin_source''}) (map (map_prod id portable) (map (with_runtime r)
     (filter (\<lambda>p. fst p \<notin> {''execution_context'', ''tool_modules'', ''engine''}) kvs)))
   = map (with_runtime (portable r)) (filter (\<lambda>p. fst p \<notin> {''execution_context'', ''tool_modules'', ''engine''})
     (filter (\<lambda>p. fst p \<notin> {''path'', ''stdin_source''}) (map (map_prod id portable) kvs)))"
  by (induction kvs) (simp_all add: with_runtime_def)

text \<open>Computing the cache key and the shard key in one pass over the material of a job gives the
  two keys the separate functions give.\<close>

lemma one_pass_keys:
  "cache_and_shard_keys H (JObj kvs) = (cache_key H (JObj kvs), shard_key H (JObj kvs))"
proof -
  let ?r = "without_fingerprint (get_none ''runtime'' (JObj kvs))"
  have "get_none ''runtime'' (portable (JObj kvs)) = portable (get_none ''runtime'' (JObj kvs))"
    by (rule map_of_portable) simp
  then have r: "without_fingerprint (get_none ''runtime'' (portable (JObj kvs))) = portable ?r"
    by (simp add: portable_without_fingerprint)
  have "map (with_runtime v) (sort_key fst xs) = sort_key fst (map (with_runtime v) xs)" for v xs
    by (rule sort_key_keeping) (simp add: with_runtime_def)
  with r have "portable (shard_material (JObj kvs)) = shard_material (portable (JObj kvs))"
    unfolding shard_material_def by (simp only: r portable.simps dict_items.simps filter_sort portable_entries)
  then show ?thesis by (simp add: cache_and_shard_keys_def cache_key_def shard_key_def Let_def)
qed

section \<open>Remembered reports\<close>

text \<open>A report as it is read back: the keys of its dicts are in sorted order.\<close>

definition canon_check :: "verification_check \<Rightarrow> verification_check" where
  "canon_check c = c\<lparr>vc_expected := canon (vc_expected c), vc_actual := canon (vc_actual c)\<rparr>"

definition canon_report :: "target_report \<Rightarrow> target_report" where
  "canon_report t = t\<lparr>tr_tests := canon (tr_tests t), tr_verification := map canon_check (tr_verification t),
     tr_sandbox := canon (tr_sandbox t), tr_analysis := canon (tr_analysis t),
     tr_observation := canon (tr_observation t), tr_runtime := canon (tr_runtime t),
     tr_inputs := canon (tr_inputs t), tr_dependencies := canon (tr_dependencies t),
     tr_hooks := canon (tr_hooks t), tr_cache := canon (tr_cache t)\<rparr>"

lemma jget_canon_obj: "jget k (canon (JObj kvs)) = map_option canon (map_of kvs k)"
  by (simp add: map_of_sorted map_of_map_canon del: id_apply)

lemma get_canon_obj: "get_or k d (canon (JObj kvs)) = (case map_of kvs k of None \<Rightarrow> d | Some x \<Rightarrow> canon x)"
  unfolding get_or_def jget_canon_obj by (simp split: option.split)

lemma kwargs_canon: "kwargs a b (canon (JObj kvs)) = kwargs a b (JObj kvs)"
proof -
  have "list_all (\<lambda>(k, _). k \<in> set (a @ b)) (dict_items (canon (JObj kvs))) = list_all (\<lambda>(k, _). k \<in> set (a @ b)) kvs"
    by (auto simp: list_all_iff)
  moreover have "(jget k (canon (JObj kvs)) \<noteq> None) = (jget k (JObj kvs) \<noteq> None)" for k
    by (simp only: jget_canon_obj jget_JObj) simp
  ultimately show ?thesis unfolding kwargs_def by simp
qed

lemma canon_opt [simp]: "canon (opt_str x) = opt_str x" "canon (opt_int y) = opt_int y"
  by (cases x; simp add: opt_str_def) (cases y; simp add: opt_int_def)

lemmas read_canon = get_canon_obj kwargs_canon read_simps

lemma parse_diagnostic_canon: "parse_diagnostic_of (canon (parse_diagnostic_dict d)) = Inr d"
  using parse_diagnostic_of_dict [of d]
  unfolding parse_diagnostic_of_def parse_diagnostic_dict_def read_canon by (simp add: get_or_def read_simps)

lemma file_change_canon: "file_change_of (canon (file_change_dict d)) = Inr d"
  using file_change_of_dict [of d]
  unfolding file_change_of_def file_change_dict_def read_canon by (simp add: get_or_def read_simps)

lemma check_canon: "check_of (canon (check_dict d)) = Inr (canon_check d)"
  using check_of_dict [of d]
  unfolding check_of_def check_dict_def read_canon by (simp add: get_or_def read_simps canon_check_def)

lemma execution_canon: "execution_of (canon (execution_dict e)) = Inr e"
  using execution_of_dict [of e]
  unfolding execution_of_def execution_dict_def read_canon by (simp add: get_or_def read_simps comp_def)

lemma execution_from_canon: "execution_result_from_dict (canon (opt_execution e)) = Inr e"
proof (cases e)
  case (Some x)
  have "canon (execution_dict x) \<noteq> JNull" by (simp add: execution_dict_def)
  with Some show ?thesis
    by (simp add: execution_result_from_dict_def opt_execution_def as_opt_def execution_canon)
qed (simp add: execution_result_from_dict_def opt_execution_def as_opt_def)

lemma as_list_canon: "(\<And>x. f (canon (g x)) = Inr (h x)) \<Longrightarrow> as_list f (canon (JArr (map g xs))) = Inr (map h xs)"
  by (induction xs) (simp_all add: as_list_def)

lemma as_list_str_canon: "as_list as_str (canon (JArr (map JStr xs))) = Inr xs"
  by (induction xs) (simp_all add: as_list_def)

lemma target_report_canon: "target_report_from_dict (canon (target_dict t)) = Inr (canon_report t)"
proof -
  note parts = as_list_canon [where f = parse_diagnostic_of and g = parse_diagnostic_dict and h = "\<lambda>x. x", OF parse_diagnostic_canon]
    as_list_canon [where f = check_of and g = check_dict and h = canon_check, OF check_canon]
    as_list_canon [where f = file_change_of and g = file_change_dict and h = "\<lambda>x. x", OF file_change_canon]
    as_list_str_canon
    execution_from_canon
  have k: "kwargs report_required report_optional (canon (target_dict t)) = Inr ()"
    using target_dict_keys [of t] unfolding target_dict_def kwargs_canon .
  show ?thesis
    using k unfolding target_report_from_dict_def
    unfolding target_dict_def get_canon_obj
    by (simp add: parts canon_report_def del: canon.simps(6,7))
qed


text \<open>What was stored under a digest is what is read back.\<close>

lemma stored_report_written:
  assumes "get_none ''report_sha256'' v = JStr (digest_json H (target_dict t))" "jget ''report'' v = Some (target_dict t)"
  shows "stored_report H v = Inr t"
  using assms by (simp add: stored_report_def jitem_def report_of_dict)

lemma stored_report_canon:
  assumes "map_of kvs ''report_sha256'' = Some (JStr (digest_json H (target_dict t)))" "map_of kvs ''report'' = Some (target_dict t)"
  shows "stored_report H (canon (JObj kvs)) = Inr (canon_report t)"
  unfolding stored_report_def jitem_def jget_canon_obj get_canon_obj assms
  by (simp add: digest_json_def canonical_canon target_report_canon del: canon.simps(7))

definition resumed :: "checkpoint \<Rightarrow> string \<Rightarrow> instant \<Rightarrow> target_report \<Rightarrow> target_report" where
  "resumed c key now t = t\<lparr>tr_cache := JObj [(''status'', JStr ''resume''), (''key'', JStr key),
     (''checkpoint'', opt_str (cp_path c)), (''completed_at'', JStr (iso now))]\<rparr>"

lemma load_saved_record:
  assumes "get_none key (cp_records c) = checkpoint_record H now key t"
  shows "cp_load H key c = Some (resumed c key now t)"
proof -
  have "stored_report H (checkpoint_record H now key t) = Inr t"
    by (rule stored_report_written) (simp_all add: checkpoint_record_def get_or_def)
  with assms show ?thesis by (simp add: cp_load_def checkpoint_record_def resumed_def get_or_def)
qed

lemma load_reread_record:
  assumes "get_none key (cp_records c) = canon (checkpoint_record H now key t)"
  shows "cp_load H key c = Some (resumed c key now (canon_report t))"
proof -
  have "stored_report H (canon (checkpoint_record H now key t)) = Inr (canon_report t)"
    unfolding checkpoint_record_def by (rule stored_report_canon) simp_all
  moreover have "get_none ''key'' (canon (checkpoint_record H now key t)) = JStr key"
    "get_none ''completed_at'' (canon (checkpoint_record H now key t)) = JStr (iso now)"
    "is_dict (canon (checkpoint_record H now key t))"
    unfolding checkpoint_record_def get_canon_obj by simp_all
  ultimately show ?thesis using assms by (simp add: cp_load_def resumed_def)
qed

lemma read_canon_records:
  assumes "is_dict records"
  shows "read_records (Some (Some (canon (JObj [(''schema'', JInt 3), (''updated_at'', u), (''records'', records)]))))
    = Inr (canon records)"
  unfolding read_records_def get_canon_obj option.case using assms by (auto simp: is_dict_iff)

lemma cp_save_record:
  assumes "cp_save H now now' key t c = Inr c'" and "cp_path c = Some p"
  obtains records where "get_none key records = checkpoint_record H now key t" "is_dict records"
    "c' = c\<lparr>cp_records := records, cp_file := Some (Some (canon (JObj [(''schema'', JInt 3),
       (''updated_at'', JStr (iso now')), (''records'', records)])))\<rparr>"
proof -
  obtain disk where "c' = c\<lparr>cp_records := jset key (checkpoint_record H now key t) (merge_records (cp_records c) disk),
       cp_file := Some (Some (canon (JObj [(''schema'', JInt 3), (''updated_at'', JStr (iso now')),
         (''records'', jset key (checkpoint_record H now key t) (merge_records (cp_records c) disk))])))\<rparr>"
    using assms unfolding cp_save_def Let_def by (auto simp del: canon.simps)
  then show thesis by (intro that [of "jset key (checkpoint_record H now key t) (merge_records (cp_records c) disk)"]) simp_all
qed

lemma saved_loads:
  assumes "cp_save H now now' key t c = Inr c'" and "cp_path c = Some p"
  shows "cp_load H key c' = Some (resumed c' key now t)"
  by (rule cp_save_record [OF assms]) (simp add: load_saved_record del: canon.simps)

lemma saved_reopens:
  assumes "cp_save H now now' key t c = Inr c'" and "cp_path c = Some p"
  shows "\<exists>c2. open_checkpoint (cp_path c') (cp_file c') = Inr c2
    \<and> cp_load H key c2 = Some (resumed c' key now (canon_report t))"
proof (rule cp_save_record [OF assms])
  fix records
  assume r: "get_none key records = checkpoint_record H now key t" "is_dict records"
    "c' = c\<lparr>cp_records := records, cp_file := Some (Some (canon (JObj [(''schema'', JInt 3),
       (''updated_at'', JStr (iso now')), (''records'', records)])))\<rparr>"
  let ?c2 = "\<lparr>cp_path = Some p, cp_file = cp_file c', cp_records = canon records\<rparr>"
  have "open_checkpoint (cp_path c') (cp_file c') = Inr ?c2"
    using r assms(2) by (simp add: open_checkpoint_def read_canon_records del: canon.simps)
  moreover obtain kvs where "records = JObj kvs" using r(2) by (auto simp: is_dict_iff)
  then have "get_none key (canon records) = canon (checkpoint_record H now key t)"
    using r(1) get_canon_obj [of key JNull kvs] by (auto simp: get_or_def checkpoint_record_def split: option.splits)
  then have "cp_load H key ?c2 = Some (resumed ?c2 key now (canon_report t))" by (intro load_reread_record) simp
  moreover have "resumed ?c2 = resumed c'" using r(3) assms(2) by (simp add: resumed_def fun_eq_iff)
  ultimately show ?thesis by auto
qed

text \<open>A checkpoint resumes: the report that was saved under the key of a job is what a run that
  asks for the key gets, in the same process and in a later one that opens the file, marked as
  resumed; the later one reads its dicts with sorted keys.\<close>

lemma checkpoint_resumes:
  assumes "cp_save H now now' key t c = Inr c'" and "cp_path c = Some p"
  shows "cp_load H key c' = Some (resumed c' key now t)
    \<and> (\<exists>c2. open_checkpoint (cp_path c') (cp_file c') = Inr c2
      \<and> cp_load H key c2 = Some (resumed c' key now (canon_report t)))"
  using saved_loads [OF assms] saved_reopens [OF assms] by blast

definition sample_checkpoint :: checkpoint where
  "sample_checkpoint = \<lparr>cp_path = Some ''c.json'', cp_file = Some None, cp_records = JObj []\<rparr>"

lemma checkpoint_resumes_witness:
  "\<exists>c'. cp_save (\<lambda>s. ''d'') 0 1 ''k'' (sample_report ''7.4'' ''PASS'') sample_checkpoint = Inr c'
     \<and> cp_load (\<lambda>s. ''d'') ''k'' c' = Some (resumed c' ''k'' 0 (sample_report ''7.4'' ''PASS''))"
proof -
  obtain c' where c: "cp_save (\<lambda>s. ''d'') 0 1 ''k'' (sample_report ''7.4'' ''PASS'') sample_checkpoint = Inr c'"
    by (simp add: cp_save_def sample_checkpoint_def read_records_def Let_def)
  have "cp_path sample_checkpoint = Some ''c.json''" by (simp add: sample_checkpoint_def)
  with checkpoint_resumes [OF c] c show ?thesis by blast
qed

end
