(* ===== verification/Psm_Acts.thy ===== *)
theory Psm_Acts
  imports Psm_Json Psm_Clock
begin

text \<open>
  Operations that act on a state and may raise, for the modules that drive other components: a
  function from the state to the new state and the result, with sequencing, \<open>try\<close>/\<open>except\<close> and the
  lifting of an operation on a part of the state. What an operation did before it raised stays
  done.
\<close>

type_synonym ('s, 'a) act = "'s \<Rightarrow> 's \<times> 'a res"

definition act_return :: "'a \<Rightarrow> ('s, 'a) act" where
  "act_return x = (\<lambda>s. (s, Inr x))"

definition act_res :: "'a res \<Rightarrow> ('s, 'a) act" where
  "act_res r = (\<lambda>s. (s, r))"

abbreviation act_raise :: "exn_class \<Rightarrow> string \<Rightarrow> ('s, 'a) act" where
  "act_raise c m \<equiv> act_res (throw c m)"

definition act_bind :: "('s, 'a) act \<Rightarrow> ('a \<Rightarrow> ('s, 'b) act) \<Rightarrow> ('s, 'b) act" where
  "act_bind m k = (\<lambda>s. case m s of (s', Inl e) \<Rightarrow> (s', Inl e) | (s', Inr x) \<Rightarrow> k x s')"

text \<open>\<open>try: m except Exception as e: h(e)\<close>\<close>

definition act_try :: "('s, 'a) act \<Rightarrow> (exn \<Rightarrow> ('s, 'a) act) \<Rightarrow> ('s, 'a) act" where
  "act_try m h = (\<lambda>s. case m s of (s', Inl e) \<Rightarrow> h e s' | (s', Inr x) \<Rightarrow> (s', Inr x))"

text \<open>The outcome of an operation as a value, which the caller inspects\<close>

definition act_catch :: "('s, 'a) act \<Rightarrow> ('s, 'a res) act" where
  "act_catch m = (\<lambda>s. case m s of (s', r) \<Rightarrow> (s', Inr r))"

definition act_on :: "('s \<Rightarrow> 't) \<Rightarrow> ('t \<Rightarrow> 's \<Rightarrow> 's) \<Rightarrow> ('t, 'a) act \<Rightarrow> ('s, 'a) act" where
  "act_on get put m = (\<lambda>s. case m (get s) of (t, r) \<Rightarrow> (put t s, r))"

lemma act_return_eq [simp]: "act_return x s = (s, Inr x)"
  by (simp add: act_return_def)

lemma act_res_eq [simp]: "act_res r s = (s, r)"
  by (simp add: act_res_def)

lemma act_bind_Inr: "m s = (s', Inr x) \<Longrightarrow> act_bind m k s = k x s'"
  by (simp add: act_bind_def)

lemma act_bind_Inl: "m s = (s', Inl e) \<Longrightarrow> act_bind m k s = (s', Inl e)"
  by (simp add: act_bind_def)

lemma act_bind_result:
  "act_bind m k s = (t, Inr y) \<longleftrightarrow> (\<exists>s' x. m s = (s', Inr x) \<and> k x s' = (t, Inr y))"
  by (auto simp: act_bind_def split: prod.split sum.split)

lemma act_bind_raise:
  "act_bind m k s = (t, Inl e) \<longleftrightarrow> m s = (t, Inl e) \<or> (\<exists>s' x. m s = (s', Inr x) \<and> k x s' = (t, Inl e))"
  by (auto simp: act_bind_def split: prod.split sum.split)

lemma act_bind_laws [simp]:
  "act_bind (act_return x) k = k x" "act_bind (act_res (Inr x)) k = k x"
  "act_bind (act_res (Inl e)) k = act_res (Inl e)"
  by (auto simp: act_bind_def fun_eq_iff)

lemma act_bind_assoc: "act_bind (act_bind m k) l = act_bind m (\<lambda>x. act_bind (k x) l)"
  by (auto simp: act_bind_def fun_eq_iff split: prod.split sum.split)

lemma act_try_Inr: "m s = (s', Inr x) \<Longrightarrow> act_try m h s = (s', Inr x)"
  by (simp add: act_try_def)

lemma act_try_Inl: "m s = (s', Inl e) \<Longrightarrow> act_try m h s = h e s'"
  by (simp add: act_try_def)

lemma act_catch_eq: "m s = (s', r) \<Longrightarrow> act_catch m s = (s', Inr r)"
  by (simp add: act_catch_def)

lemma act_catch_result: "act_catch m s = (s', Inr r) \<longleftrightarrow> m s = (s', r)"
  by (auto simp: act_catch_def split: prod.split)

lemma act_on_eq: "m (get s) = (t, r) \<Longrightarrow> act_on get put m s = (put t s, r)"
  by (simp add: act_on_def)

section \<open>What an operation leaves alone\<close>

named_theorems frame_intros \<open>operations that keep a part of the state\<close>

definition keeps :: "('s \<Rightarrow> 'v) \<Rightarrow> ('s, 'a) act \<Rightarrow> bool" where
  "keeps view m \<longleftrightarrow> (\<forall>s. view (fst (m s)) = view s)"

lemma keepsD: "keeps view m \<Longrightarrow> m s = (s', r) \<Longrightarrow> view s' = view s"
  by (metis fst_conv keeps_def)

lemma keeps_bind [frame_intros]:
  assumes "keeps view m" "\<And>x. keeps view (k x)" shows "keeps view (act_bind m k)"
  unfolding keeps_def
proof
  fix s
  obtain s' r where m: "m s = (s', r)" by (cases "m s")
  then show "view (fst (act_bind m k s)) = view s"
    using keepsD [OF assms(1) m] assms(2) by (cases r) (simp_all add: act_bind_def keeps_def)
qed

lemma keeps_try [frame_intros]:
  assumes "keeps view m" "\<And>e. keeps view (h e)" shows "keeps view (act_try m h)"
  unfolding keeps_def
proof
  fix s
  obtain s' r where m: "m s = (s', r)" by (cases "m s")
  then show "view (fst (act_try m h s)) = view s"
    using keepsD [OF assms(1) m] assms(2) by (cases r) (simp_all add: act_try_def keeps_def)
qed

lemma keeps_catch [frame_intros]: "keeps view m \<Longrightarrow> keeps view (act_catch m)"
  by (simp add: keeps_def act_catch_def split_beta)

lemma keeps_return [frame_intros]: "keeps view (act_return x)" "keeps view (act_res r)"
  by (simp_all add: keeps_def)

lemma keeps_on: "(\<And>t s. view (put t s) = view s) \<Longrightarrow> keeps view (act_on get put m)"
  by (simp add: keeps_def act_on_def split_beta)

section \<open>Exceptions by name\<close>

text \<open>\<open>type(exc).__name__\<close>\<close>

primrec class_name :: "exn_class \<Rightarrow> string" where
  "class_name PSMatrixError = ''PSMatrixError''"
| "class_name VerificationError = ''VerificationError''"
| "class_name DependencyError = ''DependencyError''"
| "class_name FleetQueueError = ''FleetQueueError''"
| "class_name FleetError = ''FleetError''"
| "class_name FleetRunError = ''FleetRunError''"
| "class_name QueueRunnerError = ''QueueRunnerError''"
| "class_name RecoveryError = ''RecoveryError''"
| "class_name SnapshotError = ''SnapshotError''"
| "class_name WorkerError = ''WorkerError''"
| "class_name RemoteProtocolError = ''RemoteProtocolError''"
| "class_name RepairError = ''RepairError''"
| "class_name HybridError = ''HybridError''"
| "class_name FullMatrixError = ''FullMatrixError''"
| "class_name HTTPAuthError = ''HTTPAuthError''"
| "class_name GateError = ''GateError''"
| "class_name GAGateError = ''GAGateError''"
| "class_name AttestationError = ''AttestationError''"
| "class_name ValueError = ''ValueError''"
| "class_name TypeError = ''TypeError''"
| "class_name KeyError = ''KeyError''"
| "class_name IndexError = ''IndexError''"
| "class_name OSError = ''OSError''"
| "class_name AttributeError = ''AttributeError''"
| "class_name RuntimeError = ''RuntimeError''"
| "class_name AssertionError = ''AssertionError''"
| "class_name OverflowError = ''OverflowError''"
| "class_name RunConfigurationError = ''RunConfigurationError''"
| "class_name SigningError = ''SigningError''"
| "class_name TransferError = ''TransferError''"
| "class_name IntegrityError = ''IntegrityError''"

text \<open>\<open>hashlib.sha256(str(exc).encode("utf-8", errors="replace")).hexdigest()\<close> is the digest of this text.\<close>

definition exn_name :: "exn \<Rightarrow> string" where
  "exn_name e = class_name (exn_class e)"

section \<open>Bounded retries\<close>

text \<open>
  Trying an operation again while it raises: \<open>after\<close> is what happens between two tries (which may
  look at the exception), \<open>n\<close> the tries that are left. \<open>tries\<close> is the state in which try \<open>k\<close> starts.
\<close>

primrec tries :: "('s, 'a) act \<Rightarrow> (exn \<Rightarrow> 's \<Rightarrow> 's) \<Rightarrow> nat \<Rightarrow> 's \<Rightarrow> 's" where
  "tries m after 0 s = s"
| "tries m after (Suc k) s = (case m (tries m after k s) of
     (s', Inl e) \<Rightarrow> after e s' | (s', Inr x) \<Rightarrow> s')"

lemma tries_shift: "m s = (s', Inl e) \<Longrightarrow> tries m after k (after e s') = tries m after (Suc k) s"
  by (induction k) simp_all

end
