(* ===== verification/Psm_Scheduler.thy ===== *)
theory Psm_Scheduler
  imports Psm_Cache Psm_Acts "HOL-Library.Multiset"
begin

text \<open>
  The target scheduler (\<open>scheduler.py\<close>): the list of jobs of a run and its sharding
  (\<open>build_jobs\<close>), and \<open>execute_jobs\<close>, which takes what it can from the checkpoint and the cache and
  runs the rest on a pool of threads. The pool is a step relation: a submitted future may begin at
  any time, the main thread waits for some of the running ones to end, handles the finished ones
  one by one and then refills the pool or, once a report failed under \<open>fail_fast\<close>, cancels what has
  not begun. What a job does, and in which order jobs end, is open. The material of a job (file
  evidence, execution context) and the fingerprints of the runtimes are given.
\<close>

section \<open>Jobs and shards\<close>

record target_job =
  tj_index :: nat
  tj_source :: string
  tj_spec :: runtime_spec
  tj_key :: string
  tj_shard_key :: string
  tj_material :: json

definition runtime_material :: "(runtime_spec \<Rightarrow> json) \<Rightarrow> runtime_spec \<Rightarrow> json" where
  "runtime_material fingerprint spec = JObj
     [(''runtime_id'', JStr (runtime_id spec)), (''version'', JStr (rs_version spec)), (''os'', JStr (rs_os spec)),
      (''arch'', JStr (rs_arch spec)), (''libc'', JStr (rs_libc spec)), (''fingerprint'', fingerprint spec)]"

definition job_of :: "(string \<Rightarrow> string) \<Rightarrow> (string \<Rightarrow> json) \<Rightarrow> (runtime_spec \<Rightarrow> json) \<Rightarrow> nat \<Rightarrow> string \<Rightarrow> runtime_spec \<Rightarrow> target_job" where
  "job_of H common fingerprint index source spec =
     (let material = jset ''runtime'' (runtime_material fingerprint spec) (common source);
          keys = cache_and_shard_keys H material in
      \<lparr>tj_index = index, tj_source = source, tj_spec = spec, tj_key = fst keys, tj_shard_key = snd keys,
       tj_material = material\<rparr>)"

text \<open>\<open>int(text, 16)\<close> for the lower-case digits of a digest\<close>

definition hex_int :: "string \<Rightarrow> nat res" where
  "hex_int s = (if s \<noteq> [] \<and> list_all (\<lambda>c. hex_val c \<noteq> None) s
     then Inr (foldl (\<lambda>a c. 16 * a + the (hex_val c)) 0 s)
     else throw ValueError ''invalid literal for int() with base 16'')"

definition in_shard :: "nat \<Rightarrow> nat \<Rightarrow> target_job \<Rightarrow> bool res" where
  "in_shard shard_index shard_count job =
     res_bind (hex_int (take 16 (tj_shard_key job))) (\<lambda>n. Inr (n mod shard_count = shard_index))"

fun keep_jobs :: "(target_job \<Rightarrow> bool res) \<Rightarrow> target_job list \<Rightarrow> target_job list res" where
  "keep_jobs test [] = Inr []"
| "keep_jobs test (job # jobs) = res_bind (test job) (\<lambda>keep.
     res_bind (keep_jobs test jobs) (\<lambda>kept. Inr (if keep then job # kept else kept)))"

definition build_jobs ::
    "(string \<Rightarrow> string) \<Rightarrow> (string \<Rightarrow> json) \<Rightarrow> (runtime_spec \<Rightarrow> json) \<Rightarrow> string list \<Rightarrow> runtime_spec list
      \<Rightarrow> int \<Rightarrow> int \<Rightarrow> target_job list res" where
  "build_jobs H common fingerprint files specs shard_index shard_count =
     (if shard_count < 1 then throw ValueError ''shard_count must be at least 1''
      else if shard_index < 0 \<or> shard_count \<le> shard_index
      then throw ValueError ''shard_index must satisfy 0 <= index < count''
      else keep_jobs (in_shard (nat shard_index) (nat shard_count))
        (map (\<lambda>(index, source, spec). job_of H common fingerprint index source spec)
          (enumerate 0 (List.product files specs))))"

section \<open>Workers\<close>

definition memory_limit :: "int \<Rightarrow> int option \<Rightarrow> int option \<Rightarrow> int" where
  "memory_limit cpus per_worker available = (case (per_worker, available) of
     (Some p, Some a) \<Rightarrow> if p \<noteq> 0 \<and> a \<noteq> 0 then max 1 (a div max 1 p) else cpus
   | _ \<Rightarrow> cpus)"

definition cpu_limit :: "int option \<Rightarrow> int" where
  "cpu_limit cpu_count = max 1 (case cpu_count of None \<Rightarrow> 1 | Some n \<Rightarrow> if n = 0 then 1 else n)"

definition worker_limit :: "int option \<Rightarrow> int option \<Rightarrow> int option \<Rightarrow> int \<Rightarrow> nat \<Rightarrow> int" where
  "worker_limit cpu_count per_worker available jobs_count n =
     (let cpus = cpu_limit cpu_count; memory = memory_limit cpus per_worker available;
          automatic = max 1 (min cpus (min memory (max 1 (int n))));
          requested = (if jobs_count \<noteq> 0 then max 1 jobs_count else automatic)
      in max 1 (min requested (min memory (max 1 (int n)))))"

section \<open>The run\<close>

text \<open>
  What surrounds a run: the digest, the digest and the full path of a source file, the options, and
  whether targets run in worker processes (which report a dict) or on the thread itself.
\<close>

record sched_env =
  se_H :: "string \<Rightarrow> string"
  se_source_sha :: "string \<Rightarrow> string res"
  se_resolve :: "string \<Rightarrow> string"
  se_processes :: bool
  se_cached :: bool
  se_cache_mode :: string
  se_resume :: bool
  se_fail_fast :: bool
  se_workers :: nat

text \<open>How a future ends: with a report, with the dict a worker process printed, or raising\<close>

datatype outcome = Reported target_report | Printed json | Raised exn | Cancelled

text \<open>A future that has begun knows whether the run was already stopping when it did.\<close>

datatype phase = Waiting | Working bool

text \<open>The readings of the clock while one report is kept: its checkpoint record, the file, the cache\<close>

record stamps =
  st_completed :: instant
  st_updated :: instant
  st_created :: instant

record sched =
  sd_queue :: "target_job list"
  sd_running :: "(target_job \<times> phase) list"
  sd_done :: "(target_job \<times> outcome \<times> stamps) list option"
  sd_stop :: bool
  sd_results :: "(nat \<times> target_report) list"
  sd_checkpoint :: checkpoint
  sd_cache :: result_cache
  sd_hits :: nat
  sd_resumed :: nat
  sd_executed :: nat
  sd_stored :: nat
  sd_skipped :: nat

text \<open>What is known without running anything\<close>

definition take_known :: "sched_env \<Rightarrow> stamps \<Rightarrow> target_job \<Rightarrow> sched \<Rightarrow> sched res" where
  "take_known E s job st =
     (case (if se_resume E then cp_load (se_H E) (tj_key job) (sd_checkpoint st) else None) of
        Some report \<Rightarrow> Inr (st\<lparr>sd_results := AList.update (tj_index job) report (sd_results st),
            sd_resumed := sd_resumed st + 1\<rparr>)
      | None \<Rightarrow>
          res_bind (if se_cached E \<and> se_cache_mode E = ''auto''
              then cache_load (se_H E) (tj_key job) (sd_cache st) else Inr None) (\<lambda>hit.
            case hit of
              None \<Rightarrow> Inr (st\<lparr>sd_queue := sd_queue st @ [job]\<rparr>)
            | Some report \<Rightarrow>
                res_bind (cp_save (se_H E) (st_completed s) (st_updated s) (tj_key job) report (sd_checkpoint st)) (\<lambda>c.
                  Inr (st\<lparr>sd_results := AList.update (tj_index job) report (sd_results st), sd_checkpoint := c,
                    sd_hits := sd_hits st + 1\<rparr>))))"

fun take_all_known :: "sched_env \<Rightarrow> (target_job \<times> stamps) list \<Rightarrow> sched \<Rightarrow> sched res" where
  "take_all_known E [] st = Inr st"
| "take_all_known E ((job, s) # jobs) st = res_bind (take_known E s job st) (take_all_known E jobs)"

definition submit :: "nat \<Rightarrow> sched \<Rightarrow> sched" where
  "submit n st = st\<lparr>sd_queue := drop n (sd_queue st),
     sd_running := sd_running st @ map (\<lambda>job. (job, Waiting)) (take n (sd_queue st))\<rparr>"

definition idle_sched :: "checkpoint \<Rightarrow> result_cache \<Rightarrow> sched" where
  "idle_sched cp cache = \<lparr>sd_queue = [], sd_running = [], sd_done = None, sd_stop = False, sd_results = [],
     sd_checkpoint = cp, sd_cache = cache, sd_hits = 0, sd_resumed = 0, sd_executed = 0, sd_stored = 0,
     sd_skipped = 0\<rparr>"

definition start_jobs :: "sched_env \<Rightarrow> (target_job \<times> stamps) list \<Rightarrow> checkpoint \<Rightarrow> result_cache \<Rightarrow> sched res" where
  "start_jobs E jobs cp cache =
     (if se_cache_mode E \<notin> {''auto'', ''off'', ''refresh''} then throw ValueError (''Unsupported cache mode: '' @ se_cache_mode E)
      else res_bind (take_all_known E jobs (idle_sched cp cache)) (\<lambda>st. Inr (submit (se_workers E) st)))"

definition prepare_run ::
    "sched_env \<Rightarrow> int option \<Rightarrow> int option \<Rightarrow> int option \<Rightarrow> int \<Rightarrow> (target_job \<times> stamps) list \<Rightarrow> checkpoint \<Rightarrow> result_cache
      \<Rightarrow> sched res" where
  "prepare_run E cpu_count per_worker available jobs_count jobs cp cache =
     start_jobs (E\<lparr>se_workers := nat (worker_limit cpu_count per_worker available jobs_count (length jobs))\<rparr>) jobs cp cache"

text \<open>\<open>_worker_failure\<close>: the source is hashed again, which may raise.\<close>

definition worker_failure :: "sched_env \<Rightarrow> target_job \<Rightarrow> exn \<Rightarrow> target_report res" where
  "worker_failure E job e =
     (let m = ''Worker failed: '' @ exn_name e @ '': '' @ exn_text e in
      res_bind (se_source_sha E (tj_source job)) (\<lambda>sha. Inr
        \<lparr>tr_runtime_id = runtime_id (tj_spec job), tr_runtime_version = rs_version (tj_spec job),
         tr_source = se_resolve E (tj_source job), tr_source_sha256 = sha, tr_status = ''FAIL_WORKER'',
         tr_parse_ok = False,
         tr_parse_diagnostics = [\<lparr>pd_message = m, pd_error_id = None, pd_line = None, pd_column = None, pd_extent = None\<rparr>],
         tr_execution = None, tr_test_execution = None, tr_tests = JObj [], tr_verification = [],
         tr_file_changes = [], tr_windows_requirements = [], tr_warnings = [m], tr_sandbox = JObj [],
         tr_analysis = JObj [], tr_observation = JObj [], tr_runtime = JObj [], tr_inputs = JObj [],
         tr_dependencies = JObj [], tr_hooks = JObj [], tr_cache = JObj []\<rparr>))"

definition outcome_report :: "sched_env \<Rightarrow> target_job \<Rightarrow> outcome \<Rightarrow> target_report res" where
  "outcome_report E job out = (case out of
     Reported t \<Rightarrow> Inr t
   | Printed v \<Rightarrow> (case target_report_from_dict v of Inr t \<Rightarrow> Inr t | Inl e \<Rightarrow> worker_failure E job e)
   | Raised e \<Rightarrow> worker_failure E job e
   | Cancelled \<Rightarrow> worker_failure E job (Exn RuntimeError ''cancelled''))"

definition missed :: "target_job \<Rightarrow> target_report \<Rightarrow> target_report" where
  "missed job t = t\<lparr>tr_cache := JObj [(''status'', JStr ''miss''), (''key'', JStr (tj_key job))]\<rparr>"

definition drop_future :: "target_job \<Rightarrow> (target_job \<times> phase) list \<Rightarrow> (target_job \<times> phase) list" where
  "drop_future job running = filter (\<lambda>f. tj_index (fst f) \<noteq> tj_index job) running"

definition keep_result :: "sched_env \<Rightarrow> stamps \<Rightarrow> target_job \<Rightarrow> target_report \<Rightarrow> sched \<Rightarrow> sched res" where
  "keep_result E s job t st =
     res_bind (cp_save (se_H E) (st_completed s) (st_updated s) (tj_key job) t (sd_checkpoint st)) (\<lambda>c.
     res_bind (if se_cached E \<and> se_cache_mode E \<noteq> ''off''
         then cache_store (se_H E) (st_created s) (tj_key job) t (tj_material job) (Some (tj_key job)) (sd_cache st)
         else Inr (sd_cache st, False)) (\<lambda>(cache, stored).
       Inr (st\<lparr>sd_executed := sd_executed st + 1, sd_results := AList.update (tj_index job) t (sd_results st),
         sd_checkpoint := c, sd_cache := cache, sd_stored := sd_stored st + (if stored then 1 else 0),
         sd_stop := sd_stop st \<or> (se_fail_fast E \<and> tr_status t \<noteq> ''PASS'')\<rparr>)))"

text \<open>One future of those \<open>wait\<close> returned\<close>

definition handle_done :: "sched_env \<Rightarrow> target_job \<times> outcome \<times> stamps \<Rightarrow> sched \<Rightarrow> sched res" where
  "handle_done E = (\<lambda>(job, out, s) st.
     let st' = st\<lparr>sd_running := drop_future job (sd_running st)\<rparr> in
     if out = Cancelled then Inr (st'\<lparr>sd_skipped := sd_skipped st + 1\<rparr>)
     else res_bind (outcome_report E job out) (\<lambda>t. keep_result E s job (missed job t) st'))"

text \<open>After the finished futures: cancel what has not begun, or refill the pool\<close>

definition refill :: "sched_env \<Rightarrow> sched \<Rightarrow> sched" where
  "refill E st =
     (if sd_stop st then
        st\<lparr>sd_queue := [], sd_running := filter (\<lambda>f. snd f \<noteq> Waiting) (sd_running st),
          sd_skipped := sd_skipped st + length (sd_queue st) + length (filter (\<lambda>f. snd f = Waiting) (sd_running st))\<rparr>
      else submit (se_workers E - length (sd_running st)) st)"

text \<open>\<open>thread_worker\<close>: a job that begins when the run is stopping raises without running; a worker
  process is started in any case.\<close>

definition cancelled_by_fail_fast :: exn where
  "cancelled_by_fail_fast = Exn RuntimeError ''cancelled by fail-fast''"

definition may_end :: "sched_env \<Rightarrow> bool \<Rightarrow> outcome \<Rightarrow> bool" where
  "may_end E stopping out = (case out of
     Cancelled \<Rightarrow> False
   | Raised e \<Rightarrow> se_processes E \<or> \<not> stopping \<or> e = cancelled_by_fail_fast
   | Reported t \<Rightarrow> \<not> se_processes E \<and> \<not> stopping
   | Printed v \<Rightarrow> se_processes E)"

definition begin_job :: "target_job \<Rightarrow> sched \<Rightarrow> sched" where
  "begin_job job st = st\<lparr>sd_running := map (\<lambda>(j, p). (j, if tj_index j = tj_index job \<and> p = Waiting
     then Working (sd_stop st) else p)) (sd_running st)\<rparr>"

definition ended :: "sched_env \<Rightarrow> sched \<Rightarrow> target_job \<times> outcome \<times> stamps \<Rightarrow> bool" where
  "ended E st d = (\<exists>f \<in> set (sd_running st). fst f = fst d
     \<and> (case snd f of Waiting \<Rightarrow> False | Working stopping \<Rightarrow> may_end E stopping (fst (snd d))))"

inductive sched_step :: "sched_env \<Rightarrow> sched \<Rightarrow> sched \<Rightarrow> bool" for E where
  begins: "(job, Waiting) \<in> set (sd_running st) \<Longrightarrow> sched_step E st (begin_job job st)"
| waited: "sd_done st = None \<Longrightarrow> finished \<noteq> [] \<Longrightarrow> distinct (map (\<lambda>d. tj_index (fst d)) finished)
    \<Longrightarrow> list_all (ended E st) finished \<Longrightarrow> sched_step E st (st\<lparr>sd_done := Some finished\<rparr>)"
| handled: "sd_done st = Some (d # rest) \<Longrightarrow> handle_done E d st = Inr st'
    \<Longrightarrow> sched_step E st (st'\<lparr>sd_done := Some rest\<rparr>)"
| refilled: "sd_done st = Some [] \<Longrightarrow> sched_step E st (refill E (st\<lparr>sd_done := None\<rparr>))"

inductive_cases sched_stepE: "sched_step E st st'"

definition targets_of :: "sched \<Rightarrow> target_report list" where
  "targets_of st = map snd (sort_key fst (sd_results st))"

definition run_metadata :: "sched_env \<Rightarrow> int option \<Rightarrow> int option \<Rightarrow> int option \<Rightarrow> int \<Rightarrow> nat \<Rightarrow> sched \<Rightarrow> json" where
  "run_metadata E cpu_count per_worker available jobs_count n st =
     (let cpus = cpu_limit cpu_count; memory = memory_limit cpus per_worker available;
          automatic = max 1 (min cpus (min memory (max 1 (int n)))) in
      JObj [(''requested'', JInt (int n)), (''completed'', JInt (int (length (targets_of st)))),
        (''workers'', JInt (int (se_workers E))),
        (''requested_workers'', JInt (if jobs_count \<noteq> 0 then max 1 jobs_count else automatic)),
        (''cpu_limit'', JInt cpus), (''memory_available_bytes'', opt_int available),
        (''per_worker_memory_bytes'', opt_int per_worker), (''memory_worker_limit'', JInt memory),
        (''cache_mode'', JStr (se_cache_mode E)), (''cache_hits'', JInt (int (sd_hits st))),
        (''resumed'', JInt (int (sd_resumed st))), (''executed'', JInt (int (sd_executed st))),
        (''cache_stored'', JInt (int (sd_stored st))), (''fail_fast'', JBool (se_fail_fast E)),
        (''skipped_fail_fast'', JInt (int (sd_skipped st)))])"

end
