(* ===== verification/Psm_SchedulerProps.thy ===== *)
theory Psm_SchedulerProps
  imports Psm_Scheduler
begin

text \<open>
  The scheduler: the shards of a run partition its jobs, every run of the pool ends with each job
  accounted for, and a job that begins while the run is stopping is recorded as failed.
\<close>

section \<open>Shards\<close>

text \<open>What the code relies on of SHA-256: a digest is a text of hexadecimal digits.\<close>

definition hex_text :: "(string \<Rightarrow> string) \<Rightarrow> bool" where
  "hex_text H \<longleftrightarrow> (\<forall>s. H s \<noteq> [] \<and> list_all (\<lambda>c. hex_val c \<noteq> None) (H s))"

definition shard_value :: "target_job \<Rightarrow> nat" where
  "shard_value job = projr (hex_int (take 16 (tj_shard_key job)))"

lemma keep_jobs_filter:
  "(\<And>j. j \<in> set jobs \<Longrightarrow> test j = Inr (t j)) \<Longrightarrow> keep_jobs test jobs = Inr (filter t jobs)"
  by (induction jobs) simp_all

lemma in_shard_value:
  assumes "hex_text H" and "\<exists>s. tj_shard_key job = H s"
  shows "in_shard i n job = Inr (shard_value job mod n = i)"
proof -
  obtain s where s: "tj_shard_key job = H s" using assms(2) ..
  have "H s \<noteq> []" "list_all (\<lambda>c. hex_val c \<noteq> None) (take 16 (H s))"
    using assms(1) by (auto simp: hex_text_def list_all_iff dest: in_set_takeD)
  with s show ?thesis by (simp add: in_shard_def shard_value_def hex_int_def)
qed

definition all_jobs :: "(string \<Rightarrow> string) \<Rightarrow> (string \<Rightarrow> json) \<Rightarrow> (runtime_spec \<Rightarrow> json) \<Rightarrow> string list \<Rightarrow> runtime_spec list
    \<Rightarrow> target_job list" where
  "all_jobs H common fingerprint files specs =
     map (\<lambda>(index, source, spec). job_of H common fingerprint index source spec) (enumerate 0 (List.product files specs))"

lemma indices_of_jobs: "map tj_index (all_jobs H common fingerprint files specs) = [0..<length files * length specs]"
proof -
  have "map tj_index (all_jobs H common fingerprint files specs) = map fst (enumerate 0 (List.product files specs))"
    by (simp add: all_jobs_def job_of_def Let_def comp_def case_prod_beta)
  then show ?thesis by (simp add: length_product)
qed

lemma build_shard:
  assumes "hex_text H" and "i < n"
  shows "build_jobs H common fingerprint files specs (int i) (int n)
    = Inr (filter (\<lambda>j. shard_value j mod n = i) (all_jobs H common fingerprint files specs))"
proof -
  have "in_shard i n j = Inr (shard_value j mod n = i)" if "j \<in> set (all_jobs H common fingerprint files specs)" for j
    using that by (intro in_shard_value [OF assms(1)])
      (auto simp: all_jobs_def job_of_def Let_def cache_and_shard_keys_def digest_json_def)
  then have "keep_jobs (in_shard i n) (all_jobs H common fingerprint files specs)
      = Inr (filter (\<lambda>j. shard_value j mod n = i) (all_jobs H common fingerprint files specs))"
    by (rule keep_jobs_filter)
  with assms(2) show ?thesis unfolding build_jobs_def all_jobs_def by simp
qed

lemma mset_classes: "mset (concat (map (\<lambda>i. filter (\<lambda>x. g x = i) xs) [0..<n])) = mset (filter (\<lambda>x. g x < n) xs)"
proof (induction n)
  case (Suc n)
  have "mset (filter (\<lambda>x. g x < Suc n) ys) = mset (filter (\<lambda>x. g x < n) ys) + mset (filter (\<lambda>x. g x = n) ys)" for ys
    by (induction ys) auto
  with Suc show ?case by simp
qed simp

text \<open>Merging by a key that tells the elements apart restores a list sorted by it.\<close>

lemma sort_key_merge:
  assumes "mset ys = mset xs" and "sorted (map f xs)" and "distinct (map f xs)"
  shows "sort_key f ys = xs"
proof (rule map_sorted_distinct_set_unique)
  have "mset (map f ys) = mset (map f xs)" using assms(1) by simp
  then have "distinct (map f ys)" using assms(3) mset_eq_imp_distinct_iff by blast
  moreover have "mset (map f (sort_key f ys)) = mset (map f ys)" by simp
  ultimately show "distinct (map f (sort_key f ys))" using mset_eq_imp_distinct_iff by blast
  have s: "set ys = set xs" using assms(1) by (rule mset_eq_setD)
  then show "set (sort_key f ys) = set xs" by simp
  show "inj_on f (set (sort_key f ys) \<union> set xs)" using s assms(3) by (simp add: distinct_map)
qed (use assms in simp_all)

text \<open>C25: The shards of a run partition its work: building every shard and merging the jobs by index
  gives the jobs of the run without shards, each with the same index and keys.\<close>

theorem shards_partition:
  assumes "hex_text H" and "0 < n"
  shows "\<exists>parts jobs. res_map (\<lambda>i. build_jobs H common fingerprint files specs (int i) (int n)) [0..<n] = Inr parts
    \<and> build_jobs H common fingerprint files specs 0 1 = Inr jobs
    \<and> sort_key tj_index (concat parts) = jobs"
proof -
  let ?all = "all_jobs H common fingerprint files specs"
  let ?parts = "map (\<lambda>i. filter (\<lambda>j. shard_value j mod n = i) ?all) [0..<n]"
  have "list_all2 (\<lambda>i part. build_jobs H common fingerprint files specs (int i) (int n) = Inr part) [0..<n] ?parts"
    by (auto simp: list_all2_map2 list_all2_same build_shard [OF assms(1)])
  then have "res_map (\<lambda>i. build_jobs H common fingerprint files specs (int i) (int n)) [0..<n] = Inr ?parts"
    by (simp only: res_map_Inr_iff)
  moreover have "build_jobs H common fingerprint files specs 0 1 = Inr ?all"
    using build_shard [OF assms(1), of 0 1] by simp
  moreover have "filter (\<lambda>j. shard_value j mod n < n) ?all = ?all" using assms(2) by simp
  then have "mset (concat ?parts) = mset ?all" by (simp only: mset_classes)
  then have "sort_key tj_index (concat ?parts) = ?all"
    by (rule sort_key_merge) (simp_all add: indices_of_jobs)
  ultimately show ?thesis by blast
qed

theorem shards_partition_witness:
  "\<exists>parts jobs. res_map (\<lambda>i. build_jobs (\<lambda>s. ''a7'') (\<lambda>s. JObj []) (\<lambda>r. JObj []) [''a.ps1'', ''b.ps1'']
      [resolve_runtime ''7.4.0'' ''x64'' ''glibc''] (int i) (int 3)) [0..<3] = Inr parts
    \<and> build_jobs (\<lambda>s. ''a7'') (\<lambda>s. JObj []) (\<lambda>r. JObj []) [''a.ps1'', ''b.ps1'']
      [resolve_runtime ''7.4.0'' ''x64'' ''glibc''] 0 1 = Inr jobs
    \<and> sort_key tj_index (concat parts) = jobs"
  by (rule shards_partition) (simp_all add: hex_text_def hex_val_def)

section \<open>Every job is accounted for\<close>

definition running_ids :: "sched \<Rightarrow> nat list" where
  "running_ids st = map (\<lambda>f. tj_index (fst f)) (sd_running st)"

definition queue_ids :: "sched \<Rightarrow> nat list" where
  "queue_ids st = map tj_index (sd_queue st)"

text \<open>Every job of the run has a result, is running, waits, or was skipped, and only one of these.\<close>

definition accounted :: "nat list \<Rightarrow> sched \<Rightarrow> bool" where
  "accounted J st \<longleftrightarrow> (\<exists>skipped. size skipped = sd_skipped st
     \<and> mset (map fst (sd_results st)) + mset (running_ids st) + mset (queue_ids st) + skipped = mset J)"

definition pool_ok :: "sched_env \<Rightarrow> sched \<Rightarrow> bool" where
  "pool_ok E st \<longleftrightarrow> length (sd_running st) \<le> se_workers E
     \<and> (sd_done st = None \<longrightarrow> sd_running st = [] \<or> sd_stop st \<longrightarrow> sd_queue st = [])
     \<and> (0 < sd_skipped st \<longrightarrow> sd_stop st)
     \<and> (sd_stop st \<longrightarrow> se_fail_fast E \<and> (\<exists>r \<in> set (sd_results st). tr_status (snd r) \<noteq> ''PASS''))
     \<and> sd_executed st + sd_hits st + sd_resumed st = length (sd_results st)"

definition is_finished :: "(target_job \<times> phase) list \<Rightarrow> target_job \<times> outcome \<times> stamps \<Rightarrow> bool" where
  "is_finished running d \<longleftrightarrow> fst (snd d) \<noteq> Cancelled \<and> (\<exists>seen. (fst d, Working seen) \<in> set running)"

definition finished_ok :: "sched \<Rightarrow> bool" where
  "finished_ok st \<longleftrightarrow> (case sd_done st of None \<Rightarrow> True | Some finished \<Rightarrow>
     distinct (map (\<lambda>d. tj_index (fst d)) finished)
     \<and> list_all (is_finished (sd_running st)) finished)"

definition sched_ok :: "sched_env \<Rightarrow> nat list \<Rightarrow> sched \<Rightarrow> bool" where
  "sched_ok E J st \<longleftrightarrow> distinct J \<and> 0 < se_workers E \<and> accounted J st \<and> pool_ok E st \<and> finished_ok st"

definition sched_start :: "sched_env \<Rightarrow> nat list \<Rightarrow> sched \<Rightarrow> bool" where
  "sched_start E J st \<longleftrightarrow> distinct J \<and> 0 < se_workers E
     \<and> (\<exists>jobs cp cache. map (\<lambda>p. tj_index (fst p)) jobs = J \<and> start_jobs E jobs cp cache = Inr st)"

lemmas sched_defs = accounted_def pool_ok_def finished_ok_def running_ids_def queue_ids_def

lemma update_new: "k \<notin> fst ` set xs \<Longrightarrow> AList.update k v xs = xs @ [(k, v)]"
  by (induction xs) auto

lemma accounted_distinct:
  assumes "distinct J" and "accounted J st"
  shows "distinct (map fst (sd_results st))" "distinct (running_ids st)"
    and "set (running_ids st) \<inter> fst ` set (sd_results st) = {}"
proof -
  obtain rest where "mset ((map fst (sd_results st) @ running_ids st @ queue_ids st) @ rest) = mset J"
    using assms(2) by (metis accounted_def ex_mset mset_append add.assoc)
  then have "distinct ((map fst (sd_results st) @ running_ids st @ queue_ids st) @ rest)"
    using assms(1) mset_eq_imp_distinct_iff by blast
  then show "distinct (map fst (sd_results st))" "distinct (running_ids st)"
    "set (running_ids st) \<inter> fst ` set (sd_results st) = {}" by auto
qed

text \<open>Taking what is known\<close>

lemma take_knownD:
  assumes "take_known E s job st = Inr st'" and "tj_index job \<notin> fst ` set (sd_results st)"
  shows "(\<exists>t. sd_results st' = sd_results st @ [(tj_index job, t)]) \<and> sd_queue st' = sd_queue st
      \<and> sd_hits st' + sd_resumed st' = Suc (sd_hits st + sd_resumed st)
    \<or> sd_results st' = sd_results st \<and> sd_queue st' = sd_queue st @ [job]
      \<and> sd_hits st' + sd_resumed st' = sd_hits st + sd_resumed st"
    and "sd_running st' = sd_running st" "sd_done st' = sd_done st" "sd_stop st' = sd_stop st"
    "sd_executed st' = sd_executed st" "sd_skipped st' = sd_skipped st"
  using assms by (auto simp: take_known_def update_new split: option.splits)

lemma disjoint_grown: "A' \<subseteq> insert x A \<Longrightarrow> x \<notin> B \<Longrightarrow> A \<inter> B = {} \<Longrightarrow> A' \<inter> B = {}"
  by blast

lemma disjoint_smaller: "A \<inter> B = {} \<Longrightarrow> B' \<subseteq> B \<Longrightarrow> A \<inter> B' = {}"
  by blast

lemma take_all_accounted:
  assumes "take_all_known E jobs st = Inr st'"
    and "distinct (map (\<lambda>p. tj_index (fst p)) jobs)"
    and "fst ` set (sd_results st) \<inter> set (map (\<lambda>p. tj_index (fst p)) jobs) = {}"
  shows "mset (map fst (sd_results st')) + mset (queue_ids st')
      = mset (map fst (sd_results st)) + mset (queue_ids st) + mset (map (\<lambda>p. tj_index (fst p)) jobs)
    \<and> sd_running st' = sd_running st \<and> sd_done st' = sd_done st \<and> sd_stop st' = sd_stop st
    \<and> sd_executed st' = sd_executed st \<and> sd_skipped st' = sd_skipped st
    \<and> sd_hits st' + sd_resumed st' + length (sd_results st) = sd_hits st + sd_resumed st + length (sd_results st')"
  using assms
proof (induction jobs arbitrary: st)
  case Nil
  then show ?case by simp
next
  case (Cons p jobs)
  obtain job s where p: "p = (job, s)" by fastforce
  with Cons.prems(1) obtain st1 where st1: "take_known E s job st = Inr st1" "take_all_known E jobs st1 = Inr st'"
    by auto
  have fresh: "tj_index job \<notin> fst ` set (sd_results st)" using Cons.prems(3) p by auto
  note one = take_knownD [OF st1(1) fresh]
  have "fst ` set (sd_results st1) \<subseteq> insert (tj_index job) (fst ` set (sd_results st))" using one(1) by auto
  moreover have "tj_index job \<notin> set (map (\<lambda>p. tj_index (fst p)) jobs)" using Cons.prems(2) p by simp
  moreover have "fst ` set (sd_results st) \<inter> set (map (\<lambda>p. tj_index (fst p)) jobs) = {}"
    by (rule disjoint_smaller [OF Cons.prems(3)]) auto
  ultimately have "fst ` set (sd_results st1) \<inter> set (map (\<lambda>p. tj_index (fst p)) jobs) = {}"
    by (rule disjoint_grown)
  moreover have "distinct (map (\<lambda>p. tj_index (fst p)) jobs)" using Cons.prems(2) by simp
  ultimately have ih: "mset (map fst (sd_results st')) + mset (queue_ids st')
      = mset (map fst (sd_results st1)) + mset (queue_ids st1) + mset (map (\<lambda>p. tj_index (fst p)) jobs)"
    "sd_running st' = sd_running st1 \<and> sd_done st' = sd_done st1 \<and> sd_stop st' = sd_stop st1
      \<and> sd_executed st' = sd_executed st1 \<and> sd_skipped st' = sd_skipped st1"
    "sd_hits st' + sd_resumed st' + length (sd_results st1) = sd_hits st1 + sd_resumed st1 + length (sd_results st')"
    using Cons.IH [OF st1(2)] by blast+
  from one(1) show ?case
    by (elim disjE conjE exE) (use ih one(2-) p in \<open>simp_all add: queue_ids_def\<close>)
qed

lemma submit_fields [simp]:
  "sd_results (submit n st) = sd_results st" "sd_done (submit n st) = sd_done st" "sd_stop (submit n st) = sd_stop st"
  "sd_skipped (submit n st) = sd_skipped st" "sd_executed (submit n st) = sd_executed st"
  "sd_hits (submit n st) = sd_hits st" "sd_resumed (submit n st) = sd_resumed st"
  "length (sd_running (submit n st)) = length (sd_running st) + min n (length (sd_queue st))"
  "sd_queue (submit n st) = drop n (sd_queue st)"
  by (simp_all add: submit_def)

lemma submit_ids: "mset (running_ids (submit n st)) + mset (queue_ids (submit n st)) = mset (running_ids st) + mset (queue_ids st)"
proof -
  have "mset (map tj_index (take n (sd_queue st))) + mset (map tj_index (drop n (sd_queue st))) = mset (map tj_index (sd_queue st))"
    by (metis append_take_drop_id map_append mset_append)
  then show ?thesis by (simp add: submit_def running_ids_def queue_ids_def comp_def ac_simps)
qed

lemma submit_idle: "0 < n \<Longrightarrow> sd_running (submit n st) = [] \<Longrightarrow> sd_queue (submit n st) = []"
  by (auto simp: submit_def)

lemma start_ok: "sched_start E J st \<Longrightarrow> sched_ok E J st"
proof -
  assume "sched_start E J st"
  then obtain jobs cp cache st1 where s: "distinct J" "0 < se_workers E" "map (\<lambda>p. tj_index (fst p)) jobs = J"
    "take_all_known E jobs (idle_sched cp cache) = Inr st1" "st = submit (se_workers E) st1"
    by (auto simp: sched_start_def start_jobs_def split: if_splits)
  have "fst ` set (sd_results (idle_sched cp cache)) \<inter> set (map (\<lambda>p. tj_index (fst p)) jobs) = {}"
    by (simp add: idle_sched_def)
  from take_all_accounted [OF s(4) _ this] s(1,3)
  have t: "mset (map fst (sd_results st1)) + mset (queue_ids st1) = mset J" "sd_running st1 = []" "sd_done st1 = None"
    "\<not> sd_stop st1" "sd_executed st1 = 0" "sd_skipped st1 = 0" "sd_hits st1 + sd_resumed st1 = length (sd_results st1)"
    by (simp_all add: idle_sched_def queue_ids_def)
  have "accounted J st" unfolding accounted_def
    using submit_ids [of "se_workers E" st1] t s(5) by (intro exI [of _ "{#}"]) (simp add: running_ids_def add.assoc)
  moreover have "pool_ok E st" "finished_ok st"
    using t s(2,5) submit_idle [of "se_workers E" st1] by (auto simp: pool_ok_def finished_ok_def)
  ultimately show ?thesis using s(1,2) by (simp add: sched_ok_def)
qed

text \<open>Handling a finished future\<close>

lemma keep_resultD:
  assumes "keep_result E s job t st = Inr st'" and "tj_index job \<notin> fst ` set (sd_results st)"
  shows "sd_results st' = sd_results st @ [(tj_index job, t)]" "sd_executed st' = Suc (sd_executed st)"
    and "sd_stop st' \<longleftrightarrow> sd_stop st \<or> se_fail_fast E \<and> tr_status t \<noteq> ''PASS''"
    and "sd_running st' = sd_running st" "sd_queue st' = sd_queue st" "sd_done st' = sd_done st"
    "sd_skipped st' = sd_skipped st" "sd_hits st' = sd_hits st" "sd_resumed st' = sd_resumed st"
  using assms by (auto simp: keep_result_def update_new)

lemma drop_future_ids:
  assumes "distinct (map (\<lambda>f. tj_index (fst f)) rs)" and "(job, p) \<in> set rs"
  shows "mset (map (\<lambda>f. tj_index (fst f)) rs) = add_mset (tj_index job) (mset (map (\<lambda>f. tj_index (fst f)) (drop_future job rs)))"
    and "length rs = Suc (length (drop_future job rs))"
  using assms
proof (induction rs)
  case (Cons r rs)
  { case 1
    show ?case
    proof (cases "tj_index (fst r) = tj_index job")
      case True
      with 1 have "drop_future job rs = rs" by (force simp: drop_future_def intro: filter_True)
      with True show ?thesis by (simp add: drop_future_def)
    next
      case False
      with 1 Cons.IH(1) show ?thesis by (auto simp: drop_future_def)
    qed }
  note m = this
  { case 2
    from m [OF 2] have "size (mset (map (\<lambda>f. tj_index (fst f)) (r # rs)))
        = size (add_mset (tj_index job) (mset (map (\<lambda>f. tj_index (fst f)) (drop_future job (r # rs)))))" by (rule arg_cong)
    then show ?case by simp }
qed simp_all

lemma is_finished_drop:
  "list_all (is_finished running) ds \<Longrightarrow> tj_index job \<notin> (\<lambda>d. tj_index (fst d)) ` set ds
    \<Longrightarrow> list_all (is_finished (drop_future job running)) ds"
  unfolding list_all_iff is_finished_def drop_future_def by (auto simp: image_iff)

lemma ended_finished: "ended E st d \<Longrightarrow> is_finished (sd_running st) d"
proof -
  assume "ended E st d"
  then obtain f where f: "f \<in> set (sd_running st)" "fst f = fst d"
    "case snd f of Waiting \<Rightarrow> False | Working stopping \<Rightarrow> may_end E stopping (fst (snd d))"
    by (auto simp: ended_def)
  from f(3) obtain stopping where w: "snd f = Working stopping" "may_end E stopping (fst (snd d))" by (cases "snd f") auto
  then have "f = (fst d, Working stopping)" using f(2) by (simp add: prod_eq_iff)
  moreover have "fst (snd d) \<noteq> Cancelled" using w(2) by (auto simp: may_end_def)
  ultimately show ?thesis using f(1) by (auto simp: is_finished_def)
qed

lemma handle_ok:
  assumes ok: "sched_ok E J st" and d: "sd_done st = Some ((job, out, s) # rest)"
    and h: "handle_done E (job, out, s) st = Inr st'"
  shows "sched_ok E J (st'\<lparr>sd_done := Some rest\<rparr>)" "length (sd_running st) = Suc (length (sd_running st'))"
    "sd_queue st' = sd_queue st" "sd_running st' = drop_future job (sd_running st)"
    "\<exists>t. outcome_report E job out = Inr t \<and> sd_results st' = sd_results st @ [(tj_index job, missed job t)]"
proof -
  from ok d obtain seen where f: "out \<noteq> Cancelled" "(job, Working seen) \<in> set (sd_running st)"
    "tj_index job \<notin> (\<lambda>d. tj_index (fst d)) ` set rest" "distinct (map (\<lambda>d. tj_index (fst d)) rest)"
    "list_all (is_finished (sd_running st)) rest"
    by (auto simp: sched_ok_def finished_ok_def is_finished_def)
  have "distinct J" "accounted J st" using ok by (simp_all add: sched_ok_def)
  note u = accounted_distinct(2,3) [OF this]
  let ?st = "st\<lparr>sd_running := drop_future job (sd_running st)\<rparr>"
  from h f(1) obtain t where t: "outcome_report E job out = Inr t" "keep_result E s job (missed job t) ?st = Inr st'"
    by (auto simp: handle_done_def Let_def)
  have "tj_index job \<in> set (running_ids st)" using f(2) by (force simp: running_ids_def)
  then have "tj_index job \<notin> fst ` set (sd_results ?st)" using u(2) by auto
  note k = keep_resultD [OF t(2) this, simplified]
  note dr = drop_future_ids [OF u(1) [unfolded running_ids_def] f(2)]
  show len: "length (sd_running st) = Suc (length (sd_running st'))" "sd_queue st' = sd_queue st"
    and run: "sd_running st' = drop_future job (sd_running st)"
    using dr(2) k(4,5) by simp_all
  show "\<exists>t. outcome_report E job out = Inr t \<and> sd_results st' = sd_results st @ [(tj_index job, missed job t)]"
    using t(1) k(1) by blast
  have "accounted J st'" using ok dr(1) unfolding sched_ok_def accounted_def running_ids_def queue_ids_def k(1,5,7) run
    by auto
  moreover have "pool_ok E (st'\<lparr>sd_done := Some rest\<rparr>)"
    using ok len k by (auto simp: sched_ok_def pool_ok_def)
  moreover have "finished_ok (st'\<lparr>sd_done := Some rest\<rparr>)"
    using f is_finished_drop [OF f(5,3)] run by (simp add: finished_ok_def)
  ultimately show "sched_ok E J (st'\<lparr>sd_done := Some rest\<rparr>)"
    using ok by (simp add: sched_ok_def accounted_def running_ids_def queue_ids_def)
qed

text \<open>The other steps\<close>

lemma begin_fields [simp]:
  "sd_results (begin_job job st) = sd_results st" "sd_done (begin_job job st) = sd_done st"
  "sd_stop (begin_job job st) = sd_stop st" "sd_skipped (begin_job job st) = sd_skipped st"
  "sd_executed (begin_job job st) = sd_executed st" "sd_hits (begin_job job st) = sd_hits st"
  "sd_resumed (begin_job job st) = sd_resumed st" "sd_queue (begin_job job st) = sd_queue st"
  "length (sd_running (begin_job job st)) = length (sd_running st)" "running_ids (begin_job job st) = running_ids st"
  by (simp_all add: begin_job_def running_ids_def comp_def case_prod_beta)

lemma begin_working: "(j, Working seen) \<in> set (sd_running st) \<Longrightarrow> (j, Working seen) \<in> set (sd_running (begin_job job st))"
  by (force simp: begin_job_def)

lemma begin_ok: "sched_ok E J st \<Longrightarrow> sched_ok E J (begin_job job st)"
proof -
  assume ok: "sched_ok E J st"
  have "sd_running (begin_job job st) = [] \<longleftrightarrow> sd_running st = []"
    using begin_fields(9) [of job st] by (metis length_0_conv)
  with ok have "pool_ok E (begin_job job st)" by (simp add: sched_ok_def pool_ok_def)
  moreover have "finished_ok (begin_job job st)"
    using ok by (auto simp: sched_ok_def finished_ok_def list_all_iff is_finished_def dest: begin_working split: option.splits)
  ultimately show ?thesis using ok by (simp add: sched_ok_def accounted_def queue_ids_def)
qed

lemma wait_ok:
  assumes "sched_ok E J st" "distinct (map (\<lambda>d. tj_index (fst d)) finished)" "list_all (ended E st) finished"
    and "sd_done st = None"
  shows "sched_ok E J (st\<lparr>sd_done := Some finished\<rparr>)"
proof -
  have "list_all (is_finished (sd_running st)) finished"
    using assms(3) by (auto simp: list_all_iff intro: ended_finished)
  with assms show ?thesis
    by (simp add: sched_ok_def sched_defs)
qed

lemma refill_ok:
  assumes ok: "sched_ok E J st" and d: "sd_done st = Some []"
  shows "sched_ok E J (refill E (st\<lparr>sd_done := None\<rparr>))"
proof (cases "sd_stop st")
  case False
  let ?n = "se_workers E - length (sd_running st)"
  let ?st = "submit ?n (st\<lparr>sd_done := None\<rparr>)"
  have "accounted J ?st" using ok submit_ids [of ?n "st\<lparr>sd_done := None\<rparr>"]
    by (auto simp: sched_ok_def accounted_def running_ids_def queue_ids_def add.assoc)
  moreover have "sd_running ?st = [] \<Longrightarrow> sd_running st = []" by (simp add: submit_def)
  then have "sd_running ?st = [] \<Longrightarrow> sd_queue ?st = []"
    using ok submit_idle [of ?n "st\<lparr>sd_done := None\<rparr>"] by (simp add: sched_ok_def)
  then have "pool_ok E ?st" using ok False by (auto simp: sched_ok_def pool_ok_def)
  moreover have "finished_ok ?st" by (simp add: finished_ok_def)
  ultimately show ?thesis using ok False by (simp add: sched_ok_def refill_def)
next
  case True
  let ?st = "refill E (st\<lparr>sd_done := None\<rparr>)"
  have part: "mset (map f rs) = mset (map f (filter P rs)) + mset (map f (filter (\<lambda>x. \<not> P x) rs))"
    for f :: "target_job \<times> phase \<Rightarrow> nat" and P rs by (induction rs) auto
  obtain sk where sk: "size sk = sd_skipped st"
    "mset (map fst (sd_results st)) + mset (running_ids st) + mset (queue_ids st) + sk = mset J"
    using ok by (auto simp: sched_ok_def accounted_def)
  have "accounted J ?st" unfolding accounted_def
    by (rule exI [of _ "mset (queue_ids st) + mset (map (\<lambda>f. tj_index (fst f)) (filter (\<lambda>f. snd f = Waiting) (sd_running st))) + sk"])
      (use True sk part [of "\<lambda>f. tj_index (fst f)" "sd_running st" "\<lambda>f. snd f = Waiting"] in
        \<open>auto simp: refill_def running_ids_def queue_ids_def ac_simps simp del: mset_filter\<close>)
  moreover have "pool_ok E ?st" using ok True
    by (auto simp: refill_def sched_ok_def pool_ok_def intro: order_trans [OF length_filter_le])
  moreover have "finished_ok ?st" using True by (simp add: refill_def finished_ok_def)
  ultimately show ?thesis using ok by (simp add: sched_ok_def)
qed

lemma sched_step_ok: "sched_ok E J st \<Longrightarrow> sched_step E st st' \<Longrightarrow> sched_ok E J st'"
proof (erule sched_stepE)
  fix d rest st1
  assume "sched_ok E J st" "sd_done st = Some (d # rest)" "handle_done E d st = Inr st1" "st' = st1\<lparr>sd_done := Some rest\<rparr>"
  then show "sched_ok E J st'" by (cases d) (use handle_ok(1) in blast)
qed (auto intro: begin_ok wait_ok refill_ok)

interpretation scheduler: step_system "sched_start E J" "sched_step E" "sched_ok E J" for E J
  by unfold_locales (auto intro: start_ok sched_step_ok)

section \<open>Every run ends\<close>

definition waiting_count :: "sched \<Rightarrow> nat" where
  "waiting_count st = length (filter (\<lambda>f. snd f = Waiting) (sd_running st))"

definition pass_weight :: "sched \<Rightarrow> nat" where
  "pass_weight st = (case sd_done st of None \<Rightarrow> 1 | Some [] \<Rightarrow> 2 | Some (_ # _) \<Rightarrow> 0)"

definition run_weight :: "sched \<Rightarrow> nat" where
  "run_weight st = 4 * length (sd_queue st) + 3 * length (sd_running st) + waiting_count st + pass_weight st"

lemma begin_waiting:
  assumes "(job, Waiting) \<in> set (sd_running st)"
  shows "waiting_count (begin_job job st) < waiting_count st"
proof -
  let ?f = "\<lambda>(j, p). (j, if tj_index j = tj_index job \<and> p = Waiting then Working (sd_stop st) else p)"
  have "length (filter (\<lambda>f. snd f = Waiting) (map ?f rs)) < length (filter (\<lambda>f. snd f = Waiting) rs)"
    if "(job, Waiting) \<in> set rs" for rs :: "(target_job \<times> phase) list"
    using that
  proof (induction rs)
    case (Cons r rs)
    have "length (filter (\<lambda>f. snd f = Waiting) (map ?f rs)) \<le> length (filter (\<lambda>f. snd f = Waiting) rs)"
      by (induction rs) auto
    with Cons show ?case by (cases r) auto
  qed simp
  with assms show ?thesis by (simp add: waiting_count_def begin_job_def)
qed

lemma drop_waiting: "length (filter (\<lambda>f. snd f = Waiting) (drop_future job rs)) \<le> length (filter (\<lambda>f. snd f = Waiting) rs)"
  by (induction rs) (auto simp: drop_future_def)

lemma submit_weight:
  assumes "sd_done st = None"
  shows "run_weight (submit n st) = run_weight st"
proof -
  have "waiting_count (submit n st) = waiting_count st + min n (length (sd_queue st))"
    by (simp add: waiting_count_def submit_def filter_map comp_def)
  then show ?thesis using assms by (simp add: run_weight_def pass_weight_def min_def) arith
qed

lemma sched_step_weight:
  assumes "sched_ok E J st" and "sched_step E st st'"
  shows "run_weight st' < run_weight st"
  using assms(2)
proof (cases rule: sched_step.cases)
  case (begins job)
  then show ?thesis using begin_waiting [of job st] by (simp add: run_weight_def pass_weight_def)
next
  case (waited finished)
  then show ?thesis by (cases finished) (simp_all add: run_weight_def pass_weight_def waiting_count_def)
next
  case (handled d rest st1)
  obtain job out s where d: "d = (job, out, s)" by (cases d)
  note h = handle_ok [OF assms(1) handled(2) [unfolded d] handled(3) [unfolded d]]
  have "waiting_count st1 \<le> waiting_count st" using h(4) drop_waiting by (simp add: waiting_count_def)
  moreover have "pass_weight (st1\<lparr>sd_done := Some rest\<rparr>) \<le> 2" "pass_weight st = 0"
    using handled(2) by (cases rest; simp add: pass_weight_def)+
  ultimately show ?thesis using h(2,3) handled(1) by (simp add: run_weight_def waiting_count_def)
next
  case refilled
  have base: "run_weight (st\<lparr>sd_done := None\<rparr>) < run_weight st"
    using refilled(2) by (simp add: run_weight_def pass_weight_def waiting_count_def)
  show ?thesis
  proof (cases "sd_stop st")
    case True
    let ?left = "filter (\<lambda>f. snd f \<noteq> Waiting) (sd_running st)"
    have "run_weight (refill E (st\<lparr>sd_done := None\<rparr>)) = 3 * length ?left + 1"
      using True by (simp add: refill_def run_weight_def waiting_count_def pass_weight_def)
    moreover have "3 * length (sd_running st) + 1 \<le> run_weight (st\<lparr>sd_done := None\<rparr>)"
      by (simp add: run_weight_def pass_weight_def)
    moreover note length_filter_le [of "\<lambda>f. snd f \<noteq> Waiting" "sd_running st"]
    ultimately have "run_weight (refill E (st\<lparr>sd_done := None\<rparr>)) \<le> run_weight (st\<lparr>sd_done := None\<rparr>)" by linarith
    with base refilled(1) show ?thesis by simp
  next
    case False
    with base refilled(1) show ?thesis by (simp add: refill_def submit_weight)
  qed
qed

lemma sched_steps_weight:
  assumes "sched_ok E J st" and "(sched_step E ^^ n) st st'"
  shows "n + run_weight st' \<le> run_weight st \<and> sched_ok E J st'"
  using assms(2)
proof (induction n arbitrary: st')
  case (Suc n)
  then obtain st1 where st1: "(sched_step E ^^ n) st st1" "sched_step E st1 st'" by auto
  with Suc.IH have "n + run_weight st1 \<le> run_weight st" "sched_ok E J st1" by auto
  then show ?case using sched_step_weight [OF _ st1(2)] sched_step_ok [OF _ st1(2)] by fastforce
qed (use assms(1) in simp)

text \<open>A run that is not over can go on, unless keeping a finished report raises.\<close>

lemma sched_progress:
  assumes "sd_running st \<noteq> [] \<or> sd_done st \<noteq> None"
  shows "(\<exists>st'. sched_step E st st') \<or> (\<exists>d rest e. sd_done st = Some (d # rest) \<and> handle_done E d st = Inl e)"
proof (cases "sd_done st")
  case None
  with assms obtain job p where f: "(job, p) \<in> set (sd_running st)" by (cases "sd_running st") auto
  show ?thesis
  proof (cases p)
    case Waiting
    with f show ?thesis by (blast intro: begins)
  next
    case (Working seen)
    define out where "out = (if se_processes E then Printed JNull else Raised cancelled_by_fail_fast)"
    have "may_end E seen out" by (simp add: out_def may_end_def)
    with f Working have "ended E st (job, out, undefined)" by (force simp: ended_def)
    with None have "sched_step E st (st\<lparr>sd_done := Some [(job, out, undefined)]\<rparr>)" by (intro waited) auto
    then show ?thesis by blast
  qed
next
  case (Some finished)
  then show ?thesis by (cases finished; cases "handle_done E (hd finished) st") (auto intro: refilled handled)
qed

text \<open>The result list of a finished run\<close>

lemma accounted_over:
  assumes "sched_ok E J st" and "sd_running st = []" and "sd_done st = None"
  shows "sd_queue st = []" "\<exists>skipped. size skipped = sd_skipped st \<and> mset (map fst (sd_results st)) + skipped = mset J"
proof -
  show q: "sd_queue st = []" using assms by (auto simp: sched_ok_def pool_ok_def)
  with assms show "\<exists>skipped. size skipped = sd_skipped st \<and> mset (map fst (sd_results st)) + skipped = mset J"
    by (auto simp: sched_ok_def accounted_def running_ids_def queue_ids_def)
qed

text \<open>C23: Whatever order the targets end in, when a run of the scheduler is over every job has exactly one
  result, except those that were skipped; without \<open>fail_fast\<close> none is skipped and the results come
  in the order of the jobs; a job is only skipped after a target failed; and every result was
  resumed, found in the cache, or executed.\<close>

theorem schedule_accounts:
  assumes "sched_start E J st0" and "(sched_step E)\<^sup>*\<^sup>* st0 st" and "sd_running st = []" and "sd_done st = None"
  shows "length (targets_of st) + sd_skipped st = length J
    \<and> distinct (map fst (sd_results st)) \<and> fst ` set (sd_results st) \<subseteq> set J
    \<and> (\<not> se_fail_fast E \<longrightarrow> sd_skipped st = 0 \<and> map fst (sort_key fst (sd_results st)) = sort J)
    \<and> (0 < sd_skipped st \<longrightarrow> (\<exists>t \<in> set (targets_of st). tr_status t \<noteq> ''PASS''))
    \<and> sd_resumed st + sd_hits st + sd_executed st = length (targets_of st)"
proof -
  have ok: "sched_ok E J st" using assms(1,2) by (rule scheduler.reachable_inv)
  then have parts: "distinct J" "accounted J st" "pool_ok E st" by (simp_all add: sched_ok_def)
  note pool = parts(3) [unfolded pool_ok_def]
  obtain sk where sk: "size sk = sd_skipped st" "mset (map fst (sd_results st)) + sk = mset J"
    using accounted_over(2) [OF ok assms(3,4)] by blast
  have d: "distinct (map fst (sd_results st))" using parts(1,2) by (rule accounted_distinct)
  have len: "length (targets_of st) + sd_skipped st = length J"
    using arg_cong [OF sk(2), of size] sk(1) by (simp add: targets_of_def)
  have sub: "fst ` set (sd_results st) \<subseteq> set J"
    using arg_cong [OF sk(2), of set_mset] by auto
  have "sd_skipped st = 0 \<and> map fst (sort_key fst (sd_results st)) = sort J" if "\<not> se_fail_fast E"
  proof -
    have z: "sd_skipped st = 0" using pool that by auto
    with sk have "mset (map fst (sort_key fst (sd_results st))) = mset J" by simp
    then show ?thesis using z properties_for_sort [of "map fst (sort_key fst (sd_results st))" J] by simp
  qed
  moreover have "\<exists>t \<in> set (targets_of st). tr_status t \<noteq> ''PASS''" if "0 < sd_skipped st"
    using pool that by (auto simp: targets_of_def)
  ultimately show ?thesis using len d sub pool by (auto simp: targets_of_def)
qed

text \<open>Every run of the scheduler ends: it makes at most four steps per job and one more, never has more
  futures than workers, and as long as it is not over it can go on, whatever the targets do, unless
  keeping a finished report raises.\<close>

lemma schedule_terminates:
  assumes "sched_start E J st0" and "(sched_step E ^^ n) st0 st"
  shows "n \<le> 4 * length J + 1 \<and> length (sd_running st) \<le> se_workers E
    \<and> ((\<exists>st'. sched_step E st st') \<or> (\<exists>d rest e. sd_done st = Some (d # rest) \<and> handle_done E d st = Inl e)
      \<or> sd_running st = [] \<and> sd_done st = None)"
proof -
  have ok0: "sched_ok E J st0" using assms(1) by (rule start_ok)
  have w: "n + run_weight st \<le> run_weight st0" "sched_ok E J st" using sched_steps_weight [OF ok0 assms(2)] by auto
  obtain sk where "size sk = sd_skipped st0"
    "mset (map fst (sd_results st0)) + mset (running_ids st0) + mset (queue_ids st0) + sk = mset J"
    using ok0 by (auto simp: sched_ok_def accounted_def)
  from arg_cong [OF this(2), of size] have "length (sd_running st0) + length (sd_queue st0) \<le> length J"
    by (simp add: running_ids_def queue_ids_def)
  moreover have "waiting_count st0 \<le> length (sd_running st0)" by (simp add: waiting_count_def)
  moreover have "sd_done st0 = None"
  proof -
    obtain jobs cp cache st1 where s: "take_all_known E jobs (idle_sched cp cache) = Inr st1"
      "st0 = submit (se_workers E) st1" "distinct (map (\<lambda>p. tj_index (fst p)) jobs)"
      using assms(1) by (auto simp: sched_start_def start_jobs_def split: if_splits)
    with take_all_accounted [OF s(1,3)] show ?thesis by (simp add: idle_sched_def)
  qed
  then have "pass_weight st0 = 1" by (simp add: pass_weight_def)
  ultimately have "run_weight st0 \<le> 4 * length J + 1" by (simp add: run_weight_def)
  moreover have "length (sd_running st) \<le> se_workers E" using w(2) by (simp add: sched_ok_def pool_ok_def)
  moreover have "(\<exists>st'. sched_step E st st') \<or> (\<exists>d rest e. sd_done st = Some (d # rest) \<and> handle_done E d st = Inl e)
      \<or> sd_running st = [] \<and> sd_done st = None"
    using sched_progress [of st E] by blast
  moreover have "n \<le> run_weight st0" using w(1) by linarith
  ultimately show ?thesis by (blast intro: le_trans)
qed

section \<open>Stopping early\<close>

text \<open>A job that began while the run was stopping: its future can only raise, until it is handled, and it
  is not submitted again.\<close>

definition doomed_end :: "target_job \<Rightarrow> target_job \<times> outcome \<times> stamps \<Rightarrow> bool" where
  "doomed_end job d \<longleftrightarrow> (tj_index (fst d) = tj_index job \<longrightarrow> fst (snd d) = Raised cancelled_by_fail_fast)"

definition doomed :: "target_job \<Rightarrow> sched \<Rightarrow> bool" where
  "doomed job st \<longleftrightarrow> (\<forall>f \<in> set (sd_running st). tj_index (fst f) = tj_index job \<longrightarrow> snd f = Working True)
     \<and> tj_index job \<notin> set (queue_ids st)
     \<and> (case sd_done st of None \<Rightarrow> True | Some ds \<Rightarrow> list_all (doomed_end job) ds)"

lemma doomed_ended:
  assumes "doomed job st" "ended E st d" "\<not> se_processes E" shows "doomed_end job d"
proof -
  from assms(2) obtain f where f: "f \<in> set (sd_running st)" "fst f = fst d"
    "case snd f of Waiting \<Rightarrow> False | Working stopping \<Rightarrow> may_end E stopping (fst (snd d))"
    by (auto simp: ended_def)
  show ?thesis unfolding doomed_end_def
  proof
    assume "tj_index (fst d) = tj_index job"
    with f assms(1) have "may_end E True (fst (snd d))" by (fastforce simp: doomed_def)
    with assms(3) show "fst (snd d) = Raised cancelled_by_fail_fast"
      by (auto simp: may_end_def split: outcome.splits)
  qed
qed

lemma doomed_begin: "doomed job st \<Longrightarrow> doomed job (begin_job j st)"
  by (auto simp: doomed_def begin_job_def queue_ids_def split: option.splits)

lemma doomed_handled:
  assumes "sched_ok E J st" "doomed job st" "sd_done st = Some (d # rest)" "handle_done E d st = Inr st'"
  shows "doomed job (st'\<lparr>sd_done := Some rest\<rparr>)"
proof -
  obtain j out s where d: "d = (j, out, s)" by (cases d)
  from handle_ok(3,4) [OF assms(1) assms(3,4) [unfolded d]] assms(2,3) show ?thesis
    by (auto simp: doomed_def queue_ids_def drop_future_def)
qed

lemma doomed_refill:
  assumes "doomed job st" shows "doomed job (refill E (st\<lparr>sd_done := None\<rparr>))"
proof -
  have q: "tj_index job \<notin> tj_index ` set (sd_queue st)" using assms by (simp add: doomed_def queue_ids_def)
  have t: "tj_index j \<noteq> tj_index job" if "j \<in> set (take n (sd_queue st))" for j n
    using q in_set_takeD [OF that] by (metis image_eqI)
  have d: "tj_index j \<noteq> tj_index job" if "j \<in> set (drop n (sd_queue st))" for j n
    using q in_set_dropD [OF that] by (metis image_eqI)
  show ?thesis using assms t d by (fastforce simp: doomed_def refill_def submit_def queue_ids_def)
qed

lemma doomed_step:
  assumes "sched_step E st st'" "sched_ok E J st" "doomed job st" "\<not> se_processes E" shows "doomed job st'"
  using assms(1)
proof (cases rule: sched_step.cases)
  case (waited finished)
  then show ?thesis using assms(3) doomed_ended [OF assms(3) _ assms(4)]
    by (auto simp: doomed_def queue_ids_def list_all_iff)
qed (use assms in \<open>auto intro: doomed_begin doomed_handled doomed_refill\<close>)

lemma doomed_steps:
  assumes "(sched_step E)\<^sup>*\<^sup>* st st'" "sched_ok E J st" "doomed job st" "\<not> se_processes E" shows "doomed job st'"
proof -
  have "sched_ok E J st' \<and> doomed job st'" using assms(1)
    by induction (use assms(2-4) sched_step_ok doomed_step in blast)+
  then show ?thesis ..
qed

lemma accounted_waiting:
  assumes "sched_ok E J st" "(job, Waiting) \<in> set (sd_running st)" "sd_stop st"
  shows "doomed job (begin_job job st)"
proof -
  have "distinct J" "accounted J st" using assms(1) by (simp_all add: sched_ok_def)
  then obtain sk where "mset (map fst (sd_results st)) + mset (running_ids st) + mset (queue_ids st) + sk = mset J"
    by (auto simp: accounted_def)
  moreover obtain rest where "sk = mset rest" by (metis ex_mset)
  ultimately have "mset ((running_ids st @ queue_ids st) @ map fst (sd_results st) @ rest) = mset J"
    by (simp add: ac_simps)
  then have "distinct ((running_ids st @ queue_ids st) @ map fst (sd_results st) @ rest)"
    using \<open>distinct J\<close> mset_eq_imp_distinct_iff by blast
  then have u: "distinct (running_ids st)" "set (running_ids st) \<inter> set (queue_ids st) = {}" by auto
  have one: "f = (job, Waiting)" if "f \<in> set (sd_running st)" "tj_index (fst f) = tj_index job" for f
    using u(1) that assms(2) unfolding running_ids_def distinct_map
    by (metis inj_onD fst_conv)
  have "tj_index job \<in> set (running_ids st)" using assms(2) by (force simp: running_ids_def)
  with u(2) have "tj_index job \<notin> set (queue_ids st)" by blast
  moreover have "\<not> is_finished (sd_running st) d" if "tj_index (fst d) = tj_index job" for d
    using one that by (fastforce simp: is_finished_def)
  then have "case sd_done st of None \<Rightarrow> True | Some ds \<Rightarrow> list_all (doomed_end job) ds"
    using assms(1) by (auto simp: sched_ok_def finished_ok_def doomed_end_def list_all_iff split: option.splits)
  moreover have "snd f = Working True" if "f \<in> set (sd_running (begin_job job st))" "tj_index (fst f) = tj_index job" for f
    using that one assms(3) by (force simp: begin_job_def)
  ultimately show ?thesis by (simp add: doomed_def queue_ids_def)
qed

text \<open>C24: When targets run on the threads of the pool (not in worker processes), a job that begins while
  the run is already stopping is not skipped: however the run goes on, when its future is handled
  it is counted as executed and gets a \<open>FAIL_WORKER\<close> result although it never ran, and the
  checkpoint keeps that result, so that every later run that resumes from it reports the failure
  instead of running the job.\<close>

theorem cancelled_job_recorded_failed:
  assumes "sched_start E J st0" and "(sched_step E)\<^sup>*\<^sup>* st0 st1" and "\<not> se_processes E"
    and "(job, Waiting) \<in> set (sd_running st1)" and "sd_stop st1"
    and "(sched_step E)\<^sup>*\<^sup>* (begin_job job st1) st"
    and "sd_done st = Some ((job, out, s) # rest)" and "handle_done E (job, out, s) st = Inr st'"
    and "cp_path (sd_checkpoint st) = Some p"
  shows "out = Raised cancelled_by_fail_fast \<and> sd_executed st' = Suc (sd_executed st) \<and> sd_skipped st' = sd_skipped st
    \<and> (\<exists>t. map_of (sd_results st') (tj_index job) = Some t \<and> tr_status t = ''FAIL_WORKER'')
    \<and> (\<forall>E2 s2 st2. se_resume E2 \<and> se_H E2 = se_H E \<and> sd_checkpoint st2 = sd_checkpoint st'
        \<longrightarrow> (\<exists>t. tr_status t = ''FAIL_WORKER'' \<and> take_known E2 s2 job st2
          = Inr (st2\<lparr>sd_results := AList.update (tj_index job) t (sd_results st2), sd_resumed := sd_resumed st2 + 1\<rparr>)))"
proof -
  have ok1: "sched_ok E J st1" using assms(1,2) by (rule scheduler.reachable_inv)
  have "(sched_step E)\<^sup>*\<^sup>* st0 (begin_job job st1)" using assms(2,4) by (meson begins rtranclp.rtrancl_into_rtrancl)
  then have "(sched_step E)\<^sup>*\<^sup>* st0 st" using assms(6) by (rule rtranclp_trans)
  with assms(1) have ok: "sched_ok E J st" by (rule scheduler.reachable_inv)
  have "doomed job st"
    by (rule doomed_steps [OF assms(6) _ accounted_waiting [OF ok1 assms(4,5)] assms(3)]) (rule begin_ok [OF ok1])
  then have out: "out = Raised cancelled_by_fail_fast" using assms(7) by (simp add: doomed_def doomed_end_def)
  note assms = assms(1-3) assms(7) [unfolded out] assms(8) [unfolded out] assms(9)
  let ?st = "st\<lparr>sd_running := drop_future job (sd_running st)\<rparr>"
  from assms(5) obtain t where t: "worker_failure E job cancelled_by_fail_fast = Inr t"
    "keep_result E s job (missed job t) ?st = Inr st'"
    by (auto simp: handle_done_def outcome_report_def Let_def)
  have f: "tr_status (missed job t) = ''FAIL_WORKER''"
    using t(1) by (auto simp: worker_failure_def missed_def Let_def)
  from handle_ok(5) [OF ok assms(4,5)] obtain t' where t': "outcome_report E job (Raised cancelled_by_fail_fast) = Inr t'"
    "sd_results st' = sd_results st @ [(tj_index job, missed job t')]" by blast
  then have "t' = t" using t(1) by (simp add: outcome_report_def)
  have new: "tj_index job \<notin> fst ` set (sd_results st)"
  proof -
    have "distinct J" "accounted J st" "tj_index job \<in> set (running_ids st)"
      using ok assms(4) by (force simp: sched_ok_def finished_ok_def is_finished_def running_ids_def)+
    then show ?thesis using accounted_distinct(3) by blast
  qed
  then have "map_of (sd_results st') (tj_index job) = Some (missed job t)"
    using t'(2) \<open>t' = t\<close> by (simp add: map_add_def map_of_eq_None_iff [THEN iffD2])
  moreover have "sd_executed st' = Suc (sd_executed st)" "sd_skipped st' = sd_skipped st"
    using keep_resultD [OF t(2)] new by simp_all
  moreover obtain c where c: "cp_save (se_H E) (st_completed s) (st_updated s) (tj_key job) (missed job t) (sd_checkpoint st) = Inr c"
    "sd_checkpoint st' = c"
    using t(2) by (auto simp: keep_result_def)
  note saved_loads [OF c(1) assms(6)]
  then have "cp_load (se_H E) (tj_key job) (sd_checkpoint st')
      = Some (resumed c (tj_key job) (st_completed s) (missed job t))" using c(2) by simp
  moreover have "tr_status (resumed c (tj_key job) (st_completed s) (missed job t)) = ''FAIL_WORKER''"
    using f by (simp add: resumed_def)
  ultimately show ?thesis using f out by (fastforce simp: take_known_def)
qed

text \<open>A run of two jobs: the first fails, and the second begins before the pool is stopped.\<close>

definition demo_env :: sched_env where
  "demo_env = \<lparr>se_H = (\<lambda>s. ''a7''), se_source_sha = (\<lambda>p. Inr ''00''), se_resolve = (\<lambda>p. p), se_processes = False,
     se_cached = False, se_cache_mode = ''off'', se_resume = False, se_fail_fast = True, se_workers = 2\<rparr>"

definition demo_target :: "nat \<Rightarrow> target_job" where
  "demo_target i = \<lparr>tj_index = i, tj_source = ''/p/a.ps1'', tj_spec = resolve_runtime ''7.4.0'' ''x64'' ''glibc'',
     tj_key = ''k'' @ nat_str i, tj_shard_key = ''a7'', tj_material = JObj []\<rparr>"

definition demo_stamps :: stamps where
  "demo_stamps = \<lparr>st_completed = 0, st_updated = 0, st_created = 0\<rparr>"

definition demo_first :: "target_job \<times> outcome \<times> stamps" where
  "demo_first = (demo_target 0, Reported (sample_report ''7.4.0'' ''FAIL''), demo_stamps)"

definition demo_second :: "target_job \<times> outcome \<times> stamps" where
  "demo_second = (demo_target 1, Raised cancelled_by_fail_fast, demo_stamps)"

lemma handle_succeeds:
  assumes "\<not> se_cached E" and "out \<noteq> Cancelled" and "outcome_report E job out = Inr t"
    and "read_records (cp_file (sd_checkpoint st)) = Inr r" and "cp_path (sd_checkpoint st) = Some p"
  shows "\<exists>st' r'. handle_done E (job, out, s) st = Inr st' \<and> cp_path (sd_checkpoint st') = Some p
    \<and> read_records (cp_file (sd_checkpoint st')) = Inr r' \<and> sd_running st' = drop_future job (sd_running st)
    \<and> (sd_stop st' \<longleftrightarrow> sd_stop st \<or> se_fail_fast E \<and> tr_status t \<noteq> ''PASS'')"
proof -
  obtain c where c: "cp_save (se_H E) (st_completed s) (st_updated s) (tj_key job) (missed job t) (sd_checkpoint st) = Inr c"
    using assms(4,5) by (simp add: cp_save_def Let_def del: canon.simps)
  obtain records where rec: "is_dict records" "c = (sd_checkpoint st)\<lparr>cp_records := records, cp_file := Some (Some (canon
      (JObj [(''schema'', JInt 3), (''updated_at'', JStr (iso (st_updated s))), (''records'', records)])))\<rparr>"
    by (rule cp_save_record [OF c assms(5)]) (rule that)
  have "cp_path c = Some p" "read_records (cp_file c) = Inr (canon records)"
    using assms(5) read_canon_records [OF rec(1)] unfolding rec(2) by (simp_all del: canon.simps)
  then show ?thesis using assms c by (simp add: handle_done_def keep_result_def missed_def Let_def)
qed

lemma demo_env_fields [simp]:
  "se_cached demo_env = False" "se_fail_fast demo_env" "se_processes demo_env = False" "se_workers demo_env = 2"
  "se_source_sha demo_env p = Inr ''00''"
  by (simp_all add: demo_env_def)

lemma demo_target_index [simp]: "tj_index (demo_target i) = i"
  by (simp add: demo_target_def)

lemma demo_race:
  "\<exists>st0 st1 st st'. sched_start demo_env [0, 1] st0 \<and> (sched_step demo_env)\<^sup>*\<^sup>* st0 st1
     \<and> (demo_target 1, Waiting) \<in> set (sd_running st1) \<and> sd_stop st1
     \<and> (sched_step demo_env)\<^sup>*\<^sup>* (begin_job (demo_target 1) st1) st \<and> (sched_step demo_env)\<^sup>*\<^sup>* st0 st
     \<and> sd_done st = Some [demo_second] \<and> handle_done demo_env demo_second st = Inr st'
     \<and> cp_path (sd_checkpoint st) = Some ''c.json'' \<and> sd_running st' = [] \<and> sd_stop st'"
proof -
  obtain s0 where "start_jobs demo_env [(demo_target 0, demo_stamps), (demo_target 1, demo_stamps)] sample_checkpoint
      \<lparr>rc_direct = True, rc_shard = (\<lambda>s. Missing), rc_file = (\<lambda>s. None)\<rparr> = Inr s0"
    and s0: "sd_running s0 = [(demo_target 0, Waiting), (demo_target 1, Waiting)]" "sd_done s0 = None" "\<not> sd_stop s0"
      "sd_checkpoint s0 = sample_checkpoint"
    by (simp add: start_jobs_def take_known_def idle_sched_def submit_def demo_env_def)
  then have start: "sched_start demo_env [0, 1] s0" unfolding sched_start_def
    by (intro conjI exI [of _ "[(demo_target 0, demo_stamps), (demo_target 1, demo_stamps)]"] exI) simp_all
  define s1 where "s1 = begin_job (demo_target 0) s0"
  have r1: "sd_running s1 = [(demo_target 0, Working False), (demo_target 1, Waiting)]" "sd_done s1 = None"
    "sd_checkpoint s1 = sample_checkpoint" "\<not> sd_stop s1"
    by (simp_all add: s1_def begin_job_def s0)
  define s2 where "s2 = s1\<lparr>sd_done := Some [demo_first]\<rparr>"
  have "read_records (cp_file (sd_checkpoint s2)) = Inr (JObj [])" "cp_path (sd_checkpoint s2) = Some ''c.json''"
    by (simp_all add: s2_def r1 sample_checkpoint_def read_records_def)
  moreover have "outcome_report demo_env (demo_target 0) (Reported (sample_report ''7.4.0'' ''FAIL''))
      = Inr (sample_report ''7.4.0'' ''FAIL'')" by (simp add: outcome_report_def)
  moreover have "tr_status (sample_report ''7.4.0'' ''FAIL'') \<noteq> ''PASS''" by (simp add: sample_report_def)
  moreover have "drop_future (demo_target 0) (sd_running s2) = [(demo_target 1, Waiting)]"
    by (simp add: s2_def r1 drop_future_def)
  moreover have "\<not> se_cached demo_env" "Reported (sample_report ''7.4.0'' ''FAIL'') \<noteq> Cancelled" by simp_all
  ultimately obtain s3 r where s3: "handle_done demo_env demo_first s2 = Inr s3" "cp_path (sd_checkpoint s3) = Some ''c.json''"
    "read_records (cp_file (sd_checkpoint s3)) = Inr r" "sd_running s3 = [(demo_target 1, Waiting)]" "sd_stop s3"
    using handle_succeeds [of demo_env "Reported (sample_report ''7.4.0'' ''FAIL'')" "demo_target 0"
        "sample_report ''7.4.0'' ''FAIL''" s2 "JObj []" "''c.json''" demo_stamps]
    unfolding demo_first_def by (metis demo_env_fields(2))
  define s4 where "s4 = begin_job (demo_target 1) (s3\<lparr>sd_done := Some []\<rparr>)"
  have r4: "sd_running s4 = [(demo_target 1, Working True)]" "sd_done s4 = Some []" "sd_checkpoint s4 = sd_checkpoint s3" "sd_stop s4"
    by (simp_all add: s4_def begin_job_def s3)
  define s5 where "s5 = refill demo_env (s4\<lparr>sd_done := None\<rparr>)"
  have r5: "sd_running s5 = [(demo_target 1, Working True)]" "sd_done s5 = None" "sd_checkpoint s5 = sd_checkpoint s3"
    by (simp_all add: s5_def refill_def r4)
  define s6 where "s6 = s5\<lparr>sd_done := Some [demo_second]\<rparr>"
  have "sched_step demo_env s0 s1" unfolding s1_def by (rule begins) (simp add: s0)
  moreover have "sched_step demo_env s1 s2" unfolding s2_def
    by (rule waited) (simp_all add: r1 ended_def demo_first_def may_end_def)
  moreover have "sched_step demo_env s2 (s3\<lparr>sd_done := Some []\<rparr>)" by (rule handled [OF _ s3(1)]) (simp add: s2_def)
  moreover have "sched_step demo_env (s3\<lparr>sd_done := Some []\<rparr>) s4" unfolding s4_def by (rule begins) (simp add: s3)
  moreover have "sched_step demo_env s4 s5" unfolding s5_def by (rule refilled) (simp add: r4)
  moreover have "sched_step demo_env s5 s6" unfolding s6_def
    by (rule waited) (simp_all add: r5 ended_def demo_second_def may_end_def)
  ultimately have run: "(sched_step demo_env)\<^sup>*\<^sup>* s0 (s3\<lparr>sd_done := Some []\<rparr>)" "(sched_step demo_env)\<^sup>*\<^sup>* s4 s6"
    "(sched_step demo_env)\<^sup>*\<^sup>* s0 s6"
    by (meson converse_rtranclp_into_rtranclp rtranclp.rtrancl_refl)+
  have "\<exists>t. outcome_report demo_env (demo_target 1) (Raised cancelled_by_fail_fast) = Inr t \<and> tr_status t = ''FAIL_WORKER''"
    by (simp add: outcome_report_def worker_failure_def Let_def)
  then obtain t where t: "outcome_report demo_env (demo_target 1) (Raised cancelled_by_fail_fast) = Inr t"
    "tr_status t = ''FAIL_WORKER''" by blast
  have "drop_future (demo_target 1) (sd_running s6) = []" by (simp add: s6_def r5 drop_future_def)
  with handle_succeeds [of demo_env "Raised cancelled_by_fail_fast" "demo_target 1" t s6 r "''c.json''" demo_stamps] t s3(2,3) r5(3)
  have "\<exists>s7. handle_done demo_env demo_second s6 = Inr s7 \<and> sd_running s7 = [] \<and> sd_stop s7"
    unfolding demo_second_def s6_def by auto
  then obtain s7 where "handle_done demo_env demo_second s6 = Inr s7" "sd_running s7 = []" "sd_stop s7" by blast
  moreover have "sd_done s6 = Some [demo_second]" "cp_path (sd_checkpoint s6) = Some ''c.json''"
    using s3(2) r5(3) by (simp_all add: s6_def)
  moreover have "(demo_target 1, Waiting) \<in> set (sd_running (s3\<lparr>sd_done := Some []\<rparr>))" "sd_stop (s3\<lparr>sd_done := Some []\<rparr>)"
    using s3 by simp_all
  ultimately show ?thesis using start run [unfolded s4_def] run(3) by blast
qed

theorem cancelled_job_recorded_failed_witness:
  "\<exists>st0 st st' t. sched_start demo_env [0, 1] st0 \<and> (sched_step demo_env)\<^sup>*\<^sup>* st0 st
     \<and> handle_done demo_env demo_second st = Inr st' \<and> map_of (sd_results st') 1 = Some t
     \<and> tr_status t = ''FAIL_WORKER''"
proof -
  obtain st0 st1 st st' where r: "sched_start demo_env [0, 1] st0" "(sched_step demo_env)\<^sup>*\<^sup>* st0 st1"
    "(demo_target 1, Waiting) \<in> set (sd_running st1)" "sd_stop st1"
    "(sched_step demo_env)\<^sup>*\<^sup>* (begin_job (demo_target 1) st1) st"
    "sd_done st = Some [demo_second]" "handle_done demo_env demo_second st = Inr st'"
    "cp_path (sd_checkpoint st) = Some ''c.json''" and run: "(sched_step demo_env)\<^sup>*\<^sup>* st0 st"
    using demo_race by blast
  have "\<not> se_processes demo_env" by simp
  from cancelled_job_recorded_failed [OF r(1,2) this r(3-5) r(6,7) [unfolded demo_second_def] r(8)] r(1,7) run
  show ?thesis by auto
qed

theorem schedule_accounts_witness:
  "\<exists>st. sd_running st = [] \<and> sd_done st = None \<and> length (targets_of st) + sd_skipped st = 2
     \<and> sd_resumed st + sd_hits st + sd_executed st = length (targets_of st)"
proof -
  obtain st0 st st' where r: "sched_start demo_env [0, 1] st0" "(sched_step demo_env)\<^sup>*\<^sup>* st0 st"
    "sd_done st = Some [demo_second]" "handle_done demo_env demo_second st = Inr st'" "sd_running st' = []" "sd_stop st'"
    using demo_race by blast
  let ?final = "refill demo_env (st'\<lparr>sd_done := Some [], sd_done := None\<rparr>)"
  have "sched_step demo_env st (st'\<lparr>sd_done := Some []\<rparr>)" by (rule handled [OF r(3,4)])
  moreover have "sched_step demo_env (st'\<lparr>sd_done := Some []\<rparr>) ?final" by (rule refilled) simp
  ultimately have s: "(sched_step demo_env)\<^sup>*\<^sup>* st0 ?final" using r(2) by (meson rtranclp.rtrancl_into_rtrancl)
  have e: "sd_running ?final = []" "sd_done ?final = None" using r(5,6) by (simp_all add: refill_def)
  from schedule_accounts [OF r(1) s e] e show ?thesis by (intro exI [of _ ?final]) simp
qed

lemma schedule_terminates_witness:
  "\<exists>st0 st n. (sched_step demo_env ^^ n) st0 st \<and> sd_done st = Some [demo_second] \<and> n \<le> 9 \<and> length (sd_running st) \<le> 2"
proof -
  obtain st0 st where r: "sched_start demo_env [0, 1] st0" "(sched_step demo_env)\<^sup>*\<^sup>* st0 st" "sd_done st = Some [demo_second]"
    using demo_race by blast
  from r(2) obtain n where "(sched_step demo_env ^^ n) st0 st" by (auto dest: rtranclp_imp_relpowp)
  with schedule_terminates [OF r(1) this] r(3) show ?thesis by (intro exI [of _ st0] exI [of _ st] exI [of _ n]) auto
qed

text \<open>The pool always has a worker, and never more than there are jobs.\<close>

lemma clamp_le: "max 1 (min (a::int) (min b (max 1 c))) \<le> max 1 c"
  by linarith

lemma worker_limit_bounds: "1 \<le> worker_limit cpus per_worker available jobs_count n" "worker_limit cpus per_worker available jobs_count n \<le> max 1 (int n)"
  unfolding worker_limit_def Let_def by (rule max.cobounded1 clamp_le)+

end
