(* ===== verification/Psm_Queue.thy ===== *)
theory Psm_Queue
  imports Psm_JsonText Psm_Clock Psm_RuntimeIds
begin

text \<open>
  The durable job queue of \<open>fleet_queue.py\<close>. The SQLite database is a record: the \<open>jobs\<close> table
  as the list of its rows in insertion order, and the \<open>generation\<close> of the \<open>meta\<close> table. The
  timestamps are the texts the code stores, and they are compared as the code compares them: as
  texts by SQL, as instants by \<open>_time\<close>. A transaction is a function from the database to the
  database after commit or rollback together with the returned value or the exception; the
  operations of the class add the rewriting of the mirror file.

  Inputs from outside are arguments: \<open>now\<close> is \<open>datetime.now(UTC)\<close> in microseconds, \<open>uid\<close> is
  \<open>uuid.uuid4()\<close>, \<open>H\<close> is the SHA-256 hex digest, and \<open>pick\<close> is the choice SQL leaves to the
  engine among rows that \<open>ORDER BY priority DESC, created_at ASC\<close> does not tell apart.
\<close>

section \<open>The database\<close>

datatype jstate = QUEUED | LEASED | COMPLETE | FAILED

primrec state_text :: "jstate \<Rightarrow> string" where
  "state_text QUEUED = ''QUEUED''"
| "state_text LEASED = ''LEASED''"
| "state_text COMPLETE = ''COMPLETE''"
| "state_text FAILED = ''FAILED''"

record job =
  j_id :: string
  j_key :: string
  j_runtime :: string
  j_payload_json :: string
  j_payload_sha256 :: string
  j_state :: jstate
  j_priority :: int
  j_attempts :: int
  j_max_attempts :: int
  j_created_at :: string
  j_updated_at :: string
  j_lease_owner :: "string option"
  j_lease_expires_at :: "string option"
  j_result_json :: "string option"
  j_error :: "string option"

record queue_db =
  q_jobs :: "job list"
  q_generation :: int

text \<open>The mirror file: absent, unreadable text, or the value its text stands for.\<close>

datatype mirror_file = NoMirror | BadMirror | Mirror json

record queue_store =
  qs_name :: string
  qs_db :: queue_db
  qs_mirror :: mirror_file

interpretation jt: keyed_table j_id "find_by j_id" "upd_by j_id"
  by unfold_locales (auto dest: find_by_Some simp: find_by_None upd_by_def)

definition set_jobs :: "job list \<Rightarrow> queue_db \<Rightarrow> queue_db" where
  "set_jobs js db = db\<lparr>q_jobs := js\<rparr>"

definition bump_generation :: "queue_db \<Rightarrow> queue_db" where
  "bump_generation db = db\<lparr>q_generation := q_generation db + 1\<rparr>"

section \<open>Rows as values\<close>

text \<open>\<open>dict(row)\<close>\<close>

definition raw_row :: "job \<Rightarrow> json" where
  "raw_row r = JObj
    [(''job_id'', JStr (j_id r)), (''idempotency_key'', JStr (j_key r)),
     (''runtime_id'', JStr (j_runtime r)), (''payload_json'', JStr (j_payload_json r)),
     (''payload_sha256'', JStr (j_payload_sha256 r)), (''state'', JStr (state_text (j_state r))),
     (''priority'', JInt (j_priority r)), (''attempts'', JInt (j_attempts r)),
     (''max_attempts'', JInt (j_max_attempts r)), (''created_at'', JStr (j_created_at r)),
     (''updated_at'', JStr (j_updated_at r)), (''lease_owner'', opt_str (j_lease_owner r)),
     (''lease_expires_at'', opt_str (j_lease_expires_at r)),
     (''result_json'', opt_str (j_result_json r)), (''error'', opt_str (j_error r))]"

definition json_loads :: "string \<Rightarrow> json res" where
  "json_loads s = (case loads s of None \<Rightarrow> throw ValueError ''JSONDecodeError'' | Some v \<Rightarrow> Inr v)"

text \<open>\<open>_row\<close>; a fetch that found nothing is \<open>dict(None)\<close>, a \<open>TypeError\<close>.\<close>

definition row_dict :: "job option \<Rightarrow> json res" where
  "row_dict row = (case row of
     None \<Rightarrow> throw TypeError ''NoneType object is not iterable''
   | Some r \<Rightarrow>
       res_bind (json_loads (j_payload_json r)) (\<lambda>payload.
       res_bind (if j_result_json r = None \<or> j_result_json r = Some [] then Inr JNull
                 else json_loads (the (j_result_json r))) (\<lambda>result.
       Inr (jset ''result'' result (jdel ''result_json''
             (jset ''payload'' payload (jdel ''payload_json'' (raw_row r))))))))"

section \<open>The mirror\<close>

definition sort_rows :: "job list \<Rightarrow> job list" where
  "sort_rows rows = sort_key j_id rows"

definition mirror_body :: "string \<Rightarrow> instant \<Rightarrow> queue_db \<Rightarrow> json" where
  "mirror_body name now db = JObj
    [(''schema'', JInt 1), (''queue'', JStr name), (''generation'', JInt (q_generation db)),
     (''created_at'', JStr (iso now)), (''jobs'', JArr (map raw_row (sort_rows (q_jobs db))))]"

definition digest :: "(string \<Rightarrow> string) \<Rightarrow> json \<Rightarrow> string" where
  "digest H v = H (canonical_json_bytes v)"

definition mirror_payload :: "(string \<Rightarrow> string) \<Rightarrow> string \<Rightarrow> instant \<Rightarrow> queue_db \<Rightarrow> json" where
  "mirror_payload H name now db =
     (let payload = mirror_body name now db
      in jset ''mirror_sha256'' (JStr (digest H payload)) payload)"

definition write_mirror :: "(string \<Rightarrow> string) \<Rightarrow> instant \<Rightarrow> queue_store \<Rightarrow> queue_store" where
  "write_mirror H now st = st\<lparr>qs_mirror := Mirror (mirror_payload H (qs_name st) now (qs_db st))\<rparr>"

definition check_mirror :: "(string \<Rightarrow> string) \<Rightarrow> json \<Rightarrow> json res" where
  "check_mirror H value =
     (if \<not> is_dict value \<or> \<not> eq_int (get_none ''schema'' value) 1 \<or> \<not> is_list (get_none ''jobs'' value)
      then throw FleetQueueError ''Queue mirror schema is invalid''
      else if text_field ''mirror_sha256'' value \<noteq> digest H (jdel ''mirror_sha256'' value)
      then throw FleetQueueError ''Queue mirror digest verification failed''
      else (case py_int (get_or ''generation'' (JInt (-1)) value) of
          Inl e \<Rightarrow> throw FleetQueueError ''Queue mirror is invalid''
        | Inr g \<Rightarrow> if g < 0 then throw FleetQueueError ''Queue mirror generation is invalid''
            else Inr value))"

definition mirror :: "(string \<Rightarrow> string) \<Rightarrow> queue_store \<Rightarrow> json option res" where
  "mirror H st = (case qs_mirror st of
     NoMirror \<Rightarrow> Inr None
   | BadMirror \<Rightarrow> throw FleetQueueError ''Queue mirror is invalid: JSONDecodeError''
   | Mirror value \<Rightarrow> res_bind (check_mirror H value) (\<lambda>v. Inr (Some v)))"

definition mirror_generation :: "json \<Rightarrow> int" where
  "mirror_generation v = (case py_int (get_none ''generation'' v) of Inr g \<Rightarrow> g | Inl e \<Rightarrow> -1)"

definition refresh_mirror_if_needed ::
    "(string \<Rightarrow> string) \<Rightarrow> instant \<Rightarrow> queue_store \<Rightarrow> queue_store" where
  "refresh_mirror_if_needed H now st = (case mirror H st of
     Inl e \<Rightarrow> write_mirror H now st
   | Inr None \<Rightarrow> write_mirror H now st
   | Inr (Some v) \<Rightarrow>
       if mirror_generation v < q_generation (qs_db st) then write_mirror H now st else st)"

text \<open>\<open>__init__\<close> on a path without a database, and on an existing one\<close>

definition create_queue :: "(string \<Rightarrow> string) \<Rightarrow> instant \<Rightarrow> string \<Rightarrow> mirror_file \<Rightarrow> queue_store" where
  "create_queue H now name m = refresh_mirror_if_needed H now
     \<lparr>qs_name = name, qs_db = \<lparr>q_jobs = [], q_generation = 0\<rparr>, qs_mirror = m\<rparr>"

definition open_queue :: "(string \<Rightarrow> string) \<Rightarrow> instant \<Rightarrow> queue_store \<Rightarrow> queue_store" where
  "open_queue H now st = refresh_mirror_if_needed H now st"

section \<open>Transactions\<close>

text \<open>\<open>_time\<close>; the column of a row without a lease is \<open>None\<close>, which \<open>fromisoformat\<close> rejects.\<close>

definition queue_time :: "string option \<Rightarrow> instant res" where
  "queue_time value = (case value of
     None \<Rightarrow> throw TypeError ''fromisoformat: argument must be str''
   | Some s \<Rightarrow> (case from_iso s of
       None \<Rightarrow> throw ValueError ''Invalid isoformat string''
     | Some (t, None) \<Rightarrow> throw FleetQueueError ''Queue timestamp lacks a timezone''
     | Some (t, Some off) \<Rightarrow> Inr (to_utc t off)))"

definition enqueue_tx ::
    "instant \<Rightarrow> string \<Rightarrow> string \<Rightarrow> string \<Rightarrow> string \<Rightarrow> string \<Rightarrow> int \<Rightarrow> int \<Rightarrow> queue_db
      \<Rightarrow> queue_db \<times> (bool \<times> json) res" where
  "enqueue_tx now uid rid raw sha key priority max_attempts db =
     (case find_by j_key key (q_jobs db) of
        Some existing \<Rightarrow>
          if j_payload_sha256 existing \<noteq> sha \<or> j_runtime existing \<noteq> rid
          then (db, throw FleetQueueError ''Idempotency key is already bound to a different job'')
          else (db, res_bind (row_dict (Some existing)) (\<lambda>v. Inr (False, v)))
      | None \<Rightarrow>
          if find_by j_id uid (q_jobs db) \<noteq> None
          then (db, throw IntegrityError ''UNIQUE constraint failed: jobs.job_id'')
          else
            (let row = \<lparr>j_id = uid, j_key = key, j_runtime = rid, j_payload_json = raw,
                   j_payload_sha256 = sha, j_state = QUEUED, j_priority = priority,
                   j_attempts = 0, j_max_attempts = max_attempts, j_created_at = iso now,
                   j_updated_at = iso now, j_lease_owner = None, j_lease_expires_at = None,
                   j_result_json = None, j_error = None\<rparr>;
                 db' = bump_generation (set_jobs (q_jobs db @ [row]) db)
             in (db', res_bind (row_dict (find_by j_id uid (q_jobs db'))) (\<lambda>v. Inr (True, v)))))"

definition lease_lapsed :: "instant \<Rightarrow> job \<Rightarrow> bool" where
  "lease_lapsed now r \<longleftrightarrow> j_state r = LEASED \<and>
     (case j_lease_expires_at r of None \<Rightarrow> False | Some t \<Rightarrow> t < iso now)"

definition expire_row :: "instant \<Rightarrow> bool \<Rightarrow> job \<Rightarrow> job" where
  "expire_row now final r = r\<lparr>j_state := if final then FAILED else QUEUED, j_updated_at := iso now,
     j_lease_owner := None, j_lease_expires_at := None, j_error := Some ''lease expired''\<rparr>"

definition requeue_expired :: "instant \<Rightarrow> job list \<Rightarrow> job list \<times> nat" where
  "requeue_expired now jobs =
     (let rows = filter (lease_lapsed now) jobs in
      (foldl (\<lambda>js r. upd_by j_id (j_id r) (expire_row now (j_max_attempts r \<le> j_attempts r)) js) jobs rows,
       length rows))"

text \<open>The rows \<open>LIMIT 1\<close> may return: no queued row of these runtimes comes before them.\<close>

definition claim_order :: "job \<Rightarrow> int \<times> string" where
  "claim_order r = (- j_priority r, j_created_at r)"

definition ready_rows :: "string list \<Rightarrow> job list \<Rightarrow> job list" where
  "ready_rows rids jobs = filter (\<lambda>r. j_state r = QUEUED \<and> j_runtime r \<in> set rids) jobs"

definition first_rows :: "string list \<Rightarrow> job list \<Rightarrow> job list" where
  "first_rows rids jobs =
     (let c = ready_rows rids jobs
      in filter (\<lambda>r. list_all (\<lambda>s. claim_order r \<le> claim_order s) c) c)"

definition lease_row :: "instant \<Rightarrow> string \<Rightarrow> int \<Rightarrow> int \<Rightarrow> job \<Rightarrow> job" where
  "lease_row now owner secs attempts r = r\<lparr>j_state := LEASED, j_attempts := attempts,
     j_updated_at := iso now, j_lease_owner := Some owner,
     j_lease_expires_at := Some (iso (now + usec_per_sec * secs)), j_error := None\<rparr>"

definition claim_tx ::
    "instant \<Rightarrow> nat \<Rightarrow> string \<Rightarrow> string list \<Rightarrow> int \<Rightarrow> queue_db \<Rightarrow> queue_db \<times> (bool \<times> json option) res" where
  "claim_tx now pick owner rids secs db =
     (let (js, expired) = requeue_expired now (q_jobs db); best = first_rows rids js in
      if best = [] then
        (if 0 < expired then bump_generation (set_jobs js db) else set_jobs js db,
         Inr (0 < expired, None))
      else
        (let row = best ! (pick mod length best);
             js' = upd_by j_id (j_id row) (lease_row now owner secs (j_attempts row + 1)) js
         in case row_dict (find_by j_id (j_id row) js') of
              Inl e \<Rightarrow> (db, Inl e)
            | Inr v \<Rightarrow> (bump_generation (set_jobs js' db), Inr (True, Some v))))"

text \<open>The guard \<open>heartbeat\<close> and \<open>_finish\<close> share.\<close>

definition lease_guard :: "instant \<Rightarrow> string \<Rightarrow> string \<Rightarrow> queue_db \<Rightarrow> job res" where
  "lease_guard now jid owner db =
     (case find_by j_id jid (q_jobs db) of
        None \<Rightarrow> throw FleetQueueError ''Queue lease is not owned by this caller''
      | Some row \<Rightarrow>
          if j_state row \<noteq> LEASED \<or> j_lease_owner row \<noteq> Some owner
          then throw FleetQueueError ''Queue lease is not owned by this caller''
          else res_bind (queue_time (j_lease_expires_at row)) (\<lambda>t.
            if t < now then throw FleetQueueError ''Queue lease has expired'' else Inr row))"

definition renew_row :: "instant \<Rightarrow> int \<Rightarrow> job \<Rightarrow> job" where
  "renew_row now secs r = r\<lparr>j_updated_at := iso now,
     j_lease_expires_at := Some (iso (now + usec_per_sec * secs))\<rparr>"

definition heartbeat_tx :: "instant \<Rightarrow> string \<Rightarrow> string \<Rightarrow> int \<Rightarrow> queue_db \<Rightarrow> queue_db \<times> json res" where
  "heartbeat_tx now jid owner secs db =
     (case lease_guard now jid owner db of
        Inl e \<Rightarrow> (db, Inl e)
      | Inr row \<Rightarrow>
          (let db' = bump_generation (set_jobs (upd_by j_id jid (renew_row now secs) (q_jobs db)) db)
           in (db', row_dict (find_by j_id jid (q_jobs db')))))"

definition finish_state :: "string option \<Rightarrow> bool \<Rightarrow> job \<Rightarrow> jstate" where
  "finish_state result_json retry row =
     (if result_json \<noteq> None then COMPLETE
      else if retry \<and> j_attempts row < j_max_attempts row then QUEUED else FAILED)"

definition finish_row :: "instant \<Rightarrow> jstate \<Rightarrow> string option \<Rightarrow> string option \<Rightarrow> job \<Rightarrow> job" where
  "finish_row now state result_json error r = r\<lparr>j_state := state, j_updated_at := iso now,
     j_lease_owner := None, j_lease_expires_at := None, j_result_json := result_json,
     j_error := error\<rparr>"

definition finish_tx ::
    "instant \<Rightarrow> string \<Rightarrow> string \<Rightarrow> string option \<Rightarrow> string option \<Rightarrow> bool \<Rightarrow> queue_db
      \<Rightarrow> queue_db \<times> json res" where
  "finish_tx now jid owner result_json error retry db =
     (case lease_guard now jid owner db of
        Inl e \<Rightarrow> (db, Inl e)
      | Inr row \<Rightarrow>
          (let js = upd_by j_id jid (finish_row now (finish_state result_json retry row) result_json error)
                      (q_jobs db);
               db' = bump_generation (set_jobs js db)
           in (db', row_dict (find_by j_id jid (q_jobs db')))))"

definition state_counts :: "job list \<Rightarrow> json" where
  "state_counts jobs = JObj (map (\<lambda>s. (state_text s, JInt (int (length (filter (\<lambda>r. j_state r = s) jobs)))))
     (filter (\<lambda>s. \<exists>r \<in> set jobs. j_state r = s) [COMPLETE, FAILED, LEASED, QUEUED]))"

definition reconcile_tx :: "instant \<Rightarrow> queue_db \<Rightarrow> queue_db \<times> (bool \<times> json) res" where
  "reconcile_tx now db =
     (let (js, expired) = requeue_expired now (q_jobs db);
          db' = (if 0 < expired then bump_generation (set_jobs js db) else set_jobs js db)
      in (db', Inr (0 < expired, JObj [(''reconciled_at'', JStr (iso now)),
            (''expired_leases'', JInt (int expired)), (''before'', state_counts (q_jobs db)),
            (''after'', state_counts (q_jobs db'))])))"

section \<open>Operations\<close>

text \<open>
  The mirror is rewritten after the commit (the second reading of the clock is \<open>now'\<close>) when the
  transaction says it changed something and the row it returns could be read.
\<close>

definition publish :: "(string \<Rightarrow> string) \<Rightarrow> instant \<Rightarrow> queue_store \<Rightarrow> queue_db \<times> (bool \<times> 'a) res
    \<Rightarrow> queue_store \<times> 'a res" where
  "publish H now' st tx =
     (let (db, r) = tx; st' = st\<lparr>qs_db := db\<rparr> in
      case r of Inl e \<Rightarrow> (st', Inl e)
      | Inr (changed, v) \<Rightarrow> (if changed then write_mirror H now' st' else st', Inr v))"

definition enqueue ::
    "(string \<Rightarrow> string) \<Rightarrow> instant \<Rightarrow> instant \<Rightarrow> string \<Rightarrow> string \<Rightarrow> json \<Rightarrow> string option \<Rightarrow> int \<Rightarrow> int
      \<Rightarrow> queue_store \<Rightarrow> queue_store \<times> json res" where
  "enqueue H now now' uid rid payload idem priority max_attempts st =
     (if \<not> is_exact_windows_runtime_id rid
      then (st, throw FleetQueueError ''Queue runtime_id must identify Windows PowerShell'')
      else if \<not> is_dict payload \<or> 2 * 1024 * 1024 < int (length (canonical_json_bytes payload))
      then (st, throw FleetQueueError ''Queue payload is invalid or too large'')
      else if \<not> (-100000 \<le> priority \<and> priority \<le> 100000) \<or> \<not> (1 \<le> max_attempts \<and> max_attempts \<le> 100)
      then (st, throw FleetQueueError ''Queue priority or maximum attempts is invalid'')
      else
        (let dg = digest H payload;
             key = (case idem of None \<Rightarrow> dg | Some k \<Rightarrow> if k = [] then dg else k)
         in if key = [] \<or> 256 < length key
            then (st, throw FleetQueueError ''Queue idempotency key is invalid'')
            else publish H now' st
              (enqueue_tx now uid rid (dumps payload) dg key priority max_attempts (qs_db st))))"

definition claim ::
    "(string \<Rightarrow> string) \<Rightarrow> instant \<Rightarrow> instant \<Rightarrow> nat \<Rightarrow> string \<Rightarrow> string list \<Rightarrow> int \<Rightarrow> queue_store
      \<Rightarrow> queue_store \<times> json option res" where
  "claim H now now' pick owner rids secs st =
     (if owner = [] \<or> 128 < length owner \<or> rids = [] \<or> \<not> (10 \<le> secs \<and> secs \<le> 3600)
      then (st, throw FleetQueueError ''Queue lease request is invalid'')
      else if list_ex (\<lambda>i. \<not> is_exact_windows_runtime_id i) rids
      then (st, throw FleetQueueError ''Queue lease runtime list is invalid'')
      else publish H now' st (claim_tx now pick owner rids secs (qs_db st)))"

definition heartbeat ::
    "(string \<Rightarrow> string) \<Rightarrow> instant \<Rightarrow> instant \<Rightarrow> string \<Rightarrow> string \<Rightarrow> int \<Rightarrow> queue_store
      \<Rightarrow> queue_store \<times> json res" where
  "heartbeat H now now' jid owner secs st =
     publish H now' st (map_prod id (\<lambda>r. res_bind r (\<lambda>v. Inr (True, v))) (heartbeat_tx now jid owner secs (qs_db st)))"

definition finish ::
    "(string \<Rightarrow> string) \<Rightarrow> instant \<Rightarrow> instant \<Rightarrow> string \<Rightarrow> string \<Rightarrow> json option \<Rightarrow> string option \<Rightarrow> bool
      \<Rightarrow> queue_store \<Rightarrow> queue_store \<times> json res" where
  "finish H now now' jid owner result error retry st =
     (let rj = map_option dumps_spaced result in
      if (case rj of None \<Rightarrow> False | Some t \<Rightarrow> 8 * 1024 * 1024 < int (length (utf8 t)))
      then (st, throw FleetQueueError ''Queue result is too large'')
      else publish H now' st (map_prod id (\<lambda>r. res_bind r (\<lambda>v. Inr (True, v)))
             (finish_tx now jid owner rj error retry (qs_db st))))"

definition complete ::
    "(string \<Rightarrow> string) \<Rightarrow> instant \<Rightarrow> instant \<Rightarrow> string \<Rightarrow> string \<Rightarrow> json \<Rightarrow> queue_store
      \<Rightarrow> queue_store \<times> json res" where
  "complete H now now' jid owner result st = finish H now now' jid owner (Some result) None False st"

definition fail ::
    "(string \<Rightarrow> string) \<Rightarrow> instant \<Rightarrow> instant \<Rightarrow> string \<Rightarrow> string \<Rightarrow> string \<Rightarrow> bool \<Rightarrow> queue_store
      \<Rightarrow> queue_store \<times> json res" where
  "fail H now now' jid owner error retry st =
     (if error = [] \<or> 8192 < int (length error)
      then (st, throw FleetQueueError ''Queue failure message is invalid'')
      else finish H now now' jid owner None (Some error) retry st)"

definition reconcile ::
    "(string \<Rightarrow> string) \<Rightarrow> instant \<Rightarrow> instant \<Rightarrow> queue_store \<Rightarrow> queue_store \<times> json res" where
  "reconcile H now now' st = publish H now' st (reconcile_tx now (qs_db st))"

text \<open>\<open>ORDER BY created_at DESC LIMIT ?\<close>; rows with equal times come in table order.\<close>

definition list_jobs :: "string option \<Rightarrow> int \<Rightarrow> queue_store \<Rightarrow> json list res" where
  "list_jobs state limit st =
     (if state \<noteq> None \<and> the state \<notin> state_text ` {QUEUED, LEASED, COMPLETE, FAILED}
      then throw FleetQueueError ''Queue state filter is invalid''
      else if \<not> (1 \<le> limit \<and> limit \<le> 10000)
      then throw FleetQueueError ''Queue list limit is invalid''
      else
        (let rows = filter (\<lambda>r. case state of None \<Rightarrow> True | Some s \<Rightarrow> state_text (j_state r) = s)
               (q_jobs (qs_db st))
         in res_map (\<lambda>r. row_dict (Some r))
              (take (nat limit) (rev (sort_key j_created_at (rev rows))))))"

end
