(* ===== verification/Psm_QueueInv.thy ===== *)
theory Psm_QueueInv
  imports Psm_Queue
begin

text \<open>
  What the job queue promises. \<open>job_trans\<close> is the life cycle of one job, the abstract
  specification: a job is leased, renewed, lapses or finishes. Every transaction of \<open>Psm_Queue\<close>
  refines it row by row and only ever appends fresh rows, so the invariant of the rows, the
  terminal states and the bound on the attempts follow from the life cycle by rule induction.
  The second half is about the operations and whole runs of them, crashes between the commit and
  the rewriting of the mirror included.
\<close>

section \<open>Time stamps\<close>

definition stamp :: "string \<Rightarrow> bool" where
  "stamp s = (case from_iso s of
     Some (t, off) \<Rightarrow> off = Some 0 \<and> valid_instant t \<and> iso t = s | None \<Rightarrow> False)"

lemma stamp_iso [simp]: "valid_instant t \<Longrightarrow> stamp (iso t)"
  by (simp add: stamp_def from_iso_iso)

lemma stampE:
  assumes "stamp s"
  obtains t where "valid_instant t" "s = iso t"
  using assms by (auto simp: stamp_def split: option.splits prod.splits)

lemma queue_time_iso [simp]: "valid_instant t \<Longrightarrow> queue_time (Some (iso t)) = Inr t"
  by (simp add: queue_time_def from_iso_iso to_utc_def)

section \<open>The life cycle of a job\<close>

inductive job_trans :: "job \<Rightarrow> job \<Rightarrow> bool" where
  lease: "\<lbrakk>j_state r = QUEUED; valid_instant now; valid_instant (now + usec_per_sec * secs)\<rbrakk>
    \<Longrightarrow> job_trans r (lease_row now owner secs (j_attempts r + 1) r)"
| renew: "\<lbrakk>j_state r = LEASED; valid_instant now; valid_instant (now + usec_per_sec * secs)\<rbrakk>
    \<Longrightarrow> job_trans r (renew_row now secs r)"
| lapse: "\<lbrakk>j_state r = LEASED; valid_instant now\<rbrakk>
    \<Longrightarrow> job_trans r (expire_row now (j_max_attempts r \<le> j_attempts r) r)"
| finish: "\<lbrakk>j_state r = LEASED; valid_instant now\<rbrakk>
    \<Longrightarrow> job_trans r (finish_row now (finish_state rj retry r) rj err r)"

inductive_cases job_transE: "job_trans r r'"

lemmas row_updates = lease_row_def renew_row_def expire_row_def finish_row_def

abbreviation job_transs :: "job \<Rightarrow> job \<Rightarrow> bool" where
  "job_transs \<equiv> job_trans\<^sup>*\<^sup>*"

text \<open>The columns no operation ever changes.\<close>

definition same_job :: "job \<Rightarrow> job \<Rightarrow> bool" where
  "same_job r r' \<longleftrightarrow> j_id r' = j_id r \<and> j_key r' = j_key r \<and> j_runtime r' = j_runtime r
     \<and> j_payload_json r' = j_payload_json r \<and> j_payload_sha256 r' = j_payload_sha256 r
     \<and> j_priority r' = j_priority r \<and> j_max_attempts r' = j_max_attempts r
     \<and> j_created_at r' = j_created_at r"

lemma same_job_refl [simp]: "same_job r r"
  by (simp add: same_job_def)

lemma same_job_updates [simp]:
  "same_job r (lease_row now owner secs a r)" "same_job r (renew_row now secs r)"
  "same_job r (expire_row now final r)" "same_job r (finish_row now s rj err r)"
  by (simp_all add: same_job_def row_updates)

lemma update_id [simp]:
  "j_id (lease_row now owner secs a r) = j_id r" "j_id (renew_row now secs r) = j_id r"
  "j_id (expire_row now final r) = j_id r" "j_id (finish_row now s rj err r) = j_id r"
  by (simp_all add: row_updates)

lemma job_trans_same: "job_trans r r' \<Longrightarrow> same_job r r'"
  by (auto elim!: job_transE)

lemma job_transs_same: "job_transs r r' \<Longrightarrow> same_job r r'"
  by (induction rule: rtranclp_induct) (auto dest!: job_trans_same simp: same_job_def)

text \<open>A well-formed row\<close>

definition lease_ok :: "job \<Rightarrow> bool" where
  "lease_ok r \<longleftrightarrow> (j_lease_owner r \<noteq> None \<longleftrightarrow> j_state r = LEASED)
     \<and> (j_lease_expires_at r \<noteq> None \<longleftrightarrow> j_state r = LEASED)
     \<and> (case j_lease_expires_at r of None \<Rightarrow> True | Some t \<Rightarrow> stamp t)"

definition attempts_ok :: "job \<Rightarrow> bool" where
  "attempts_ok r \<longleftrightarrow> 0 \<le> j_attempts r \<and> j_attempts r \<le> j_max_attempts r
     \<and> (j_state r = QUEUED \<longrightarrow> j_attempts r < j_max_attempts r)
     \<and> (j_state r \<noteq> QUEUED \<longrightarrow> 0 < j_attempts r)"

definition stored_ok :: "(string \<Rightarrow> string) \<Rightarrow> job \<Rightarrow> bool" where
  "stored_ok H r \<longleftrightarrow> is_exact_windows_runtime_id (j_runtime r)
     \<and> j_payload_sha256 r = H (utf8 (j_payload_json r))
     \<and> int (length (utf8 (j_payload_json r))) \<le> 2 * 1024 * 1024
     \<and> -100000 \<le> j_priority r \<and> j_priority r \<le> 100000
     \<and> 1 \<le> j_max_attempts r \<and> j_max_attempts r \<le> 100
     \<and> j_key r \<noteq> [] \<and> length (j_key r) \<le> 256 \<and> stamp (j_created_at r)"

definition job_ok :: "(string \<Rightarrow> string) \<Rightarrow> job \<Rightarrow> bool" where
  "job_ok H r \<longleftrightarrow> lease_ok r \<and> attempts_ok r \<and> stored_ok H r \<and> stamp (j_updated_at r)
     \<and> (j_result_json r \<noteq> None \<longleftrightarrow> j_state r = COMPLETE)"

lemma stored_ok_same: "same_job r r' \<Longrightarrow> stored_ok H r \<Longrightarrow> stored_ok H r'"
  by (simp add: same_job_def stored_ok_def)

lemma job_trans_ok: "job_trans r r' \<Longrightarrow> job_ok H r \<Longrightarrow> job_ok H r'"
proof (induction rule: job_trans.induct)
  case (lease r now secs owner)
  then show ?case
    by (auto simp: job_ok_def lease_ok_def attempts_ok_def stored_ok_def row_updates)
next
  case (renew r now secs)
  then show ?case
    by (auto simp: job_ok_def lease_ok_def attempts_ok_def stored_ok_def row_updates)
next
  case (lapse r now)
  then show ?case
    by (auto simp: job_ok_def lease_ok_def attempts_ok_def stored_ok_def row_updates)
next
  case (finish r now rj retry err)
  then show ?case
    by (auto simp: job_ok_def lease_ok_def attempts_ok_def stored_ok_def row_updates finish_state_def)
qed

lemma job_transs_ok: "job_transs r r' \<Longrightarrow> job_ok H r \<Longrightarrow> job_ok H r'"
  by (induction rule: rtranclp_induct) (auto intro: job_trans_ok)

lemma job_trans_live: "job_trans r r' \<Longrightarrow> j_state r \<in> {QUEUED, LEASED}"
  by (auto elim: job_transE)

lemma job_transs_terminal: "job_transs r r' \<Longrightarrow> j_state r \<in> {COMPLETE, FAILED} \<Longrightarrow> r' = r"
  by (induction rule: converse_rtranclp_induct) (auto dest: job_trans_live)

lemma job_transs_attempts: "job_transs r r' \<Longrightarrow> j_attempts r \<le> j_attempts r'"
  by (induction rule: rtranclp_induct) (auto elim!: job_transE simp: row_updates)

section \<open>Expiry is one pass over the table\<close>

lemma foldl_upd_by:
  assumes "\<And>r x. key (F r x) = key x" and "distinct (map key rows)"
  shows "foldl (\<lambda>js r. upd_by key (key r) (F r) js) js rows =
    map (\<lambda>x. case find_by key (key x) rows of Some r \<Rightarrow> F r x | None \<Rightarrow> x) js"
  using assms(2)
proof (induction rows arbitrary: js)
  case Nil
  then show ?case by (simp add: find_by_def)
next
  case (Cons r rows)
  have "find_by key (key r) rows = None" using Cons.prems by (auto simp: find_by_None)
  with Cons show ?case
    by (auto simp: upd_by_def find_by_def assms(1) split: option.splits)
qed

definition expire_if :: "instant \<Rightarrow> job \<Rightarrow> job" where
  "expire_if now r = (if lease_lapsed now r then expire_row now (j_max_attempts r \<le> j_attempts r) r else r)"

lemma requeue_expired_map:
  assumes "distinct (map j_id jobs)"
  shows "requeue_expired now jobs = (map (expire_if now) jobs, length (filter (lease_lapsed now) jobs))"
proof -
  let ?rows = "filter (lease_lapsed now) jobs"
  have d: "distinct (map j_id ?rows)" using assms by (simp add: distinct_map inj_on_def)
  have f: "find_by j_id (j_id x) ?rows = (if lease_lapsed now x then Some x else None)" if "x \<in> set jobs" for x
  proof (cases "lease_lapsed now x")
    case True
    with that d show ?thesis using jt.find_row_unique [OF d, of x] by simp
  next
    case False
    have "j_id x \<notin> j_id ` set ?rows"
      using assms that False by (auto simp: distinct_map dest: inj_onD)
    with False show ?thesis by (simp add: find_by_None)
  qed
  have "foldl (\<lambda>js r. upd_by j_id (j_id r) (expire_row now (j_max_attempts r \<le> j_attempts r)) js) jobs ?rows
      = map (expire_if now) jobs"
    unfolding foldl_upd_by [of j_id "\<lambda>r. expire_row now (j_max_attempts r \<le> j_attempts r)", OF update_id(3) d]
    by (rule map_cong [OF refl]) (simp add: f expire_if_def)
  then show ?thesis by (simp add: requeue_expired_def)
qed

lemma expire_if_id [simp]: "j_id (expire_if now r) = j_id r"
  by (simp add: expire_if_def)

lemma expire_if_trans: "valid_instant now \<Longrightarrow> job_transs r (expire_if now r)"
  by (auto simp: expire_if_def lease_lapsed_def intro: job_trans.lapse)

lemma expire_if_count: "map (expire_if now) jobs = jobs \<or> 0 < length (filter (lease_lapsed now) jobs)"
proof (cases "filter (lease_lapsed now) jobs")
  case Nil
  then have "map (expire_if now) jobs = jobs"
    by (auto simp: filter_empty_conv expire_if_def intro: map_idI)
  then show ?thesis ..
qed simp

section \<open>Transactions refine the life cycle\<close>

text \<open>
  Old rows follow the life cycle, rows are only added at the end, and the generation counts the
  committed changes.
\<close>

definition tx_step :: "(string \<Rightarrow> string) \<Rightarrow> queue_db \<Rightarrow> queue_db \<Rightarrow> bool" where
  "tx_step H db db' \<longleftrightarrow> db' = db \<or> (q_generation db' = q_generation db + 1 \<and>
     (\<exists>rows new. q_jobs db' = rows @ new \<and> list_all2 job_transs (q_jobs db) rows
        \<and> length new \<le> 1 \<and> (\<forall>r \<in> set new. job_ok H r \<and> j_attempts r = 0 \<and> j_id r \<notin> j_id ` set (q_jobs db)
             \<and> j_key r \<notin> j_key ` set (q_jobs db))))"

lemma list_all2_map_self: "(\<And>x. x \<in> set xs \<Longrightarrow> P x (f x)) \<Longrightarrow> list_all2 P xs (map f xs)"
  by (induction xs) auto

lemma tx_step_map:
  assumes "\<And>r. r \<in> set (q_jobs db) \<Longrightarrow> job_transs r (f r)"
  shows "tx_step H db (bump_generation (set_jobs (map f (q_jobs db)) db))"
proof -
  have "list_all2 job_transs (q_jobs db) (map f (q_jobs db))" using assms by (rule list_all2_map_self)
  then have "\<exists>rows new. map f (q_jobs db) = rows @ new \<and> list_all2 job_transs (q_jobs db) rows
      \<and> length new \<le> 1 \<and> (\<forall>r \<in> set new. job_ok H r \<and> j_attempts r = 0 \<and> j_id r \<notin> j_id ` set (q_jobs db)
           \<and> j_key r \<notin> j_key ` set (q_jobs db))"
    by (intro exI [of _ "map f (q_jobs db)"] exI [of _ "[]"]) simp
  then show ?thesis by (simp add: tx_step_def bump_generation_def set_jobs_def)
qed

lemma tx_step_refl [simp]: "tx_step H db db"
  by (simp add: tx_step_def)

lemma set_jobs_same [simp]: "set_jobs (q_jobs db) db = db"
  by (simp add: set_jobs_def)

lemma enqueue_tx_step:
  assumes "valid_instant now" "is_exact_windows_runtime_id rid" "sha = H (utf8 raw)"
    "int (length (utf8 raw)) \<le> 2 * 1024 * 1024" "-100000 \<le> priority" "priority \<le> 100000"
    "1 \<le> max_attempts" "max_attempts \<le> 100" "key \<noteq> []" "length key \<le> 256"
  shows "tx_step H db (fst (enqueue_tx now uid rid raw sha key priority max_attempts db))"
proof -
  have "tx_step H db (bump_generation (set_jobs (q_jobs db @ [row]) db))"
    if "job_ok H row" "j_attempts row = 0" "j_id row \<notin> j_id ` set (q_jobs db)"
      "j_key row \<notin> j_key ` set (q_jobs db)" for row
  proof -
    have "list_all2 job_transs (q_jobs db) (q_jobs db)" by (simp add: list_all2_refl)
    then have "\<exists>rows new. q_jobs db @ [row] = rows @ new \<and> list_all2 job_transs (q_jobs db) rows
        \<and> length new \<le> 1 \<and> (\<forall>r \<in> set new. job_ok H r \<and> j_attempts r = 0 \<and> j_id r \<notin> j_id ` set (q_jobs db)
             \<and> j_key r \<notin> j_key ` set (q_jobs db))"
      using that by (intro exI [of _ "q_jobs db"] exI [of _ "[row]"]) simp
    then show ?thesis by (simp add: tx_step_def bump_generation_def set_jobs_def)
  qed
  then show ?thesis
    using assms by (simp add: enqueue_tx_def Let_def find_by_None job_ok_def lease_ok_def
        attempts_ok_def stored_ok_def split: option.splits)
qed

lemma lease_guardE:
  assumes "lease_guard now jid owner db = Inr row"
  obtains t where "find_by j_id jid (q_jobs db) = Some row" "j_state row = LEASED"
    "j_lease_owner row = Some owner" "queue_time (j_lease_expires_at row) = Inr t" "now \<le> t"
  using assms by (auto simp: lease_guard_def split: option.splits if_splits)

lemma guarded_update_step:
  assumes dist: "distinct (map j_id (q_jobs db))" and row: "find_by j_id jid (q_jobs db) = Some row"
    and f: "job_trans row (f row)"
  shows "tx_step H db (bump_generation (set_jobs (upd_by j_id jid f (q_jobs db)) db))"
  unfolding upd_by_def
proof (rule tx_step_map)
  fix r
  assume "r \<in> set (q_jobs db)"
  with dist row have "j_id r = jid \<Longrightarrow> r = row" using jt.find_row_unique [OF dist, of r] by auto
  with f show "job_transs r (if j_id r = jid then f r else r)" by auto
qed

lemma heartbeat_tx_step:
  assumes "distinct (map j_id (q_jobs db))" "valid_instant now" "valid_instant (now + usec_per_sec * secs)"
  shows "tx_step H db (fst (heartbeat_tx now jid owner secs db))"
proof (cases "lease_guard now jid owner db")
  case (Inr row)
  then obtain t where r: "find_by j_id jid (q_jobs db) = Some row" "j_state row = LEASED"
    by (rule lease_guardE)
  show ?thesis
    using guarded_update_step [OF assms(1) r(1), of "renew_row now secs"] job_trans.renew [OF r(2) assms(2,3)] Inr
    by (simp add: heartbeat_tx_def Let_def)
qed (simp add: heartbeat_tx_def)

lemma finish_tx_step:
  assumes "distinct (map j_id (q_jobs db))" "valid_instant now"
  shows "tx_step H db (fst (finish_tx now jid owner rj err retry db))"
proof (cases "lease_guard now jid owner db")
  case (Inr row)
  then obtain t where r: "find_by j_id jid (q_jobs db) = Some row" "j_state row = LEASED"
    by (rule lease_guardE)
  show ?thesis
    using guarded_update_step [OF assms(1) r(1), of "finish_row now (finish_state rj retry row) rj err"]
      job_trans.finish [OF r(2) assms(2), of rj retry err] Inr
    by (simp add: finish_tx_def Let_def)
qed (simp add: finish_tx_def)

lemma reconcile_tx_step:
  assumes "distinct (map j_id (q_jobs db))" "valid_instant now"
  shows "tx_step H db (fst (reconcile_tx now db))"
  using tx_step_map [of db "expire_if now"] expire_if_trans [OF assms(2)] expire_if_count [of now "q_jobs db"]
  by (auto simp: reconcile_tx_def requeue_expired_map [OF assms(1)] Let_def)

lemma first_rows_in:
  assumes "r \<in> set (first_rows rids jobs)"
  shows "r \<in> set jobs" "j_state r = QUEUED" "j_runtime r \<in> set rids"
    "\<And>s. s \<in> set jobs \<Longrightarrow> j_state s = QUEUED \<Longrightarrow> j_runtime s \<in> set rids \<Longrightarrow> claim_order r \<le> claim_order s"
  using assms by (auto simp: first_rows_def ready_rows_def Let_def list_all_iff)

text \<open>What \<open>claim\<close> does to the table when it grants a job, and when it does not.\<close>

lemma claim_txE:
  assumes "distinct (map j_id (q_jobs db))"
  obtains (none) "claim_tx now pick owner rids secs db =
      ((if map (expire_if now) (q_jobs db) = q_jobs db then db
        else bump_generation (set_jobs (map (expire_if now) (q_jobs db)) db)),
       Inr (map (expire_if now) (q_jobs db) \<noteq> q_jobs db, None))"
    "first_rows rids (map (expire_if now) (q_jobs db)) = []"
  | (unreadable) e where "claim_tx now pick owner rids secs db = (db, Inl e)"
  | (granted) row v where "row \<in> set (first_rows rids (map (expire_if now) (q_jobs db)))"
      "claim_tx now pick owner rids secs db = (bump_generation (set_jobs
        (upd_by j_id (j_id row) (lease_row now owner secs (j_attempts row + 1))
          (map (expire_if now) (q_jobs db))) db), Inr (True, Some v))"
      "row_dict (Some (lease_row now owner secs (j_attempts row + 1) row)) = Inr v"
proof -
  let ?js = "map (expire_if now) (q_jobs db)"
  let ?best = "first_rows rids ?js"
  have cnt: "0 < length (filter (lease_lapsed now) (q_jobs db)) \<longleftrightarrow> ?js \<noteq> q_jobs db"
  proof
    assume "0 < length (filter (lease_lapsed now) (q_jobs db))"
    then obtain r where "r \<in> set (q_jobs db)" "lease_lapsed now r"
      by (auto simp: filter_empty_conv)
    moreover from this(2) have "j_state (expire_if now r) \<noteq> j_state r"
      by (auto simp: expire_if_def expire_row_def lease_lapsed_def)
    ultimately show "?js \<noteq> q_jobs db" by (metis map_eq_conv list.map_ident)
  qed (use expire_if_count [of now "q_jobs db"] in auto)
  show ?thesis
  proof (cases "?best = []")
    case True
    then show ?thesis
      using none cnt by (auto simp: claim_tx_def requeue_expired_map [OF assms] Let_def)
  next
    case False
    define row where "row = ?best ! (pick mod length ?best)"
    let ?js' = "upd_by j_id (j_id row) (lease_row now owner secs (j_attempts row + 1)) ?js"
    have row: "row \<in> set ?best" using False by (simp add: row_def)
    have d: "distinct (map j_id ?js)" using assms by (simp add: comp_def)
    have "find_by j_id (j_id row) ?js = Some row"
      using jt.find_row_unique [OF d first_rows_in(1) [OF row]] .
    then have f: "find_by j_id (j_id row) ?js' = Some (lease_row now owner secs (j_attempts row + 1) row)"
      by (subst jt.find_upd_row [OF d]) simp_all
    have "claim_tx now pick owner rids secs db =
        (case row_dict (Some (lease_row now owner secs (j_attempts row + 1) row)) of Inl e \<Rightarrow> (db, Inl e)
         | Inr v \<Rightarrow> (bump_generation (set_jobs ?js' db), Inr (True, Some v)))"
      unfolding f [symmetric]
      using False by (simp add: claim_tx_def requeue_expired_map [OF assms] Let_def flip: row_def)
    then show ?thesis
      using unreadable granted [OF row]
      by (cases "row_dict (Some (lease_row now owner secs (j_attempts row + 1) row))") simp_all
  qed
qed

lemma claim_tx_step:
  assumes dist: "distinct (map j_id (q_jobs db))"
    and now: "valid_instant now" "valid_instant (now + usec_per_sec * secs)"
  shows "tx_step H db (fst (claim_tx now pick owner rids secs db))"
  using dist
proof (cases rule: claim_txE [where now = now and pick = pick and owner = owner and rids = rids and secs = secs])
  case none
  then show ?thesis using tx_step_map [of db "expire_if now"] expire_if_trans [OF now(1)] by simp
next
  case (granted row v)
  have d: "distinct (map j_id (map (expire_if now) (q_jobs db)))" using dist by (simp add: comp_def)
  have "job_transs r (if j_id (expire_if now r) = j_id row
      then lease_row now owner secs (j_attempts row + 1) (expire_if now r) else expire_if now r)"
    if r: "r \<in> set (q_jobs db)" for r
  proof (cases "j_id (expire_if now r) = j_id row")
    case True
    moreover have "row \<in> set (map (expire_if now) (q_jobs db))" using first_rows_in(1) [OF granted(1)] .
    moreover have "expire_if now r \<in> set (map (expire_if now) (q_jobs db))" using r by simp
    ultimately have "expire_if now r = row" using d by (metis jt.find_row_unique option.inject)
    moreover have "job_trans row (lease_row now owner secs (j_attempts row + 1) row)"
      using first_rows_in(2) [OF granted(1)] now by (intro job_trans.lease)
    ultimately show ?thesis using expire_if_trans [OF now(1), of r] by simp
  qed (simp add: expire_if_trans [OF now(1)])
  then show ?thesis
    using tx_step_map [of db "\<lambda>r. if j_id (expire_if now r) = j_id row
      then lease_row now owner secs (j_attempts row + 1) (expire_if now r) else expire_if now r"] granted(2)
    by (simp add: upd_by_def comp_def)
qed simp

section \<open>The invariant of the database\<close>

definition db_ok :: "(string \<Rightarrow> string) \<Rightarrow> queue_db \<Rightarrow> bool" where
  "db_ok H db \<longleftrightarrow> distinct (map j_id (q_jobs db)) \<and> distinct (map j_key (q_jobs db))
     \<and> list_all (job_ok H) (q_jobs db) \<and> 0 \<le> q_generation db"

lemma transs_columns:
  assumes "list_all2 job_transs js rows"
  shows "map j_id rows = map j_id js" "map j_key rows = map j_key js"
proof -
  have "list_all2 same_job js rows" using assms by (rule list_all2_mono) (rule job_transs_same)
  then show "map j_id rows = map j_id js" "map j_key rows = map j_key js"
    by (induction rule: list_all2_induct) (auto simp: same_job_def)
qed

lemma transs_ok: "list_all2 job_transs js rows \<Longrightarrow> list_all (job_ok H) js \<Longrightarrow> list_all (job_ok H) rows"
  by (induction rule: list_all2_induct) (auto intro: job_transs_ok)

lemma tx_step_ok [inv_intros]:
  assumes "tx_step H db db'" "db_ok H db"
  shows "db_ok H db'"
proof (cases "db' = db")
  case False
  with assms(1) obtain rows new where r: "q_generation db' = q_generation db + 1"
    "q_jobs db' = rows @ new" "list_all2 job_transs (q_jobs db) rows" "length new \<le> 1"
    "\<forall>r \<in> set new. job_ok H r \<and> j_attempts r = 0 \<and> j_id r \<notin> j_id ` set (q_jobs db)
       \<and> j_key r \<notin> j_key ` set (q_jobs db)"
    by (auto simp: tx_step_def)
  note c = transs_columns [OF r(3)]
  have sets: "j_id ` set rows = j_id ` set (q_jobs db)" "j_key ` set rows = j_key ` set (q_jobs db)"
    using c by (metis list.set_map)+
  have "distinct (map f new)" for f :: "job \<Rightarrow> string" using r(4) by (cases new) auto
  moreover have "set (map j_id rows) \<inter> set (map j_id new) = {}" "set (map j_key rows) \<inter> set (map j_key new) = {}"
    unfolding set_map sets using r(5) by (auto simp: image_iff) metis+
  ultimately show ?thesis
    using assms(2) r(1,2,5) c transs_ok [OF r(3), of H]
    by (simp add: db_ok_def list_all_iff ball_Un)
qed (use assms in simp)

text \<open>What a step does to one job that is already there\<close>

lemma tx_step_row:
  assumes "tx_step H db db'" "db_ok H db" "find_by j_id jid (q_jobs db) = Some r"
  obtains r' where "find_by j_id jid (q_jobs db') = Some r'" "job_transs r r'"
proof (cases "db' = db")
  case True
  with assms(3) that show ?thesis by blast
next
  case False
  with assms(1) obtain rows new where r: "q_jobs db' = rows @ new"
    "list_all2 job_transs (q_jobs db) rows" by (auto simp: tx_step_def)
  from assms(3) obtain i where i: "i < length (q_jobs db)" "q_jobs db ! i = r" "j_id r = jid"
    by (auto dest!: find_by_Some simp: in_set_conv_nth)
  with r(2) have i': "i < length rows" "job_transs r (rows ! i)"
    by (auto simp: list_all2_conv_all_nth)
  then have "j_id (rows ! i) = jid" using i(3) by (auto dest: job_transs_same simp: same_job_def)
  moreover have "distinct (map j_id (q_jobs db'))" using tx_step_ok [OF assms(1,2)] by (simp add: db_ok_def)
  moreover have "rows ! i \<in> set (q_jobs db')" using i'(1) r(1) by simp
  ultimately have "find_by j_id jid (q_jobs db') = Some (rows ! i)"
    using jt.find_row_unique by blast
  with i'(2) that show ?thesis by blast
qed

lemma tx_step_generation: "tx_step H db db' \<Longrightarrow> q_generation db \<le> q_generation db'"
  by (auto simp: tx_step_def)

section \<open>Operations and runs\<close>

datatype queue_op =
    OpEnqueue string string json "string option" int int
  | OpClaim nat string "string list" int
  | OpHeartbeat string string int
  | OpComplete string string json
  | OpFail string string string bool
  | OpReconcile

fun op_time_ok :: "instant \<Rightarrow> queue_op \<Rightarrow> bool" where
  "op_time_ok now (OpClaim pick owner rids secs) \<longleftrightarrow>
     valid_instant now \<and> valid_instant (now + usec_per_sec * secs)"
| "op_time_ok now (OpHeartbeat jid owner secs) \<longleftrightarrow>
     valid_instant now \<and> valid_instant (now + usec_per_sec * secs)"
| "op_time_ok now _ \<longleftrightarrow> valid_instant now"

fun exec :: "(string \<Rightarrow> string) \<Rightarrow> instant \<Rightarrow> instant \<Rightarrow> queue_op \<Rightarrow> queue_store
    \<Rightarrow> queue_store \<times> json res" where
  "exec H now now' (OpEnqueue uid rid payload idem priority m) st =
     enqueue H now now' uid rid payload idem priority m st"
| "exec H now now' (OpClaim pick owner rids secs) st =
     map_prod id (\<lambda>r. res_bind r (\<lambda>v. Inr (case v of None \<Rightarrow> JNull | Some x \<Rightarrow> x)))
       (claim H now now' pick owner rids secs st)"
| "exec H now now' (OpHeartbeat jid owner secs) st = heartbeat H now now' jid owner secs st"
| "exec H now now' (OpComplete jid owner result) st = complete H now now' jid owner result st"
| "exec H now now' (OpFail jid owner err retry) st = fail H now now' jid owner err retry st"
| "exec H now now' OpReconcile st = reconcile H now now' st"

lemma publish_db [simp]: "qs_db (fst (publish H now' st tx)) = fst tx"
  by (cases tx) (auto simp: publish_def write_mirror_def Let_def split: sum.splits)

lemma publish_name [simp]: "qs_name (fst (publish H now' st tx)) = qs_name st"
  by (cases tx) (auto simp: publish_def write_mirror_def Let_def split: sum.splits)

text \<open>Whatever an operation does, the mirror is the old one or the projection of the new database.\<close>

definition mirror_moves :: "(string \<Rightarrow> string) \<Rightarrow> instant \<Rightarrow> queue_store \<Rightarrow> queue_store \<Rightarrow> bool" where
  "mirror_moves H now' st st' \<longleftrightarrow> qs_mirror st' = qs_mirror st
     \<or> qs_mirror st' = Mirror (mirror_payload H (qs_name st) now' (qs_db st'))"

lemma mirror_moves_refl [simp]: "mirror_moves H now' st st"
  by (simp add: mirror_moves_def)

lemma mirror_moves_publish [simp]: "mirror_moves H now' st (fst (publish H now' st tx))"
  by (cases tx) (auto simp: mirror_moves_def publish_def write_mirror_def Let_def split: sum.splits)

lemmas op_defs = enqueue_def claim_def heartbeat_def complete_def fail_def finish_def reconcile_def

lemma exec_name [simp]: "qs_name (fst (exec H now now' op st)) = qs_name st"
  by (cases op) (simp_all add: op_defs Let_def)

lemma exec_mirror: "mirror_moves H now' st (fst (exec H now now' op st))"
  by (cases op) (simp_all add: op_defs Let_def split: option.splits)

lemma exec_tx_step:
  assumes ok: "db_ok H (qs_db st)" and t: "op_time_ok now op"
  shows "tx_step H (qs_db st) (qs_db (fst (exec H now now' op st)))"
proof -
  have d: "distinct (map j_id (q_jobs (qs_db st)))" using ok by (simp add: db_ok_def)
  show ?thesis
  proof (cases op)
    case (OpEnqueue uid rid payload idem priority m)
    then show ?thesis
      using t by (auto simp: enqueue_def Let_def digest_def canonical_json_bytes_def
          intro!: enqueue_tx_step split: option.splits)
  next
    case (OpClaim pick owner rids secs)
    then show ?thesis using t d by (auto simp: claim_def intro!: claim_tx_step)
  next
    case (OpHeartbeat jid owner secs)
    then show ?thesis using t d by (auto simp: heartbeat_def intro!: heartbeat_tx_step)
  next
    case (OpComplete jid owner result)
    then show ?thesis using t d by (auto simp: complete_def finish_def Let_def intro!: finish_tx_step)
  next
    case (OpFail jid owner err retry)
    then show ?thesis using t d by (auto simp: fail_def finish_def Let_def intro!: finish_tx_step)
  next
    case OpReconcile
    then show ?thesis using t d by (auto simp: reconcile_def intro!: reconcile_tx_step)
  qed
qed

text \<open>
  A process may die between the commit and the rewriting of the mirror (\<open>crash\<close>); the next one
  opens the queue again.
\<close>

inductive queue_step :: "(string \<Rightarrow> string) \<Rightarrow> queue_store \<Rightarrow> queue_store \<Rightarrow> bool" for H where
  step_op: "op_time_ok now op \<Longrightarrow> queue_step H st (fst (exec H now now' op st))"
| step_crash: "op_time_ok now op \<Longrightarrow>
    queue_step H st (st\<lparr>qs_db := qs_db (fst (exec H now now' op st))\<rparr>)"
| step_open: "queue_step H st (open_queue H now' st)"

inductive_cases queue_stepE: "queue_step H st st'"

definition fresh_queue :: "(string \<Rightarrow> string) \<Rightarrow> queue_store \<Rightarrow> bool" where
  "fresh_queue H st \<longleftrightarrow> (\<exists>now name m. (m = NoMirror \<or> m = BadMirror) \<and> st = create_queue H now name m)"

text \<open>The mirror is a projection of this database, or of an older generation of it.\<close>

definition mirror_of :: "(string \<Rightarrow> string) \<Rightarrow> string \<Rightarrow> queue_db \<Rightarrow> mirror_file \<Rightarrow> bool" where
  "mirror_of H name db m \<longleftrightarrow> (\<exists>t db0. m = Mirror (mirror_payload H name t db0)
     \<and> 0 \<le> q_generation db0 \<and> q_generation db0 \<le> q_generation db
     \<and> (q_generation db0 = q_generation db \<longrightarrow> db0 = db))"

definition queue_ok :: "(string \<Rightarrow> string) \<Rightarrow> queue_store \<Rightarrow> bool" where
  "queue_ok H st \<longleftrightarrow> db_ok H (qs_db st) \<and> mirror_of H (qs_name st) (qs_db st) (qs_mirror st)"

lemma mirror_of_self: "0 \<le> q_generation db \<Longrightarrow> mirror_of H name db (Mirror (mirror_payload H name t db))"
  by (auto simp: mirror_of_def)

lemma mirror_of_step: "tx_step H db db' \<Longrightarrow> mirror_of H name db m \<Longrightarrow> mirror_of H name db' m"
proof -
  assume step: "tx_step H db db'" and m0: "mirror_of H name db m"
  then obtain t db0 where m: "m = Mirror (mirror_payload H name t db0)" "0 \<le> q_generation db0"
      "q_generation db0 \<le> q_generation db" "q_generation db0 = q_generation db \<longrightarrow> db0 = db"
    unfolding mirror_of_def by (elim exE conjE) (rule that)
  from step consider "db' = db" | "q_generation db' = q_generation db + 1" unfolding tx_step_def by blast
  then show "mirror_of H name db' m"
  proof cases
    case 1
    with m0 show ?thesis by simp
  next
    case 2
    with m(3) have "q_generation db0 \<le> q_generation db'" "q_generation db0 \<noteq> q_generation db'" by simp_all
    with m(1,2) show ?thesis unfolding mirror_of_def by blast
  qed
qed

lemma exec_ok [inv_intros]:
  assumes "queue_ok H st" "op_time_ok now op"
  shows "queue_ok H (fst (exec H now now' op st))"
proof -
  have ts: "tx_step H (qs_db st) (qs_db (fst (exec H now now' op st)))"
    using assms by (intro exec_tx_step) (simp_all add: queue_ok_def)
  have ok: "db_ok H (qs_db (fst (exec H now now' op st)))"
    using tx_step_ok [OF ts] assms(1) by (simp add: queue_ok_def)
  moreover have "mirror_of H (qs_name st) (qs_db (fst (exec H now now' op st)))
      (qs_mirror (fst (exec H now now' op st)))"
    using exec_mirror [of H now' st now op] unfolding mirror_moves_def
  proof
    assume "qs_mirror (fst (exec H now now' op st)) = qs_mirror st"
    then show ?thesis using mirror_of_step [OF ts] assms(1) by (simp add: queue_ok_def)
  next
    assume "qs_mirror (fst (exec H now now' op st)) =
       Mirror (mirror_payload H (qs_name st) now' (qs_db (fst (exec H now now' op st))))"
    then show ?thesis using ok by (simp only:) (intro mirror_of_self, simp add: db_ok_def)
  qed
  ultimately show ?thesis by (simp add: queue_ok_def)
qed

lemma write_mirror_ok [inv_intros]: "db_ok H (qs_db st) \<Longrightarrow> queue_ok H (write_mirror H now st)"
  by (auto simp: queue_ok_def write_mirror_def db_ok_def intro: mirror_of_self)

lemma open_ok [inv_intros]: "queue_ok H st \<Longrightarrow> queue_ok H (open_queue H now st)"
proof -
  assume q: "queue_ok H st"
  then have "queue_ok H (write_mirror H now st)" by (intro write_mirror_ok) (simp add: queue_ok_def)
  with q show ?thesis
    by (simp add: open_queue_def refresh_mirror_if_needed_def split: sum.splits option.splits)
qed

lemma fresh_ok: "fresh_queue H st \<Longrightarrow> queue_ok H st"
proof -
  assume "fresh_queue H st"
  then obtain now name m where m: "m = NoMirror \<or> m = BadMirror" "st = create_queue H now name m"
    by (auto simp: fresh_queue_def)
  then have "st = write_mirror H now \<lparr>qs_name = name, qs_db = \<lparr>q_jobs = [], q_generation = 0\<rparr>, qs_mirror = m\<rparr>"
    by (auto simp: create_queue_def refresh_mirror_if_needed_def mirror_def)
  then show ?thesis by (auto intro!: write_mirror_ok simp: db_ok_def)
qed

lemma queue_step_ok: "queue_ok H st \<Longrightarrow> queue_step H st st' \<Longrightarrow> queue_ok H st'"
proof (erule queue_stepE)
  fix now op now'
  assume q: "queue_ok H st" and t: "op_time_ok now op"
    and st': "st' = st\<lparr>qs_db := qs_db (fst (exec H now now' op st))\<rparr>"
  then have ts: "tx_step H (qs_db st) (qs_db (fst (exec H now now' op st)))"
    by (intro exec_tx_step) (simp_all add: queue_ok_def)
  from q st' show "queue_ok H st'"
    using tx_step_ok [OF ts] mirror_of_step [OF ts] by (simp add: queue_ok_def)
qed (auto intro: exec_ok open_ok)

interpretation queue: step_system "fresh_queue H" "queue_step H" "queue_ok H" for H
  by unfold_locales (auto intro: fresh_ok queue_step_ok)

lemma open_db [simp]: "qs_db (open_queue H now st) = qs_db st"
  by (simp add: open_queue_def refresh_mirror_if_needed_def write_mirror_def split: sum.splits option.splits)

lemma queue_step_tx: "queue_ok H st \<Longrightarrow> queue_step H st st' \<Longrightarrow> tx_step H (qs_db st) (qs_db st')"
  by (erule queue_stepE) (auto simp: queue_ok_def intro: exec_tx_step)

text \<open>The fate of one job along a run\<close>

lemma run_row:
  assumes "(queue_step H)\<^sup>*\<^sup>* st st'" "queue_ok H st" "find_by j_id jid (q_jobs (qs_db st)) = Some r"
  shows "\<exists>r'. find_by j_id jid (q_jobs (qs_db st')) = Some r' \<and> job_transs r r'"
  using assms(1)
proof (induction rule: rtranclp_induct)
  case base
  show ?case using assms(3) by blast
next
  case (step y z)
  then obtain r1 where r1: "find_by j_id jid (q_jobs (qs_db y)) = Some r1" "job_transs r r1" by blast
  have y: "queue_ok H y" using step.hyps(1) assms(2) by (rule queue.steps_inv)
  with step.hyps(2) have ts: "tx_step H (qs_db y) (qs_db z)" by (rule queue_step_tx [rotated])
  have "db_ok H (qs_db y)" using y by (simp add: queue_ok_def)
  from tx_step_row [OF ts this r1(1)] obtain r2 where
    "find_by j_id jid (q_jobs (qs_db z)) = Some r2" "job_transs r1 r2" by blast
  with r1(2) show ?case by auto
qed

end
