(* ===== verification/Psm_QueueProps.thy ===== *)
theory Psm_QueueProps
  imports Psm_QueueInv
begin

text \<open>
  The properties of the job queue: the finality of finished jobs, the bound on the number of leases,
  exclusive leases, the order of claims, and expiry. Each is stated over the operations of \<open>Psm_Queue\<close>;
  the supporting lemmas come first.
\<close>

section \<open>Supporting lemmas\<close>

abbreviation row_of :: "string \<Rightarrow> queue_store \<Rightarrow> job option" where
  "row_of jid st \<equiv> find_by j_id jid (q_jobs (qs_db st))"

definition lease_held :: "instant \<Rightarrow> string \<Rightarrow> string \<Rightarrow> queue_store \<Rightarrow> bool" where
  "lease_held now jid owner st = (case row_of jid st of None \<Rightarrow> False
     | Some r \<Rightarrow> j_state r = LEASED \<and> j_lease_owner r = Some owner \<and> \<not> lease_lapsed now r)"

lemma lease_lapsed_iso:
  assumes "j_state r = LEASED" "j_lease_expires_at r = Some (iso e)" "valid_instant e" "valid_instant now"
  shows "lease_lapsed now r \<longleftrightarrow> e < now"
  using assms by (simp add: lease_lapsed_def)

lemma leased_expiry:
  assumes "lease_ok r" "j_state r = LEASED"
  obtains e where "valid_instant e" "j_lease_expires_at r = Some (iso e)"
proof -
  from assms obtain t where "j_lease_expires_at r = Some t" "stamp t" by (auto simp: lease_ok_def)
  with that show ?thesis by (auto elim: stampE)
qed

lemma db_ok_row: "db_ok H db \<Longrightarrow> find_by j_id jid (q_jobs db) = Some r \<Longrightarrow> job_ok H r"
  by (auto simp: db_ok_def list_all_iff dest: find_by_Some)

text \<open>On well-formed rows the guard is exactly the holding of an unexpired lease.\<close>

lemma lease_guard_iff:
  assumes "db_ok H (qs_db st)" "valid_instant now"
  shows "lease_held now jid owner st \<Longrightarrow> \<exists>r. row_of jid st = Some r \<and> lease_guard now jid owner (qs_db st) = Inr r"
    and "\<not> lease_held now jid owner st \<Longrightarrow> \<exists>m. lease_guard now jid owner (qs_db st) = throw FleetQueueError m"
proof -
  have e: "\<exists>e. valid_instant e \<and> j_lease_expires_at r = Some (iso e)"
    if "row_of jid st = Some r" "j_state r = LEASED" for r
    using db_ok_row [OF assms(1) that(1)] that(2) by (auto simp: job_ok_def elim: leased_expiry)
  show "\<exists>r. row_of jid st = Some r \<and> lease_guard now jid owner (qs_db st) = Inr r"
    if "lease_held now jid owner st"
    using that e assms(2) by (fastforce simp: lease_held_def lease_guard_def lease_lapsed_def split: option.splits)
  show "\<exists>m. lease_guard now jid owner (qs_db st) = throw FleetQueueError m"
    if "\<not> lease_held now jid owner st"
    using that e assms(2) by (fastforce simp: lease_held_def lease_guard_def lease_lapsed_def split: option.splits)
qed

text \<open>The job an operation acts on as a lease holder\<close>

fun acting_on :: "queue_op \<Rightarrow> (string \<times> string) option" where
  "acting_on (OpHeartbeat jid owner secs) = Some (jid, owner)"
| "acting_on (OpComplete jid owner result) = Some (jid, owner)"
| "acting_on (OpFail jid owner err retry) = Some (jid, owner)"
| "acting_on _ = None"

lemma exec_refused:
  assumes "db_ok H (qs_db st)" "op_time_ok now op" "acting_on op = Some (jid, owner)"
    "\<not> lease_held now jid owner st"
  shows "\<exists>m. exec H now now' op st = (st, throw FleetQueueError m)"
proof -
  have "valid_instant now" using assms(2) by (cases op) auto
  then obtain m where m: "lease_guard now jid owner (qs_db st) = throw FleetQueueError m"
    using lease_guard_iff(2) [OF assms(1) _ assms(4)] by blast
  show ?thesis
    using assms(3) m
    by (cases op) (auto simp: op_defs heartbeat_tx_def finish_tx_def publish_def Let_def)
qed

lemma row_other:
  assumes "db_ok H db" "jid' \<noteq> jid" "\<And>r. j_id (f r) = j_id r"
  shows "find_by j_id jid (upd_by j_id jid' f (q_jobs db)) = find_by j_id jid (q_jobs db)"
  using assms by (subst jt.find_upd_row) (auto simp: db_ok_def)

lemma find_map_expire:
  "find_by j_id jid (map (expire_if now) js) = map_option (expire_if now) (find_by j_id jid js)"
  by (induction js) (auto simp: find_by_def)

lemma find_append_old:
  "find_by key k xs = Some r \<Longrightarrow> find_by key k (xs @ ys) = Some r"
  by (induction xs) (auto simp: find_by_def)

lemma exec_other_row:
  assumes ok: "db_ok H (qs_db st)" and t: "op_time_ok now op"
    and row: "row_of jid st = Some r" and held: "lease_held now jid owner st"
    and op: "acting_on op \<noteq> Some (jid, owner)"
  shows "row_of jid (fst (exec H now now' op st)) = Some r"
proof -
  have d: "distinct (map j_id (q_jobs (qs_db st)))" using ok by (simp add: db_ok_def)
  have r: "j_state r = LEASED" "j_lease_owner r = Some owner" "\<not> lease_lapsed now r"
    using row held by (auto simp: lease_held_def)
  have e: "expire_if now r = r" using r(3) by (simp add: expire_if_def)
  show ?thesis
  proof (cases "acting_on op")
    case (Some a)
    obtain jid' owner' where a: "acting_on op = Some (jid', owner')" using Some by (cases a) auto
    show ?thesis
    proof (cases "lease_held now jid' owner' st")
      case False
      from exec_refused [OF ok t a this, of now'] row show ?thesis by auto
    next
      case True
      have "jid' \<noteq> jid"
      proof
        assume "jid' = jid"
        with True row r(2) have "owner' = owner" by (auto simp: lease_held_def)
        with a op \<open>jid' = jid\<close> show False by simp
      qed
      with a row ok show ?thesis
        by (cases op) (auto simp: op_defs heartbeat_tx_def finish_tx_def Let_def row_other
            bump_generation_def set_jobs_def split: sum.splits)
    qed
  next
    case None
    show ?thesis
    proof (cases op)
      case (OpClaim pick o' rids secs)
      from d show ?thesis
      proof (cases rule: claim_txE [where now = now and pick = pick and owner = o' and rids = rids and secs = secs])
        case none
        with OpClaim row e show ?thesis
          by (auto simp: claim_def bump_generation_def set_jobs_def find_map_expire)
      next
        case (unreadable x)
        with OpClaim row show ?thesis by (simp add: claim_def)
      next
        case (granted row' v)
        have "j_id row' \<noteq> jid"
        proof
          assume id: "j_id row' = jid"
          have "row' \<in> set (map (expire_if now) (q_jobs (qs_db st)))" by (rule first_rows_in(1) [OF granted(1)])
          moreover have "distinct (map j_id (map (expire_if now) (q_jobs (qs_db st))))"
            using d by (simp add: comp_def)
          ultimately have "find_by j_id jid (map (expire_if now) (q_jobs (qs_db st))) = Some row'"
            using id jt.find_row_unique by blast
          with row e have "row' = r" by (simp add: find_map_expire)
          with first_rows_in(2) [OF granted(1)] r(1) show False by simp
        qed
        moreover have "distinct (map j_id (map (expire_if now) (q_jobs (qs_db st))))"
          using d by (simp add: comp_def)
        ultimately show ?thesis
          using OpClaim granted(2) row e
          by (auto simp: claim_def bump_generation_def set_jobs_def jt.find_upd_row find_map_expire)
      qed
    next
      case (OpEnqueue uid rid payload idem priority m)
      with row show ?thesis
        by (auto simp: enqueue_def enqueue_tx_def Let_def bump_generation_def set_jobs_def find_append_old
            split: option.splits)
    next
      case OpReconcile
      with row e d show ?thesis
        by (auto simp: reconcile_def reconcile_tx_def requeue_expired_map bump_generation_def set_jobs_def
            find_map_expire)
    qed (use None in simp_all)
  qed
qed

text \<open>A small queue for the concrete instances below\<close>

definition demo_H :: "string \<Rightarrow> string" where
  "demo_H s = ''d''"

definition demo_empty :: queue_store where
  "demo_empty = create_queue demo_H 0 ''q.db'' NoMirror"

definition demo_job :: "jstate \<Rightarrow> int \<Rightarrow> job" where
  "demo_job s a = \<lparr>j_id = ''j'', j_key = ''k'', j_runtime = ''windows-powershell-5.1'',
     j_payload_json = ''{}'', j_payload_sha256 = ''d'', j_state = s, j_priority = 5,
     j_attempts = a, j_max_attempts = 2, j_created_at = iso 0, j_updated_at = iso 0,
     j_lease_owner = (if s = LEASED then Some ''w'' else None),
     j_lease_expires_at = (if s = LEASED then Some (iso 60000000) else None),
     j_result_json = (if s = COMPLETE then Some ''{}'' else None), j_error = None\<rparr>"

definition demo_store :: "jstate \<Rightarrow> int \<Rightarrow> queue_store" where
  "demo_store s a = write_mirror demo_H 0
     \<lparr>qs_name = ''q.db'', qs_db = \<lparr>q_jobs = [demo_job s a], q_generation = 1\<rparr>, qs_mirror = NoMirror\<rparr>"

lemma demo_job_ok: "job_ok demo_H (demo_job QUEUED 0)" "job_ok demo_H (demo_job LEASED 1)"
  "job_ok demo_H (demo_job COMPLETE 1)"
  by code_simp+

lemma demo_store_ok [simp]: "queue_ok demo_H (demo_store QUEUED 0)" "queue_ok demo_H (demo_store LEASED 1)"
  "queue_ok demo_H (demo_store COMPLETE 1)"
  unfolding demo_store_def by (rule write_mirror_ok, simp add: db_ok_def demo_job_ok)+

lemma demo_store_db [simp]: "qs_db (demo_store s a) = \<lparr>q_jobs = [demo_job s a], q_generation = 1\<rparr>"
  by (simp add: demo_store_def write_mirror_def)

lemma demo_row [simp]: "row_of ''j'' (demo_store s a) = Some (demo_job s a)"
  by (simp add: find_by_def demo_job_def)

lemma demo_find [simp]: "find_by j_id ''j'' [demo_job s a] = Some (demo_job s a)"
  by (simp add: find_by_def demo_job_def)

lemma demo_run: "op_time_ok 0 op \<Longrightarrow> (queue_step demo_H)\<^sup>*\<^sup>* st (fst (exec demo_H 0 0 op st))"
  by (intro r_into_rtranclp queue_step.step_op)

lemma demo_fresh: "fresh_queue demo_H demo_empty"
  by (auto simp: fresh_queue_def demo_empty_def)

section \<open>What every run keeps\<close>

text \<open>C3: A job that was completed or has failed never changes again and is never removed, by
  any run of the queue.\<close>

theorem finished_jobs_final:
  assumes "queue_ok H st" and "(queue_step H)\<^sup>*\<^sup>* st st'"
    and "row_of jid st = Some r" and "j_state r = COMPLETE \<or> j_state r = FAILED"
  shows "row_of jid st' = Some r"
  using run_row [OF assms(2,1,3)] assms(4) by (auto dest: job_transs_terminal)

theorem finished_jobs_final_witness:
  "row_of ''j'' (fst (exec demo_H 0 0 (OpFail ''j'' ''w'' ''boom'' True) (demo_store COMPLETE 1)))
     = Some (demo_job COMPLETE 1)"
proof (rule finished_jobs_final [OF demo_store_ok(3) demo_run demo_row])
  show "j_state (demo_job COMPLETE 1) = COMPLETE \<or> j_state (demo_job COMPLETE 1) = FAILED"
    by (simp add: demo_job_def)
qed (simp add: valid_instant_def)

text \<open>C2: While a caller holds an unexpired lease, no operation that is not this caller's own
  heartbeat, completion or failure of that job touches the job's row.\<close>

theorem lease_exclusive:
  assumes "queue_ok H st" and "op_time_ok now op" and "lease_held now jid owner st"
    and "row_of jid st = Some r" and "acting_on op \<noteq> Some (jid, owner)"
  shows "row_of jid (fst (exec H now now' op st)) = Some r"
  using assms by (intro exec_other_row) (auto simp: queue_ok_def)

theorem lease_exclusive_witness:
  "row_of ''j'' (fst (exec demo_H 1 2 (OpComplete ''j'' ''other'' (JObj [])) (demo_store LEASED 1)))
     = Some (demo_job LEASED 1)"
proof (rule lease_exclusive [where H = demo_H and owner = "''w''" and st = "demo_store LEASED 1"])
  show "lease_held 1 ''j'' ''w'' (demo_store LEASED 1)"
    unfolding lease_held_def demo_row option.case by code_simp
qed (simp_all add: valid_instant_def)

text \<open>C6: A heartbeat, completion or failure by a caller that does not hold an unexpired lease on
  the job (wrong owner, lapsed lease, finished, queued or unknown job) raises
  \<open>FleetQueueError\<close> and leaves database and mirror as they were.\<close>

theorem refused_without_lease:
  assumes "queue_ok H st" and "op_time_ok now op" and "acting_on op = Some (jid, owner)"
    and "\<not> lease_held now jid owner st"
  shows "\<exists>m. exec H now now' op st = (st, throw FleetQueueError m)"
  using assms by (intro exec_refused) (auto simp: queue_ok_def)

theorem refused_without_lease_witness:
  "\<exists>m. exec demo_H 0 0 (OpHeartbeat ''j'' ''w'' 60) (demo_store QUEUED 0)
     = (demo_store QUEUED 0, throw FleetQueueError m)"
proof (rule refused_without_lease [where jid = "''j''" and owner = "''w''"])
  show "\<not> lease_held 0 ''j'' ''w'' (demo_store QUEUED 0)"
    unfolding lease_held_def demo_row by (simp add: demo_job_def)
qed (simp_all add: valid_instant_def)

text \<open>Every operation either leaves the database alone or advances the generation by exactly
  one; an operation never lowers it.\<close>

lemma generation_counts_changes:
  assumes "queue_ok H st" and "op_time_ok now op"
  shows "qs_db (fst (exec H now now' op st)) = qs_db st
    \<or> q_generation (qs_db (fst (exec H now now' op st))) = q_generation (qs_db st) + 1"
  using exec_tx_step [of H st now op now'] assms by (auto simp: queue_ok_def tx_step_def)

lemma generation_counts_changes_witness:
  "qs_db (fst (exec demo_H 0 0 OpReconcile (demo_store LEASED 1))) = qs_db (demo_store LEASED 1)
   \<or> q_generation (qs_db (fst (exec demo_H 0 0 OpReconcile (demo_store LEASED 1))))
       = q_generation (qs_db (demo_store LEASED 1)) + 1"
  by (rule generation_counts_changes) (simp_all add: valid_instant_def)

section \<open>Leases and attempts\<close>

text \<open>How often a job was granted along a run\<close>

fun granted :: "string \<Rightarrow> queue_op \<Rightarrow> json res \<Rightarrow> bool" where
  "granted jid (OpClaim pick owner rids secs) (Inr v) \<longleftrightarrow> get_none ''job_id'' v = JStr jid"
| "granted jid op r \<longleftrightarrow> False"

type_synonym timed_op = "instant \<times> instant \<times> queue_op"

fun run :: "(string \<Rightarrow> string) \<Rightarrow> timed_op list \<Rightarrow> queue_store \<Rightarrow> queue_store" where
  "run H [] st = st"
| "run H ((now, now', op) # ops) st = run H ops (fst (exec H now now' op st))"

fun grants :: "(string \<Rightarrow> string) \<Rightarrow> string \<Rightarrow> timed_op list \<Rightarrow> queue_store \<Rightarrow> nat" where
  "grants H jid [] st = 0"
| "grants H jid ((now, now', op) # ops) st =
     (if granted jid op (snd (exec H now now' op st)) then 1 else 0)
     + grants H jid ops (fst (exec H now now' op st))"

definition attempts_of :: "string \<Rightarrow> queue_db \<Rightarrow> int" where
  "attempts_of jid db = (case find_by j_id jid (q_jobs db) of None \<Rightarrow> 0 | Some r \<Rightarrow> j_attempts r)"

lemma row_dictE:
  assumes "row_dict (Some r) = Inr v"
  obtains p q where "json_loads (j_payload_json r) = Inr p"
    "v = jset ''result'' q (jdel ''result_json'' (jset ''payload'' p (jdel ''payload_json'' (raw_row r))))"
  using assms unfolding row_dict_def option.case res_bind_eq_Inr
  by (elim exE conjE) (simp only: sum.inject, metis)

lemma raw_row_id: "get_none ''job_id'' (raw_row r) = JStr (j_id r)"
  by (simp add: raw_row_def get_or_def)

lemma row_dict_id:
  assumes "row_dict (Some r) = Inr v"
  shows "get_none ''job_id'' v = JStr (j_id r)"
  using assms by (rule row_dictE) (simp add: raw_row_id)

lemma attempts_mono:
  assumes "tx_step H db db'" "db_ok H db"
  shows "attempts_of jid db \<le> attempts_of jid db'"
proof (cases "find_by j_id jid (q_jobs db)")
  case None
  have "0 \<le> attempts_of jid db'"
    using db_ok_row [OF tx_step_ok [OF assms]]
    by (auto simp: attempts_of_def job_ok_def attempts_ok_def split: option.splits)
  with None show ?thesis by (simp add: attempts_of_def)
next
  case (Some r)
  from tx_step_row [OF assms Some] obtain r' where
    r': "find_by j_id jid (q_jobs db') = Some r'" "job_transs r r'" .
  from job_transs_attempts [OF r'(2)] Some r'(1) show ?thesis by (simp add: attempts_of_def)
qed

text \<open>What a granting claim did\<close>

lemma claim_grants:
  assumes ok: "db_ok H (qs_db st)" and v: "snd (claim H now now' pick owner rids secs st) = Inr (Some v)"
  obtains row where "row \<in> set (first_rows rids (map (expire_if now) (q_jobs (qs_db st))))"
    "get_none ''job_id'' v = JStr (j_id row)"
    "row_dict (Some (lease_row now owner secs (j_attempts row + 1) row)) = Inr v"
    "q_jobs (qs_db (fst (claim H now now' pick owner rids secs st))) =
       upd_by j_id (j_id row) (lease_row now owner secs (j_attempts row + 1))
         (map (expire_if now) (q_jobs (qs_db st)))"
proof -
  from v have e: "claim H now now' pick owner rids secs st =
      publish H now' st (claim_tx now pick owner rids secs (qs_db st))"
    by (auto simp: claim_def split: if_splits)
  have d: "distinct (map j_id (q_jobs (qs_db st)))" using ok by (simp add: db_ok_def)
  then show thesis
  proof (cases rule: claim_txE [where now = now and pick = pick and owner = owner and rids = rids and secs = secs])
    case none
    with v e show thesis by (auto simp: publish_def Let_def split: if_splits)
  next
    case (unreadable x)
    with v e show thesis by (auto simp: publish_def Let_def)
  next
    case (granted row v')
    with v e have "v' = v" by (auto simp: publish_def Let_def)
    with granted e row_dict_id [OF granted(3)] that show thesis
      by (auto simp: bump_generation_def set_jobs_def)
  qed
qed

lemma claimed_row:
  assumes ok: "db_ok H (qs_db st)"
    and row: "row \<in> set (first_rows rids (map (expire_if now) (q_jobs (qs_db st))))"
    and f: "\<And>r. j_id (f r) = j_id r"
  shows "find_by j_id (j_id row) (upd_by j_id (j_id row) f (map (expire_if now) (q_jobs (qs_db st)))) = Some (f row)"
    and "\<exists>r. row_of (j_id row) st = Some r \<and> row = expire_if now r"
proof -
  have d: "distinct (map j_id (map (expire_if now) (q_jobs (qs_db st))))"
    using ok by (simp add: db_ok_def comp_def)
  have "find_by j_id (j_id row) (map (expire_if now) (q_jobs (qs_db st))) = Some row"
    using jt.find_row_unique [OF d first_rows_in(1) [OF row]] .
  then show "find_by j_id (j_id row) (upd_by j_id (j_id row) f (map (expire_if now) (q_jobs (qs_db st)))) = Some (f row)"
    and "\<exists>r. row_of (j_id row) st = Some r \<and> row = expire_if now r"
    by (auto simp: jt.find_upd_row [OF d f] find_map_expire)
qed

lemma expire_attempts [simp]: "j_attempts (expire_if now r) = j_attempts r"
  by (simp add: expire_if_def expire_row_def)

lemma grant_attempts:
  assumes ok: "db_ok H (qs_db st)" and t: "op_time_ok now op"
  shows "attempts_of jid (qs_db st) + (if granted jid op (snd (exec H now now' op st)) then 1 else 0)
    \<le> attempts_of jid (qs_db (fst (exec H now now' op st)))"
proof (cases "granted jid op (snd (exec H now now' op st))")
  case False
  then show ?thesis using attempts_mono [OF exec_tx_step [OF ok t] ok] by simp
next
  case True
  then obtain pick owner rids secs where op: "op = OpClaim pick owner rids secs" by (cases op) auto
  with True obtain v where v: "snd (claim H now now' pick owner rids secs st) = Inr (Some v)"
    "get_none ''job_id'' v = JStr jid"
    by (cases "snd (claim H now now' pick owner rids secs st)"; cases "projr (snd (claim H now now' pick owner rids secs st))")
      (simp_all add: get_or_def jget_def)
  from claim_grants [OF ok v(1)] obtain row where
    row: "row \<in> set (first_rows rids (map (expire_if now) (q_jobs (qs_db st))))"
    "get_none ''job_id'' v = JStr (j_id row)"
    "q_jobs (qs_db (fst (claim H now now' pick owner rids secs st))) =
       upd_by j_id (j_id row) (lease_row now owner secs (j_attempts row + 1))
         (map (expire_if now) (q_jobs (qs_db st)))"
    by blast
  from row(2) v(2) have id: "j_id row = jid" by simp
  have "attempts_of jid (qs_db (fst (exec H now now' op st))) = j_attempts row + 1"
    using claimed_row(1) [OF ok row(1), of "lease_row now owner secs (j_attempts row + 1)"] row(3) id op
    by (simp add: attempts_of_def) (simp add: lease_row_def)
  moreover have "attempts_of jid (qs_db st) = j_attempts row"
    using claimed_row(2) [OF ok row(1), of "\<lambda>r. r"] id by (auto simp: attempts_of_def)
  ultimately show ?thesis by simp
qed

lemma run_grants:
  assumes "queue_ok H st" "list_all (\<lambda>(now, now', op). op_time_ok now op) ops"
  shows "attempts_of jid (qs_db st) + int (grants H jid ops st) \<le> attempts_of jid (qs_db (run H ops st))
    \<and> queue_ok H (run H ops st)"
  using assms
proof (induction H ops st rule: run.induct)
  case (2 H now now' op ops st)
  then have "queue_ok H (fst (exec H now now' op st))" by (auto intro: exec_ok)
  with 2 show ?case
    using grant_attempts [of H st now op jid now'] by (auto simp: queue_ok_def)
qed simp

text \<open>C4: Along any run of operations, a job is handed out at most \<open>max_attempts\<close> times (so at
  most 100 times), however its leases lapse, fail or are retried.\<close>

theorem grants_bounded:
  assumes "queue_ok H st" and "list_all (\<lambda>(now, now', op). op_time_ok now op) ops"
  shows "int (grants H jid ops st) \<le> (case row_of jid (run H ops st) of
    None \<Rightarrow> 0 | Some r \<Rightarrow> j_max_attempts r)"
proof -
  have g: "attempts_of jid (qs_db st) + int (grants H jid ops st) \<le> attempts_of jid (qs_db (run H ops st))"
    and ok: "queue_ok H (run H ops st)"
    using run_grants [OF assms] by auto
  have "0 \<le> attempts_of jid (qs_db st)"
    using assms(1) by (auto simp: queue_ok_def attempts_of_def job_ok_def attempts_ok_def
        dest: db_ok_row split: option.splits)
  moreover have "attempts_of jid (qs_db (run H ops st)) \<le> (case row_of jid (run H ops st) of
    None \<Rightarrow> 0 | Some r \<Rightarrow> j_max_attempts r)"
    using ok by (auto simp: queue_ok_def attempts_of_def job_ok_def attempts_ok_def
        dest: db_ok_row split: option.splits)
  ultimately show ?thesis using g by simp
qed

theorem grants_bounded_witness:
  "int (grants demo_H ''j'' [(0, 0, OpClaim 0 ''w'' [''windows-powershell-5.1''] 60)] (demo_store QUEUED 0)) \<le>
   (case row_of ''j'' (run demo_H [(0, 0, OpClaim 0 ''w'' [''windows-powershell-5.1''] 60)] (demo_store QUEUED 0))
    of None \<Rightarrow> 0 | Some r \<Rightarrow> j_max_attempts r)"
  by (rule grants_bounded [OF demo_store_ok(1)]) (simp add: valid_instant_def)

section \<open>Claims\<close>

text \<open>A claim that returns a job returns one that was ready (queued, or queued again because
  its lease lapsed, with a requested runtime), such that no ready job has a higher priority, or
  the same priority and an earlier creation time; the row becomes leased by the caller until
  \<open>now + lease_seconds\<close>, with one more attempt and the old error cleared.\<close>

lemma claim_takes_first:
  assumes "queue_ok H st" and "snd (claim H now now' pick owner rids secs st) = Inr (Some v)"
  shows "\<exists>row. get_none ''job_id'' v = JStr (j_id row)
    \<and> j_state row = QUEUED \<and> j_runtime row \<in> set rids
    \<and> row \<in> set (map (expire_if now) (q_jobs (qs_db st)))
    \<and> (\<forall>s \<in> set (ready_rows rids (map (expire_if now) (q_jobs (qs_db st)))).
         j_priority s < j_priority row \<or> (j_priority s = j_priority row \<and> j_created_at row \<le> j_created_at s))
    \<and> row_of (j_id row) (fst (claim H now now' pick owner rids secs st))
        = Some (lease_row now owner secs (j_attempts row + 1) row)"
proof -
  have ok: "db_ok H (qs_db st)" using assms(1) by (simp add: queue_ok_def)
  from claim_grants [OF ok assms(2)] obtain row where
    row: "row \<in> set (first_rows rids (map (expire_if now) (q_jobs (qs_db st))))"
    "get_none ''job_id'' v = JStr (j_id row)"
    "q_jobs (qs_db (fst (claim H now now' pick owner rids secs st))) =
       upd_by j_id (j_id row) (lease_row now owner secs (j_attempts row + 1))
         (map (expire_if now) (q_jobs (qs_db st)))"
    by blast
  note f = first_rows_in [OF row(1)]
  have "j_priority s < j_priority row \<or> (j_priority s = j_priority row \<and> j_created_at row \<le> j_created_at s)"
    if "s \<in> set (ready_rows rids (map (expire_if now) (q_jobs (qs_db st))))" for s
  proof -
    have "claim_order row \<le> claim_order s" using that by (intro f(4)) (simp_all add: ready_rows_def)
    then show ?thesis by (auto simp: claim_order_def less_eq_prod_def)
  qed
  moreover have "row_of (j_id row) (fst (claim H now now' pick owner rids secs st))
      = Some (lease_row now owner secs (j_attempts row + 1) row)"
    using claimed_row(1) [OF ok row(1), of "lease_row now owner secs (j_attempts row + 1)"] row(3) by simp
  ultimately show ?thesis using f(1-3) row(2) by (intro exI [of _ row] conjI ballI) assumption+
qed

lemma demo_claim:
  "snd (claim demo_H 0 0 0 ''w'' [''windows-powershell-5.1''] 60 (demo_store QUEUED 0)) \<noteq> Inr None
   \<and> isl (snd (claim demo_H 0 0 0 ''w'' [''windows-powershell-5.1''] 60 (demo_store QUEUED 0))) = False"
proof -
  have rid: "is_exact_windows_runtime_id ''windows-powershell-5.1''" by code_simp
  have js: "q_jobs (qs_db (demo_store QUEUED 0)) = [demo_job QUEUED 0]" by simp
  have req: "requeue_expired 0 [demo_job QUEUED 0] = ([demo_job QUEUED 0], 0)"
    by (simp add: requeue_expired_def lease_lapsed_def demo_job_def)
  have first: "first_rows [''windows-powershell-5.1''] [demo_job QUEUED 0] = [demo_job QUEUED 0]"
    by (simp add: first_rows_def ready_rows_def demo_job_def)
  have p: "json_loads ''{}'' = Inr (JObj [])" by code_simp
  have "\<exists>v. row_dict (Some (lease_row 0 ''w'' 60 a (demo_job QUEUED 0))) = Inr v" for a
    using p by (simp add: row_dict_def lease_row_def demo_job_def)
  then obtain v where "row_dict (Some (lease_row 0 ''w'' 60 (j_attempts (demo_job QUEUED 0) + 1)
      (demo_job QUEUED 0))) = Inr v" by blast
  moreover have "find_by j_id ''j'' (upd_by j_id ''j'' (lease_row 0 ''w'' 60 a) [demo_job QUEUED 0])
      = Some (lease_row 0 ''w'' 60 a (demo_job QUEUED 0))" for a
    by (simp add: find_by_def upd_by_def demo_job_def lease_row_def)
  moreover have "j_id (demo_job QUEUED 0) = ''j''" by (simp add: demo_job_def)
  ultimately show ?thesis
    using rid by (auto simp: claim_def claim_tx_def js req first publish_def Let_def split: sum.splits)
qed

lemma claim_takes_first_witness:
  "\<exists>v row. get_none ''job_id'' v = JStr (j_id row) \<and> row_of (j_id row)
     (fst (claim demo_H 0 0 0 ''w'' [''windows-powershell-5.1''] 60 (demo_store QUEUED 0)))
     = Some (lease_row 0 ''w'' 60 (j_attempts row + 1) row)"
proof -
  obtain v where "snd (claim demo_H 0 0 0 ''w'' [''windows-powershell-5.1''] 60 (demo_store QUEUED 0)) = Inr (Some v)"
    using demo_claim
    by (cases "snd (claim demo_H 0 0 0 ''w'' [''windows-powershell-5.1''] 60 (demo_store QUEUED 0))") auto
  from claim_takes_first [OF demo_store_ok(1) this] show ?thesis by blast
qed

text \<open>C5: A well-formed claim request is answered with a job whenever one is ready, provided the
  payload texts of the ready jobs can be read; no ready job is passed over for ever by refusing
  claims.\<close>

theorem claim_progress:
  assumes "queue_ok H st" and "r \<in> set (ready_rows rids (map (expire_if now) (q_jobs (qs_db st))))"
    and "\<forall>s \<in> set (q_jobs (qs_db st)). loads (j_payload_json s) \<noteq> None"
    and "owner \<noteq> []" and "length owner \<le> 128" and "10 \<le> secs" and "secs \<le> 3600"
    and "list_all is_exact_windows_runtime_id rids"
  shows "\<exists>v. snd (claim H now now' pick owner rids secs st) = Inr (Some v)"
proof -
  have ok: "db_ok H (qs_db st)" using assms(1) by (simp add: queue_ok_def)
  then have d: "distinct (map j_id (q_jobs (qs_db st)))" by (simp add: db_ok_def)
  have req: "claim H now now' pick owner rids secs st = publish H now' st (claim_tx now pick owner rids secs (qs_db st))"
  proof -
    have "rids \<noteq> []" using assms(2) by (auto simp: ready_rows_def)
    moreover have "\<not> list_ex (\<lambda>i. \<not> is_exact_windows_runtime_id i) rids"
      using assms(8) by (auto simp: list_all_iff list_ex_iff)
    ultimately show ?thesis using assms(4-7) by (simp add: claim_def)
  qed
  let ?js = "map (expire_if now) (q_jobs (qs_db st))"
  have best: "first_rows rids ?js \<noteq> []"
  proof -
    define c where "c = ready_rows rids ?js"
    have "c \<noteq> []" using assms(2) by (auto simp: c_def)
    then obtain m where "m \<in> set c" "claim_order m = Min (claim_order ` set c)"
      by (metis (no_types, lifting) Min_in finite_imageI finite_set image_iff image_is_empty set_empty)
    then have "m \<in> set (first_rows rids ?js)" by (auto simp: first_rows_def c_def Let_def list_all_iff)
    then show ?thesis by auto
  qed
  have readable: "\<exists>v. row_dict (Some (lease_row now owner secs a row)) = Inr v"
    if "row \<in> set (first_rows rids ?js)" for row a
  proof -
    note f = first_rows_in [OF that]
    from f(1) obtain s where s: "s \<in> set (q_jobs (qs_db st))" "row = expire_if now s" by auto
    have "job_ok H s" using ok s(1) by (auto simp: db_ok_def list_all_iff)
    with s(2) f(2) have "j_result_json row = None"
      by (auto simp: job_ok_def expire_if_def expire_row_def lease_lapsed_def split: if_splits)
    moreover have "loads (j_payload_json row) \<noteq> None"
      using assms(3) s by (auto simp: expire_if_def expire_row_def)
    ultimately show ?thesis
      by (auto simp: row_dict_def json_loads_def lease_row_def simp del: get_or_jset split: option.splits)
  qed
  from d show ?thesis
  proof (cases rule: claim_txE [where now = now and pick = pick and owner = owner and rids = rids and secs = secs])
    case none
    with best show ?thesis by simp
  next
    case (unreadable e)
    define row where "row = first_rows rids ?js ! (pick mod length (first_rows rids ?js))"
    have row: "row \<in> set (first_rows rids ?js)" using best by (simp add: row_def)
    obtain v where "row_dict (Some (lease_row now owner secs (j_attempts row + 1) row)) = Inr v"
      using readable [OF row] by blast
    with unreadable best claimed_row(1) [OF ok row, of "lease_row now owner secs (j_attempts row + 1)"]
    show ?thesis
      by (simp add: claim_tx_def requeue_expired_map [OF d] Let_def flip: row_def)
  next
    case (granted row v)
    with req show ?thesis by (simp add: publish_def Let_def)
  qed
qed

theorem claim_progress_witness:
  "\<exists>v. snd (claim demo_H 0 0 0 ''w'' [''windows-powershell-5.1''] 60 (demo_store QUEUED 0)) = Inr (Some v)"
proof (rule claim_progress [OF demo_store_ok(1)])
  show "demo_job QUEUED 0 \<in> set (ready_rows [''windows-powershell-5.1'']
      (map (expire_if 0) (q_jobs (qs_db (demo_store QUEUED 0)))))"
    by (simp add: ready_rows_def expire_if_def lease_lapsed_def demo_job_def)
  show "\<forall>s \<in> set (q_jobs (qs_db (demo_store QUEUED 0))). loads (j_payload_json s) \<noteq> None"
    unfolding demo_store_db by code_simp
  show "list_all is_exact_windows_runtime_id [''windows-powershell-5.1'']" by code_simp
qed simp_all

text \<open>Reconciliation at time \<open>now\<close> ends exactly the leases that lapsed before \<open>now\<close> in time
  order (the code compares the texts): such a job is queued again while it has attempts left and
  failed otherwise, with its lease cleared; every other row, a lease that ends at or after \<open>now\<close>
  included, is left alone, and the reported number is the number of lapsed leases.\<close>

lemma reconcile_expires:
  assumes "queue_ok H st" and "valid_instant now" and "row_of jid st = Some r"
  shows "row_of jid (fst (reconcile H now now' st)) = Some
    (case j_lease_expires_at r of
       Some e \<Rightarrow> (case queue_time (Some e) of
           Inr t \<Rightarrow> if t < now then r\<lparr>j_state := if j_attempts r < j_max_attempts r then QUEUED else FAILED,
             j_updated_at := iso now, j_lease_owner := None, j_lease_expires_at := None,
             j_error := Some ''lease expired''\<rparr> else r
         | Inl x \<Rightarrow> r)
     | None \<Rightarrow> r)"
proof -
  have ok: "db_ok H (qs_db st)" using assms(1) by (simp add: queue_ok_def)
  have "row_of jid (fst (reconcile H now now' st)) = Some (expire_if now r)"
    using ok assms(3) by (auto simp: reconcile_def reconcile_tx_def db_ok_def requeue_expired_map
        bump_generation_def set_jobs_def find_map_expire)
  moreover have "job_ok H r" using db_ok_row [OF ok assms(3)] .
  moreover from this have l: "lease_ok r" by (simp add: job_ok_def)
  show ?thesis
  proof (cases "j_state r = LEASED")
    case True
    from leased_expiry [OF l True] obtain e where "valid_instant e" "j_lease_expires_at r = Some (iso e)" .
    with calculation True assms(2) show ?thesis
      by (auto simp: expire_if_def lease_lapsed_iso expire_row_def)
  next
    case False
    with l have "j_lease_expires_at r = None" by (auto simp: lease_ok_def)
    with calculation False show ?thesis by (simp add: expire_if_def lease_lapsed_def)
  qed
qed

lemma reconcile_expires_witness:
  "row_of ''j'' (fst (reconcile demo_H 60000001 0 (demo_store LEASED 1))) = Some
    (case j_lease_expires_at (demo_job LEASED 1) of
       Some e \<Rightarrow> (case queue_time (Some e) of
           Inr t \<Rightarrow> if t < 60000001 then (demo_job LEASED 1)\<lparr>j_state := if j_attempts (demo_job LEASED 1) < j_max_attempts (demo_job LEASED 1) then QUEUED else FAILED,
             j_updated_at := iso 60000001, j_lease_owner := None, j_lease_expires_at := None,
             j_error := Some ''lease expired''\<rparr> else demo_job LEASED 1
         | Inl x \<Rightarrow> demo_job LEASED 1)
     | None \<Rightarrow> demo_job LEASED 1)"
  by (rule reconcile_expires [OF demo_store_ok(2) _ demo_row]) (simp add: valid_instant_def)

end
