(* ===== verification/Psm_QueueMirror.thy ===== *)
theory Psm_QueueMirror
  imports Psm_QueueProps
begin

text \<open>
  The invariant along every run, enqueueing and the mirror: an idempotency key names one job, what was enqueued is what a worker
  reads back, the mirror file verifies and matches its generation in every reachable state, and a
  file that verifies with the digest of a written mirror carries the content that was written.
\<close>

section \<open>Idempotent enqueueing\<close>

lemma enqueue_valid:
  assumes "snd (enqueue H now now' uid rid payload idem prio m st) = Inr v"
  shows "fst (enqueue H now2 now2' uid2 rid payload idem prio m st2) =
      fst (publish H now2' st2 (enqueue_tx now2 uid2 rid (dumps payload) (digest H payload)
        (case idem of None \<Rightarrow> digest H payload | Some k \<Rightarrow> if k = [] then digest H payload else k)
        prio m (qs_db st2)))"
    and "snd (enqueue H now2 now2' uid2 rid payload idem prio m st2) =
      snd (publish H now2' st2 (enqueue_tx now2 uid2 rid (dumps payload) (digest H payload)
        (case idem of None \<Rightarrow> digest H payload | Some k \<Rightarrow> if k = [] then digest H payload else k)
        prio m (qs_db st2)))"
  using assms by (auto simp: enqueue_def Let_def split: if_splits)

lemma publish_value:
  assumes "snd (publish H now' st tx) = Inr v"
  shows "\<exists>c. snd tx = Inr (c, v)"
proof (cases tx)
  case (Pair db res)
  show ?thesis
  proof (cases res)
    case (Inl e)
    with assms Pair show ?thesis by (simp add: publish_def Let_def)
  next
    case (Inr cv)
    with assms Pair show ?thesis by (cases cv) (simp add: publish_def Let_def)
  qed
qed

lemma find_by_append_new:
  "find_by key k xs = None \<Longrightarrow> find_by key k (xs @ [r]) = (if key r = k then Some r else None)"
  by (induction xs) (auto simp: find_by_def)

text \<open>After a successful enqueue the key finds the row that was returned.\<close>

lemma enqueue_txD:
  assumes "enqueue_tx now uid rid raw sha key prio m db = (db', Inr (c, v))"
  obtains r where "find_by j_key key (q_jobs db') = Some r" "row_dict (Some r) = Inr v"
    "j_payload_sha256 r = sha" "j_runtime r = rid" "c \<or> db' = db"
proof (cases "find_by j_key key (q_jobs db)")
  case (Some r)
  with assms that [of r] show thesis by (auto simp: enqueue_tx_def split: if_splits)
next
  case None
  then have "find_by j_id uid (q_jobs db) = None"
    using assms by (auto simp: enqueue_tx_def split: if_splits)
  with None assms show thesis
    by (auto intro!: that simp: enqueue_tx_def Let_def bump_generation_def set_jobs_def find_by_append_new)
qed

text \<open>Enqueueing is idempotent: once an enqueue of a payload for a runtime under a key has
  returned a row, repeating the request (later, with a fresh job id) changes nothing, neither in
  the database nor in the mirror, and returns the same row.\<close>

lemma enqueue_idempotent:
  assumes "enqueue H now now' uid rid payload idem prio m st = (st1, Inr v)"
  shows "enqueue H now2 now2' uid2 rid payload idem prio m st1 = (st1, Inr v)"
proof -
  let ?key = "case idem of None \<Rightarrow> digest H payload | Some k \<Rightarrow> if k = [] then digest H payload else k"
  have s: "snd (enqueue H now now' uid rid payload idem prio m st) = Inr v" using assms by simp
  note e = enqueue_valid [OF s]
  obtain db' res where tx: "enqueue_tx now uid rid (dumps payload) (digest H payload) ?key prio m (qs_db st) = (db', res)"
    by fastforce
  have "publish H now' st (db', res) = (st1, Inr v)"
    using e [of now now' uid st] assms unfolding tx by (simp add: prod_eq_iff)
  then have "snd (publish H now' st (db', res)) = Inr v" and db: "qs_db st1 = db'"
    using publish_db [of H now' st "(db', res)"] by (simp_all del: publish_db)
  from publish_value [OF this(1)] obtain c where c: "res = Inr (c, v)" by auto
  from enqueue_txD [OF tx [unfolded c]] obtain r where
    r: "find_by j_key ?key (q_jobs db') = Some r" "row_dict (Some r) = Inr v"
    "j_payload_sha256 r = digest H payload" "j_runtime r = rid" .
  have "enqueue_tx now2 uid2 rid (dumps payload) (digest H payload) ?key prio m (qs_db st1) = (db', Inr (False, v))"
    using r db by (simp add: enqueue_tx_def)
  then have "publish H now2' st1 (enqueue_tx now2 uid2 rid (dumps payload) (digest H payload) ?key prio m (qs_db st1))
      = (st1, Inr v)"
    using db by (auto simp: publish_def Let_def)
  with e [of now2 now2' uid2 st1] show ?thesis by (simp add: prod_eq_iff)
qed

lemma demo_enqueue:
  "enqueue demo_H 0 0 ''j'' ''windows-powershell-5.1'' (JObj []) (Some ''k'') 5 2 demo_empty
   = (fst (enqueue demo_H 0 0 ''j'' ''windows-powershell-5.1'' (JObj []) (Some ''k'') 5 2 demo_empty),
      Inr (projr (snd (enqueue demo_H 0 0 ''j'' ''windows-powershell-5.1'' (JObj []) (Some ''k'') 5 2 demo_empty))))"
proof -
  have "isl (snd (enqueue demo_H 0 0 ''j'' ''windows-powershell-5.1'' (JObj []) (Some ''k'') 5 2 demo_empty)) = False"
    by code_simp
  then show ?thesis by (simp add: prod_eq_iff)
qed

lemma enqueue_idempotent_witness:
  "fst (enqueue demo_H 7 7 ''j2'' ''windows-powershell-5.1'' (JObj []) (Some ''k'') 5 2
     (fst (enqueue demo_H 0 0 ''j'' ''windows-powershell-5.1'' (JObj []) (Some ''k'') 5 2 demo_empty)))
   = fst (enqueue demo_H 0 0 ''j'' ''windows-powershell-5.1'' (JObj []) (Some ''k'') 5 2 demo_empty)"
  using enqueue_idempotent [OF demo_enqueue, of 7 7 "''j2''"] by simp

text \<open>A key that is bound to a job with another payload digest or another runtime is refused
  with \<open>FleetQueueError\<close>, and the store stays as it was.\<close>

lemma enqueue_conflict:
  assumes "find_by j_key k (q_jobs (qs_db st)) = Some r" and "k \<noteq> []"
    and "j_payload_sha256 r \<noteq> digest H payload \<or> j_runtime r \<noteq> rid"
  shows "\<exists>msg. enqueue H now now' uid rid payload (Some k) prio m st = (st, throw FleetQueueError msg)"
  using assms by (auto simp: enqueue_def enqueue_tx_def publish_def Let_def)

theorem enqueue_conflict_witness:
  "\<exists>msg. enqueue demo_H 0 0 ''u'' ''windows-powershell-4.0'' (JObj []) (Some ''k'') 5 2 (demo_store QUEUED 0)
     = (demo_store QUEUED 0, throw FleetQueueError msg)"
  by (rule enqueue_conflict [where r = "demo_job QUEUED 0"]) (simp_all add: find_by_def demo_job_def)

lemma row_dict_payload:
  assumes "row_dict (Some r) = Inr v" "loads (j_payload_json r) = Some p"
  shows "get_none ''payload'' v = p"
  using assms(1) by (rule row_dictE) (use assms(2) in \<open>simp add: json_loads_def\<close>)

text \<open>The payload of a newly enqueued job comes back from the stored text as the value that
  was enqueued, with its keys in sorted order.\<close>

lemma enqueue_payload_roundtrip:
  assumes "snd (enqueue H now now' uid rid payload (Some k) prio m st) = Inr v" and "k \<noteq> []"
    and "find_by j_key k (q_jobs (qs_db st)) = None" and "json_wf payload" and "float_free payload"
  shows "get_none ''payload'' v = canon payload"
proof -
  obtain db' res where tx: "enqueue_tx now uid rid (dumps payload) (digest H payload) k prio m (qs_db st) = (db', res)"
    by fastforce
  have "snd (publish H now' st (db', res)) = Inr v"
    using enqueue_valid(2) [OF assms(1), of now now' uid st] assms(1,2) tx by simp
  from publish_value [OF this] obtain c where c: "res = Inr (c, v)" by auto
  with tx assms(3) have "find_by j_id uid (q_jobs (qs_db st)) = None"
    by (auto simp: enqueue_tx_def split: if_splits)
  with tx c assms(3) obtain r where r: "row_dict (Some r) = Inr v" "j_payload_json r = dumps payload"
    by (auto simp: enqueue_tx_def Let_def bump_generation_def set_jobs_def find_by_append_new)
  have "loads (j_payload_json r) = Some (canon payload)" unfolding r(2) by (rule loads_dumps [OF assms(4,5)])
  with r(1) show ?thesis by (rule row_dict_payload)
qed

lemma enqueue_payload_roundtrip_witness:
  "get_none ''payload'' (projr (snd (enqueue demo_H 0 0 ''j'' ''windows-powershell-5.1'' (JObj []) (Some ''k'') 5 2 demo_empty)))
     = JObj []"
proof -
  have "find_by j_key ''k'' (q_jobs (qs_db demo_empty)) = None" by code_simp
  from enqueue_payload_roundtrip [OF arg_cong [OF demo_enqueue, of snd, unfolded snd_conv] _ this]
  show ?thesis by simp
qed

section \<open>The mirror\<close>

lemma mirror_body_fields:
  "jget ''mirror_sha256'' (mirror_body name t db) = None"
  "get_none ''schema'' (mirror_body name t db) = JInt 1"
  "get_none ''jobs'' (mirror_body name t db) = JArr (map raw_row (sort_rows (q_jobs db)))"
  "get_or ''generation'' d (mirror_body name t db) = JInt (q_generation db)"
  by (simp_all add: mirror_body_def get_or_def)

lemma jdel_mirror_payload: "jdel ''mirror_sha256'' (mirror_payload H name t db) = mirror_body name t db"
  unfolding mirror_payload_def Let_def
  by (rule jdel_jset_new) (simp_all add: mirror_body_fields, simp add: mirror_body_def)

lemma text_field_mirror: "text_field ''mirror_sha256'' (mirror_payload H name t db) = digest H (mirror_body name t db)"
  by (simp add: text_field_def mirror_payload_def Let_def py_or_def)

lemma mirror_payload_fields:
  "is_dict (mirror_payload H name t db)"
  "get_none ''schema'' (mirror_payload H name t db) = JInt 1"
  "get_none ''jobs'' (mirror_payload H name t db) = JArr (map raw_row (sort_rows (q_jobs db)))"
  "get_or ''generation'' d (mirror_payload H name t db) = JInt (q_generation db)"
  by (simp_all add: mirror_payload_def Let_def mirror_body_fields)

lemma check_mirror_written:
  "0 \<le> q_generation db \<Longrightarrow> check_mirror H (mirror_payload H name t db) = Inr (mirror_payload H name t db)"
  by (simp add: check_mirror_def mirror_payload_fields text_field_mirror jdel_mirror_payload)

section \<open>The invariant along every run\<close>

lemma mirror_traced:
  assumes "fresh_queue H st" "(queue_step H)\<^sup>*\<^sup>* st st'"
  shows "\<exists>st1 t. (queue_step H)\<^sup>*\<^sup>* st st1 \<and> (queue_step H)\<^sup>*\<^sup>* st1 st'
    \<and> qs_mirror st' = Mirror (mirror_payload H (qs_name st1) t (qs_db st1))"
  using assms(2)
proof (induction rule: rtranclp_induct)
  case base
  from assms(1) obtain now name m where "m = NoMirror \<or> m = BadMirror" "st = create_queue H now name m"
    by (auto simp: fresh_queue_def)
  then have "qs_mirror st = Mirror (mirror_payload H (qs_name st) now (qs_db st))"
    by (auto simp: create_queue_def refresh_mirror_if_needed_def mirror_def write_mirror_def)
  then show ?case by blast
next
  case (step y z)
  then have z: "(queue_step H)\<^sup>*\<^sup>* st z" by (meson rtranclp.rtrancl_into_rtrancl)
  have "qs_mirror z = qs_mirror y \<or> (\<exists>t. qs_mirror z = Mirror (mirror_payload H (qs_name z) t (qs_db z)))"
    using step.hyps(2)
  proof (cases rule: queue_step.cases)
    case (step_op now op now')
    then show ?thesis using exec_mirror [of H now' y now op] by (auto simp: mirror_moves_def)
  next
    case step_open
    then show ?thesis
      by (auto simp: open_queue_def refresh_mirror_if_needed_def write_mirror_def split: sum.splits option.splits)
  qed simp
  then show ?case using step.IH z step.hyps(2) by (metis rtranclp.rtrancl_into_rtrancl rtranclp.rtrancl_refl)
qed

text \<open>An operation that returns and changes the database publishes the new one.\<close>

lemma publish_current:
  assumes "snd (publish H now' st tx) = Inr x" "qs_db (fst (publish H now' st tx)) \<noteq> qs_db st"
    and "\<And>v. snd tx = Inr (False, v) \<Longrightarrow> fst tx = qs_db st"
  shows "qs_mirror (fst (publish H now' st tx)) = Mirror (mirror_payload H (qs_name st) now' (fst tx))"
proof -
  obtain db r where tx: "tx = (db, r)" by (cases tx)
  with assms(1) obtain c v where r: "r = Inr (c, v)" by (cases r) (auto simp: publish_def)
  have c using assms(2,3) unfolding tx r by (cases c) auto
  with tx r show ?thesis by (simp add: publish_def write_mirror_def)
qed

lemma requeue_none: "requeue_expired now js = (js', 0) \<Longrightarrow> js' = js"
  by (auto simp: requeue_expired_def Let_def expire_row_def filter_empty_conv intro!: map_idI)

lemma tx_unchanged:
  "snd (enqueue_tx now uid rid raw sha key prio m db) = Inr (False, v) \<Longrightarrow> fst (enqueue_tx now uid rid raw sha key prio m db) = db"
  "snd (claim_tx now pick owner rids secs db) = Inr (False, w) \<Longrightarrow> fst (claim_tx now pick owner rids secs db) = db"
  "snd (reconcile_tx now db) = Inr (False, v) \<Longrightarrow> fst (reconcile_tx now db) = db"
  "snd (map_prod id (\<lambda>r. res_bind r (\<lambda>v. Inr (True, v))) tx) = Inr (False, x) \<Longrightarrow> fst tx = db"
proof -
  show "snd (enqueue_tx now uid rid raw sha key prio m db) = Inr (False, v) \<Longrightarrow> fst (enqueue_tx now uid rid raw sha key prio m db) = db"
    by (auto simp: enqueue_tx_def Let_def split: option.splits if_splits)
  show "snd (claim_tx now pick owner rids secs db) = Inr (False, w) \<Longrightarrow> fst (claim_tx now pick owner rids secs db) = db"
    by (auto simp: claim_tx_def Let_def set_jobs_same dest!: requeue_none split: if_splits sum.splits prod.splits)
  show "snd (reconcile_tx now db) = Inr (False, v) \<Longrightarrow> fst (reconcile_tx now db) = db"
    by (auto simp: reconcile_tx_def Let_def set_jobs_same dest!: requeue_none split: if_splits prod.splits)
qed auto

lemma publish_row_current:
  assumes "snd (publish H now' st (map_prod id (\<lambda>r. res_bind r (\<lambda>v. Inr (True, v))) tx)) = Inr x" "fst tx \<noteq> qs_db st"
  shows "qs_mirror (fst (publish H now' st (map_prod id (\<lambda>r. res_bind r (\<lambda>v. Inr (True, v))) tx)))
    = Mirror (mirror_payload H (qs_name st) now' (fst tx))"
  using publish_current [OF assms(1)] assms(2) tx_unchanged(4) [of tx _ "qs_db st"] by simp

lemma exec_publishes:
  assumes "snd (exec H now now' op st) = Inr x" "qs_db (fst (exec H now now' op st)) \<noteq> qs_db st"
  shows "qs_mirror (fst (exec H now now' op st)) = Mirror (mirror_payload H (qs_name st) now' (qs_db (fst (exec H now now' op st))))"
  using assms
  by (cases op) (auto simp: op_defs Let_def split: if_splits option.splits
    intro!: publish_row_current publish_current intro: tx_unchanged(1-3))

lemma open_publishes:
  assumes "queue_ok H st"
  shows "\<exists>t. qs_mirror (open_queue H now st) = Mirror (mirror_payload H (qs_name st) t (qs_db st))"
proof -
  from assms obtain t db0 where m: "qs_mirror st = Mirror (mirror_payload H (qs_name st) t db0)" "0 \<le> q_generation db0"
    "q_generation db0 \<le> q_generation (qs_db st)" "q_generation db0 = q_generation (qs_db st) \<longrightarrow> db0 = qs_db st"
    unfolding queue_ok_def mirror_of_def by (elim exE conjE) (rule that)
  let ?v = "mirror_payload H (qs_name st) t db0"
  have v: "mirror H st = Inr (Some ?v)" using m by (simp add: mirror_def check_mirror_written)
  have g: "mirror_generation ?v = q_generation db0" by (simp add: mirror_generation_def mirror_payload_fields)
  show ?thesis
  proof (cases "q_generation db0 < q_generation (qs_db st)")
    case True
    with v g show ?thesis by (auto simp: open_queue_def refresh_mirror_if_needed_def write_mirror_def)
  next
    case False
    with m(3,4) have "db0 = qs_db st" by simp
    with v g False m(1) show ?thesis by (auto simp: open_queue_def refresh_mirror_if_needed_def)
  qed
qed

text \<open>C1: From a freshly created queue, whatever sequence of operations, crashes between a commit and the mirror, and
  reopenings follows: the database stays well formed (unique ids and keys, leases only and always on leased rows, attempts
  within their bound, results exactly on completed rows, digests of the stored payloads); the mirror holds what the
  database was in this or an earlier state of the same run; an operation that returns and has changed the database leaves
  the mirror of the new database; and so does opening the queue.\<close>

theorem queue_invariant:
  assumes "fresh_queue H st" and "(queue_step H)\<^sup>*\<^sup>* st st'"
  shows "queue_ok H st'
    \<and> (\<exists>st1 t. (queue_step H)\<^sup>*\<^sup>* st st1 \<and> (queue_step H)\<^sup>*\<^sup>* st1 st'
         \<and> qs_mirror st' = Mirror (mirror_payload H (qs_name st1) t (qs_db st1)))
    \<and> (\<forall>now now' op x. snd (exec H now now' op st') = Inr x \<and> qs_db (fst (exec H now now' op st')) \<noteq> qs_db st'
         \<longrightarrow> qs_mirror (fst (exec H now now' op st'))
             = Mirror (mirror_payload H (qs_name st') now' (qs_db (fst (exec H now now' op st')))))
    \<and> (\<forall>now. \<exists>t. qs_mirror (open_queue H now st') = Mirror (mirror_payload H (qs_name st') t (qs_db st')))"
proof -
  have "queue_ok H st'" using assms by (rule queue.reachable_inv)
  with mirror_traced [OF assms] exec_publishes open_publishes show ?thesis by blast
qed

theorem queue_invariant_witness:
  "queue_ok demo_H (fst (exec demo_H 0 0 OpReconcile demo_empty))"
  by (rule queue_invariant [OF demo_fresh demo_run, THEN conjunct1]) (simp add: valid_instant_def)

text \<open>C7: In every reachable state, crashes included, the mirror file passes its own
  verification, its generation is at most that of the database, and when the generations agree
  its job list is the job table in the order of the ids.\<close>

theorem mirror_consistent:
  assumes "fresh_queue H st" and "(queue_step H)\<^sup>*\<^sup>* st st'"
  shows "\<exists>v. mirror H st' = Inr (Some v)
    \<and> mirror_generation v \<le> q_generation (qs_db st')
    \<and> (mirror_generation v = q_generation (qs_db st') \<longrightarrow>
         get_none ''jobs'' v = JArr (map raw_row (sort_rows (q_jobs (qs_db st')))))"
proof -
  have "queue_ok H st'" using assms by (rule queue.reachable_inv)
  then obtain t db0 where m: "qs_mirror st' = Mirror (mirror_payload H (qs_name st') t db0)"
    "0 \<le> q_generation db0" "q_generation db0 \<le> q_generation (qs_db st')"
    "q_generation db0 = q_generation (qs_db st') \<longrightarrow> db0 = qs_db st'"
    by (auto simp: queue_ok_def mirror_of_def)
  let ?v = "mirror_payload H (qs_name st') t db0"
  have "mirror H st' = Inr (Some ?v)" using m by (simp add: mirror_def check_mirror_written)
  moreover have "mirror_generation ?v = q_generation db0"
    by (simp add: mirror_generation_def mirror_payload_fields)
  ultimately show ?thesis using m mirror_payload_fields(3) by (intro exI [of _ ?v]) auto
qed

theorem mirror_consistent_witness:
  "\<exists>v. mirror demo_H (fst (exec demo_H 0 0 OpReconcile demo_empty)) = Inr (Some v)"
  using mirror_consistent [OF demo_fresh demo_run, of OpReconcile] by (auto simp: valid_instant_def)

text \<open>C8: If the digest function has no collision, a mirror file that verifies and carries the
  digest of a mirror this queue wrote has the content that was written: the same keys and values,
  up to the order of the keys.\<close>

theorem mirror_tamper_evident:
  assumes "check_mirror H v = Inr w"
    and "text_field ''mirror_sha256'' v = digest H (mirror_body name t db)"
    and "inj H" and "json_wf v" and "float_free v"
  shows "canon (jdel ''mirror_sha256'' v) = canon (mirror_body name t db)"
proof -
  have "digest H (jdel ''mirror_sha256'' v) = digest H (mirror_body name t db)"
    using assms(1,2) by (auto simp: check_mirror_def split: if_splits)
  then have "canonical_json_bytes (jdel ''mirror_sha256'' v) = canonical_json_bytes (mirror_body name t db)"
    using assms(3) by (auto simp: digest_def dest: injD)
  moreover have "json_wf (jdel ''mirror_sha256'' v) \<and> float_free (jdel ''mirror_sha256'' v)"
  proof -
    obtain kvs where "v = JObj kvs"
      using assms(1) by (cases v) (auto simp: check_mirror_def split: if_splits)
    with assms(4,5) show ?thesis
      by (auto simp: jdel_def json_wf_JObj list_all_iff distinct_map inj_on_def)
  qed
  moreover have row: "json_wf (raw_row r) \<and> float_free (raw_row r)" for r
    by (simp add: raw_row_def opt_str_def split: option.splits)
  then have "json_wf (mirror_body name t db) \<and> float_free (mirror_body name t db)"
    by (simp add: mirror_body_def list_all_iff)
  ultimately show ?thesis using canonical_bytes_canon by blast
qed

theorem mirror_tamper_evident_witness:
  "canon (jdel ''mirror_sha256'' (mirror_payload id ''q'' 0 \<lparr>q_jobs = [], q_generation = 0\<rparr>))
     = canon (mirror_body ''q'' 0 \<lparr>q_jobs = [], q_generation = 0\<rparr>)"
proof (rule mirror_tamper_evident [OF check_mirror_written text_field_mirror])
  show "json_wf (mirror_payload id ''q'' 0 \<lparr>q_jobs = [], q_generation = 0\<rparr>)" by code_simp
  show "float_free (mirror_payload id ''q'' 0 \<lparr>q_jobs = [], q_generation = 0\<rparr>)" by code_simp
qed simp_all

end
