(* ===== verification/Psm_Registry.thy ===== *)
theory Psm_Registry
  imports Psm_JsonText Psm_Clock Psm_RuntimeIds Psm_Files
begin

text \<open>
  The worker registry of \<open>fleet.py\<close>. The registry file is absent or holds a JSON value; every
  operation loads and verifies it, changes the list of worker records and saves it with the next
  generation and a fresh digest. \<open>now\<close> and \<open>now'\<close> are the readings of the clock, \<open>H\<close> is the
  SHA-256 hex digest, \<open>is_there\<close> the file system's answer for a path. The stored endpoints are absolute paths. An endpoint description is
  loaded by \<open>remote_worker.py\<close>; what \<open>enroll\<close> uses of it are its worker and runtime id.
\<close>

section \<open>Labels\<close>

definition id_match :: "string \<Rightarrow> bool" where
  "id_match s \<longleftrightarrow> s \<noteq> [] \<and> length s \<le> 128 \<and> is_alnum (hd s)
     \<and> list_all (\<lambda>c. is_alnum c \<or> c \<in> set ''._:@-'') (tl s)"

definition label_match :: "string \<Rightarrow> bool" where
  "label_match s \<longleftrightarrow> s \<noteq> [] \<and> length s \<le> 64 \<and> is_alnum (hd s)
     \<and> list_all (\<lambda>c. is_alnum c \<or> c \<in> set ''._-'') (tl s)"

text \<open>\<open>_labels\<close>; the argument is a dict or \<open>None\<close>.\<close>

definition fleet_labels :: "json \<Rightarrow> (string \<times> string) list res" where
  "fleet_labels value = res_bind
     (res_map (\<lambda>(name, item).
        let text = py_str item in
        if \<not> label_match name \<or> 256 < length text \<or> CHR 0x00 \<in> set text
        then throw FleetError (''Invalid fleet label: '' @ name) else Inr (name, text))
      (dict_items (py_or value (JObj []))))
     (\<lambda>result. Inr (sort_key fst result))"

definition labels_value :: "(string \<times> string) list \<Rightarrow> json" where
  "labels_value ls = JObj (map (\<lambda>(k, v). (k, JStr v)) ls)"

section \<open>The registry file\<close>

definition worker_states :: "string list" where
  "worker_states = [''ACTIVE'', ''QUARANTINED'', ''REVOKED'']"

definition state_digest :: "(string \<Rightarrow> string) \<Rightarrow> json \<Rightarrow> string" where
  "state_digest H v = H (canonical_json_bytes v)"

definition worker_ok :: "json \<Rightarrow> bool" where
  "worker_ok item \<longleftrightarrow> is_dict item \<and> get_none ''state'' item \<in> JStr ` set worker_states"

definition empty_registry :: json where
  "empty_registry = JObj [(''schema'', JInt 1), (''generation'', JInt 0), (''workers'', JArr [])]"

definition load_registry :: "(string \<Rightarrow> string) \<Rightarrow> json option \<Rightarrow> json res" where
  "load_registry H file = (case file of
     None \<Rightarrow> Inr empty_registry
   | Some value \<Rightarrow>
       if \<not> is_dict value \<or> \<not> eq_int (get_none ''schema'' value) 1 \<or> \<not> is_list (get_none ''workers'' value)
       then throw FleetError ''Fleet registry is malformed''
       else (case get_none ''digest'' value of
           JStr stored \<Rightarrow>
             if length stored \<noteq> 64 then throw FleetError ''Fleet registry integrity digest is missing''
             else if stored \<noteq> state_digest H (jdel ''digest'' value)
             then throw FleetError ''Fleet registry integrity verification failed''
             else if \<not> list_all worker_ok (list_items (get_none ''workers'' value))
             then throw FleetError ''Fleet registry contains a malformed worker''
             else Inr value
         | _ \<Rightarrow> throw FleetError ''Fleet registry integrity digest is missing''))"

definition save_registry :: "(string \<Rightarrow> string) \<Rightarrow> instant \<Rightarrow> json \<Rightarrow> json res" where
  "save_registry H now value =
     res_bind (py_int (get_or ''generation'' (JInt 0) value)) (\<lambda>g.
       let payload = jset ''updated_at'' (JStr (iso now)) (jset ''generation'' (JInt (g + 1)) value)
       in Inr (jset ''digest'' (JStr (state_digest H (jdel ''digest'' payload))) payload))"

definition workers_of :: "json \<Rightarrow> json list" where
  "workers_of state = list_items (get_none ''workers'' state)"

definition set_workers :: "json list \<Rightarrow> json \<Rightarrow> json" where
  "set_workers ws state = jset ''workers'' (JArr ws) state"

definition worker_key :: "json \<Rightarrow> json" where
  "worker_key item = get_none ''worker_id'' item"

interpretation wt: keyed_table worker_key "find_by worker_key" "upd_by worker_key"
  by unfold_locales (auto dest: find_by_Some simp: find_by_None upd_by_def)

text \<open>Replacing the record \<open>next(...)\<close> found: the first with this id.\<close>

fun upd_first :: "json \<Rightarrow> json \<Rightarrow> json list \<Rightarrow> json list" where
  "upd_first k r [] = []"
| "upd_first k r (x # xs) = (if worker_key x = k then r # xs else x # upd_first k r xs)"

text \<open>Loading, computing the new state and a result, and saving it under the lock.\<close>

definition with_registry ::
    "(string \<Rightarrow> string) \<Rightarrow> instant \<Rightarrow> (json \<Rightarrow> (json \<times> json) res) \<Rightarrow> json option \<Rightarrow> json option \<times> json res" where
  "with_registry H now f file =
     (case res_bind (load_registry H file) (\<lambda>state.
        res_bind (f state) (\<lambda>(state', record).
        res_bind (save_registry H now state') (\<lambda>payload. Inr (payload, record)))) of
        Inl e \<Rightarrow> (file, Inl e)
      | Inr (payload, record) \<Rightarrow> (Some payload, Inr record))"

section \<open>Enrollment\<close>

definition reset_policy :: "(string \<Rightarrow> bool) \<Rightarrow> string option \<Rightarrow> string option \<Rightarrow> string option \<Rightarrow> json res" where
  "reset_policy is_there config priv pub =
     (if config = None \<and> priv = None \<and> pub = None then Inr JNull
      else (case (config, priv, pub) of
          (Some c, Some k, Some p) \<Rightarrow>
            if \<not> is_there c \<or> \<not> is_there k \<or> \<not> is_there p
            then throw FleetError ''Managed snapshot reset file is missing''
            else Inr (JObj [(''snapshot_config'', JStr c), (''private_key'', JStr k), (''public_key'', JStr p)])
        | _ \<Rightarrow> throw FleetError ''Managed snapshot reset requires config, private key, and public key''))"

definition carried_count :: "string \<Rightarrow> json option \<Rightarrow> int res" where
  "carried_count k current = (case current of None \<Rightarrow> Inr 0 | Some c \<Rightarrow> py_int (get_or k (JInt 0) c))"

definition sorted_workers :: "json list \<Rightarrow> json list res" where
  "sorted_workers ws = (if list_all (\<lambda>w. jget ''worker_id'' w \<noteq> None) ws
     then Inr (sort_key (\<lambda>w. py_str (worker_key w)) ws) else throw KeyError ''worker_id'')"

definition enroll_record ::
    "instant \<Rightarrow> string \<Rightarrow> string \<Rightarrow> string \<Rightarrow> json \<Rightarrow> int \<Rightarrow> json \<Rightarrow> json option \<Rightarrow> json res" where
  "enroll_record now wid rid path labels priority reset current =
     res_bind (fleet_labels labels) (\<lambda>ls.
     res_bind (carried_count ''successes'' current) (\<lambda>s.
     res_bind (carried_count ''failures'' current) (\<lambda>f.
       Inr (JObj
        [(''worker_id'', JStr wid), (''runtime_id'', JStr rid), (''endpoint'', JStr path),
         (''state'', JStr ''ACTIVE''), (''priority'', JInt priority), (''labels'', labels_value ls),
         (''enrolled_at'', case current of None \<Rightarrow> JStr (iso now)
            | Some c \<Rightarrow> get_or ''enrolled_at'' (JStr (iso now)) c),
         (''updated_at'', JStr (iso now)), (''consecutive_failures'', JInt 0),
         (''successes'', JInt s), (''failures'', JInt f), (''last_health'', JNull),
         (''last_error'', JNull), (''quarantine'', JNull), (''revocation'', JNull),
         (''managed_reset'', reset)]))))"

definition enroll ::
    "(string \<Rightarrow> string) \<Rightarrow> (string \<Rightarrow> bool) \<Rightarrow> instant \<Rightarrow> instant \<Rightarrow> string \<Rightarrow> string \<Rightarrow> string \<Rightarrow> json \<Rightarrow> int
      \<Rightarrow> bool \<Rightarrow> string option \<Rightarrow> string option \<Rightarrow> string option \<Rightarrow> json option \<Rightarrow> json option \<times> json res" where
  "enroll H is_there now now' wid rid path labels priority replace config priv pub file =
     (if \<not> id_match wid then (file, throw FleetError ''Worker identity is invalid'')
      else if \<not> (-100000 \<le> priority \<and> priority \<le> 100000)
      then (file, throw FleetError ''Worker priority is outside the supported range'')
      else (case reset_policy is_there config priv pub of
          Inl e \<Rightarrow> (file, Inl e)
        | Inr reset \<Rightarrow>
            with_registry H now' (\<lambda>state.
              let current = find_by worker_key (JStr wid) (workers_of state) in
              if current \<noteq> None \<and> \<not> replace
              then throw FleetError (''Worker is already enrolled: '' @ wid)
              else res_bind (enroll_record now wid rid path labels priority reset current) (\<lambda>record.
                res_bind (sorted_workers (filter (\<lambda>w. worker_key w \<noteq> JStr wid) (workers_of state) @ [record]))
                  (\<lambda>ws. Inr (set_workers ws state, record)))) file))"

section \<open>Queries\<close>

definition list_workers :: "(string \<Rightarrow> string) \<Rightarrow> bool \<Rightarrow> json option \<Rightarrow> json list res" where
  "list_workers H include_revoked file = res_bind (load_registry H file) (\<lambda>state.
     Inr (if include_revoked then workers_of state
          else filter (\<lambda>w. get_none ''state'' w \<noteq> JStr ''REVOKED'') (workers_of state)))"

definition get_worker :: "(string \<Rightarrow> string) \<Rightarrow> string \<Rightarrow> json option \<Rightarrow> json res" where
  "get_worker H wid file = res_bind (load_registry H file) (\<lambda>state.
     case find_by worker_key (JStr wid) (workers_of state) of
       None \<Rightarrow> throw FleetError (''Unknown fleet worker: '' @ wid)
     | Some w \<Rightarrow> Inr w)"

section \<open>Transitions and health\<close>

definition transition_record :: "instant \<Rightarrow> string \<Rightarrow> string \<Rightarrow> json \<Rightarrow> json" where
  "transition_record now state_name reason record0 =
     (let record = jset ''updated_at'' (JStr (iso now)) (jset ''state'' (JStr state_name) record0);
          mark = JObj [(''at'', JStr (iso now)), (''reason'', JStr reason)] in
      if state_name = ''QUARANTINED'' then jset ''quarantine'' mark record
      else if state_name = ''ACTIVE''
      then jset ''consecutive_failures'' (JInt 0) (jset ''quarantine'' JNull record)
      else if state_name = ''REVOKED'' then jset ''revocation'' mark record
      else record)"

definition transition ::
    "(string \<Rightarrow> string) \<Rightarrow> instant \<Rightarrow> instant \<Rightarrow> string \<Rightarrow> string \<Rightarrow> string \<Rightarrow> json option
      \<Rightarrow> json option \<times> json res" where
  "transition H now now' wid state_name reason file =
     (if state_name \<notin> set worker_states \<or> reason = [] \<or> 2048 < length reason
      then (file, throw FleetError ''Fleet transition is invalid'')
      else with_registry H now' (\<lambda>state.
        case find_by worker_key (JStr wid) (workers_of state) of
          None \<Rightarrow> throw FleetError (''Unknown fleet worker: '' @ wid)
        | Some record \<Rightarrow>
            if get_none ''state'' record = JStr ''REVOKED'' \<and> state_name \<noteq> ''REVOKED''
            then throw FleetError ''Revoked workers cannot be reactivated''
            else (let record' = transition_record now state_name reason record
                  in Inr (set_workers (upd_first (JStr wid) record' (workers_of state)) state, record'))) file)"

text \<open>The last 4096 characters of a text\<close>

definition last_chars :: "nat \<Rightarrow> string \<Rightarrow> string" where
  "last_chars n s = drop (length s - n) s"

definition health_record ::
    "(string \<Rightarrow> string) \<Rightarrow> instant \<Rightarrow> bool \<Rightarrow> json \<Rightarrow> string \<Rightarrow> int \<Rightarrow> json \<Rightarrow> json res" where
  "health_record H now passed capabilities error threshold record0 =
     (let caps = py_or capabilities (JObj []);
          evidence = JObj
            [(''checked_at'', JStr (iso now)), (''passed'', JBool passed),
             (''capabilities_sha256'', JStr (H (canonical_json_bytes caps))),
             (''runtime_id'', get_none ''runtime_id'' caps),
             (''authoritative'', get_none ''authoritative'' caps)];
          record = jset ''updated_at'' (JStr (iso now)) (jset ''last_health'' evidence record0) in
      if passed then
        res_bind (py_int (get_or ''successes'' (JInt 0) record)) (\<lambda>s.
          Inr (jset ''last_error'' JNull (jset ''successes'' (JInt (s + 1))
            (jset ''consecutive_failures'' (JInt 0) record))))
      else
        res_bind (py_int (get_or ''consecutive_failures'' (JInt 0) record)) (\<lambda>c.
        res_bind (py_int (get_or ''failures'' (JInt 0) record)) (\<lambda>f.
          let failed = jset ''last_error''
                (JStr (last_chars 4096 (if error = [] then ''Health probe failed'' else error)))
                (jset ''failures'' (JInt (f + 1)) (jset ''consecutive_failures'' (JInt (c + 1)) record))
          in Inr (if threshold \<le> c + 1
               then jset ''quarantine'' (JObj [(''at'', JStr (iso now)),
                      (''reason'', JStr ''automatic-health-threshold'')])
                    (jset ''state'' (JStr ''QUARANTINED'') failed)
               else failed))))"

definition record_health ::
    "(string \<Rightarrow> string) \<Rightarrow> instant \<Rightarrow> instant \<Rightarrow> string \<Rightarrow> bool \<Rightarrow> json \<Rightarrow> string \<Rightarrow> int \<Rightarrow> json option
      \<Rightarrow> json option \<times> json res" where
  "record_health H now now' wid passed capabilities error threshold file =
     (if \<not> (1 \<le> threshold \<and> threshold \<le> 100)
      then (file, throw FleetError ''Quarantine threshold is invalid'')
      else with_registry H now' (\<lambda>state.
        case find_by worker_key (JStr wid) (workers_of state) of
          None \<Rightarrow> throw FleetError (''Unknown fleet worker: '' @ wid)
        | Some record \<Rightarrow>
            if get_none ''state'' record = JStr ''REVOKED''
            then throw FleetError ''Cannot record health for a revoked worker''
            else res_bind (health_record H now passed capabilities error threshold record) (\<lambda>record'.
              Inr (set_workers (upd_first (JStr wid) record' (workers_of state)) state, record'))) file)"

section \<open>Selection\<close>

record worker_selection =
  sel_worker_id :: string
  sel_runtime_id :: string
  sel_endpoint :: string
  sel_priority :: int
  sel_labels :: "(string \<times> string) list"
  sel_health :: json

definition dict_or_empty :: "json \<Rightarrow> json" where
  "dict_or_empty v = (if is_dict v then v else JObj [])"

definition labels_match :: "(string \<times> string) list \<Rightarrow> json \<Rightarrow> bool" where
  "labels_match required worker_labels \<longleftrightarrow>
     list_all (\<lambda>(k, v). py_str (get_none k worker_labels) = v) required"

definition healthy :: "json \<Rightarrow> bool" where
  "healthy health \<longleftrightarrow> py_true health \<and> is_true (get_none ''passed'' health)
     \<and> is_true (get_none ''authoritative'' health)"

definition eligible :: "string \<Rightarrow> (string \<times> string) list \<Rightarrow> bool \<Rightarrow> json \<Rightarrow> bool" where
  "eligible rid required require_healthy item \<longleftrightarrow>
     get_none ''state'' item = JStr ''ACTIVE'' \<and> get_none ''runtime_id'' item = JStr rid
     \<and> labels_match required (dict_or_empty (get_none ''labels'' item))
     \<and> (require_healthy \<longrightarrow> healthy (dict_or_empty (get_none ''last_health'' item)))"

definition selection_of :: "node \<Rightarrow> json \<Rightarrow> worker_selection res" where
  "selection_of fs item =
     res_bind (jitem ''worker_id'' item) (\<lambda>w.
     res_bind (jitem ''runtime_id'' item) (\<lambda>r.
     res_bind (jitem ''endpoint'' item) (\<lambda>e.
     res_bind (resolve fs (path_join [] (py_str e))) (\<lambda>path.
     res_bind (py_int (get_or ''priority'' (JInt 100) item)) (\<lambda>p.
       Inr \<lparr>sel_worker_id = py_str w, sel_runtime_id = py_str r, sel_endpoint = path_text path,
         sel_priority = p,
         sel_labels = map (\<lambda>(k, v). (k, py_str v)) (dict_items (dict_or_empty (get_none ''labels'' item))),
         sel_health = dict_or_empty (get_none ''last_health'' item)\<rparr>)))))"

definition selection_order :: "worker_selection \<Rightarrow> int \<times> string" where
  "selection_order s = (- sel_priority s, sel_worker_id s)"

definition select ::
    "(string \<Rightarrow> string) \<Rightarrow> node \<Rightarrow> string \<Rightarrow> json \<Rightarrow> int \<Rightarrow> bool \<Rightarrow> json option \<Rightarrow> worker_selection list res" where
  "select H fs rid labels count require_healthy file =
     res_bind (fleet_labels labels) (\<lambda>required.
       if \<not> is_exact_windows_runtime_id rid \<or> \<not> (1 \<le> count \<and> count \<le> 128)
       then throw FleetError ''Fleet selection request is invalid''
       else res_bind (load_registry H file) (\<lambda>state.
         res_bind (res_map (selection_of fs) (filter (eligible rid required require_healthy) (workers_of state)))
           (\<lambda>candidates. Inr (take (nat count) (sort_key selection_order candidates)))))"

definition selection_value :: "worker_selection \<Rightarrow> json" where
  "selection_value s = JObj
     [(''worker_id'', JStr (sel_worker_id s)), (''runtime_id'', JStr (sel_runtime_id s)),
      (''endpoint'', JStr (sel_endpoint s)), (''priority'', JInt (sel_priority s)),
      (''labels'', labels_value (sel_labels s)), (''health'', sel_health s)]"

end
