(* ===== verification/Psm_Recovery.thy ===== *)
theory Psm_Recovery
  imports Psm_QueueMirror Psm_Registry Psm_Acts "HOL-Library.Multiset"
begin

text \<open>
  Restoring the queue from a backup and its mirror (\<open>QueueRecovery\<close> of \<open>recovery.py\<close>), choosing a
  replacement worker, and the signed recovery report. A database file is its digest with its
  content, or \<open>None\<close> for a content that fails SQLite's integrity check. The columns of a mirrored
  row must have the types the queue writes; SQLite would convert some other values.
\<close>

section \<open>Replaying the mirror\<close>

definition row_columns :: "string list" where
  "row_columns = [''job_id'', ''idempotency_key'', ''runtime_id'', ''payload_json'', ''payload_sha256'', ''state'',
     ''priority'', ''attempts'', ''max_attempts'', ''created_at'', ''updated_at'', ''lease_owner'',
     ''lease_expires_at'', ''result_json'', ''error'']"

definition state_of :: "string \<Rightarrow> jstate option" where
  "state_of s = (if s = ''QUEUED'' then Some QUEUED else if s = ''LEASED'' then Some LEASED
     else if s = ''COMPLETE'' then Some COMPLETE else if s = ''FAILED'' then Some FAILED else None)"

definition invalid_row :: "string \<Rightarrow> 'a res" where
  "invalid_row m = throw RecoveryError (''Queue mirror contains '' @ m)"

definition field_text :: "string \<Rightarrow> json \<Rightarrow> string" where
  "field_text k row = py_str (get_none k row)"

definition same_columns :: "json \<Rightarrow> bool" where
  "same_columns row \<longleftrightarrow> is_dict row \<and> list_all (\<lambda>p. fst p \<in> set row_columns) (dict_items row)
     \<and> list_all (\<lambda>k. jget k row \<noteq> None) row_columns"

text \<open>Membership in the set of states; a list or a dict has no hash.\<close>

definition state_known :: "json \<Rightarrow> bool res" where
  "state_known v = (case v of JStr s \<Rightarrow> Inr (state_of s \<noteq> None)
     | JArr _ \<Rightarrow> throw TypeError ''unhashable type'' | JObj _ \<Rightarrow> throw TypeError ''unhashable type''
     | _ \<Rightarrow> Inr False)"

fun check_rows :: "(string \<Rightarrow> string) \<Rightarrow> string list \<Rightarrow> string list \<Rightarrow> json list \<Rightarrow> unit res" where
  "check_rows H seen_jobs seen_keys [] = Inr ()"
| "check_rows H seen_jobs seen_keys (row # rows) =
     (let jid = field_text ''job_id'' row; key = field_text ''idempotency_key'' row;
          payload = field_text ''payload_json'' row in
      if \<not> same_columns row then invalid_row ''an invalid job row''
      else res_bind (state_known (get_none ''state'' row)) (\<lambda>known.
      if \<not> known then invalid_row ''an invalid job state''
      else if jid = [] \<or> jid \<in> set seen_jobs \<or> key = [] \<or> key \<in> set seen_keys
      then invalid_row ''duplicate job identities''
      else if H (utf8 payload) \<noteq> field_text ''payload_sha256'' row
      then throw RecoveryError ''Queue mirror payload digest verification failed''
      else res_bind (json_loads payload) (\<lambda>_. check_rows H (jid # seen_jobs) (key # seen_keys) rows)))"

text \<open>Inserting a mirrored row: the values of its columns\<close>

definition text_column :: "string \<Rightarrow> json \<Rightarrow> string res" where
  "text_column k row = (case get_none k row of JStr s \<Rightarrow> Inr s | _ \<Rightarrow> throw IntegrityError k)"

definition int_column :: "string \<Rightarrow> json \<Rightarrow> int res" where
  "int_column k row = (case get_none k row of JInt i \<Rightarrow> Inr i | _ \<Rightarrow> throw IntegrityError k)"

definition opt_column :: "string \<Rightarrow> json \<Rightarrow> string option res" where
  "opt_column k row = (case get_none k row of JStr s \<Rightarrow> Inr (Some s) | JNull \<Rightarrow> Inr None | _ \<Rightarrow> throw IntegrityError k)"

definition state_column :: "json \<Rightarrow> jstate res" where
  "state_column row = res_bind (text_column ''state'' row) (\<lambda>s. case state_of s of
     Some x \<Rightarrow> Inr x | None \<Rightarrow> throw IntegrityError ''state'')"

definition insert_row :: "json \<Rightarrow> job res" where
  "insert_row row =
     res_bind (text_column ''job_id'' row) (\<lambda>jid.
     res_bind (text_column ''idempotency_key'' row) (\<lambda>key.
     res_bind (text_column ''runtime_id'' row) (\<lambda>rid.
     res_bind (text_column ''payload_json'' row) (\<lambda>payload.
     res_bind (text_column ''payload_sha256'' row) (\<lambda>sha.
     res_bind (state_column row) (\<lambda>st.
     res_bind (int_column ''priority'' row) (\<lambda>priority.
     res_bind (int_column ''attempts'' row) (\<lambda>attempts.
     res_bind (int_column ''max_attempts'' row) (\<lambda>max_attempts.
     res_bind (text_column ''created_at'' row) (\<lambda>created.
     res_bind (text_column ''updated_at'' row) (\<lambda>updated.
     res_bind (opt_column ''lease_owner'' row) (\<lambda>owner.
     res_bind (opt_column ''lease_expires_at'' row) (\<lambda>expires.
     res_bind (opt_column ''result_json'' row) (\<lambda>result.
     res_bind (opt_column ''error'' row) (\<lambda>error.
       Inr \<lparr>j_id = jid, j_key = key, j_runtime = rid, j_payload_json = payload, j_payload_sha256 = sha,
         j_state = st, j_priority = priority, j_attempts = attempts, j_max_attempts = max_attempts,
         j_created_at = created, j_updated_at = updated, j_lease_owner = owner,
         j_lease_expires_at = expires, j_result_json = result, j_error = error\<rparr>)))))))))))))))"

definition not_applied :: "string \<Rightarrow> (string \<times> json) list \<Rightarrow> json" where
  "not_applied reason extra = JObj ([(''applied'', JBool False), (''reason'', JStr reason)] @ extra)"

text \<open>\<open>_apply_newer_mirror\<close>: the table is replaced in one transaction, or left as it is.\<close>

definition apply_newer_mirror :: "(string \<Rightarrow> string) \<Rightarrow> int \<Rightarrow> queue_store \<Rightarrow> queue_store \<times> json res" where
  "apply_newer_mirror H backup_generation st = (case mirror H st of
     Inl e \<Rightarrow> if exn_class e = FleetQueueError
       then (st, Inr (not_applied ''invalid-mirror'' [(''error_type'', JStr (exn_name e))])) else (st, Inl e)
   | Inr None \<Rightarrow> (st, Inr (not_applied ''not-newer'' [(''generation'', JNull)]))
   | Inr (Some m) \<Rightarrow>
       if mirror_generation m \<le> backup_generation
       then (st, Inr (not_applied ''not-newer'' [(''generation'', JInt (mirror_generation m))]))
       else
         (let rows = list_items (get_none ''jobs'' m) in
          case res_bind (check_rows H [] [] rows) (\<lambda>_. res_map insert_row rows) of
            Inl e \<Rightarrow> (st, Inl e)
          | Inr jobs \<Rightarrow>
              (st\<lparr>qs_db := \<lparr>q_jobs = jobs, q_generation = mirror_generation m\<rparr>\<rparr>,
               Inr (JObj [(''applied'', JBool True), (''generation'', JInt (mirror_generation m)),
                 (''jobs'', JInt (int (length rows))), (''mirror_sha256'', get_none ''mirror_sha256'' m)]))))"

section \<open>Backups\<close>

record db_file =
  df_sha :: string
  df_content :: "queue_db option"

record queue_backup =
  qb_source_sha :: string
  qb_sha :: string
  qb_manifest :: string
  qb_database :: string
  qb_generation :: int

text \<open>The value \<open>backup\<close> writes next to a copy of the database\<close>

definition backup_manifest ::
    "(string \<Rightarrow> string) \<Rightarrow> instant \<Rightarrow> string \<Rightarrow> string \<Rightarrow> db_file \<Rightarrow> queue_db \<Rightarrow> json option \<Rightarrow> string \<Rightarrow> json" where
  "backup_manifest H now source name file db m source_sha =
     (let v = JObj
        [(''schema'', JInt 2), (''created_at'', JStr (iso now)), (''source'', JStr source),
         (''source_sha256'', JStr source_sha), (''backup'', JStr name), (''backup_sha256'', JStr (df_sha file)),
         (''generation'', JInt (q_generation db)),
         (''mirror_generation'', case m of None \<Rightarrow> JNull | Some v \<Rightarrow> JInt (mirror_generation v)),
         (''mirror_sha256'', case m of None \<Rightarrow> JNull | Some v \<Rightarrow> JStr (py_str (get_none ''mirror_sha256'' v))),
         (''counts'', state_counts (q_jobs db))]
      in jset ''manifest_sha256'' (JStr (digest H v)) v)"

text \<open>One round of \<open>latest_valid_backup\<close>: any exception means that the manifest is skipped.\<close>

definition valid_backup ::
    "(string \<Rightarrow> string) \<Rightarrow> (string \<Rightarrow> db_file option) \<Rightarrow> string \<times> json option \<Rightarrow> (queue_backup \<times> queue_db) option" where
  "valid_backup H files = (\<lambda>(name, manifest). case manifest of
     None \<Rightarrow> None
   | Some value \<Rightarrow>
       (case res_bind (if is_dict value then Inr () else throw AttributeError ''get'') (\<lambda>_.
          res_bind (jitem ''backup'' value) (\<lambda>b.
          let database = py_str b in
          if text_field ''manifest_sha256'' value \<noteq> digest H (jdel ''manifest_sha256'' value)
          then throw RecoveryError ''''
          else (case files database of
              None \<Rightarrow> throw RecoveryError ''''
            | Some f \<Rightarrow>
                res_bind (jitem ''backup_sha256'' value) (\<lambda>sha.
                if sha \<noteq> JStr (df_sha f) then throw RecoveryError ''''
                else (case df_content f of
                    None \<Rightarrow> throw RecoveryError ''''
                  | Some db \<Rightarrow>
                      res_bind (jitem ''source_sha256'' value) (\<lambda>source.
                      res_bind (py_int (get_or ''generation'' (JInt 0) value)) (\<lambda>g.
                        Inr (\<lparr>qb_source_sha = py_str source, qb_sha = df_sha f, qb_manifest = name,
                          qb_database = database, qb_generation = g\<rparr>, db)))))))) of
          Inl e \<Rightarrow> None
        | Inr b \<Rightarrow> Some b))"

definition latest_valid_backup ::
    "(string \<Rightarrow> string) \<Rightarrow> (string \<Rightarrow> db_file option) \<Rightarrow> (string \<times> json option) list \<Rightarrow> (queue_backup \<times> queue_db) option" where
  "latest_valid_backup H files manifests =
     (case List.map_filter (valid_backup H files) (rev (sort_key fst manifests)) of [] \<Rightarrow> None | b # _ \<Rightarrow> Some b)"

text \<open>What \<open>inspect\<close> says of a database that SQLite finds intact, with the digest of its file\<close>

definition intact_inspection :: "string \<Rightarrow> queue_db \<Rightarrow> json" where
  "intact_inspection sha db = JObj [(''valid'', JBool True), (''errors'', JArr []),
     (''counts'', state_counts (q_jobs db)), (''sha256'', JStr sha)]"

text \<open>\<open>restore_latest\<close>: the copy of the backup becomes the database, then the mirror is replayed and
  rewritten. A file that was verified a moment ago copies with the same digest, and the table just
  filled passes the integrity check; the name of the quarantined file and the digest of the
  resulting database file are given.\<close>

definition restore_latest ::
    "(string \<Rightarrow> string) \<Rightarrow> instant \<Rightarrow> string \<Rightarrow> (queue_db \<Rightarrow> string) \<Rightarrow> (string \<Rightarrow> db_file option)
      \<Rightarrow> (string \<times> json option) list \<Rightarrow> queue_store \<Rightarrow> queue_store \<times> json res" where
  "restore_latest H now quarantined file_sha files manifests st =
     (case latest_valid_backup H files manifests of
        None \<Rightarrow> (st, throw RecoveryError ''No valid fleet queue backup is available'')
      | Some (b, db) \<Rightarrow>
          (case apply_newer_mirror H (qb_generation b) (st\<lparr>qs_db := db\<rparr>) of
             (st', Inl e) \<Rightarrow> (st', Inl e)
           | (st', Inr replay) \<Rightarrow>
               (write_mirror H now st',
                Inr (JObj [(''restored'', JBool True), (''backup'', JStr (qb_database b)),
                  (''backup_generation'', JInt (qb_generation b)), (''quarantined'', JStr quarantined),
                  (''mirror_replay'', replay),
                  (''inspection'', intact_inspection (file_sha (qs_db st')) (qs_db st'))]))))"


section \<open>Replacement workers\<close>

text \<open>\<open>select_replacement_worker\<close>: what the registry refuses about the failed worker is ignored.\<close>

definition retire_worker :: "(string \<Rightarrow> string) \<Rightarrow> instant \<Rightarrow> instant \<Rightarrow> string \<Rightarrow> json option \<Rightarrow> json option \<times> unit res" where
  "retire_worker H now now' wid f = (case get_worker H wid f of
     Inl e \<Rightarrow> (f, if exn_class e = FleetError then Inr () else Inl e)
   | Inr w \<Rightarrow>
       if get_none ''state'' w = JStr ''ACTIVE''
       then (case transition H now now' wid ''QUARANTINED'' ''automatic-recovery-replacement'' f of
           (f', Inl e) \<Rightarrow> (f', if exn_class e = FleetError then Inr () else Inl e)
         | (f', Inr _) \<Rightarrow> (f', Inr ()))
       else (f, Inr ()))"

definition select_replacement_worker ::
    "(string \<Rightarrow> string) \<Rightarrow> node \<Rightarrow> instant \<Rightarrow> instant \<Rightarrow> string \<Rightarrow> string \<Rightarrow> json \<Rightarrow> json option \<Rightarrow> json option \<times> json res" where
  "select_replacement_worker H fs now now' rid failed labels f = (case retire_worker H now now' failed f of
     (f', Inl e) \<Rightarrow> (f', Inl e)
   | (f', Inr _) \<Rightarrow>
       (f', res_bind (select H fs rid labels 128 True f') (\<lambda>selected.
         case filter (\<lambda>s. sel_worker_id s \<noteq> failed) selected of
           [] \<Rightarrow> throw RecoveryError (''No replacement worker is available for '' @ rid)
         | s # _ \<Rightarrow> Inr (JObj [(''failed_worker_id'', JStr failed), (''replacement'', selection_value s)]))))"

section \<open>The signed report\<close>

definition campaign_type :: string where
  "campaign_type = ''https://psmatrix.dev/attestation/recovery-campaign/v1''"

definition sign_recovery_report ::
    "(string \<Rightarrow> string) \<Rightarrow> (json \<Rightarrow> string \<Rightarrow> string \<Rightarrow> json res) \<Rightarrow> json \<Rightarrow> string \<Rightarrow> string \<Rightarrow> json res" where
  "sign_recovery_report H sign report private_key public_key =
     (let body = jdel ''report_sha256'' report; computed = digest H body; declared = get_none ''report_sha256'' report in
      if declared \<noteq> JNull \<and> declared \<noteq> JStr computed
      then throw RecoveryError ''Recovery report self-digest verification failed''
      else
        let payload = jset ''report_sha256'' (JStr computed) body in
        sign (JObj [(''_type'', JStr ''https://in-toto.io/Statement/v1''),
          (''subject'', JArr [JObj [(''name'', JStr ''recovery-report.json''),
             (''digest'', JObj [(''sha256'', JStr (digest H payload))])]]),
          (''predicateType'', JStr campaign_type), (''predicate'', payload)]) private_key public_key)"

definition names_digest :: "string \<Rightarrow> json \<Rightarrow> bool res" where
  "names_digest expected item = (if \<not> is_dict item then Inr False
     else res_bind (dget_none ''sha256'' (get_or ''digest'' (JObj []) item)) (\<lambda>s. Inr (s = JStr expected)))"

definition verify_recovery_report ::
    "(string \<Rightarrow> string) \<Rightarrow> (json \<Rightarrow> string \<Rightarrow> json res) \<Rightarrow> json \<Rightarrow> string \<Rightarrow> json res" where
  "verify_recovery_report H check envelope public_key =
     res_bind (check envelope public_key) (\<lambda>result.
     res_bind (jitem ''statement'' result) (\<lambda>statement.
     res_bind (dget_none ''predicateType'' statement) (\<lambda>kind.
     if kind \<noteq> JStr campaign_type then throw RecoveryError ''Unsupported recovery attestation predicate''
     else
       let report = get_none ''predicate'' statement in
       if \<not> is_dict report \<or> get_none ''kind'' report \<noteq> JStr ''psmatrix.recovery-campaign''
       then throw RecoveryError ''Recovery attestation payload is malformed''
       else if text_field ''report_sha256'' report \<noteq> digest H (jdel ''report_sha256'' report)
       then throw RecoveryError ''Recovery report self-digest verification failed''
       else
         res_bind (py_iter (py_or (get_none ''subject'' statement) (JArr []))) (\<lambda>subjects.
         res_bind (res_find (names_digest (digest H report)) subjects) (\<lambda>found.
         if found = None then throw RecoveryError ''Recovery attestation is not bound to its report''
         else res_bind (jitem ''key_ids'' result) (\<lambda>key_ids.
           Inr (JObj [(''valid'', JBool True), (''key_ids'', key_ids), (''report'', report)])))))))"

section \<open>What a replay restores\<close>

lemma state_of_text: "state_of (state_text s) = Some s"
  by (cases s) (simp_all add: state_of_def)

lemma raw_row_fields:
  "get_none ''job_id'' (raw_row r) = JStr (j_id r)" "get_none ''idempotency_key'' (raw_row r) = JStr (j_key r)"
  "get_none ''runtime_id'' (raw_row r) = JStr (j_runtime r)" "get_none ''payload_json'' (raw_row r) = JStr (j_payload_json r)"
  "get_none ''payload_sha256'' (raw_row r) = JStr (j_payload_sha256 r)" "get_none ''state'' (raw_row r) = JStr (state_text (j_state r))"
  "get_none ''priority'' (raw_row r) = JInt (j_priority r)" "get_none ''attempts'' (raw_row r) = JInt (j_attempts r)"
  "get_none ''max_attempts'' (raw_row r) = JInt (j_max_attempts r)" "get_none ''created_at'' (raw_row r) = JStr (j_created_at r)"
  "get_none ''updated_at'' (raw_row r) = JStr (j_updated_at r)" "get_none ''lease_owner'' (raw_row r) = opt_str (j_lease_owner r)"
  "get_none ''lease_expires_at'' (raw_row r) = opt_str (j_lease_expires_at r)"
  "get_none ''result_json'' (raw_row r) = opt_str (j_result_json r)" "get_none ''error'' (raw_row r) = opt_str (j_error r)"
  by (simp_all add: raw_row_def get_or_def)

lemma opt_column_str: "get_none k v = opt_str x \<Longrightarrow> opt_column k v = Inr x"
  by (cases x) (simp_all add: opt_column_def opt_str_def)

lemma insert_raw_row: "insert_row (raw_row r) = Inr r"
  by (cases r) (simp add: insert_row_def text_column_def int_column_def state_column_def raw_row_fields state_of_text
      opt_column_str)

lemma insert_raw_rows: "res_map insert_row (map raw_row rs) = Inr rs"
  by (induction rs) (simp_all add: insert_raw_row)

lemma same_columns_raw: "same_columns (raw_row r)"
  by (simp add: same_columns_def raw_row_def row_columns_def)

definition replayable :: "(string \<Rightarrow> string) \<Rightarrow> job \<Rightarrow> bool" where
  "replayable H r \<longleftrightarrow> j_id r \<noteq> [] \<and> j_key r \<noteq> [] \<and> j_payload_sha256 r = H (utf8 (j_payload_json r))
     \<and> loads (j_payload_json r) \<noteq> None"

lemma check_raw_rows:
  "list_all (replayable H) rs \<Longrightarrow> distinct (map j_id rs) \<Longrightarrow> distinct (map j_key rs)
     \<Longrightarrow> set (map j_id rs) \<inter> set js = {} \<Longrightarrow> set (map j_key rs) \<inter> set ks = {}
     \<Longrightarrow> check_rows H js ks (map raw_row rs) = Inr ()"
proof (induction rs arbitrary: js ks)
  case (Cons r rs)
  then have "check_rows H (j_id r # js) (j_key r # ks) (map raw_row rs) = Inr ()" by (intro Cons.IH) auto
  with Cons.prems show ?case
    by (auto simp: field_text_def raw_row_fields py_str_def state_known_def state_of_text replayable_def json_loads_def
        same_columns_raw)
qed simp

lemma distinct_sort_rows: "distinct (map f (sort_rows rs)) \<longleftrightarrow> distinct (map f rs)"
proof -
  have "mset (map f (sort_rows rs)) = mset (map f rs)" by (simp only: sort_rows_def mset_map mset_sort)
  then show ?thesis by (rule mset_eq_imp_distinct_iff)
qed

lemma set_sort_rows: "set (sort_rows rs) = set rs"
  by (simp add: sort_rows_def)

lemma find_sort_rows: "distinct (map j_id rs) \<Longrightarrow> find_by j_id jid (sort_rows rs) = find_by j_id jid rs"
  by (intro find_by_distinct_perm) (simp_all add: distinct_sort_rows set_sort_rows)

text \<open>A mirror newer than the backup is replayed whole.\<close>

lemma newer_mirror_replayed:
  assumes "qs_mirror st = Mirror (mirror_payload H name t db)" and "0 \<le> q_generation db"
    and "bg < q_generation db" and "list_all (replayable H) (q_jobs db)"
    and "distinct (map j_id (q_jobs db))" and "distinct (map j_key (q_jobs db))"
  shows "\<exists>replay. apply_newer_mirror H bg st =
    (st\<lparr>qs_db := \<lparr>q_jobs = sort_rows (q_jobs db), q_generation = q_generation db\<rparr>\<rparr>, Inr replay)"
proof -
  have "check_rows H [] [] (map raw_row (sort_rows (q_jobs db))) = Inr ()"
    using assms(4-) by (intro check_raw_rows) (simp_all add: distinct_sort_rows list_all_iff set_sort_rows)
  with assms(1-3) show ?thesis
    by (auto simp: apply_newer_mirror_def mirror_def check_mirror_written mirror_generation_def mirror_payload_fields
        insert_raw_rows Let_def)
qed

text \<open>The view of a queue its clients have: the row of every job id.\<close>

definition job_view :: "queue_db \<Rightarrow> string \<Rightarrow> job option" where
  "job_view db jid = find_by j_id jid (q_jobs db)"

text \<open>The manifest \<open>backup\<close> writes is one \<open>latest_valid_backup\<close> accepts.\<close>

lemma manifest_fields:
  fixes now :: instant and m :: "json option" and db :: queue_db and f :: db_file and H :: "string \<Rightarrow> string" and name source source_sha :: string
  defines "v \<equiv> backup_manifest H now source name f db m source_sha"
  shows "is_dict v" "jitem ''backup'' v = Inr (JStr name)" "jitem ''backup_sha256'' v = Inr (JStr (df_sha f))"
    and "jitem ''source_sha256'' v = Inr (JStr source_sha)" "get_or ''generation'' d v = JInt (q_generation db)"
    and "text_field ''manifest_sha256'' v = digest H (jdel ''manifest_sha256'' v)"
proof -
  let ?w = "JObj
        [(''schema'', JInt 2), (''created_at'', JStr (iso now)), (''source'', JStr source),
         (''source_sha256'', JStr source_sha), (''backup'', JStr name), (''backup_sha256'', JStr (df_sha f)),
         (''generation'', JInt (q_generation db)),
         (''mirror_generation'', case m of None \<Rightarrow> JNull | Some v \<Rightarrow> JInt (mirror_generation v)),
         (''mirror_sha256'', case m of None \<Rightarrow> JNull | Some v \<Rightarrow> JStr (py_str (get_none ''mirror_sha256'' v))),
         (''counts'', state_counts (q_jobs db))]"
  have v: "v = jset ''manifest_sha256'' (JStr (digest H ?w)) ?w"
    by (simp add: v_def backup_manifest_def Let_def)
  have "jdel ''manifest_sha256'' v = ?w" unfolding v by (rule jdel_jset_new) simp_all
  then show "text_field ''manifest_sha256'' v = digest H (jdel ''manifest_sha256'' v)"
    by (simp add: v text_field_def py_or_def get_or_def)
  show "is_dict v" "jitem ''backup'' v = Inr (JStr name)" "jitem ''backup_sha256'' v = Inr (JStr (df_sha f))"
    "jitem ''source_sha256'' v = Inr (JStr source_sha)" "get_or ''generation'' d v = JInt (q_generation db)"
    by (simp_all add: v jitem_def get_or_def)
qed

lemma backup_valid:
  assumes "files name = Some f" and "df_content f = Some db"
  shows "valid_backup H files (mname, Some (backup_manifest H now source name f db m source_sha))
    = Some (\<lparr>qb_source_sha = source_sha, qb_sha = df_sha f, qb_manifest = mname, qb_database = name,
        qb_generation = q_generation db\<rparr>, db)"
  using assms by (simp add: valid_backup_def manifest_fields py_str_def Let_def)

text \<open>C22: Restoring loses no job: whatever became of the database file, when an older backup is
  valid and the mirror file is current, the restored queue shows its clients the row of every job
  the lost database had, at its generation, and its mirror verifies again.\<close>

theorem restore_refines_lost_database:
  assumes "queue_ok H st" and "mirror H st = Inr (Some v)" and "mirror_generation v = q_generation (qs_db st)"
    and "latest_valid_backup H files manifests = Some (b, old)" and "qb_generation b < q_generation (qs_db st)"
    and "list_all (\<lambda>r. j_id r \<noteq> [] \<and> j_key r \<noteq> [] \<and> loads (j_payload_json r) \<noteq> None) (q_jobs (qs_db st))"
  shows "\<exists>st' report. restore_latest H now quarantined file_sha files manifests (st\<lparr>qs_db := corrupted\<rparr>) = (st', Inr report)
    \<and> job_view (qs_db st') = job_view (qs_db st) \<and> q_generation (qs_db st') = q_generation (qs_db st)
    \<and> queue_ok H st'"
proof -
  let ?db = "qs_db st"
  let ?new = "\<lparr>q_jobs = sort_rows (q_jobs ?db), q_generation = q_generation ?db\<rparr>"
  from assms(1) obtain t db0 where m: "qs_mirror st = Mirror (mirror_payload H (qs_name st) t db0)" "0 \<le> q_generation db0"
    "q_generation db0 = q_generation ?db \<longrightarrow> db0 = ?db" and ok: "db_ok H ?db"
    by (auto simp: queue_ok_def mirror_of_def)
  then have "db0 = ?db" using assms(2,3)
    by (auto simp: mirror_def check_mirror_written mirror_generation_def mirror_payload_fields)
  note ok' = ok [unfolded db_ok_def list_all_iff job_ok_def stored_ok_def]
  have "list_all (replayable H) (q_jobs ?db)"
    using assms(6) ok' by (auto simp: list_all_iff replayable_def)
  with newer_mirror_replayed [of "st\<lparr>qs_db := old\<rparr>" H "qs_name st" t ?db "qb_generation b"] m ok' assms(5) \<open>db0 = ?db\<close>
  obtain replay where "apply_newer_mirror H (qb_generation b) (st\<lparr>qs_db := old\<rparr>) = (st\<lparr>qs_db := ?new\<rparr>, Inr replay)"
    by auto
  then have "\<exists>report. restore_latest H now quarantined file_sha files manifests (st\<lparr>qs_db := corrupted\<rparr>)
      = (write_mirror H now (st\<lparr>qs_db := ?new\<rparr>), Inr report)"
    using assms(4) by (simp add: restore_latest_def)
  moreover have "qs_db (write_mirror H now (st\<lparr>qs_db := ?new\<rparr>)) = ?new" by (simp add: write_mirror_def)
  moreover have "job_view ?new = job_view ?db" using ok' by (auto simp: job_view_def find_sort_rows)
  moreover have "db_ok H ?new" using ok by (simp add: db_ok_def distinct_sort_rows list_all_iff set_sort_rows)
  then have "queue_ok H (write_mirror H now (st\<lparr>qs_db := ?new\<rparr>))" by (intro write_mirror_ok) simp
  ultimately show ?thesis by fastforce
qed

definition demo_old :: queue_db where
  "demo_old = \<lparr>q_jobs = [], q_generation = 0\<rparr>"

definition demo_backup :: db_file where
  "demo_backup = \<lparr>df_sha = ''s'', df_content = Some demo_old\<rparr>"

definition demo_manifests :: "(string \<times> json option) list" where
  "demo_manifests = [(''queue-1.json'',
      Some (backup_manifest demo_H 0 ''q.db'' ''queue-1.sqlite3'' demo_backup demo_old None ''x'')), (''queue-2.json'', None)]"

lemma demo_latest:
  "latest_valid_backup demo_H [''queue-1.sqlite3'' \<mapsto> demo_backup] demo_manifests
   = Some (\<lparr>qb_source_sha = ''x'', qb_sha = ''s'', qb_manifest = ''queue-1.json'', qb_database = ''queue-1.sqlite3'',
       qb_generation = 0\<rparr>, demo_old)"
proof -
  have "valid_backup demo_H [''queue-1.sqlite3'' \<mapsto> demo_backup] (''queue-2.json'', None) = None"
    by (simp add: valid_backup_def)
  moreover have "sort_key fst demo_manifests = demo_manifests" by (simp add: demo_manifests_def)
  moreover have "df_content demo_backup = Some demo_old" "df_sha demo_backup = ''s''" "q_generation demo_old = 0"
    by (simp_all add: demo_backup_def demo_old_def)
  ultimately show ?thesis
    by (simp add: latest_valid_backup_def demo_manifests_def backup_valid map_filter_simps)
qed

theorem restore_refines_lost_database_witness:
  "\<exists>st' report. restore_latest demo_H 0 ''q.db.corrupt'' (\<lambda>db. ''f'') [''queue-1.sqlite3'' \<mapsto> demo_backup] demo_manifests
     ((demo_store LEASED 1)\<lparr>qs_db := \<lparr>q_jobs = [], q_generation = 99\<rparr>\<rparr>) = (st', Inr report)
   \<and> job_view (qs_db st') ''j'' = Some (demo_job LEASED 1)"
proof -
  let ?v = "mirror_payload demo_H ''q.db'' 0 (qs_db (demo_store LEASED 1))"
  have m: "mirror demo_H (demo_store LEASED 1) = Inr (Some ?v)"
    unfolding mirror_def by (simp add: demo_store_def write_mirror_def check_mirror_written)
  have g: "mirror_generation ?v = q_generation (qs_db (demo_store LEASED 1))"
    by (simp add: mirror_generation_def mirror_payload_fields)
  have "loads ''{}'' \<noteq> None" by code_simp
  then have j: "list_all (\<lambda>r. j_id r \<noteq> [] \<and> j_key r \<noteq> [] \<and> loads (j_payload_json r) \<noteq> None)
      (q_jobs (qs_db (demo_store LEASED 1)))"
    by (simp add: demo_job_def)
  have "job_view (qs_db (demo_store LEASED 1)) ''j'' = Some (demo_job LEASED 1)" by (simp add: job_view_def)
  with restore_refines_lost_database [OF demo_store_ok(2) m g demo_latest _ j, where corrupted = "\<lparr>q_jobs = [], q_generation = 99\<rparr>"
      and now = 0 and quarantined = "''q.db.corrupt''" and file_sha = "\<lambda>db. ''f''"]
  show ?thesis by auto
qed

end
