(* ===== verification/Psm_RegistryProps.thy ===== *)
theory Psm_RegistryProps
  imports Psm_Registry
begin

text \<open>
  What the worker registry promises: whatever is saved loads again, the records stay well formed
  and their ids unique along every sequence of operations, an operation touches one worker only,
  selection returns healthy active workers in order, and failing probes lead to quarantine. The
  laws of the table of records come from the interpretation of \<open>keyed_table\<close>.
\<close>

section \<open>Saving and loading\<close>

definition hex_digest :: "(string \<Rightarrow> string) \<Rightarrow> bool" where
  "hex_digest H \<longleftrightarrow> (\<forall>s. length (H s) = 64)"

lemma jdel_jset_same [simp]: "jdel k (jset k x v) = jdel k v"
proof -
  have "filter (\<lambda>p. fst p \<noteq> k) (AList.update k x kvs) = filter (\<lambda>p. fst p \<noteq> k) kvs" for kvs
    by (induction kvs) auto
  then show ?thesis by (simp add: jdel_def jset_def)
qed

lemma workers_jset [simp]:
  "workers_of (set_workers ws state) = ws"
  "k \<noteq> ''workers'' \<Longrightarrow> workers_of (jset k x state) = workers_of state"
  by (simp_all add: workers_of_def set_workers_def)

definition state_ok :: "json \<Rightarrow> bool" where
  "state_ok s \<longleftrightarrow> is_dict s \<and> eq_int (get_none ''schema'' s) 1 \<and> is_list (get_none ''workers'' s)"

lemma state_ok_jset [simp]:
  "k \<noteq> ''schema'' \<Longrightarrow> k \<noteq> ''workers'' \<Longrightarrow> state_ok (jset k x s) \<longleftrightarrow>
     eq_int (get_none ''schema'' s) 1 \<and> is_list (get_none ''workers'' s)"
  "state_ok (set_workers ws s) \<longleftrightarrow> eq_int (get_none ''schema'' s) 1"
  by (simp_all add: state_ok_def set_workers_def)

lemma load_state_ok:
  assumes "load_registry H reg = Inr s"
  shows "state_ok s" and "list_all worker_ok (workers_of s)"
proof -
  show "state_ok s"
    using assms by (auto simp: load_registry_def state_ok_def empty_registry_def get_or_def
        split: option.splits if_splits json.splits)
  show "list_all worker_ok (workers_of s)"
    using assms by (auto simp: load_registry_def workers_of_def empty_registry_def get_or_def
        split: option.splits if_splits json.splits)
qed

lemma save_registryD:
  assumes "save_registry H now s = Inr p"
  shows "\<exists>g. py_int (get_or ''generation'' (JInt 0) s) = Inr g \<and> get_none ''generation'' p = JInt (g + 1)"
    and "workers_of p = workers_of s"
  using assms by (auto simp: save_registry_def Let_def)

text \<open>What was saved verifies when it is loaded.\<close>

lemma load_saved:
  assumes "save_registry H now s = Inr p" "hex_digest H" "state_ok s" "list_all worker_ok (workers_of s)"
  shows "load_registry H (Some p) = Inr p"
proof -
  from assms(1) obtain g where p: "p = jset ''digest'' (JStr (state_digest H (jdel ''digest''
      (jset ''updated_at'' (JStr (iso now)) (jset ''generation'' (JInt (g + 1)) s)))))
      (jset ''updated_at'' (JStr (iso now)) (jset ''generation'' (JInt (g + 1)) s))"
    by (auto simp: save_registry_def Let_def)
  have "length (state_digest H v) = 64" for v using assms(2) by (simp add: state_digest_def hex_digest_def)
  with assms(3,4) show ?thesis
    by (simp add: p load_registry_def state_ok_def workers_of_def)
qed

section \<open>Well-formed registries\<close>

definition record_ok :: "json \<Rightarrow> bool" where
  "record_ok w \<longleftrightarrow> worker_ok w
     \<and> (case worker_key w of JStr s \<Rightarrow> id_match s | _ \<Rightarrow> False)
     \<and> is_int (get_none ''successes'' w) \<and> is_int (get_none ''failures'' w)
     \<and> is_int (get_none ''consecutive_failures'' w)"

definition workers_ok :: "json list \<Rightarrow> bool" where
  "workers_ok ws \<longleftrightarrow> list_all record_ok ws \<and> distinct (map worker_key ws)
     \<and> sorted (map (\<lambda>w. py_str (worker_key w)) ws)"

definition registry_ok :: "(string \<Rightarrow> string) \<Rightarrow> json option \<Rightarrow> bool" where
  "registry_ok H reg = (case load_registry H reg of
     Inl e \<Rightarrow> False
   | Inr s \<Rightarrow> workers_ok (workers_of s) \<and> is_int (get_none ''generation'' s))"

lemma is_int_iff: "is_int v \<longleftrightarrow> (\<exists>i. v = JInt i)" if "\<not> (\<exists>b. v = JBool b)"
  using that by (cases v) auto

lemma record_okE:
  assumes "record_ok w"
  obtains s where "worker_key w = JStr s" "id_match s"
  using assms by (auto simp: record_ok_def split: json.splits)

text \<open>Replacing the record of a worker by one with the same id\<close>

lemma upd_first_upd_by:
  assumes "distinct (map worker_key ws)" "worker_key r = k"
  shows "upd_first k r ws = upd_by worker_key k (\<lambda>x. r) ws"
  using assms(1)
proof (induction ws)
  case (Cons x xs)
  show ?case
  proof (cases "worker_key x = k")
    case True
    with Cons.prems have "k \<notin> worker_key ` set xs" by auto
    then have "map (\<lambda>y. if worker_key y = k then r else y) xs = xs" by (intro map_idI) auto
    with True show ?thesis by (simp add: upd_by_def)
  qed (use Cons in \<open>simp add: upd_by_def\<close>)
qed (simp add: upd_by_def)

lemma upd_first_keys: "worker_key r = k \<Longrightarrow> map worker_key (upd_first k r ws) = map worker_key ws"
  by (induction ws) auto

lemma upd_first_set: "set (upd_first k r ws) \<subseteq> insert r (set ws)"
  by (induction ws) auto

lemma find_upd_first:
  assumes "worker_key r = k" "find_by worker_key k ws \<noteq> None"
  shows "find_by worker_key k (upd_first k r ws) = Some r"
  using assms(2) by (induction ws) (auto simp: find_by_def assms(1))

lemma find_upd_first_other:
  "k' \<noteq> k \<Longrightarrow> worker_key r = k \<Longrightarrow> find_by worker_key k' (upd_first k r ws) = find_by worker_key k' ws"
  by (induction ws) (auto simp: find_by_def)

lemma workers_ok_upd:
  assumes "workers_ok ws" "record_ok r" "worker_key r = k"
  shows "workers_ok (upd_first k r ws)"
proof -
  have "list_all record_ok (upd_first k r ws)"
    using assms(1,2) upd_first_set [of k r ws] by (auto simp: workers_ok_def list_all_iff)
  moreover have "map worker_key (upd_first k r ws) = map worker_key ws"
    using assms(3) by (rule upd_first_keys)
  moreover from this have "map (\<lambda>w. py_str (worker_key w)) (upd_first k r ws) = map (\<lambda>w. py_str (worker_key w)) ws"
    by (metis (no_types, lifting) list.map_comp comp_def map_eq_conv)
  ultimately show ?thesis using assms(1) by (simp add: workers_ok_def)
qed

lemma workers_ok_enroll:
  assumes "workers_ok ws" "record_ok r" "worker_key r = k"
    "sorted_workers (filter (\<lambda>w. worker_key w \<noteq> k) ws @ [r]) = Inr ws'"
  shows "workers_ok ws'" and "set ws' = insert r {w \<in> set ws. worker_key w \<noteq> k}"
proof -
  have ws': "ws' = sort_key (\<lambda>w. py_str (worker_key w)) (filter (\<lambda>w. worker_key w \<noteq> k) ws @ [r])"
    using assms(4) by (auto simp: sorted_workers_def split: if_splits)
  then show s: "set ws' = insert r {w \<in> set ws. worker_key w \<noteq> k}" by auto
  have "distinct (map worker_key (filter (\<lambda>w. worker_key w \<noteq> k) ws @ [r]))"
    using assms(1,3) by (auto simp: workers_ok_def distinct_map inj_on_def)
  then have "distinct (map worker_key ws')"
    using assms(3) by (auto simp: ws' distinct_map)
  with assms(1,2) s show "workers_ok ws'"
    by (auto simp: workers_ok_def list_all_iff ws')
qed

lemma jget_none_dict: "get_none k w \<noteq> JNull \<Longrightarrow> is_dict w"
  by (cases w) (auto simp: get_or_def jget_def)

lemma worker_ok_jset:
  "worker_ok w \<Longrightarrow> k \<noteq> ''state'' \<Longrightarrow> worker_ok (jset k x w)"
  "s \<in> set worker_states \<Longrightarrow> worker_ok (jset ''state'' (JStr s) w)"
  by (simp_all add: worker_ok_def)

lemma record_ok_jset:
  "record_ok w \<Longrightarrow> k \<notin> {''state'', ''worker_id'', ''successes'', ''failures'', ''consecutive_failures''}
    \<Longrightarrow> record_ok (jset k x w)"
  "record_ok w \<Longrightarrow> k \<in> {''successes'', ''failures'', ''consecutive_failures''} \<Longrightarrow> record_ok (jset k (JInt i) w)"
  "record_ok w \<Longrightarrow> s \<in> set worker_states \<Longrightarrow> record_ok (jset ''state'' (JStr s) w)"
  by (auto simp: record_ok_def worker_ok_jset worker_key_def)

lemma worker_key_jset [simp]: "k \<noteq> ''worker_id'' \<Longrightarrow> worker_key (jset k x w) = worker_key w"
  by (simp add: worker_key_def)

lemma transition_record_ok:
  assumes "record_ok w" "s \<in> set worker_states"
  shows "record_ok (transition_record now s reason w)"
    and "worker_key (transition_record now s reason w) = worker_key w"
  using assms(1) unfolding transition_record_def Let_def
  by (simp_all only: split: if_split) (simp_all add: record_ok_jset assms(2), simp_all add: record_ok_jset worker_states_def)

lemma health_record_ok:
  assumes "record_ok w" "health_record H now passed caps err n w = Inr w'"
  shows "record_ok w'" and "worker_key w' = worker_key w"
  using assms by (auto simp: health_record_def Let_def record_ok_jset worker_states_def split: if_splits)

section \<open>Operations and runs\<close>

datatype registry_op =
    Enroll string string string json int bool "string option" "string option" "string option"
  | Transition string string string
  | Health string bool json string int

fun reg_exec ::
    "(string \<Rightarrow> string) \<Rightarrow> (string \<Rightarrow> bool) \<Rightarrow> instant \<Rightarrow> instant \<Rightarrow> registry_op \<Rightarrow> json option
      \<Rightarrow> json option \<times> json res" where
  "reg_exec H is_there now now' (Enroll wid rid path labels priority replace config priv pub) reg =
     enroll H is_there now now' wid rid path labels priority replace config priv pub reg"
| "reg_exec H is_there now now' (Transition wid s reason) reg = transition H now now' wid s reason reg"
| "reg_exec H is_there now now' (Health wid passed caps err n) reg =
     record_health H now now' wid passed caps err n reg"

fun op_worker :: "registry_op \<Rightarrow> string" where
  "op_worker (Enroll wid rid path labels priority replace config priv pub) = wid"
| "op_worker (Transition wid s reason) = wid"
| "op_worker (Health wid passed caps err n) = wid"

text \<open>
  Every operation either fails and leaves the file, or saves a state in which the record of its
  worker is new and every other record is the old one.
\<close>

definition reg_change :: "(string \<Rightarrow> string) \<Rightarrow> string \<Rightarrow> json option \<Rightarrow> json option \<Rightarrow> json \<Rightarrow> bool" where
  "reg_change H wid reg reg' record \<longleftrightarrow>
     (\<exists>s p. load_registry H reg = Inr s \<and> reg' = Some p \<and> load_registry H (Some p) = Inr p
        \<and> workers_ok (workers_of p) \<and> is_int (get_none ''generation'' p)
        \<and> (\<exists>g. py_int (get_or ''generation'' (JInt 0) s) = Inr g \<and> get_none ''generation'' p = JInt (g + 1))
        \<and> find_by worker_key (JStr wid) (workers_of p) = Some record
        \<and> (\<forall>k. k \<noteq> JStr wid \<longrightarrow> find_by worker_key k (workers_of p) = find_by worker_key k (workers_of s)))"

lemma with_registry_cases:
  obtains (failed) e where "with_registry H now f reg = (reg, Inl e)"
  | (saved) s s' r p where "load_registry H reg = Inr s" "f s = Inr (s', r)"
      "save_registry H now s' = Inr p" "with_registry H now f reg = (Some p, Inr r)"
  by (cases "res_bind (load_registry H reg) (\<lambda>state. res_bind (f state) (\<lambda>(state', record).
        res_bind (save_registry H now state') (\<lambda>payload. Inr (payload, record))))")
    (auto simp: with_registry_def split: prod.splits)

lemma is_int_JInt: "py_int v = Inr g \<Longrightarrow> is_int (JInt (g + 1))"
  by simp

lemma record_ok_worker_ok: "workers_ok ws \<Longrightarrow> list_all worker_ok ws"
  by (auto simp: workers_ok_def record_ok_def list_all_iff)

lemma saved_change:
  assumes s: "load_registry H reg = Inr s" and p: "save_registry H now (set_workers ws s) = Inr p"
    and h: "hex_digest H" and ws: "workers_ok ws"
    and r: "find_by worker_key (JStr wid) ws = Some record"
    and other: "\<And>k. k \<noteq> JStr wid \<Longrightarrow> find_by worker_key k ws = find_by worker_key k (workers_of s)"
  shows "reg_change H wid reg (Some p) record"
proof -
  have "state_ok (set_workers ws s)"
    using load_state_ok(1) [OF s] by (simp add: state_ok_def set_workers_def)
  then have "load_registry H (Some p) = Inr p"
    using load_saved [OF p h] record_ok_worker_ok [OF ws] by simp
  moreover have "get_or ''generation'' d (set_workers ws s) = get_or ''generation'' d s" for d
    by (simp add: set_workers_def)
  moreover have "workers_of p = ws" using save_registryD(2) [OF p] by simp
  ultimately show ?thesis
    using s save_registryD(1) [OF p] ws r other by (auto simp: reg_change_def)
qed

lemma find_by_append:
  "find_by key k (xs @ [r]) =
     (case find_by key k xs of None \<Rightarrow> if key r = k then Some r else None | Some x \<Rightarrow> Some x)"
  by (induction xs) (auto simp: find_by_def)

lemma find_by_filter_other:
  "k' \<noteq> k \<Longrightarrow> find_by key k' (filter (\<lambda>w. key w \<noteq> k) ws) = find_by key k' ws"
  by (induction ws) (auto simp: find_by_def)

lemma enroll_record_ok:
  assumes "enroll_record now wid rid path labels priority reset current = Inr record" "id_match wid"
  shows "record_ok record" and "worker_key record = JStr wid"
  using assms by (auto simp: enroll_record_def record_ok_def worker_ok_def worker_key_def get_or_def
      worker_states_def)

lemma enroll_change:
  assumes ok: "registry_ok H reg" and h: "hex_digest H"
    and r: "snd (enroll H is_there now now' wid rid path labels priority replace config priv pub reg) = Inr record"
  shows "reg_change H wid reg
    (fst (enroll H is_there now now' wid rid path labels priority replace config priv pub reg)) record"
proof -
  let ?f = "\<lambda>reset state. let current = find_by worker_key (JStr wid) (workers_of state) in
      if current \<noteq> None \<and> \<not> replace then throw FleetError (''Worker is already enrolled: '' @ wid)
      else res_bind (enroll_record now wid rid path labels priority reset current) (\<lambda>record.
        res_bind (sorted_workers (filter (\<lambda>w. worker_key w \<noteq> JStr wid) (workers_of state) @ [record]))
          (\<lambda>ws. Inr (set_workers ws state, record)))"
  from r have m: "id_match wid" by (auto simp: enroll_def split: if_splits)
  from r obtain reset where e: "enroll H is_there now now' wid rid path labels priority replace config priv pub reg
      = with_registry H now' (?f reset) reg"
    by (auto simp: enroll_def split: if_splits sum.splits)
  show ?thesis
  proof (cases rule: with_registry_cases [where H = H and now = now' and f = "?f reset" and reg = reg])
    case (failed x)
    with e r show ?thesis by simp
  next
    case (saved s s' r' p)
    then have r': "r' = record" using e r by simp
    from saved(2) obtain ws where w:
      "enroll_record now wid rid path labels priority reset (find_by worker_key (JStr wid) (workers_of s)) = Inr record"
      "sorted_workers (filter (\<lambda>w. worker_key w \<noteq> JStr wid) (workers_of s) @ [record]) = Inr ws"
      "s' = set_workers ws s"
      by (auto simp: Let_def r' split: if_splits)
    note rec = enroll_record_ok [OF w(1) m]
    have wok: "workers_ok (workers_of s)" using ok saved(1) by (simp add: registry_ok_def)
    note ws = workers_ok_enroll [OF wok rec w(2)]
    have d: "distinct (map worker_key ws)" using ws(1) by (simp add: workers_ok_def)
    have "find_by worker_key (JStr wid) ws = Some record"
      using wt.find_row_unique [OF d, of "record"] ws(2) rec(2) by simp
    moreover have "find_by worker_key k ws = find_by worker_key k (workers_of s)" if "k \<noteq> JStr wid" for k
    proof -
      have "find_by worker_key k ws = find_by worker_key k (filter (\<lambda>w. worker_key w \<noteq> JStr wid) (workers_of s) @ [record])"
      proof (rule find_by_distinct_perm [OF d])
        show "set ws = set (filter (\<lambda>w. worker_key w \<noteq> JStr wid) (workers_of s) @ [record])" using ws(2) by auto
        have "distinct (map worker_key (workers_of s))" using wok by (simp add: workers_ok_def)
        then show "distinct (map worker_key (filter (\<lambda>w. worker_key w \<noteq> JStr wid) (workers_of s) @ [record]))"
          using rec(2) by (auto simp: distinct_map_filter)
      qed
      also have "\<dots> = find_by worker_key k (filter (\<lambda>w. worker_key w \<noteq> JStr wid) (workers_of s))"
        using rec(2) that by (simp add: find_by_append split: option.splits)
      also have "\<dots> = find_by worker_key k (workers_of s)" using that by (rule find_by_filter_other)
      finally show ?thesis .
    qed
    ultimately have "reg_change H wid reg (Some p) record"
      using saved(3) ws(1) h
      by (intro saved_change [OF saved(1), where ws = ws and now = now']) (simp_all add: w(3))
    with e saved(4) show ?thesis by simp
  qed
qed

lemma update_change:
  assumes ok: "registry_ok H reg" and h: "hex_digest H"
    and f: "\<And>s. f s = (case find_by worker_key (JStr wid) (workers_of s) of None \<Rightarrow> Inl e0
        | Some w \<Rightarrow> res_bind (upd w) (\<lambda>w'. Inr (set_workers (upd_first (JStr wid) w' (workers_of s)) s, w')))"
    and upd: "\<And>w w'. upd w = Inr w' \<Longrightarrow> record_ok w \<Longrightarrow> record_ok w' \<and> worker_key w' = worker_key w"
    and r: "snd (with_registry H now f reg) = Inr record"
  shows "reg_change H wid reg (fst (with_registry H now f reg)) record"
proof (cases rule: with_registry_cases [where H = H and now = now and f = f and reg = reg])
  case (failed x)
  with r show ?thesis by simp
next
  case (saved s s' r' p)
  then have r': "r' = record" using r by simp
  from saved(2) obtain w where w: "find_by worker_key (JStr wid) (workers_of s) = Some w" "upd w = Inr record"
    "s' = set_workers (upd_first (JStr wid) record (workers_of s)) s"
    by (auto simp: f r' split: option.splits)
  have wok: "workers_ok (workers_of s)" using ok saved(1) by (simp add: registry_ok_def)
  have "w \<in> set (workers_of s)" "worker_key w = JStr wid" using w(1) by (auto dest: find_by_Some)
  then have rec: "record_ok record" "worker_key record = JStr wid"
    using wok upd [OF w(2)] by (auto simp: workers_ok_def list_all_iff)
  have "reg_change H wid reg (Some p) record"
    using saved(3) h rec
    by (intro saved_change [OF saved(1), where ws = "upd_first (JStr wid) record (workers_of s)" and now = now])
      (simp_all add: w(1,3) find_upd_first find_upd_first_other workers_ok_upd [OF wok])
  with saved(4) show ?thesis by simp
qed

lemma reg_exec_change:
  assumes ok: "registry_ok H reg" and h: "hex_digest H"
    and r: "snd (reg_exec H is_there now now' op reg) = Inr record"
  shows "reg_change H (op_worker op) reg (fst (reg_exec H is_there now now' op reg)) record"
proof (cases op)
  case (Enroll wid rid path labels priority replace config priv pub)
  with r show ?thesis using enroll_change [OF ok h] by simp
next
  case (Transition wid s reason)
  let ?upd = "\<lambda>w. if get_none ''state'' w = JStr ''REVOKED'' \<and> s \<noteq> ''REVOKED''
      then throw FleetError ''Revoked workers cannot be reactivated''
      else Inr (transition_record now s reason w)"
  let ?f = "\<lambda>state. case find_by worker_key (JStr wid) (workers_of state) of
      None \<Rightarrow> throw FleetError (''Unknown fleet worker: '' @ wid)
    | Some record \<Rightarrow> if get_none ''state'' record = JStr ''REVOKED'' \<and> s \<noteq> ''REVOKED''
        then throw FleetError ''Revoked workers cannot be reactivated''
        else (let record' = transition_record now s reason record
              in Inr (set_workers (upd_first (JStr wid) record' (workers_of state)) state, record'))"
  from r Transition have s: "s \<in> set worker_states"
    and e: "transition H now now' wid s reason reg = with_registry H now' ?f reg"
    by (auto simp: transition_def split: if_splits)
  have "reg_change H wid reg (fst (with_registry H now' ?f reg)) record"
  proof (rule update_change [OF ok h])
    show "?f st = (case find_by worker_key (JStr wid) (workers_of st) of
        None \<Rightarrow> throw FleetError (''Unknown fleet worker: '' @ wid)
      | Some w \<Rightarrow> res_bind (?upd w) (\<lambda>w'. Inr (set_workers (upd_first (JStr wid) w' (workers_of st)) st, w')))" for st
      by (simp add: Let_def split: option.splits)
    show "?upd w = Inr w' \<Longrightarrow> record_ok w \<Longrightarrow> record_ok w' \<and> worker_key w' = worker_key w" for w w'
      using transition_record_ok s by (auto split: if_splits)
  qed (use r e Transition in simp)
  with e Transition show ?thesis by simp
next
  case (Health wid passed caps err n)
  let ?upd = "\<lambda>w. if get_none ''state'' w = JStr ''REVOKED''
      then throw FleetError ''Cannot record health for a revoked worker''
      else health_record H now passed caps err n w"
  let ?f = "\<lambda>state. case find_by worker_key (JStr wid) (workers_of state) of
      None \<Rightarrow> throw FleetError (''Unknown fleet worker: '' @ wid)
    | Some record \<Rightarrow> if get_none ''state'' record = JStr ''REVOKED''
        then throw FleetError ''Cannot record health for a revoked worker''
        else res_bind (health_record H now passed caps err n record) (\<lambda>record'.
          Inr (set_workers (upd_first (JStr wid) record' (workers_of state)) state, record'))"
  from r Health have e: "record_health H now now' wid passed caps err n reg = with_registry H now' ?f reg"
    by (auto simp: record_health_def split: if_splits)
  have "reg_change H wid reg (fst (with_registry H now' ?f reg)) record"
  proof (rule update_change [OF ok h])
    show "?f st = (case find_by worker_key (JStr wid) (workers_of st) of
        None \<Rightarrow> throw FleetError (''Unknown fleet worker: '' @ wid)
      | Some w \<Rightarrow> res_bind (?upd w) (\<lambda>w'. Inr (set_workers (upd_first (JStr wid) w' (workers_of st)) st, w')))" for st
      by (simp split: option.splits)
    show "?upd w = Inr w' \<Longrightarrow> record_ok w \<Longrightarrow> record_ok w' \<and> worker_key w' = worker_key w" for w w'
      using health_record_ok by (auto split: if_splits)
  qed (use r e Health in simp)
  with e Health show ?thesis by simp
qed

section \<open>Runs\<close>

inductive registry_step :: "(string \<Rightarrow> string) \<Rightarrow> json option \<Rightarrow> json option \<Rightarrow> bool" for H where
  reg_op: "registry_step H reg (fst (reg_exec H is_there now now' op reg))"

inductive_cases registry_stepE: "registry_step H reg reg'"

definition registry_good :: "(string \<Rightarrow> string) \<Rightarrow> json option \<Rightarrow> bool" where
  "registry_good H reg \<longleftrightarrow> hex_digest H \<and> registry_ok H reg"

definition registry_new :: "(string \<Rightarrow> string) \<Rightarrow> json option \<Rightarrow> bool" where
  "registry_new H reg \<longleftrightarrow> hex_digest H \<and> reg = None"

lemma with_registry_failed: "snd (with_registry H now f reg) = Inl e \<Longrightarrow> fst (with_registry H now f reg) = reg"
  by (rule with_registry_cases [of H now f reg]) simp_all

lemma reg_exec_failed:
  "snd (reg_exec H is_there now now' op reg) = Inl e \<Longrightarrow> fst (reg_exec H is_there now now' op reg) = reg"
  by (cases op) (auto simp: enroll_def transition_def record_health_def dest: with_registry_failed
      split: if_splits sum.splits)

lemma registry_exec_ok [inv_intros]:
  assumes "registry_good H reg"
  shows "registry_good H (fst (reg_exec H is_there now now' op reg))"
proof (cases "snd (reg_exec H is_there now now' op reg)")
  case (Inl e)
  with assms show ?thesis by (simp add: reg_exec_failed)
next
  case (Inr r)
  have "reg_change H (op_worker op) reg (fst (reg_exec H is_there now now' op reg)) r"
    using assms Inr by (intro reg_exec_change) (simp_all add: registry_good_def)
  with assms show ?thesis by (auto simp: reg_change_def registry_good_def registry_ok_def)
qed

lemma empty_registry_ok: "registry_ok H None"
  by (simp add: registry_ok_def load_registry_def empty_registry_def workers_of_def get_or_def workers_ok_def)

interpretation registry: step_system "registry_new H" "registry_step H" "registry_good H" for H
  by unfold_locales
    (auto simp: registry_new_def registry_good_def empty_registry_ok
      elim!: registry_stepE intro: registry_exec_ok [unfolded registry_good_def, THEN conjunct2])

section \<open>Concrete instances\<close>

definition reg_H :: "string \<Rightarrow> string" where
  "reg_H s = replicate 64 (CHR ''0'')"

lemma reg_H_hex [simp]: "hex_digest reg_H"
  by (simp add: hex_digest_def reg_H_def)

definition demo_worker :: "string \<Rightarrow> json" where
  "demo_worker s = JObj
     [(''worker_id'', JStr ''w1''), (''runtime_id'', JStr ''windows-powershell-5.1''),
      (''endpoint'', JStr ''/e''), (''state'', JStr s), (''priority'', JInt 7), (''labels'', JObj []),
      (''successes'', JInt 0), (''failures'', JInt 0), (''consecutive_failures'', JInt 0),
      (''last_health'', JObj [(''passed'', JBool True), (''authoritative'', JBool True)])]"

definition demo_registry :: "string \<Rightarrow> json option" where
  "demo_registry s = Some (JObj [(''schema'', JInt 1), (''generation'', JInt 3),
     (''workers'', JArr [demo_worker s]), (''digest'', JStr (reg_H ''''))])"

lemma demo_load:
  "s \<in> set worker_states \<Longrightarrow> load_registry reg_H (demo_registry s) = Inr (the (demo_registry s))"
  by (auto simp: load_registry_def demo_registry_def get_or_def state_digest_def reg_H_def worker_ok_def
      demo_worker_def)

lemma demo_workers: "workers_of (the (demo_registry s)) = [demo_worker s]"
  by (simp add: workers_of_def demo_registry_def get_or_def)

lemma demo_registry_ok:
  assumes "s \<in> set worker_states"
  shows "registry_good reg_H (demo_registry s)"
proof -
  have "record_ok (demo_worker s)"
    using assms by (simp add: record_ok_def worker_ok_def worker_key_def demo_worker_def get_or_def) code_simp
  then show ?thesis
    using demo_load [OF assms] demo_workers [of s]
    by (simp add: registry_good_def registry_ok_def workers_ok_def) (simp add: demo_registry_def get_or_def)
qed

lemma demo_worker_find: "find_by worker_key (JStr ''w1'') (workers_of (the (demo_registry s))) = Some (demo_worker s)"
  by (simp add: demo_workers find_by_def worker_key_def demo_worker_def get_or_def)

section \<open>Properties\<close>

text \<open>C9: Starting without a registry file, after any sequence of enrollments, transitions and
  health records the file passes the verification of \<open>_load\<close>, its worker ids are unique and valid
  identifiers in sorted order, every state is one of the three, and the counters are integers.\<close>

theorem registry_invariant:
  assumes "hex_digest H" and "(registry_step H)\<^sup>*\<^sup>* None reg"
  shows "registry_ok H reg"
  using registry.reachable_inv [of H None reg] assms by (simp add: registry_new_def registry_good_def)

theorem registry_invariant_witness:
  "registry_ok reg_H (fst (reg_exec reg_H (\<lambda>p. True) 0 0
     (Enroll ''w1'' ''windows-powershell-5.1'' ''/e'' JNull 5 False None None None) None))"
  by (rule registry_invariant [OF reg_H_hex r_into_rtranclp]) (rule registry_step.reg_op)

text \<open>A successful operation on one worker writes a file that verifies, with the generation
  advanced by one and the returned record under the worker's id, and leaves the record of every
  other worker exactly as it was; a failing operation leaves the file alone.\<close>

lemma registry_op_local:
  assumes "hex_digest H" and "registry_ok H reg"
  shows "(case snd (reg_exec H is_there now now' op reg) of
      Inl e \<Rightarrow> fst (reg_exec H is_there now now' op reg) = reg
    | Inr record \<Rightarrow> (\<exists>s p. load_registry H reg = Inr s
        \<and> fst (reg_exec H is_there now now' op reg) = Some p
        \<and> load_registry H (Some p) = Inr p
        \<and> (\<exists>g. py_int (get_or ''generation'' (JInt 0) s) = Inr g \<and> get_none ''generation'' p = JInt (g + 1))
        \<and> find_by worker_key (JStr (op_worker op)) (workers_of p) = Some record
        \<and> (\<forall>k. k \<noteq> JStr (op_worker op) \<longrightarrow>
             find_by worker_key k (workers_of p) = find_by worker_key k (workers_of s))))"
proof (cases "snd (reg_exec H is_there now now' op reg)")
  case (Inl e)
  then show ?thesis using reg_exec_failed by simp
next
  case (Inr r)
  have c: "reg_change H (op_worker op) reg (fst (reg_exec H is_there now now' op reg)) r"
    using assms Inr by (intro reg_exec_change)
  show ?thesis unfolding Inr sum.case using c unfolding reg_change_def by blast
qed

lemma registry_op_local_witness:
  "case snd (reg_exec reg_H (\<lambda>p. True) 0 0 (Transition ''w1'' ''REVOKED'' ''x'') (demo_registry ''ACTIVE'')) of
      Inl e \<Rightarrow> fst (reg_exec reg_H (\<lambda>p. True) 0 0 (Transition ''w1'' ''REVOKED'' ''x'') (demo_registry ''ACTIVE''))
        = demo_registry ''ACTIVE''
    | Inr record \<Rightarrow> (\<exists>p. fst (reg_exec reg_H (\<lambda>p. True) 0 0 (Transition ''w1'' ''REVOKED'' ''x'') (demo_registry ''ACTIVE'')) = Some p)"
  using registry_op_local [where H = reg_H and is_there = "\<lambda>p. True" and now = 0 and now' = 0
      and op = "Transition ''w1'' ''REVOKED'' ''x''" and reg = "demo_registry ''ACTIVE''"]
    demo_registry_ok [of "''ACTIVE''"]
  by (auto simp: registry_good_def worker_states_def split: sum.splits)




text \<open>A revoked worker stays revoked: a transition to another state, and any health record,
  is refused with \<open>FleetError\<close>, whatever its arguments, and the file is left alone.\<close>

lemma revoked_is_refused:
  assumes "load_registry H reg = Inr s"
    and "find_by worker_key (JStr wid) (workers_of s) = Some w" and "get_none ''state'' w = JStr ''REVOKED''"
    and "state_name \<noteq> ''REVOKED''"
  shows "(\<exists>m. transition H now now' wid state_name reason reg = (reg, throw FleetError m))
    \<and> (\<exists>m. record_health H now now' wid passed caps err n reg = (reg, throw FleetError m))"
  using assms by (auto simp: transition_def record_health_def with_registry_def)

theorem revoked_is_refused_witness:
  "\<exists>m. transition reg_H 0 0 ''w1'' ''ACTIVE'' ''again'' (demo_registry ''REVOKED'')
     = (demo_registry ''REVOKED'', throw FleetError m)"
proof -
  have "load_registry reg_H (demo_registry ''REVOKED'') = Inr (the (demo_registry ''REVOKED''))"
    by (simp add: demo_load worker_states_def)
  from revoked_is_refused [OF this demo_worker_find, of "''ACTIVE''"]
  show ?thesis by (simp add: demo_worker_def get_or_def)
qed

text \<open>Enrolling again with \<open>replace\<close> is the one operation that takes a worker out of \<open>REVOKED\<close>.\<close>

text \<open>C11: Enrolling a revoked worker again with \<open>replace=True\<close> (a valid identity and priority, no labels and no
  managed reset) succeeds: the saved registry verifies, and the worker read back from it is active and has no record of
  its revocation any more.\<close>

theorem enroll_revives_revoked:
  assumes "hex_digest H" and "registry_ok H reg" and "load_registry H reg = Inr s"
    and "find_by worker_key (JStr wid) (workers_of s) = Some w" and "get_none ''state'' w = JStr ''REVOKED''"
    and "id_match wid" and "-100000 \<le> priority" and "priority \<le> 100000"
  shows "\<exists>reg' r. enroll H is_there now now' wid rid path JNull priority True None None None reg = (reg', Inr r)
    \<and> registry_ok H reg' \<and> get_worker H wid reg' = Inr r
    \<and> get_none ''state'' r = JStr ''ACTIVE'' \<and> get_none ''revocation'' r = JNull"
proof -
  have wok: "workers_ok (workers_of s)" and g: "is_int (get_none ''generation'' s)"
    using assms(2,3) by (auto simp: registry_ok_def)
  from assms(4) have w: "w \<in> set (workers_of s)" by (auto dest: find_by_Some)
  with wok have wr: "record_ok w" by (auto simp: workers_ok_def list_all_iff)
  have cnt: "\<exists>i. py_int (get_or k (JInt 0) w) = Inr i" if "is_int (get_none k w)" for k
    using that by (cases "get_none k w") (auto simp: get_or_def split: option.splits)
  from wr have ints: "is_int (get_none ''successes'' w)" "is_int (get_none ''failures'' w)"
    by (simp_all add: record_ok_def)
  from cnt [OF ints(1)] cnt [OF ints(2)] obtain a b where ab: "py_int (get_or ''successes'' (JInt 0) w) = Inr a"
    "py_int (get_or ''failures'' (JInt 0) w) = Inr b" by blast
  then obtain rec where rec: "enroll_record now wid rid path JNull priority JNull (Some w) = Inr rec"
    "get_none ''state'' rec = JStr ''ACTIVE''" "get_none ''revocation'' rec = JNull"
    by (simp add: enroll_record_def carried_count_def fleet_labels_def py_or_def get_or_def)
  note rok = enroll_record_ok [OF rec(1) assms(6)]
  have id: "jget ''worker_id'' v \<noteq> None" if "record_ok v" for v
    using that by (auto simp: record_ok_def worker_key_def get_or_def split: option.splits)
  have "list_all (\<lambda>v. jget ''worker_id'' v \<noteq> None) (filter (\<lambda>v. worker_key v \<noteq> JStr wid) (workers_of s) @ [rec])"
    using wok rok id by (auto simp: workers_ok_def list_all_iff)
  then obtain ws where ws: "sorted_workers (filter (\<lambda>v. worker_key v \<noteq> JStr wid) (workers_of s) @ [rec]) = Inr ws"
    by (auto simp: sorted_workers_def)
  from g obtain i where "py_int (get_or ''generation'' (JInt 0) s) = Inr i"
    by (cases "get_none ''generation'' s") (auto simp: get_or_def split: option.splits)
  then obtain p where "save_registry H now' (set_workers ws s) = Inr p"
    by (simp add: save_registry_def set_workers_def Let_def)
  with assms(3-8) rec ws have e: "enroll H is_there now now' wid rid path JNull priority True None None None reg = (Some p, Inr rec)"
    by (simp add: enroll_def reset_policy_def with_registry_def)
  have c: "reg_change H wid reg (Some p) rec"
    using enroll_change [OF assms(2,1), of is_there now now' wid rid path JNull priority True None None None rec] e by simp
  have "registry_ok H (Some p)" "get_worker H wid (Some p) = Inr rec"
    using c by (auto simp: reg_change_def registry_ok_def get_worker_def)
  with e rec(2,3) show ?thesis by blast
qed

theorem enroll_revives_revoked_witness:
  "\<exists>reg' r. enroll reg_H (\<lambda>p. True) 0 0 ''w1'' ''rid'' ''/e'' JNull 5 True None None None (demo_registry ''REVOKED'') = (reg', Inr r)
    \<and> registry_ok reg_H reg' \<and> get_worker reg_H ''w1'' reg' = Inr r
    \<and> get_none ''state'' r = JStr ''ACTIVE'' \<and> get_none ''revocation'' r = JNull"
proof (rule enroll_revives_revoked [OF reg_H_hex _ demo_load demo_worker_find])
  show "registry_ok reg_H (demo_registry ''REVOKED'')"
    using demo_registry_ok [of "''REVOKED''"] by (simp add: registry_good_def worker_states_def)
  show "id_match ''w1''" by code_simp
qed (simp_all add: worker_states_def demo_worker_def get_or_def)

text \<open>The record after a run of failing probes\<close>

fun fail_probes :: "(string \<Rightarrow> string) \<Rightarrow> (instant \<times> json \<times> string) list \<Rightarrow> int \<Rightarrow> json \<Rightarrow> json res" where
  "fail_probes H [] n w = Inr w"
| "fail_probes H ((now, caps, err) # ps) n w =
     res_bind (health_record H now False caps err n w) (fail_probes H ps n)"

lemma fail_probe_step:
  assumes "get_none ''consecutive_failures'' w = JInt c" "get_none ''failures'' w = JInt f"
  shows "\<exists>w'. health_record H now False caps err n w = Inr w'
    \<and> get_none ''consecutive_failures'' w' = JInt (c + 1) \<and> get_none ''failures'' w' = JInt (f + 1)
    \<and> (get_none ''state'' w' = (if n \<le> c + 1 then JStr ''QUARANTINED'' else get_none ''state'' w))"
proof -
  have g: "get_or ''consecutive_failures'' (JInt 0) w = JInt c" "get_or ''failures'' (JInt 0) w = JInt f"
    using assms by (auto simp: get_or_def split: option.splits)
  then show ?thesis by (simp add: health_record_def Let_def)
qed

text \<open>From a record whose failure counter is zero, \<open>k\<close> failing probes in a row leave the
  counter at \<open>k\<close> and quarantine the worker exactly when \<open>k\<close> has reached the threshold.\<close>

lemma quarantine_after_threshold:
  assumes "get_none ''consecutive_failures'' w = JInt 0" and "get_none ''failures'' w = JInt f"
    and "get_none ''state'' w = JStr ''ACTIVE''" and "1 \<le> n"
  shows "\<exists>w'. fail_probes H ps n w = Inr w'
    \<and> get_none ''consecutive_failures'' w' = JInt (int (length ps))
    \<and> get_none ''state'' w' = JStr (if n \<le> int (length ps) then ''QUARANTINED'' else ''ACTIVE'')"
proof -
  have "\<exists>w'. fail_probes H ps n w = Inr w'
      \<and> get_none ''consecutive_failures'' w' = JInt (c + int (length ps))
      \<and> get_none ''state'' w' = JStr (if n \<le> c + int (length ps) then ''QUARANTINED'' else ''ACTIVE'')"
    if "get_none ''consecutive_failures'' w = JInt c" "get_none ''failures'' w = JInt f"
      "get_none ''state'' w = JStr (if n \<le> c then ''QUARANTINED'' else ''ACTIVE'')" for w c f
    using that
  proof (induction ps arbitrary: w c f)
    case (Cons p ps)
    obtain now caps err where p: "p = (now, caps, err)" by (cases p) auto
    from fail_probe_step [OF Cons.prems(1,2), of H now caps err n] obtain w1 where w1:
      "health_record H now False caps err n w = Inr w1" "get_none ''consecutive_failures'' w1 = JInt (c + 1)"
      "get_none ''failures'' w1 = JInt (f + 1)"
      "get_none ''state'' w1 = (if n \<le> c + 1 then JStr ''QUARANTINED'' else get_none ''state'' w)" by blast
    with Cons.prems(3) have "get_none ''state'' w1 = JStr (if n \<le> c + 1 then ''QUARANTINED'' else ''ACTIVE'')"
      by (simp split: if_splits)
    note w1 = w1(1-3) this
    from Cons.IH [OF w1(2,3,4)] w1(1) show ?case by (simp add: p algebra_simps)
  qed auto
  from this [OF assms(1,2)] assms(3,4) show ?thesis by simp
qed

lemma quarantine_after_threshold_witness:
  "\<exists>w'. fail_probes reg_H [(0, JNull, ''a''), (1, JNull, ''b'')] 2 (demo_worker ''ACTIVE'') = Inr w'
    \<and> get_none ''state'' w' = JStr ''QUARANTINED''"
proof -
  have "get_none ''consecutive_failures'' (demo_worker ''ACTIVE'') = JInt 0"
    "get_none ''failures'' (demo_worker ''ACTIVE'') = JInt 0"
    "get_none ''state'' (demo_worker ''ACTIVE'') = JStr ''ACTIVE''"
    by (simp_all add: demo_worker_def get_or_def)
  from quarantine_after_threshold [OF this, of 2 reg_H "[(0, JNull, ''a''), (1, JNull, ''b'')]"]
  show ?thesis by auto
qed

end
