(* ===== verification/Psm_FullMatrix.thy ===== *)
theory Psm_FullMatrix
  imports Psm_Files Psm_RuntimeIds Psm_Clock
begin

text \<open>
  The specification of a mixed-platform matrix, \<open>full_matrix.py\<close> up to \<open>_validate_args\<close> and the
  built-in specification: declared targets, differential policy and allowances, with the checks of
  \<open>FullMatrixSpec.load\<close> in their order. \<open>now\<close> is the clock, \<open>H\<close> the SHA-256 hex digest.
\<close>

section \<open>Data\<close>

record fm_target =
  ft_target_id :: string
  ft_kind :: string
  ft_required :: bool
  ft_version :: "string option"
  ft_arch :: string
  ft_libc :: string
  ft_backend :: string
  ft_container_engine :: string
  ft_endpoint :: "string list option"
  ft_runtime_id :: "string option"
  ft_args :: "string list"
  ft_options :: json

text \<open>The two properties assert the field they need, which the loader has filled for the kind.\<close>

definition expected_runtime_id :: "fm_target \<Rightarrow> string res" where
  "expected_runtime_id t =
     (if ft_kind t = ''remote'' then
        (case ft_runtime_id t of None \<Rightarrow> throw AssertionError '''' | Some r \<Rightarrow> Inr r)
      else (case ft_version t of None \<Rightarrow> throw AssertionError ''''
        | Some v \<Rightarrow> Inr (runtime_id (resolve_runtime v (ft_arch t) (ft_libc t)))))"

definition runtime_version :: "fm_target \<Rightarrow> string res" where
  "runtime_version t =
     (if ft_kind t = ''remote'' then
        (case ft_runtime_id t of None \<Rightarrow> throw AssertionError '''' | Some r \<Rightarrow> windows_runtime_version r)
      else (case ft_version t of None \<Rightarrow> throw AssertionError '''' | Some v \<Rightarrow> Inr (removeprefix ''v'' v)))"

record allowance =
  al_dimension :: string
  al_baseline_runtime :: string
  al_candidate_runtime :: string
  al_source :: string
  al_reason :: string
  al_manifest :: "string option"

definition same_or_star :: "string \<Rightarrow> string \<Rightarrow> bool" where
  "same_or_star pattern value \<longleftrightarrow> pattern = ''*'' \<or> pattern = value"

definition allowance_matches :: "allowance \<Rightarrow> json \<Rightarrow> bool" where
  "allowance_matches a issue \<longleftrightarrow>
     same_or_star (al_dimension a) (text_field ''dimension'' issue)
     \<and> same_or_star (al_baseline_runtime a) (text_field ''baseline_runtime'' issue)
     \<and> same_or_star (al_candidate_runtime a) (text_field ''candidate_runtime'' issue)
     \<and> same_or_star (al_source a) (text_field ''source'' issue)"

record fm_spec =
  fs_path :: "string list"
  fs_name :: string
  fs_targets :: "fm_target list"
  fs_differential_mode :: string
  fs_baseline_runtime :: "string option"
  fs_allowances :: "allowance list"
  fs_require_complete :: bool
  fs_allowance_manifest :: json
  fs_sha256 :: string

section \<open>Arguments and identifiers\<close>

definition safe_id :: "string \<Rightarrow> bool" where
  "safe_id s = (case s of [] \<Rightarrow> False
     | c # r \<Rightarrow> is_alnum c \<and> length r \<le> 127
         \<and> list_all (\<lambda>d. is_alnum d \<or> d = CHR ''.'' \<or> d = CHR ''_'' \<or> d = CHR ''-'') r)"

definition managed_args :: "string list" where
  "managed_args =
     [''--report-json'', ''--report-junit'', ''--report-sarif'', ''--report-html'', ''--report-sbom'',
      ''--evidence-bundle'', ''--json'', ''--runtime'', ''--matrix'', ''--arch'', ''--libc'', ''--backend'',
      ''--container-engine'', ''--differential'', ''--baseline-runtime'']"

definition validate_arg :: "string \<Rightarrow> json \<Rightarrow> string res" where
  "validate_arg target_id item =
     (case item of
        JStr s \<Rightarrow>
          if 8192 < length s \<or> CHR 0x00 \<in> set s
          then throw FullMatrixError (''Target '' @ target_id @ '' contains an invalid argument'')
          else if takeWhile (\<lambda>c. c \<noteq> CHR ''='') s \<in> set managed_args
          then throw FullMatrixError (''Target '' @ target_id @ '' tries to override a managed argument: '' @ s)
          else Inr s
      | _ \<Rightarrow> throw FullMatrixError (''Target '' @ target_id @ '' contains an invalid argument''))"

definition validate_args :: "json \<Rightarrow> string \<Rightarrow> string list res" where
  "validate_args value target_id =
     (if \<not> is_list value \<or> 128 < length (list_items value)
      then throw FullMatrixError (''Target '' @ target_id @ '' args must be a bounded list'')
      else res_map (validate_arg target_id) (list_items value))"

section \<open>Resolving paths\<close>

definition resolve_direct_candidate :: "string \<Rightarrow> node \<Rightarrow> string list \<Rightarrow> string list res" where
  "resolve_direct_candidate label fs p =
     res_bind (reject_indirect FullMatrixError label fs p) (\<lambda>_.
       case resolve fs p of
         Inl e \<Rightarrow> if exn_class e = OSError
           then throw FullMatrixError (''Unable to resolve '' @ label @ '' path '' @ path_text p) else Inl e
       | Inr q \<Rightarrow> Inr q)"

definition resolve_direct_existing :: "string \<Rightarrow> string \<Rightarrow> node \<Rightarrow> string list \<Rightarrow> string list res" where
  "resolve_direct_existing label kind fs p =
     res_bind (reject_indirect FullMatrixError label fs p) (\<lambda>_.
       case resolve_strict fs p of
         Inl e \<Rightarrow> if exn_class e = OSError
           then throw FullMatrixError (label @ '' is missing or inaccessible: '' @ path_text p) else Inl e
       | Inr q \<Rightarrow>
           if kind = ''file'' \<and> \<not> is_file fs q
           then throw FullMatrixError (label @ '' is not a regular file: '' @ path_text q)
           else if kind = ''directory'' \<and> \<not> is_dir fs q
           then throw FullMatrixError (label @ '' is not a directory: '' @ path_text q)
           else Inr q)"

section \<open>Loading a target\<close>

definition or_text :: "string \<Rightarrow> string \<Rightarrow> json \<Rightarrow> string" where
  "or_text k d v = py_str (py_or (get_none k v) (JStr d))"

definition load_local :: "json \<Rightarrow> string \<Rightarrow> bool \<Rightarrow> string list \<Rightarrow> fm_target res" where
  "load_local raw target_id required args =
     (let version = removeprefix ''v'' (or_text ''version'' '''' raw);
          arch = py_lower (or_text ''arch'' ''x64'' raw);
          libc = py_lower (or_text ''libc'' ''glibc'' raw);
          backend = py_lower (or_text ''backend'' ''auto'' raw);
          engine = py_lower (or_text ''container_engine'' ''auto'' raw)
      in if version = [] \<or> 64 < length version
         then throw FullMatrixError (''Local target '' @ target_id @ '' requires an exact version'')
         else if arch \<notin> set [''x64'', ''arm64'', ''arm32'']
         then throw FullMatrixError (''Unsupported architecture for '' @ target_id @ '': '' @ arch)
         else if libc \<notin> set [''glibc'', ''musl'']
         then throw FullMatrixError (''Unsupported libc for '' @ target_id @ '': '' @ libc)
         else if backend \<notin> set [''auto'', ''native'', ''oci''] \<or> engine \<notin> set [''auto'', ''docker'', ''podman'']
         then throw FullMatrixError (''Unsupported backend selection for '' @ target_id)
         else Inr \<lparr>ft_target_id = target_id, ft_kind = ''local'', ft_required = required,
                   ft_version = Some version, ft_arch = arch, ft_libc = libc, ft_backend = backend,
                   ft_container_engine = engine, ft_endpoint = None, ft_runtime_id = None,
                   ft_args = args, ft_options = JObj []\<rparr>)"

definition load_remote ::
    "node \<Rightarrow> string list \<Rightarrow> json \<Rightarrow> string \<Rightarrow> bool \<Rightarrow> string list \<Rightarrow> fm_target res" where
  "load_remote fs dir raw target_id required args =
     (let runtime = or_text ''runtime_id'' '''' raw; endpoint_raw = or_text ''endpoint'' '''' raw in
      if \<not> is_exact_windows_runtime_id runtime
      then throw FullMatrixError (''Remote target '' @ target_id @ '' has an unsupported runtime_id'')
      else if endpoint_raw = [] \<or> CHR 0x00 \<in> set endpoint_raw
      then throw FullMatrixError (''Remote target '' @ target_id @ '' requires an endpoint'')
      else res_bind (resolve_direct_candidate (''Remote endpoint '' @ target_id) fs (path_join dir endpoint_raw))
        (\<lambda>endpoint.
          if \<not> is_within dir endpoint
          then throw FullMatrixError (''Remote endpoint escapes specification directory: '' @ endpoint_raw)
          else Inr \<lparr>ft_target_id = target_id, ft_kind = ''remote'', ft_required = required,
                    ft_version = None, ft_arch = ''x64'', ft_libc = ''glibc'', ft_backend = ''auto'',
                    ft_container_engine = ''auto'', ft_endpoint = Some endpoint,
                    ft_runtime_id = Some runtime, ft_args = args,
                    ft_options = (if is_dict (get_none ''options'' raw) then get_none ''options'' raw else JObj [])\<rparr>))"

text \<open>One round of the loop, with the ids and runtime ids seen so far.\<close>

definition load_target ::
    "node \<Rightarrow> string list \<Rightarrow> string list \<Rightarrow> string list \<Rightarrow> json \<Rightarrow> (fm_target \<times> string) res" where
  "load_target fs dir ids runtime_ids raw =
     (if \<not> is_dict raw then throw FullMatrixError ''Full matrix target must be an object''
      else
        let target_id = or_text ''id'' '''' raw; kind = or_text ''kind'' '''' raw;
            required = py_true (get_or ''required'' (JBool True) raw)
        in if \<not> safe_id target_id \<or> target_id \<in> set ids
           then throw FullMatrixError (''Invalid or duplicate full matrix target id: '' @ target_id)
           else res_bind (validate_args (get_or ''args'' (JArr []) raw) target_id) (\<lambda>args.
             res_bind
               (if kind = ''local'' then load_local raw target_id required args
                else if kind = ''remote'' then load_remote fs dir raw target_id required args
                else throw FullMatrixError (''Unknown full matrix target kind: '' @ kind)) (\<lambda>target.
             res_bind (expected_runtime_id target) (\<lambda>runtime.
               if runtime \<in> set runtime_ids
               then throw FullMatrixError (''Duplicate runtime target in full matrix: '' @ runtime)
               else Inr (target, runtime)))))"

fun load_targets ::
    "node \<Rightarrow> string list \<Rightarrow> string list \<Rightarrow> string list \<Rightarrow> json list \<Rightarrow> (fm_target \<times> string) list res" where
  "load_targets fs dir ids runtime_ids [] = Inr []"
| "load_targets fs dir ids runtime_ids (raw # raws) =
     res_bind (load_target fs dir ids runtime_ids raw) (\<lambda>(target, runtime).
     res_bind (load_targets fs dir (ft_target_id target # ids) (runtime # runtime_ids) raws) (\<lambda>rest.
       Inr ((target, runtime) # rest)))"

section \<open>Allowances\<close>

definition parse_allowance :: "string option \<Rightarrow> json \<Rightarrow> allowance res" where
  "parse_allowance manifest raw =
     (if \<not> is_dict raw then throw FullMatrixError ''Differential allowance must be an object''
      else
        let dimension = or_text ''dimension'' '''' raw; reason = strip_space (or_text ''reason'' '''' raw) in
        if dimension = [] \<or> 64 < length dimension
        then throw FullMatrixError ''Differential allowance dimension is invalid''
        else if reason = [] \<or> 2048 < length reason
        then throw FullMatrixError ''Differential allowance requires a bounded non-empty reason''
        else Inr \<lparr>al_dimension = dimension, al_baseline_runtime = or_text ''baseline_runtime'' ''*'' raw,
                  al_candidate_runtime = or_text ''candidate_runtime'' ''*'' raw,
                  al_source = or_text ''source'' ''*'' raw, al_reason = reason, al_manifest = manifest\<rparr>)"

definition check_expiry :: "instant \<Rightarrow> string \<Rightarrow> unit res" where
  "check_expiry now expires_at =
     (case from_iso (replace_all ''Z'' ''+00:00'' expires_at) of
        Some (local, Some offset) \<Rightarrow>
          if to_utc local offset \<le> now
          then throw FullMatrixError ''Differential allowance manifest has expired'' else Inr ()
      | _ \<Rightarrow> throw FullMatrixError
          ''Differential allowance expires_at must be an ISO-8601 timestamp with timezone'')"

definition load_manifest ::
    "(string \<Rightarrow> string) \<Rightarrow> instant \<Rightarrow> node \<Rightarrow> string list \<Rightarrow> string \<Rightarrow> (allowance list \<times> json) res" where
  "load_manifest H now fs dir allowance_file =
     res_bind (resolve_direct_existing ''Differential allowance manifest'' ''file'' fs (path_join dir allowance_file))
     (\<lambda>candidate.
       if \<not> is_within dir candidate
       then throw FullMatrixError ''Differential allowance manifest escapes specification directory''
       else res_bind (read_json fs candidate) (\<lambda>value.
         let rules = get_none ''rules'' value; expires_at = or_text ''expires_at'' '''' value in
         if \<not> is_dict value \<or> \<not> eq_int (get_none ''schema'' value) 1
         then throw FullMatrixError ''Unsupported differential allowance manifest schema''
         else if get_none ''kind'' value \<noteq> JStr ''psmatrix.differential-allowances''
         then throw FullMatrixError ''Differential allowance manifest kind is invalid''
         else if \<not> is_list rules \<or> 256 < length (list_items rules)
         then throw FullMatrixError ''Differential allowance manifest rules are invalid''
         else if list_items rules \<noteq> [] \<and> expires_at = []
         then throw FullMatrixError ''Non-empty differential allowance manifest requires expires_at''
         else res_bind (if expires_at = [] then Inr () else check_expiry now expires_at) (\<lambda>_.
           res_bind (res_map (parse_allowance (Some (name_of candidate))) (list_items rules)) (\<lambda>allowances.
           res_bind (sha256_file H fs candidate) (\<lambda>digest.
             Inr (allowances, JObj
               [(''path'', JStr (path_text candidate)), (''sha256'', JStr digest),
                (''name'', JStr (or_text ''name'' (stem_of (name_of candidate)) value)),
                (''expires_at'', if expires_at = [] then JNull else JStr expires_at),
                (''rule_count'', JInt (int (length (list_items rules))))]))))))"

section \<open>Loading a specification\<close>

definition dict_or_empty :: "string \<Rightarrow> json \<Rightarrow> json" where
  "dict_or_empty k v = (if is_dict (get_none k v) then get_none k v else JObj [])"

definition load_differential ::
    "(string \<Rightarrow> string) \<Rightarrow> instant \<Rightarrow> node \<Rightarrow> string list \<Rightarrow> string list \<Rightarrow> json \<Rightarrow>
     (string \<times> string option \<times> allowance list \<times> json) res" where
  "load_differential H now fs dir runtime_ids differential =
     (let mode = py_lower (or_text ''mode'' ''report'' differential);
          baseline = or_text ''baseline_runtime'' '''' differential;
          raw_allowances = py_or (get_none ''allow'' differential) (JArr []);
          allowance_file = or_text ''allowance_file'' '''' differential
      in if mode \<notin> set [''off'', ''report'', ''strict'']
         then throw FullMatrixError ''Full matrix differential mode must be off, report, or strict''
         else if baseline \<noteq> [] \<and> baseline \<notin> set runtime_ids
         then throw FullMatrixError ''Full matrix baseline_runtime is not a declared target''
         else if \<not> is_list raw_allowances \<or> 256 < length (list_items raw_allowances)
         then throw FullMatrixError ''Full matrix differential allowances are invalid''
         else res_bind (res_map (parse_allowance None) (list_items raw_allowances)) (\<lambda>own.
           res_bind (if allowance_file = [] then Inr ([], JNull)
                     else load_manifest H now fs dir allowance_file) (\<lambda>(more, manifest).
             Inr (mode, if baseline = [] then None else Some baseline, own @ more, manifest))))"

definition load_spec_value ::
    "(string \<Rightarrow> string) \<Rightarrow> instant \<Rightarrow> node \<Rightarrow> string list \<Rightarrow> json \<Rightarrow> fm_spec res" where
  "load_spec_value H now fs path value =
     (let name = or_text ''name'' ''full'' value; raw_targets = get_none ''targets'' value in
      if \<not> is_dict value \<or> \<not> eq_int (get_none ''schema'' value) 1
      then throw FullMatrixError ''Unsupported full matrix specification schema''
      else if get_none ''kind'' value \<noteq> JStr ''psmatrix.full-matrix-spec''
      then throw FullMatrixError ''Full matrix specification kind is invalid''
      else if \<not> safe_id name then throw FullMatrixError ''Full matrix name is invalid''
      else if \<not> is_list raw_targets \<or> length (list_items raw_targets) < 1 \<or> 128 < length (list_items raw_targets)
      then throw FullMatrixError ''Full matrix must contain between 1 and 128 targets''
      else res_bind (load_targets fs (butlast path) [] [] (list_items raw_targets)) (\<lambda>targets.
        res_bind (load_differential H now fs (butlast path) (map snd targets)
          (dict_or_empty ''differential'' value)) (\<lambda>(mode, baseline, allowances, manifest).
        res_bind (sha256_file H fs path) (\<lambda>digest.
          Inr \<lparr>fs_path = path, fs_name = name, fs_targets = map fst targets,
               fs_differential_mode = mode, fs_baseline_runtime = baseline, fs_allowances = allowances,
               fs_require_complete =
                 py_true (get_or ''require_complete'' (JBool True) (dict_or_empty ''requirements'' value)),
               fs_allowance_manifest = manifest, fs_sha256 = digest\<rparr>))))"

definition load_spec :: "(string \<Rightarrow> string) \<Rightarrow> instant \<Rightarrow> node \<Rightarrow> string list \<Rightarrow> fm_spec res" where
  "load_spec H now fs spec_path =
     res_bind (resolve_direct_existing ''Full matrix specification'' ''file'' fs spec_path) (\<lambda>path.
     res_bind (read_json fs path) (load_spec_value H now fs path))"

section \<open>The built-in specification\<close>

definition local_entry :: "string \<Rightarrow> string \<Rightarrow> string \<Rightarrow> bool \<Rightarrow> json" where
  "local_entry version arch libc required = JObj
     [(''id'', JStr (''linux-'' @ version @ ''-'' @ arch @ ''-'' @ libc)), (''kind'', JStr ''local''),
      (''version'', JStr version), (''arch'', JStr arch), (''libc'', JStr libc), (''backend'', JStr ''auto''),
      (''container_engine'', JStr ''auto''), (''required'', JBool required)]"

definition remote_entry :: "string \<Rightarrow> string \<Rightarrow> json" where
  "remote_entry target_id runtime = JObj
     [(''id'', JStr target_id), (''kind'', JStr ''remote''), (''runtime_id'', JStr runtime),
      (''endpoint'', JStr (''endpoints/'' @ runtime @ ''.json'')), (''required'', JBool True)]"

definition default_full_matrix_spec :: json where
  "default_full_matrix_spec =
     (let stable = channel_version ''stable'' in JObj
       [(''schema'', JInt 1), (''kind'', JStr ''psmatrix.full-matrix-spec''), (''name'', JStr ''full''),
        (''targets'', JArr
          (map (\<lambda>l. local_entry (rl_version l) ''x64'' ''glibc'' True) core_release_lines
           @ [local_entry stable ''arm64'' ''glibc'' False, local_entry stable ''x64'' ''musl'' False]
           @ map (\<lambda>l. remote_entry (''windows-core-'' @ rl_version l @ ''-x64'')
               (''powershell-'' @ rl_version l @ ''-windows-x64'')) core_release_lines
           @ map (\<lambda>v. remote_entry (''windows-powershell-'' @ v @ ''-x64'') (''windows-powershell-'' @ v))
               desktop_versions)),
        (''differential'', JObj
          [(''mode'', JStr ''report''),
           (''baseline_runtime'', JStr (''powershell-'' @ stable @ ''-linux-x64'')),
           (''allowance_file'', JStr ''psmatrix.differences.json''), (''allow'', JArr [])]),
        (''requirements'', JObj [(''require_complete'', JBool True)])])"

end
