(* ===== verification/Psm_Differential.thy ===== *)
theory Psm_Differential
  imports Psm_Models Psm_RuntimeIds
begin

text \<open>
  The cross-runtime comparison of \<open>differential.py\<close>: the signature of a target report, the choice
  of a baseline per source, and the list of issues. \<open>H\<close> is the SHA-256 hex digest. The targets of
  a run are distinct objects, so \<open>candidate is baseline\<close> is equality of positions.
\<close>

section \<open>Normalised text\<close>

definition in_range :: "nat \<Rightarrow> nat \<Rightarrow> char \<Rightarrow> bool" where
  "in_range a b c \<longleftrightarrow> a \<le> of_char c \<and> of_char c \<le> b"

text \<open>\<open>_ANSI_RE\<close> at the front: what follows the match. The three character classes are disjoint.\<close>

definition ansi_match :: "string \<Rightarrow> string option" where
  "ansi_match s = (case s of
     a # b # r \<Rightarrow>
       if a = CHR 0x1B \<and> b = CHR ''['' then
         (case dropWhile (in_range 32 47) (dropWhile (in_range 48 63) r) of
            c # q \<Rightarrow> if in_range 64 126 c then Some q else None
          | [] \<Rightarrow> None)
       else None
   | _ \<Rightarrow> None)"

lemma ansi_match_shorter: "ansi_match s = Some r \<Longrightarrow> length r < length s"
proof -
  assume "ansi_match s = Some r"
  then obtain a b t c where s: "s = a # b # t"
    and t: "dropWhile (in_range 32 47) (dropWhile (in_range 48 63) t) = c # r"
    by (auto simp: ansi_match_def split: list.splits if_splits)
  have "length (dropWhile (in_range 32 47) (dropWhile (in_range 48 63) t)) \<le> length t"
    by (meson le_trans length_dropWhile_le)
  with s t show ?thesis by simp
qed

function strip_ansi :: "string \<Rightarrow> string" where
  "strip_ansi s = (case ansi_match s of Some r \<Rightarrow> strip_ansi r
     | None \<Rightarrow> (case s of [] \<Rightarrow> [] | c # r \<Rightarrow> c # strip_ansi r))"
  by pat_completeness auto
termination by (relation "measure length") (auto simp: ansi_match_shorter)

declare strip_ansi.simps [simp del]

definition temp_prefix :: string where
  "temp_prefix = ''/tmp/psmatrix-run-''"

definition temp_match :: "string \<Rightarrow> string option" where
  "temp_match s = (if starts_with temp_prefix s then
     (let r = drop (length temp_prefix) s; q = dropWhile (\<lambda>c. c \<noteq> CHR ''/'' \<and> \<not> is_space c) r in
      if length q < length r then Some q else None) else None)"

lemma temp_match_shorter: "temp_match s = Some r \<Longrightarrow> length r < length s"
  by (auto simp: temp_match_def Let_def split: if_splits)

function mask_temp :: "string \<Rightarrow> string" where
  "mask_temp s = (case temp_match s of Some r \<Rightarrow> ''<workspace>'' @ mask_temp r
     | None \<Rightarrow> (case s of [] \<Rightarrow> [] | c # r \<Rightarrow> c # mask_temp r))"
  by pat_completeness auto
termination by (relation "measure length") (auto simp: temp_match_shorter)

declare mask_temp.simps [simp del]

definition rstrip_char :: "char \<Rightarrow> string \<Rightarrow> string" where
  "rstrip_char c s = rev (dropWhile (\<lambda>x. x = c) (rev s))"

definition normalized_text :: "string \<Rightarrow> string" where
  "normalized_text value =
     (let v = strip_ansi (replace_all [CHR 0x0D] [CHR 0x0A] (replace_all [CHR 0x0D, CHR 0x0A] [CHR 0x0A] value));
          w = mask_temp v
      in rstrip_char (CHR 0x0A) (join [CHR 0x0A] (map rstrip (split_on (CHR 0x0A) w))))"

primrec normalize_value :: "json \<Rightarrow> json" where
  "normalize_value JNull = JNull"
| "normalize_value (JBool b) = JBool b"
| "normalize_value (JInt i) = JInt i"
| "normalize_value (JFloat m e) = JFloat m e"
| "normalize_value (JStr s) = JStr (normalized_text s)"
| "normalize_value (JArr xs) = JArr (map normalize_value xs)"
| "normalize_value (JObj kvs) = JObj (sort_key fst (map (map_prod id normalize_value) kvs))"

definition value_digest :: "(string \<Rightarrow> string) \<Rightarrow> json \<Rightarrow> string" where
  "value_digest H value = H (utf8 (dumps value))"

section \<open>Signatures\<close>

definition execution_signature :: "target_report \<Rightarrow> json" where
  "execution_signature t = (case tr_execution t of
     None \<Rightarrow> JObj [(''present'', JBool False)]
   | Some e \<Rightarrow> JObj
       [(''present'', JBool True), (''exit_code'', opt_int (ex_exit_code e)),
        (''timed_out'', JBool (ex_timed_out e)), (''resource_violation'', opt_str (ex_resource_violation e)),
        (''stdout'', JStr (normalized_text (ex_stdout e))), (''stderr'', JStr (normalized_text (ex_stderr e))),
        (''stdout_truncated'', JBool (ex_stdout_truncated e)),
        (''stderr_truncated'', JBool (ex_stderr_truncated e))])"

definition parse_signature :: "target_report \<Rightarrow> json" where
  "parse_signature t = JArr (map (\<lambda>d. JObj
     [(''error_id'', opt_str (pd_error_id d)), (''message'', JStr (normalized_text (pd_message d))),
      (''line'', opt_int (pd_line d)), (''column'', opt_int (pd_column d)), (''extent'', opt_str (pd_extent d))])
     (tr_parse_diagnostics t))"

definition verification_signature :: "target_report \<Rightarrow> json" where
  "verification_signature t = JArr (map (\<lambda>c. JObj
     [(''kind'', JStr (vc_kind c)), (''subject'', JStr (vc_subject c)), (''passed'', JBool (vc_passed c)),
      (''expected'', vc_expected c), (''actual'', vc_actual c)])
     (sort_key (\<lambda>c. (vc_kind c, vc_subject c)) (tr_verification t)))"

definition file_signature :: "target_report \<Rightarrow> json" where
  "file_signature t = JArr (map file_change_dict
     (sort_key (\<lambda>c. (fc_path c, fc_change c)) (tr_file_changes t)))"

definition named_items :: "json list \<Rightarrow> json list" where
  "named_items xs = filter (\<lambda>i. is_dict i \<and> py_true (get_none ''name'' i)) xs"

definition analysis_signature :: "target_report \<Rightarrow> json res" where
  "analysis_signature t =
     (let analysis = py_or (tr_analysis t) (JObj []) in
      res_bind (dget_none ''ast'' analysis) (\<lambda>a.
      let ast = (if is_dict a then a else analysis);
          name = (\<lambda>i. py_str (get_none ''name'' i)) in
      res_bind (py_iter (get_or ''commands'' (JArr []) ast)) (\<lambda>commands.
      res_bind (py_iter (get_or ''type_names'' (JArr []) ast)) (\<lambda>types.
      res_bind (py_iter (get_or ''functions'' (JArr []) ast)) (\<lambda>functions.
      res_bind (py_iter (get_or ''classes'' (JArr []) ast)) (\<lambda>classes.
      Inr (JObj
        [(''commands'', JArr (map JStr (sort (map name (named_items commands))))),
         (''type_names'', JArr (map JStr (sort (map py_str types)))),
         (''functions'', JArr (map JStr (sort (map name (named_items functions))))),
         (''classes'', JArr (map (\<lambda>(k, n). JArr [JStr k, JStr n])
            (sort (map (\<lambda>i. (py_str (get_none ''kind'' i), name i)) (named_items classes)))))])))))))"

definition as_dict :: "json \<Rightarrow> json" where
  "as_dict v = (if is_dict v then v else JObj [])"

definition dependency_signature :: "target_report \<Rightarrow> json" where
  "dependency_signature t =
     (let dependencies = as_dict (tr_dependencies t);
          items = filter is_dict (list_items (get_or ''checks'' (JArr []) dependencies));
          normalized = map (\<lambda>i. JObj
            [(''kind'', get_none ''kind'' i), (''name'', get_none ''name'' i), (''passed'', get_none ''passed'' i),
             (''expected'', normalize_value (get_none ''expected'' i)),
             (''actual'', normalize_value (get_none ''actual'' i)),
             (''message'', normalize_value (get_none ''message'' i))]) items
      in JObj [(''status'', get_none ''status'' dependencies),
           (''checks'', JArr (sort_key (\<lambda>i. (py_str (get_none ''kind'' i), py_str (get_none ''name'' i))) normalized))])"

definition hook_items :: "json \<Rightarrow> string \<Rightarrow> json" where
  "hook_items hooks phase = JArr (map (\<lambda>i.
     let execution = as_dict (get_or ''execution'' (JObj []) i);
         payload = as_dict (get_or ''payload'' (JObj []) i)
     in JObj [(''exit_code'', get_none ''exit_code'' execution), (''timed_out'', get_none ''timed_out'' execution),
          (''resource_violation'', get_none ''resource_violation'' execution),
          (''payload_status'', get_none ''status'' payload)])
     (filter is_dict (list_items (get_or phase (JArr []) hooks))))"

definition hook_signature :: "target_report \<Rightarrow> json" where
  "hook_signature t = (let hooks = as_dict (tr_hooks t) in
     JObj [(''setup'', hook_items hooks ''setup''), (''teardown'', hook_items hooks ''teardown'')])"

definition observation_signature :: "target_report \<Rightarrow> json" where
  "observation_signature t =
     (let o1 = as_dict (tr_observation t); n = (\<lambda>k. normalize_value (get_none k o1)) in JObj
       [(''output_count'', get_none ''output_count'' o1), (''output_truncated'', get_none ''output_truncated'' o1),
        (''output_shapes'', normalize_value (get_or ''output_shapes'' (JArr []) o1)),
        (''error'', n ''error''), (''streams'', normalize_value (get_or ''streams'' (JObj []) o1)),
        (''native'', normalize_value (get_or ''native'' (JObj []) o1)), (''module'', n ''module''),
        (''manifest'', n ''manifest''), (''semantic'', normalize_value (get_or ''semantic'' (JObj []) o1))])"

definition target_signature :: "target_report \<Rightarrow> json res" where
  "target_signature t =
     (let pester = (if is_dict (tr_tests t) then get_or ''pester'' (JObj []) (tr_tests t) else JObj []) in
      res_bind (analysis_signature t) (\<lambda>analysis.
      Inr (JObj
        [(''status'', JStr (tr_status t)), (''parse_ok'', JBool (tr_parse_ok t)),
         (''parse'', parse_signature t), (''execution'', execution_signature t),
         (''observation'', observation_signature t),
         (''coverage'', if is_dict pester then normalize_value (get_or ''coverage'' (JObj []) pester) else JObj []),
         (''verification'', verification_signature t), (''file_changes'', file_signature t),
         (''analysis'', analysis), (''dependencies'', dependency_signature t),
         (''hooks'', hook_signature t)])))"

section \<open>Comparison\<close>

definition mk_issue ::
    "(string \<Rightarrow> string) \<Rightarrow> string \<Rightarrow> target_report \<Rightarrow> target_report \<Rightarrow> string \<Rightarrow> string \<Rightarrow> json \<Rightarrow> json \<Rightarrow> json" where
  "mk_issue H source baseline candidate dimension severity bv cv = JObj
     [(''source'', JStr source), (''baseline_runtime'', JStr (tr_runtime_id baseline)),
      (''candidate_runtime'', JStr (tr_runtime_id candidate)), (''dimension'', JStr dimension),
      (''severity'', JStr severity), (''baseline_digest'', JStr (value_digest H bv)),
      (''candidate_digest'', JStr (value_digest H cv)), (''baseline'', bv), (''candidate'', cv)]"

definition no_result :: "target_report \<Rightarrow> bool" where
  "no_result t \<longleftrightarrow> tr_status t = ''UNTESTED_RUNTIME'' \<or> tr_status t = ''FAIL_RUNTIME''"

definition all_dimensions :: "(string \<times> string) list" where
  "all_dimensions =
     [(''status'', ''error''), (''parse'', ''error''), (''execution'', ''error''),
      (''observation'', ''warning''), (''verification'', ''error''), (''file_changes'', ''warning''),
      (''analysis'', ''warning''), (''dependencies'', ''error''), (''hooks'', ''error'')]"

definition dimensions :: "target_report \<Rightarrow> target_report \<Rightarrow> (string \<times> string) list" where
  "dimensions baseline candidate =
     (if no_result baseline \<or> no_result candidate then [(''status'', ''error'')] else all_dimensions)"

definition compare_pair ::
    "(string \<Rightarrow> string) \<Rightarrow> string \<Rightarrow> target_report \<Rightarrow> target_report \<Rightarrow> json \<Rightarrow> json \<Rightarrow> json list" where
  "compare_pair H source baseline candidate bsig csig =
     map (\<lambda>(d, s). mk_issue H source baseline candidate d s (get_none d bsig) (get_none d csig))
       (filter (\<lambda>(d, s). \<not> py_eq (get_none d bsig) (get_none d csig)) (dimensions baseline candidate))"

text \<open>The position of the baseline among the ordered targets of a source\<close>

fun index_of :: "('a \<Rightarrow> bool) \<Rightarrow> 'a list \<Rightarrow> nat option" where
  "index_of P [] = None"
| "index_of P (x # xs) = (if P x then Some 0 else map_option Suc (index_of P xs))"

definition baseline_index :: "string option \<Rightarrow> target_report list \<Rightarrow> nat" where
  "baseline_index baseline_runtime ordered =
     (case (case baseline_runtime of
              Some b \<Rightarrow> if b = [] then None
                else index_of (\<lambda>t. tr_runtime_id t = b \<or> tr_runtime_version t = removeprefix ''v'' b) ordered
            | None \<Rightarrow> None) of
        Some i \<Rightarrow> i
      | None \<Rightarrow> (case index_of (\<lambda>t. \<not> no_result t) ordered of Some i \<Rightarrow> i | None \<Rightarrow> 0))"

definition others :: "nat \<Rightarrow> 'a list \<Rightarrow> 'a list" where
  "others i xs = take i xs @ drop (Suc i) xs"

definition compare_group ::
    "(string \<Rightarrow> string) \<Rightarrow> string option \<Rightarrow> string \<times> target_report list \<Rightarrow> json res" where
  "compare_group H baseline_runtime = (\<lambda>(source, grp).
     (let ordered = sort_key (\<lambda>t. version_key (tr_runtime_version t)) grp;
          i = baseline_index baseline_runtime ordered;
          baseline = ordered ! i
      in res_bind (target_signature baseline) (\<lambda>bsig.
         res_bind (res_map (\<lambda>c. res_bind (target_signature c) (\<lambda>csig.
             Inr (compare_pair H source baseline c bsig csig))) (others i ordered)) (\<lambda>pairs.
         let issues = concat pairs in
         Inr (JObj
           [(''source'', JStr source), (''baseline_runtime'', JStr (tr_runtime_id baseline)),
            (''compared_runtimes'', JArr (map (\<lambda>t. JStr (tr_runtime_id t)) (others i ordered))),
            (''status'', JStr (if issues \<noteq> [] then ''DIFFERENT'' else ''EQUIVALENT'')),
            (''issue_count'', JInt (int (length issues))), (''issues'', JArr issues)])))))"

definition group_by_source :: "target_report list \<Rightarrow> (string \<times> target_report list) list" where
  "group_by_source targets =
     map (\<lambda>s. (s, filter (\<lambda>t. path_str (tr_source t) = s) targets))
       (sort (dedup_first (map (\<lambda>t. path_str (tr_source t)) targets)))"

definition compare_targets ::
    "(string \<Rightarrow> string) \<Rightarrow> target_report list \<Rightarrow> string option \<Rightarrow> json list res" where
  "compare_targets H targets baseline_runtime =
     res_map (compare_group H baseline_runtime)
       (filter (\<lambda>(s, g). 2 \<le> length g) (group_by_source targets))"

section \<open>What the comparison finds\<close>



lemma target_signature_fields:
  assumes "target_signature t = Inr s" and "(d, sv) \<in> set all_dimensions"
  shows "\<exists>v. jget d s = Some v"
  using assms by (auto simp: target_signature_def all_dimensions_def Let_def)


lemma group_in_targets:
  assumes "(source, grp) \<in> set (group_by_source targets)"
  shows "grp = filter (\<lambda>t. path_str (tr_source t) = source) targets"
  using assms by (auto simp: group_by_source_def)






end
