(* ===== verification/Psm_Diagnostics.thy ===== *)
theory Psm_Diagnostics
  imports Psm_Models
begin

text \<open>
  The diagnostics of \<open>diagnostics.py\<close>: what a target report is turned into, the removal of
  duplicates with the final order, and the summary. \<open>H\<close> is the SHA-256 hex digest.
\<close>

section \<open>Data\<close>

record diagnostic =
  dg_code :: string
  dg_severity :: string
  dg_stage :: string
  dg_message :: string
  dg_source :: string
  dg_runtime_id :: "string option"
  dg_line :: "int option"
  dg_column :: "int option"
  dg_evidence :: json
  dg_repairability :: string

definition diagnostic_dict :: "diagnostic \<Rightarrow> json" where
  "diagnostic_dict d = JObj
     [(''code'', JStr (dg_code d)), (''severity'', JStr (dg_severity d)), (''stage'', JStr (dg_stage d)),
      (''message'', JStr (dg_message d)), (''source'', JStr (dg_source d)),
      (''runtime_id'', opt_str (dg_runtime_id d)), (''line'', opt_int (dg_line d)),
      (''column'', opt_int (dg_column d)), (''evidence'', dg_evidence d),
      (''repairability'', JStr (dg_repairability d))]"

definition status_codes :: "(string \<times> string \<times> string \<times> string) list" where
  "status_codes =
     [(''FAIL_INPUT'', ''PSMX1000'', ''error'', ''input''),
      (''FAIL_PARSE'', ''PSMX1100'', ''error'', ''parse''),
      (''FAIL_ANALYZER'', ''PSMX1200'', ''error'', ''analysis''),
      (''FAIL_DEPENDENCY'', ''PSMX1300'', ''error'', ''dependency''),
      (''FAIL_SETUP'', ''PSMX1400'', ''error'', ''setup''),
      (''FAIL_TIMEOUT'', ''PSMX1500'', ''error'', ''execution''),
      (''FAIL_RESOURCE'', ''PSMX1501'', ''error'', ''execution''),
      (''FAIL_EXECUTION'', ''PSMX1502'', ''error'', ''execution''),
      (''FAIL_STREAM'', ''PSMX1600'', ''error'', ''stream''),
      (''FAIL_NATIVE'', ''PSMX1601'', ''error'', ''native''),
      (''FAIL_VERIFICATION'', ''PSMX1700'', ''error'', ''verification''),
      (''FAIL_TEST'', ''PSMX1800'', ''error'', ''test''),
      (''FAIL_COVERAGE'', ''PSMX1801'', ''error'', ''coverage''),
      (''FAIL_TEARDOWN'', ''PSMX1900'', ''error'', ''teardown''),
      (''FAIL_RUNTIME'', ''PSMX2000'', ''error'', ''runtime''),
      (''UNTESTED_RUNTIME'', ''PSMX2001'', ''warning'', ''runtime''),
      (''FAIL_SANDBOX'', ''PSMX2100'', ''error'', ''sandbox''),
      (''FAIL_WORKER'', ''PSMX2200'', ''error'', ''worker'')]"

definition stable_rule_code :: "(string \<Rightarrow> string) \<Rightarrow> string \<Rightarrow> string" where
  "stable_rule_code H name = ''PSMXA-'' @ str_upper (take 8 (H (utf8 name)))"

definition int_or_none :: "json \<Rightarrow> int option" where
  "int_or_none value = (if value = JNull then None
     else (case py_int value of Inr i \<Rightarrow> Some i | Inl _ \<Rightarrow> None))"

section \<open>Deduplication and order\<close>

type_synonym diagnostic_key =
  "string \<times> string \<times> string \<times> string \<times> string \<times> string option \<times> int option \<times> int option \<times> string"

definition dedupe_key :: "diagnostic \<Rightarrow> diagnostic_key" where
  "dedupe_key d = (dg_code d, dg_severity d, dg_stage d, dg_message d, dg_source d, dg_runtime_id d,
     dg_line d, dg_column d, dumps (dg_evidence d))"

fun first_by :: "('a \<Rightarrow> 'k) \<Rightarrow> 'k list \<Rightarrow> 'a list \<Rightarrow> 'a list" where
  "first_by f seen [] = []"
| "first_by f seen (x # xs) =
     (if f x \<in> set seen then first_by f seen xs else x # first_by f (f x # seen) xs)"

definition opt_else :: "'a \<Rightarrow> 'a option \<Rightarrow> 'a" where
  "opt_else d v = (case v of None \<Rightarrow> d | Some x \<Rightarrow> x)"

definition diagnostic_order :: "diagnostic \<Rightarrow> string \<times> int \<times> int \<times> string \<times> string \<times> string" where
  "diagnostic_order d = (dg_source d, opt_else 0 (dg_line d), opt_else 0 (dg_column d),
     opt_else '''' (dg_runtime_id d), dg_code d, dg_message d)"

definition dedupe :: "diagnostic list \<Rightarrow> diagnostic list" where
  "dedupe items = sort_key diagnostic_order (first_by dedupe_key [] items)"

section \<open>The diagnostics of one target\<close>

definition target_diagnostic ::
    "target_report \<Rightarrow> string \<Rightarrow> string \<Rightarrow> string \<Rightarrow> string \<Rightarrow> (string \<times> json) list \<Rightarrow> string \<Rightarrow> diagnostic" where
  "target_diagnostic t code severity stage message evidence repairability =
     \<lparr>dg_code = code, dg_severity = severity, dg_stage = stage, dg_message = message,
      dg_source = tr_source t, dg_runtime_id = Some (tr_runtime_id t), dg_line = None, dg_column = None,
      dg_evidence = JObj evidence, dg_repairability = repairability\<rparr>"

definition parse_items :: "target_report \<Rightarrow> diagnostic list" where
  "parse_items t = map (\<lambda>d.
     (target_diagnostic t ''PSMX1101'' ''error'' ''parse'' (pd_message d)
        [(''parser_error_id'', opt_str (pd_error_id d)), (''extent'', opt_str (pd_extent d)),
         (''target_status'', JStr (tr_status t))] ''ai_patch'')
       \<lparr>dg_line := pd_line d, dg_column := pd_column d\<rparr>) (tr_parse_diagnostics t)"

definition analyzer_severity :: "json \<Rightarrow> string" where
  "analyzer_severity value =
     (let s = py_lower (py_str (py_or (get_none ''severity'' value) (JStr ''warning'')));
          s' = (if s \<in> set [''error'', ''warning'', ''information'', ''note''] then s else ''warning'')
      in if s' = ''note'' then ''information'' else s')"

definition analyzer_item :: "(string \<Rightarrow> string) \<Rightarrow> target_report \<Rightarrow> json \<Rightarrow> diagnostic" where
  "analyzer_item H t value =
     (let rule = py_str (py_or (py_or (get_none ''rule_name'' value) (get_none ''rule'' value))
                   (JStr ''PSScriptAnalyzer''))
      in (target_diagnostic t (stable_rule_code H rule) (analyzer_severity value) ''analysis''
            (py_str (py_or (get_none ''message'' value) (JStr rule)))
            [(''rule'', JStr rule), (''raw'', value)] ''ai_patch'')
           \<lparr>dg_line := int_or_none (py_or (get_none ''line'' value) (get_none ''line_number'' value)),
            dg_column := int_or_none (py_or (get_none ''column'' value) (get_none ''column_number'' value))\<rparr>)"

text \<open>\<open>d.get(k, default)\<close> of what is read as a dict when it is one, and the dicts of a list\<close>

definition sub_dict :: "string \<Rightarrow> json \<Rightarrow> json" where
  "sub_dict k v = (if is_dict v then get_or k (JObj []) v else JObj [])"

definition sub_records :: "string \<Rightarrow> json \<Rightarrow> json list" where
  "sub_records k v = (if is_dict v then filter is_dict (list_items (get_or k (JArr []) v)) else [])"

definition analyzer_items :: "(string \<Rightarrow> string) \<Rightarrow> target_report \<Rightarrow> diagnostic list" where
  "analyzer_items H t =
     map (analyzer_item H t) (sub_records ''diagnostics'' (sub_dict ''psscriptanalyzer'' (tr_analysis t)))"

definition check_item :: "target_report \<Rightarrow> verification_check \<Rightarrow> diagnostic" where
  "check_item t c = target_diagnostic t ''PSMX1701'' ''error'' ''verification''
     (case vc_message c of
        Some m \<Rightarrow> if m \<noteq> [] then m else ''Verification failed: '' @ vc_kind c @ '' '' @ vc_subject c
      | None \<Rightarrow> ''Verification failed: '' @ vc_kind c @ '' '' @ vc_subject c)
     [(''kind'', JStr (vc_kind c)), (''subject'', JStr (vc_subject c)), (''expected'', vc_expected c),
      (''actual'', vc_actual c)] ''ai_patch_or_contract''"

definition check_items :: "target_report \<Rightarrow> diagnostic list" where
  "check_items t = map (check_item t) (filter (\<lambda>c. \<not> vc_passed c) (tr_verification t))"

definition stream_items :: "target_report \<Rightarrow> diagnostic list" where
  "stream_items t = (if tr_status t = ''FAIL_STREAM'' then
     map (\<lambda>value. target_diagnostic t ''PSMX1602'' ''error'' ''stream''
        (py_str (py_or (get_none ''message'' value) (JStr ''PowerShell error stream record'')))
        [(''record'', value)] ''ai_patch_or_contract'')
       (sub_records ''records'' (sub_dict ''error'' (sub_dict ''streams'' (tr_observation t))))
     else [])"

definition native_items :: "target_report \<Rightarrow> diagnostic list" where
  "native_items t = (let native = sub_dict ''native'' (tr_observation t) in
     if tr_status t = ''FAIL_NATIVE'' \<and> is_dict native then
       [target_diagnostic t ''PSMX1603'' ''error'' ''native''
          (''Native command returned LASTEXITCODE='' @ py_str (get_none ''last_exit_code'' native))
          [(''native'', native)] ''ai_patch'']
     else [])"

definition test_items :: "target_report \<Rightarrow> diagnostic list" where
  "test_items t = (let pester = sub_dict ''pester'' (tr_tests t) in
     if tr_status t \<in> set [''FAIL_TEST'', ''FAIL_COVERAGE''] \<and> is_dict pester then
       map (\<lambda>value. target_diagnostic t ''PSMX1802'' ''error'' ''test''
           (py_str (py_or (py_or (get_none ''message'' value) (get_none ''name'' value))
              (JStr ''Pester test failed'')))
           [(''test'', value)] ''ai_patch_or_test'') (sub_records ''failures'' pester)
       @ (let coverage = get_or ''coverage'' (JObj []) pester in
          if tr_status t = ''FAIL_COVERAGE'' \<and> is_dict coverage then
            [target_diagnostic t ''PSMX1803'' ''error'' ''coverage''
               (''Coverage threshold failed: '' @ py_str (get_none ''percent'' coverage))
               [(''coverage'', coverage)] ''ai_patch_or_test'']
          else [])
     else [])"

definition status_item :: "target_report \<Rightarrow> string \<times> string \<times> string \<Rightarrow> diagnostic" where
  "status_item t = (\<lambda>(code, severity, stage). target_diagnostic t code severity stage
     (case tr_warnings t of w # _ \<Rightarrow> w | [] \<Rightarrow> tr_status t @ '' on '' @ tr_runtime_id t)
     [(''target_status'', JStr (tr_status t))]
     (if stage \<in> set [''runtime'', ''sandbox'', ''worker''] then ''environment'' else ''ai_patch''))"

definition found_items :: "(string \<Rightarrow> string) \<Rightarrow> target_report \<Rightarrow> diagnostic list" where
  "found_items H t = parse_items t @ analyzer_items H t @ check_items t @ stream_items t
     @ native_items t @ test_items t"

definition diagnostics_for_target :: "(string \<Rightarrow> string) \<Rightarrow> target_report \<Rightarrow> diagnostic list" where
  "diagnostics_for_target H t =
     (let items = found_items H t in
      dedupe (case map_of status_codes (tr_status t) of
          Some entry \<Rightarrow> if items = [] then [status_item t entry] else items
        | None \<Rightarrow> items))"

definition collect_diagnostics :: "(string \<Rightarrow> string) \<Rightarrow> target_report list \<Rightarrow> json list" where
  "collect_diagnostics H targets =
     map diagnostic_dict (dedupe (concat (map (diagnostics_for_target H) targets)))"

section \<open>Summary\<close>

fun tally :: "string list \<Rightarrow> (string \<times> nat) list" where
  "tally [] = []"
| "tally (k # ks) = (let counts = tally ks in AList.update k (case map_of counts k of None \<Rightarrow> 1 | Some n \<Rightarrow> Suc n) counts)"

definition counts_dict :: "string list \<Rightarrow> json" where
  "counts_dict keys = JObj (map (\<lambda>(k, n). (k, JInt (int n))) (sort_key fst (tally keys)))"

definition text_or :: "string \<Rightarrow> string \<Rightarrow> json \<Rightarrow> string" where
  "text_or k d v = py_str (get_or k (JStr d) v)"

definition summarize_diagnostics :: "json list \<Rightarrow> json" where
  "summarize_diagnostics items = JObj
     [(''count'', JInt (int (length items))),
      (''repairable_count'', JInt (int (length
         (filter (\<lambda>v. starts_with ''ai_patch'' (text_or ''repairability'' '''' v)) items)))),
      (''by_code'', counts_dict (map (text_or ''code'' ''UNKNOWN'') items)),
      (''by_stage'', counts_dict (map (text_or ''stage'' ''unknown'') items)),
      (''by_severity'', counts_dict (map (text_or ''severity'' ''unknown'') items))]"

definition report_diagnostics :: "(string \<Rightarrow> string) \<Rightarrow> matrix_report \<Rightarrow> json list \<times> json" where
  "report_diagnostics H report =
     (let values = (if mr_diagnostics report \<noteq> [] then mr_diagnostics report
                    else collect_diagnostics H (mr_targets report));
          normalized = filter is_dict values
      in (normalized, summarize_diagnostics normalized))"

section \<open>Lemmas\<close>

lemma first_by_keys: "f ` set (first_by f seen xs) = f ` set xs - set seen"
  by (induction xs arbitrary: seen) auto

lemma first_by_subset: "set (first_by f seen xs) \<subseteq> set xs"
proof (induction xs arbitrary: seen)
  case (Cons x xs)
  from Cons [of seen] Cons [of "f x # seen"] show ?case by auto
qed simp

lemma first_by_distinct: "distinct (map f (first_by f seen xs))"
proof (induction xs arbitrary: seen)
  case (Cons x xs)
  have "f x \<notin> f ` set (first_by f (f x # seen) xs)" by (simp add: first_by_keys)
  with Cons show ?case by simp
qed simp

text \<open>The first item of every key is the one that is kept.\<close>

lemma first_by_find:
  "k \<notin> set seen \<Longrightarrow> find (\<lambda>x. f x = k) (first_by f seen xs) = find (\<lambda>x. f x = k) xs"
  by (induction xs arbitrary: seen) auto

lemma find_by_distinct:
  assumes "distinct (map f xs)" and "d \<in> set xs"
  shows "find (\<lambda>x. f x = f d) xs = Some d"
  using assms
proof (induction xs)
  case (Cons x xs)
  show ?case
  proof (cases "d = x")
    case False
    with Cons.prems have "d \<in> set xs" and "f x \<noteq> f d" by auto
    with Cons show ?thesis by simp
  qed simp
qed simp

lemma set_dedupe: "set (dedupe items) = set (first_by dedupe_key [] items)"
  by (simp add: dedupe_def)

lemma dedupe_Nil [simp]: "dedupe items = [] \<longleftrightarrow> items = []"
proof -
  have "dedupe items = [] \<longleftrightarrow> set (dedupe items) = {}" by simp
  also have "\<dots> \<longleftrightarrow> dedupe_key ` set (first_by dedupe_key [] items) = {}" by (simp add: set_dedupe)
  also have "\<dots> \<longleftrightarrow> items = []" by (simp only: first_by_keys) simp
  finally show ?thesis .
qed

lemma dedupe_subset: "d \<in> set (dedupe items) \<Longrightarrow> d \<in> set items"
  using first_by_subset by (fastforce simp: set_dedupe)

definition located :: "target_report \<Rightarrow> diagnostic \<Rightarrow> bool" where
  "located t d \<longleftrightarrow> dg_source d = tr_source t \<and> dg_runtime_id d = Some (tr_runtime_id t)
     \<and> dg_severity d \<in> set [''error'', ''warning'', ''information'']"

lemma located_target_diagnostic:
  "located t (target_diagnostic t c s g m e r) \<longleftrightarrow> s \<in> set [''error'', ''warning'', ''information'']"
  by (simp add: located_def target_diagnostic_def)

lemma located_lines: "located t (d\<lparr>dg_line := l, dg_column := c\<rparr>) = located t d"
  by (simp add: located_def)

lemma analyzer_severity_ok: "analyzer_severity v \<in> set [''error'', ''warning'', ''information'']"
  by (simp add: analyzer_severity_def Let_def)

lemma located_found: "d \<in> set (found_items H t) \<Longrightarrow> located t d"
  unfolding found_items_def
  by (auto simp: parse_items_def analyzer_items_def analyzer_item_def check_items_def check_item_def
      stream_items_def native_items_def test_items_def Let_def located_lines located_target_diagnostic
      analyzer_severity_ok [simplified] split: if_splits)

lemma located_status:
  assumes "map_of status_codes s = Some e"
  shows "located t (status_item t e)"
proof -
  obtain c v g where e: "e = (c, v, g)" by (cases e)
  from assms have "e \<in> set (map snd status_codes)" by (force dest: map_of_SomeD)
  then have "v \<in> set [''error'', ''warning'', ''information'']"
    unfolding e by (simp add: status_codes_def) (elim disjE; simp)
  then show ?thesis by (simp add: e status_item_def located_target_diagnostic)
qed

lemma map_of_tally: "map_of (tally ks) k = (if k \<in> set ks then Some (count_list ks k) else None)"
  by (induction ks) (auto simp: Let_def update_conv)

lemma keys_tally: "distinct (map fst (tally ks))"
  by (induction ks) (simp_all add: Let_def distinct_update)

lemma map_of_map_snd: "map_of (map (\<lambda>(k, n). (k, f n)) kvs) k = map_option f (map_of kvs k)"
  by (induction kvs) auto

lemma get_counts_dict:
  "jget k (counts_dict ks) = (if k \<in> set ks then Some (JInt (int (count_list ks k))) else None)"
  by (simp add: counts_dict_def map_of_map_snd map_of_sort_key keys_tally map_of_tally)

section \<open>Properties\<close>

text \<open>A report with a failing status is never left without a diagnostic, and every diagnostic of
  a report names its source and runtime and has one of the three severities.\<close>

lemma failing_target_explained:
  shows "(tr_status t \<in> fst ` set status_codes \<longrightarrow> diagnostics_for_target H t \<noteq> [])
    \<and> (\<forall>d \<in> set (diagnostics_for_target H t). dg_source d = tr_source t
        \<and> dg_runtime_id d = Some (tr_runtime_id t)
        \<and> dg_severity d \<in> set [''error'', ''warning'', ''information''])"
proof (intro conjI impI)
  assume "tr_status t \<in> fst ` set status_codes"
  then obtain e where "map_of status_codes (tr_status t) = Some e"
    by (metis weak_map_of_SomeI image_iff prod.collapse)
  then show "diagnostics_for_target H t \<noteq> []"
    by (simp add: diagnostics_for_target_def Let_def)
next
  have "located t d" if "d \<in> set (diagnostics_for_target H t)" for d
    using that unfolding diagnostics_for_target_def Let_def
    by (auto dest!: dedupe_subset intro: located_found located_status split: option.splits if_splits)
  then show "\<forall>d \<in> set (diagnostics_for_target H t). dg_source d = tr_source t
      \<and> dg_runtime_id d = Some (tr_runtime_id t)
      \<and> dg_severity d \<in> set [''error'', ''warning'', ''information'']"
    unfolding located_def by blast
qed

lemma failing_target_explained_witness:
  "diagnostics_for_target (\<lambda>_. ''h'') (sample_report ''7.4.1'' ''FAIL_TEST'') \<noteq> []"
proof -
  have "tr_status (sample_report ''7.4.1'' ''FAIL_TEST'') \<in> fst ` set status_codes"
    by (simp add: sample_report_def status_codes_def)
  then show ?thesis using failing_target_explained by blast
qed

text \<open>Deduplication keeps exactly the first diagnostic of each key, and orders what it keeps by
  source, position, runtime, code and message.\<close>

lemma dedupe_exact:
  shows "sorted (map diagnostic_order (dedupe items)) \<and> distinct (map dedupe_key (dedupe items))
    \<and> set (dedupe items) = {d. find (\<lambda>x. dedupe_key x = dedupe_key d) items = Some d}"
proof (intro conjI set_eqI iffI)
  show "sorted (map diagnostic_order (dedupe items))" by (simp add: dedupe_def)
  have dist: "distinct (map dedupe_key (first_by dedupe_key [] items))" by (rule first_by_distinct)
  then show "distinct (map dedupe_key (dedupe items))"
    by (simp add: dedupe_def distinct_map)
  fix d
  let ?K = "first_by dedupe_key [] items"
  have same: "find (\<lambda>x. dedupe_key x = k) ?K = find (\<lambda>x. dedupe_key x = k) items" for k
    by (rule first_by_find) simp
  { assume "d \<in> set (dedupe items)"
    then have "find (\<lambda>x. dedupe_key x = dedupe_key d) ?K = Some d"
      using dist by (intro find_by_distinct) (simp_all add: set_dedupe)
    then show "d \<in> {d. find (\<lambda>x. dedupe_key x = dedupe_key d) items = Some d}" by (simp add: same) }
  { assume "d \<in> {d. find (\<lambda>x. dedupe_key x = dedupe_key d) items = Some d}"
    then have "find (\<lambda>x. dedupe_key x = dedupe_key d) ?K = Some d" by (simp add: same)
    then show "d \<in> set (dedupe items)" by (auto simp: set_dedupe find_Some_iff) }
qed

text \<open>The summary counts every diagnostic once per code, and lists a code exactly when a
  diagnostic has it.\<close>

lemma summary_counts:
  "get_none ''count'' (summarize_diagnostics items) = JInt (int (length items))
   \<and> (\<forall>code. jget code (get_none ''by_code'' (summarize_diagnostics items)) =
        (if code \<in> text_or ''code'' ''UNKNOWN'' ` set items
         then Some (JInt (int (length (filter (\<lambda>v. text_or ''code'' ''UNKNOWN'' v = code) items)))) else None))"
proof -
  have "count_list (map f xs) k = length (filter (\<lambda>x. f x = k) xs)" for f :: "json \<Rightarrow> string" and xs k
    by (induction xs) auto
  then show ?thesis by (simp add: summarize_diagnostics_def get_or_def get_counts_dict)
qed

end
