(* ===== verification/Psm_FullMatrixRun.thy ===== *)
theory Psm_FullMatrixRun
  imports Psm_FullMatrix Psm_ModelsRead Psm_Differential Psm_Diagnostics
begin

text \<open>
  Planning and running a matrix, the rest of \<open>full_matrix.py\<close>: backend selection, the synthetic and
  the normalised target reports, the local and the remote run, allowances, coverage and the verdict.
  What happens outside the process is an argument: the local \<open>psmatrix test\<close> child (\<open>me_spawn\<close>), the
  endpoint file of a remote worker (\<open>me_endpoint\<close>), the verified result of a remote job
  (\<open>me_submit\<close>), the plans of the two local backends, the clock, the CPU count.
\<close>

section \<open>Environment\<close>

record endpoint_info =
  ei_worker_id :: string
  ei_url :: string
  ei_expected_runtime_id :: string

text \<open>The child timed out, did not start, or exited with its streams and the report file it left.\<close>

datatype local_outcome =
    Timed_out string
  | Not_started string
  | Exited int string string "string option"

record matrix_env =
  me_hash :: "string \<Rightarrow> string"
  me_fs :: node
  me_started :: instant
  me_finished :: instant
  me_version :: string
  me_python :: string
  me_home :: "string list"
  me_temporary :: string
  me_cpus :: "nat option"
  me_spawn :: "string list \<Rightarrow> local_outcome"
  me_endpoint :: "string list \<Rightarrow> endpoint_info res"
  me_submit :: "endpoint_info \<Rightarrow> json \<Rightarrow> json res"

section \<open>Planning\<close>

definition ready_plan :: "json \<Rightarrow> bool" where
  "ready_plan plan \<longleftrightarrow> get_none ''status'' plan = JStr ''READY''"

definition select_backend :: "fm_target \<Rightarrow> string \<Rightarrow> json \<Rightarrow> json \<Rightarrow> string \<times> json" where
  "select_backend target version native oci =
     (if ft_backend target = ''native'' then (''native'', native)
      else if ft_backend target = ''oci'' then (''oci'', oci)
      else
        let legacy = py_true (get_none ''legacy_host'' (release_metadata version));
            order = (if legacy then [(''oci'', oci), (''native'', native)]
                     else [(''native'', native), (''oci'', oci)])
        in case find (\<lambda>(name, plan). ready_plan plan) order of Some x \<Rightarrow> x | None \<Rightarrow> hd order)"

definition select_local_plan ::
    "(runtime_spec \<Rightarrow> json) \<Rightarrow> (runtime_spec \<Rightarrow> string \<Rightarrow> json) \<Rightarrow> fm_target \<Rightarrow> json res" where
  "select_local_plan native_plan oci_plan target =
     (case ft_version target of
        None \<Rightarrow> throw AssertionError ''''
      | Some v \<Rightarrow>
          let spec = resolve_runtime v (ft_arch target) (ft_libc target);
              native = native_plan spec; oci = oci_plan spec (ft_container_engine target);
              (selected, plan) = select_backend target (rs_version spec) native oci
          in res_bind (expected_runtime_id target) (\<lambda>runtime. Inr (JObj
               [(''id'', JStr (ft_target_id target)), (''kind'', JStr (ft_kind target)),
                (''required'', JBool (ft_required target)), (''runtime_id'', JStr runtime),
                (''selected_backend'', JStr selected), (''status'', get_none ''status'' plan),
                (''native'', native), (''oci'', oci)])))"

text \<open>The status of a remote target and the details the plan shows with it\<close>

definition endpoint_label :: "fm_target \<Rightarrow> string" where
  "endpoint_label t = ''Remote endpoint '' @ ft_target_id t"

definition plan_endpoint :: "matrix_env \<Rightarrow> fm_target \<Rightarrow> (string \<times> (string \<times> json) list) res" where
  "plan_endpoint env target =
     (case ft_endpoint target of
        None \<Rightarrow> Inr (''MISSING'', [])
      | Some p \<Rightarrow>
          (case res_bind (reject_indirect FullMatrixError (endpoint_label target) (me_fs env) p) (\<lambda>_.
             if \<not> path_exists (me_fs env) p then Inr (''MISSING'', [])
             else res_bind (resolve_direct_existing (endpoint_label target) ''file'' (me_fs env) p) (\<lambda>q.
               res_bind (me_endpoint env q) (\<lambda>e.
                 Inr (if Some (ei_expected_runtime_id e) \<noteq> ft_runtime_id target
                        then ''RUNTIME_MISMATCH'' else ''READY'',
                      [(''worker_id'', JStr (ei_worker_id e)), (''url'', JStr (ei_url e))])))) of
             Inr x \<Rightarrow> Inr x
           | Inl e \<Rightarrow> if is_psmatrix_error e then Inr (''INVALID'', [(''error'', JStr (exn_str e))]) else Inl e))"

definition plan_target ::
    "matrix_env \<Rightarrow> (runtime_spec \<Rightarrow> json) \<Rightarrow> (runtime_spec \<Rightarrow> string \<Rightarrow> json) \<Rightarrow> fm_target \<Rightarrow> json res" where
  "plan_target env native_plan oci_plan target =
     (if ft_kind target = ''local'' then select_local_plan native_plan oci_plan target
      else res_bind (plan_endpoint env target) (\<lambda>(status, details).
        res_bind (expected_runtime_id target) (\<lambda>runtime. Inr (JObj
          ([(''id'', JStr (ft_target_id target)), (''kind'', JStr (ft_kind target)),
            (''required'', JBool (ft_required target)), (''runtime_id'', JStr runtime),
            (''endpoint'', case ft_endpoint target of None \<Rightarrow> JNull | Some p \<Rightarrow> JStr (path_text p)),
            (''status'', JStr status)] @ details)))))"

definition count_of :: "('a \<Rightarrow> bool) \<Rightarrow> 'a list \<Rightarrow> json" where
  "count_of P xs = JInt (int (length (filter P xs)))"

definition plan_full_matrix ::
    "matrix_env \<Rightarrow> (runtime_spec \<Rightarrow> json) \<Rightarrow> (runtime_spec \<Rightarrow> string \<Rightarrow> json) \<Rightarrow> string list \<Rightarrow> json res" where
  "plan_full_matrix env native_plan oci_plan spec_path =
     res_bind (load_spec (me_hash env) (me_started env) (me_fs env) spec_path) (\<lambda>spec.
     res_bind (res_map (plan_target env native_plan oci_plan) (fs_targets spec)) (\<lambda>targets.
     let required = (\<lambda>t. py_true (get_none ''required'' t));
         missing = filter (\<lambda>t. required t \<and> \<not> ready_plan t) targets
     in Inr (JObj
       [(''schema'', JInt 1), (''tool_version'', JStr (me_version env)),
        (''spec'', JObj [(''path'', JStr (path_text (fs_path spec))), (''sha256'', JStr (fs_sha256 spec)),
           (''name'', JStr (fs_name spec))]),
        (''status'', JStr (if missing = [] then ''READY'' else ''INCOMPLETE'')), (''targets'', JArr targets),
        (''coverage'', JObj
          [(''declared'', JInt (int (length targets))), (''required'', count_of required targets),
           (''optional'', count_of (\<lambda>t. \<not> required t) targets), (''ready'', count_of ready_plan targets),
           (''missing_required'', JArr (map (get_none ''id'') missing))])])))"

section \<open>Target reports\<close>

definition runtime_entries :: "fm_target \<Rightarrow> (string \<times> json) list" where
  "runtime_entries t =
     [(''matrix_target_id'', JStr (ft_target_id t)), (''kind'', JStr (ft_kind t)),
      (''required'', JBool (ft_required t)),
      (''platform'', JStr (if ft_kind t = ''remote'' then ''windows'' else ''linux'')),
      (''arch'', JStr (ft_arch t)), (''libc'', if ft_kind t = ''local'' then JStr (ft_libc t) else JNull)]"

definition synthetic_target ::
    "matrix_env \<Rightarrow> fm_target \<Rightarrow> string list \<Rightarrow> string \<Rightarrow> string \<Rightarrow> target_report res" where
  "synthetic_target env target source status message =
     res_bind (expected_runtime_id target) (\<lambda>runtime.
     res_bind (runtime_version target) (\<lambda>version.
     res_bind (sha256_file (me_hash env) (me_fs env) source) (\<lambda>digest.
       Inr \<lparr>tr_runtime_id = runtime, tr_runtime_version = version, tr_source = path_text source,
            tr_source_sha256 = digest, tr_status = status, tr_parse_ok = False,
            tr_parse_diagnostics = [\<lparr>pd_message = message, pd_error_id = Some ''PSMX1401'',
              pd_line = None, pd_column = None, pd_extent = None\<rparr>],
            tr_execution = None, tr_test_execution = None, tr_tests = JObj [], tr_verification = [],
            tr_file_changes = [], tr_windows_requirements = [], tr_warnings = [message],
            tr_sandbox = JObj [], tr_analysis = JObj [], tr_observation = JObj [],
            tr_runtime = JObj (runtime_entries target), tr_inputs = JObj [], tr_dependencies = JObj [],
            tr_hooks = JObj [], tr_cache = JObj []\<rparr>)))"

definition setdefault :: "string \<times> json \<Rightarrow> json \<Rightarrow> json" where
  "setdefault = (\<lambda>(k, d) v. if jget k v = None then jset k d v else v)"

definition section_defaults :: "(string \<times> json) list" where
  "section_defaults =
     [(''parse_diagnostics'', JArr []), (''verification'', JArr []), (''file_changes'', JArr []),
      (''windows_requirements'', JArr []), (''warnings'', JArr []), (''sandbox'', JObj []),
      (''analysis'', JObj []), (''observation'', JObj []), (''runtime'', JObj []), (''inputs'', JObj []),
      (''dependencies'', JObj []), (''hooks'', JObj []), (''cache'', JObj []), (''tests'', JObj [])]"

definition update_dict :: "(string \<times> json) list \<Rightarrow> json \<Rightarrow> json" where
  "update_dict kvs v = fold (\<lambda>(k, x) d. jset k x d) kvs v"

definition normalize_target ::
    "matrix_env \<Rightarrow> json \<Rightarrow> fm_target \<Rightarrow> string list \<Rightarrow> target_report res" where
  "normalize_target env raw target source =
     res_bind (expected_runtime_id target) (\<lambda>expected.
     res_bind (runtime_version target) (\<lambda>version.
     res_bind (sha256_file (me_hash env) (me_fs env) source) (\<lambda>digest.
     let payload = fold setdefault
           ([(''runtime_id'', JStr expected), (''runtime_version'', JStr version),
             (''source'', JStr (path_text source)), (''source_sha256'', JStr digest),
             (''status'', JStr ''FAIL_WORKER''), (''parse_ok'', JBool False)] @ section_defaults) raw;
         original = or_text ''source'' '''' payload;
         runtime = py_or (get_none ''runtime'' payload) (JObj [])
     in if \<not> is_dict runtime then throw TypeError ''cannot convert to a dict''
        else
          let payload = jset ''source'' (JStr (path_text source)) payload;
              payload = jset ''runtime''
                (update_dict (runtime_entries target @ [(''original_source'', JStr original)]) runtime) payload
          in res_bind (target_report_from_dict payload) (\<lambda>report.
            if tr_runtime_id report \<noteq> expected
            then throw FullMatrixError (''Target '' @ ft_target_id target @ '' returned runtime ''
              @ tr_runtime_id report @ ''; expected '' @ expected)
            else Inr report))))"

section \<open>Running one target\<close>

type_synonym component = "(string \<times> json) list"
type_synonym target_result = "target_report list \<times> component"

definition failed_target ::
    "matrix_env \<Rightarrow> fm_target \<Rightarrow> string list \<Rightarrow> string \<Rightarrow> string \<Rightarrow> component \<Rightarrow> target_result res" where
  "failed_target env target entrypoint status message component =
     res_bind (synthetic_target env target entrypoint status message) (\<lambda>t. Inr ([t], component))"

definition last_chars :: "nat \<Rightarrow> string \<Rightarrow> string" where
  "last_chars n s = drop (length s - n) s"

definition local_command ::
    "matrix_env \<Rightarrow> fm_target \<Rightarrow> string \<Rightarrow> string list \<Rightarrow> string list \<Rightarrow> string list" where
  "local_command env target version entrypoint common_args =
     [me_python env, ''-m'', ''psmatrix'', ''--home'', path_text (me_home env), ''test'', path_text entrypoint,
      ''--runtime'', version, ''--arch'', ft_arch target, ''--libc'', ft_libc target,
      ''--backend'', ft_backend target, ''--container-engine'', ft_container_engine target]
     @ common_args @ ft_args target @ [''--report-json'', me_temporary env @ ''/report.json'']"

definition local_report ::
    "matrix_env \<Rightarrow> fm_target \<Rightarrow> string list \<Rightarrow> component \<Rightarrow> int \<Rightarrow> string option \<Rightarrow> target_result res" where
  "local_report env target entrypoint process exit_code bytes =
     (let failed = (\<lambda>status message. failed_target env target entrypoint status message process) in
      case bytes of
        None \<Rightarrow> failed (if exit_code \<noteq> 0 then ''UNTESTED_RUNTIME'' else ''FAIL_WORKER'')
                  ''Local target did not produce a matrix report''
      | Some b \<Rightarrow> (case utf8_decode b of
          None \<Rightarrow> throw ValueError ''invalid utf-8''
        | Some t \<Rightarrow> (case loads t of
            None \<Rightarrow> failed ''FAIL_WORKER'' ''Local matrix report is malformed: invalid JSON''
          | Some value \<Rightarrow> (case get_none ''targets'' value of
              JArr [JObj kvs] \<Rightarrow> (case normalize_target env (JObj kvs) target entrypoint of
                  Inr report \<Rightarrow> Inr ([report], process)
                | Inl e \<Rightarrow> if exn_class e \<in> {TypeError, FullMatrixError}
                    then failed ''FAIL_WORKER'' (exn_str e) else Inl e)
            | _ \<Rightarrow> failed ''FAIL_WORKER'' ''Local target report must contain exactly one target''))))"

definition run_local ::
    "matrix_env \<Rightarrow> string list \<Rightarrow> fm_target \<Rightarrow> string list \<Rightarrow> nat \<Rightarrow> target_result res" where
  "run_local env entrypoint target common_args timeout =
     (case ft_version target of
        None \<Rightarrow> throw AssertionError ''''
      | Some version \<Rightarrow>
          let command = local_command env target version entrypoint common_args;
              shown = (''command'', JArr (map JStr command))
          in case me_spawn env command of
               Timed_out e \<Rightarrow> failed_target env target entrypoint ''FAIL_TIMEOUT''
                 (''Local target timed out after '' @ nat_str timeout @ ''s'')
                 [shown, (''timed_out'', JBool True), (''error'', JStr e)]
             | Not_started e \<Rightarrow> failed_target env target entrypoint ''FAIL_WORKER''
                 (''Local target failed to start: '' @ e) [shown, (''error'', JStr e)]
             | Exited code out err bytes \<Rightarrow> local_report env target entrypoint
                 [shown, (''exit_code'', JInt code), (''stdout'', JStr (last_chars 16384 out)),
                  (''stderr'', JStr (last_chars 16384 err))] code bytes)"

text \<open>What a verified remote result has to prove before its report counts\<close>

definition check_remote_result :: "fm_target \<Rightarrow> json \<Rightarrow> json res" where
  "check_remote_result target verified =
     (let capabilities = dict_or_empty ''capabilities'' verified;
          reset = dict_or_empty ''reset'' verified;
          passed = (\<lambda>phase. is_true (get_none ''passed'' (dict_or_empty phase reset)));
          report = dict_or_empty ''report'' verified
      in if \<not> is_true (get_none ''authoritative'' capabilities)
            \<or> get_none ''runtime_id'' capabilities \<noteq> opt_str (ft_runtime_id target)
         then throw FullMatrixError ''Remote worker did not prove the required authoritative runtime''
         else if \<not> is_true (get_none ''required'' reset)
         then throw FullMatrixError ''Remote Windows target did not enforce snapshot reset''
         else if \<not> passed ''before''
         then throw FullMatrixError ''Remote Windows target reset-before did not pass''
         else if \<not> passed ''after''
         then throw FullMatrixError ''Remote Windows target reset-after did not pass''
         else (case get_none ''targets'' report of
             JArr [JObj kvs] \<Rightarrow> Inr (JObj kvs)
           | _ \<Rightarrow> throw FullMatrixError ''Remote worker report must contain exactly one target''))"

definition remote_attempt ::
    "matrix_env \<Rightarrow> string list \<Rightarrow> fm_target \<Rightarrow> string list \<Rightarrow> json \<Rightarrow> target_result res" where
  "remote_attempt env entrypoint target p common_options =
     res_bind (resolve_direct_existing (endpoint_label target) ''file'' (me_fs env) p) (\<lambda>q.
     res_bind (me_endpoint env q) (\<lambda>e.
       if Some (ei_expected_runtime_id e) \<noteq> ft_runtime_id target
       then throw FullMatrixError (''Endpoint runtime '' @ ei_expected_runtime_id e
         @ '' does not match target '' @ the (ft_runtime_id target))
       else res_bind (me_submit env e (update_dict (dict_items (ft_options target)) common_options)) (\<lambda>verified.
         res_bind (check_remote_result target verified) (\<lambda>raw.
         res_bind (normalize_target env raw target entrypoint) (\<lambda>report.
           Inr ([report],
             [(''endpoint'', JStr (path_text q)), (''worker_id'', JStr (ei_worker_id e)),
              (''signature_valid'', JBool True),
              (''capabilities'', dict_or_empty ''capabilities'' verified),
              (''reset'', dict_or_empty ''reset'' verified),
              (''transfer'', get_none ''transfer'' verified)]))))))"

definition run_remote ::
    "matrix_env \<Rightarrow> string list \<Rightarrow> fm_target \<Rightarrow> json \<Rightarrow> target_result res" where
  "run_remote env entrypoint target common_options =
     (case (ft_endpoint target, ft_runtime_id target) of
        (Some p, Some _) \<Rightarrow>
          let failed = (\<lambda>e. failed_target env target entrypoint ''FAIL_WORKER'' (exn_str e)
                [(''endpoint'', JStr (path_text p)), (''status'', JStr ''FAIL''), (''error'', JStr (exn_str e))])
          in (case reject_indirect FullMatrixError (endpoint_label target) (me_fs env) p of
                Inl e \<Rightarrow> failed e
              | Inr _ \<Rightarrow>
                  if \<not> path_exists (me_fs env) p
                  then failed_target env target entrypoint ''UNTESTED_RUNTIME''
                    (''Remote endpoint is missing: '' @ path_text p)
                    [(''endpoint'', JStr (path_text p)), (''status'', JStr ''MISSING'')]
                  else (case remote_attempt env entrypoint target p common_options of
                      Inr x \<Rightarrow> Inr x
                    | Inl e \<Rightarrow> if is_psmatrix_error e \<or> exn_class e \<in> {OSError, ValueError}
                        then failed e else Inl e))
      | _ \<Rightarrow> throw AssertionError '''')"

definition run_target ::
    "matrix_env \<Rightarrow> string list \<Rightarrow> string list \<Rightarrow> json \<Rightarrow> nat \<Rightarrow> fm_target \<Rightarrow> target_result res" where
  "run_target env entrypoint local_args remote_options timeout target =
     (case (if ft_kind target = ''local'' then run_local env entrypoint target local_args timeout
            else run_remote env entrypoint target remote_options) of
        Inr x \<Rightarrow> Inr x
      | Inl e \<Rightarrow> failed_target env target entrypoint ''FAIL_WORKER''
          (''Full matrix worker crashed: '' @ exn_str e)
          [(''status'', JStr ''FAIL''), (''error'', JStr (exn_str e))])"

end
