(* ===== verification/Psm_FullMatrixVerdict.thy ===== *)
theory Psm_FullMatrixVerdict
  imports Psm_FullMatrixRun
begin

text \<open>
  The verdict of a matrix run: the allowances applied to the differential groups, the coverage of the
  declared targets, and \<open>execute_full_matrix\<close> with the properties of the specification it loads and
  of the status it reports.
\<close>

section \<open>Allowances\<close>

definition first_allowance :: "allowance list \<Rightarrow> json \<Rightarrow> allowance option" where
  "first_allowance allowances issue = find (\<lambda>a. allowance_matches a issue) allowances"

definition mark_issue :: "allowance list \<Rightarrow> json \<Rightarrow> json" where
  "mark_issue allowances raw =
     (let matched = first_allowance allowances raw;
          issue = jset ''allowed'' (JBool (matched \<noteq> None)) raw
      in case matched of
           None \<Rightarrow> issue
         | Some a \<Rightarrow> jset ''allowance_manifest'' (opt_str (al_manifest a))
             (jset ''allowance_reason'' (JStr (al_reason a)) issue))"

definition issue_allowed :: "json \<Rightarrow> bool" where
  "issue_allowed issue \<longleftrightarrow> py_true (get_none ''allowed'' issue)"

definition apply_group :: "allowance list \<Rightarrow> json \<Rightarrow> json" where
  "apply_group allowances grp =
     (let issues = map (mark_issue allowances) (list_items (get_or ''issues'' (JArr []) grp));
          unallowed = length (filter (\<lambda>i. \<not> issue_allowed i) issues)
      in update_dict
           [(''issues'', JArr issues), (''allowed_issue_count'', count_of issue_allowed issues),
            (''unallowed_issue_count'', JInt (int unallowed)),
            (''status'', JStr (if 0 < unallowed then ''DIFFERENT''
               else if issues \<noteq> [] then ''ALLOWED_DIFFERENCES'' else ''EQUIVALENT''))] grp)"

definition apply_allowances :: "json list \<Rightarrow> allowance list \<Rightarrow> json list \<times> nat" where
  "apply_allowances differential allowances =
     (map (apply_group allowances) differential,
      sum_list (map (\<lambda>g. length (filter (\<lambda>i. first_allowance allowances i = None)
        (list_items (get_or ''issues'' (JArr []) g)))) differential))"

section \<open>Coverage\<close>

definition success_status :: "string list" where
  "success_status = [''PASS'', ''PASS_WITH_DIFFERENCES'']"

definition incomplete_status :: "string list" where
  "incomplete_status = [''UNTESTED_RUNTIME'', ''BACKEND_UNAVAILABLE'', ''INCOMPLETE'']"

record coverage_row =
  cr_id :: string
  cr_kind :: string
  cr_runtime_id :: string
  cr_required :: bool
  cr_status :: string

definition coverage_dict :: "coverage_row \<Rightarrow> json" where
  "coverage_dict r = JObj [(''id'', JStr (cr_id r)), (''kind'', JStr (cr_kind r)),
     (''runtime_id'', JStr (cr_runtime_id r)), (''required'', JBool (cr_required r)),
     (''status'', JStr (cr_status r))]"

text \<open>The report a matrix target is known by; a later report of the same id replaces an earlier one.\<close>

definition reports_by_id :: "target_report list \<Rightarrow> (string \<times> target_report) list" where
  "reports_by_id targets = rev (map (\<lambda>t. (py_str (get_none ''matrix_target_id'' (tr_runtime t)), t))
     (filter (\<lambda>t. is_dict (tr_runtime t) \<and> py_true (get_none ''matrix_target_id'' (tr_runtime t))) targets))"

definition coverage_row_of :: "target_report list \<Rightarrow> fm_target \<Rightarrow> coverage_row res" where
  "coverage_row_of targets declared =
     res_bind (expected_runtime_id declared) (\<lambda>runtime. Inr
       \<lparr>cr_id = ft_target_id declared, cr_kind = ft_kind declared, cr_runtime_id = runtime,
        cr_required = ft_required declared,
        cr_status = (case map_of (reports_by_id targets) (ft_target_id declared) of
            Some t \<Rightarrow> tr_status t | None \<Rightarrow> ''UNTESTED_RUNTIME'')\<rparr>)"

definition row_incomplete :: "coverage_row \<Rightarrow> bool" where
  "row_incomplete r \<longleftrightarrow> cr_status r \<in> set incomplete_status"

definition row_failed :: "coverage_row \<Rightarrow> bool" where
  "row_failed r \<longleftrightarrow> cr_status r \<notin> set success_status \<union> set incomplete_status"

definition missing_required :: "coverage_row list \<Rightarrow> string list" where
  "missing_required rows = map cr_id (filter (\<lambda>r. cr_required r \<and> row_incomplete r) rows)"

definition failed_required :: "coverage_row list \<Rightarrow> string list" where
  "failed_required rows = map cr_id (filter (\<lambda>r. cr_required r \<and> row_failed r) rows)"

definition target_coverage :: "fm_target list \<Rightarrow> target_report list \<Rightarrow> coverage_row list res" where
  "target_coverage declared targets = res_map (coverage_row_of targets) declared"

definition coverage_value :: "coverage_row list \<Rightarrow> json" where
  "coverage_value rows = JObj
     [(''declared'', JInt (int (length rows))),
      (''passed'', count_of (\<lambda>r. cr_status r \<in> set success_status) rows),
      (''incomplete'', count_of row_incomplete rows), (''failed'', count_of row_failed rows),
      (''missing_required'', JArr (map JStr (missing_required rows))),
      (''failed_required'', JArr (map JStr (failed_required rows))),
      (''targets'', JArr (map coverage_dict rows))]"

section \<open>Execution\<close>

definition verdict :: "coverage_row list \<Rightarrow> bool \<Rightarrow> nat \<Rightarrow> string \<Rightarrow> string" where
  "verdict rows require_complete unallowed mode =
     (if failed_required rows \<noteq> [] then ''FAIL''
      else if missing_required rows \<noteq> [] \<and> require_complete then ''INCOMPLETE''
      else if unallowed \<noteq> 0 \<and> mode = ''strict'' then ''FAIL_DIFFERENTIAL''
      else if unallowed \<noteq> 0 then ''PASS_WITH_DIFFERENCES''
      else ''PASS'')"

definition worker_count :: "matrix_env \<Rightarrow> int \<Rightarrow> nat \<Rightarrow> int" where
  "worker_count env jobs n = (if 0 < jobs then jobs
     else min (int n) (max 1 (min 8 (int (case me_cpus env of Some c \<Rightarrow> if c = 0 then 1 else c | None \<Rightarrow> 1)))))"

definition component_value :: "fm_target \<Rightarrow> component \<Rightarrow> json res" where
  "component_value t entries = res_bind (expected_runtime_id t) (\<lambda>runtime. Inr (update_dict entries (JObj
     [(''id'', JStr (ft_target_id t)), (''kind'', JStr (ft_kind t)), (''runtime_id'', JStr runtime),
      (''required'', JBool (ft_required t))])))"

text \<open>A target that may be missing and is missing is not compared.\<close>

definition compared :: "fm_target list \<Rightarrow> target_report \<Rightarrow> bool" where
  "compared declared t \<longleftrightarrow> \<not> (tr_status t \<in> set incomplete_status \<and>
     \<not> (case map_of (rev (map (\<lambda>d. (ft_target_id d, ft_required d)) declared))
          (py_str (get_none ''matrix_target_id'' (tr_runtime t))) of Some b \<Rightarrow> b | None \<Rightarrow> True))"

definition allowance_dict :: "allowance \<Rightarrow> json" where
  "allowance_dict a = JObj
     [(''dimension'', JStr (al_dimension a)), (''baseline_runtime'', JStr (al_baseline_runtime a)),
      (''candidate_runtime'', JStr (al_candidate_runtime a)), (''source'', JStr (al_source a)),
      (''reason'', JStr (al_reason a)), (''manifest'', opt_str (al_manifest a))]"

definition check_inside :: "string \<Rightarrow> string list \<Rightarrow> string list \<Rightarrow> string list res" where
  "check_inside message root p = (if is_within root p then Inr p else throw FullMatrixError message)"

definition report_of_run ::
    "matrix_env \<Rightarrow> fm_spec \<Rightarrow> string \<Rightarrow> int \<Rightarrow> (fm_target \<times> target_result) list \<Rightarrow> matrix_report res" where
  "report_of_run env spec mode jobs results =
     (let targets = concat (map (\<lambda>(_, ts, _). ts) results) in
      res_bind (res_map (\<lambda>(t, _, c). component_value t c) results) (\<lambda>components.
      res_bind (if mode = ''off'' then Inr []
          else compare_targets (me_hash env) (filter (compared (fs_targets spec)) targets)
            (fs_baseline_runtime spec)) (\<lambda>raw.
      res_bind (target_coverage (fs_targets spec) targets) (\<lambda>rows.
      let (differential, unallowed) = apply_allowances raw (fs_allowances spec) in Inr
        \<lparr>mr_schema = 8, mr_tool_version = me_version env, mr_started_at = iso (me_started env),
         mr_finished_at = iso (me_finished env),
         mr_status = verdict rows (fs_require_complete spec) unallowed mode,
         mr_targets = targets, mr_differential = differential,
         mr_matrix = JObj
           [(''full'', JBool True), (''name'', JStr (fs_name spec)),
            (''spec'', JObj [(''path'', JStr (path_text (fs_path spec))), (''sha256'', JStr (fs_sha256 spec))]),
            (''differential_mode'', JStr mode), (''baseline_runtime'', opt_str (fs_baseline_runtime spec)),
            (''allowances'', JArr (map allowance_dict (fs_allowances spec))),
            (''allowance_manifest'', fs_allowance_manifest spec),
            (''unallowed_differences'', JInt (int unallowed)),
            (''require_complete'', JBool (fs_require_complete spec)),
            (''workers'', JInt (worker_count env jobs (length (fs_targets spec)))),
            (''coverage'', coverage_value rows), (''components'', JArr components)],
         mr_diagnostics = collect_diagnostics (me_hash env) targets\<rparr>))))"

text \<open>
  The pool runs the targets in any order; the results are collected per target id and read back in
  the declared order, and no run depends on another, so the order does not show.
\<close>

definition execute_full_matrix ::
    "matrix_env \<Rightarrow> string list \<Rightarrow> string list \<Rightarrow> string list \<Rightarrow> string list list \<Rightarrow> json \<Rightarrow> json \<Rightarrow>
     nat \<Rightarrow> int \<Rightarrow> string option \<Rightarrow> matrix_report res" where
  "execute_full_matrix env root entrypoint spec_path includes local_args remote_options timeout jobs mode_arg =
     (let fs = me_fs env in
      res_bind (resolve_direct_existing ''Full matrix project root'' ''directory'' fs root) (\<lambda>root.
      res_bind (resolve_direct_existing ''Full matrix entrypoint'' ''file'' fs entrypoint) (\<lambda>entrypoint.
      res_bind (check_inside ''Full matrix entrypoint escapes project root'' root entrypoint) (\<lambda>_.
      res_bind (res_map (\<lambda>p. res_bind (resolve_direct_existing ''Full matrix include file'' ''file'' fs p) (\<lambda>q.
          check_inside (''Full matrix include escapes project root: '' @ path_text q) root q)) includes) (\<lambda>_.
      res_bind (validate_args local_args ''common'') (\<lambda>common.
      res_bind (load_spec (me_hash env) (me_started env) fs spec_path) (\<lambda>spec.
      let mode = py_lower (case mode_arg of Some m \<Rightarrow> if m = [] then fs_differential_mode spec else m
                           | None \<Rightarrow> fs_differential_mode spec)
      in if mode \<notin> set [''off'', ''report'', ''strict'']
         then throw FullMatrixError ''Unsupported full matrix differential mode''
         else res_bind (res_map (\<lambda>t. res_bind (run_target env entrypoint common remote_options timeout t)
             (\<lambda>r. Inr (t, r))) (fs_targets spec)) (report_of_run env spec mode jobs))))))))"

section \<open>Loaded specifications are well formed\<close>

definition target_wf :: "string list \<Rightarrow> fm_target \<Rightarrow> bool" where
  "target_wf dir t \<longleftrightarrow> safe_id (ft_target_id t) \<and> length (ft_args t) \<le> 128
     \<and> (\<forall>a \<in> set (ft_args t). takeWhile (\<lambda>c. c \<noteq> CHR ''='') a \<notin> set managed_args)
     \<and> (ft_kind t = ''local'' \<and> (\<exists>v. ft_version t = Some v \<and> v \<noteq> [])
         \<or> ft_kind t = ''remote'' \<and> (\<exists>r. ft_runtime_id t = Some r \<and> is_exact_windows_runtime_id r)
           \<and> (\<exists>p. ft_endpoint t = Some p \<and> is_within dir p))"

lemma validate_arg_ok:
  "validate_arg i v = Inr s \<Longrightarrow> takeWhile (\<lambda>c. c \<noteq> CHR ''='') s \<notin> set managed_args"
  by (auto simp: validate_arg_def split: json.splits if_splits)

lemma validate_args_ok:
  assumes "validate_args v i = Inr args"
  shows "length args \<le> 128" "\<forall>a \<in> set args. takeWhile (\<lambda>c. c \<noteq> CHR ''='') a \<notin> set managed_args"
proof -
  from assms have m: "res_map (validate_arg i) (list_items v) = Inr args" and l: "length (list_items v) \<le> 128"
    by (auto simp: validate_args_def split: if_splits)
  show "length args \<le> 128" using l res_map_length [OF m] by simp
  show "\<forall>a \<in> set args. takeWhile (\<lambda>c. c \<noteq> CHR ''='') a \<notin> set managed_args"
    using res_map_in [OF m] validate_arg_ok by blast
qed

lemma load_local_ok:
  assumes "load_local raw i req args = Inr t"
  shows "ft_target_id t = i \<and> ft_kind t = ''local'' \<and> ft_args t = args \<and> ft_required t = req
    \<and> (\<exists>v. ft_version t = Some v \<and> v \<noteq> [])"
  using assms by (auto simp: load_local_def Let_def simp del: list.set split: if_split_asm)

lemma load_remote_ok:
  assumes "load_remote fs dir raw i req args = Inr t"
  shows "ft_target_id t = i \<and> ft_kind t = ''remote'' \<and> ft_args t = args \<and> ft_required t = req
    \<and> (\<exists>r. ft_runtime_id t = Some r \<and> is_exact_windows_runtime_id r)
    \<and> (\<exists>p. ft_endpoint t = Some p \<and> is_within dir p)"
  using assms by (auto simp: load_remote_def Let_def simp del: list.set split: if_split_asm)

lemma load_target_ok:
  assumes "load_target fs dir ids rids raw = Inr (t, r)"
  shows "target_wf dir t \<and> ft_target_id t \<notin> set ids \<and> r \<notin> set rids \<and> expected_runtime_id t = Inr r"
proof -
  let ?i = "or_text ''id'' '''' raw" and ?k = "or_text ''kind'' '''' raw"
    and ?q = "py_true (get_or ''required'' (JBool True) raw)"
  from assms obtain args where id: "safe_id ?i" "?i \<notin> set ids"
    and args: "validate_args (get_or ''args'' (JArr []) raw) ?i = Inr args"
    and t: "(if ?k = ''local'' then load_local raw ?i ?q args
        else if ?k = ''remote'' then load_remote fs dir raw ?i ?q args
        else throw FullMatrixError (''Unknown full matrix target kind: '' @ ?k)) = Inr t"
    and r: "expected_runtime_id t = Inr r" "r \<notin> set rids"
    by (auto simp: load_target_def Let_def split: if_splits)
  from t have "ft_target_id t = ?i \<and> ft_args t = args
      \<and> (ft_kind t = ''local'' \<and> (\<exists>v. ft_version t = Some v \<and> v \<noteq> [])
         \<or> ft_kind t = ''remote'' \<and> (\<exists>r. ft_runtime_id t = Some r \<and> is_exact_windows_runtime_id r)
           \<and> (\<exists>p. ft_endpoint t = Some p \<and> is_within dir p))"
    by (auto dest: load_local_ok load_remote_ok split: if_splits)
  with id r validate_args_ok [OF args] show ?thesis by (auto simp: target_wf_def)
qed

lemma load_targets_ok:
  assumes "load_targets fs dir ids rids raws = Inr ts"
  shows "length ts = length raws \<and> (\<forall>(t, r) \<in> set ts. target_wf dir t \<and> expected_runtime_id t = Inr r)
    \<and> distinct (map (\<lambda>x. ft_target_id (fst x)) ts) \<and> (\<forall>(t, r) \<in> set ts. ft_target_id t \<notin> set ids)
    \<and> distinct (map snd ts) \<and> (\<forall>(t, r) \<in> set ts. r \<notin> set rids)"
  using assms
proof (induction raws arbitrary: ids rids ts)
  case (Cons raw raws)
  then obtain t r rest where h: "load_target fs dir ids rids raw = Inr (t, r)"
    and rest: "load_targets fs dir (ft_target_id t # ids) (r # rids) raws = Inr rest"
    and ts: "ts = (t, r) # rest" by auto
  from Cons.IH [OF rest] load_target_ok [OF h] show ?case
    unfolding ts by (force simp: split_beta)
qed simp

lemma load_spec_value_ok:
  assumes "load_spec_value H now fs path value = Inr spec"
  obtains ts mode baseline allowances manifest where
    "load_targets fs (butlast path) [] [] (list_items (get_none ''targets'' value)) = Inr ts"
    "fs_targets spec = map fst ts" "1 \<le> length ts" "length ts \<le> 128" "fs_path spec = path"
    "load_differential H now fs (butlast path) (map snd ts) (dict_or_empty ''differential'' value)
       = Inr (mode, baseline, allowances, manifest)"
    "fs_differential_mode spec = mode" "fs_baseline_runtime spec = baseline"
proof -
  from assms obtain ts mode baseline allowances manifest digest where
    t: "load_targets fs (butlast path) [] [] (list_items (get_none ''targets'' value)) = Inr ts"
    and d: "load_differential H now fs (butlast path) (map snd ts) (dict_or_empty ''differential'' value)
       = Inr (mode, baseline, allowances, manifest)"
    and n: "\<not> length (list_items (get_none ''targets'' value)) < 1"
      "\<not> 128 < length (list_items (get_none ''targets'' value))"
    and s: "fs_targets spec = map fst ts" "fs_path spec = path"
      "fs_differential_mode spec = mode" "fs_baseline_runtime spec = baseline"
    by (auto simp: load_spec_value_def Let_def split: if_splits)
  from load_targets_ok [OF t] n have "1 \<le> length ts" "length ts \<le> 128" by linarith+
  with t d s show thesis by (intro that)
qed

lemma load_differential_ok:
  assumes "load_differential H now fs dir rids v = Inr (mode, baseline, allowances, manifest)"
  shows "mode \<in> set [''off'', ''report'', ''strict'']"
    and "baseline = Some b \<Longrightarrow> b \<in> set rids"
  using assms by (auto simp: load_differential_def Let_def split: if_splits)

text \<open>A specification that loads declares between 1 and 128 targets with distinct safe ids and
  distinct runtimes, whose arguments override no managed option; a remote target has an exact Windows
  runtime id and an endpoint inside the directory of the specification; the baseline, if any, is the
  runtime of a declared target, and the differential mode is one of the three.\<close>

lemma loaded_spec_wf:
  assumes "load_spec H now fs p = Inr spec"
  shows "1 \<le> length (fs_targets spec) \<and> length (fs_targets spec) \<le> 128
    \<and> (\<forall>t \<in> set (fs_targets spec). target_wf (butlast (fs_path spec)) t)
    \<and> distinct (map ft_target_id (fs_targets spec)) \<and> distinct (map expected_runtime_id (fs_targets spec))
    \<and> (\<forall>b. fs_baseline_runtime spec = Some b \<longrightarrow> Inr b \<in> expected_runtime_id ` set (fs_targets spec))
    \<and> fs_differential_mode spec \<in> set [''off'', ''report'', ''strict'']"
proof -
  from assms obtain q v where "load_spec_value H now fs q v = Inr spec"
    by (auto simp: load_spec_def)
  then obtain ts mode baseline allowances manifest where
    t: "load_targets fs (butlast q) [] [] (list_items (get_none ''targets'' v)) = Inr ts"
    and s: "fs_targets spec = map fst ts" "1 \<le> length ts" "length ts \<le> 128" "fs_path spec = q"
      "fs_differential_mode spec = mode" "fs_baseline_runtime spec = baseline"
    and d: "load_differential H now fs (butlast q) (map snd ts) (dict_or_empty ''differential'' v)
      = Inr (mode, baseline, allowances, manifest)"
    by (rule load_spec_value_ok)
  note ok = load_targets_ok [OF t]
  have runtime: "expected_runtime_id (fst x) = Inr (snd x)" if "x \<in> set ts" for x
    using ok that by (auto simp: split_beta)
  then have r: "map expected_runtime_id (fs_targets spec) = map Inr (map snd ts)" unfolding s(1) by simp
  have "distinct (map expected_runtime_id (fs_targets spec))"
    unfolding r using ok by (simp add: distinct_map inj_on_def)
  moreover have "Inr b \<in> expected_runtime_id ` set (fs_targets spec)" if "fs_baseline_runtime spec = Some b" for b
    using load_differential_ok(2) [OF d, of b] that r s(6) by (metis image_set imageI list.set_map)
  moreover have "distinct (map ft_target_id (fs_targets spec))"
    using ok unfolding s(1) by (simp add: comp_def split_beta)
  ultimately show ?thesis
    using ok s load_differential_ok(1) [OF d] by (auto simp: split_beta)
qed

section \<open>What a verdict proves\<close>

lemma issue_allowed_mark: "issue_allowed (mark_issue allowances raw) \<longleftrightarrow> first_allowance allowances raw \<noteq> None"
  by (auto simp: issue_allowed_def mark_issue_def Let_def split: option.splits)

lemma get_update_dict:
  "get_or k d (update_dict kvs v) = (case map_of (rev kvs) k of Some x \<Rightarrow> x | None \<Rightarrow> get_or k d v)"
  by (induction kvs arbitrary: v) (auto simp: update_dict_def map_add_def split: option.splits)

lemma apply_group_issues:
  "get_none ''issues'' (apply_group allowances g) =
     JArr (map (mark_issue allowances) (list_items (get_or ''issues'' (JArr []) g)))"
  by (simp add: apply_group_def Let_def get_update_dict)

text \<open>The count of unallowed issues is zero exactly when every issue of the result is allowed.\<close>

lemma unallowed_zero:
  assumes "apply_allowances differential allowances = (groups, 0)"
  shows "\<forall>g \<in> set groups. \<forall>i \<in> set (list_items (get_none ''issues'' g)). issue_allowed i"
  using assms by (auto simp: apply_allowances_def apply_group_issues issue_allowed_mark filter_empty_conv)

lemma reports_by_id_in:
  assumes "map_of (reports_by_id targets) i = Some t"
  shows "t \<in> set targets \<and> py_str (get_none ''matrix_target_id'' (tr_runtime t)) = i"
  using map_of_SomeD [OF assms] by (auto simp: reports_by_id_def)

lemma coverage_success:
  assumes "coverage_row_of targets d = Inr r" and "cr_status r \<in> set success_status"
  shows "\<exists>t \<in> set targets. tr_status t \<in> set success_status
    \<and> py_str (get_none ''matrix_target_id'' (tr_runtime t)) = ft_target_id d"
proof (cases "map_of (reports_by_id targets) (ft_target_id d)")
  case None
  with assms show ?thesis by (auto simp: coverage_row_of_def success_status_def)
next
  case (Some t)
  with assms have "tr_status t \<in> set success_status" by (auto simp: coverage_row_of_def)
  with reports_by_id_in [OF Some] show ?thesis by blast
qed

lemma verdict_pass:
  assumes "verdict rows complete unallowed mode = ''PASS''" and "r \<in> set rows" and "cr_required r"
  shows "unallowed = 0 \<and> (cr_status r \<in> set success_status \<or> \<not> complete \<and> row_incomplete r)"
  using assms
  by (auto simp: verdict_def failed_required_def missing_required_def row_failed_def row_incomplete_def
      filter_empty_conv split: if_splits)

lemma verdict_pass_zero: "verdict rows complete unallowed mode = ''PASS'' \<Longrightarrow> unallowed = 0"
  by (auto simp: verdict_def split: if_splits)

lemma report_of_run_parts:
  assumes "report_of_run env spec mode jobs results = Inr rep"
  obtains raw rows where
    "target_coverage (fs_targets spec) (mr_targets rep) = Inr rows"
    "mr_differential rep = fst (apply_allowances raw (fs_allowances spec))"
    "mr_status rep = verdict rows (fs_require_complete spec) (snd (apply_allowances raw (fs_allowances spec))) mode"
  using assms by (auto simp: report_of_run_def Let_def split_beta)

lemma execute_loads_spec:
  assumes "execute_full_matrix env root ep sp incs la ro timeout jobs m = Inr rep"
  obtains spec mode results where
    "load_spec (me_hash env) (me_started env) (me_fs env) sp = Inr spec"
    "report_of_run env spec mode jobs results = Inr rep"
  using assms by (auto simp: execute_full_matrix_def Let_def split: if_splits)

lemma coverage_incomplete:
  assumes "coverage_row_of targets d = Inr r" and "row_incomplete r"
  shows "case map_of (reports_by_id targets) (ft_target_id d) of None \<Rightarrow> True | Some t \<Rightarrow> tr_status t \<in> set incomplete_status"
  using assms by (auto simp: coverage_row_of_def row_incomplete_def split: option.splits)

text \<open>C14: When a matrix run reports PASS, every required target of its specification has a report of that target that
  succeeded; only if the specification does not require completeness, a required target may instead have no report or
  one of a status that says it was not tested. Every difference the report lists is covered by an allowance.\<close>

theorem matrix_pass_sound:
  assumes "execute_full_matrix env root ep sp incs la ro timeout jobs m = Inr rep"
    and "mr_status rep = ''PASS''"
  shows "\<exists>spec. load_spec (me_hash env) (me_started env) (me_fs env) sp = Inr spec
    \<and> (\<forall>d \<in> set (fs_targets spec). ft_required d \<longrightarrow>
        (\<exists>t \<in> set (mr_targets rep). tr_status t \<in> set success_status
           \<and> py_str (get_none ''matrix_target_id'' (tr_runtime t)) = ft_target_id d)
        \<or> \<not> fs_require_complete spec \<and> (case map_of (reports_by_id (mr_targets rep)) (ft_target_id d) of
              None \<Rightarrow> True | Some t \<Rightarrow> tr_status t \<in> set incomplete_status))
    \<and> (\<forall>g \<in> set (mr_differential rep). \<forall>i \<in> set (list_items (get_none ''issues'' g)). issue_allowed i)"
proof -
  obtain spec mode results where load: "load_spec (me_hash env) (me_started env) (me_fs env) sp = Inr spec"
    and run: "report_of_run env spec mode jobs results = Inr rep"
    using assms(1) by (rule execute_loads_spec)
  obtain raw rows where rows: "target_coverage (fs_targets spec) (mr_targets rep) = Inr rows"
    and diff: "mr_differential rep = fst (apply_allowances raw (fs_allowances spec))"
    and status: "mr_status rep = verdict rows (fs_require_complete spec)
      (snd (apply_allowances raw (fs_allowances spec))) mode"
    using run by (rule report_of_run_parts)
  have pass: "verdict rows (fs_require_complete spec)
      (snd (apply_allowances raw (fs_allowances spec))) mode = ''PASS''"
    using assms(2) status by simp
  have "(\<exists>t \<in> set (mr_targets rep). tr_status t \<in> set success_status
      \<and> py_str (get_none ''matrix_target_id'' (tr_runtime t)) = ft_target_id d)
    \<or> \<not> fs_require_complete spec \<and> (case map_of (reports_by_id (mr_targets rep)) (ft_target_id d) of
          None \<Rightarrow> True | Some t \<Rightarrow> tr_status t \<in> set incomplete_status)"
    if d: "d \<in> set (fs_targets spec)" "ft_required d" for d
  proof -
    from res_map_all [OF rows [unfolded target_coverage_def] d(1)] obtain r
      where r: "r \<in> set rows" "coverage_row_of (mr_targets rep) d = Inr r" by blast
    then have "cr_required r" using d(2) by (auto simp: coverage_row_of_def)
    with verdict_pass [OF pass r(1)] coverage_success [OF r(2)] coverage_incomplete [OF r(2)] show ?thesis by blast
  qed
  moreover have "\<forall>g \<in> set (mr_differential rep). \<forall>i \<in> set (list_items (get_none ''issues'' g)). issue_allowed i"
    using unallowed_zero [of raw "fs_allowances spec"] diff verdict_pass_zero [OF pass]
    by (metis prod.collapse)
  ultimately show ?thesis using load by blast
qed

section \<open>A remote success is proved\<close>

lemma synthetic_status:
  assumes "synthetic_target env target source status message = Inr t"
  shows "tr_status t = status"
  using assms by (auto simp: synthetic_target_def)

lemma failed_target_status:
  assumes "failed_target env target entrypoint status message c = Inr (ts, c')" and "t \<in> set ts"
  shows "tr_status t = status"
  using assms by (auto simp: failed_target_def dest: synthetic_status)

lemma check_remote_result_ok:
  assumes "check_remote_result target v = Inr raw"
  shows "is_true (get_none ''authoritative'' (dict_or_empty ''capabilities'' v))"
    and "get_none ''runtime_id'' (dict_or_empty ''capabilities'' v) = opt_str (ft_runtime_id target)"
    and "is_true (get_none ''required'' (dict_or_empty ''reset'' v))"
    and "is_true (get_none ''passed'' (dict_or_empty ''before'' (dict_or_empty ''reset'' v)))"
    and "is_true (get_none ''passed'' (dict_or_empty ''after'' (dict_or_empty ''reset'' v)))"
  using assms by (auto simp: check_remote_result_def Let_def split: if_splits)

text \<open>A remote target counts as successful only on evidence: the endpoint was loaded for the declared
  runtime, and the verified result of the job names that runtime as authoritative and shows that the
  machine was reset before and after.\<close>

lemma remote_success_proved:
  assumes "run_remote env entrypoint target opts = Inr (ts, c)" and "t \<in> set ts"
    and "tr_status t \<in> set success_status"
  shows "\<exists>p e v. me_endpoint env p = Inr e \<and> Some (ei_expected_runtime_id e) = ft_runtime_id target
    \<and> me_submit env e (update_dict (dict_items (ft_options target)) opts) = Inr v
    \<and> is_true (get_none ''authoritative'' (dict_or_empty ''capabilities'' v))
    \<and> get_none ''runtime_id'' (dict_or_empty ''capabilities'' v) = opt_str (ft_runtime_id target)
    \<and> is_true (get_none ''required'' (dict_or_empty ''reset'' v))
    \<and> is_true (get_none ''passed'' (dict_or_empty ''before'' (dict_or_empty ''reset'' v)))
    \<and> is_true (get_none ''passed'' (dict_or_empty ''after'' (dict_or_empty ''reset'' v)))"
proof -
  have no: "failed_target env target entrypoint s m c0 \<noteq> Inr (ts, c)" if "s \<notin> set success_status" for s m c0
    using failed_target_status [of env target entrypoint s m c0 ts c t] assms(2,3) that by auto
  have s: "''FAIL_WORKER'' \<notin> set success_status" "''UNTESTED_RUNTIME'' \<notin> set success_status"
    by (simp_all add: success_status_def)
  from assms(1) no [OF s(1)] no [OF s(2)] obtain p where "remote_attempt env entrypoint target p opts = Inr (ts, c)"
    by (auto simp: run_remote_def Let_def split: option.splits sum.splits if_splits)
  then obtain q e v raw where "me_endpoint env q = Inr e" "Some (ei_expected_runtime_id e) = ft_runtime_id target"
    "me_submit env e (update_dict (dict_items (ft_options target)) opts) = Inr v"
    "check_remote_result target v = Inr raw"
    by (auto simp: remote_attempt_def split: if_splits)
  with check_remote_result_ok show ?thesis by blast
qed

section \<open>Concrete runs\<close>

definition sample_spec_value :: json where
  "sample_spec_value = JObj
     [(''schema'', JInt 1), (''kind'', JStr ''psmatrix.full-matrix-spec''),
      (''targets'', JArr [JObj [(''id'', JStr ''l''), (''kind'', JStr ''local''), (''version'', JStr ''7.4.1'')]])]"

definition sample_project :: node where
  "sample_project = Folder
     [(''spec.json'', RegFile (utf8 (dumps sample_spec_value))),
      (''e.json'', RegFile []), (''p'', Folder [(''a.ps1'', RegFile ''1'')])]"

definition sample_endpoint :: endpoint_info where
  "sample_endpoint = \<lparr>ei_worker_id = ''w'', ei_url = ''u'', ei_expected_runtime_id = ''windows-powershell-5.1''\<rparr>"

definition sample_verified :: json where
  "sample_verified = JObj
     [(''capabilities'', JObj [(''authoritative'', JBool True), (''runtime_id'', JStr ''windows-powershell-5.1'')]),
      (''reset'', JObj [(''required'', JBool True), (''before'', JObj [(''passed'', JBool True)]),
         (''after'', JObj [(''passed'', JBool True)])]),
      (''report'', JObj [(''targets'', JArr [JObj [(''status'', JStr ''PASS'')]])])]"

definition sample_env :: matrix_env where
  "sample_env = \<lparr>me_hash = \<lambda>_. ''h'', me_fs = sample_project, me_started = 0, me_finished = 0,
     me_version = ''1'', me_python = ''python'', me_home = [], me_temporary = ''/t'', me_cpus = None,
     me_spawn = \<lambda>_. Exited 0 '''' '''' (Some ''{\"targets\":[{\"status\":\"PASS\"}]}''),
     me_endpoint = \<lambda>_. Inr sample_endpoint, me_submit = \<lambda>_ _. Inr sample_verified\<rparr>"

lemma sample_spec_loads:
  "(case load_spec (\<lambda>_. ''h'') 0 sample_project [''spec.json''] of
      Inr spec \<Rightarrow> length (fs_targets spec) = 1 | Inl _ \<Rightarrow> False)"
  by code_simp

lemma loaded_spec_wf_witness:
  "\<exists>spec. load_spec (\<lambda>_. ''h'') 0 sample_project [''spec.json''] = Inr spec \<and> length (fs_targets spec) = 1
     \<and> distinct (map ft_target_id (fs_targets spec))"
proof -
  obtain spec where l: "load_spec (\<lambda>_. ''h'') 0 sample_project [''spec.json''] = Inr spec"
    "length (fs_targets spec) = 1"
    using sample_spec_loads by (auto split: sum.splits)
  with loaded_spec_wf [OF l(1)] show ?thesis by blast
qed

lemma sample_run_passes:
  "(case execute_full_matrix sample_env [''p''] [''p'', ''a.ps1''] [''spec.json''] [] (JArr []) (JObj []) 60 0 None of
      Inr rep \<Rightarrow> mr_status rep = ''PASS'' | Inl _ \<Rightarrow> False)"
  by code_simp

theorem matrix_pass_sound_witness:
  "\<exists>rep spec. execute_full_matrix sample_env [''p''] [''p'', ''a.ps1''] [''spec.json''] [] (JArr []) (JObj []) 60 0 None
       = Inr rep \<and> load_spec (\<lambda>_. ''h'') 0 sample_project [''spec.json''] = Inr spec"
proof -
  obtain rep where rep: "execute_full_matrix sample_env [''p''] [''p'', ''a.ps1''] [''spec.json''] [] (JArr [])
      (JObj []) 60 0 None = Inr rep" "mr_status rep = ''PASS''"
    using sample_run_passes by (auto split: sum.splits)
  from matrix_pass_sound [OF rep] rep show ?thesis by (auto simp: sample_env_def)
qed

definition sample_remote :: fm_target where
  "sample_remote = \<lparr>ft_target_id = ''r'', ft_kind = ''remote'', ft_required = True, ft_version = None,
     ft_arch = ''x64'', ft_libc = ''glibc'', ft_backend = ''auto'', ft_container_engine = ''auto'',
     ft_endpoint = Some [''e.json''], ft_runtime_id = Some ''windows-powershell-5.1'', ft_args = [],
     ft_options = JObj []\<rparr>"

lemma sample_env_fields:
  "me_fs sample_env = sample_project" "me_endpoint sample_env p = Inr sample_endpoint"
  "me_submit sample_env e v = Inr sample_verified"
  by (simp_all add: sample_env_def)

lemma sample_endpoint_reached:
  "reject_indirect FullMatrixError ''Remote endpoint r'' sample_project [''e.json''] = Inr ()"
  "path_exists sample_project [''e.json'']"
  "resolve_direct_existing ''Remote endpoint r'' ''file'' sample_project [''e.json''] = Inr [''e.json'']"
  "check_remote_result sample_remote sample_verified = Inr (JObj [(''status'', JStr ''PASS'')])"
  by code_simp+

lemma sample_normalized:
  "(case normalize_target sample_env (JObj [(''status'', JStr ''PASS'')]) sample_remote [''p'', ''a.ps1''] of
      Inr t \<Rightarrow> tr_status t \<in> set success_status | Inl _ \<Rightarrow> False)"
  by code_simp

lemma remote_success_proved_witness:
  "\<exists>v. me_submit sample_env sample_endpoint (JObj []) = Inr v
     \<and> is_true (get_none ''authoritative'' (dict_or_empty ''capabilities'' v))"
proof -
  obtain t where t: "normalize_target sample_env (JObj [(''status'', JStr ''PASS'')]) sample_remote
      [''p'', ''a.ps1''] = Inr t" "tr_status t \<in> set success_status"
    using sample_normalized by (auto split: sum.splits)
  have f: "endpoint_label sample_remote = ''Remote endpoint r''" "ft_endpoint sample_remote = Some [''e.json'']"
    "ft_runtime_id sample_remote = Some (ei_expected_runtime_id sample_endpoint)"
    by (simp_all add: endpoint_label_def sample_remote_def sample_endpoint_def)
  have "\<exists>c. run_remote sample_env [''p'', ''a.ps1''] sample_remote (JObj []) = Inr ([t], c)"
    unfolding run_remote_def remote_attempt_def
    by (simp add: f sample_env_fields sample_endpoint_reached t(1))
  then obtain c where "run_remote sample_env [''p'', ''a.ps1''] sample_remote (JObj []) = Inr ([t], c)" ..
  from remote_success_proved [OF this _ t(2)] show ?thesis
    by (auto simp: sample_remote_def update_dict_def sample_env_fields)
qed

end
