(* ===== verification/Psm_Verifier.thy ===== *)
theory Psm_Verifier
  imports Psm_Files
begin

text \<open>
  The verification contracts of \<open>verifier.py\<close>: locating and loading a contract, the confinement of
  its paths to the workspace, and the checks of process, streams, module, manifest, files and
  JSON documents. \<open>R pattern text\<close> is \<open>re.search\<close> with \<open>MULTILINE\<close> (it may raise), \<open>H\<close> the SHA-256
  hex digest, \<open>fs\<close> the file system after the run.
\<close>

section \<open>The contract\<close>

definition contract_suffix :: string where
  "contract_suffix = ''.psmatrix.json''"

definition contract_path_for :: "node \<Rightarrow> string list \<Rightarrow> string list" where
  "contract_path_for fs source =
     (let name = name_of source;
          candidates =
            [with_name source (name @ contract_suffix),
             with_name source (stem_of name @ suffix_of name @ contract_suffix),
             with_name source (stem_of name @ contract_suffix)]
      in case find (is_file fs) candidates of Some c \<Rightarrow> c | None \<Rightarrow> hd candidates)"

definition default_contract :: json where
  "default_contract = JObj [(''schema'', JInt 1), (''expect'', JObj [(''exit_code'', JInt 0)])]"

definition load_contract :: "node \<Rightarrow> string list \<Rightarrow> json res" where
  "load_contract fs source =
     (let path = contract_path_for fs source in
      if \<not> path_exists fs path then Inr default_contract
      else res_bind (read_json fs path) (\<lambda>value.
        if \<not> is_dict value \<or> \<not> eq_int (get_none ''schema'' value) 1
        then throw VerificationError (''Invalid verification contract: '' @ path_text path)
        else if \<not> is_dict (get_none ''expect'' value)
        then throw VerificationError (''Contract expect must be an object: '' @ path_text path)
        else Inr value))"

definition safe_workspace_path :: "node \<Rightarrow> string list \<Rightarrow> string \<Rightarrow> string list res" where
  "safe_workspace_path fs workspace value =
     res_bind (resolve fs (path_join workspace value)) (\<lambda>target.
     res_bind (resolve fs workspace) (\<lambda>root.
       if is_within root target then Inr target
       else throw VerificationError (''Verification path escapes workspace: '' @ value)))"

section \<open>Looking up a property\<close>

text \<open>\<open>str.isdigit\<close> also holds for the three superscript digits, which \<open>int\<close> rejects.\<close>

definition is_digit_char :: "char \<Rightarrow> bool" where
  "is_digit_char c \<longleftrightarrow> is_digit c \<or> (of_char c :: nat) \<in> {178, 179, 185}"

definition isdigit :: "string \<Rightarrow> bool" where
  "isdigit s \<longleftrightarrow> s \<noteq> [] \<and> list_all is_digit_char s"

fun lookup_parts :: "string \<Rightarrow> json \<Rightarrow> string list \<Rightarrow> json res" where
  "lookup_parts path current [] = Inr current"
| "lookup_parts path current (part # parts) =
     (case jget part current of
        Some x \<Rightarrow> lookup_parts path x parts
      | None \<Rightarrow>
          if is_list current \<and> isdigit part then
            res_bind (py_int (JStr part)) (\<lambda>i.
              if i < int (length (list_items current))
              then lookup_parts path (list_items current ! nat i) parts
              else throw KeyError path)
          else throw KeyError path)"

definition lookup_json :: "json \<Rightarrow> string \<Rightarrow> json res" where
  "lookup_json value dotted_path = (if dotted_path = [] then Inr value
     else lookup_parts dotted_path value (split_on (CHR ''.'') dotted_path))"

section \<open>Checks\<close>

definition mk_check :: "string \<Rightarrow> bool \<Rightarrow> string \<Rightarrow> json \<Rightarrow> json \<Rightarrow> verification_check" where
  "mk_check kind passed subject expected actual =
     \<lparr>vc_kind = kind, vc_passed = passed, vc_subject = subject, vc_expected = expected,
      vc_actual = actual, vc_message = None\<rparr>"

text \<open>\<open>for x in v.get(k, []): checks.append(...)\<close>, and the checks of one rule key that is present\<close>

definition each_in :: "string \<Rightarrow> json \<Rightarrow> (json \<Rightarrow> verification_check res) \<Rightarrow> verification_check list res" where
  "each_in k v f = res_bind (py_iter (get_or k (JArr []) v)) (res_map f)"

definition if_key :: "string \<Rightarrow> json \<Rightarrow> (json \<Rightarrow> verification_check res) \<Rightarrow> verification_check list res" where
  "if_key k v f = (case jget k v of None \<Rightarrow> Inr [] | Some x \<Rightarrow> res_bind (f x) (\<lambda>c. Inr [c]))"

definition re_check ::
    "(string \<Rightarrow> string \<Rightarrow> bool res) \<Rightarrow> string \<Rightarrow> string \<Rightarrow> string \<Rightarrow> json \<Rightarrow> verification_check res" where
  "re_check R kind subject text pattern =
     res_bind (R (py_str pattern) text) (\<lambda>matched.
       Inr (mk_check kind matched subject (JStr (py_str pattern)) (JStr text)))"

definition contains_check :: "string \<Rightarrow> string \<Rightarrow> string \<Rightarrow> json \<Rightarrow> verification_check res" where
  "contains_check kind subject text needle =
     Inr (mk_check kind (contains (py_str needle) text) subject (JStr (py_str needle)) (JStr text))"

definition stream_payload :: "json \<Rightarrow> string \<Rightarrow> json" where
  "stream_payload observation name =
     (let streams = (if is_dict observation then get_or ''streams'' (JObj []) observation else JObj []);
          value = (if is_dict streams then get_or name (JObj []) streams else JObj [])
      in if is_dict value then value else JObj [])"

definition record_text :: "json \<Rightarrow> string" where
  "record_text r = (if is_dict r then py_str (get_or ''message'' (JStr '''') r) else py_str r)"

definition stream_rule_checks ::
    "(string \<Rightarrow> string \<Rightarrow> bool res) \<Rightarrow> json \<Rightarrow> string \<times> json \<Rightarrow> verification_check list res" where
  "stream_rule_checks R observation = (\<lambda>(stream_name, rule).
     let name = py_lower stream_name;
         payload = stream_payload observation name;
         subject = ''stream.'' @ name
     in res_bind (py_int (py_or (get_or ''count'' (JInt 0) payload) (JInt 0))) (\<lambda>count.
        let records = list_items (get_or ''records'' (JArr []) payload);
            corpus = join [CHR 0x0A] (map record_text records)
        in if is_int rule then
             Inr [mk_check ''stream_count'' (eq_int rule count) subject rule (JInt count)]
           else if \<not> is_dict rule then
             throw VerificationError (''Stream expectation for '' @ name @ '' must be an integer or object'')
           else res_concat
             [if_key ''count'' rule (\<lambda>v. res_bind (py_int v) (\<lambda>n.
                Inr (mk_check ''stream_count'' (count = n) subject (JInt n) (JInt count)))),
              if_key ''min_count'' rule (\<lambda>v. res_bind (py_int v) (\<lambda>n.
                Inr (mk_check ''stream_min_count'' (n \<le> count) subject (JStr (''>='' @ int_str n)) (JInt count)))),
              if_key ''max_count'' rule (\<lambda>v. res_bind (py_int v) (\<lambda>n.
                Inr (mk_check ''stream_max_count'' (count \<le> n) subject (JStr (''<='' @ int_str n)) (JInt count)))),
              each_in ''contains'' rule (contains_check ''stream_contains'' subject corpus),
              each_in ''regex'' rule (re_check R ''stream_regex'' subject corpus)]))"

definition stream_checks ::
    "(string \<Rightarrow> string \<Rightarrow> bool res) \<Rightarrow> json \<Rightarrow> json \<Rightarrow> verification_check list res" where
  "stream_checks R expect observation =
     (let rules = get_or ''streams'' (JObj []) expect in
      if \<not> is_dict rules then throw VerificationError ''expect.streams must be an object''
      else res_concat (map (stream_rule_checks R observation) (dict_items rules)))"

subsection \<open>Module and manifest\<close>

definition decode_case_output :: "json \<Rightarrow> json" where
  "decode_case_output c = (case get_none ''output_json'' c of
     JStr raw \<Rightarrow> (case loads raw of
         None \<Rightarrow> JNull
       | Some value \<Rightarrow> (case get_none ''items'' value of
             JArr [x] \<Rightarrow> x
           | JArr xs \<Rightarrow> JArr xs
           | _ \<Rightarrow> value))
   | _ \<Rightarrow> JNull)"

definition find_case :: "json list \<Rightarrow> int \<Rightarrow> string \<Rightarrow> json option res" where
  "find_case cases index name =
     res_bind (res_find (\<lambda>item. if is_dict item
         then res_bind (py_int (get_or ''index'' (JInt (-1)) item)) (\<lambda>i. Inr (i = index))
         else Inr False) cases) (\<lambda>found.
       case found of
         Some c \<Rightarrow> Inr (Some c)
       | None \<Rightarrow> Inr (find (\<lambda>item. is_dict item \<and> py_str (get_none ''name'' item) = name) cases))"

definition command_checks ::
    "json list \<Rightarrow> int \<times> json \<Rightarrow> verification_check list res" where
  "command_checks cases = (\<lambda>(index, expected_case).
     if \<not> is_dict expected_case
     then throw VerificationError ''expect.module.commands entries must be objects''
     else
       (let name = py_str (get_or ''name'' (JStr '''') expected_case);
            subject = ''module.command['' @ int_str index @ ''].''
        in res_bind (find_case cases index name) (\<lambda>found.
           case found of
             None \<Rightarrow> Inr [mk_check ''module_command_executed'' False (subject @ name) (JBool True) (JBool False)]
           | Some actual_case \<Rightarrow>
               let case_expect = get_or ''expect'' (JObj []) expected_case in
               if \<not> is_dict case_expect
               then throw VerificationError ''module command expect must be an object''
               else
                 (let expected_status = py_str (get_or ''status'' (JStr ''completed'') case_expect) in
                  res_concat
                    [Inr [mk_check ''module_command_executed'' True (subject @ name) (JBool True) (JBool True)],
                     Inr [mk_check ''module_command_status''
                        (py_str (get_none ''status'' actual_case) = expected_status)
                        (subject @ ''status'') (JStr expected_status) (get_none ''status'' actual_case)],
                     if_key ''output_count'' case_expect (\<lambda>v.
                       res_bind (py_int (py_or (get_or ''output_count'' (JInt 0) actual_case) (JInt 0))) (\<lambda>count.
                       res_bind (py_int v) (\<lambda>n. Inr (mk_check ''module_command_output_count'' (count = n)
                          (subject @ ''output_count'') (JInt n) (JInt count))))),
                     if_key ''output_equals'' case_expect (\<lambda>v.
                       let output = decode_case_output actual_case in
                       Inr (mk_check ''module_command_output'' (py_eq output v) (subject @ ''output'') v output)),
                     if_key ''native_exit_code'' case_expect (\<lambda>v. res_bind (py_int v) (\<lambda>n.
                       Inr (mk_check ''module_command_native_exit''
                          (eq_int (get_none ''last_exit_code'' actual_case) n)
                          (subject @ ''native_exit_code'') (JInt n) (get_none ''last_exit_code'' actual_case))))]))))"

definition text_list :: "string list \<Rightarrow> json" where
  "text_list xs = JArr (map JStr xs)"

definition sorted_texts :: "json \<Rightarrow> string list res" where
  "sorted_texts v = res_bind (py_iter v) (\<lambda>xs. Inr (sort (map py_str xs)))"

definition module_field_check :: "json \<Rightarrow> json \<Rightarrow> string \<Rightarrow> string \<Rightarrow> verification_check list res" where
  "module_field_check rule actual key expected_key = if_key expected_key rule (\<lambda>v.
     let found = py_str (get_none key actual) in
     Inr (mk_check (''module_'' @ expected_key) (found = py_str v) (''module.'' @ expected_key)
       (JStr (py_str v)) (JStr found)))"

definition module_checks :: "json \<Rightarrow> json \<Rightarrow> verification_check list res" where
  "module_checks expect observation =
     (let rule = get_none ''module'' expect;
          actual = (if is_dict observation then get_none ''module'' observation else JNull);
          present = mk_check ''module_present'' (is_dict actual) ''module'' (JBool True) (JBool (is_dict actual))
      in if rule = JNull then Inr []
         else if \<not> is_dict rule then throw VerificationError ''expect.module must be an object''
         else if \<not> is_dict actual then Inr [present]
         else res_bind (module_field_check rule actual ''module_name'' ''name'') (\<lambda>name_checks.
              res_bind (module_field_check rule actual ''version'' ''version'') (\<lambda>version_checks.
              res_bind (sorted_texts (get_or ''exported_commands'' (JArr []) actual)) (\<lambda>exported.
              let semantic = (if is_dict observation then get_or ''semantic'' (JObj []) observation else JObj []);
                  cases = (if is_dict semantic then list_items (get_or ''cases'' (JArr []) semantic) else [])
              in res_concat
                [Inr (present # name_checks @ version_checks),
                 if_key ''exported_commands'' rule (\<lambda>v. res_bind (sorted_texts v) (\<lambda>expected.
                   Inr (mk_check ''module_exports'' (exported = expected) ''module.exported_commands''
                     (text_list expected) (text_list exported)))),
                 each_in ''exported_commands_contains'' rule (\<lambda>n.
                   Inr (mk_check ''module_export_contains'' (py_str n \<in> set exported)
                     ''module.exported_commands'' (JStr (py_str n)) (text_list exported))),
                 res_bind (py_iter (get_or ''commands'' (JArr []) rule)) (\<lambda>commands.
                   res_concat (map (command_checks cases)
                     (zip (map (\<lambda>i. int i + 1) [0..<length commands]) commands)))]))))"

definition manifest_keys :: "string list" where
  "manifest_keys = [''kind'', ''valid'', ''name'', ''version'', ''root_module'']"

definition manifest_lists :: "string list" where
  "manifest_lists = [''exported_functions'', ''exported_cmdlets'', ''exported_aliases'']"

definition manifest_checks :: "json \<Rightarrow> json \<Rightarrow> verification_check list res" where
  "manifest_checks expect observation =
     (let rule = get_none ''manifest'' expect;
          actual = (if is_dict observation then get_none ''manifest'' observation else JNull);
          present = mk_check ''manifest_present'' (is_dict actual) ''manifest'' (JBool True) (JBool (is_dict actual))
      in if rule = JNull then Inr []
         else if \<not> is_dict rule then throw VerificationError ''expect.manifest must be an object''
         else if \<not> is_dict actual then Inr [present]
         else res_concat (Inr [present]
           # map (\<lambda>key. if_key key rule (\<lambda>v. Inr (mk_check (''manifest_'' @ key)
                (py_eq (get_none key actual) v) (''manifest.'' @ key) v (get_none key actual)))) manifest_keys
           @ map (\<lambda>key. if_key key rule (\<lambda>v.
                res_bind (sorted_texts v) (\<lambda>expected.
                res_bind (sorted_texts (get_or key (JArr []) actual)) (\<lambda>found.
                Inr (mk_check (''manifest_'' @ key) (found = expected) (''manifest.'' @ key)
                  (text_list expected) (text_list found)))))) manifest_lists))"

subsection \<open>Files and documents\<close>

text \<open>\<open>value[key]\<close>\<close>

definition jsub :: "string \<Rightarrow> json \<Rightarrow> json res" where
  "jsub k v = (if is_dict v then jitem k v else throw TypeError ''subscript'')"

definition file_checks ::
    "(string \<Rightarrow> string) \<Rightarrow> node \<Rightarrow> string list \<Rightarrow> json \<Rightarrow> verification_check list res" where
  "file_checks H fs workspace fe =
     res_bind (jsub ''path'' fe) (\<lambda>p.
     let relative = py_str p in
     res_bind (safe_workspace_path fs workspace relative) (\<lambda>path.
     let present = path_exists fs path;
         expected_exists = py_true (get_or ''exists'' (JBool True) fe)
     in res_concat
       [Inr [mk_check ''file_exists'' (present = expected_exists) relative (JBool expected_exists) (JBool present)],
        if present \<and> is_true (get_none ''valid_json'' fe) then
          (case read_json fs path of
             Inr _ \<Rightarrow> Inr [mk_check ''valid_json'' True relative (JBool True) (JBool True)]
           | Inl e \<Rightarrow> if exn_class e \<in> {OSError, ValueError}
               then Inr [(mk_check ''valid_json'' False relative (JBool True) (JBool False))
                           \<lparr>vc_message := Some (exn_str e)\<rparr>]
               else Inl e)
        else Inr [],
        if present then if_key ''sha256'' fe (\<lambda>v. res_bind (sha256_file H fs path) (\<lambda>actual_hash.
            let expected_hash = py_lower (py_str v) in
            Inr (mk_check ''file_sha256'' (actual_hash = expected_hash) relative
              (JStr expected_hash) (JStr actual_hash))))
        else Inr []]))"

definition json_check :: "node \<Rightarrow> string list \<Rightarrow> json \<Rightarrow> verification_check list res" where
  "json_check fs workspace je =
     res_bind (jsub ''path'' je) (\<lambda>p.
     let relative = py_str p; property = py_str (get_or ''property'' (JStr '''') je);
         subject = relative @ '':'' @ property; expected = get_none ''equals'' je
     in res_bind (safe_workspace_path fs workspace relative) (\<lambda>path.
        case res_bind (read_json fs path) (\<lambda>value. lookup_json value property) of
          Inr actual \<Rightarrow> Inr [mk_check ''json_equals'' (py_eq actual expected) subject expected actual]
        | Inl e \<Rightarrow> if exn_class e \<in> {OSError, ValueError, KeyError}
            then Inr [(mk_check ''json_equals'' False subject expected JNull) \<lparr>vc_message := Some (exn_str e)\<rparr>]
            else Inl e))"

subsection \<open>The whole contract\<close>

definition each_file :: "string \<Rightarrow> json \<Rightarrow> (json \<Rightarrow> verification_check list res) \<Rightarrow> verification_check list res" where
  "each_file k v f = res_bind (py_iter (get_or k (JArr []) v)) (\<lambda>xs. res_concat (map f xs))"

definition verify ::
    "(string \<Rightarrow> string \<Rightarrow> bool res) \<Rightarrow> (string \<Rightarrow> string) \<Rightarrow> node \<Rightarrow> string list \<Rightarrow> execution_result \<Rightarrow>
     json \<Rightarrow> json \<Rightarrow> verification_check list res" where
  "verify R H fs workspace execution contract obs =
     res_bind (jitem ''expect'' contract) (\<lambda>expect.
     let observation = py_or obs (JObj []) in
     res_concat
       [if_key ''exit_code'' expect (\<lambda>v. res_bind (py_int v) (\<lambda>n.
          Inr (mk_check ''exit_code'' (ex_exit_code execution = Some n) ''process'' (JInt n)
            (opt_int (ex_exit_code execution))))),
        if_key ''native_exit_code'' expect (\<lambda>v.
          let native = (if is_dict observation then get_or ''native'' (JObj []) observation else JObj []);
              actual = (if is_dict native then get_none ''last_exit_code'' native else JNull)
          in res_bind (py_int v) (\<lambda>n.
            Inr (mk_check ''native_exit_code'' (eq_int actual n) ''powershell.LASTEXITCODE'' (JInt n) actual))),
        (if is_true (get_none ''stderr_empty'' expect) then
           (let actual = strip_space (ex_stderr execution) in
            Inr [mk_check ''stderr_empty'' (actual = []) ''process.stderr'' (JStr '''') (JStr actual)])
         else Inr []),
        each_in ''stdout_contains'' expect (contains_check ''stdout_contains'' ''process.stdout'' (ex_stdout execution)),
        each_in ''stdout_regex'' expect (re_check R ''stdout_regex'' ''process.stdout'' (ex_stdout execution)),
        each_file ''files'' expect (file_checks H fs workspace),
        each_file ''json'' expect (json_check fs workspace),
        stream_checks R expect observation,
        module_checks expect observation,
        manifest_checks expect observation])"

section \<open>What lookup finds\<close>

text \<open>The position a dotted path names, independently of the loop: keys of dicts and indices of lists.\<close>

inductive json_at :: "json \<Rightarrow> string list \<Rightarrow> json \<Rightarrow> bool" where
  here: "json_at v [] v"
| key: "json_at (JObj kvs) (p # ps) w" if "map_of kvs p = Some x" and "json_at x ps w"
| elem: "json_at (JArr xs) (p # ps) w"
    if "p \<noteq> []" and "list_all is_digit p" and "dec_val p < length xs" and "json_at (xs ! dec_val p) ps w"

inductive_simps json_at_simps:
  "json_at v [] w"
  "json_at (JObj kvs) (p # ps) w"
  "json_at (JArr xs) (p # ps) w"
  "json_at JNull (p # ps) w"
  "json_at (JBool b) (p # ps) w"
  "json_at (JInt i) (p # ps) w"
  "json_at (JFloat m e) (p # ps) w"
  "json_at (JStr s) (p # ps) w"

lemma digit_char_not_space: "is_digit_char c \<Longrightarrow> \<not> is_space c"
  by (auto simp: is_digit_char_def is_digit_def is_space_def Let_def)

lemma strip_space_digits: "list_all is_digit_char p \<Longrightarrow> strip_space p = p"
proof -
  assume p: "list_all is_digit_char p"
  have "dropWhile is_space q = q" if "list_all is_digit_char q" for q
    using that digit_char_not_space by (cases q) auto
  with p show ?thesis by (simp add: strip_space_def list_all_iff)
qed

lemma digits_us_iff:
  assumes "list_all is_digit_char p"
  shows "digits_us p \<longleftrightarrow> p \<noteq> [] \<and> list_all is_digit p"
proof -
  have "c \<noteq> CHR ''_''" if "is_digit_char c" for c
    using that by (auto simp: is_digit_char_def is_digit_def)
  with assms show ?thesis by (induction p rule: digits_us.induct) auto
qed

lemma py_int_digits:
  assumes "isdigit p"
  shows "py_int (JStr p) = (if list_all is_digit p then Inr (int (dec_val p))
    else throw ValueError ''invalid literal for int() with base 10'')"
proof -
  from assms obtain c r where p: "p = c # r" and d: "list_all is_digit_char p"
    by (auto simp: isdigit_def neq_Nil_conv)
  then have sign: "c \<noteq> CHR ''-''" "c \<noteq> CHR ''+''"
    by (auto simp: is_digit_char_def is_digit_def)
  have "filter (\<lambda>c. c \<noteq> CHR ''_'') p = p"
    using d by (intro filter_True) (auto simp: list_all_iff is_digit_char_def is_digit_def)
  with d sign p strip_space_digits [OF d] digits_us_iff [OF d] show ?thesis
    by (simp add: int_of_text_def Let_def)
qed

lemma isdigit_digits: "p \<noteq> [] \<Longrightarrow> list_all is_digit p \<Longrightarrow> isdigit p"
  by (auto simp: isdigit_def is_digit_char_def list_all_iff)

text \<open>The dotted lookup of a JSON expectation returns exactly the value at the named position;
  any other path, one with a superscript digit included, raises.\<close>

lemma lookup_parts_exact:
  "lookup_parts path v parts = Inr w \<longleftrightarrow> json_at v parts w"
proof (induction parts arbitrary: v)
  case Nil
  show ?case by (auto simp: json_at_simps)
next
  case (Cons p ps)
  show ?case
  proof (cases v)
    case (JArr xs)
    show ?thesis
    proof (cases "isdigit p")
      case True
      with JArr Cons show ?thesis
        by (auto simp: json_at_simps jget_def py_int_digits isdigit_def simp del: py_int.simps)
    next
      case False
      with JArr isdigit_digits [of p] show ?thesis by (auto simp: json_at_simps jget_def)
    qed
  next
    case (JObj kvs)
    with Cons show ?thesis by (auto simp: json_at_simps split: option.splits)
  qed (auto simp: json_at_simps jget_def)
qed

section \<open>Paths stay in the workspace\<close>

lemma safe_workspace_path_in:
  assumes "safe_workspace_path fs workspace v = Inr p"
  shows "\<exists>root. resolve fs workspace = Inr root \<and> is_within root p"
  using assms by (auto simp: safe_workspace_path_def split: if_splits)

lemma safe_workspace_path_link_free:
  assumes "safe_workspace_path fs workspace v = Inr p" and "link_free fs []"
  shows "link_free fs p"
proof -
  from assms(1) have "resolve fs (path_join workspace v) = Inr p"
    by (auto simp: safe_workspace_path_def split: if_splits)
  then show ?thesis unfolding resolve_def using assms(2) by (rule resolve_from_result)
qed

lemma file_checks_path:
  assumes "file_checks H fs workspace fe = Inr cs"
  shows "\<exists>p. safe_workspace_path fs workspace (py_str (get_none ''path'' fe)) = Inr p"
  using assms by (auto simp: file_checks_def jsub_def jitem_def get_or_def Let_def
      simp del: res_concat.simps split: if_splits option.splits)

lemma json_check_path:
  assumes "json_check fs workspace je = Inr cs"
  shows "\<exists>p. safe_workspace_path fs workspace (py_str (get_none ''path'' je)) = Inr p"
proof -
  from assms obtain v p where "jsub ''path'' je = Inr v"
    and p: "safe_workspace_path fs workspace (py_str v) = Inr p"
    by (simp add: json_check_def Let_def) blast
  then have "get_none ''path'' je = v"
    by (auto simp: jsub_def jitem_def get_or_def split: if_splits option.splits)
  with p show ?thesis by blast
qed

lemma each_file_all:
  assumes "each_file k v f = Inr cs" and "x \<in> set (list_items (get_none k v))"
  shows "\<exists>ys. f x = Inr ys"
proof -
  from assms(2) obtain xs where xs: "get_none k v = JArr xs" "x \<in> set xs"
    by (cases "get_none k v") auto
  then have "get_or k (JArr []) v = JArr xs" by (auto simp: get_or_def split: option.splits)
  with assms(1) have "res_concat (map f xs) = Inr cs" by (simp add: each_file_def)
  moreover from xs(2) have "f x \<in> set (map f xs)" by simp
  ultimately show ?thesis by (rule res_concat_Inr)
qed

lemma verify_parts:
  assumes "verify R H fs workspace ex contract obs = Inr cs" and "jget ''expect'' contract = Some e"
  shows "\<exists>xs. each_file ''files'' e (file_checks H fs workspace) = Inr xs"
    and "\<exists>xs. each_file ''json'' e (json_check fs workspace) = Inr xs"
  using assms
  by (auto simp: verify_def jitem_def Let_def simp del: res_concat.simps elim!: res_concat_Inr)

definition sample_tree :: node where
  "sample_tree = Folder [(''w'', Folder [(''out.json'', RegFile (utf8 (dumps (JObj [(''n'', JArr [JInt 7])])))),
     (''up'', Link ''../etc'')]), (''etc'', Folder [(''passwd'', RegFile [])])]"

definition sample_execution :: "int option \<Rightarrow> execution_result" where
  "sample_execution code = \<lparr>ex_command = [], ex_cwd = ''/w'', ex_exit_code = code, ex_timed_out = False,
     ex_duration_ms = 1, ex_stdout = ''hello'', ex_stderr = '''', ex_stdout_truncated = False,
     ex_stderr_truncated = False, ex_resource_violation = None\<rparr>"

definition sample_contract :: "string \<Rightarrow> json" where
  "sample_contract path = JObj [(''expect'', JObj [(''json'', JArr [JObj
     [(''path'', JStr path), (''property'', JStr ''n.0''), (''equals'', JInt 7)]])])]"

lemma sample_verified:
  "(case verify (\<lambda>_ _. Inr True) (\<lambda>b. b) sample_tree [''w''] (sample_execution (Some 0))
      (sample_contract ''out.json'') JNull of Inr [c] \<Rightarrow> vc_passed c | _ \<Rightarrow> False)"
  by code_simp

section \<open>The default contract\<close>

text \<open>Without a contract file a run is verified by one check, which passes exactly when the
  process returned 0.\<close>

theorem default_contract_exact:
  "\<exists>c. verify R H fs workspace ex default_contract obs = Inr [c]
    \<and> (vc_passed c \<longleftrightarrow> ex_exit_code ex = Some 0)"
  by (simp add: verify_def default_contract_def jitem_def if_key_def get_or_def each_in_def each_file_def
      stream_checks_def module_checks_def manifest_checks_def Let_def mk_check_def)


end
