(* ===== verification/Psm_Trees.thy ===== *)
theory Psm_Trees
  imports Psm_Files
begin

text \<open>
  Replacing the contents of a file in a tree, trees that differ only in the contents of their files, and
  what resolving a path yields: a path without links and \<open>..\<close> that the kernel walks directly.
\<close>

section \<open>Replacing a file\<close>

fun set_file :: "node \<Rightarrow> string list \<Rightarrow> string \<Rightarrow> node" where
  "set_file x [] bytes = RegFile bytes"
| "set_file (Folder es) (p # ps) bytes =
     Folder (AList.update p (set_file (case map_of es p of Some y \<Rightarrow> y | None \<Rightarrow> Folder []) ps bytes) es)"
| "set_file x (p # ps) bytes = x"

lemma lookup_append: "lookup_node t (p @ q) = (case lookup_node t p of None \<Rightarrow> None | Some x \<Rightarrow> lookup_node x q)"
  by (induction t p rule: lookup_node.induct) (auto split: option.splits)

lemma lookup_set_file [simp]:
  "lookup_node t p = Some (RegFile b) \<Longrightarrow> lookup_node (set_file t p c) p = Some (RegFile c)"
  by (induction t p rule: lookup_node.induct) (auto simp: update_conv split: option.splits)

lemma set_file_back:
  "lookup_node t p = Some (RegFile b) \<Longrightarrow> set_file (set_file t p c) p b = t"
  by (induction t p rule: lookup_node.induct) (auto simp: update_conv update_triv split: option.splits)

lemma set_file_same: "lookup_node t p = Some (RegFile b) \<Longrightarrow> set_file t p b = t"
  by (induction t p rule: lookup_node.induct) (auto simp: update_triv split: option.splits)

lemma lookup_set_other:
  assumes "lookup_node t p = Some (RegFile b)" "lookup_node t q = Some (RegFile c)" "p \<noteq> q"
  shows "lookup_node (set_file t p d) q = Some (RegFile c)"
  using assms
proof (induction t p arbitrary: q rule: lookup_node.induct)
  case (2 es p ps)
  then obtain y where y: "map_of es p = Some y" "lookup_node y ps = Some (RegFile b)" by (auto split: option.splits)
  from "2.prems"(2) obtain q' qs where q: "q = q' # qs" by (cases q) auto
  with "2.prems"(2) obtain z where z: "map_of es q' = Some z" "lookup_node z qs = Some (RegFile c)" by (auto split: option.splits)
  show ?case
  proof (cases "q' = p")
    case True
    with q "2.prems"(3) have "ps \<noteq> qs" by simp
    with True y z "2.IH" [OF y(1) y(2)] show ?thesis by (simp add: q update_conv)
  next
    case False
    with z show ?thesis by (simp add: q update_conv)
  qed
next
  case (1 x)
  then show ?case by (cases q) auto
qed auto

lemma update_commute:
  "k \<noteq> k' \<Longrightarrow> k \<in> fst ` set al \<Longrightarrow> k' \<in> fst ` set al \<Longrightarrow>
    AList.update k x (AList.update k' y al) = AList.update k' y (AList.update k x al)"
  by (induction al) (auto simp: update_nonempty split: if_splits)

lemma set_file_commute:
  assumes "lookup_node t p = Some (RegFile b)" "lookup_node t q = Some (RegFile c)" "p \<noteq> q"
  shows "set_file (set_file t q y) p x = set_file (set_file t p x) q y"
  using assms
proof (induction t p arbitrary: q rule: lookup_node.induct)
  case (2 es p ps)
  then obtain u where u: "map_of es p = Some u" "lookup_node u ps = Some (RegFile b)" by (auto split: option.splits)
  from "2.prems"(2) obtain q' qs where q: "q = q' # qs" by (cases q) auto
  with "2.prems"(2) obtain z where z: "map_of es q' = Some z" "lookup_node z qs = Some (RegFile c)" by (auto split: option.splits)
  show ?case
  proof (cases "q' = p")
    case True
    with q "2.prems"(3) have "ps \<noteq> qs" by simp
    with True u z "2.IH" [OF u(1) u(2)] show ?thesis by (simp add: q update_conv)
  next
    case False
    have "p \<in> fst ` set es" "q' \<in> fst ` set es" using u(1) z(1) by (force dest: map_of_SomeD)+
    with False u z show ?thesis by (simp add: q update_conv update_commute)
  qed
next
  case (1 x)
  then show ?case by (cases q) auto
qed auto

section \<open>Trees of the same shape\<close>

fun kind_of :: "node \<Rightarrow> node" where
  "kind_of (RegFile b) = RegFile []"
| "kind_of (Folder es) = Folder []"
| "kind_of (Link t) = Link t"

definition same_shape :: "node \<Rightarrow> node \<Rightarrow> bool" where
  "same_shape t t' \<longleftrightarrow> (\<forall>p. map_option kind_of (lookup_node t p) = map_option kind_of (lookup_node t' p))"

lemma kind_of_eq_simps:
  "kind_of x = Link t \<longleftrightarrow> x = Link t" "kind_of x = RegFile [] \<longleftrightarrow> (\<exists>b. x = RegFile b)"
  "kind_of x = Folder [] \<longleftrightarrow> (\<exists>es. x = Folder es)"
  by (cases x; simp)+

lemma same_shape_refl [simp]: "same_shape t t"
  by (simp add: same_shape_def)

lemma same_shape_trans: "same_shape t u \<Longrightarrow> same_shape u v \<Longrightarrow> same_shape t v"
  by (simp add: same_shape_def)

lemma same_shape_sym: "same_shape t u \<Longrightarrow> same_shape u t"
  by (simp add: same_shape_def)

lemma same_shape_set_file:
  "lookup_node t p = Some (RegFile b) \<Longrightarrow> same_shape t (set_file t p c)"
  unfolding same_shape_def
proof (induction t p rule: lookup_node.induct)
  case (1 x)
  then have x: "x = RegFile b" by simp
  show ?case
  proof
    fix q
    show "map_option kind_of (lookup_node x q) = map_option kind_of (lookup_node (set_file x [] c) q)"
      by (cases q) (simp_all add: x)
  qed
next
  case (2 es p ps)
  then obtain y where y: "map_of es p = Some y" "lookup_node y ps = Some (RegFile b)" by (auto split: option.splits)
  note ih = "2.IH" [OF y(1) y(2)]
  show ?case
  proof
    fix q
    show "map_option kind_of (lookup_node (Folder es) q) = map_option kind_of (lookup_node (set_file (Folder es) (p # ps) c) q)"
      using ih y(1) by (cases q) (auto simp: update_conv split: option.splits)
  qed
qed auto

lemma lookup_snoc: "lookup_node t d = Some (Folder es) \<Longrightarrow> lookup_node t (d @ [p]) = map_of es p"
  by (induction t d rule: lookup_node.induct) (auto split: option.splits)

lemma shape_cases:
  assumes "same_shape t t'"
  obtains (none) "lookup_node t d = None" "lookup_node t' d = None"
    | (link) s where "lookup_node t d = Some (Link s)" "lookup_node t' d = Some (Link s)"
    | (reg) b b' where "lookup_node t d = Some (RegFile b)" "lookup_node t' d = Some (RegFile b')"
    | (dir) es es' where "lookup_node t d = Some (Folder es)" "lookup_node t' d = Some (Folder es')"
proof -
  from assms have e: "map_option kind_of (lookup_node t d) = map_option kind_of (lookup_node t' d)" by (simp add: same_shape_def)
  show thesis
  proof (cases "lookup_node t d")
    case None
    with e none show ?thesis by simp
  next
    case (Some x)
    with e obtain y where y: "lookup_node t' d = Some y" "kind_of x = kind_of y"
      by (cases "lookup_node t' d") simp_all
    with Some link reg dir show ?thesis by (cases x; cases y; simp)
  qed
qed

lemma link_free_shape:
  assumes "same_shape t t'"
  shows "link_free t p = link_free t' p"
proof -
  have "lookup_node t q = Some (Link l) \<longleftrightarrow> lookup_node t' q = Some (Link l)" for q l
    by (rule shape_cases [OF assms, of q]) simp_all
  then show ?thesis unfolding link_free_def by simp
qed

lemma resolve_from_shape:
  assumes "same_shape t t'"
  shows "resolve_from t n d ps = resolve_from t' n d ps"
  using assms
proof (induction t n d ps rule: resolve_from.induct)
  case (2 fs n d p ps)
  show ?case
    by (cases rule: shape_cases [OF "2.prems", of "d @ [p]"]; cases n)
      (use 2 in \<open>simp_all add: resolve_from.simps(2)\<close>)
qed simp

lemma resolve_shape: "same_shape t t' \<Longrightarrow> resolve t p = resolve t' p"
  by (simp add: resolve_def resolve_from_shape)

definition kind_res :: "node res \<Rightarrow> node res" where
  "kind_res r = (case r of Inl e \<Rightarrow> Inl e | Inr x \<Rightarrow> Inr (kind_of x))"

lemma kind_res_simps [simp]: "kind_res (Inl e) = Inl e" "kind_res (Inr x) = Inr (kind_of x)" "kind_res (os_error m p) = os_error m p"
  by (simp_all add: kind_res_def os_error_def)

lemma walk_from_shape:
  assumes "same_shape t t'"
  shows "kind_res (walk_from t n org d ps) = kind_res (walk_from t' n org d ps)"
  using assms
proof (induction t n org d ps rule: walk_from.induct)
  case (1 fs n org d)
  show ?case by (cases rule: shape_cases [OF 1, of d]) simp_all
next
  case (2 fs n org d p ps)
  show ?case
  proof (rule shape_cases [OF "2.prems", of d])
    fix es es'
    assume dir: "lookup_node fs d = Some (Folder es)" "lookup_node t' d = Some (Folder es')"
    note l = lookup_snoc [OF dir(1), of p] lookup_snoc [OF dir(2), of p]
    show ?thesis
      by (cases rule: shape_cases [OF "2.prems", of "d @ [p]"]; cases n) (use 2 dir l in simp_all)
  qed simp_all
qed

lemma stat_path_shape: "same_shape t t' \<Longrightarrow> kind_res (stat_path t p) = kind_res (stat_path t' p)"
  by (simp add: stat_path_def walk_from_shape)


section \<open>Resolved paths\<close>

definition plain_part :: "string \<Rightarrow> bool" where
  "plain_part p \<longleftrightarrow> p \<noteq> [] \<and> p \<noteq> ''.'' \<and> p \<noteq> ''..'' \<and> CHR ''/'' \<notin> set p"

text \<open>\<open>as_posix()\<close> of a relative path\<close>

definition posix :: "string list \<Rightarrow> string" where
  "posix ps = (if ps = [] then ''.'' else join ''/'' ps)"

lemma in_path_parts: "p \<in> set (path_parts s) \<Longrightarrow> p = ''..'' \<or> plain_part p"
  by (auto simp: path_parts_def plain_part_def dest: split_on_parts)

lemma resolve_from_no_up: "resolve_from fs n d ps = Inr q \<Longrightarrow> ''..'' \<notin> set d \<Longrightarrow> ''..'' \<notin> set q"
proof (induction fs n d ps rule: resolve_from.induct)
  case (2 fs n d p ps)
  then show ?case
    by (auto simp: resolve_from.simps(2) dest: in_set_butlastD split: if_splits option.splits node.splits nat.splits)
qed simp

lemma resolve_from_plain:
  "resolve_from fs n d ps = Inr q \<Longrightarrow> list_all plain_part d \<Longrightarrow> list_all (\<lambda>p. p = ''..'' \<or> plain_part p) ps
    \<Longrightarrow> list_all plain_part q"
proof (induction fs n d ps rule: resolve_from.induct)
  case (2 fs n d p ps)
  have parts: "list_all (\<lambda>p. p = ''..'' \<or> plain_part p) (path_parts t)" for t
    using in_path_parts by (auto simp: list_all_iff)
  have "list_all plain_part (butlast d)" using "2.prems"(2) by (auto simp: list_all_iff dest: in_set_butlastD)
  with 2 parts show ?case
    by (auto simp: resolve_from.simps(2) split: if_splits option.splits node.splits nat.splits)
qed simp

lemma resolve_no_up: "resolve fs p = Inr q \<Longrightarrow> ''..'' \<notin> set q"
  unfolding resolve_def by (erule resolve_from_no_up) simp

lemma resolve_plain:
  "resolve fs p = Inr q \<Longrightarrow> list_all (\<lambda>p. p = ''..'' \<or> plain_part p) p \<Longrightarrow> list_all plain_part q"
  unfolding resolve_def by (erule resolve_from_plain) simp_all

lemma path_parts_posix:
  assumes "list_all plain_part ps"
  shows "path_parts (posix ps) = ps" and "\<not> starts_with ''/'' (posix ps)"
proof -
  have "ps \<noteq> [] \<Longrightarrow> split_on (CHR ''/'') (join ''/'' ps) = ps"
    using assms by (intro split_on_join) (auto simp: list_all_iff plain_part_def)
  then show "path_parts (posix ps) = ps"
    using assms by (auto simp: posix_def path_parts_def list_all_iff plain_part_def intro!: filter_True)
  show "\<not> starts_with ''/'' (posix ps)"
  proof (cases ps)
    case (Cons p qs)
    with assms obtain c r where "p = c # r" "c \<noteq> CHR ''/''" by (cases p) (auto simp: plain_part_def)
    with Cons show ?thesis by (cases qs) (simp_all add: posix_def starts_with_def)
  qed (simp add: posix_def starts_with_def)
qed

definition is_symlink :: "node \<Rightarrow> string list \<Rightarrow> bool" where
  "is_symlink fs p = (case lstat_path fs p of Inr (Link t) \<Rightarrow> True | _ \<Rightarrow> False)"

definition relative_to :: "string list \<Rightarrow> string list \<Rightarrow> string list" where
  "relative_to root p = drop (length root) p"

text \<open>The kernel walks a path without links and \<open>..\<close> directly.\<close>

lemma link_free_take: "link_free fs p \<Longrightarrow> link_free fs (take i p)"
  unfolding link_free_def by (metis length_take min.absorb1 min.coboundedI1 min.cobounded1 order_trans take_take)

lemma lookup_append_Folder:
  "lookup_node t (d @ p # ps) = Some x \<Longrightarrow> \<exists>es. lookup_node t d = Some (Folder es) \<and> map_of es p \<noteq> None"
proof (induction t d rule: lookup_node.induct)
  case (1 t)
  then show ?case by (cases t) (auto split: option.splits)
qed (auto split: option.splits)

lemma link_free_step:
  assumes "link_free fs (d @ p # ps)" "lookup_node fs d = Some (Folder es)" "map_of es p = Some y"
  shows "y \<noteq> Link t"
proof
  assume "y = Link t"
  with assms(2,3) have "lookup_node fs (d @ [p]) = Some (Link t)" by (simp add: lookup_snoc)
  moreover have "take (Suc (length d)) (d @ p # ps) = d @ [p]" by simp
  ultimately show False using assms(1) unfolding link_free_def
    by (metis length_append length_Cons add_Suc_right le_add1 Suc_le_mono)
qed

lemma walk_direct:
  assumes "link_free fs (d @ ps)" "''..'' \<notin> set ps"
  shows "walk_from fs n org d ps = Inr x \<longleftrightarrow> lookup_node fs (d @ ps) = Some x"
  using assms
proof (induction ps arbitrary: d)
  case Nil
  then show ?case by (simp add: os_error_def split: option.splits)
next
  case (Cons p ps)
  show ?case
  proof (cases "\<exists>es y. lookup_node fs d = Some (Folder es) \<and> map_of es p = Some y")
    case True
    then obtain es y where e: "lookup_node fs d = Some (Folder es)" "map_of es p = Some y" by blast
    have ne: "y \<noteq> Link t" for t using link_free_step [OF Cons.prems(1) e] .
    have "walk_from fs n org d (p # ps) = walk_from fs n org (d @ [p]) ps"
      using e ne Cons.prems(2) by (cases y) auto
    with Cons.IH [of "d @ [p]"] Cons.prems show ?thesis by simp
  next
    case False
    then have "lookup_node fs (d @ p # ps) \<noteq> Some x" using lookup_append_Folder by fastforce
    moreover have "walk_from fs n org d (p # ps) \<noteq> Inr x"
      using False Cons.prems(2) by (auto simp: os_error_def split: option.splits node.splits)
    ultimately show ?thesis by simp
  qed
qed

lemma stat_path_direct:
  "link_free fs p \<Longrightarrow> ''..'' \<notin> set p \<Longrightarrow> stat_path fs p = Inr x \<longleftrightarrow> lookup_node fs p = Some x"
  unfolding stat_path_def using walk_direct [of fs "[]" p] by simp

lemma resolve_plain_path: "link_free fs p \<Longrightarrow> list_all plain_part p \<Longrightarrow> resolve fs p = Inr p"
  by (rule resolve_link_free) (auto simp: list_all_iff plain_part_def)

text \<open>No part of a resolved path is a link.\<close>

lemma lstat_link:
  assumes "lstat_path fs p = Inr (Link t)" "p \<noteq> []" "last p \<noteq> ''..''"
  shows "\<exists>es. stat_path fs (butlast p) = Inr (Folder es) \<and> map_of es (last p) = Some (Link t)"
proof (cases "stat_path fs (butlast p)")
  case (Inr x)
  with assms show ?thesis by (cases x) (auto simp: lstat_path_def os_error_def split: option.splits)
qed (use assms in \<open>simp add: lstat_path_def\<close>)

lemma not_symlink:
  assumes "link_free fs s" "''..'' \<notin> set s" "0 < i"
  shows "\<not> is_symlink fs (take i s)"
proof
  assume sym: "is_symlink fs (take i s)"
  show False
  proof (cases "take i s")
    case Nil
    with sym assms(1) show False
      by (auto simp: is_symlink_def lstat_path_def stat_path_def link_free_def split: sum.splits node.splits option.splits)
  next
    case (Cons a as)
    let ?p = "take i s"
    have p: "?p \<noteq> []" "''..'' \<notin> set ?p" using Cons assms(2) in_set_takeD [of "''..''" i s] by auto
    then have ends: "last ?p \<noteq> ''..''" "''..'' \<notin> set (butlast ?p)"
      using last_in_set [OF p(1)] by (metis, metis in_set_butlastD)
    note lf = link_free_take [OF assms(1), of i]
    note lb = link_free_butlast [OF lf]
    from sym obtain t where "lstat_path fs ?p = Inr (Link t)" by (auto simp: is_symlink_def split: sum.splits node.splits)
    from lstat_link [OF this p(1) ends(1)] obtain es
      where e: "stat_path fs (butlast ?p) = Inr (Folder es)" "map_of es (last ?p) = Some (Link t)" by blast
    then have "lookup_node fs (butlast ?p) = Some (Folder es)" by (simp add: stat_path_direct [OF lb ends(2)])
    from lookup_snoc [OF this, of "last ?p"] e(2) p(1) have "lookup_node fs ?p = Some (Link t)" by simp
    with lf show False unfolding link_free_def by (metis order_refl take_all)
  qed
qed

end
