(* ===== verification/Psm_VerifierProps.thy ===== *)
theory Psm_VerifierProps
  imports Psm_Verifier Psm_Trees
begin

text \<open>
  What a verification looks at: every path of a contract resolves into the workspace, and the checks only depend on the
  workspace folder and on how those paths resolve.
\<close>

section \<open>Walking inside a folder\<close>

text \<open>The kernel walks a path without links and \<open>..\<close> to a folder, and on from there.\<close>

lemma walk_to_folder:
  assumes "link_free fs (d @ q)" "''..'' \<notin> set q" "lookup_node fs (d @ q) = Some x"
  shows "walk_from fs n org d (q @ ps) = walk_from fs n org (d @ q) ps"
  using assms
proof (induction q arbitrary: d)
  case (Cons p q)
  from Cons.prems(3) obtain es y where e: "lookup_node fs d = Some (Folder es)" "map_of es p = Some y"
    using lookup_append_Folder [of fs d p q] by fastforce
  have "y \<noteq> Link t" for t using link_free_step [OF Cons.prems(1) e] .
  with e Cons.prems(2) have "walk_from fs n org d ((p # q) @ ps) = walk_from fs n org (d @ [p]) (q @ ps)"
    by (cases y) auto
  with Cons.IH [of "d @ [p]"] Cons.prems show ?case by simp
qed simp

text \<open>Trees that have the same folder at the end of the paths walk alike from there.\<close>

lemma walk_alike:
  assumes "link_free fs (d @ ps)" "link_free fs' (d' @ ps)" "''..'' \<notin> set ps"
    and "\<And>q. lookup_node fs (d @ q) = lookup_node fs' (d' @ q)"
  shows "walk_from fs n org d ps = walk_from fs' n org d' ps"
  using assms
proof (induction ps arbitrary: d d')
  case Nil
  then show ?case using Nil.prems(4) [of "[]"] by simp
next
  case (Cons p ps)
  have same: "lookup_node fs d = lookup_node fs' d'" using Cons.prems(4) [of "[]"] by simp
  have ih: "walk_from fs n org (d @ [p]) ps = walk_from fs' n org (d' @ [p]) ps"
    using Cons.prems Cons.prems(4) [of "p # _"] by (intro Cons.IH) simp_all
  show ?case
  proof (cases "\<exists>es y. lookup_node fs d = Some (Folder es) \<and> map_of es p = Some y")
    case True
    then obtain es y where e: "lookup_node fs d = Some (Folder es)" "map_of es p = Some y" by blast
    have "y \<noteq> Link t" for t using link_free_step [OF Cons.prems(1) e] .
    with e same ih Cons.prems(3) show ?thesis by (cases y) auto
  next
    case False
    with same Cons.prems(3) show ?thesis by (auto split: option.splits node.splits)
  qed
qed

lemma stat_in_folder:
  assumes "link_free fs (root @ q)" "link_free fs' (root @ q)" "''..'' \<notin> set (root @ q)"
    and "lookup_node fs root = Some x" "lookup_node fs' root = Some x"
  shows "stat_path fs (root @ q) = stat_path fs' (root @ q)"
proof -
  have t: "link_free fs ([] @ root)" "link_free fs' ([] @ root)"
    using link_free_take [OF assms(1), of "length root"] link_free_take [OF assms(2), of "length root"] by simp_all
  have "walk_from fs link_budget (root @ q) root q = walk_from fs' link_budget (root @ q) root q"
    using assms by (intro walk_alike) (simp_all add: lookup_append)
  then show ?thesis
    unfolding stat_path_def using walk_to_folder [OF t(1)] walk_to_folder [OF t(2)] assms(3-5) by simp
qed

section \<open>What the checks depend on\<close>

definition listed_paths :: "json \<Rightarrow> string list" where
  "listed_paths e = map (\<lambda>x. py_str (get_none ''path'' x)) (list_items (get_none ''files'' e) @ list_items (get_none ''json'' e))"

text \<open>Another tree with the same workspace folder, in which the listed paths resolve to the same places\<close>

definition same_workspace :: "node \<Rightarrow> node \<Rightarrow> string list \<Rightarrow> json \<Rightarrow> bool" where
  "same_workspace fs fs' workspace e \<longleftrightarrow> link_free fs' []
     \<and> (case (resolve fs workspace, resolve fs' workspace) of
          (Inr root, Inr root') \<Rightarrow> root' = root \<and> lookup_node fs root \<noteq> None \<and> lookup_node fs' root = lookup_node fs root
        | _ \<Rightarrow> False)
     \<and> list_all (\<lambda>v. resolve fs' (path_join workspace v) = resolve fs (path_join workspace v)) (listed_paths e)"

lemma same_workspaceD:
  assumes "same_workspace fs fs' workspace e" "link_free fs []" "v \<in> set (listed_paths e)"
    and "safe_workspace_path fs workspace v = Inr p"
  shows "safe_workspace_path fs' workspace v = Inr p" and "stat_path fs' p = stat_path fs p"
proof -
  from assms(4) obtain root where r: "resolve fs (path_join workspace v) = Inr p" "resolve fs workspace = Inr root" "is_within root p"
    by (auto simp: safe_workspace_path_def split: if_splits)
  from assms(1,3) r obtain x where s: "resolve fs' (path_join workspace v) = Inr p" "resolve fs' workspace = Inr root"
    "lookup_node fs root = Some x" "lookup_node fs' root = Some x" "link_free fs' []"
    by (auto simp: same_workspace_def list_all_iff split: sum.splits)
  from s(1,2) r(3) show "safe_workspace_path fs' workspace v = Inr p" by (simp add: safe_workspace_path_def)
  from r(3) obtain q where p: "p = root @ q" unfolding is_within_def by (metis append_take_drop_id)
  have "link_free fs p" "link_free fs' p"
    using resolve_from_result [OF r(1) [unfolded resolve_def] assms(2)] resolve_from_result [OF s(1) [unfolded resolve_def] s(5)]
    by simp_all
  with resolve_no_up [OF r(1)] s(3,4) show "stat_path fs' p = stat_path fs p"
    unfolding p by (intro stat_in_folder [symmetric])
qed

lemma reads_alike:
  assumes "stat_path fs' p = stat_path fs p"
  shows "path_exists fs' p = path_exists fs p" "read_json fs' p = read_json fs p" "sha256_file H fs' p = sha256_file H fs p"
  using assms by (simp_all add: path_exists_def read_json_def sha256_file_def read_bytes_def)

lemma file_checks_alike:
  assumes "safe_workspace_path fs workspace (py_str (get_none ''path'' x)) = Inr p"
    "safe_workspace_path fs' workspace (py_str (get_none ''path'' x)) = Inr p" "stat_path fs' p = stat_path fs p"
  shows "file_checks H fs' workspace x = file_checks H fs workspace x" "json_check fs' workspace x = json_check fs workspace x"
proof -
  have v: "py_str v = py_str (get_none ''path'' x)" if "jsub ''path'' x = Inr v" for v
    using that by (auto simp: jsub_def jitem_def get_or_def split: if_splits option.splits)
  show "file_checks H fs' workspace x = file_checks H fs workspace x"
    using v assms(1,2) by (cases "jsub ''path'' x") (simp_all add: file_checks_def Let_def reads_alike [OF assms(3)])
  show "json_check fs' workspace x = json_check fs workspace x"
    using v assms(1,2) by (cases "jsub ''path'' x") (simp_all add: json_check_def Let_def reads_alike [OF assms(3)])
qed

lemma each_file_alike:
  assumes "each_file k e f = Inr xs" "\<And>x. x \<in> set (list_items (get_none k e)) \<Longrightarrow> g x = f x"
    and "\<And>x y. \<not> is_dict x \<Longrightarrow> f x \<noteq> Inr y"
  shows "each_file k e g = Inr xs"
proof -
  from assms(1) obtain vs where v: "py_iter (get_or k (JArr []) e) = Inr vs" "res_concat (map f vs) = Inr xs"
    by (auto simp: each_file_def)
  have "g x = f x" if x: "x \<in> set vs" for x
  proof (cases "is_dict x")
    case True
    with v(1) x show ?thesis using assms(2) by (cases "get_or k (JArr []) e") (auto simp: get_or_def split: option.splits)
  next
    case False
    moreover have "\<exists>y. f x = Inr y" using res_concat_Inr [OF v(2), of "f x"] x by simp
    ultimately show ?thesis using assms(3) by blast
  qed
  then have m: "map g vs = map f vs" by simp
  show ?thesis unfolding each_file_def using v m by (simp del: map_eq_conv)
qed

lemma checks_need_dict: "\<not> is_dict x \<Longrightarrow> file_checks H fs workspace x \<noteq> Inr y" "\<not> is_dict x \<Longrightarrow> json_check fs workspace x \<noteq> Inr y"
  by (simp_all add: file_checks_def json_check_def jsub_def)

lemma listed_path_in:
  assumes "verify R H fs workspace ex contract obs = Inr cs" "jget ''expect'' contract = Some e"
    and "x \<in> set (list_items (get_none ''files'' e)) \<union> set (list_items (get_none ''json'' e))"
  shows "\<exists>p. safe_workspace_path fs workspace (py_str (get_none ''path'' x)) = Inr p"
  using assms(3) verify_parts [OF assms(1,2)]
  by (metis Un_iff each_file_all file_checks_path json_check_path)

lemma verify_alike:
  assumes v: "verify R H fs workspace ex contract obs = Inr cs" and e: "jget ''expect'' contract = Some e"
    and l: "link_free fs []" and s: "same_workspace fs fs' workspace e"
  shows "verify R H fs' workspace ex contract obs = Inr cs"
proof -
  have alike: "file_checks H fs' workspace x = file_checks H fs workspace x \<and> json_check fs' workspace x = json_check fs workspace x"
    if x: "x \<in> set (list_items (get_none ''files'' e)) \<union> set (list_items (get_none ''json'' e))" for x
  proof -
    obtain p where p: "safe_workspace_path fs workspace (py_str (get_none ''path'' x)) = Inr p"
      using listed_path_in [OF v e x] by blast
    have "py_str (get_none ''path'' x) \<in> set (listed_paths e)" using x by (auto simp: listed_paths_def)
    from same_workspaceD [OF s l this p] file_checks_alike [OF p] show ?thesis by blast
  qed
  from verify_parts [OF v e] obtain xs ys where
    xs: "each_file ''files'' e (file_checks H fs workspace) = Inr xs" and ys: "each_file ''json'' e (json_check fs workspace) = Inr ys"
    by blast
  have "each_file ''files'' e (file_checks H fs' workspace) = Inr xs" "each_file ''json'' e (json_check fs' workspace) = Inr ys"
    using each_file_alike [OF xs] each_file_alike [OF ys] alike checks_need_dict by blast+
  with v e xs ys show ?thesis by (simp add: verify_def jitem_def)
qed

text \<open>C13: A contract that is verified at all only looks at files inside the workspace: every file and document
  expectation names a path that, with all links and \<open>..\<close> resolved, lies under the resolved workspace (a path that escapes
  makes the verification raise); and the checks are the same in every tree with the same workspace folder in which these
  paths resolve alike, whatever the files outside contain.\<close>

theorem contract_paths_confined:
  assumes "verify R H fs workspace ex contract obs = Inr cs" and "jget ''expect'' contract = Some e"
    and "link_free fs []"
  shows "(\<forall>x \<in> set (list_items (get_none ''files'' e)) \<union> set (list_items (get_none ''json'' e)).
      \<exists>root p. resolve fs workspace = Inr root \<and> safe_workspace_path fs workspace (py_str (get_none ''path'' x)) = Inr p
        \<and> is_within root p \<and> link_free fs p)
    \<and> (\<forall>fs'. same_workspace fs fs' workspace e \<longrightarrow> verify R H fs' workspace ex contract obs = Inr cs)"
proof -
  have "\<exists>root p. resolve fs workspace = Inr root \<and> safe_workspace_path fs workspace (py_str (get_none ''path'' x)) = Inr p
      \<and> is_within root p \<and> link_free fs p"
    if x: "x \<in> set (list_items (get_none ''files'' e)) \<union> set (list_items (get_none ''json'' e))" for x
  proof -
    obtain p where p: "safe_workspace_path fs workspace (py_str (get_none ''path'' x)) = Inr p"
      using listed_path_in [OF assms(1,2) x] by blast
    with assms(3) safe_workspace_path_in [OF p] safe_workspace_path_link_free [OF p] show ?thesis by blast
  qed
  with verify_alike [OF assms] show ?thesis by blast
qed

definition other_tree :: node where
  "other_tree = Folder [(''etc'', Folder [(''passwd'', RegFile ''root''), (''shadow'', RegFile [])]),
     (''w'', Folder [(''out.json'', RegFile (utf8 (dumps (JObj [(''n'', JArr [JInt 7])])))), (''up'', Link ''../etc'')])]"

theorem contract_paths_confined_witness:
  "(\<exists>root p. resolve sample_tree [''w''] = Inr root
      \<and> safe_workspace_path sample_tree [''w''] ''out.json'' = Inr p \<and> is_within root p)
    \<and> verify (\<lambda>_ _. Inr True) (\<lambda>b. b) other_tree [''w''] (sample_execution (Some 0)) (sample_contract ''out.json'') JNull
      = verify (\<lambda>_ _. Inr True) (\<lambda>b. b) sample_tree [''w''] (sample_execution (Some 0)) (sample_contract ''out.json'') JNull"
proof -
  obtain cs where cs: "verify (\<lambda>_ _. Inr True) (\<lambda>b. b) sample_tree [''w''] (sample_execution (Some 0))
      (sample_contract ''out.json'') JNull = Inr cs"
    using sample_verified by (auto split: sum.splits)
  let ?x = "JObj [(''path'', JStr ''out.json''), (''property'', JStr ''n.0''), (''equals'', JInt 7)]"
  have e: "jget ''expect'' (sample_contract ''out.json'') = Some (JObj [(''json'', JArr [?x])])"
    by (simp add: sample_contract_def)
  have l: "link_free sample_tree []" "link_free other_tree []" by (simp_all add: link_free_def sample_tree_def other_tree_def)
  have "case (resolve sample_tree [''w''], resolve other_tree [''w'']) of
      (Inr root, Inr root') \<Rightarrow> root' = root \<and> lookup_node sample_tree root \<noteq> None \<and> lookup_node other_tree root = lookup_node sample_tree root
    | _ \<Rightarrow> False" by code_simp
  moreover have "resolve other_tree (path_join [''w''] ''out.json'') = resolve sample_tree (path_join [''w''] ''out.json'')" by code_simp
  ultimately have s: "same_workspace sample_tree other_tree [''w''] (JObj [(''json'', JArr [?x])])"
    using l(2) by (simp add: same_workspace_def listed_paths_def get_or_def)
  note c = contract_paths_confined [OF cs e l(1)]
  have "verify (\<lambda>_ _. Inr True) (\<lambda>b. b) other_tree [''w''] (sample_execution (Some 0)) (sample_contract ''out.json'') JNull = Inr cs"
    using c s by blast
  moreover have "?x \<in> set (list_items (get_none ''files'' (JObj [(''json'', JArr [?x])]))) \<union> set (list_items (get_none ''json'' (JObj [(''json'', JArr [?x])])))"
    by (simp add: get_or_def)
  with c have "\<exists>root p. resolve sample_tree [''w''] = Inr root \<and> safe_workspace_path sample_tree [''w''] (py_str (get_none ''path'' ?x)) = Inr p
      \<and> is_within root p" by blast
  ultimately show ?thesis using cs by (simp add: get_or_def)
qed

end
