(* ===== verification/Psm_Report.thy ===== *)
theory Psm_Report
  imports Psm_Diagnostics
begin

text \<open>
  The human-readable report of \<open>report.py\<close>, section by section. The report dicts are values: a
  section that is not a dict where the code calls \<open>get\<close> raises, as in the code.
\<close>

definition fmt :: "string list \<Rightarrow> string" where
  "fmt parts = concat parts"

definition bool_str :: "bool \<Rightarrow> string" where
  "bool_str b = (if b then ''True'' else ''False'')"

definition opt_int_str :: "int option \<Rightarrow> string" where
  "opt_int_str v = (case v of None \<Rightarrow> ''None'' | Some i \<Rightarrow> int_str i)"

text \<open>\<open>str(v.get(k, d))\<close> and \<open>len(v.get(k, []))\<close> of a dict\<close>

definition gs :: "string \<Rightarrow> json \<Rightarrow> json \<Rightarrow> string" where
  "gs k d v = py_str (get_or k d v)"

abbreviation gn :: "string \<Rightarrow> json \<Rightarrow> string" where
  "gn k v \<equiv> gs k JNull v"

abbreviation g0 :: "string \<Rightarrow> json \<Rightarrow> string" where
  "g0 k v \<equiv> gs k (JInt 0) v"

definition len_field :: "string \<Rightarrow> json \<Rightarrow> string res" where
  "len_field k v = res_bind (py_len (get_or k (JArr []) v)) (\<lambda>n. Inr (int_str n))"

definition need_dict :: "json \<Rightarrow> (json \<Rightarrow> 'a res) \<Rightarrow> 'a res" where
  "need_dict v f = (if is_dict v then f v else throw AttributeError ''get'')"

definition matrix_lines :: "json \<Rightarrow> string list res" where
  "matrix_lines matrix =
     (if \<not> py_true matrix then Inr []
      else need_dict matrix (\<lambda>m.
        res_bind (py_iter (get_or ''versions'' (JArr []) m)) (\<lambda>versions.
        let scheduler = get_or ''scheduler'' (JObj []) m;
            shard = get_or ''shard'' (JObj []) m
        in Inr
          ([''Matrix: '' @ join '', '' (map py_str versions),
            ''Differential mode: '' @ gs ''differential_mode'' (JStr ''off'') m]
           @ (if is_dict scheduler \<and> py_true scheduler then
                [fmt [''Scheduler: '', ''workers='', gn ''workers'' scheduler,
                      '' executed='', g0 ''executed'' scheduler,
                      '' cache_hits='', g0 ''cache_hits'' scheduler,
                      '' resumed='', g0 ''resumed'' scheduler,
                      '' skipped='', g0 ''skipped_fail_fast'' scheduler]]
              else [])
           @ (if is_dict shard \<and> \<not> eq_int (get_or ''count'' (JInt 1) shard) 1 then
                [fmt [''Shard: '', gn ''index'' shard, ''/'', gn ''count'' shard,
                      '' jobs='', gn ''selected_jobs'' shard]]
              else [])
           @ ['''']))))"

definition diagnostic_lines :: "json list \<Rightarrow> string list res" where
  "diagnostic_lines diagnostics =
     (if diagnostics = [] then Inr []
      else res_bind (res_map (\<lambda>item. need_dict item (\<lambda>d. Inr (gs ''code'' (JStr ''UNKNOWN'') d))) diagnostics)
        (\<lambda>codes. Inr
          [''Diagnostics: '' @ nat_str (length diagnostics),
           ''Diagnostic codes: '' @ join '', ''
              (map (\<lambda>(k, n). k @ ''='' @ nat_str n) (sort_key fst (tally codes))),
           '''']))"

definition cache_lines :: "target_report \<Rightarrow> string list res" where
  "cache_lines t = (if \<not> py_true (tr_cache t) then Inr []
     else need_dict (tr_cache t) (\<lambda>c. Inr
       [fmt [''  cache: status='', gn ''status'' c, '' key='', take 16 (gs ''key'' (JStr '''') c)]]))"

definition execution_lines :: "target_report \<Rightarrow> string list res" where
  "execution_lines t = (case tr_execution t of None \<Rightarrow> Inr [] | Some e \<Rightarrow> Inr
     [fmt [''  exit='', opt_int_str (ex_exit_code e), '' timeout='', bool_str (ex_timed_out e),
           '' duration='', int_str (ex_duration_ms e), ''ms'']])"

definition analyzer_lines :: "target_report \<Rightarrow> string list res" where
  "analyzer_lines t = need_dict (tr_analysis t) (\<lambda>analysis.
     let analyzer = get_or ''psscriptanalyzer'' (JObj []) analysis in
     if \<not> py_true analyzer then Inr []
     else need_dict analyzer (\<lambda>a. res_bind (len_field ''diagnostics'' a) (\<lambda>n. Inr
       [fmt [''  analyzer: '', ''status='', gn ''status'' a, '' version='', gn ''version'' a,
             '' diagnostics='', n]])))"

definition pester_lines :: "target_report \<Rightarrow> string list res" where
  "pester_lines t = need_dict (tr_tests t) (\<lambda>tests.
     let pester = get_or ''pester'' (JObj []) tests in
     if \<not> py_true pester then Inr []
     else need_dict pester (\<lambda>p.
       let coverage = get_or ''coverage'' (JObj []) p in Inr
       (fmt [''  pester: '', ''status='', gn ''status'' p, '' version='', gn ''version'' p,
             '' passed='', g0 ''passed'' p, '' failed='', g0 ''failed'' p]
        # (if is_dict coverage then
             [fmt [''  coverage: '', ''status='', gn ''status'' coverage, '' percent='', gn ''percent'' coverage,
                   '' executed='', g0 ''executed_commands'' coverage, ''/'', g0 ''analyzed_commands'' coverage]]
           else []))))"

definition stream_names :: "string list" where
  "stream_names = [''success'', ''error'', ''warning'', ''verbose'', ''debug'', ''information'']"

definition observation_lines :: "target_report \<Rightarrow> string list res" where
  "observation_lines t =
     (let observation = py_or (tr_observation t) (JObj []) in
      if \<not> is_dict observation then Inr []
      else
        let streams = get_or ''streams'' (JObj []) observation;
            native = get_or ''native'' (JObj []) observation;
            module = get_none ''module'' observation;
            manifest = get_none ''manifest'' observation
        in res_concat
          [(if is_dict streams then
              res_bind (res_map (\<lambda>name. need_dict (get_or name (JObj []) streams) (\<lambda>s.
                  Inr (name @ ''='' @ g0 ''count'' s))) stream_names) (\<lambda>parts.
                Inr [''  streams: '' @ join '' '' parts])
            else Inr []),
           (if is_dict native then Inr
              [fmt [''  native-exit: '', ''observed='', bool_str (py_true (get_none ''observed'' native)),
                    '' value='', gn ''last_exit_code'' native]]
            else Inr []),
           (if is_dict module then res_bind (len_field ''exported_commands'' module) (\<lambda>n. Inr
              [fmt [''  module: '', ''name='', gn ''module_name'' module, '' version='', gn ''version'' module,
                    '' exports='', n]])
            else Inr []),
           (if is_dict manifest then Inr
              [fmt [''  manifest: '', ''kind='', gn ''kind'' manifest, '' valid='', gn ''valid'' manifest,
                    '' name='', gn ''name'' manifest, '' version='', gn ''version'' manifest]]
            else Inr [])])"

definition input_lines :: "target_report \<Rightarrow> string list res" where
  "input_lines t =
     (let inputs = py_or (tr_inputs t) (JObj []) in
      if \<not> py_true inputs then Inr []
      else need_dict inputs (\<lambda>i.
        need_dict (get_or ''arguments'' (JObj []) i) (\<lambda>arguments.
        res_bind (len_field ''parameters'' i) (\<lambda>params.
        res_bind (len_field ''environment'' i) (\<lambda>env.
        need_dict (get_or ''stdin'' (JObj []) i) (\<lambda>stdin.
        res_bind (len_field ''fixtures'' i) (\<lambda>fixtures. Inr
          [fmt [''  inputs: '', ''args='', g0 ''count'' arguments, '' params='', params, '' env='', env,
                '' stdin='', bool_str (py_true (get_none ''present'' stdin)), '' fixtures='', fixtures]])))))))"

definition dependency_lines :: "target_report \<Rightarrow> string list res" where
  "dependency_lines t =
     (let dependencies = py_or (tr_dependencies t) (JObj []) in
      if \<not> py_true dependencies then Inr []
      else need_dict dependencies (\<lambda>d.
        res_bind (len_field ''powershell_modules'' d) (\<lambda>modules.
        res_bind (len_field ''native_commands'' d) (\<lambda>natives. Inr
          [fmt [''  dependencies: '', ''status='', gn ''status'' d, '' policy='', gn ''policy'' d,
                '' modules='', modules, '' native='', natives]]))))"

definition hook_lines :: "target_report \<Rightarrow> string list res" where
  "hook_lines t =
     (let hooks = py_or (tr_hooks t) (JObj []) in
      if \<not> py_true hooks then Inr []
      else need_dict hooks (\<lambda>h.
        res_bind (len_field ''setup'' h) (\<lambda>setup.
        res_bind (len_field ''teardown'' h) (\<lambda>teardown. Inr
          [fmt [''  hooks: '', ''setup='', setup, '' teardown='', teardown]]))))"

definition parse_lines :: "target_report \<Rightarrow> string list" where
  "parse_lines t = map (\<lambda>d. fmt [''  parse:'',
       (case pd_line d of None \<Rightarrow> '''' | Some l \<Rightarrow>
          fmt ['' line='', int_str l, '' col='', opt_int_str (pd_column d)]),
       '' '', pd_message d]) (tr_parse_diagnostics t)"

definition verify_lines :: "target_report \<Rightarrow> string list" where
  "verify_lines t = map (\<lambda>c. fmt [''  verify:'', vc_kind c, '' '', vc_subject c, '': '',
       ''expected='', py_repr (vc_expected c), '' actual='', py_repr (vc_actual c)])
     (filter (\<lambda>c. \<not> vc_passed c) (tr_verification t))"

definition requirement_lines :: "target_report \<Rightarrow> string list" where
  "requirement_lines t =
     (if tr_windows_requirements t \<noteq> [] then [''  windows-required: '' @ join '', '' (tr_windows_requirements t)] else [])
     @ map (\<lambda>w. ''  warning: '' @ w) (tr_warnings t)"

definition target_heading :: "target_report \<Rightarrow> string" where
  "target_heading t = fmt [''['', tr_status t, ''] '', tr_runtime_id t, '' :: '', tr_source t]"

definition target_lines :: "target_report \<Rightarrow> string list res" where
  "target_lines t = res_concat
     [Inr [target_heading t], cache_lines t, execution_lines t, analyzer_lines t, pester_lines t,
      observation_lines t, input_lines t, dependency_lines t, hook_lines t,
      Inr (parse_lines t @ verify_lines t @ requirement_lines t @ [''''])]"

definition issue_line :: "json \<Rightarrow> string res" where
  "issue_line issue = need_dict issue (\<lambda>i. Inr (fmt [''  '', gs ''severity'' (JStr ''warning'') i, '':'',
     gs ''dimension'' (JStr ''unknown'') i, '' '', gn ''baseline_runtime'' i, '' -> '', gn ''candidate_runtime'' i]))"

definition differential_lines :: "json list \<Rightarrow> string list res" where
  "differential_lines differential =
     (if differential = [] then Inr []
      else res_concat
        ([Inr [''Differential comparison'']]
         @ map (\<lambda>g. need_dict g (\<lambda>d.
             res_bind (py_iter (get_or ''issues'' (JArr []) d)) (\<lambda>issues.
             res_bind (res_map issue_line issues) (\<lambda>lines. Inr
               (fmt [''['', gn ''status'' d, ''] '', gn ''source'' d, '' baseline='', gn ''baseline_runtime'' d,
                     '' issues='', g0 ''issue_count'' d] # lines))))) differential
         @ [Inr ['''']]))"

definition render_human :: "matrix_report \<Rightarrow> string res" where
  "render_human r =
     res_bind (res_concat
       ([Inr [''PSMatrix Report'', ''Status: '' @ mr_status r, ''Targets: '' @ nat_str (length (mr_targets r)), ''''],
         matrix_lines (mr_matrix r), diagnostic_lines (mr_diagnostics r)]
        @ map target_lines (mr_targets r) @ [differential_lines (mr_differential r)]))
     (\<lambda>lines. Inr (rstrip (join [CHR 0x0A] lines) @ [CHR 0x0A]))"

section \<open>Every target is in the report\<close>

lemma contains_append: "contains p s \<Longrightarrow> contains p (s @ t)"
  by (auto simp: contains_iff) (metis append_assoc)

lemma contains_prepend: "contains p s \<Longrightarrow> contains p (t @ s)"
  by (auto simp: contains_iff) (metis append_assoc)

lemma contains_join: "contains p x \<Longrightarrow> x \<in> set xs \<Longrightarrow> contains p (join sep xs)"
  by (induction sep xs rule: join.induct)
    (auto intro: contains_append contains_prepend)

lemma rstrip_keeps:
  assumes "\<not> is_space c"
  shows "\<exists>t. rstrip (s @ c # r) = s @ c # t"
proof (cases "list_all is_space r")
  case True
  then have "dropWhile is_space (rev (s @ c # r)) = c # rev s"
    using assms by (subst rev_append, simp, subst dropWhile_append2) (auto simp: list_all_iff)
  then show ?thesis by (simp add: rstrip_def)
next
  case False
  then obtain x where x: "x \<in> set (rev r)" "\<not> is_space x" by (auto simp: list_all_iff)
  then have "dropWhile is_space (rev r @ [c] @ rev s) = dropWhile is_space (rev r) @ [c] @ rev s"
    by (rule dropWhile_append1)
  then show ?thesis by (simp add: rstrip_def)
qed

lemma contains_rstrip:
  assumes "contains (p @ [c]) s" and "\<not> is_space c"
  shows "contains (p @ [c]) (rstrip s)"
proof -
  from assms(1) obtain a b where s: "s = (a @ p) @ c # b" by (auto simp: contains_iff)
  from rstrip_keeps [OF assms(2), of "a @ p" b] obtain t where "rstrip s = (a @ p) @ c # t"
    unfolding s by blast
  then show ?thesis unfolding contains_iff by (metis append.assoc append_Cons append_Nil)
qed

lemma res_concat_in:
  assumes "res_concat rs = Inr xs" and "Inr ys \<in> set rs" and "y \<in> set ys"
  shows "y \<in> set xs"
  using assms by (induction rs arbitrary: xs) auto

text \<open>A report that is rendered names every target with its status and its runtime, whatever the
  optional sections hold, and ends with a newline.\<close>

lemma report_names_targets:
  assumes "render_human r = Inr out" and "t \<in> set (mr_targets r)"
  shows "contains (''['' @ tr_status t @ ''] '' @ tr_runtime_id t @ '' ::'') out \<and> last out = CHR 0x0A"
proof -
  let ?p = "''['' @ tr_status t @ ''] '' @ tr_runtime_id t @ '' :''"
  from assms(1) obtain lines where lines: "res_concat
       ([Inr [''PSMatrix Report'', ''Status: '' @ mr_status r, ''Targets: '' @ nat_str (length (mr_targets r)), ''''],
         matrix_lines (mr_matrix r), diagnostic_lines (mr_diagnostics r)]
        @ map target_lines (mr_targets r) @ [differential_lines (mr_differential r)]) = Inr lines"
    and out: "out = rstrip (join [CHR 0x0A] lines) @ [CHR 0x0A]"
    unfolding render_human_def res_bind_eq_Inr by blast
  from lines assms(2) obtain tl where tl: "target_lines t = Inr tl"
    using res_concat_Inr [OF lines, of "target_lines t"] by auto
  then have "target_heading t \<in> set tl"
    unfolding target_lines_def by (rule res_concat_in [where ys = "[target_heading t]"]) auto
  moreover have "Inr tl \<in> set (map target_lines (mr_targets r))" using tl assms(2) by force
  ultimately have "target_heading t \<in> set lines"
    using lines by (intro res_concat_in [OF lines, of tl]) auto
  moreover have "contains (?p @ '':'') (target_heading t)"
    unfolding contains_iff target_heading_def fmt_def by (intro exI [of _ "[]"] exI [of _ "'' '' @ tr_source t"]) simp
  ultimately have "contains (?p @ '':'') (join [CHR 0x0A] lines)" by (intro contains_join)
  then have "contains (?p @ '':'') (rstrip (join [CHR 0x0A] lines))"
    by (rule contains_rstrip) (simp add: is_space_def)
  then show ?thesis unfolding out by (auto dest: contains_append)
qed

definition sample_matrix_report :: matrix_report where
  "sample_matrix_report = \<lparr>mr_schema = 8, mr_tool_version = ''1'', mr_started_at = '''', mr_finished_at = '''',
     mr_status = ''PASS'', mr_targets = [sample_report ''7.4.1'' ''PASS''], mr_differential = [],
     mr_matrix = JObj [], mr_diagnostics = []\<rparr>"

lemma sample_rendered:
  "(case render_human sample_matrix_report of Inr _ \<Rightarrow> True | Inl _ \<Rightarrow> False)"
  by code_simp

theorem report_names_targets_witness:
  "\<exists>out. render_human sample_matrix_report = Inr out
     \<and> contains (''['' @ tr_status (sample_report ''7.4.1'' ''PASS'') @ ''] ''
         @ tr_runtime_id (sample_report ''7.4.1'' ''PASS'') @ '' ::'') out"
proof -
  obtain out where "render_human sample_matrix_report = Inr out"
    using sample_rendered by (auto split: sum.splits)
  moreover have "sample_report ''7.4.1'' ''PASS'' \<in> set (mr_targets sample_matrix_report)"
    by (simp add: sample_matrix_report_def)
  ultimately show ?thesis using report_names_targets by blast
qed

end
