(* ===== verification/Psm_Snapshot.thy ===== *)
theory Psm_Snapshot
  imports Complex_Main Psm_Acts Psm_Verifier Psm_Canon
begin

text \<open>
  Snapshot resets: the adapter configuration, measurement, restore and attestation check of
  \<open>snapshot_adapter.py\<close>, and the bounded retries \<open>retry_transient_operation\<close> and
  \<open>restore_snapshot_with_recovery\<close> of \<open>recovery.py\<close>. The hypervisor command (\<open>run_process\<close>), the
  signature (\<open>create_dsse_envelope\<close>, \<open>verify_dsse_envelope\<close>), SHA-256 and the clock are the
  machine; the state counts the events so far, so that a later run of a command or a later look at
  the clock may differ, and keeps the delays slept and, in order, what was done outside the
  process: the commands run and the requests to workers, each with the number of its event. A delay
  is the exact product of the policy's numbers.
\<close>

section \<open>The machine\<close>

record machine =
  m_H :: "string \<Rightarrow> string"
  m_clock :: "nat \<Rightarrow> instant"
  m_run :: "nat \<Rightarrow> string list \<Rightarrow> string list \<Rightarrow> int \<Rightarrow> execution_result res"
  m_sign :: "json \<Rightarrow> string \<Rightarrow> string \<Rightarrow> json res"
  m_check :: "json \<Rightarrow> string \<Rightarrow> json res"
  m_files :: node

record submission =
  sb_root :: "string list"
  sb_files :: "string list list"
  sb_entrypoint :: "string list"
  sb_options :: json

datatype action = Ran nat "string list" | Probed nat json | Submitted nat json submission

record world =
  w_events :: nat
  w_slept :: "rat list"
  w_trace :: "action list"

definition next_event :: "(world, nat) act" where
  "next_event = (\<lambda>w. (w\<lparr>w_events := Suc (w_events w)\<rparr>, Inr (w_events w)))"

definition clock_text :: "machine \<Rightarrow> (world, json) act" where
  "clock_text m = act_bind next_event (\<lambda>n. act_return (JStr (iso (m_clock m n))))"

definition log_action :: "action \<Rightarrow> (world, unit) act" where
  "log_action a = (\<lambda>w. (w\<lparr>w_trace := w_trace w @ [a]\<rparr>, Inr ()))"

definition sleep :: "rat \<Rightarrow> (world, unit) act" where
  "sleep d = (\<lambda>w. (w\<lparr>w_slept := w_slept w @ [d]\<rparr>, Inr ()))"

section \<open>Configuration\<close>

record snapshot_config =
  sc_adapter_id :: string
  sc_provider :: string
  sc_worker_id :: string
  sc_vm_id :: string
  sc_snapshot_id :: string
  sc_restore_command :: "string list"
  sc_measure_command :: "string list"
  sc_cwd :: "string list"
  sc_expected_after :: "(json \<times> json) list"
  sc_timeout_seconds :: int

definition allowed_providers :: "string list" where
  "allowed_providers = [''hyper-v'', ''vmware'', ''virtualbox'', ''command-test'']"

definition check_command :: "string \<Rightarrow> json \<Rightarrow> string list res" where
  "check_command label value =
     (if \<not> is_list value \<or> list_items value = [] \<or> 128 < length (list_items value)
      then throw SnapshotError (label @ '' must be a non-empty argument array'')
      else res_map (\<lambda>item. let t = py_str item in
          if t = [] \<or> 4096 < length t \<or> CHR 0x00 \<in> set t
          then throw SnapshotError (label @ '' contains an invalid argument'') else Inr t)
        (list_items value))"

text \<open>\<open>dict(v)\<close>: of a dict, or of an iterable of pairs, where a later key overrides an earlier one\<close>

definition dict_pair :: "json \<Rightarrow> (json \<times> json) res" where
  "dict_pair v = (case v of
     JArr [k, x] \<Rightarrow> if is_list k \<or> is_dict k then throw TypeError ''unhashable type'' else Inr (k, x)
   | JArr xs \<Rightarrow> throw ValueError ''dictionary update sequence element has the wrong length''
   | JObj [(k, x), (k', x')] \<Rightarrow> Inr (JStr k, JStr k')
   | JObj kvs \<Rightarrow> throw ValueError ''dictionary update sequence element has the wrong length''
   | JStr [c, d] \<Rightarrow> Inr (JStr [c], JStr [d])
   | JStr s \<Rightarrow> throw ValueError ''dictionary update sequence element has the wrong length''
   | _ \<Rightarrow> throw TypeError ''cannot convert dictionary update sequence element to a sequence'')"

definition py_dict :: "json \<Rightarrow> (json \<times> json) list res" where
  "py_dict v = (case v of
     JObj kvs \<Rightarrow> Inr (map (\<lambda>(k, x). (JStr k, x)) kvs)
   | JArr xs \<Rightarrow> res_bind (res_map dict_pair xs) (\<lambda>ps. Inr (foldl (\<lambda>d (k, x). AList.update k x d) [] ps))
   | JStr s \<Rightarrow> throw ValueError ''dictionary update sequence element has the wrong length''
   | _ \<Rightarrow> throw TypeError ''object is not iterable'')"

definition expected_entry_ok :: "json \<times> json \<Rightarrow> unit res" where
  "expected_entry_ok = (\<lambda>(path, expected).
     if \<not> is_str path \<or> py_str path = [] \<or> 256 < length (py_str path)
        \<or> list_ex (\<lambda>part. part = []) (split_on (CHR ''.'') (py_str path))
     then throw SnapshotError ''Snapshot expected_after path is invalid''
     else if is_dict expected \<or> is_list expected \<or> 4096 < length (py_str expected)
     then throw SnapshotError ''Snapshot expected_after value is invalid''
     else Inr ())"

text \<open>\<open>cwd.mkdir(parents=True, exist_ok=True)\<close> raises when something other than a folder is in the way;
  the folder it creates is not read again by the code of this model.\<close>

definition make_dirs :: "node \<Rightarrow> string list \<Rightarrow> unit res" where
  "make_dirs fs p =
     (if list_ex (\<lambda>n. path_exists fs (take n p) \<and> \<not> is_dir fs (take n p)) [0..<Suc (length p)]
      then os_error ''[Errno 17] File exists'' p else Inr ())"

definition validate_snapshot_config :: "node \<Rightarrow> snapshot_config \<Rightarrow> unit res" where
  "validate_snapshot_config fs c =
     (if sc_adapter_id c = [] \<or> 128 < length (sc_adapter_id c)
      then throw SnapshotError ''Snapshot adapter identity is invalid''
      else if sc_provider c \<notin> set allowed_providers then throw SnapshotError ''Unsupported snapshot provider''
      else if list_ex (\<lambda>v. v = [] \<or> 256 < length v \<or> CHR 0x00 \<in> set v) [sc_worker_id c, sc_vm_id c, sc_snapshot_id c]
      then throw SnapshotError ''Snapshot identity value is invalid''
      else if \<not> (10 \<le> sc_timeout_seconds c \<and> sc_timeout_seconds c \<le> 3600)
      then throw SnapshotError ''Snapshot timeout is outside the supported range''
      else if 64 < length (sc_expected_after c)
      then throw SnapshotError ''Snapshot expected_after mapping is invalid''
      else res_bind (res_map expected_entry_ok (sc_expected_after c)) (\<lambda>_. make_dirs fs (sc_cwd c)))"

definition load_snapshot_config :: "node \<Rightarrow> string list \<Rightarrow> snapshot_config res" where
  "load_snapshot_config fs path =
     res_bind (resolve fs path) (\<lambda>config_path.
     res_bind (read_json fs config_path) (\<lambda>value.
     if \<not> is_dict value \<or> \<not> eq_int (get_none ''schema'' value) 1
     then throw SnapshotError ''Unsupported snapshot adapter configuration''
     else
       let field = (\<lambda>k. text_field k value);
           cwd_raw = py_str (py_or (get_none ''cwd'' value) (JStr ''.'')) in
       res_bind (check_command ''restore_command'' (get_none ''restore_command'' value)) (\<lambda>restore.
       res_bind (check_command ''measure_command'' (get_none ''measure_command'' value)) (\<lambda>measure.
       res_bind (resolve fs (path_join (butlast config_path) cwd_raw)) (\<lambda>cwd.
       res_bind (py_dict (py_or (get_none ''expected_after'' value) (JObj []))) (\<lambda>expected.
       res_bind (py_int (py_or (get_none ''timeout_seconds'' value) (JInt 600))) (\<lambda>timeout.
       let c = \<lparr>sc_adapter_id = field ''adapter_id'', sc_provider = field ''provider'',
             sc_worker_id = field ''worker_id'', sc_vm_id = field ''vm_id'',
             sc_snapshot_id = field ''snapshot_id'', sc_restore_command = restore,
             sc_measure_command = measure, sc_cwd = cwd, sc_expected_after = expected,
             sc_timeout_seconds = timeout\<rparr>
       in res_bind (validate_snapshot_config fs c) (\<lambda>_. Inr c))))))))"

definition replace_tokens :: "(string \<times> string) list \<Rightarrow> string \<Rightarrow> string" where
  "replace_tokens tokens t = foldl (\<lambda>s (token, replacement). replace_all token replacement s) t tokens"

definition config_tokens :: "snapshot_config \<Rightarrow> (string \<times> string) list" where
  "config_tokens c = [(''{worker_id}'', sc_worker_id c), (''{vm_id}'', sc_vm_id c), (''{snapshot_id}'', sc_snapshot_id c)]"

definition expand_command :: "snapshot_config \<Rightarrow> string list \<Rightarrow> string \<Rightarrow> string list" where
  "expand_command c command phase = map (replace_tokens (config_tokens c @ [(''{phase}'', phase)])) command"

definition expand_expected :: "snapshot_config \<Rightarrow> (string \<times> json) list" where
  "expand_expected c = map (\<lambda>(path, expected). (py_str path,
     case expected of JStr s \<Rightarrow> JStr (replace_tokens (config_tokens c) s) | _ \<Rightarrow> expected)) (sc_expected_after c)"


section \<open>Measuring and restoring\<close>

fun lookup_measured :: "string \<Rightarrow> json \<Rightarrow> string list \<Rightarrow> json res" where
  "lookup_measured path current [] = Inr current"
| "lookup_measured path current (part # parts) =
     (case jget part current of
        None \<Rightarrow> throw SnapshotError (''Snapshot measurement is missing expected field: '' @ path)
      | Some x \<Rightarrow> lookup_measured path x parts)"

definition run_command :: "machine \<Rightarrow> string list \<Rightarrow> string list \<Rightarrow> int \<Rightarrow> (world, execution_result) act" where
  "run_command m command cwd timeout =
     act_bind next_event (\<lambda>n. act_bind (log_action (Ran n command)) (\<lambda>_.
     act_bind (act_res (m_run m n command cwd timeout)) (\<lambda>x.
       if ex_timed_out x
       then act_raise SnapshotError (''Snapshot command timed out after '' @ int_str timeout @ '' seconds'')
       else (case ex_resource_violation x of
           Some v \<Rightarrow> act_raise SnapshotError (''Snapshot command violated execution bounds: '' @ v)
         | None \<Rightarrow> act_return x))))"

definition digest_text :: "machine \<Rightarrow> string \<Rightarrow> json" where
  "digest_text m s = JObj [(''sha256'', JStr (m_H m (utf8 s))), (''bytes'', JInt (int (length (utf8 s))))]"

text \<open>\<open>text.splitlines()[-1]\<close> of a stripped text\<close>

definition line_break :: "char \<Rightarrow> bool" where
  "line_break c \<longleftrightarrow> (of_char c :: nat) \<in> {10, 11, 12, 13, 28, 29, 30, 133}"

definition last_line :: "string \<Rightarrow> string" where
  "last_line s = rev (takeWhile (\<lambda>c. \<not> line_break c) (rev s))"

definition measured_value :: "machine \<Rightarrow> string \<Rightarrow> json res" where
  "measured_value m out =
     (let raw = strip_space out;
          value = (if raw = [] then JObj [] else case loads (last_line raw) of
              Some v \<Rightarrow> v | None \<Rightarrow> JObj [(''raw_sha256'', JStr (m_H m (utf8 raw)))])
      in if is_dict value then Inr value
         else throw SnapshotError ''Snapshot measurement must produce a JSON object'')"

definition exit_text :: "int option \<Rightarrow> string" where
  "exit_text x = (case x of None \<Rightarrow> ''None'' | Some i \<Rightarrow> int_str i)"

definition measurement :: "machine \<Rightarrow> string list \<Rightarrow> json \<Rightarrow> execution_result \<Rightarrow> json" where
  "measurement m command value x = JObj
     [(''command_sha256'', JStr (m_H m (canonical_json_bytes (JArr (map JStr command))))),
      (''value'', value), (''stdout'', digest_text m (ex_stdout x)),
      (''stderr'', digest_text m (ex_stderr x))]"

definition measure_snapshot :: "machine \<Rightarrow> snapshot_config \<Rightarrow> string \<Rightarrow> (world, json) act" where
  "measure_snapshot m c phase =
     (let command = expand_command c (sc_measure_command c) phase in
      act_bind (run_command m command (sc_cwd c) (min (sc_timeout_seconds c) 120)) (\<lambda>x.
      if ex_exit_code x \<noteq> Some 0
      then act_raise SnapshotError (''Snapshot measurement failed with exit code '' @ exit_text (ex_exit_code x)
        @ ''; command output was withheld'')
      else act_bind (act_res (measured_value m (ex_stdout x))) (\<lambda>value.
        act_return (measurement m command value x))))"

text \<open>The loop over the expected values; it stops at the first that is missing or different.\<close>

fun check_expected :: "json \<Rightarrow> (string \<times> json) list \<Rightarrow> unit res" where
  "check_expected measured [] = Inr ()"
| "check_expected measured ((path, wanted) # rest) =
     res_bind (lookup_measured path measured (split_on (CHR ''.'') path)) (\<lambda>actual.
       if \<not> py_eq actual wanted
       then throw SnapshotError (''Snapshot measurement mismatch for '' @ path @ '': expected '' @ py_repr wanted
         @ '', got '' @ py_repr actual)
       else check_expected measured rest)"

definition snapshot_type :: string where
  "snapshot_type = ''https://psmatrix.dev/attestation/snapshot-reset/v1''"

definition snapshot_statement ::
    "machine \<Rightarrow> snapshot_config \<Rightarrow> string \<Rightarrow> json \<Rightarrow> json \<Rightarrow> string list \<Rightarrow> execution_result \<Rightarrow> json \<Rightarrow> json \<Rightarrow> json" where
  "snapshot_statement m c phase started finished command x before after = JObj
     [(''_type'', JStr ''https://in-toto.io/Statement/v1''),
      (''subject'', JArr [JObj [(''name'', JStr (sc_vm_id c)),
         (''digest'', JObj [(''sha256'', JStr (m_H m (utf8 (sc_vm_id c))))])]]),
      (''predicateType'', JStr snapshot_type),
      (''predicate'', JObj
        [(''schema'', JInt 1), (''adapter_id'', JStr (sc_adapter_id c)), (''provider'', JStr (sc_provider c)),
         (''worker_id'', JStr (sc_worker_id c)), (''vm_id'', JStr (sc_vm_id c)),
         (''snapshot_id'', JStr (sc_snapshot_id c)), (''phase'', JStr phase), (''started_at'', started),
         (''finished_at'', finished),
         (''restore_command_sha256'', JStr (m_H m (canonical_json_bytes (JArr (map JStr command))))),
         (''restore_stdout'', digest_text m (ex_stdout x)), (''restore_stderr'', digest_text m (ex_stderr x)),
         (''measurement_before'', before), (''measurement_after'', after),
         (''expected_after'', JObj (expand_expected c)), (''passed'', JBool True)])]"

definition restore_snapshot :: "machine \<Rightarrow> snapshot_config \<Rightarrow> string \<Rightarrow> string \<Rightarrow> string \<Rightarrow> (world, json) act" where
  "restore_snapshot m c phase private_key public_key =
     (if phase \<notin> {''before'', ''after'', ''maintenance''}
      then act_raise SnapshotError ''Snapshot restore phase is invalid''
      else
        act_bind (clock_text m) (\<lambda>started.
        act_bind (measure_snapshot m c (phase @ ''-pre'')) (\<lambda>before.
        let command = expand_command c (sc_restore_command c) phase in
        act_bind (run_command m command (sc_cwd c) (sc_timeout_seconds c)) (\<lambda>x.
        if ex_exit_code x \<noteq> Some 0
        then act_raise SnapshotError (''Snapshot restore failed with exit code '' @ exit_text (ex_exit_code x)
          @ ''; command output was withheld'')
        else
          act_bind (measure_snapshot m c (phase @ ''-post'')) (\<lambda>after.
          act_bind (act_res (check_expected (get_none ''value'' after) (expand_expected c))) (\<lambda>_.
          act_bind (clock_text m) (\<lambda>finished.
            act_res (m_sign m (snapshot_statement m c phase started finished command x before after)
              private_key public_key))))))))"

definition verify_snapshot_attestation :: "machine \<Rightarrow> json \<Rightarrow> string \<Rightarrow> string \<Rightarrow> string \<Rightarrow> string \<Rightarrow> string \<Rightarrow> json res" where
  "verify_snapshot_attestation m envelope public_key worker_id vm_id snapshot_id phase =
     res_bind (m_check m envelope public_key) (\<lambda>verified.
     res_bind (jitem ''statement'' verified) (\<lambda>statement.
     res_bind (dget ''predicateType'' JNull statement) (\<lambda>kind.
     if kind \<noteq> JStr snapshot_type then throw SnapshotError ''Unsupported snapshot attestation predicate''
     else
       let predicate = (if is_dict (get_none ''predicate'' statement) then get_none ''predicate'' statement else JObj []) in
       if list_ex (\<lambda>(k, v). get_none k predicate \<noteq> JStr v)
            [(''worker_id'', worker_id), (''vm_id'', vm_id), (''snapshot_id'', snapshot_id), (''phase'', phase)]
          \<or> \<not> is_true (get_none ''passed'' predicate)
       then throw SnapshotError ''Snapshot attestation does not match the requested reset''
       else res_bind (jitem ''key_ids'' verified) (\<lambda>key_ids.
         Inr (JObj [(''valid'', JBool True), (''key_ids'', key_ids), (''predicate'', predicate)])))))"


section \<open>Retries\<close>

record retry_policy =
  rp_attempts :: int
  rp_initial :: rat
  rp_multiplier :: rat
  rp_max :: rat

definition policy_ok :: "retry_policy \<Rightarrow> bool" where
  "policy_ok p \<longleftrightarrow> 1 \<le> rp_attempts p \<and> rp_attempts p \<le> 10 \<and> 0 \<le> rp_initial p \<and> rp_initial p \<le> 30
     \<and> 1 \<le> rp_multiplier p \<and> rp_multiplier p \<le> 10 \<and> 0 \<le> rp_max p \<and> rp_max p \<le> 60"

definition next_delay :: "retry_policy \<Rightarrow> rat \<Rightarrow> rat" where
  "next_delay p delay = min (rp_max p) (delay * rp_multiplier p)"

definition passed_entry :: "int \<Rightarrow> json \<Rightarrow> json \<Rightarrow> json" where
  "passed_entry number started finished = JObj
     [(''attempt'', JInt number), (''started_at'', started), (''finished_at'', finished), (''passed'', JBool True)]"

definition failed_entry :: "machine \<Rightarrow> int \<Rightarrow> json \<Rightarrow> json \<Rightarrow> (string \<times> json) list \<Rightarrow> exn \<Rightarrow> json" where
  "failed_entry m number started finished extra e = JObj
     ([(''attempt'', JInt number), (''started_at'', started), (''finished_at'', finished), (''passed'', JBool False)]
      @ extra @ [(''error_type'', JStr (exn_name e)), (''error_sha256'', JStr (m_H m (utf8 (exn_str e))))])"

text \<open>One attempt: the operation between two looks at the clock, its outcome as a value\<close>

definition attempt :: "machine \<Rightarrow> (world, 'a) act \<Rightarrow> (world, json \<times> 'a res \<times> json) act" where
  "attempt m op = act_bind (clock_text m) (\<lambda>started. act_bind (act_catch op) (\<lambda>r.
     act_bind (clock_text m) (\<lambda>finished. act_return (started, r, finished))))"

fun retry_loop ::
    "machine \<Rightarrow> (world, 'a) act \<Rightarrow> (exn \<Rightarrow> bool) option \<Rightarrow> retry_policy \<Rightarrow> nat \<Rightarrow> int \<Rightarrow> rat \<Rightarrow> json list
      \<Rightarrow> (world, json list \<times> 'a) act" where
  "retry_loop m op retry_if p 0 number delay history =
     act_raise RecoveryError ''Transient retry reached an impossible state''"
| "retry_loop m op retry_if p (Suc n) number delay history =
     act_bind (attempt m op) (\<lambda>(started, r, finished). case r of
       Inr v \<Rightarrow> act_return (history @ [passed_entry number started finished], v)
     | Inl e \<Rightarrow>
         (let retryable = (case retry_if of None \<Rightarrow> True | Some f \<Rightarrow> f e);
              history' = history @ [failed_entry m number started finished [(''retryable'', JBool retryable)] e]
          in if \<not> retryable \<or> rp_attempts p \<le> number
             then act_raise RecoveryError (''Transient operation failed after '' @ int_str number
               @ '' attempt(s): '' @ exn_name e)
             else act_bind (sleep delay) (\<lambda>_.
               retry_loop m op retry_if p n (number + 1) (next_delay p delay) history')))"

definition retry_transient_operation ::
    "machine \<Rightarrow> (world, 'a) act \<Rightarrow> retry_policy \<Rightarrow> (exn \<Rightarrow> bool) option \<Rightarrow> (world, json list \<times> 'a) act" where
  "retry_transient_operation m op p retry_if =
     (if \<not> policy_ok p then act_raise RecoveryError ''Transient retry policy is invalid''
      else retry_loop m op retry_if p (nat (rp_attempts p)) 1 (rp_initial p) [])"

definition reset_attempt :: "machine \<Rightarrow> snapshot_config \<Rightarrow> string \<Rightarrow> string \<Rightarrow> string \<Rightarrow> (world, json \<times> json) act" where
  "reset_attempt m c phase private_key public_key =
     act_bind (restore_snapshot m c phase private_key public_key) (\<lambda>envelope.
     act_bind (act_res (verify_snapshot_attestation m envelope public_key
       (sc_worker_id c) (sc_vm_id c) (sc_snapshot_id c) phase)) (\<lambda>verification.
       act_return (envelope, verification)))"

fun restore_loop ::
    "machine \<Rightarrow> (world, 'a) act \<Rightarrow> retry_policy \<Rightarrow> nat \<Rightarrow> int \<Rightarrow> rat \<Rightarrow> json list
      \<Rightarrow> (world, json list \<times> 'a) act" where
  "restore_loop m op p 0 number delay attempts =
     act_raise RecoveryError ''Snapshot recovery reached an impossible state''"
| "restore_loop m op p (Suc n) number delay attempts =
     act_bind (attempt m op) (\<lambda>(started, r, finished). case r of
       Inr v \<Rightarrow> act_return (attempts @ [passed_entry number started finished], v)
     | Inl e \<Rightarrow>
         (if rp_attempts p \<le> number
          then act_raise RecoveryError (''Snapshot recovery exhausted '' @ int_str (rp_attempts p)
            @ '' attempts: '' @ exn_str e)
          else act_bind (sleep delay) (\<lambda>_.
            restore_loop m op p n (number + 1) (next_delay p delay)
              (attempts @ [failed_entry m number started finished [] e]))))"

definition restore_snapshot_with_recovery ::
    "machine \<Rightarrow> snapshot_config \<Rightarrow> string \<Rightarrow> string \<Rightarrow> string \<Rightarrow> retry_policy
      \<Rightarrow> (world, json list \<times> json \<times> json) act" where
  "restore_snapshot_with_recovery m c phase private_key public_key p =
     (if \<not> policy_ok p then act_raise RecoveryError ''Snapshot recovery policy is invalid''
      else restore_loop m (reset_attempt m c phase private_key public_key) p (nat (rp_attempts p)) 1
        (rp_initial p) [])"

section \<open>What the retries do\<close>

text \<open>The world in which attempt \<open>k\<close> starts, when all attempts before it failed\<close>

primrec before_try :: "machine \<Rightarrow> (world, 'a) act \<Rightarrow> retry_policy \<Rightarrow> rat \<Rightarrow> nat \<Rightarrow> world \<Rightarrow> world" where
  "before_try m op p delay 0 w = w"
| "before_try m op p delay (Suc k) w =
     before_try m op p (next_delay p delay) k (fst (sleep delay (fst (attempt m op w))))"

definition try_result :: "machine \<Rightarrow> (world, 'a) act \<Rightarrow> world \<Rightarrow> 'a res" where
  "try_result m op w = snd (op (fst (clock_text m w)))"

lemma attempt_eq: "\<exists>started finished. attempt m op w = (fst (attempt m op w), Inr (started, try_result m op w, finished))"
  by (auto simp: attempt_def act_bind_def act_catch_def clock_text_def next_event_def try_result_def
      split: prod.split)

lemma bind_sleep: "act_bind (sleep d) k w = k () (fst (sleep d w))"
  by (simp add: act_bind_def sleep_def)

definition gives_up :: "(exn \<Rightarrow> bool) option \<Rightarrow> exn \<Rightarrow> bool" where
  "gives_up retry_if e \<longleftrightarrow> (case retry_if of None \<Rightarrow> False | Some f \<Rightarrow> \<not> f e)"


text \<open>Attempt \<open>k\<close> is the last: all before it failed and allowed another try.\<close>

definition fails_until ::
    "machine \<Rightarrow> (world, 'a) act \<Rightarrow> (exn \<Rightarrow> bool) option \<Rightarrow> retry_policy \<Rightarrow> rat \<Rightarrow> nat \<Rightarrow> world \<Rightarrow> bool" where
  "fails_until m op retry_if p delay k w \<longleftrightarrow> list_all (\<lambda>i. case try_result m op (before_try m op p delay i w) of
     Inl e \<Rightarrow> \<not> gives_up retry_if e | Inr _ \<Rightarrow> False) [0..<k]"

lemma fails_until_0 [simp]: "fails_until m op retry_if p delay 0 w"
  by (simp add: fails_until_def)

lemma fails_until_Suc:
  assumes "try_result m op w = Inl e" "\<not> gives_up retry_if e"
    "fails_until m op retry_if p (next_delay p delay) k (fst (sleep delay (fst (attempt m op w))))"
  shows "fails_until m op retry_if p delay (Suc k) w"
  using assms unfolding fails_until_def upt_conv_Cons [OF zero_less_Suc] map_Suc_upt [symmetric]
  by (simp add: list.pred_map comp_def)

lemma retry_loop_result:
  assumes "int n + number = rp_attempts p + 1" "0 < n"
  shows "\<exists>k < n. fails_until m op retry_if p delay k w \<and>
    (case try_result m op (before_try m op p delay k w) of
       Inr v \<Rightarrow> \<exists>h. snd (retry_loop m op retry_if p n number delay history w) = Inr (history @ h, v) \<and> length h = Suc k
     | Inl e \<Rightarrow> (gives_up retry_if e \<or> Suc k = n) \<and>
         snd (retry_loop m op retry_if p n number delay history w) = throw RecoveryError
           (''Transient operation failed after '' @ int_str (number + int k) @ '' attempt(s): '' @ exn_name e))"
  using assms
proof (induction n arbitrary: number delay history w)
  case (Suc n)
  obtain started finished where a: "attempt m op w = (fst (attempt m op w), Inr (started, try_result m op w, finished))"
    using attempt_eq by blast
  note step = act_bind_Inr [where m = "attempt m op", OF a]
  show ?case
  proof (cases "try_result m op w")
    case (Inr v)
    then show ?thesis by (intro exI [of _ 0]) (simp add: step)
  next
    case (Inl e)
    show ?thesis
    proof (cases "gives_up retry_if e \<or> n = 0")
      case True
      then have "(\<not> (case retry_if of None \<Rightarrow> True | Some f \<Rightarrow> f e)) \<or> rp_attempts p \<le> number"
        using Suc.prems by (auto simp: gives_up_def split: option.splits)
      then show ?thesis using Inl True by (intro exI [of _ 0]) (simp add: step Let_def)
    next
      case False
      then have nr: "\<not> (\<not> (case retry_if of None \<Rightarrow> True | Some f \<Rightarrow> f e) \<or> rp_attempts p \<le> number)"
        using Suc.prems by (auto simp: gives_up_def split: option.splits)
      let ?w = "fst (sleep delay (fst (attempt m op w)))"
      let ?h = "history @ [failed_entry m number started finished
        [(''retryable'', JBool (case retry_if of None \<Rightarrow> True | Some f \<Rightarrow> f e))] e]"
      have loop: "retry_loop m op retry_if p (Suc n) number delay history w =
          retry_loop m op retry_if p n (number + 1) (next_delay p delay) ?h ?w"
        using nr by (simp add: step Inl Let_def bind_sleep)
      from Suc.IH [of "number + 1" "next_delay p delay" ?w ?h] False Suc.prems obtain k where
        k: "k < n" "fails_until m op retry_if p (next_delay p delay) k ?w"
          "case try_result m op (before_try m op p (next_delay p delay) k ?w) of
             Inr v \<Rightarrow> \<exists>h. snd (retry_loop m op retry_if p n (number + 1) (next_delay p delay) ?h ?w) = Inr (?h @ h, v)
               \<and> length h = Suc k
           | Inl e \<Rightarrow> (gives_up retry_if e \<or> Suc k = n) \<and>
               snd (retry_loop m op retry_if p n (number + 1) (next_delay p delay) ?h ?w) = throw RecoveryError
               (''Transient operation failed after '' @ int_str (number + 1 + int k) @ '' attempt(s): '' @ exn_name e)"
        by auto
      have "fails_until m op retry_if p delay (Suc k) w"
        using False k(2) by (intro fails_until_Suc [OF Inl]) simp_all
      then show ?thesis using k(1,3) unfolding loop
        by (intro exI [of _ "Suc k"]) (auto simp: add.assoc split: sum.split_asm)
    qed
  qed
qed simp


lemma restore_loop_value:
  assumes "snd (restore_loop m op p n number delay attempts w) = Inr (attempts', v)"
  shows "\<exists>k < n. fails_until m op None p delay k w \<and> try_result m op (before_try m op p delay k w) = Inr v
    \<and> length attempts' = length attempts + Suc k"
  using assms
proof (induction n arbitrary: number delay attempts w)
  case (Suc n)
  obtain started finished where a: "attempt m op w = (fst (attempt m op w), Inr (started, try_result m op w, finished))"
    using attempt_eq by blast
  note step = act_bind_Inr [where m = "attempt m op", OF a]
  show ?case
  proof (cases "try_result m op w")
    case (Inr x)
    with Suc.prems show ?thesis by (intro exI [of _ 0]) (auto simp: step)
  next
    case (Inl e)
    let ?w = "fst (sleep delay (fst (attempt m op w)))"
    from Suc.prems Inl have "snd (restore_loop m op p n (number + 1) (next_delay p delay)
        (attempts @ [failed_entry m number started finished [] e]) ?w) = Inr (attempts', v)"
      by (auto simp: step bind_sleep split: if_splits)
    from Suc.IH [OF this] obtain k where k: "k < n" "fails_until m op None p (next_delay p delay) k ?w"
      "try_result m op (before_try m op p (next_delay p delay) k ?w) = Inr v"
      "length attempts' = length attempts + Suc (Suc k)" by auto
    then show ?thesis
      using fails_until_Suc [OF Inl, of None] by (intro exI [of _ "Suc k"]) (auto simp: gives_up_def)
  qed
qed simp

lemma check_expected_all:
  "check_expected v es = Inr () \<Longrightarrow> list_all (\<lambda>(path, wanted). \<exists>actual.
     lookup_measured path v (split_on (CHR ''.'') path) = Inr actual \<and> py_eq actual wanted) es"
  by (induction v es rule: check_expected.induct) (auto split: if_splits)

section \<open>What a reset does outside the process\<close>

definition command_passed :: "execution_result \<Rightarrow> bool" where
  "command_passed x \<longleftrightarrow> ex_exit_code x = Some 0 \<and> \<not> ex_timed_out x \<and> ex_resource_violation x = None"

definition shows_expected :: "snapshot_config \<Rightarrow> json \<Rightarrow> bool" where
  "shows_expected c v \<longleftrightarrow> list_all (\<lambda>(path, wanted). case lookup_measured path v (split_on (CHR ''.'') path) of
     Inr actual \<Rightarrow> py_eq actual wanted | Inl _ \<Rightarrow> False) (expand_expected c)"

text \<open>The commands of a reset whose first look at the clock is event \<open>n\<close>: a measurement, the restore and
  a measurement, in this order\<close>

definition reset_trace :: "snapshot_config \<Rightarrow> string \<Rightarrow> nat \<Rightarrow> action list" where
  "reset_trace c phase n =
     [Ran (n + 1) (expand_command c (sc_measure_command c) (phase @ ''-pre'')),
      Ran (n + 2) (expand_command c (sc_restore_command c) phase),
      Ran (n + 3) (expand_command c (sc_measure_command c) (phase @ ''-post''))]"

text \<open>What the machine answered to these three commands proves the reset, and the signed statement holds
  these answers: the measurement called \<open>after\<close> is that of the command after the restore.\<close>

definition proved_reset :: "machine \<Rightarrow> snapshot_config \<Rightarrow> string \<Rightarrow> string \<Rightarrow> string \<Rightarrow> nat \<Rightarrow> json \<Rightarrow> bool" where
  "proved_reset m c phase private_key public_key n envelope \<longleftrightarrow> (\<exists>xb x xa vb va.
     let pre = expand_command c (sc_measure_command c) (phase @ ''-pre'');
         command = expand_command c (sc_restore_command c) phase;
         post = expand_command c (sc_measure_command c) (phase @ ''-post'') in
     m_run m (n + 1) pre (sc_cwd c) (min (sc_timeout_seconds c) 120) = Inr xb
     \<and> m_run m (n + 2) command (sc_cwd c) (sc_timeout_seconds c) = Inr x
     \<and> m_run m (n + 3) post (sc_cwd c) (min (sc_timeout_seconds c) 120) = Inr xa
     \<and> command_passed xb \<and> command_passed x \<and> command_passed xa
     \<and> measured_value m (ex_stdout xb) = Inr vb \<and> measured_value m (ex_stdout xa) = Inr va
     \<and> shows_expected c va
     \<and> m_sign m (snapshot_statement m c phase (JStr (iso (m_clock m n))) (JStr (iso (m_clock m (n + 4)))) command x
          (measurement m pre vb xb) (measurement m post va xa)) private_key public_key = Inr envelope)"

lemma run_command_result:
  "run_command m command cwd timeout w = (w', r) \<longleftrightarrow>
     w' = w\<lparr>w_events := Suc (w_events w), w_trace := w_trace w @ [Ran (w_events w) command]\<rparr>
     \<and> r = res_bind (m_run m (w_events w) command cwd timeout) (\<lambda>x.
         if ex_timed_out x then throw SnapshotError (''Snapshot command timed out after '' @ int_str timeout @ '' seconds'')
         else case ex_resource_violation x of
           Some v \<Rightarrow> throw SnapshotError (''Snapshot command violated execution bounds: '' @ v) | None \<Rightarrow> Inr x)"
  by (auto simp: run_command_def next_event_def log_action_def act_bind_def split: sum.split option.split)

lemma run_command_passed:
  assumes "run_command m command cwd timeout w = (w', Inr x)" "ex_exit_code x = Some 0"
  shows "m_run m (w_events w) command cwd timeout = Inr x" "command_passed x"
    "w' = w\<lparr>w_events := Suc (w_events w), w_trace := w_trace w @ [Ran (w_events w) command]\<rparr>"
  using assms unfolding run_command_result command_passed_def
  by (auto simp: res_bind_def split: sum.splits if_splits option.splits)

lemma measure_result:
  assumes "measure_snapshot m c phase w = (w', Inr v)"
  obtains x y where
    "m_run m (w_events w) (expand_command c (sc_measure_command c) phase) (sc_cwd c) (min (sc_timeout_seconds c) 120) = Inr x"
    "command_passed x" "measured_value m (ex_stdout x) = Inr y"
    "v = measurement m (expand_command c (sc_measure_command c) phase) y x"
    "w' = w\<lparr>w_events := Suc (w_events w),
       w_trace := w_trace w @ [Ran (w_events w) (expand_command c (sc_measure_command c) phase)]\<rparr>"
proof -
  let ?cmd = "expand_command c (sc_measure_command c) phase"
  from assms obtain x y where r: "run_command m ?cmd (sc_cwd c) (min (sc_timeout_seconds c) 120) w = (w', Inr x)"
    and x: "ex_exit_code x = Some 0" and v: "measured_value m (ex_stdout x) = Inr y" "v = measurement m ?cmd y x"
    unfolding measure_snapshot_def Let_def by (auto simp: act_bind_result split: if_split_asm)
  from run_command_passed [OF r x] v show ?thesis by (auto intro: that)
qed

lemma check_expected_shows: "check_expected v (expand_expected c) = Inr () \<Longrightarrow> shows_expected c v"
  unfolding shows_expected_def using check_expected_all [of v "expand_expected c"]
  by (auto simp: list_all_iff split: sum.split)

lemma restore_snapshot_run:
  assumes "restore_snapshot m c phase private_key public_key w = (w', Inr envelope)"
  shows "proved_reset m c phase private_key public_key (w_events w) envelope"
    "w' = w\<lparr>w_events := w_events w + 5, w_trace := w_trace w @ reset_trace c phase (w_events w)\<rparr>"
proof -
  let ?n = "w_events w" and ?command = "expand_command c (sc_restore_command c) phase"
  from assms obtain w1 before x w2 after w3 where
    pre: "measure_snapshot m c (phase @ ''-pre'') (w\<lparr>w_events := Suc ?n\<rparr>) = (w1, Inr before)"
    and run: "run_command m ?command (sc_cwd c) (sc_timeout_seconds c) w1 = (w2, Inr x)" "ex_exit_code x = Some 0"
    and post: "measure_snapshot m c (phase @ ''-post'') w2 = (w3, Inr after)"
    and check: "check_expected (get_none ''value'' after) (expand_expected c) = Inr ()"
    and fin: "w' = w3\<lparr>w_events := Suc (w_events w3)\<rparr>"
    and sign: "m_sign m (snapshot_statement m c phase (JStr (iso (m_clock m ?n)))
      (JStr (iso (m_clock m (w_events w3)))) ?command x before after) private_key public_key = Inr envelope"
    unfolding restore_snapshot_def
    by (auto simp: act_bind_result Let_def clock_text_def next_event_def split: if_split_asm)
  note run = run_command_passed [OF run]
  from pre obtain xb vb where b: "m_run m (?n + 1) (expand_command c (sc_measure_command c) (phase @ ''-pre''))
        (sc_cwd c) (min (sc_timeout_seconds c) 120) = Inr xb"
    "command_passed xb" "measured_value m (ex_stdout xb) = Inr vb"
    "before = measurement m (expand_command c (sc_measure_command c) (phase @ ''-pre'')) vb xb"
    and w1: "w1 = w\<lparr>w_events := ?n + 2, w_trace := w_trace w
      @ [Ran (?n + 1) (expand_command c (sc_measure_command c) (phase @ ''-pre''))]\<rparr>"
    by (elim measure_result) (simp add: eval_nat_numeral)
  from post obtain xa va where a: "m_run m (?n + 3) (expand_command c (sc_measure_command c) (phase @ ''-post''))
        (sc_cwd c) (min (sc_timeout_seconds c) 120) = Inr xa"
    "command_passed xa" "measured_value m (ex_stdout xa) = Inr va"
    "after = measurement m (expand_command c (sc_measure_command c) (phase @ ''-post'')) va xa"
    and w3: "w3 = w\<lparr>w_events := ?n + 4, w_trace := w_trace w @ reset_trace c phase ?n\<rparr>"
    by (elim measure_result) (simp add: run(3) w1 reset_trace_def eval_nat_numeral)
  have "get_none ''value'' after = va" by (simp add: a(4) measurement_def get_or_def)
  with check have "shows_expected c va" by (auto intro: check_expected_shows)
  with a b run(1,2) sign show "proved_reset m c phase private_key public_key ?n envelope"
    unfolding proved_reset_def Let_def by (auto simp: w1 w3 intro!: exI)
  show "w' = w\<lparr>w_events := w_events w + 5, w_trace := w_trace w @ reset_trace c phase (w_events w)\<rparr>"
    by (simp add: fin w3 eval_nat_numeral)
qed

text \<open>Whatever becomes of it, an attempt only adds commands to what was done outside.\<close>

definition is_ran :: "action \<Rightarrow> bool" where
  "is_ran a = (case a of Ran _ _ \<Rightarrow> True | _ \<Rightarrow> False)"

definition only_runs :: "world \<Rightarrow> world \<Rightarrow> bool" where
  "only_runs w w' \<longleftrightarrow> w_events w \<le> w_events w' \<and> (\<exists>acts. w_trace w' = w_trace w @ acts \<and> list_all is_ran acts)"

definition runs_only :: "(world, 'a) act \<Rightarrow> bool" where
  "runs_only m \<longleftrightarrow> (\<forall>w. only_runs w (fst (m w)))"

lemma only_runs_refl [simp]: "only_runs w w"
  by (simp add: only_runs_def)

lemma only_runs_trans: "only_runs w w' \<Longrightarrow> only_runs w' w'' \<Longrightarrow> only_runs w w''"
  unfolding only_runs_def by (metis append_assoc list_all_append order_trans)

lemma runs_onlyD: "runs_only m \<Longrightarrow> m w = (w', r) \<Longrightarrow> only_runs w w'"
  by (metis fst_conv runs_only_def)

lemma runs_only_bind:
  assumes "runs_only m" "\<And>x. runs_only (k x)" shows "runs_only (act_bind m k)"
  unfolding runs_only_def
proof
  fix w
  obtain w' r where m: "m w = (w', r)" by (cases "m w")
  with runs_onlyD [OF assms(1) m] assms(2) show "only_runs w (fst (act_bind m k w))"
    by (cases r) (auto simp: act_bind_def runs_only_def intro: only_runs_trans)
qed

lemma runs_only_basic:
  "runs_only (act_return x)" "runs_only (act_res r)" "runs_only (clock_text m)" "runs_only (sleep d)"
  "runs_only (run_command m command cwd timeout)"
  by (auto simp: runs_only_def clock_text_def next_event_def sleep_def act_bind_def run_command_def log_action_def
      only_runs_def is_ran_def split: sum.split option.split)

lemma runs_only_reset: "runs_only (reset_attempt m c phase private_key public_key)"
  unfolding reset_attempt_def restore_snapshot_def measure_snapshot_def Let_def
  by (auto intro!: runs_only_bind runs_only_basic)

lemma runs_only_attempt:
  assumes "runs_only op" shows "runs_only (attempt m op)"
proof -
  have "runs_only (act_catch op)" using assms by (simp add: runs_only_def act_catch_def split_beta)
  then show ?thesis unfolding attempt_def by (intro runs_only_bind runs_only_basic)
qed

lemma runs_only_loop:
  assumes "runs_only op" shows "runs_only (restore_loop m op p n number delay attempts)"
proof (induction n arbitrary: number delay attempts)
  case (Suc n)
  then show ?case
    using runs_only_attempt [OF assms] by (auto intro!: runs_only_bind runs_only_basic split: sum.split)
qed (simp add: runs_only_basic)

lemma restore_loop_last:
  assumes "restore_loop m op p n number delay attempts w = (w', Inr (attempts', v))" "runs_only op"
  shows "\<exists>w1 w2. only_runs w w1 \<and> op w1 = (w2, Inr v) \<and> w' = fst (clock_text m w2)"
  using assms(1)
proof (induction n arbitrary: number delay attempts w)
  case (Suc n)
  then obtain started r finished w1 where a: "attempt m op w = (w1, Inr (started, r, finished))"
    and rest: "(case r of
       Inr v \<Rightarrow> act_return (attempts @ [passed_entry number started finished], v)
     | Inl e \<Rightarrow>
         (if rp_attempts p \<le> number
          then act_raise RecoveryError (''Snapshot recovery exhausted '' @ int_str (rp_attempts p)
            @ '' attempts: '' @ exn_str e)
          else act_bind (sleep delay) (\<lambda>_.
            restore_loop m op p n (number + 1) (next_delay p delay)
              (attempts @ [failed_entry m number started finished [] e])))) w1 = (w', Inr (attempts', v))"
    by (auto simp: act_bind_result)
  show ?case
  proof (cases r)
    case (Inr x)
    with a rest have "\<exists>w0 w2. w0 = fst (clock_text m w) \<and> op w0 = (w2, Inr v) \<and> w' = fst (clock_text m w2)"
      by (auto simp: attempt_def act_bind_def act_catch_def split: prod.splits sum.splits)
    moreover have "only_runs w (fst (clock_text m w))" using runs_only_basic(3) by (simp add: runs_only_def)
    ultimately show ?thesis by blast
  next
    case (Inl e)
    from rest Inl have "restore_loop m op p n (number + 1) (next_delay p delay)
        (attempts @ [failed_entry m number started finished [] e]) (fst (sleep delay w1)) = (w', Inr (attempts', v))"
      by (auto simp: bind_sleep split: if_splits)
    from Suc.IH [OF this] obtain w2 w3 where "only_runs (fst (sleep delay w1)) w2" "op w2 = (w3, Inr v)"
      "w' = fst (clock_text m w3)" by blast
    moreover have "only_runs w w1" using runs_onlyD [OF runs_only_attempt [OF assms(2)] a] .
    moreover have "only_runs w1 (fst (sleep delay w1))" using runs_only_basic(4) by (simp add: runs_only_def)
    ultimately have "only_runs w w2" by (meson only_runs_trans)
    with \<open>op w2 = (w3, Inr v)\<close> \<open>w' = fst (clock_text m w3)\<close> show ?thesis by blast
  qed
qed simp

text \<open>A recovered reset: the failed attempts ran commands only, and the last one proved the reset.\<close>

lemma recovered_reset_run:
  assumes "restore_snapshot_with_recovery m c phase private_key public_key p w = (w', Inr (attempts, envelope, v))"
  shows "\<exists>earlier n. w_trace w' = w_trace w @ earlier @ reset_trace c phase n \<and> list_all is_ran earlier
    \<and> w_events w \<le> n \<and> n + 4 < w_events w'
    \<and> proved_reset m c phase private_key public_key n envelope
    \<and> verify_snapshot_attestation m envelope public_key (sc_worker_id c) (sc_vm_id c) (sc_snapshot_id c) phase = Inr v"
proof -
  let ?op = "reset_attempt m c phase private_key public_key"
  from assms have loop: "restore_loop m ?op p (nat (rp_attempts p)) 1 (rp_initial p) [] w = (w', Inr (attempts, envelope, v))"
    by (auto simp: restore_snapshot_with_recovery_def split: if_splits)
  from restore_loop_last [OF loop runs_only_reset] obtain w1 w2 where
    w1: "only_runs w w1" and op: "?op w1 = (w2, Inr (envelope, v))" and w': "w' = fst (clock_text m w2)" by blast
  from op have r: "restore_snapshot m c phase private_key public_key w1 = (w2, Inr envelope)"
    and v: "verify_snapshot_attestation m envelope public_key (sc_worker_id c) (sc_vm_id c) (sc_snapshot_id c) phase = Inr v"
    by (auto simp: reset_attempt_def act_bind_result)
  have "w_events w' = Suc (w_events w2)" "w_trace w' = w_trace w2"
    by (simp_all add: w' clock_text_def next_event_def act_bind_def)
  moreover from w1 obtain acts where "w_events w \<le> w_events w1" "w_trace w1 = w_trace w @ acts" "list_all is_ran acts"
    by (auto simp: only_runs_def)
  ultimately show ?thesis using restore_snapshot_run [OF r] v
    by (intro exI [of _ acts] exI [of _ "w_events w1"]) simp
qed

lemma restore_attempts_bounded:
  assumes "snd (restore_snapshot_with_recovery m c phase private_key public_key p w) = Inr (attempts, v)"
  shows "int (length attempts) \<le> rp_attempts p"
proof -
  from assms have ok: "policy_ok p" and loop: "snd (restore_loop m (reset_attempt m c phase private_key public_key)
      p (nat (rp_attempts p)) 1 (rp_initial p) [] w) = Inr (attempts, v)"
    by (auto simp: restore_snapshot_with_recovery_def split: if_splits)
  from restore_loop_value [OF loop] show ?thesis by fastforce
qed

section \<open>Properties\<close>

text \<open>A transient operation is tried at most the configured number of times: the result is that of
  the first attempt that succeeds, with one ledger entry per attempt, and the retry raises only
  when an attempt failed that was the last one allowed or that must not be repeated.\<close>

lemma retry_bounded:
  assumes "policy_ok p"
  shows "\<exists>k < nat (rp_attempts p). fails_until m op retry_if p (rp_initial p) k w \<and>
    (case try_result m op (before_try m op p (rp_initial p) k w) of
       Inr v \<Rightarrow> \<exists>h. snd (retry_transient_operation m op p retry_if w) = Inr (h, v) \<and> length h = Suc k
     | Inl e \<Rightarrow> (gives_up retry_if e \<or> Suc k = nat (rp_attempts p)) \<and>
         snd (retry_transient_operation m op p retry_if w) = throw RecoveryError
           (''Transient operation failed after '' @ int_str (1 + int k) @ '' attempt(s): '' @ exn_name e))"
proof -
  have "int (nat (rp_attempts p)) + 1 = rp_attempts p + 1" "0 < nat (rp_attempts p)"
    using assms by (simp_all add: policy_ok_def)
  note r = retry_loop_result [OF this, of m op retry_if "rp_initial p" w "[]"]
  have "retry_transient_operation m op p retry_if w = retry_loop m op retry_if p (nat (rp_attempts p)) 1 (rp_initial p) [] w"
    using assms by (simp add: retry_transient_operation_def)
  with r show ?thesis by (simp only: append_Nil)
qed

text \<open>C17: A recovered snapshot reset is a real one. When it returns, the last commands it ran are, in
  this order and of the same attempt, a measurement, the restore command and a measurement; all
  three passed, what the machine answered to the last one shows every expected value, and the
  returned envelope signs a statement with exactly these answers, the one after the restore as
  \<open>measurement_after\<close>. Before them only commands of failed attempts were run. The attestation
  verified for this worker, machine, snapshot and phase, and no more attempts were made than
  allowed.\<close>

theorem reset_proved:
  assumes "restore_snapshot_with_recovery m c phase private_key public_key p w = (w', Inr (attempts, envelope, v))"
  shows "\<exists>earlier n. w_trace w' = w_trace w @ earlier @ reset_trace c phase n
    \<and> list_all is_ran earlier \<and> w_events w \<le> n \<and> n + 4 < w_events w'
    \<and> proved_reset m c phase private_key public_key n envelope
    \<and> verify_snapshot_attestation m envelope public_key (sc_worker_id c) (sc_vm_id c) (sc_snapshot_id c) phase = Inr v
    \<and> get_none ''worker_id'' (get_none ''predicate'' v) = JStr (sc_worker_id c)
    \<and> get_none ''snapshot_id'' (get_none ''predicate'' v) = JStr (sc_snapshot_id c)
    \<and> get_none ''phase'' (get_none ''predicate'' v) = JStr phase
    \<and> is_true (get_none ''passed'' (get_none ''predicate'' v))
    \<and> int (length attempts) \<le> rp_attempts p"
proof -
  from recovered_reset_run [OF assms] have v: "verify_snapshot_attestation m envelope public_key
      (sc_worker_id c) (sc_vm_id c) (sc_snapshot_id c) phase = Inr v" by blast
  then have "get_none ''worker_id'' (get_none ''predicate'' v) = JStr (sc_worker_id c)"
    "get_none ''snapshot_id'' (get_none ''predicate'' v) = JStr (sc_snapshot_id c)"
    "get_none ''phase'' (get_none ''predicate'' v) = JStr phase"
    "is_true (get_none ''passed'' (get_none ''predicate'' v))"
    by (auto simp: verify_snapshot_attestation_def get_or_def Let_def split: if_splits)
  moreover have "int (length attempts) \<le> rp_attempts p"
    by (rule restore_attempts_bounded [of m c phase private_key public_key p w]) (simp add: assms)
  ultimately show ?thesis using recovered_reset_run [OF assms] by blast
qed


section \<open>Witnesses\<close>

definition sample_machine :: machine where
  "sample_machine = \<lparr>m_H = (\<lambda>s. nat_str (length s)), m_clock = int,
     m_run = (\<lambda>n command cwd timeout. Inr \<lparr>ex_command = command, ex_cwd = path_text cwd, ex_exit_code = Some 0,
        ex_timed_out = False, ex_duration_ms = 1, ex_stdout = ''{'' @ dump_str ''state'' @ '':'' @ dump_str ''clean-w1'' @ ''}'',
        ex_stderr = '''', ex_stdout_truncated = False, ex_stderr_truncated = False, ex_resource_violation = None\<rparr>),
     m_sign = (\<lambda>s _ _. Inr (JObj [(''statement'', s), (''key_ids'', JArr [])])),
     m_check = (\<lambda>e _. Inr e), m_files = Folder []\<rparr>"

definition sample_config :: snapshot_config where
  "sample_config = \<lparr>sc_adapter_id = ''a'', sc_provider = ''hyper-v'', sc_worker_id = ''w1'', sc_vm_id = ''vm'',
     sc_snapshot_id = ''s'', sc_restore_command = [''restore'', ''{vm_id}''], sc_measure_command = [''measure''],
     sc_cwd = [''srv''], sc_expected_after = [(JStr ''state'', JStr ''clean-{worker_id}'')], sc_timeout_seconds = 60\<rparr>"

definition sample_policy :: retry_policy where
  "sample_policy = \<lparr>rp_attempts = 3, rp_initial = 0, rp_multiplier = 2, rp_max = 2\<rparr>"

lemma sample_policy_ok: "policy_ok sample_policy"
  by (simp add: policy_ok_def sample_policy_def)

definition is_value :: "'a res \<Rightarrow> bool" where
  "is_value r = (case r of Inr _ \<Rightarrow> True | Inl _ \<Rightarrow> False)"

definition clean_output :: string where
  "clean_output = ''{'' @ dump_str ''state'' @ '':'' @ dump_str ''clean-w1'' @ ''}''"

lemma clean_output_measured: "measured_value m clean_output = Inr (JObj [(''state'', JStr ''clean-w1'')])"
proof -
  have "strip_space clean_output \<noteq> [] \<and> loads (last_line (strip_space clean_output)) = Some (JObj [(''state'', JStr ''clean-w1'')])"
    by code_simp
  then show ?thesis by (simp add: measured_value_def Let_def)
qed

lemma clean_output_checked:
  assumes "expand_expected c = [(''state'', JStr ''clean-w1'')]"
  shows "check_expected (JObj [(''state'', JStr ''clean-w1'')]) (expand_expected c) = Inr ()"
proof -
  have "check_expected (JObj [(''state'', JStr ''clean-w1'')]) [(''state'', JStr ''clean-w1'')] = Inr ()" by code_simp
  with assms show ?thesis by simp
qed

text \<open>On a machine that answers every command with a clean measurement, a reset returns in every world.\<close>

definition answers_clean :: "machine \<Rightarrow> bool" where
  "answers_clean m \<longleftrightarrow> m_run m = m_run sample_machine \<and> m_sign m = m_sign sample_machine \<and> m_check m = m_check sample_machine"

lemma clean_run:
  assumes "answers_clean m"
  shows "\<exists>x. run_command m command cwd timeout w = (w\<lparr>w_events := Suc (w_events w),
      w_trace := w_trace w @ [Ran (w_events w) command]\<rparr>, Inr x) \<and> ex_exit_code x = Some 0 \<and> ex_stdout x = clean_output"
  using assms unfolding answers_clean_def run_command_result sample_machine_def clean_output_def by simp

lemma clean_measure:
  assumes "answers_clean m"
  shows "\<exists>w' v. measure_snapshot m c phase w = (w', Inr v) \<and> get_none ''value'' v = JObj [(''state'', JStr ''clean-w1'')]"
proof -
  obtain w' x where "run_command m (expand_command c (sc_measure_command c) phase) (sc_cwd c)
      (min (sc_timeout_seconds c) 120) w = (w', Inr x)" "ex_exit_code x = Some 0" "ex_stdout x = clean_output"
    using clean_run [OF assms] by blast
  then show ?thesis
    by (simp add: measure_snapshot_def Let_def act_bind_def clean_output_measured measurement_def get_or_def)
qed

lemma clean_restore:
  assumes "answers_clean m" "phase \<in> {''before'', ''after'', ''maintenance''}"
    "expand_expected c = [(''state'', JStr ''clean-w1'')]"
  obtains w' command before after x started finished where "restore_snapshot m c phase private_key public_key w =
      (w', Inr (JObj [(''statement'', snapshot_statement m c phase started finished command x before after),
        (''key_ids'', JArr [])]))"
proof -
  obtain w1 started where c1: "clock_text m w = (w1, Inr started)"
    by (simp add: clock_text_def act_bind_def next_event_def)
  obtain w2 before where pre: "measure_snapshot m c (phase @ ''-pre'') w1 = (w2, Inr before)"
    using clean_measure [OF assms(1)] by blast
  obtain w3 x where run: "run_command m (expand_command c (sc_restore_command c) phase) (sc_cwd c)
      (sc_timeout_seconds c) w2 = (w3, Inr x)" "ex_exit_code x = Some 0"
    using clean_run [OF assms(1)] by blast
  obtain w4 after where post: "measure_snapshot m c (phase @ ''-post'') w3 = (w4, Inr after)"
    "get_none ''value'' after = JObj [(''state'', JStr ''clean-w1'')]"
    using clean_measure [OF assms(1)] by blast
  obtain w5 finished where c2: "clock_text m w4 = (w5, Inr finished)"
    by (simp add: clock_text_def act_bind_def next_event_def)
  have sign: "m_sign m s k l = Inr (JObj [(''statement'', s), (''key_ids'', JArr [])])" for s k l
    using assms(1) by (simp add: answers_clean_def sample_machine_def)
  show ?thesis
    using assms(2) clean_output_checked [OF assms(3)]
    by (intro that) (simp add: restore_snapshot_def Let_def act_bind_def c1 pre run post c2 sign)
qed

lemma clean_verifies:
  assumes "answers_clean m"
  shows "\<exists>v. verify_snapshot_attestation m (JObj [(''statement'',
      snapshot_statement m c phase started finished command x before after), (''key_ids'', JArr [])])
    public_key (sc_worker_id c) (sc_vm_id c) (sc_snapshot_id c) phase = Inr v"
  using assms
  by (simp add: answers_clean_def sample_machine_def verify_snapshot_attestation_def snapshot_statement_def jitem_def
      dget_def get_or_def Let_def)

lemma clean_reset:
  assumes "answers_clean m" "phase \<in> {''before'', ''after'', ''maintenance''}" "policy_ok p"
    "expand_expected c = [(''state'', JStr ''clean-w1'')]"
  shows "\<exists>w' r. restore_snapshot_with_recovery m c phase private_key public_key p w = (w', Inr r)"
proof -
  let ?op = "reset_attempt m c phase private_key public_key"
  obtain w0 started where c0: "clock_text m w = (w0, Inr started)"
    by (simp add: clock_text_def act_bind_def next_event_def)
  obtain w1 command before after x start finish where r: "restore_snapshot m c phase private_key public_key w0 =
      (w1, Inr (JObj [(''statement'', snapshot_statement m c phase start finish command x before after),
        (''key_ids'', JArr [])]))"
    by (rule clean_restore [OF assms(1,2,4)])
  obtain v where "verify_snapshot_attestation m (JObj [(''statement'',
      snapshot_statement m c phase start finish command x before after), (''key_ids'', JArr [])])
    public_key (sc_worker_id c) (sc_vm_id c) (sc_snapshot_id c) phase = Inr v"
    using clean_verifies [OF assms(1)] by blast
  with r obtain v' where op: "?op w0 = (w1, Inr v')" by (simp add: reset_attempt_def act_bind_def)
  obtain w2 finished where c1: "clock_text m w1 = (w2, Inr finished)"
    by (simp add: clock_text_def act_bind_def next_event_def)
  have "attempt m ?op w = (w2, Inr (started, Inr v', finished))"
    by (simp add: attempt_def act_bind_def act_catch_def c0 op c1)
  note step = act_bind_Inr [where m = "attempt m ?op", OF this]
  obtain n where "nat (rp_attempts p) = Suc n"
    using assms(3) by (metis policy_ok_def Suc_pred zero_less_nat_eq less_le_trans zero_less_one)
  with assms(3) show ?thesis by (simp add: restore_snapshot_with_recovery_def step)
qed

lemma sample_reset:
  "\<exists>w' r. restore_snapshot_with_recovery sample_machine sample_config ''before'' ''priv'' ''pub'' sample_policy
     \<lparr>w_events = 0, w_slept = [], w_trace = []\<rparr> = (w', Inr r)"
proof (rule clean_reset [OF _ _ sample_policy_ok])
  show "expand_expected sample_config = [(''state'', JStr ''clean-w1'')]" by code_simp
qed (simp_all add: answers_clean_def)

lemma reset_proved_witness:
  "\<exists>w' h e v earlier n. restore_snapshot_with_recovery sample_machine sample_config ''before'' ''priv'' ''pub'' sample_policy
      \<lparr>w_events = 0, w_slept = [], w_trace = []\<rparr> = (w', Inr (h, e, v))
    \<and> w_trace w' = earlier @ reset_trace sample_config ''before'' n
    \<and> get_none ''worker_id'' (get_none ''predicate'' v) = JStr ''w1''"
proof -
  from sample_reset obtain w' h e v where r: "restore_snapshot_with_recovery sample_machine sample_config ''before''
      ''priv'' ''pub'' sample_policy \<lparr>w_events = 0, w_slept = [], w_trace = []\<rparr> = (w', Inr (h, e, v))"
    by auto
  have w: "sc_worker_id sample_config = ''w1''" by (simp add: sample_config_def)
  from reset_proved [OF r] obtain earlier n where
    "w_trace w' = earlier @ reset_trace sample_config ''before'' n"
    "get_none ''worker_id'' (get_none ''predicate'' v) = JStr ''w1''" unfolding w by auto
  with r show ?thesis by blast
qed

lemma retry_bounded_witness:
  "\<exists>h. snd (retry_transient_operation sample_machine (act_return (7 :: nat)) sample_policy None
     \<lparr>w_events = 0, w_slept = [], w_trace = []\<rparr>) = Inr (h, 7)"
proof -
  have "try_result sample_machine (act_return (7 :: nat)) w = Inr 7" for w by (simp add: try_result_def)
  with retry_bounded [OF sample_policy_ok, of sample_machine "act_return (7 :: nat)" None "\<lparr>w_events = 0, w_slept = [], w_trace = []\<rparr>"]
  show ?thesis by auto
qed

end
