(* ===== verification/Psm_Journal.thy ===== *)
theory Psm_Journal
  imports Psm_Canon Psm_Clock
begin

text \<open>
  The recovery journal of \<open>recovery.py\<close> (\<open>RecoveryJournal\<close>): an append-only file of canonical JSON
  records, one per line, each holding the digest of the one before it. The file is its bytes, or
  \<open>None\<close> when it does not exist; \<open>H\<close> is the SHA-256 hex digest, \<open>uid\<close> a fresh \<open>uuid4\<close>, \<open>now\<close> the
  clock. An append that a crash interrupts leaves a prefix of its line behind, which is what
  the operations have to cope with.
\<close>

section \<open>Lines\<close>

abbreviation LF :: char where "LF \<equiv> CHR 0x0A"
abbreviation CR :: char where "CR \<equiv> CHR 0x0D"

text \<open>\<open>bytes.splitlines(keepends=True)\<close>\<close>

fun split_lines :: "string \<Rightarrow> string list" where
  "split_lines [] = []"
| "split_lines (c # s) =
     (if c = LF then [c] # split_lines s
      else if c = CR then
        (case s of d # r \<Rightarrow> if d = LF then [c, d] # split_lines r else [c] # split_lines s
         | [] \<Rightarrow> [[c]])
      else (case split_lines s of [] \<Rightarrow> [[c]] | l # ls \<Rightarrow> (c # l) # ls))"

definition ends_line :: "string \<Rightarrow> bool" where
  "ends_line l \<longleftrightarrow> l \<noteq> [] \<and> (last l = LF \<or> last l = CR)"

definition read_line :: "string \<Rightarrow> json option" where
  "read_line l = Option.bind (utf8_decode l) loads"

section \<open>Reading the chain\<close>

definition chain_start :: string where
  "chain_start = replicate 64 (CHR ''0'')"

definition record_digest :: "(string \<Rightarrow> string) \<Rightarrow> json \<Rightarrow> string" where
  "record_digest H v = H (canonical_json_bytes v)"

definition check_entry :: "(string \<Rightarrow> string) \<Rightarrow> string \<Rightarrow> nat \<Rightarrow> json \<Rightarrow> string res" where
  "check_entry H previous index value =
     (if \<not> is_dict value \<or> \<not> eq_int (get_none ''schema'' value) 1
      then throw RecoveryError ''Recovery journal contains an unsupported record''
      else
        let stored = text_field ''record_sha256'' value; payload = jdel ''record_sha256'' value in
        if get_none ''previous_sha256'' payload \<noteq> JStr previous \<or> stored \<noteq> record_digest H payload
        then throw RecoveryError (''Recovery journal hash chain failed at record '' @ nat_str (index + 1))
        else Inr stored)"

fun scan :: "(string \<Rightarrow> string) \<Rightarrow> bool \<Rightarrow> nat \<Rightarrow> string \<Rightarrow> string list \<Rightarrow> (json list \<times> bool) res" where
  "scan H tolerate index previous [] = Inr ([], False)"
| "scan H tolerate index previous (l # ls) =
     (case read_line l of
        None \<Rightarrow>
          if tolerate \<and> ls = [] \<and> \<not> ends_line l then Inr ([], True)
          else throw RecoveryError (''Recovery journal contains malformed JSON at record '' @ nat_str (index + 1))
      | Some value \<Rightarrow>
          res_bind (check_entry H previous index value) (\<lambda>stored.
          res_bind (scan H tolerate (index + 1) stored ls) (\<lambda>(entries, torn).
            Inr (value # entries, torn))))"

definition journal_entries :: "(string \<Rightarrow> string) \<Rightarrow> bool \<Rightarrow> string option \<Rightarrow> (json list \<times> bool) res" where
  "journal_entries H tolerate f = (case f of
     None \<Rightarrow> Inr ([], False)
   | Some raw \<Rightarrow> scan H tolerate 0 chain_start (split_lines raw))"

definition head_digest :: "json list \<Rightarrow> json" where
  "head_digest entries = (if entries = [] then JStr chain_start else get_none ''record_sha256'' (last entries))"

definition verify_journal :: "(string \<Rightarrow> string) \<Rightarrow> string option \<Rightarrow> json res" where
  "verify_journal H f = res_bind (journal_entries H True f) (\<lambda>(entries, torn). Inr (JObj
     [(''valid'', JBool (\<not> torn)), (''torn_tail'', JBool torn),
      (''records'', JInt (int (length entries))), (''head_sha256'', head_digest entries)]))"

section \<open>Writing\<close>

definition record_line :: "json \<Rightarrow> string" where
  "record_line entry = canonical_json_bytes entry @ [LF]"

definition journal_text :: "json list \<Rightarrow> string" where
  "journal_text entries = concat (map record_line entries)"

definition repair_torn_tail :: "(string \<Rightarrow> string) \<Rightarrow> string option \<Rightarrow> string option \<times> json res" where
  "repair_torn_tail H f = (case journal_entries H True f of
     Inl e \<Rightarrow> (f, Inl e)
   | Inr (entries, torn) \<Rightarrow>
       (if torn then Some (journal_text entries) else f,
        Inr (JObj [(''repaired'', JBool torn), (''records'', JInt (int (length entries))),
          (''head_sha256'', head_digest entries)])))"

definition new_record ::
    "(string \<Rightarrow> string) \<Rightarrow> instant \<Rightarrow> string \<Rightarrow> string \<Rightarrow> json \<Rightarrow> json list \<Rightarrow> json" where
  "new_record H now uid event payload entries =
     (let r = JObj
        [(''schema'', JInt 1), (''sequence'', JInt (int (length entries) + 1)), (''event_id'', JStr uid),
         (''event'', JStr event), (''created_at'', JStr (iso now)),
         (''previous_sha256'', head_digest entries), (''payload'', payload)]
      in jset ''record_sha256'' (JStr (record_digest H r)) r)"

definition append_journal ::
    "(string \<Rightarrow> string) \<Rightarrow> instant \<Rightarrow> string \<Rightarrow> string \<Rightarrow> json \<Rightarrow> string option \<Rightarrow> string option \<times> json res" where
  "append_journal H now uid event payload f =
     (if event = [] \<or> 128 < length event \<or> \<not> is_dict payload
         \<or> 1024 * 1024 < int (length (canonical_json_bytes payload))
      then (f, throw RecoveryError ''Recovery journal event is invalid'')
      else (case journal_entries H True f of
          Inl e \<Rightarrow> (f, Inl e)
        | Inr (entries, torn) \<Rightarrow>
            let base = (if torn then journal_text entries else (case f of None \<Rightarrow> [] | Some raw \<Rightarrow> raw));
                record = new_record H now uid event payload entries
            in (Some (base @ record_line record), Inr record)))"

section \<open>Canonical text has no line break\<close>

definition no_break :: "string \<Rightarrow> bool" where
  "no_break s \<longleftrightarrow> LF \<notin> set s \<and> CR \<notin> set s"

lemma no_break_simps [simp]:
  "no_break []" "no_break (c # s) \<longleftrightarrow> c \<noteq> LF \<and> c \<noteq> CR \<and> no_break s"
  "no_break (s @ t) \<longleftrightarrow> no_break s \<and> no_break t"
  by (auto simp: no_break_def)

lemma no_break_concat: "(\<And>x. x \<in> set xs \<Longrightarrow> no_break x) \<Longrightarrow> no_break (concat xs)"
  by (auto simp: no_break_def)

lemma no_break_join: "no_break sep \<Longrightarrow> (\<And>x. x \<in> set xs \<Longrightarrow> no_break x) \<Longrightarrow> no_break (join sep xs)"
  by (induction sep xs rule: join.induct) auto

lemma no_break_digits: "list_all is_digit s \<Longrightarrow> no_break s"
  by (auto simp: no_break_def list_all_iff is_digit_def)

lemma no_break_int: "no_break (int_str i)"
  by (auto simp: int_str_def intro: no_break_digits nat_str_digits)

lemma hex_digit_not_break: "n < 16 \<Longrightarrow> hex_digit n \<noteq> LF \<and> hex_digit n \<noteq> CR"
proof -
  assume n: "n < 16"
  have "10 \<le> n \<Longrightarrow> (of_char (hex_digit n) :: nat) = 87 + n" using n by (simp add: hex_digit_def)
  moreover have "n < 10 \<Longrightarrow> (of_char (hex_digit n) :: nat) = 48 + n" by (simp add: hex_digit_def)
  ultimately show ?thesis by (cases "n < 10") auto
qed

lemma no_break_dump_char: "no_break (dump_char c)"
proof -
  have "(of_char c :: nat) < 32 \<Longrightarrow> (of_char c :: nat) div 16 < 16" "(of_char c :: nat) mod 16 < 16" by auto
  then show ?thesis
    by (auto simp: dump_char_def Let_def hex_digit_not_break)
qed

lemma no_break_dump_str: "no_break (dump_str s)"
  by (auto simp: dump_str_def no_break_dump_char intro!: no_break_concat)

lemma no_break_dumps: "float_free v \<Longrightarrow> no_break (dumps v)"
  unfolding dumps_def
proof (induction v)
  case (JArr xs)
  then show ?case by (auto simp: list_all_iff intro!: no_break_join)
next
  case (JObj kvs)
  have "no_break (dumps_with '''' x)" if "(k, x) \<in> set kvs" for k x
    using JObj that by (fastforce simp: list_all_iff snds.simps)
  then show ?case
    by (auto simp: no_break_dump_str dumps_JObj split_beta simp del: dumps_with.simps intro!: no_break_join)
qed (auto simp: no_break_int no_break_dump_str)

lemma no_break_utf8: "no_break s \<Longrightarrow> no_break (utf8 s)"
proof (induction s)
  case (Cons c s)
  have high: "x \<noteq> LF \<and> x \<noteq> CR" if "128 \<le> (of_char x :: nat)" for x :: char
    using that by auto
  have "no_break (utf8_char c)"
  proof (cases c rule: utf8_char_cases)
    case two
    have "128 \<le> (of_char (char_of (192 + of_char c div 64 :: nat)) :: nat)"
      unfolding lead_byte [OF of_char_less_256] by simp
    moreover have "128 \<le> (of_char (char_of (128 + of_char c mod 64 :: nat)) :: nat)"
      unfolding tail_byte by simp
    ultimately have "x \<noteq> LF \<and> x \<noteq> CR" if "x \<in> set (utf8_char c)" for x
      using that unfolding two(2) by (intro high) (simp only: set_simps insert_iff empty_iff, blast)
    then show ?thesis by (auto simp: no_break_def)
  qed (use Cons.prems in simp)
  with Cons show ?case by simp
qed simp

lemma no_break_canonical: "float_free v \<Longrightarrow> no_break (canonical_json_bytes v)"
  by (simp add: canonical_json_bytes_def no_break_utf8 no_break_dumps)

lemma split_lines_line: "no_break s \<Longrightarrow> split_lines (s @ LF # t) = (s @ [LF]) # split_lines t"
  by (induction s) auto

lemma split_lines_tail: "no_break s \<Longrightarrow> s \<noteq> [] \<Longrightarrow> split_lines s = [s]"
proof (induction s)
  case (Cons c s)
  then show ?case by (cases "s = []") auto
qed simp

lemma split_lines_text:
  "list_all float_free es \<Longrightarrow> split_lines (journal_text es @ t) = map record_line es @ split_lines t"
  by (induction es) (simp_all add: journal_text_def record_line_def split_lines_line no_break_canonical)


section \<open>Intact chains\<close>

abbreviation digest_of :: "json \<Rightarrow> string" where
  "digest_of e \<equiv> text_field ''record_sha256'' e"

definition linked :: "(string \<Rightarrow> string) \<Rightarrow> string \<Rightarrow> json \<Rightarrow> bool" where
  "linked H previous e \<longleftrightarrow> canon e = e \<and> json_wf e \<and> float_free e \<and> is_dict e
     \<and> eq_int (get_none ''schema'' e) 1 \<and> get_none ''previous_sha256'' e = JStr previous
     \<and> digest_of e = record_digest H (jdel ''record_sha256'' e)
     \<and> get_none ''record_sha256'' e = JStr (digest_of e)"

fun chain :: "(string \<Rightarrow> string) \<Rightarrow> string \<Rightarrow> json list \<Rightarrow> bool" where
  "chain H previous [] = True"
| "chain H previous (e # es) = (linked H previous e \<and> chain H (digest_of e) es)"

abbreviation chain_end :: "string \<Rightarrow> json list \<Rightarrow> string" where
  "chain_end previous es \<equiv> foldl (\<lambda>_ e. digest_of e) previous es"

text \<open>The file holds exactly the records \<open>es\<close>, each complete and linked to the one before.\<close>

definition holds :: "(string \<Rightarrow> string) \<Rightarrow> json list \<Rightarrow> string option \<Rightarrow> bool" where
  "holds H es f \<longleftrightarrow> chain H chain_start es \<and> (f = Some (journal_text es) \<or> f = None \<and> es = [])"

lemma chain_append: "chain H previous (es @ ds) \<longleftrightarrow> chain H previous es \<and> chain H (chain_end previous es) ds"
  by (induction es arbitrary: previous) auto

lemma chain_float_free: "chain H previous es \<Longrightarrow> list_all float_free es"
  by (induction es arbitrary: previous) (auto simp: linked_def)

lemma read_record_line: "linked H previous e \<Longrightarrow> read_line (record_line e) = Some e"
  using canonical_reads_back [of e "[LF]"] by (simp add: linked_def read_line_def record_line_def json_ws_def)

lemma read_unfinished: "linked H previous e \<Longrightarrow> read_line (canonical_json_bytes e) = Some e"
  using canonical_reads_back [of e "[]"] by (simp add: linked_def read_line_def)

lemma check_linked: "linked H previous e \<Longrightarrow> check_entry H previous i e = Inr (digest_of e)"
  by (simp add: linked_def check_entry_def Let_def)

lemma scan_chain:
  "chain H previous es \<Longrightarrow> scan H tol i previous (map record_line es @ ls) =
     res_bind (scan H tol (i + length es) (chain_end previous es) ls) (\<lambda>(xs, torn). Inr (es @ xs, torn))"
proof (induction es arbitrary: previous i)
  case Nil
  then show ?case by (cases "scan H tol i previous ls") auto
next
  case (Cons e es)
  then have l: "linked H previous e" and IH: "scan H tol (i + 1) (digest_of e) (map record_line es @ ls) =
     res_bind (scan H tol (i + 1 + length es) (chain_end (digest_of e) es) ls) (\<lambda>(xs, torn). Inr (es @ xs, torn))"
    by auto
  show ?case
    by (cases "scan H tol (i + 1 + length es) (chain_end (digest_of e) es) ls")
      (use IH in \<open>auto simp: read_record_line [OF l] check_linked [OF l]\<close>)
qed

lemma entries_tail:
  assumes "chain H chain_start es"
  shows "journal_entries H tol (Some (journal_text es @ t)) =
    res_bind (scan H tol (length es) (chain_end chain_start es) (split_lines t)) (\<lambda>(xs, torn). Inr (es @ xs, torn))"
  using scan_chain [OF assms, of tol 0 "split_lines t"] split_lines_text [OF chain_float_free [OF assms], of t]
  by (simp add: journal_entries_def)

lemma entries_held:
  assumes "holds H es f"
  shows "journal_entries H tol f = Inr (es, False)"
proof (cases f)
  case None
  with assms show ?thesis by (simp add: holds_def journal_entries_def)
next
  case (Some raw)
  with assms entries_tail [of H es tol "[]"] show ?thesis by (simp add: holds_def)
qed

lemma head_of_chain: "chain H chain_start es \<Longrightarrow> head_digest es = JStr (chain_end chain_start es)"
  by (cases es rule: rev_cases) (auto simp: head_digest_def chain_append linked_def)


section \<open>Appending\<close>

definition event_ok :: "string \<Rightarrow> json \<Rightarrow> bool" where
  "event_ok event payload \<longleftrightarrow> event \<noteq> [] \<and> length event \<le> 128 \<and> is_dict payload
     \<and> int (length (canonical_json_bytes payload)) \<le> 1024 * 1024 \<and> json_wf payload \<and> float_free payload"

lemma digest_of_jset: "digest_of (jset ''record_sha256'' (JStr d) r) = d"
  by (cases "d = []") (simp_all add: text_field_def py_or_def)

lemma text_field_canon: "json_wf v \<Longrightarrow> is_dict v \<Longrightarrow> get_none k v = JStr s \<Longrightarrow> text_field k (canon v) = text_field k v"
  by (auto simp: text_field_def get_or_def jget_canon split: option.splits)

lemma get_none_canon_str: "json_wf v \<Longrightarrow> is_dict v \<Longrightarrow> get_none k v = JStr s \<Longrightarrow> get_none k (canon v) = JStr s"
  by (auto simp: get_or_def jget_canon split: option.splits)

lemma eq_int_canon: "json_wf v \<Longrightarrow> is_dict v \<Longrightarrow> eq_int (get_none k v) i \<Longrightarrow> eq_int (get_none k (canon v)) i"
  by (cases "get_none k v") (auto simp: get_or_def jget_canon split: option.splits)

lemma new_record_linked:
  assumes c: "chain H chain_start es" and ok: "event_ok event payload"
  shows "linked H (chain_end chain_start es) (canon (new_record H now uid event payload es))"
proof -
  let ?r = "JObj
        [(''schema'', JInt 1), (''sequence'', JInt (int (length es) + 1)), (''event_id'', JStr uid),
         (''event'', JStr event), (''created_at'', JStr (iso now)),
         (''previous_sha256'', head_digest es), (''payload'', payload)]"
  let ?n = "new_record H now uid event payload es"
  have n: "?n = jset ''record_sha256'' (JStr (record_digest H ?r)) ?r" by (simp add: new_record_def Let_def)
  have wf: "json_wf ?n" "float_free ?n" "is_dict ?n"
    using ok by (simp_all add: n jset_def head_of_chain [OF c] event_ok_def)
  have del: "jdel ''record_sha256'' ?n = ?r" by (simp add: n jset_def jdel_def)
  have fields: "eq_int (get_none ''schema'' ?n) 1" "get_none ''previous_sha256'' ?n = JStr (chain_end chain_start es)"
    "get_none ''record_sha256'' ?n = JStr (record_digest H ?r)"
    by (simp_all add: n get_or_def head_of_chain [OF c])
  have dig: "digest_of (canon ?n) = record_digest H ?r"
    using text_field_canon [OF wf(1,3) fields(3)] by (simp add: n digest_of_jset)
  show ?thesis
    unfolding linked_def dig
    using wf eq_int_canon [OF wf(1,3) fields(1)] get_none_canon_str [OF wf(1,3) fields(2)]
      get_none_canon_str [OF wf(1,3) fields(3)]
    by (simp add: json_wf_canon float_free_canon jdel_canon del record_digest_def canonical_canon is_dict_iff
        del: canon.simps) (cases ?n; simp)
qed

lemma record_line_canon: "record_line (canon r) = record_line r"
  by (simp add: record_line_def canonical_canon)

lemma append_entries:
  assumes ok: "event_ok event payload" and c: "chain H chain_start es"
    and e: "journal_entries H True f = Inr (es, torn)"
    and base: "\<not> torn \<Longrightarrow> (case f of None \<Rightarrow> [] | Some raw \<Rightarrow> raw) = journal_text es"
  shows "append_journal H now uid event payload f =
      (Some (journal_text (es @ [canon (new_record H now uid event payload es)])),
       Inr (new_record H now uid event payload es))"
    and "holds H (es @ [canon (new_record H now uid event payload es)])
      (fst (append_journal H now uid event payload f))"
proof -
  show a: "append_journal H now uid event payload f =
      (Some (journal_text (es @ [canon (new_record H now uid event payload es)])),
       Inr (new_record H now uid event payload es))"
    using ok e base by (simp add: append_journal_def event_ok_def Let_def journal_text_def record_line_canon)
  show "holds H (es @ [canon (new_record H now uid event payload es)]) (fst (append_journal H now uid event payload f))"
    unfolding a using c new_record_linked [OF c ok, of now uid] by (simp add: holds_def chain_append)
qed

section \<open>Interrupted appends\<close>

lemma scan_single:
  "scan H True i previous [l] = (case read_line l of
     None \<Rightarrow> if \<not> ends_line l then Inr ([], True)
       else throw RecoveryError (''Recovery journal contains malformed JSON at record '' @ nat_str (i + 1))
   | Some v \<Rightarrow> res_bind (check_entry H previous i v) (\<lambda>_. Inr ([v], False)))"
  by (cases "read_line l") simp_all

lemma entries_torn:
  assumes c: "chain H chain_start es" and r: "is_dict r" "json_wf r" "float_free r"
    and p: "canonical_json_bytes r = p @ q" "q \<noteq> []" "p \<noteq> []"
  shows "journal_entries H True (Some (journal_text es @ p)) = Inr (es, True)"
proof -
  from no_break_canonical [OF r(3)] p(1) have nb: "no_break p" by simp
  from canonical_prefix_unreadable [OF r p(1,2)] have "read_line p = None" by (simp add: read_line_def)
  moreover from nb p(3) have "\<not> ends_line p" unfolding no_break_def ends_line_def by (metis last_in_set)
  ultimately show ?thesis
    using entries_tail [OF c, of True p] split_lines_tail [OF nb p(3)] by (simp add: scan_single)
qed

lemma entries_unfinished:
  assumes "chain H chain_start (es @ [e])"
  shows "journal_entries H True (Some (journal_text es @ canonical_json_bytes e)) = Inr (es @ [e], False)"
proof -
  from assms have c: "chain H chain_start es" and l: "linked H (chain_end chain_start es) e"
    by (simp_all add: chain_append)
  have nb: "no_break (canonical_json_bytes e)" using l by (intro no_break_canonical) (simp add: linked_def)
  have ne: "canonical_json_bytes e \<noteq> []"
  proof
    assume "canonical_json_bytes e = []"
    with read_unfinished [OF l] show False by (simp add: read_line_def loads_def parse_value.simps skip_ws_def)
  qed
  show ?thesis
    using entries_tail [OF c, of True "canonical_json_bytes e"] split_lines_tail [OF nb ne]
    by (simp add: scan_single read_unfinished [OF l] check_linked [OF l])
qed


lemma glued_unreadable:
  assumes e: "is_dict e" "json_wf e" "float_free e" and r: "is_dict r"
  shows "read_line (canonical_json_bytes e @ record_line r) = None"
proof -
  obtain t where t: "dumps r = CHR ''{'' # t" using r by (auto simp: is_dict_iff dumps_def)
  have dec: "utf8_decode (canonical_json_bytes e @ record_line r) = Some (dumps e @ dumps r @ [LF])"
    by (simp add: record_line_def canonical_json_bytes_def utf8_decode_append [OF utf8_decode_utf8])
  have "reads_back '''' e" using e by (intro dumps_reads_back) simp_all
  then have "parse_value (Suc (length (dumps e @ dumps r @ [LF]))) (dumps e @ dumps r @ [LF]) =
      Some (canon e, dumps r @ [LF])"
    using t by (simp add: reads_back_def dumps_def num_stop_def is_digit_def)
  then have "loads (dumps e @ dumps r @ [LF]) = None"
    by (simp add: loads_def t skip_ws_def json_ws_def)
  with dec show ?thesis by (simp add: read_line_def)
qed

lemma entries_glued:
  assumes "chain H chain_start (es @ [e])" "is_dict r" "float_free r"
  shows "journal_entries H tol (Some (journal_text es @ canonical_json_bytes e @ record_line r)) =
    throw RecoveryError (''Recovery journal contains malformed JSON at record '' @ nat_str (length es + 1))"
proof -
  from assms have c: "chain H chain_start es" and l: "is_dict e" "json_wf e" "float_free e"
    by (simp_all add: chain_append linked_def)
  let ?l = "canonical_json_bytes e @ canonical_json_bytes r"
  have nb: "no_break ?l" using l assms(3) by (simp add: no_break_canonical)
  have "split_lines (canonical_json_bytes e @ record_line r) = [canonical_json_bytes e @ record_line r]"
    using split_lines_line [OF nb, of "[]"] by (simp add: record_line_def)
  then show ?thesis
    using entries_tail [OF c, of tol "canonical_json_bytes e @ record_line r"] glued_unreadable [OF l assms(2)]
    by (simp add: ends_line_def record_line_def)
qed

section \<open>Properties\<close>

text \<open>Appending a valid event to a journal whose records are all complete and linked succeeds, and
  leaves a journal with the same records followed by the new one, which carries the payload, the
  next sequence number and the digest of its predecessor.\<close>

lemma append_extends_chain:
  assumes "holds H es f" and "event_ok event payload"
  shows "\<exists>f' r. append_journal H now uid event payload f = (f', Inr r) \<and> holds H (es @ [canon r]) f'
    \<and> journal_entries H False f' = Inr (es @ [canon r], False)
    \<and> get_none ''payload'' r = payload \<and> get_none ''event'' r = JStr event
    \<and> get_none ''sequence'' r = JInt (int (length es) + 1)
    \<and> get_none ''previous_sha256'' r = head_digest es"
proof -
  let ?r = "new_record H now uid event payload es"
  have c: "chain H chain_start es" and b: "(case f of None \<Rightarrow> [] | Some raw \<Rightarrow> raw) = journal_text es"
    using assms(1) by (auto simp: holds_def journal_text_def)
  note a = append_entries [OF assms(2) c entries_held [OF assms(1)] b, of now uid]
  show ?thesis
    by (rule exI, rule exI [of _ ?r])
      (use a entries_held [of H "es @ [canon ?r]" "fst (append_journal H now uid event payload f)" False]
        in \<open>simp add: new_record_def Let_def get_or_def\<close>)
qed

text \<open>C15: When an append is interrupted before the last byte of its record is written, no record is lost
  and none is invented: repairing restores the file as it was before the append, and the next
  append continues the chain from there.\<close>

theorem interrupted_append_recovered:
  assumes "chain H chain_start es" "is_dict r" "json_wf r" "float_free r"
    and "canonical_json_bytes r = p @ q" "q \<noteq> []" and "event_ok event payload"
  shows "fst (repair_torn_tail H (Some (journal_text es @ p))) = Some (journal_text es)
    \<and> (\<exists>f' r'. append_journal H now uid event payload (Some (journal_text es @ p)) = (f', Inr r')
        \<and> holds H (es @ [canon r']) f')"
proof (cases "p = []")
  case True
  have h: "holds H es (Some (journal_text es))" using assms(1) by (simp add: holds_def)
  have b: "(case Some (journal_text es) of None \<Rightarrow> [] | Some raw \<Rightarrow> raw) = journal_text es" by simp
  from True entries_held [OF h] append_entries [OF assms(7,1) entries_held [OF h] b, of now uid] show ?thesis
    by (simp add: repair_torn_tail_def)
next
  case False
  note e = entries_torn [OF assms(1-6) False]
  from e append_entries [OF assms(7,1) e, of now uid] show ?thesis by (simp add: repair_torn_tail_def)
qed

text \<open>C16: A record that lost only its line feed counts as complete, and the next append then destroys the
  journal: verification calls the file valid, the append succeeds, and afterwards no operation
  can read the journal again, because the two records share a line.\<close>

theorem lost_line_feed_breaks_journal:
  assumes "chain H chain_start (es @ [e])" and "event_ok event payload"
  shows "\<exists>v f' r. verify_journal H (Some (journal_text es @ canonical_json_bytes e)) = Inr v
    \<and> get_none ''valid'' v = JBool True \<and> get_none ''records'' v = JInt (int (length es) + 1)
    \<and> append_journal H now uid event payload (Some (journal_text es @ canonical_json_bytes e)) = (f', Inr r)
    \<and> verify_journal H f' = throw RecoveryError
        (''Recovery journal contains malformed JSON at record '' @ nat_str (length es + 1))
    \<and> repair_torn_tail H f' = (f', throw RecoveryError
        (''Recovery journal contains malformed JSON at record '' @ nat_str (length es + 1)))
    \<and> append_journal H now uid event payload f' = (f', throw RecoveryError
        (''Recovery journal contains malformed JSON at record '' @ nat_str (length es + 1)))"
proof -
  let ?f = "Some (journal_text es @ canonical_json_bytes e)"
  let ?r = "new_record H now uid event payload (es @ [e])"
  let ?f' = "Some (journal_text es @ canonical_json_bytes e @ record_line ?r)"
  let ?v = "JObj [(''valid'', JBool True), (''torn_tail'', JBool False),
    (''records'', JInt (int (length es) + 1)), (''head_sha256'', head_digest (es @ [e]))]"
  note u = entries_unfinished [OF assms(1)]
  have l: "linked H (chain_end chain_start (es @ [e])) (canon ?r)" by (rule new_record_linked [OF assms])
  have d: "is_dict ?r" by (simp add: new_record_def Let_def)
  have g: "journal_entries H tol ?f' =
    throw RecoveryError (''Recovery journal contains malformed JSON at record '' @ nat_str (length es + 1))" for tol
    using l d by (intro entries_glued assms) (simp_all add: linked_def float_free_canon)
  have v: "append_journal H now uid event payload ?f = (?f', Inr ?r)"
    using assms(2) u by (simp add: append_journal_def event_ok_def Let_def)
  have a: "append_journal H now uid event payload ?f' = (?f', throw RecoveryError
        (''Recovery journal contains malformed JSON at record '' @ nat_str (length es + 1)))"
    using assms(2) g by (simp add: append_journal_def event_ok_def)
  show ?thesis
    by (rule exI [of _ ?v], rule exI [of _ ?f'], rule exI [of _ ?r], intro conjI)
      (simp_all add: v a verify_journal_def repair_torn_tail_def u g get_or_def)
qed


section \<open>Witnesses\<close>

definition sample_H :: "string \<Rightarrow> string" where
  "sample_H s = nat_str (length s)"

definition sample_payload :: json where
  "sample_payload = JObj [(''kind'', JStr ''transfer''), (''deleted'', JArr [JInt 3])]"

lemma sample_event_ok: "event_ok ''transfer.repaired'' sample_payload"
  by code_simp

definition sample_entry :: json where
  "sample_entry = canon (new_record sample_H 0 ''u'' ''opened'' sample_payload [])"

lemma sample_chain: "chain sample_H chain_start [sample_entry]"
  using new_record_linked [of sample_H "[]" "''opened''" sample_payload 0 "''u''"] sample_event_ok
  by (simp add: sample_entry_def event_ok_def)

lemma append_extends_chain_witness:
  "\<exists>f' r. append_journal sample_H 1 ''v'' ''transfer.repaired'' sample_payload (Some (journal_text [sample_entry])) =
      (f', Inr r) \<and> holds sample_H ([sample_entry] @ [canon r]) f' \<and> get_none ''sequence'' r = JInt 2"
proof -
  have "holds sample_H [sample_entry] (Some (journal_text [sample_entry]))"
    unfolding holds_def using sample_chain by simp
  from append_extends_chain [OF this sample_event_ok, of 1 "''v''"] show ?thesis by auto
qed

lemma interrupted_append_recovered_witness:
  "fst (repair_torn_tail sample_H (Some (journal_text [sample_entry] @ ''{''))) = Some (journal_text [sample_entry])"
proof -
  have d: "is_dict (JObj [])" "json_wf (JObj [])" "float_free (JObj [])" "''}'' \<noteq> []" by simp_all
  have "canonical_json_bytes (JObj []) = ''{'' @ ''}''" by code_simp
  from interrupted_append_recovered [OF sample_chain d(1-3) this d(4) sample_event_ok] show ?thesis by blast
qed

lemma lost_line_feed_breaks_journal_witness:
  "\<exists>f'. fst (append_journal sample_H 1 ''v'' ''transfer.repaired'' sample_payload
      (Some (journal_text [] @ canonical_json_bytes sample_entry))) = f'
    \<and> repair_torn_tail sample_H f' = (f', throw RecoveryError ''Recovery journal contains malformed JSON at record 1'')"
proof -
  have c: "chain sample_H chain_start ([] @ [sample_entry])" using sample_chain by simp
  have n: "nat_str (length ([] :: json list) + 1) = ''1''" by code_simp
  from lost_line_feed_breaks_journal [OF c sample_event_ok, of 1 "''v''", unfolded n] show ?thesis
    by (elim exE conjE) simp
qed

end
