(* ===== verification/Psm_Runner.thy ===== *)
theory Psm_Runner
  imports Psm_Snapshot Psm_Queue Psm_Registry Psm_Journal
begin

text \<open>
  The controller that composes the queue, the registry, the snapshot adapter and the journal:
  \<open>fleet_runner.py\<close> (one job on one managed worker) and \<open>queue_runner.py\<close> (claiming, running and
  finishing queue jobs). Its state is the database with its mirror, the registry file, the
  journal file and the events of the machine. The remote side (\<open>RemoteEndpoint.load\<close>,
  \<open>probe_remote_endpoint\<close>, \<open>submit_remote_job\<close> of \<open>remote_worker.py\<close>) answers per event. The
  heartbeat thread only touches the queue while the main thread runs the job, so its calls are
  made in one go before the job's completion, at the times the machine gives.
\<close>

section \<open>State and environment\<close>

record ctl =
  ct_world :: world
  ct_queue :: queue_store
  ct_registry :: "json option"
  ct_journal :: "string option"

record controller = machine +
  k_endpoint :: "string \<Rightarrow> json res"
  k_probe :: "nat \<Rightarrow> json \<Rightarrow> int \<Rightarrow> json res"
  k_submit :: "nat \<Rightarrow> json \<Rightarrow> submission \<Rightarrow> int \<Rightarrow> json res"
  k_beats :: "nat \<Rightarrow> (instant \<times> instant) list"
  k_uid :: "nat \<Rightarrow> string"
  k_pick :: "nat \<Rightarrow> nat"
  k_expanduser :: "string \<Rightarrow> string res"
  k_cwd :: "string list"

definition on_world :: "(world, 'a) act \<Rightarrow> (ctl, 'a) act" where
  "on_world m = act_on ct_world (\<lambda>w s. s\<lparr>ct_world := w\<rparr>) m"

definition on_queue :: "(queue_store, 'a) act \<Rightarrow> (ctl, 'a) act" where
  "on_queue m = act_on ct_queue (\<lambda>q s. s\<lparr>ct_queue := q\<rparr>) m"

definition on_registry :: "(json option, 'a) act \<Rightarrow> (ctl, 'a) act" where
  "on_registry m = act_on ct_registry (\<lambda>r s. s\<lparr>ct_registry := r\<rparr>) m"

definition on_journal :: "(string option, 'a) act \<Rightarrow> (ctl, 'a) act" where
  "on_journal m = act_on ct_journal (\<lambda>j s. s\<lparr>ct_journal := j\<rparr>) m"

definition event_act :: "(ctl, nat) act" where
  "event_act = on_world next_event"

definition log_act :: "action \<Rightarrow> (ctl, unit) act" where
  "log_act a = on_world (log_action a)"

definition now_act :: "controller \<Rightarrow> (ctl, instant) act" where
  "now_act k = act_bind event_act (\<lambda>n. act_return (m_clock k n))"

definition local_path :: "controller \<Rightarrow> string \<Rightarrow> string list" where
  "local_path k s = path_join (k_cwd k) s"

section \<open>Probing a worker\<close>

definition health_act :: "controller \<Rightarrow> string \<Rightarrow> bool \<Rightarrow> json \<Rightarrow> string \<Rightarrow> int \<Rightarrow> (ctl, json) act" where
  "health_act k wid passed capabilities error threshold =
     act_bind (now_act k) (\<lambda>t. act_bind (now_act k) (\<lambda>t'.
       on_registry (record_health (m_H k) t t' wid passed capabilities error threshold)))"

definition worker_record :: "controller \<Rightarrow> string \<Rightarrow> (ctl, json) act" where
  "worker_record k wid = on_registry (\<lambda>f. (f, get_worker (m_H k) wid f))"

definition load_endpoint :: "controller \<Rightarrow> json \<Rightarrow> json res" where
  "load_endpoint k worker = res_bind (jitem ''endpoint'' worker) (\<lambda>e. k_endpoint k (py_str e))"

definition reraise_as :: "exn_class \<Rightarrow> string \<Rightarrow> exn \<Rightarrow> (ctl, 'a) act" where
  "reraise_as c prefix e = (if is_psmatrix_error e then act_res (Inl e) else act_raise c (prefix @ exn_str e))"

definition probe_fleet_worker :: "controller \<Rightarrow> string \<Rightarrow> int \<Rightarrow> int \<Rightarrow> (ctl, json) act" where
  "probe_fleet_worker k wid timeout threshold =
     act_bind (worker_record k wid) (\<lambda>worker.
     act_bind (act_res (load_endpoint k worker)) (\<lambda>endpoint.
     act_try
       (act_bind event_act (\<lambda>n. act_bind (log_act (Probed n endpoint)) (\<lambda>_.
        act_bind (act_res (k_probe k n endpoint timeout)) (\<lambda>health.
        act_bind (act_res (jsub ''capabilities'' health)) (\<lambda>capabilities.
        act_bind (health_act k wid True capabilities '''' threshold) (\<lambda>_. act_return health))))))
       (\<lambda>e. act_bind (health_act k wid False JNull (exn_str e) threshold) (\<lambda>_.
          reraise_as FleetRunError ''Fleet health probe failed: '' e))))"

section \<open>A managed job\<close>

definition managed_policy :: retry_policy where
  "managed_policy = \<lparr>rp_attempts = 3, rp_initial = 1/2, rp_multiplier = 2, rp_max = 2\<rparr>"

definition reset_settings :: "controller \<Rightarrow> json \<Rightarrow> (snapshot_config \<times> string list \<times> string list) res" where
  "reset_settings k worker =
     (let reset = get_none ''managed_reset'' worker;
          file = (\<lambda>name. res_bind (jitem name reset) (\<lambda>p. Inr (local_path k (py_str p)))) in
      if \<not> is_dict reset then throw FleetRunError ''Fleet worker has no controller-managed snapshot policy''
      else
        res_bind (res_bind (file ''snapshot_config'') (load_snapshot_config (m_files k))) (\<lambda>config.
        if get_none ''worker_id'' worker \<noteq> JStr (sc_worker_id config)
        then throw FleetRunError ''Snapshot adapter worker identity does not match fleet record''
        else
          res_bind (res_bind (file ''private_key'') (resolve (m_files k))) (\<lambda>priv.
          res_bind (res_bind (file ''public_key'') (resolve (m_files k))) (\<lambda>pub.
            Inr (config, priv, pub)))))"

definition managed_reset :: "controller \<Rightarrow> json \<Rightarrow> string \<Rightarrow> (ctl, json \<times> json) act" where
  "managed_reset k worker phase =
     act_bind (act_res (reset_settings k worker)) (\<lambda>(config, priv, pub).
     act_bind (on_world (restore_snapshot_with_recovery (machine.truncate k) config phase
         (path_text priv) (path_text pub) managed_policy)) (\<lambda>(attempts, attestation, verification).
       act_return (attestation, jset ''recovery_attempts'' (JArr attempts) verification)))"

definition run_remote_job ::
    "controller \<Rightarrow> json \<Rightarrow> json \<Rightarrow> string \<Rightarrow> submission \<Rightarrow> int \<Rightarrow> int \<Rightarrow> (ctl, (json \<times> json) \<times> json) act" where
  "run_remote_job k worker endpoint wid sub timeout threshold =
     act_bind (managed_reset k worker ''before'') (\<lambda>before.
     act_bind (probe_fleet_worker k wid (min timeout 60) threshold) (\<lambda>health.
     act_bind (act_res (dget_none ''runtime_id'' health)) (\<lambda>rid.
     if \<not> py_eq rid (get_none ''runtime_id'' worker)
     then act_raise FleetRunError ''Worker runtime changed after snapshot reset''
     else act_bind event_act (\<lambda>n. act_bind (log_act (Submitted n endpoint sub)) (\<lambda>_.
       act_bind (act_res (k_submit k n endpoint sub timeout)) (\<lambda>remote.
       act_return (before, remote)))))))"

definition reset_pair :: "json \<times> json \<Rightarrow> json" where
  "reset_pair r = JObj [(''attestation'', fst r), (''verification'', snd r)]"

definition managed_result ::
    "string \<Rightarrow> json \<Rightarrow> json \<Rightarrow> json \<Rightarrow> json \<times> json \<Rightarrow> json \<times> json \<Rightarrow> json \<Rightarrow> json \<Rightarrow> json \<Rightarrow> json" where
  "managed_result wid worker started finished before after remote report status = JObj
     [(''schema'', JInt 1), (''kind'', JStr ''psmatrix.managed-fleet-result''), (''started_at'', started),
      (''finished_at'', finished), (''worker_id'', JStr wid), (''runtime_id'', get_none ''runtime_id'' worker),
      (''status'', status), (''report'', report),
      (''worker_result'', JObj [(''valid'', get_none ''valid'' remote), (''transfer'', get_none ''transfer'' remote),
         (''capabilities'', get_none ''capabilities'' remote)]),
      (''snapshot_reset'', JObj [(''before'', reset_pair before), (''after'', reset_pair after)])]"

definition managed_failure :: "controller \<Rightarrow> string \<Rightarrow> int \<Rightarrow> exn \<Rightarrow> (ctl, json) act" where
  "managed_failure k wid threshold e =
     act_bind (health_act k wid False JNull (exn_str e) threshold) (\<lambda>_. reraise_as FleetRunError '''' e)"

definition managed_success ::
    "controller \<Rightarrow> string \<Rightarrow> json \<Rightarrow> instant \<Rightarrow> int \<Rightarrow> json \<times> json \<Rightarrow> json \<times> json \<Rightarrow> json \<Rightarrow> (ctl, json) act" where
  "managed_success k wid worker started threshold before after remote =
     act_bind (act_res (jsub ''capabilities'' remote)) (\<lambda>capabilities.
     act_bind (health_act k wid True capabilities '''' threshold) (\<lambda>_.
     act_bind (act_res (jsub ''report'' remote)) (\<lambda>report.
     act_bind (now_act k) (\<lambda>finished.
     act_bind (act_res (dget_none ''status'' report)) (\<lambda>status.
       act_return (managed_result wid worker (JStr (iso started)) (JStr (iso finished))
         before after remote report status))))))"

definition managed_finish ::
    "controller \<Rightarrow> string \<Rightarrow> json \<Rightarrow> instant \<Rightarrow> int \<Rightarrow> ((json \<times> json) \<times> json) res \<Rightarrow> (json \<times> json) res
      \<Rightarrow> (ctl, json) act" where
  "managed_finish k wid worker started threshold body reset =
     (case body of
        Inl e \<Rightarrow> managed_failure k wid threshold e
      | Inr (before, remote) \<Rightarrow> (case reset of
          Inl e \<Rightarrow> managed_failure k wid threshold e
        | Inr after \<Rightarrow> managed_success k wid worker started threshold before after remote))"

text \<open>
  The reset after the job runs whatever happened before it; its own failure counts only when
  nothing failed earlier.
\<close>

definition execute_managed_fleet_job ::
    "controller \<Rightarrow> string \<Rightarrow> submission \<Rightarrow> int \<Rightarrow> int \<Rightarrow> (ctl, json) act" where
  "execute_managed_fleet_job k wid sub timeout threshold =
     act_bind (worker_record k wid) (\<lambda>worker.
     if get_none ''state'' worker \<noteq> JStr ''ACTIVE''
     then act_raise FleetRunError (''Fleet worker is not active: '' @ wid)
     else
       act_bind (act_res (load_endpoint k worker)) (\<lambda>endpoint.
       act_bind (now_act k) (\<lambda>started.
       act_bind (act_catch (run_remote_job k worker endpoint wid sub timeout threshold)) (\<lambda>body.
       act_bind (act_catch (managed_reset k worker ''after'')) (\<lambda>reset.
         managed_finish k wid worker started threshold body reset)))))"

section \<open>From a queue row to a job\<close>

record materialized =
  mt_root :: "string list"
  mt_entrypoint :: "string list"
  mt_files :: "string list list"
  mt_options :: json
  mt_labels :: "(string \<times> string) list"
  mt_worker_id :: "string option"

definition is_symlink :: "node \<Rightarrow> string list \<Rightarrow> bool" where
  "is_symlink fs p = (case stat_path fs (butlast p) of
     Inr (Folder es) \<Rightarrow> (case map_of es (name_of p) of Some (Link _) \<Rightarrow> True | _ \<Rightarrow> False)
   | _ \<Rightarrow> False)"

definition project_file :: "node \<Rightarrow> string list \<Rightarrow> string \<Rightarrow> string list res" where
  "project_file fs top_dir value =
     res_bind (resolve fs top_dir) (\<lambda>r.
     res_bind (resolve fs (path_join r value)) (\<lambda>candidate.
     if \<not> is_within r candidate then throw QueueRunnerError (''Queue source escapes project root: '' @ value)
     else if list_ex (\<lambda>n. is_symlink fs (take n candidate)) [Suc (length r)..<Suc (length candidate)]
     then throw QueueRunnerError (''Queue source cannot traverse symlinks: '' @ value)
     else if \<not> is_file fs candidate
     then throw QueueRunnerError (''Queue source is not a regular file: '' @ value)
     else Inr candidate))"

definition queue_labels :: "json \<Rightarrow> (string \<times> string) list res" where
  "queue_labels value =
     (if value = JNull then Inr []
      else if \<not> is_dict value \<or> 32 < length (dict_items value)
      then throw QueueRunnerError ''Queue labels must be a bounded object''
      else res_map (\<lambda>(name, item). let t = py_str item in
        if name = [] \<or> 64 < length name \<or> t = [] \<or> 256 < length t
        then throw QueueRunnerError ''Queue label is invalid'' else Inr (name, t)) (dict_items value))"

definition payload_fields :: "string list" where
  "payload_fields = [''root'', ''entrypoint'', ''include'', ''options'', ''labels'', ''worker_id'']"

definition payload_worker :: "json \<Rightarrow> string option res" where
  "payload_worker v = (case v of
     JNull \<Rightarrow> Inr None
   | JStr w \<Rightarrow> if w = [] \<or> 128 < length w then throw QueueRunnerError ''Queue worker_id is invalid'' else Inr (Some w)
   | _ \<Rightarrow> throw QueueRunnerError ''Queue worker_id is invalid'')"

definition job_root :: "controller \<Rightarrow> json \<Rightarrow> string list res" where
  "job_root k v = (case v of
     JStr s \<Rightarrow>
       if s = [] \<or> 4096 < length s then throw QueueRunnerError ''Queue payload requires a project root''
       else res_bind (k_expanduser k s) (\<lambda>e. res_bind (resolve (m_files k) (local_path k e)) (\<lambda>top_dir.
         if \<not> is_dir (m_files k) top_dir \<or> is_symlink (m_files k) top_dir
         then throw QueueRunnerError ''Queue project root is unavailable or unsafe'' else Inr top_dir))
   | _ \<Rightarrow> throw QueueRunnerError ''Queue payload requires a project root'')"

definition materialize_job :: "controller \<Rightarrow> json \<Rightarrow> materialized res" where
  "materialize_job k job =
     (let payload = get_none ''payload'' job in
      if \<not> is_dict payload then throw QueueRunnerError ''Queue payload root must be an object''
      else
        let unknown = sort (filter (\<lambda>x. x \<notin> set payload_fields) (map fst (dict_items payload))) in
        if unknown \<noteq> []
        then throw QueueRunnerError (''Queue payload contains unknown fields: '' @ join '', '' unknown)
        else
          res_bind (job_root k (get_none ''root'' payload)) (\<lambda>top_dir.
          res_bind (case get_none ''entrypoint'' payload of
              JStr s \<Rightarrow> project_file (m_files k) top_dir s
            | _ \<Rightarrow> throw QueueRunnerError ''Queue payload requires an entrypoint'') (\<lambda>entrypoint.
          let inc = py_or (get_none ''include'' payload) (JArr []) in
          if \<not> is_list inc \<or> 128 < length (list_items inc)
          then throw QueueRunnerError ''Queue include list is invalid''
          else
            res_bind (res_map (\<lambda>v. project_file (m_files k) top_dir (py_str v)) (list_items inc)) (\<lambda>files.
            let options = py_or (get_none ''options'' payload) (JObj []) in
            if \<not> is_dict options then throw QueueRunnerError ''Queue options root must be an object''
            else
              res_bind (payload_worker (get_none ''worker_id'' payload)) (\<lambda>wid.
              res_bind (queue_labels (get_none ''labels'' payload)) (\<lambda>labels.
                Inr \<lparr>mt_root = top_dir, mt_entrypoint = entrypoint, mt_files = entrypoint # files,
                  mt_options = options, mt_labels = labels, mt_worker_id = wid\<rparr>))))))"

section \<open>Running a leased job\<close>

definition journal_act :: "controller \<Rightarrow> bool \<Rightarrow> string \<Rightarrow> json \<Rightarrow> (ctl, unit) act" where
  "journal_act k journaled ev payload =
     (if \<not> journaled then act_return ()
      else act_bind event_act (\<lambda>n. act_bind (on_journal (append_journal (m_H k) (m_clock k n) (k_uid k n) ev payload))
        (\<lambda>_. act_return ())))"

definition pick_worker :: "controller \<Rightarrow> materialized \<Rightarrow> string \<Rightarrow> (ctl, string) act" where
  "pick_worker k mt rid = (case mt_worker_id mt of
     Some wid \<Rightarrow> act_return wid
   | None \<Rightarrow>
       act_bind (on_registry (\<lambda>f. (f, select (m_H k) (m_files k) rid (labels_value (mt_labels mt)) 1 True f))) (\<lambda>selected.
       case selected of
         [] \<Rightarrow> act_raise QueueRunnerError (''No active healthy worker satisfies runtime '' @ rid)
       | s # _ \<Rightarrow> act_return (sel_worker_id s)))"

text \<open>The heartbeats that fall into the run: the thread ends with the first that is refused.\<close>

fun beat_loop :: "controller \<Rightarrow> string \<Rightarrow> string \<Rightarrow> int \<Rightarrow> (instant \<times> instant) list \<Rightarrow> (ctl, string option) act" where
  "beat_loop k jid owner secs [] = act_return None"
| "beat_loop k jid owner secs ((t, t') # beats) =
     act_bind (act_catch (on_queue (heartbeat (m_H k) t t' jid owner secs))) (\<lambda>r. case r of
       Inl e \<Rightarrow> act_return (Some (exn_str e))
     | Inr _ \<Rightarrow> beat_loop k jid owner secs beats)"

definition complete_act :: "controller \<Rightarrow> string \<Rightarrow> string \<Rightarrow> json \<Rightarrow> (ctl, json) act" where
  "complete_act k jid owner result = act_bind (now_act k) (\<lambda>t. act_bind (now_act k) (\<lambda>t'.
     on_queue (complete (m_H k) t t' jid owner result)))"

definition fail_act :: "controller \<Rightarrow> string \<Rightarrow> string \<Rightarrow> string \<Rightarrow> (ctl, json option) act" where
  "fail_act k jid owner error = act_try
     (act_bind (now_act k) (\<lambda>t. act_bind (now_act k) (\<lambda>t'.
      act_bind (on_queue (fail (m_H k) t t' jid owner error True)) (\<lambda>v. act_return (Some v)))))
     (\<lambda>e. if exn_class e = FleetQueueError then act_return None else act_res (Inl e))"

definition started_payload :: "json \<Rightarrow> string \<Rightarrow> string \<Rightarrow> string \<Rightarrow> int \<Rightarrow> json" where
  "started_payload job rid wid owner attempts = JObj
     [(''job_id'', JStr (text_field ''job_id'' job)), (''runtime_id'', JStr rid), (''worker_id'', JStr wid),
      (''owner'', JStr owner), (''attempt'', JInt attempts)]"

definition completed_payload :: "string \<Rightarrow> string \<Rightarrow> string \<Rightarrow> json \<Rightarrow> json" where
  "completed_payload jid rid wid result = JObj
     [(''job_id'', JStr jid), (''runtime_id'', JStr rid), (''worker_id'', JStr wid),
      (''status'', JStr (py_str (py_or (get_none ''status'' result) (JStr ''UNKNOWN''))))]"

definition failed_payload :: "controller \<Rightarrow> json \<Rightarrow> string \<Rightarrow> string \<Rightarrow> exn \<Rightarrow> json option \<Rightarrow> json" where
  "failed_payload k job rid wid e failed = JObj
     [(''job_id'', JStr (text_field ''job_id'' job)), (''runtime_id'', JStr rid), (''worker_id'', JStr wid),
      (''error_sha256'', JStr (m_H k (utf8 (exn_str e)))),
      (''retry_state'', case failed of Some v \<Rightarrow> get_none ''state'' v | None \<Rightarrow> JStr ''LEASE_LOST'')]"

definition run_leased ::
    "controller \<Rightarrow> bool \<Rightarrow> materialized \<Rightarrow> string \<Rightarrow> string \<Rightarrow> string \<Rightarrow> string \<Rightarrow> int \<Rightarrow> int \<Rightarrow> int \<Rightarrow> (ctl, json) act" where
  "run_leased k journaled mt jid rid wid owner secs timeout threshold =
     act_bind (act_catch (execute_managed_fleet_job k wid
       \<lparr>sb_root = mt_root mt, sb_files = mt_files mt, sb_entrypoint = mt_entrypoint mt, sb_options = mt_options mt\<rparr>
       timeout threshold)) (\<lambda>r.
     act_bind event_act (\<lambda>n. act_bind (beat_loop k jid owner secs (k_beats k n)) (\<lambda>beat_error.
     act_bind (act_res r) (\<lambda>result.
     case beat_error of
       Some msg \<Rightarrow> act_raise QueueRunnerError (''Queue lease heartbeat failed: '' @ msg)
     | None \<Rightarrow>
         act_bind (complete_act k jid owner result) (\<lambda>completed.
         act_bind (journal_act k journaled ''job-completed'' (completed_payload jid rid wid result)) (\<lambda>_.
           act_return (JObj [(''job'', completed), (''worker_id'', JStr wid), (''result'', result)])))))))"

definition job_failed ::
    "controller \<Rightarrow> bool \<Rightarrow> json \<Rightarrow> string \<Rightarrow> string \<Rightarrow> string \<Rightarrow> string \<Rightarrow> exn \<Rightarrow> (ctl, json) act" where
  "job_failed k journaled job jid rid wid owner e =
     act_bind (fail_act k jid owner (exn_str e)) (\<lambda>failed.
     act_bind (journal_act k journaled ''job-failed'' (failed_payload k job rid wid e failed)) (\<lambda>_.
       reraise_as QueueRunnerError '''' e))"

definition execute_leased_job ::
    "controller \<Rightarrow> bool \<Rightarrow> json \<Rightarrow> string \<Rightarrow> int \<Rightarrow> int \<Rightarrow> int \<Rightarrow> (ctl, json) act" where
  "execute_leased_job k journaled job owner secs timeout threshold =
     act_bind (act_res (materialize_job k job)) (\<lambda>mt.
     let rid = text_field ''runtime_id'' job in
     act_bind (pick_worker k mt rid) (\<lambda>wid.
     act_bind (act_res (if journaled then py_int (py_or (get_none ''attempts'' job) (JInt 0)) else Inr 0)) (\<lambda>attempts.
     act_bind (journal_act k journaled ''job-started'' (started_payload job rid wid owner attempts)) (\<lambda>_.
     act_bind (act_res (jitem ''job_id'' job)) (\<lambda>j.
     let jid = py_str j in
     act_try (run_leased k journaled mt jid rid wid owner secs timeout threshold)
       (job_failed k journaled job jid rid wid owner))))))"


section \<open>Serving the queue\<close>

definition run_queue_once ::
    "controller \<Rightarrow> bool \<Rightarrow> string \<Rightarrow> string list \<Rightarrow> int \<Rightarrow> int \<Rightarrow> int \<Rightarrow> (ctl, json option) act" where
  "run_queue_once k journaled owner rids secs timeout threshold =
     act_bind event_act (\<lambda>n. act_bind (now_act k) (\<lambda>t. act_bind (now_act k) (\<lambda>t'.
     act_bind (on_queue (claim (m_H k) t t' (k_pick k n) owner rids secs)) (\<lambda>claimed. case claimed of
       None \<Rightarrow> act_return None
     | Some job \<Rightarrow>
         act_bind (execute_leased_job k journaled job owner secs timeout threshold) (\<lambda>v. act_return (Some v))))))"

record serve_counts =
  sv_processed :: nat
  sv_passed :: nat
  sv_failed :: nat

definition count_passed :: "serve_counts \<Rightarrow> serve_counts" where
  "count_passed c = c\<lparr>sv_processed := Suc (sv_processed c), sv_passed := Suc (sv_passed c)\<rparr>"

definition count_failed :: "serve_counts \<Rightarrow> serve_counts" where
  "count_failed c = c\<lparr>sv_processed := Suc (sv_processed c), sv_failed := Suc (sv_failed c)\<rparr>"

text \<open>
  The loop of \<open>serve_queue\<close>. Without \<open>max_jobs\<close> it never ends on its own, so the loop has fuel: no
  result (\<open>None\<close>) means that it is still running after that many rounds. A round that finds no job
  ends the loop when \<open>max_jobs\<close> is given and sleeps otherwise; only errors of the package are
  counted, any other exception leaves the loop.
\<close>

definition pause :: "int option \<Rightarrow> rat \<Rightarrow> (ctl, unit) act" where
  "pause max_jobs poll = (case max_jobs of None \<Rightarrow> on_world (sleep poll) | Some _ \<Rightarrow> act_return ())"

fun serve_loop ::
    "(ctl, json option) act \<Rightarrow> int option \<Rightarrow> rat \<Rightarrow> nat \<Rightarrow> serve_counts \<Rightarrow> (ctl, serve_counts option) act" where
  "serve_loop once max_jobs poll fuel c =
     (if (case max_jobs of None \<Rightarrow> False | Some n \<Rightarrow> n \<le> int (sv_processed c)) then act_return (Some c)
      else (case fuel of 0 \<Rightarrow> act_return None
        | Suc fuel' \<Rightarrow> act_bind (act_catch once) (\<lambda>r. case r of
            Inr (Some v) \<Rightarrow> serve_loop once max_jobs poll fuel' (count_passed c)
          | Inr None \<Rightarrow>
              (if max_jobs \<noteq> None then act_return (Some c)
               else act_bind (pause max_jobs poll) (\<lambda>_. serve_loop once max_jobs poll fuel' c))
          | Inl e \<Rightarrow>
              (if is_psmatrix_error e
               then act_bind (pause max_jobs poll) (\<lambda>_. serve_loop once max_jobs poll fuel' (count_failed c))
               else act_res (Inl e)))))"

declare serve_loop.simps [simp del]

definition serve_summary ::
    "string \<Rightarrow> string list \<Rightarrow> instant \<Rightarrow> instant \<Rightarrow> serve_counts \<Rightarrow> json \<Rightarrow> json \<Rightarrow> json" where
  "serve_summary owner rids started finished c reconciliation journal = JObj
     [(''schema'', JInt 1), (''kind'', JStr ''psmatrix.fleet-queue-runner-summary''), (''owner'', JStr owner),
      (''runtime_ids'', JArr (map JStr rids)), (''started_at'', JStr (iso started)),
      (''finished_at'', JStr (iso finished)), (''processed'', JInt (int (sv_processed c))),
      (''passed'', JInt (int (sv_passed c))), (''failed'', JInt (int (sv_failed c))),
      (''queue_reconciliation'', reconciliation), (''recovery_journal'', journal)]"

definition serve_queue ::
    "controller \<Rightarrow> bool \<Rightarrow> string \<Rightarrow> string list \<Rightarrow> int \<Rightarrow> int \<Rightarrow> int \<Rightarrow> rat \<Rightarrow> int option \<Rightarrow> nat
      \<Rightarrow> (ctl, json option) act" where
  "serve_queue k journaled owner rids secs timeout threshold poll max_jobs fuel =
     (if poll < 1/10 \<or> 300 < poll
      then act_raise QueueRunnerError ''Queue poll interval is outside the supported range''
      else if (case max_jobs of None \<Rightarrow> False | Some n \<Rightarrow> \<not> (1 \<le> n \<and> n \<le> 100000))
      then act_raise QueueRunnerError ''Queue max_jobs is outside the supported range''
      else
        act_bind (now_act k) (\<lambda>started.
        act_bind (now_act k) (\<lambda>t. act_bind (now_act k) (\<lambda>t'.
        act_bind (on_queue (reconcile (m_H k) t t')) (\<lambda>reconciliation.
        act_bind (if journaled then act_bind (on_journal (repair_torn_tail (m_H k))) (\<lambda>_.
            journal_act k True ''controller-started'' (JObj [(''owner'', JStr owner),
              (''runtime_ids'', JArr (map JStr (sort rids))), (''queue_reconciliation'', reconciliation)]))
          else act_return ()) (\<lambda>_.
        act_bind (serve_loop (run_queue_once k journaled owner rids secs timeout threshold) max_jobs poll fuel
          \<lparr>sv_processed = 0, sv_passed = 0, sv_failed = 0\<rparr>) (\<lambda>done. case done of
          None \<Rightarrow> act_return None
        | Some c \<Rightarrow>
            act_bind (now_act k) (\<lambda>finished.
            act_bind (if journaled then on_journal (\<lambda>f. (f, verify_journal (m_H k) f)) else act_return JNull) (\<lambda>journal.
              act_return (Some (serve_summary owner rids started finished c reconciliation journal)))))))))))"

section \<open>Termination\<close>

text \<open>A finished loop: consistent counts within the limit, or an error from outside the package\<close>

definition serve_ended :: "int \<Rightarrow> serve_counts option res \<Rightarrow> bool" where
  "serve_ended n r \<longleftrightarrow> (case r of
      Inr c \<Rightarrow> (case c of None \<Rightarrow> False | Some c' \<Rightarrow> sv_processed c' = sv_passed c' + sv_failed c' \<and> int (sv_processed c') \<le> n)
    | Inl e \<Rightarrow> \<not> is_psmatrix_error e)"

lemma serve_loop_ends:
  assumes "n \<le> int (sv_processed c) + int fuel" "sv_processed c = sv_passed c + sv_failed c"
    "int (sv_processed c) \<le> n"
  shows "serve_ended n (snd (serve_loop once (Some n) poll fuel c s))"
  using assms
proof (induction fuel arbitrary: c s)
  case 0
  then show ?case by (simp add: serve_loop.simps [of _ _ _ 0] serve_ended_def)
next
  case (Suc fuel)
  show ?case
  proof (cases "n \<le> int (sv_processed c)")
    case True
    with Suc.prems show ?thesis by (simp add: serve_loop.simps serve_ended_def)
  next
    case False
    obtain s' r where o: "once s = (s', r)" by (cases "once s")
    note step = act_bind_Inr [where m = "act_catch once", OF act_catch_eq [where m = once, OF o]]
    have counts: "n \<le> int (sv_processed c') + int fuel" "sv_processed c' = sv_passed c' + sv_failed c'"
      "int (sv_processed c') \<le> n" if "c' \<in> {count_passed c, count_failed c}" for c'
      using that Suc.prems False by (auto simp: count_passed_def count_failed_def)
    note IH = Suc.IH [OF counts]
    have "serve_ended n (Inr (Some c))" using Suc.prems False by (simp add: serve_ended_def)
    moreover have "\<not> is_psmatrix_error e \<Longrightarrow> serve_ended n (Inl e)" for e by (simp add: serve_ended_def)
    ultimately show ?thesis
      using False IH [of "count_passed c"] IH [of "count_failed c"]
      by (subst serve_loop.simps) (simp add: step pause_def split: sum.split option.split)
  qed
qed

end
