(* ===== verification/Psm_RunnerProps.thy ===== *)
theory Psm_RunnerProps
  imports Psm_Runner Psm_QueueProps
begin

text \<open>
  What the controller guarantees about a job that succeeds, over the trace of what it did, that serving a bounded number of jobs
  ends, and what becomes of a claimed job that cannot be turned into a run.
\<close>

section \<open>Frames\<close>

text \<open>The steps of a managed job change neither the queue nor the journal.\<close>

abbreviation keeps_queue :: "(ctl, 'a) act \<Rightarrow> bool" where
  "keeps_queue \<equiv> keeps (\<lambda>s. (ct_queue s, ct_journal s))"

lemma keeps_parts [frame_intros]: "keeps_queue (on_world m)" "keeps_queue (on_registry m')"
  unfolding on_world_def on_registry_def by (rule keeps_on, simp)+

lemma keeps_events [frame_intros]: "keeps_queue event_act" "keeps_queue (now_act k)" "keeps_queue (log_act a)"
  by (auto simp: event_act_def now_act_def log_act_def intro!: frame_intros)

lemma keeps_health [frame_intros]:
  "keeps_queue (health_act k wid passed c e t)" "keeps_queue (worker_record k wid)"
  "keeps_queue (reraise_as cl p x)" "keeps_queue (managed_failure k wid t x)"
  by (auto simp: health_act_def worker_record_def reraise_as_def managed_failure_def intro!: frame_intros)

lemma keeps_probe [frame_intros]: "keeps_queue (probe_fleet_worker k wid timeout threshold)"
  unfolding probe_fleet_worker_def by (intro frame_intros)

lemma keeps_reset [frame_intros]: "keeps_queue (managed_reset k worker phase)"
  unfolding managed_reset_def Let_def by (auto intro!: frame_intros)

lemma keeps_remote [frame_intros]: "keeps_queue (run_remote_job k worker endpoint wid sub timeout threshold)"
  unfolding run_remote_job_def by (auto intro!: frame_intros)

lemma keeps_managed [frame_intros]: "keeps_queue (execute_managed_fleet_job k wid sub timeout threshold)"
  unfolding execute_managed_fleet_job_def managed_finish_def managed_success_def
  by (auto intro!: frame_intros split: sum.split)

lemma keeps_pick [frame_intros]: "keeps_queue (pick_worker k mt rid)"
  unfolding pick_worker_def by (auto intro!: frame_intros split: option.split list.split)


lemma keepsE:
  assumes "keeps_queue m" "m s = (s', r)"
  shows "ct_queue s' = ct_queue s" "ct_journal s' = ct_journal s"
  using keepsD [OF assms] by simp_all

section \<open>Serving ends\<close>






section \<open>A successful job\<close>

lemma reset_keeps_registry: "keeps ct_registry (managed_reset k worker phase)"
proof -
  have "keeps ct_registry (on_world m)" for m :: "(world, 'a) act"
    unfolding on_world_def by (rule keeps_on) simp
  then show ?thesis unfolding managed_reset_def by (auto intro!: frame_intros)
qed

lemma managed_reset_run:
  assumes "managed_reset k worker phase s = (s', Inr r)" "reset_settings k worker = Inr (c, priv, pub)"
  obtains failed n where
    "w_trace (ct_world s') = w_trace (ct_world s) @ failed @ reset_trace c phase n" "list_all is_ran failed"
    "w_events (ct_world s) \<le> n" "n + 4 < w_events (ct_world s')"
    "proved_reset (machine.truncate k) c phase (path_text priv) (path_text pub) n (fst r)"
    "is_value (verify_snapshot_attestation (machine.truncate k) (fst r) (path_text pub)
       (sc_worker_id c) (sc_vm_id c) (sc_snapshot_id c) phase)"
proof -
  from assms obtain w' attempts attestation v where
    run: "restore_snapshot_with_recovery (machine.truncate k) c phase (path_text priv) (path_text pub) managed_policy
      (ct_world s) = (w', Inr (attempts, attestation, v))"
    and s': "ct_world s' = w'" and r: "fst r = attestation"
    unfolding managed_reset_def by (auto simp: act_bind_result on_world_def act_on_def split: prod.splits)
  from recovered_reset_run [OF run] show ?thesis unfolding s' [symmetric] r [symmetric]
    by (elim exE conjE) (rule that, simp_all add: is_value_def)
qed

lemma managed_reset_settings:
  "managed_reset k worker phase s = (s', Inr r) \<Longrightarrow> \<exists>c priv pub. reset_settings k worker = Inr (c, priv, pub)"
  unfolding managed_reset_def act_bind_result by auto

lemma health_act_world: "health_act k wid passed c e t s = (s', r) \<Longrightarrow>
    w_trace (ct_world s') = w_trace (ct_world s) \<and> w_events (ct_world s') = w_events (ct_world s) + 2"
  by (auto simp: health_act_def now_act_def event_act_def on_world_def on_registry_def act_on_def act_bind_def
      next_event_def split: prod.splits)

lemma probe_result:
  assumes "probe_fleet_worker k wid timeout threshold s = (s', Inr health)"
    "get_worker (m_H k) wid (ct_registry s) = Inr worker" "load_endpoint k worker = Inr endpoint"
  shows "k_probe k (w_events (ct_world s)) endpoint timeout = Inr health
    \<and> w_trace (ct_world s') = w_trace (ct_world s) @ [Probed (w_events (ct_world s)) endpoint]
    \<and> w_events (ct_world s) < w_events (ct_world s')"
  using assms
  by (auto simp: probe_fleet_worker_def worker_record_def act_bind_def act_try_def on_registry_def on_world_def
      act_on_def event_act_def log_act_def log_action_def next_event_def reraise_as_def
      split: prod.splits sum.splits if_splits dest!: health_act_world)

text \<open>C19: A managed job that succeeds ran on an active worker between two proved snapshot resets. The
  worker is the one the registry holds under this identity, and what the controller did outside
  the process is, in this order: commands of failed resets, the reset before the job, one probe of
  this worker's endpoint, one submission of this job to the same endpoint, commands of failed
  resets, and the reset after the job. Both resets are proved by the machine's answers to their
  commands and their attestations are the result's; the probe reported the enrolled runtime, the
  report is the answer to this submission, and neither the queue nor the journal was touched.\<close>

theorem managed_job_sound:
  assumes "execute_managed_fleet_job k wid sub timeout threshold s = (s', Inr v)"
  shows "\<exists>worker endpoint c priv pub i p n j failed failed' before after health remote.
    get_worker (m_H k) wid (ct_registry s) = Inr worker \<and> get_none ''state'' worker = JStr ''ACTIVE''
    \<and> load_endpoint k worker = Inr endpoint \<and> reset_settings k worker = Inr (c, priv, pub)
    \<and> w_trace (ct_world s') = w_trace (ct_world s) @ failed @ reset_trace c ''before'' i
        @ [Probed p endpoint, Submitted n endpoint sub] @ failed' @ reset_trace c ''after'' j
    \<and> list_all is_ran failed \<and> list_all is_ran failed'
    \<and> w_events (ct_world s) < i \<and> i + 4 < p \<and> p < n \<and> n < j
    \<and> proved_reset (machine.truncate k) c ''before'' (path_text priv) (path_text pub) i (fst before)
    \<and> proved_reset (machine.truncate k) c ''after'' (path_text priv) (path_text pub) j (fst after)
    \<and> k_probe k p endpoint (min timeout 60) = Inr health
    \<and> py_eq (get_none ''runtime_id'' health) (get_none ''runtime_id'' worker)
    \<and> k_submit k n endpoint sub timeout = Inr remote
    \<and> get_none ''report'' v = get_none ''report'' remote
    \<and> get_none ''snapshot_reset'' v = JObj [(''before'', reset_pair before), (''after'', reset_pair after)]
    \<and> ct_queue s' = ct_queue s \<and> ct_journal s' = ct_journal s"
proof -
  note keep = keepsE [OF keeps_managed assms]
  from assms obtain worker endpoint started body reset s1 s3 s4 where
    w: "get_worker (m_H k) wid (ct_registry s) = Inr worker" "get_none ''state'' worker = JStr ''ACTIVE''"
      "load_endpoint k worker = Inr endpoint"
    and s1: "now_act k s = (s1, Inr started)"
    and body: "run_remote_job k worker endpoint wid sub timeout threshold s1 = (s3, body)"
    and reset: "managed_reset k worker ''after'' s3 = (s4, reset)"
    and rest: "managed_finish k wid worker started threshold body reset s4 = (s', Inr v)"
    unfolding execute_managed_fleet_job_def act_bind_result
    by (auto simp: worker_record_def on_registry_def act_on_def act_catch_result act_bind_result
        split: if_split_asm)
  have fails: "snd (managed_failure k wid threshold e t) \<noteq> Inr x" for e t x
    by (auto simp: managed_failure_def act_bind_def reraise_as_def split: prod.split sum.split)
  obtain before remote where b: "body = Inr (before, remote)"
    using rest fails by (cases body) (auto simp: managed_finish_def prod_eq_iff)
  obtain after where a: "reset = Inr after"
    using rest fails b by (cases reset) (auto simp: managed_finish_def prod_eq_iff)
  from rest obtain report status finished s5 where
    v: "v = managed_result wid worker (JStr (iso started)) (JStr (iso finished)) before after remote report status"
    and r: "jsub ''report'' remote = Inr report" and s': "w_trace (ct_world s') = w_trace (ct_world s4)"
    unfolding a b
    by (auto simp: managed_finish_def managed_success_def act_bind_result now_act_def event_act_def on_world_def
        act_on_def next_event_def split: prod.splits dest!: health_act_world)
  from r have "report = get_none ''report'' remote"
    by (auto simp: jsub_def jitem_def get_or_def split: if_splits option.splits)
  with v have fields: "get_none ''report'' v = get_none ''report'' remote"
    "get_none ''snapshot_reset'' v = JObj [(''before'', reset_pair before), (''after'', reset_pair after)]"
    by (simp_all add: managed_result_def get_or_def)
  from body b obtain s2 health s2' where first: "managed_reset k worker ''before'' s1 = (s2, Inr before)"
    and probe: "probe_fleet_worker k wid (min timeout 60) threshold s2 = (s2', Inr health)"
    and runtime: "py_eq (get_none ''runtime_id'' health) (get_none ''runtime_id'' worker)"
    and submit: "k_submit k (w_events (ct_world s2')) endpoint sub timeout = Inr remote"
      "w_trace (ct_world s3) = w_trace (ct_world s2') @ [Submitted (w_events (ct_world s2')) endpoint sub]"
      "w_events (ct_world s3) = Suc (w_events (ct_world s2'))"
    unfolding run_remote_job_def
    by (auto simp: act_bind_result dget_def event_act_def log_act_def log_action_def on_world_def act_on_def
        next_event_def split: if_split_asm)
  from managed_reset_settings [OF first] obtain c priv pub where c: "reset_settings k worker = Inr (c, priv, pub)" by blast
  have "ct_registry s1 = ct_registry s" and ev: "w_events (ct_world s1) = Suc (w_events (ct_world s))"
    "w_trace (ct_world s1) = w_trace (ct_world s)"
    using s1 by (auto simp: now_act_def event_act_def on_world_def act_on_def next_event_def act_bind_def)
  then have "ct_registry s2 = ct_registry s" using keepsD [OF reset_keeps_registry first] by simp
  with w have probed: "k_probe k (w_events (ct_world s2)) endpoint (min timeout 60) = Inr health"
      "w_trace (ct_world s2') = w_trace (ct_world s2) @ [Probed (w_events (ct_world s2)) endpoint]"
      "w_events (ct_world s2) < w_events (ct_world s2')"
    using probe_result [OF probe] by auto
  from managed_reset_run [OF first c] obtain failed i where before:
    "w_trace (ct_world s2) = w_trace (ct_world s1) @ failed @ reset_trace c ''before'' i" "list_all is_ran failed"
    "w_events (ct_world s1) \<le> i" "i + 4 < w_events (ct_world s2)"
    "proved_reset (machine.truncate k) c ''before'' (path_text priv) (path_text pub) i (fst before)" .
  from managed_reset_run [OF reset [unfolded a] c] obtain failed' j where after:
    "w_trace (ct_world s4) = w_trace (ct_world s3) @ failed' @ reset_trace c ''after'' j" "list_all is_ran failed'"
    "w_events (ct_world s3) \<le> j"
    "proved_reset (machine.truncate k) c ''after'' (path_text priv) (path_text pub) j (fst after)" .
  let ?p = "w_events (ct_world s2)" and ?n = "w_events (ct_world s2')"
  have "w_trace (ct_world s') = w_trace (ct_world s) @ failed @ reset_trace c ''before'' i
        @ [Probed ?p endpoint, Submitted ?n endpoint sub] @ failed' @ reset_trace c ''after'' j"
    by (simp add: s' after(1) submit(2) probed(2) before(1) ev(2))
  moreover have "w_events (ct_world s) < i" "i + 4 < ?p" "?p < ?n" "?n < j"
    using before(3,4) after(3) probed(3) submit(3) ev(1) by simp_all
  ultimately show ?thesis
    using w c before(2,5) after(2,4) probed(1) runtime submit(1) fields keep by blast
qed


section \<open>A job that cannot be run\<close>

text \<open>The state after the claim of a round: three events later, with the queue the claim left\<close>

definition after_claim :: "queue_store \<Rightarrow> ctl \<Rightarrow> ctl" where
  "after_claim q s = s\<lparr>ct_queue := q, ct_world := (ct_world s)\<lparr>w_events := w_events (ct_world s) + 3\<rparr>\<rparr>"

definition claim_at :: "controller \<Rightarrow> string \<Rightarrow> string list \<Rightarrow> int \<Rightarrow> ctl \<Rightarrow> queue_store \<times> json option res" where
  "claim_at k owner rids secs s = (let n = w_events (ct_world s) in
     claim (m_H k) (m_clock k (n + 1)) (m_clock k (n + 2)) (k_pick k n) owner rids secs (ct_queue s))"

lemma run_queue_once_claim:
  assumes "claim_at k owner rids secs s = (q, Inr (Some job))"
  shows "run_queue_once k journaled owner rids secs timeout threshold s =
    act_bind (execute_leased_job k journaled job owner secs timeout threshold) (\<lambda>v. act_return (Some v))
      (after_claim q s)"
proof -
  have s3: "s\<lparr>ct_world := (ct_world s)\<lparr>w_events := Suc (Suc (Suc (w_events (ct_world s))))\<rparr>, ct_queue := q\<rparr> = after_claim q s"
    by (simp add: after_claim_def eval_nat_numeral)
  show ?thesis
    using assms unfolding s3 [symmetric]
    by (simp add: run_queue_once_def claim_at_def Let_def act_bind_def event_act_def now_act_def on_world_def
        on_queue_def act_on_def next_event_def eval_nat_numeral)
qed

text \<open>C20: A claimed job whose payload cannot be materialized, or for which no worker is available, is
  not failed: the error leaves the queue as the claim left it, with the row leased to this
  controller, nothing in the journal and the registry untouched, so the job is blocked until its
  lease lapses.\<close>

theorem unrunnable_job_stays_leased:
  assumes ok: "db_ok (m_H k) (qs_db (ct_queue s))"
    and claim: "claim_at k owner rids secs s = (q, Inr (Some job))"
    and fails: "snd (act_bind (act_res (materialize_job k job))
      (\<lambda>mt. pick_worker k mt (text_field ''runtime_id'' job)) (after_claim q s)) = Inl e"
  shows "run_queue_once k journaled owner rids secs timeout threshold s = (after_claim q s, Inl e)
    \<and> (\<exists>jid row. get_none ''job_id'' job = JStr jid \<and> row_of jid q = Some row
        \<and> j_state row = LEASED \<and> j_lease_owner row = Some owner)"
proof
  have pick: "fst (pick_worker k mt rid t) = t" for mt rid t
    by (auto simp: pick_worker_def act_bind_def on_registry_def act_on_def split: option.split list.split sum.split)
  have "execute_leased_job k journaled job owner secs timeout threshold (after_claim q s) = (after_claim q s, Inl e)"
  proof (cases "materialize_job k job")
    case (Inr mt)
    with fails pick [of mt "text_field ''runtime_id'' job" "after_claim q s"]
    have "pick_worker k mt (text_field ''runtime_id'' job) (after_claim q s) = (after_claim q s, Inl e)"
      by (simp add: prod_eq_iff)
    with Inr show ?thesis by (simp add: execute_leased_job_def Let_def act_bind_Inl)
  qed (use fails in \<open>simp add: execute_leased_job_def\<close>)
  then show "run_queue_once k journaled owner rids secs timeout threshold s = (after_claim q s, Inl e)"
    unfolding run_queue_once_claim [OF claim] by (rule act_bind_Inl)
  obtain t t' pk where c: "claim (m_H k) t t' pk owner rids secs (ct_queue s) = (q, Inr (Some job))"
    using claim unfolding claim_at_def Let_def by blast
  show "\<exists>jid row. get_none ''job_id'' job = JStr jid \<and> row_of jid q = Some row
        \<and> j_state row = LEASED \<and> j_lease_owner row = Some owner"
  proof (rule claim_grants [OF ok])
    show "snd (claim (m_H k) t t' pk owner rids secs (ct_queue s)) = Inr (Some job)"
      by (simp only: c snd_conv)
  next
    fix row assume r: "row \<in> set (first_rows rids (map (expire_if t) (q_jobs (qs_db (ct_queue s)))))"
      "get_none ''job_id'' job = JStr (j_id row)"
      "q_jobs (qs_db (fst (claim (m_H k) t t' pk owner rids secs (ct_queue s)))) =
       upd_by j_id (j_id row) (lease_row t owner secs (j_attempts row + 1))
         (map (expire_if t) (q_jobs (qs_db (ct_queue s))))"
    have "row_of (j_id row) q = Some (lease_row t owner secs (j_attempts row + 1) row)"
      using claimed_row(1) [OF ok r(1), of "lease_row t owner secs (j_attempts row + 1)"] r(3)
      by (simp add: c lease_row_def)
    with r(2) show ?thesis by (intro exI) (auto simp: lease_row_def)
  qed
qed

text \<open>Likewise an error whose text is empty or longer than 8192 characters: \<open>queue.fail\<close> refuses it, and the
  refusal is taken for a lost lease.\<close>

lemma unreportable_failure_keeps_lease:
  assumes "exn_str e = '''' \<or> 8192 < length (exn_str e)"
  shows "ct_queue (fst (job_failed k False job jid rid wid owner e s)) = ct_queue s"
  using assms
  by (auto simp: job_failed_def fail_act_def fail_def act_bind_def act_try_def on_queue_def act_on_def now_act_def
      event_act_def on_world_def next_event_def journal_act_def reraise_as_def)


section \<open>Witnesses\<close>

definition tool_H :: "string \<Rightarrow> string" where
  "tool_H s = replicate 64 (CHR ''0'')"

definition sample_worker :: json where
  "sample_worker = JObj
     [(''worker_id'', JStr ''w1''), (''runtime_id'', JStr ''windows-powershell-5.1''), (''endpoint'', JStr ''/e.json''),
      (''state'', JStr ''ACTIVE''), (''priority'', JInt 1), (''labels'', JObj []), (''consecutive_failures'', JInt 0),
      (''successes'', JInt 0), (''failures'', JInt 0),
      (''managed_reset'', JObj [(''snapshot_config'', JStr ''/s.json''), (''private_key'', JStr ''/k''), (''public_key'', JStr ''/p'')])]"

definition sample_registry :: json where
  "sample_registry = JObj [(''schema'', JInt 1), (''generation'', JInt 1), (''workers'', JArr [sample_worker]),
     (''digest'', JStr (tool_H ''''))]"

definition config_json :: json where
  "config_json = JObj
     [(''schema'', JInt 1), (''adapter_id'', JStr ''a''), (''provider'', JStr ''hyper-v''), (''worker_id'', JStr ''w1''),
      (''vm_id'', JStr ''vm''), (''snapshot_id'', JStr ''s''), (''restore_command'', JArr [JStr ''restore'']),
      (''measure_command'', JArr [JStr ''measure'']), (''expected_after'', JObj [(''state'', JStr ''clean-w1'')])]"

definition sample_controller :: controller where
  "sample_controller = \<lparr>m_H = tool_H, m_clock = (\<lambda>_. 0), m_run = m_run sample_machine, m_sign = m_sign sample_machine,
     m_check = m_check sample_machine,
     m_files = Folder [(''s.json'', RegFile (utf8 (dumps config_json))), (''k'', RegFile ''''), (''p'', RegFile '''')],
     k_endpoint = (\<lambda>p. Inr (JStr p)),
     k_probe = (\<lambda>_ _ _. Inr (JObj [(''runtime_id'', JStr ''windows-powershell-5.1''), (''capabilities'', JObj [])])),
     k_submit = (\<lambda>_ _ _ _. Inr (JObj [(''capabilities'', JObj []), (''report'', JObj [(''status'', JStr ''PASS'')])])),
     k_beats = (\<lambda>_. []), k_uid = nat_str, k_pick = (\<lambda>_. 0), k_expanduser = Inr, k_cwd = [''srv'']\<rparr>"

definition sample_ctl :: ctl where
  "sample_ctl = \<lparr>ct_world = \<lparr>w_events = 0, w_slept = [], w_trace = []\<rparr>, ct_queue = demo_store QUEUED 0,
     ct_registry = Some sample_registry, ct_journal = None\<rparr>"

definition sample_submission :: submission where
  "sample_submission = \<lparr>sb_root = [''r''], sb_files = [], sb_entrypoint = [''r'', ''a.ps1''], sb_options = JObj []\<rparr>"

lemma valueE:
  assumes "is_value (snd (m s))" obtains s' x where "m s = (s', Inr x)"
  using assms by (cases "m s") (auto simp: is_value_def split: sum.splits)

lemma sample_settings: "\<exists>c priv pub. reset_settings sample_controller sample_worker = Inr (c, priv, pub)
    \<and> expand_expected c = [(''state'', JStr ''clean-w1'')]"
proof -
  have "case reset_settings sample_controller sample_worker of
      Inr (c, _, _) \<Rightarrow> expand_expected c = [(''state'', JStr ''clean-w1'')] | Inl e \<Rightarrow> False" by code_simp
  then show ?thesis by (auto split: sum.splits)
qed

lemma sample_reset_ok:
  assumes "phase \<in> {''before'', ''after'', ''maintenance''}"
  obtains s' r where "managed_reset sample_controller sample_worker phase s = (s', Inr r)"
proof -
  obtain c priv pub where c: "reset_settings sample_controller sample_worker = Inr (c, priv, pub)"
    "expand_expected c = [(''state'', JStr ''clean-w1'')]" using sample_settings by blast
  have "answers_clean (machine.truncate sample_controller)" "policy_ok managed_policy"
    by (simp_all add: answers_clean_def sample_controller_def machine.truncate_def managed_policy_def policy_ok_def)
  from clean_reset [OF this(1) assms this(2) c(2)] obtain w' r where
    "restore_snapshot_with_recovery (machine.truncate sample_controller) c phase (path_text priv) (path_text pub)
      managed_policy (ct_world s) = (w', Inr r)" by blast
  then show ?thesis
    by (cases r) (rule that, simp add: managed_reset_def c(1) act_bind_def on_world_def act_on_def)
qed

lemma sample_parts [simp]: "m_H sample_controller = tool_H" "m_clock sample_controller n = 0"
  "k_endpoint sample_controller p = Inr (JStr p)"
  "k_probe sample_controller n e t = Inr (JObj [(''runtime_id'', JStr ''windows-powershell-5.1''), (''capabilities'', JObj [])])"
  "k_submit sample_controller n e sb t = Inr (JObj [(''capabilities'', JObj []), (''report'', JObj [(''status'', JStr ''PASS'')])])"
  by (simp_all add: sample_controller_def)

lemma now_act_eq: "now_act k s = (s\<lparr>ct_world := (ct_world s)\<lparr>w_events := Suc (w_events (ct_world s))\<rparr>\<rparr>,
    Inr (m_clock k (w_events (ct_world s))))"
  by (simp add: now_act_def event_act_def on_world_def act_on_def next_event_def act_bind_def)

lemma sample_health:
  assumes "record_health tool_H 0 0 wid passed c e t (ct_registry s) = (f, r)"
  shows "\<exists>s'. health_act sample_controller wid passed c e t s = (s', r) \<and> ct_registry s' = f"
  using assms by (simp add: health_act_def act_bind_def now_act_eq on_registry_def act_on_def)

lemma sample_worker_found: "get_worker tool_H ''w1'' (Some sample_registry) = Inr sample_worker"
  by code_simp

lemma sample_health_value:
  "is_value (snd (record_health tool_H 0 0 ''w1'' True (JObj []) [] 3 (Some sample_registry)))"
  "is_value (snd (record_health tool_H 0 0 ''w1'' True (JObj []) [] 3
     (fst (record_health tool_H 0 0 ''w1'' True (JObj []) [] 3 (Some sample_registry)))))"
  by code_simp+

lemma sample_fields: "get_none ''state'' sample_worker = JStr ''ACTIVE''"
  "load_endpoint sample_controller sample_worker = Inr (JStr ''/e.json'')"
  "get_none ''runtime_id'' sample_worker = JStr ''windows-powershell-5.1''"
  by (simp_all add: sample_worker_def load_endpoint_def jitem_def get_or_def py_str_def)

lemma sample_health_runtime: "get_none ''runtime_id'' (JObj [(''runtime_id'', x), (''capabilities'', c)]) = x"
  by (simp add: get_or_def)

lemma sample_probe:
  assumes "ct_registry s = Some sample_registry"
  shows "\<exists>s'. probe_fleet_worker sample_controller ''w1'' timeout 3 s =
      (s', Inr (JObj [(''runtime_id'', JStr ''windows-powershell-5.1''), (''capabilities'', JObj [])]))
    \<and> ct_registry s' = fst (record_health tool_H 0 0 ''w1'' True (JObj []) [] 3 (Some sample_registry))"
proof -
  obtain n s0 where e: "event_act s = (s0, Inr n)" and r0: "ct_registry s0 = Some sample_registry"
    using assms by (simp add: event_act_def on_world_def act_on_def next_event_def)
  obtain s1 where l: "log_act (Probed n (JStr ''/e.json'')) s0 = (s1, Inr ())" and r1: "ct_registry s1 = Some sample_registry"
    using r0 by (simp add: log_act_def log_action_def on_world_def act_on_def)
  obtain f x where h: "record_health tool_H 0 0 ''w1'' True (JObj []) [] 3 (ct_registry s1) = (f, Inr x)"
    using sample_health_value(1) r1 by (auto elim!: valueE)
  from sample_health [OF h] obtain s2 where
    "health_act sample_controller ''w1'' True (JObj []) [] 3 s1 = (s2, Inr x)" "ct_registry s2 = f" by blast
  with e l h r1 assms show ?thesis
    by (simp add: probe_fleet_worker_def worker_record_def on_registry_def act_on_def act_bind_def act_try_def
        sample_worker_found sample_fields jsub_def jitem_def)
qed

lemma sample_job_runs:
  "is_value (snd (execute_managed_fleet_job sample_controller ''w1'' sample_submission 600 3 sample_ctl))"
proof -
  let ?k = sample_controller
  let ?s = "fst (now_act ?k sample_ctl)"
  have r0: "ct_registry sample_ctl = Some sample_registry" "ct_registry ?s = Some sample_registry"
    by (simp_all add: sample_ctl_def now_act_eq)
  obtain s2 before where b: "managed_reset ?k sample_worker ''before'' ?s = (s2, Inr before)"
    by (rule sample_reset_ok [of "''before''"]) simp_all
  then have r2: "ct_registry s2 = Some sample_registry" using keepsD [OF reset_keeps_registry b] r0 by simp
  obtain s3 where p: "probe_fleet_worker ?k ''w1'' 60 3 s2 =
      (s3, Inr (JObj [(''runtime_id'', JStr ''windows-powershell-5.1''), (''capabilities'', JObj [])]))"
    "ct_registry s3 = fst (record_health tool_H 0 0 ''w1'' True (JObj []) [] 3 (Some sample_registry))"
    using sample_probe [OF r2] by blast
  let ?s4 = "fst (log_act (Submitted (w_events (ct_world s3)) (JStr ''/e.json'') sample_submission) (fst (event_act s3)))"
  have body: "run_remote_job ?k sample_worker (JStr ''/e.json'') ''w1'' sample_submission 600 3 ?s =
      (?s4, Inr (before, JObj [(''capabilities'', JObj []), (''report'', JObj [(''status'', JStr ''PASS'')])]))"
    using b p by (simp add: run_remote_job_def act_bind_def dget_def sample_health_runtime sample_fields event_act_def on_world_def
        act_on_def next_event_def log_act_def log_action_def)
  obtain s5 after where a: "managed_reset ?k sample_worker ''after'' ?s4 = (s5, Inr after)"
    by (rule sample_reset_ok [of "''after''"]) simp_all
  have r5: "ct_registry s5 = fst (record_health tool_H 0 0 ''w1'' True (JObj []) [] 3 (Some sample_registry))"
    using keepsD [OF reset_keeps_registry a] p(2) by (simp add: event_act_def on_world_def act_on_def next_event_def log_act_def log_action_def)
  obtain f x where h: "record_health tool_H 0 0 ''w1'' True (JObj []) [] 3 (ct_registry s5) = (f, Inr x)"
    using sample_health_value(2) r5 by (auto elim!: valueE)
  from sample_health [OF h] obtain s6 where "health_act ?k ''w1'' True (JObj []) [] 3 s5 = (s6, Inr x)" by blast
  with body a r0 show ?thesis
    by (simp add: execute_managed_fleet_job_def worker_record_def on_registry_def act_on_def act_bind_def act_catch_def
        sample_worker_found sample_fields now_act_eq managed_finish_def managed_success_def jsub_def jitem_def
        dget_def is_value_def)
qed


lemma managed_job_sound_witness:
  "\<exists>v. snd (execute_managed_fleet_job sample_controller ''w1'' sample_submission 600 3 sample_ctl) = Inr v
    \<and> (\<exists>before after. get_none ''snapshot_reset'' v = JObj [(''before'', reset_pair before), (''after'', reset_pair after)])"
proof -
  obtain s' v where r: "execute_managed_fleet_job sample_controller ''w1'' sample_submission 600 3 sample_ctl = (s', Inr v)"
    using sample_job_runs by (rule valueE)
  from managed_job_sound [OF r] show ?thesis by (intro exI [of _ v]) (simp add: r, blast)
qed


definition demo_controller :: controller where
  "demo_controller = sample_controller\<lparr>m_H := demo_H\<rparr>"

lemma unrunnable_job_stays_leased_witness:
  "\<exists>q e row. run_queue_once demo_controller False ''w'' [''windows-powershell-5.1''] 60 600 3 sample_ctl =
      (after_claim q sample_ctl, Inl e) \<and> row_of ''j'' q = Some row \<and> j_state row = LEASED"
proof -
  have k: "m_H demo_controller = demo_H" "m_clock demo_controller n = 0" "k_pick demo_controller n = 0" for n
    by (simp_all add: demo_controller_def sample_controller_def)
  have q: "ct_queue sample_ctl = demo_store QUEUED 0" by (simp add: sample_ctl_def)
  have ok: "db_ok (m_H demo_controller) (qs_db (ct_queue sample_ctl))"
    unfolding k q using demo_store_ok(1) by (simp add: queue_ok_def)
  let ?c = "claim demo_H 0 0 0 ''w'' [''windows-powershell-5.1''] 60 (demo_store QUEUED 0)"
  obtain job where "snd ?c = Inr (Some job)" using demo_claim by (cases "snd ?c") auto
  then obtain q' where c: "?c = (q', Inr (Some job))" by (cases ?c) simp
  then have at: "claim_at demo_controller ''w'' [''windows-powershell-5.1''] 60 sample_ctl = (q', Inr (Some job))"
    by (simp add: claim_at_def k q Let_def)
  have "get_none ''payload'' job = JObj [] \<and> get_none ''job_id'' job = JStr ''j''"
  proof (rule claim_grants [of demo_H "demo_store QUEUED 0" 0 0 0 "''w''" "[''windows-powershell-5.1'']" 60 job])
    show "db_ok demo_H (qs_db (demo_store QUEUED 0))" using demo_store_ok(1) by (simp add: queue_ok_def)
    show "snd (claim demo_H 0 0 0 ''w'' [''windows-powershell-5.1''] 60 (demo_store QUEUED 0)) = Inr (Some job)"
      by (simp add: c)
    fix row assume r: "row \<in> set (first_rows [''windows-powershell-5.1''] (map (expire_if 0) (q_jobs (qs_db (demo_store QUEUED 0)))))"
      "get_none ''job_id'' job = JStr (j_id row)"
      "row_dict (Some (lease_row 0 ''w'' 60 (j_attempts row + 1) row)) = Inr job"
    have "expire_if 0 (demo_job QUEUED 0) = demo_job QUEUED 0"
      by (simp add: expire_if_def lease_lapsed_def demo_job_def)
    with first_rows_in(1) [OF r(1)] have row: "row = demo_job QUEUED 0" by simp
    have "loads ''{}'' = Some (JObj [])" by code_simp
    with r(3) have "get_none ''payload'' job = JObj []"
      unfolding row by (elim row_dictE) (simp add: json_loads_def lease_row_def demo_job_def)
    with r(2) row show ?thesis by (simp add: demo_job_def)
  qed
  then have m: "materialize_job demo_controller job = throw QueueRunnerError ''Queue payload requires a project root''"
    "get_none ''job_id'' job = JStr ''j''"
    by (simp_all add: materialize_job_def job_root_def get_or_def)
  from unrunnable_job_stays_leased [OF ok at, of "Exn QueueRunnerError ''Queue payload requires a project root''" False 600 3]
  show ?thesis using m by auto
qed

end
