(* ===== verification/Psm_RunConfig.thy ===== *)
theory Psm_RunConfig
  imports Psm_Canon Psm_Verifier Psm_RuntimeIds
begin

text \<open>
  The inputs of a script run (\<open>run_config.py\<close>): validation of environment, parameters, arguments,
  fixtures, hooks and standard input, from the sidecar manifest and from the command line, into
  an execution profile, and its redacted report. The file system is a tree; an \<open>os.walk\<close> lists a
  folder in the order of the tree. \<open>H\<close> is the SHA-256 hex digest, \<open>cwd\<close> the working directory.
\<close>

section \<open>Names and limits\<close>

definition name_match :: "string \<Rightarrow> bool" where
  "name_match s \<longleftrightarrow> s \<noteq> [] \<and> length s \<le> 128 \<and> (is_alpha (hd s) \<or> hd s = CHR ''_'')
     \<and> list_all (\<lambda>c. is_alpha c \<or> is_digit c \<or> c = CHR ''_'') s"

definition sha256_match :: "string \<Rightarrow> bool" where
  "sha256_match s \<longleftrightarrow> length s = 64 \<and> list_all (\<lambda>c. hex_val c \<noteq> None) s"

definition reserved_env :: "string list" where
  "reserved_env = [''PATH'', ''HOME'', ''TMPDIR'', ''TMP'', ''TEMP'', ''PSMODULEPATH'', ''PYTHONPATH'', ''PYTHONHOME'',
     ''IFS'', ''ENV'', ''BASH_ENV'', ''SHELLOPTS'', ''CDPATH'']"

definition reserved_prefixes :: "string list" where
  "reserved_prefixes = [''PSMATRIX_'', ''LD_'', ''DYLD_'', ''DOTNET_'', ''XDG_'']"

definition max_value_bytes :: nat where "max_value_bytes = 64 * 1024"
definition max_stdin_bytes :: nat where "max_stdin_bytes = 8 * 1024 * 1024"
definition max_arguments :: nat where "max_arguments = 4096"
definition max_fixtures :: nat where "max_fixtures = 1024"
definition max_hooks :: nat where "max_hooks = 64"

section \<open>The profile\<close>

record fixture_spec =
  fx_source :: "string list"
  fx_destination :: "string list"
  fx_sha256 :: "string option"

record hook_spec =
  hk_source :: "string list"
  hk_phase :: string
  hk_sha256 :: string

record execution_profile =
  xp_arguments :: "string list"
  xp_parameters :: "(string \<times> json) list"
  xp_environment :: "(string \<times> string) list"
  xp_stdin_data :: "string option"
  xp_stdin_source :: "string option"
  xp_fixtures :: "fixture_spec list"
  xp_setup :: "hook_spec list"
  xp_teardown :: "hook_spec list"
  xp_lockfile :: "string list option"
  xp_manifest :: "string list option"

section \<open>Digests of trees\<close>

definition int_bytes8 :: "nat \<Rightarrow> string" where
  "int_bytes8 n = map (\<lambda>i. char_of (n div 256 ^ i)) [7, 6, 5, 4, 3, 2, 1, 0]"

fun unhex :: "string \<Rightarrow> string" where
  "unhex (a # b # r) = char_of (16 * the (hex_val a) + the (hex_val b)) # unhex r"
| "unhex _ = []"

definition folder_entries :: "(string \<times> node) list \<Rightarrow> (string \<times> node) list" where
  "folder_entries es = sort_key fst (filter (\<lambda>(k, x). case x of Folder _ \<Rightarrow> True | _ \<Rightarrow> False) es)"

definition file_entries :: "(string \<times> node) list \<Rightarrow> (string \<times> string) list" where
  "file_entries es = sort_key fst (concat (map (\<lambda>(k, x). case x of RegFile b \<Rightarrow> [(k, b)] | _ \<Rightarrow> []) es))"

text \<open>What a file below a folder adds to the digest: the length and text of its path and its digest\<close>

definition file_digest_bytes :: "(string \<Rightarrow> string) \<Rightarrow> string list \<Rightarrow> string \<Rightarrow> string" where
  "file_digest_bytes H rel b = (let r = utf8 (join ''/'' rel) in int_bytes8 (length r) @ r @ unhex (H b))"

text \<open>The walk goes as deep as the tree; \<open>depth\<close> bounds it.\<close>

fun node_depth :: "node \<Rightarrow> nat" where
  "node_depth (Folder es) = Suc (fold max (map (\<lambda>p. node_depth (snd p)) es) 0)"
| "node_depth _ = 0"

fun tree_bytes :: "(string \<Rightarrow> string) \<Rightarrow> nat \<Rightarrow> string list \<Rightarrow> node \<Rightarrow> string" where
  "tree_bytes H (Suc n) rel (Folder es) =
     concat (map (\<lambda>(k, b). file_digest_bytes H (rel @ [k]) b) (file_entries es))
     @ concat (map (\<lambda>(k, x). tree_bytes H n (rel @ [k]) x) (folder_entries es))"
| "tree_bytes H _ rel _ = []"

lemma tree_bytes_code [code]:
  "tree_bytes H n rel x = (case x of
     Folder es \<Rightarrow> if n = 0 then [] else
       concat (map (\<lambda>(k, b). file_digest_bytes H (rel @ [k]) b) (file_entries es))
       @ concat (map (\<lambda>(k, y). tree_bytes H (n - 1) (rel @ [k]) y) (folder_entries es))
   | _ \<Rightarrow> [])"
  by (cases n) (simp_all split: node.split)

definition path_digest :: "(string \<Rightarrow> string) \<Rightarrow> node \<Rightarrow> string list \<Rightarrow> string" where
  "path_digest H fs p = (case stat_path fs p of
     Inr (RegFile b) \<Rightarrow> H b
   | Inr x \<Rightarrow> H (tree_bytes H (node_depth x) [] x)
   | Inl _ \<Rightarrow> H [])"

section \<open>Environment, parameters, arguments\<close>

definition validate_env_entry :: "string \<times> json \<Rightarrow> (string \<times> string) res" where
  "validate_env_entry = (\<lambda>(name, v).
     if \<not> name_match name then throw RunConfigurationError (''Invalid environment variable name: '' @ repr_str name)
     else if str_upper name \<in> set reserved_env \<or> list_ex (\<lambda>p. starts_with p (str_upper name)) reserved_prefixes
     then throw RunConfigurationError (''Environment variable is reserved by the sandbox: '' @ name)
     else (case v of
         JStr s \<Rightarrow>
           if CHR 0x00 \<in> set s
           then throw RunConfigurationError (''Environment value for '' @ name @ '' contains a NUL byte'')
           else if max_value_bytes < length (utf8 s)
           then throw RunConfigurationError (''Environment value for '' @ name @ '' exceeds 65536 bytes'')
           else Inr (name, s)
       | _ \<Rightarrow> throw RunConfigurationError (''Environment value for '' @ name @ '' must be a string'')))"

definition validate_environment :: "(string \<times> json) list \<Rightarrow> (string \<times> string) list res" where
  "validate_environment values = res_map validate_env_entry values"

text \<open>The length of the encoded value does not depend on the order of its keys.\<close>

definition validate_parameter :: "string \<times> json \<Rightarrow> (string \<times> json) res" where
  "validate_parameter = (\<lambda>(name, v).
     if \<not> name_match name then throw RunConfigurationError (''Invalid PowerShell parameter name: '' @ repr_str name)
     else if max_value_bytes < length (utf8 (dumps v))
     then throw RunConfigurationError (''Parameter '' @ name @ '' exceeds 65536 bytes'')
     else Inr (name, v))"

definition validate_parameters :: "(string \<times> json) list \<Rightarrow> (string \<times> json) list res" where
  "validate_parameters values = res_map validate_parameter values"

fun check_arguments :: "nat \<Rightarrow> json list \<Rightarrow> string list res" where
  "check_arguments acc [] = Inr []"
| "check_arguments acc (v # vs) = (case v of
     JStr s \<Rightarrow>
       if CHR 0x00 \<in> set s then throw RunConfigurationError ''Positional argument contains a NUL byte''
       else (let acc' = acc + length (utf8 s) in
         if max_value_bytes * 4 < acc'
         then throw RunConfigurationError ''Combined positional arguments are too large''
         else res_bind (check_arguments acc' vs) (\<lambda>r. Inr (s # r)))
   | _ \<Rightarrow> throw RunConfigurationError ''Positional arguments must be strings'')"

definition validate_arguments :: "json list \<Rightarrow> string list res" where
  "validate_arguments values =
     (if max_arguments < length values
      then throw RunConfigurationError (''Too many positional arguments: '' @ nat_str (length values))
      else check_arguments 0 values)"


section \<open>Paths\<close>

definition safe_destination :: "string \<Rightarrow> string list res" where
  "safe_destination value =
     (let normalized = map (\<lambda>c. if c = CHR 0x5C then CHR ''/'' else c) value; parts = path_parts normalized in
      if parts = [] \<or> is_absolute normalized \<or> ''..'' \<in> set parts
      then throw RunConfigurationError (''Unsafe fixture destination: '' @ repr_str value)
      else if hd parts = ''.psmatrix-internal''
      then throw RunConfigurationError ''Fixtures cannot target .psmatrix-internal''
      else if list_ex (\<lambda>part. CHR 0x00 \<in> set part) parts
      then throw RunConfigurationError (''Unsafe fixture destination: '' @ repr_str value)
      else Inr parts)"

definition resolve_existing :: "node \<Rightarrow> string \<Rightarrow> string list \<Rightarrow> string \<Rightarrow> string list res" where
  "resolve_existing fs kind base value =
     (let candidate = path_join base value in
      res_bind (reject_indirect RunConfigurationError kind fs candidate) (\<lambda>_.
        case resolve_strict fs candidate of
          Inr q \<Rightarrow> Inr q
        | Inl e \<Rightarrow> if exn_class e = OSError
            then throw RunConfigurationError (kind @ '' not found: '' @ path_text candidate) else Inl e))"

text \<open>The names of a folder as \<open>os.walk\<close> gives them: those that lead to folders, then the others\<close>

definition walk_names :: "node \<Rightarrow> string list \<Rightarrow> (string \<times> node) list \<Rightarrow> (string \<times> node) list" where
  "walk_names fs p es = filter (\<lambda>(k, x). is_dir fs (p @ [k])) es @ filter (\<lambda>(k, x). \<not> is_dir fs (p @ [k])) es"

definition reject_link :: "string list \<Rightarrow> string \<times> node \<Rightarrow> unit res" where
  "reject_link p = (\<lambda>(k, x). case x of
     Link _ \<Rightarrow> throw RunConfigurationError (''Fixture tree contains a symlink or reparse point: '' @ path_text (p @ [k]))
   | _ \<Rightarrow> Inr ())"

fun check_tree :: "node \<Rightarrow> nat \<Rightarrow> string list \<Rightarrow> node \<Rightarrow> unit res" where
  "check_tree fs (Suc n) p (Folder es) =
     res_bind (res_map (reject_link p) (walk_names fs p es)) (\<lambda>_.
     res_bind (res_map (\<lambda>(k, x). check_tree fs n (p @ [k]) x) (filter (\<lambda>(k, x). is_dir fs (p @ [k])) es)) (\<lambda>_. Inr ()))"
| "check_tree fs _ p _ = Inr ()"

lemma check_tree_code [code]:
  "check_tree fs n p x = (case x of
     Folder es \<Rightarrow> if n = 0 then Inr () else
       res_bind (res_map (reject_link p) (walk_names fs p es)) (\<lambda>_.
       res_bind (res_map (\<lambda>(k, y). check_tree fs (n - 1) (p @ [k]) y) (filter (\<lambda>(k, y). is_dir fs (p @ [k])) es)) (\<lambda>_. Inr ()))
   | _ \<Rightarrow> Inr ())"
  by (cases n) (simp_all split: node.split)

section \<open>Fixtures, hooks and standard input\<close>

text \<open>The source, destination and expected digest an entry names, before any check\<close>

definition fixture_fields :: "json \<Rightarrow> (json \<times> json \<times> json) res" where
  "fixture_fields raw = (case raw of
     JStr s \<Rightarrow> Inr (JStr s, JStr (name_of (path_parts s)), JNull)
   | JObj kvs \<Rightarrow>
       (let src = get_none ''source'' raw;
            dflt = (if py_true src then JStr (name_of (path_parts (py_str src))) else JNull)
        in Inr (src, py_or (get_none ''destination'' raw) dflt, get_none ''sha256'' raw))
   | _ \<Rightarrow> throw RunConfigurationError ''Fixture entries must be strings or objects'')"

definition check_fixture_hash :: "(string \<Rightarrow> string) \<Rightarrow> node \<Rightarrow> string list \<Rightarrow> json \<Rightarrow> string option res" where
  "check_fixture_hash H fs source expected = (case expected of
     JNull \<Rightarrow> Inr None
   | JStr e \<Rightarrow>
       if \<not> sha256_match e then throw RunConfigurationError ''Fixture SHA-256 must be 64 hexadecimal characters''
       else (let actual = path_digest H fs source in
         if py_lower actual \<noteq> py_lower e
         then throw RunConfigurationError (''Fixture SHA-256 mismatch for '' @ path_text source @ '': expected ''
           @ py_lower e @ '', got '' @ actual)
         else Inr (Some (py_lower e)))
   | _ \<Rightarrow> throw RunConfigurationError ''Fixture SHA-256 must be 64 hexadecimal characters'')"

definition parse_fixture :: "(string \<Rightarrow> string) \<Rightarrow> node \<Rightarrow> string list \<Rightarrow> json \<Rightarrow> fixture_spec res" where
  "parse_fixture H fs base raw =
     res_bind (fixture_fields raw) (\<lambda>(src, dst, expected).
     if \<not> is_str src \<or> \<not> is_str dst
     then throw RunConfigurationError ''Fixture source/destination must be strings''
     else
       res_bind (resolve_existing fs ''Fixture'' base (py_str src)) (\<lambda>source.
       if \<not> (is_file fs source \<or> is_dir fs source)
       then throw RunConfigurationError (''Fixture must be a regular file or directory: '' @ path_text source)
       else
         res_bind (case lookup_node fs source of
             Some x \<Rightarrow> check_tree fs (node_depth x) source x | None \<Rightarrow> Inr ()) (\<lambda>_.
         res_bind (safe_destination (py_str dst)) (\<lambda>destination.
         res_bind (check_fixture_hash H fs source expected) (\<lambda>h.
           Inr \<lparr>fx_source = source, fx_destination = destination, fx_sha256 = h\<rparr>)))))"

definition hook_fields :: "string \<Rightarrow> json \<Rightarrow> (json \<times> json) res" where
  "hook_fields phase raw = (case raw of
     JStr s \<Rightarrow> Inr (JStr s, JNull)
   | JObj kvs \<Rightarrow> Inr (get_none ''path'' raw, get_none ''sha256'' raw)
   | _ \<Rightarrow> throw RunConfigurationError (phase @ '' hooks must be strings or objects''))"

definition check_hook_hash :: "string \<Rightarrow> string list \<Rightarrow> json \<Rightarrow> string \<Rightarrow> unit res" where
  "check_hook_hash phase source expected actual = (case expected of
     JNull \<Rightarrow> Inr ()
   | JStr e \<Rightarrow>
       if \<not> sha256_match e
       then throw RunConfigurationError (phase @ '' hook SHA-256 must be 64 hexadecimal characters'')
       else if actual \<noteq> py_lower e
       then throw RunConfigurationError (phase @ '' hook SHA-256 mismatch for '' @ path_text source @ '': expected ''
         @ py_lower e @ '', got '' @ actual)
       else Inr ()
   | _ \<Rightarrow> throw RunConfigurationError (phase @ '' hook SHA-256 must be 64 hexadecimal characters''))"

definition parse_hook :: "(string \<Rightarrow> string) \<Rightarrow> node \<Rightarrow> string \<Rightarrow> string list \<Rightarrow> json \<Rightarrow> hook_spec res" where
  "parse_hook H fs phase base raw =
     res_bind (hook_fields phase raw) (\<lambda>(path, expected).
     if \<not> is_str path then throw RunConfigurationError (phase @ '' hook path must be a string'')
     else
       res_bind (resolve_existing fs (phase @ '' hook'') base (py_str path)) (\<lambda>source.
       if \<not> is_file fs source \<or> py_lower (suffix_of (name_of source)) \<noteq> ''.ps1''
       then throw RunConfigurationError (phase @ '' hook must be a .ps1 file: '' @ path_text source)
       else
         res_bind (sha256_file H fs source) (\<lambda>actual.
         res_bind (check_hook_hash phase source expected actual) (\<lambda>_.
           Inr \<lparr>hk_source = source, hk_phase = phase, hk_sha256 = actual\<rparr>))))"

definition stdin_parts :: "node \<Rightarrow> string list \<Rightarrow> json \<Rightarrow> (string \<times> string) res" where
  "stdin_parts fs base raw = (case raw of
     JStr s \<Rightarrow> Inr (utf8 s, ''manifest:text'')
   | JObj kvs \<Rightarrow>
       (case (jget ''text'' raw, jget ''file'' raw) of
          (Some t, None) \<Rightarrow>
            if \<not> is_str t then throw RunConfigurationError ''stdin.text must be a string''
            else Inr (utf8 (py_str t), ''manifest:text'')
        | (None, Some f) \<Rightarrow>
            if \<not> is_str f then throw RunConfigurationError ''stdin.file must be a string''
            else res_bind (resolve_existing fs ''stdin file'' base (py_str f)) (\<lambda>path.
              if \<not> is_file fs path
              then throw RunConfigurationError (''stdin file is not a regular file: '' @ path_text path)
              else res_bind (read_bytes fs path) (\<lambda>b. Inr (b, path_text path)))
        | _ \<Rightarrow> throw RunConfigurationError ''stdin must contain exactly one of text or file'')
   | _ \<Rightarrow> throw RunConfigurationError ''stdin must be a string or object'')"

definition load_stdin :: "node \<Rightarrow> string list \<Rightarrow> json \<Rightarrow> (string \<times> string) option res" where
  "load_stdin fs base raw =
     (if raw = JNull then Inr None
      else res_bind (stdin_parts fs base raw) (\<lambda>(data, source).
        if max_stdin_bytes < length data then throw RunConfigurationError ''stdin exceeds 8388608 bytes''
        else Inr (Some (data, source))))"


section \<open>The profile of a run\<close>

record cli_inputs =
  ci_arguments :: "string list"
  ci_parameters :: "(string \<times> json) list"
  ci_environment :: "(string \<times> string) list"
  ci_stdin_data :: "string option"
  ci_stdin_source :: "string option"
  ci_fixtures :: "(string \<times> string option) list"
  ci_setup :: "string list"
  ci_teardown :: "string list"
  ci_lockfile :: "string option"

definition sidecar :: "string list \<Rightarrow> string list" where
  "sidecar source = with_name source (name_of source @ ''.psmatrix.json'')"

definition load_run :: "node \<Rightarrow> string list \<Rightarrow> json res" where
  "load_run fs manifest =
     res_bind (if path_exists fs manifest then reject_indirect RunConfigurationError ''Run manifest'' fs manifest
       else Inr ()) (\<lambda>_.
     if is_file fs manifest then
       res_bind (read_json fs manifest) (\<lambda>payload.
       res_bind (dget ''run'' (JObj []) payload) (\<lambda>raw_run.
         if is_dict raw_run then Inr raw_run
         else throw RunConfigurationError (''run section must be an object: '' @ path_text manifest)))
     else Inr (JObj []))"

definition array_field :: "string \<Rightarrow> json \<Rightarrow> json list res" where
  "array_field k run = (let v = get_or k (JArr []) run in
     if is_list v then Inr (list_items v) else throw RunConfigurationError (''run.'' @ k @ '' must be an array''))"

definition object_field :: "string \<Rightarrow> json \<Rightarrow> (string \<times> json) list res" where
  "object_field k run = (let v = get_or k (JObj []) run in
     if is_dict v then Inr (dict_items v) else throw RunConfigurationError (''run.'' @ k @ '' must be an object''))"

text \<open>\<open>d.update(dict(pairs))\<close>\<close>

definition override :: "(string \<times> json) list \<Rightarrow> (string \<times> json) list \<Rightarrow> (string \<times> json) list" where
  "override d pairs = foldl (\<lambda>e (k, v). AList.update k v e) d pairs"

definition stdin_of :: "node \<Rightarrow> string list \<Rightarrow> json \<Rightarrow> cli_inputs \<Rightarrow> (string option \<times> string option) res" where
  "stdin_of fs base run cli =
     res_bind (load_stdin fs base (get_none ''stdin'' run)) (\<lambda>loaded.
     case ci_stdin_data cli of
       None \<Rightarrow> Inr (map_option fst loaded, map_option snd loaded)
     | Some data \<Rightarrow>
         if max_stdin_bytes < length data then throw RunConfigurationError ''stdin exceeds 8388608 bytes''
         else Inr (Some data, Some (case ci_stdin_source cli of
           Some s \<Rightarrow> if s = [] then ''cli'' else s | None \<Rightarrow> ''cli'')))"

fun distinct_destinations :: "string list \<Rightarrow> fixture_spec list \<Rightarrow> unit res" where
  "distinct_destinations seen [] = Inr ()"
| "distinct_destinations seen (f # fs) =
     (let key = casefold (join ''/'' (fx_destination f)) in
      if key \<in> set seen
      then throw RunConfigurationError (''Duplicate fixture destination: '' @ join ''/'' (fx_destination f))
      else distinct_destinations (key # seen) fs)"

definition fixtures_of :: "(string \<Rightarrow> string) \<Rightarrow> node \<Rightarrow> string list \<Rightarrow> string list \<Rightarrow> json \<Rightarrow> cli_inputs \<Rightarrow> fixture_spec list res" where
  "fixtures_of H fs cwd base run cli =
     res_bind (array_field ''fixtures'' run) (\<lambda>values.
     res_bind (res_map (parse_fixture H fs base) values) (\<lambda>listed.
     res_bind (res_map (\<lambda>(src, dst). parse_fixture H fs cwd (JObj [(''source'', JStr src),
         (''destination'', JStr (case dst of Some d \<Rightarrow> if d = [] then name_of (path_parts src) else d
            | None \<Rightarrow> name_of (path_parts src)))])) (ci_fixtures cli)) (\<lambda>given.
       let fixtures = listed @ given in
       if max_fixtures < length fixtures
       then throw RunConfigurationError (''Too many fixtures: '' @ nat_str (length fixtures))
       else res_bind (distinct_destinations [] fixtures) (\<lambda>_. Inr fixtures))))"

definition hooks_of ::
    "(string \<Rightarrow> string) \<Rightarrow> node \<Rightarrow> string list \<Rightarrow> string list \<Rightarrow> json \<Rightarrow> cli_inputs \<Rightarrow> (hook_spec list \<times> hook_spec list) res" where
  "hooks_of H fs cwd base run cli =
     (let raw_setup = get_or ''setup'' (JArr []) run; raw_teardown = get_or ''teardown'' (JArr []) run in
      if \<not> is_list raw_setup \<or> \<not> is_list raw_teardown
      then throw RunConfigurationError ''run.setup and run.teardown must be arrays''
      else
        res_bind (res_map (parse_hook H fs ''setup'' base) (list_items raw_setup)) (\<lambda>s.
        res_bind (res_map (parse_hook H fs ''teardown'' base) (list_items raw_teardown)) (\<lambda>t.
        res_bind (res_map (\<lambda>p. parse_hook H fs ''setup'' cwd (JStr p)) (ci_setup cli)) (\<lambda>s'.
        res_bind (res_map (\<lambda>p. parse_hook H fs ''teardown'' cwd (JStr p)) (ci_teardown cli)) (\<lambda>t'.
          if max_hooks < length (s @ s') \<or> max_hooks < length (t @ t')
          then throw RunConfigurationError ''Too many setup/teardown hooks'' else Inr (s @ s', t @ t'))))))"

definition direct_lock :: "node \<Rightarrow> string list \<Rightarrow> string \<Rightarrow> string list option res" where
  "direct_lock fs base value = res_bind (resolve_existing fs ''Dependency lockfile'' base value) (\<lambda>p.
     if is_file fs p then Inr (Some p)
     else throw RunConfigurationError (''Dependency lockfile is not a file: '' @ path_text p))"

definition lockfile_of :: "node \<Rightarrow> string list \<Rightarrow> string list \<Rightarrow> json \<Rightarrow> cli_inputs \<Rightarrow> string list option res" where
  "lockfile_of fs cwd base run cli = (case ci_lockfile cli of
     Some v \<Rightarrow> direct_lock fs cwd v
   | None \<Rightarrow> (case get_none ''lockfile'' run of
       JNull \<Rightarrow> if path_exists fs (base @ [''psmatrix.lock.json'']) then direct_lock fs base ''psmatrix.lock.json'' else Inr None
     | JStr v \<Rightarrow> direct_lock fs base v
     | _ \<Rightarrow> throw RunConfigurationError ''run.lockfile must be a string''))"

definition resolve_execution_profile ::
    "(string \<Rightarrow> string) \<Rightarrow> node \<Rightarrow> string list \<Rightarrow> string list \<Rightarrow> cli_inputs \<Rightarrow> execution_profile res" where
  "resolve_execution_profile H fs cwd src cli =
     res_bind (resolve fs src) (\<lambda>source.
     let base = butlast source; manifest = sidecar source in
     res_bind (load_run fs manifest) (\<lambda>run.
     res_bind (array_field ''arguments'' run) (\<lambda>raw_arguments.
     res_bind (validate_arguments (raw_arguments @ map JStr (ci_arguments cli))) (\<lambda>arguments.
     res_bind (object_field ''parameters'' run) (\<lambda>raw_parameters.
     res_bind (validate_parameters (override raw_parameters (ci_parameters cli))) (\<lambda>parameters.
     res_bind (object_field ''environment'' run) (\<lambda>raw_environment.
     res_bind (validate_environment (override raw_environment
       (map (\<lambda>(k, v). (k, JStr v)) (ci_environment cli)))) (\<lambda>environment.
     res_bind (stdin_of fs base run cli) (\<lambda>(data, data_source).
     res_bind (fixtures_of H fs cwd base run cli) (\<lambda>fixtures.
     res_bind (hooks_of H fs cwd base run cli) (\<lambda>(setup, teardown).
     res_bind (lockfile_of fs cwd base run cli) (\<lambda>lockfile.
       Inr \<lparr>xp_arguments = arguments, xp_parameters = parameters, xp_environment = environment,
         xp_stdin_data = data, xp_stdin_source = data_source, xp_fixtures = fixtures,
         xp_setup = setup, xp_teardown = teardown, xp_lockfile = lockfile,
         xp_manifest = (if is_file fs manifest then Some manifest else None)\<rparr>))))))))))))"


section \<open>The redacted report\<close>

fun type_name :: "json \<Rightarrow> string" where
  "type_name JNull = ''NoneType''"
| "type_name (JBool b) = ''bool''"
| "type_name (JInt i) = ''int''"
| "type_name (JFloat m e) = ''float''"
| "type_name (JStr s) = ''str''"
| "type_name (JArr xs) = ''list''"
| "type_name (JObj kvs) = ''dict''"

definition json_hash :: "(string \<Rightarrow> string) \<Rightarrow> json \<Rightarrow> string" where
  "json_hash H v = H (canonical_json_bytes v)"

definition opt_path :: "string list option \<Rightarrow> json" where
  "opt_path p = (case p of None \<Rightarrow> JNull | Some q \<Rightarrow> JStr (path_text q))"

definition hook_row :: "hook_spec \<Rightarrow> json" where
  "hook_row h = JObj [(''source'', JStr (path_text (hk_source h))), (''sha256'', JStr (hk_sha256 h))]"

definition fixture_row :: "(string \<Rightarrow> string) \<Rightarrow> node \<Rightarrow> fixture_spec \<Rightarrow> json" where
  "fixture_row H fs f = JObj
     [(''source'', JStr (path_text (fx_source f))), (''destination'', JStr (join ''/'' (fx_destination f))),
      (''sha256'', JStr (case fx_sha256 f of
         Some h \<Rightarrow> if h = [] then path_digest H fs (fx_source f) else h | None \<Rightarrow> path_digest H fs (fx_source f)))]"

definition redacted_report :: "(string \<Rightarrow> string) \<Rightarrow> node \<Rightarrow> execution_profile \<Rightarrow> json" where
  "redacted_report H fs p = JObj
     [(''arguments'', JObj [(''count'', JInt (int (length (xp_arguments p)))),
         (''sha256'', JStr (json_hash H (JArr (map JStr (xp_arguments p)))))]),
      (''parameters'', JArr (map (\<lambda>(name, v). JObj [(''name'', JStr name), (''type'', JStr (type_name v)),
         (''sha256'', JStr (json_hash H v))]) (sort_key fst (xp_parameters p)))),
      (''environment'', JArr (map (\<lambda>(name, v). JObj [(''name'', JStr name), (''sha256'', JStr (H (utf8 v)))])
         (sort_key fst (xp_environment p)))),
      (''stdin'', JObj
        [(''present'', JBool (xp_stdin_data p \<noteq> None)),
         (''bytes'', JInt (int (length (case xp_stdin_data p of None \<Rightarrow> '''' | Some d \<Rightarrow> d)))),
         (''sha256'', opt_str (map_option H (xp_stdin_data p))), (''source'', opt_str (xp_stdin_source p))]),
      (''fixtures'', JArr (map (fixture_row H fs) (xp_fixtures p))),
      (''hooks'', JObj [(''setup'', JArr (map hook_row (xp_setup p))), (''teardown'', JArr (map hook_row (xp_teardown p)))]),
      (''lockfile'', opt_path (xp_lockfile p)), (''manifest'', opt_path (xp_manifest p))]"

section \<open>What a profile guarantees\<close>

definition env_ok :: "string \<times> string \<Rightarrow> bool" where
  "env_ok = (\<lambda>(name, v). name_match name \<and> str_upper name \<notin> set reserved_env
     \<and> list_all (\<lambda>p. \<not> starts_with p (str_upper name)) reserved_prefixes
     \<and> CHR 0x00 \<notin> set v \<and> length (utf8 v) \<le> max_value_bytes)"

definition parameter_ok :: "string \<times> json \<Rightarrow> bool" where
  "parameter_ok = (\<lambda>(name, v). name_match name \<and> length (utf8 (dumps v)) \<le> max_value_bytes)"

definition arguments_ok :: "string list \<Rightarrow> bool" where
  "arguments_ok args \<longleftrightarrow> length args \<le> max_arguments \<and> list_all (\<lambda>a. CHR 0x00 \<notin> set a) args
     \<and> sum_list (map (\<lambda>a. length (utf8 a)) args) \<le> max_value_bytes * 4"

text \<open>A destination below the workspace that is not the program's own folder\<close>

definition destination_ok :: "string list \<Rightarrow> bool" where
  "destination_ok d \<longleftrightarrow> d \<noteq> [] \<and> ''..'' \<notin> set d \<and> hd d \<noteq> ''.psmatrix-internal''
     \<and> list_all (\<lambda>part. part \<noteq> [] \<and> part \<noteq> ''.'' \<and> CHR ''/'' \<notin> set part \<and> CHR 0x00 \<notin> set part) d"

definition fixture_ok :: "(string \<Rightarrow> string) \<Rightarrow> node \<Rightarrow> fixture_spec \<Rightarrow> bool" where
  "fixture_ok H fs f \<longleftrightarrow> (is_file fs (fx_source f) \<or> is_dir fs (fx_source f)) \<and> destination_ok (fx_destination f)
     \<and> (case fx_sha256 f of None \<Rightarrow> True | Some h \<Rightarrow> py_lower (path_digest H fs (fx_source f)) = h)"

definition hook_ok :: "(string \<Rightarrow> string) \<Rightarrow> node \<Rightarrow> string \<Rightarrow> hook_spec \<Rightarrow> bool" where
  "hook_ok H fs phase h \<longleftrightarrow> hk_phase h = phase \<and> is_file fs (hk_source h)
     \<and> py_lower (suffix_of (name_of (hk_source h))) = ''.ps1''
     \<and> sha256_file H fs (hk_source h) = Inr (hk_sha256 h)"

definition profile_ok :: "(string \<Rightarrow> string) \<Rightarrow> node \<Rightarrow> execution_profile \<Rightarrow> bool" where
  "profile_ok H fs p \<longleftrightarrow> arguments_ok (xp_arguments p) \<and> list_all parameter_ok (xp_parameters p)
     \<and> list_all env_ok (xp_environment p)
     \<and> (case xp_stdin_data p of None \<Rightarrow> True | Some d \<Rightarrow> length d \<le> max_stdin_bytes)
     \<and> list_all (fixture_ok H fs) (xp_fixtures p) \<and> length (xp_fixtures p) \<le> max_fixtures
     \<and> distinct (map (\<lambda>f. casefold (join ''/'' (fx_destination f))) (xp_fixtures p))
     \<and> list_all (hook_ok H fs ''setup'') (xp_setup p) \<and> length (xp_setup p) \<le> max_hooks
     \<and> list_all (hook_ok H fs ''teardown'') (xp_teardown p) \<and> length (xp_teardown p) \<le> max_hooks
     \<and> (case xp_lockfile p of None \<Rightarrow> True | Some l \<Rightarrow> is_file fs l)"

lemma res_map_list_all: "(\<And>x y. f x = Inr y \<Longrightarrow> P y) \<Longrightarrow> res_map f xs = Inr ys \<Longrightarrow> list_all P ys"
  by (auto simp: list_all_iff dest!: res_map_in)

lemma validate_env_entry_ok: "validate_env_entry x = Inr y \<Longrightarrow> env_ok y"
  by (cases x; cases "snd x") (auto simp: validate_env_entry_def env_ok_def list_all_iff list_ex_iff split: if_splits)

lemma validate_parameter_ok: "validate_parameter x = Inr y \<Longrightarrow> parameter_ok y"
  by (cases x) (auto simp: validate_parameter_def parameter_ok_def split: if_splits)

lemma check_arguments_ok:
  "check_arguments acc vs = Inr as \<Longrightarrow> acc \<le> max_value_bytes * 4 \<Longrightarrow> length as = length vs
     \<and> list_all (\<lambda>a. CHR 0x00 \<notin> set a) as \<and> acc + sum_list (map (\<lambda>a. length (utf8 a)) as) \<le> max_value_bytes * 4"
  by (induction acc vs arbitrary: as rule: check_arguments.induct)
    (fastforce simp: Let_def split: json.splits if_splits)+

lemma validate_arguments_ok: "validate_arguments vs = Inr as \<Longrightarrow> arguments_ok as"
  using check_arguments_ok [of 0 vs as] by (auto simp: validate_arguments_def arguments_ok_def split: if_splits)

lemma load_stdin_ok: "load_stdin fs base raw = Inr (Some (d, s)) \<Longrightarrow> length d \<le> max_stdin_bytes"
  by (auto simp: load_stdin_def split: if_splits)

lemma stdin_of_ok: "stdin_of fs base run cli = Inr (Some d, s) \<Longrightarrow> length d \<le> max_stdin_bytes"
  by (auto simp: stdin_of_def load_stdin_ok split: option.splits if_splits)


lemma safe_destination_ok: "safe_destination v = Inr d \<Longrightarrow> destination_ok d"
  by (auto simp: safe_destination_def destination_ok_def Let_def list_all_iff list_ex_iff path_parts_def
      dest: split_on_parts split: if_splits)

lemma parse_fixture_ok: "parse_fixture H fs base raw = Inr f \<Longrightarrow> fixture_ok H fs f"
  by (auto simp: parse_fixture_def fixture_ok_def check_fixture_hash_def Let_def
      dest!: safe_destination_ok split: if_splits json.splits)

lemma parse_hook_ok: "parse_hook H fs phase base raw = Inr h \<Longrightarrow> hook_ok H fs phase h"
  by (auto simp: parse_hook_def hook_ok_def split: if_splits)

lemma distinct_destinations_ok:
  "distinct_destinations seen fs = Inr () \<Longrightarrow> distinct (map (\<lambda>f. casefold (join ''/'' (fx_destination f))) fs)
     \<and> set (map (\<lambda>f. casefold (join ''/'' (fx_destination f))) fs) \<inter> set seen = {}"
  by (induction seen fs rule: distinct_destinations.induct) (auto simp: Let_def split: if_splits)

lemma fixtures_of_ok:
  assumes "fixtures_of H fs cwd base run cli = Inr xs"
  shows "list_all (fixture_ok H fs) xs" "length xs \<le> max_fixtures"
    "distinct (map (\<lambda>f. casefold (join ''/'' (fx_destination f))) xs)"
proof -
  from assms obtain listed given where xs: "xs = listed @ given" "length xs \<le> max_fixtures"
    "distinct_destinations [] xs = Inr ()"
    and l: "\<exists>vs. res_map (parse_fixture H fs base) vs = Inr listed"
    and g: "res_map (\<lambda>(src, dst). parse_fixture H fs cwd (JObj [(''source'', JStr src),
         (''destination'', JStr (case dst of Some d \<Rightarrow> if d = [] then name_of (path_parts src) else d
            | None \<Rightarrow> name_of (path_parts src)))])) (ci_fixtures cli) = Inr given"
    by (auto simp: fixtures_of_def Let_def not_less split: if_split_asm)
  from l have "list_all (fixture_ok H fs) listed" by (auto elim!: res_map_list_all [rotated] intro: parse_fixture_ok)
  moreover from g have "list_all (fixture_ok H fs) given"
    by (rule res_map_list_all [rotated]) (auto intro: parse_fixture_ok)
  ultimately show "list_all (fixture_ok H fs) xs" by (simp add: xs(1))
  show "length xs \<le> max_fixtures" by (rule xs(2))
  show "distinct (map (\<lambda>f. casefold (join ''/'' (fx_destination f))) xs)"
    using distinct_destinations_ok [OF xs(3)] by blast
qed

lemma hooks_of_ok:
  assumes "hooks_of H fs cwd base run cli = Inr (s, t)"
  shows "list_all (hook_ok H fs ''setup'') s \<and> length s \<le> max_hooks"
    "list_all (hook_ok H fs ''teardown'') t \<and> length t \<le> max_hooks"
  using assms
  by (auto simp: hooks_of_def Let_def not_less split: if_splits
      elim!: res_map_list_all [rotated] intro: parse_hook_ok)

section \<open>Properties\<close>

text \<open>C21: A profile that resolves is within every limit: the environment has legal, unreserved names and
  bounded NUL-free values, parameters and arguments are bounded, every fixture exists, goes to a
  place below the workspace outside the program's own folder that no other fixture uses, and has
  the digest it was declared with, every hook is a .ps1 file with its recorded digest, and the
  lockfile is a file.\<close>

theorem resolved_profile_ok:
  assumes "resolve_execution_profile H fs cwd src cli = Inr p"
  shows "profile_ok H fs p"
proof -
  from assms obtain base run args ps es st tdn lock d ds fx where
    p: "xp_arguments p = args" "xp_parameters p = ps" "xp_environment p = es" "xp_stdin_data p = d"
      "xp_fixtures p = fx" "xp_setup p = st" "xp_teardown p = tdn" "xp_lockfile p = lock"
    and a: "\<exists>vs. validate_arguments vs = Inr args" "\<exists>vs. validate_parameters vs = Inr ps"
      "\<exists>vs. validate_environment vs = Inr es"
    and parts: "stdin_of fs base run cli = Inr (d, ds)" "fixtures_of H fs cwd base run cli = Inr fx"
      "hooks_of H fs cwd base run cli = Inr (st, tdn)" "lockfile_of fs cwd base run cli = Inr lock"
    by (auto simp: resolve_execution_profile_def Let_def split: prod.split_asm) blast
  have "list_all parameter_ok ps" "list_all env_ok es" "arguments_ok args"
    using a validate_arguments_ok
    by (auto simp: validate_parameters_def validate_environment_def elim!: res_map_list_all [rotated]
        intro: validate_parameter_ok validate_env_entry_ok)
  moreover have "case d of None \<Rightarrow> True | Some x \<Rightarrow> length x \<le> max_stdin_bytes"
    using parts(1) stdin_of_ok by (auto split: option.split)
  moreover have "case lock of None \<Rightarrow> True | Some l \<Rightarrow> is_file fs l"
    using parts(4) by (auto simp: lockfile_of_def direct_lock_def split: option.splits json.splits if_splits)
  ultimately show ?thesis
    using fixtures_of_ok [OF parts(2)] hooks_of_ok [OF parts(3)] by (simp add: profile_ok_def p)
qed


section \<open>Witnesses\<close>

definition sample_H64 :: "string \<Rightarrow> string" where
  "sample_H64 s = replicate 64 (CHR ''a'')"

definition sample_run :: json where
  "sample_run = JObj
     [(''arguments'', JArr [JStr ''-Fast'']), (''environment'', JObj [(''MODE'', JStr ''ci'')]),
      (''fixtures'', JArr [JObj [(''destination'', JStr ''in/data.txt''), (''sha256'', JStr (sample_H64 '''')),
         (''source'', JStr ''data.txt'')]]),
      (''parameters'', JObj [(''Count'', JInt 3)]), (''setup'', JArr [JStr ''up.ps1'']), (''stdin'', JStr ''y'')]"

definition sample_manifest :: json where
  "sample_manifest = JObj [(''run'', sample_run)]"

definition sample_tree :: node where
  "sample_tree = Folder [(''p'', Folder
     [(''a.ps1'', RegFile ''1''), (''a.ps1.psmatrix.json'', RegFile (utf8 (dumps sample_manifest))),
      (''data.txt'', RegFile ''2''), (''up.ps1'', RegFile ''3'')])]"

definition sample_cli :: cli_inputs where
  "sample_cli = \<lparr>ci_arguments = [], ci_parameters = [(''Count'', JInt 4)], ci_environment = [], ci_stdin_data = None,
     ci_stdin_source = None, ci_fixtures = [], ci_setup = [], ci_teardown = [], ci_lockfile = None\<rparr>"

definition resolved :: "'a res \<Rightarrow> bool" where
  "resolved r = (case r of Inr _ \<Rightarrow> True | Inl _ \<Rightarrow> False)"

lemma sample_paths:
  "resolve sample_tree [''p'', ''a.ps1''] = Inr [''p'', ''a.ps1'']"
  "sidecar [''p'', ''a.ps1''] = [''p'', ''a.ps1.psmatrix.json'']"
  "path_exists sample_tree [''p'', ''a.ps1.psmatrix.json'']" "is_file sample_tree [''p'', ''a.ps1.psmatrix.json'']"
  "reject_indirect RunConfigurationError ''Run manifest'' sample_tree [''p'', ''a.ps1.psmatrix.json''] = Inr ()"
  by code_simp+

lemma sample_read: "read_json sample_tree [''p'', ''a.ps1.psmatrix.json''] = Inr sample_manifest"
proof (rule read_json_dumps)
  show "stat_path sample_tree [''p'', ''a.ps1.psmatrix.json''] = Inr (RegFile (utf8 (dumps sample_manifest)))"
    by (simp add: sample_tree_def stat_path_def link_budget_def)
  have "json_wf sample_manifest" "float_free sample_manifest" "canon sample_manifest = sample_manifest" by code_simp+
  then show "loads (dumps sample_manifest) = Some sample_manifest" using loads_dumps by metis
qed

lemma sample_load: "load_run sample_tree (sidecar [''p'', ''a.ps1'']) = Inr sample_run"
proof -
  have "dget ''run'' (JObj []) sample_manifest = Inr sample_run" "is_dict sample_run"
    by (simp_all add: sample_manifest_def sample_run_def dget_def get_or_def)
  then show ?thesis by (simp add: load_run_def sample_paths sample_read)
qed

lemma sample_values:
  "array_field ''arguments'' sample_run = Inr [JStr ''-Fast'']"
  "object_field ''parameters'' sample_run = Inr [(''Count'', JInt 3)]"
  "object_field ''environment'' sample_run = Inr [(''MODE'', JStr ''ci'')]"
  "array_field ''fixtures'' sample_run = Inr [JObj [(''destination'', JStr ''in/data.txt''),
     (''sha256'', JStr (sample_H64 '''')), (''source'', JStr ''data.txt'')]]"
  by (simp_all add: array_field_def object_field_def sample_run_def get_or_def)

lemma sample_sizes: "length (utf8 ''-Fast'') = 5" "length (utf8 (dumps (JInt 4))) = 1" "length (utf8 ''ci'') = 2"
  "length (utf8 ''y'') = 1" "CHR 0x00 \<notin> set ''-Fast''" "CHR 0x00 \<notin> set ''ci''" "name_match ''Count''" "name_match ''MODE''"
  "str_upper ''MODE'' \<notin> set reserved_env" "list_ex (\<lambda>p. starts_with p (str_upper ''MODE'')) reserved_prefixes = False"
  by code_simp+

lemma sample_arguments: "validate_arguments ([JStr ''-Fast''] @ map JStr (ci_arguments sample_cli)) = Inr [''-Fast'']"
  using sample_sizes by (simp add: validate_arguments_def sample_cli_def max_arguments_def max_value_bytes_def)

lemma sample_parameters:
  "validate_parameters (override [(''Count'', JInt 3)] (ci_parameters sample_cli)) = Inr [(''Count'', JInt 4)]"
  using sample_sizes
  by (simp add: validate_parameters_def validate_parameter_def override_def sample_cli_def max_value_bytes_def)

lemma sample_environment:
  "validate_environment (override [(''MODE'', JStr ''ci'')] (map (\<lambda>(k, v). (k, JStr v)) (ci_environment sample_cli))) =
     Inr [(''MODE'', ''ci'')]"
  using sample_sizes
  by (simp add: validate_environment_def validate_env_entry_def override_def sample_cli_def max_value_bytes_def)

lemma sample_stdin: "stdin_of sample_tree [''p''] sample_run sample_cli = Inr (Some ''y'', Some ''manifest:text'')"
  using sample_sizes
  by (simp add: stdin_of_def load_stdin_def stdin_parts_def sample_run_def get_or_def sample_cli_def max_stdin_bytes_def)
    (simp add: utf8_char_def)

lemma sample_lock: "lockfile_of sample_tree [''p''] [''p''] sample_run sample_cli = Inr None"
proof -
  have "get_none ''lockfile'' sample_run = JNull" by (simp add: sample_run_def get_or_def)
  moreover have "path_exists sample_tree ([''p''] @ [''psmatrix.lock.json'']) = False" by code_simp
  ultimately show ?thesis by (simp add: lockfile_of_def sample_cli_def)
qed

lemma sample_fixture:
  "parse_fixture sample_H64 sample_tree [''p''] (JObj [(''destination'', JStr ''in/data.txt''),
     (''sha256'', JStr (sample_H64 '''')), (''source'', JStr ''data.txt'')]) =
   Inr \<lparr>fx_source = [''p'', ''data.txt''], fx_destination = [''in'', ''data.txt''], fx_sha256 = Some (sample_H64 '''')\<rparr>"
  by code_simp

lemma sample_fixtures: "resolved (fixtures_of sample_H64 sample_tree [''p''] [''p''] sample_run sample_cli)"
  by (simp add: fixtures_of_def sample_values sample_fixture resolved_def max_fixtures_def sample_cli_def)

lemma sample_hook:
  "resolved (parse_hook sample_H64 sample_tree ''setup'' [''p''] (JStr ''up.ps1''))"
  by code_simp

lemma sample_hooks: "resolved (hooks_of sample_H64 sample_tree [''p''] [''p''] sample_run sample_cli)"
proof -
  obtain h where "parse_hook sample_H64 sample_tree ''setup'' [''p''] (JStr ''up.ps1'') = Inr h"
    using sample_hook by (auto simp: resolved_def split: sum.splits)
  moreover have "get_or ''setup'' (JArr []) sample_run = JArr [JStr ''up.ps1'']"
    "get_or ''teardown'' (JArr []) sample_run = JArr []"
    by (simp_all add: sample_run_def get_or_def)
  ultimately show ?thesis by (simp add: hooks_of_def sample_cli_def max_hooks_def resolved_def)
qed

lemma sample_resolves: "resolved (resolve_execution_profile sample_H64 sample_tree [''p''] [''p'', ''a.ps1''] sample_cli)"
proof -
  obtain fx where f: "fixtures_of sample_H64 sample_tree [''p''] [''p''] sample_run sample_cli = Inr fx"
    using sample_fixtures by (auto simp: resolved_def split: sum.splits)
  obtain st tdn where h: "hooks_of sample_H64 sample_tree [''p''] [''p''] sample_run sample_cli = Inr (st, tdn)"
    using sample_hooks by (auto simp: resolved_def split: sum.splits)
  show ?thesis
    by (simp add: resolve_execution_profile_def Let_def sample_paths(1) sample_load sample_values sample_arguments [simplified]
        sample_parameters sample_environment sample_stdin sample_lock f h resolved_def)
qed

lemma resolved_profile_ok_witness:
  "\<exists>p. resolve_execution_profile sample_H64 sample_tree [''p''] [''p'', ''a.ps1''] sample_cli = Inr p
    \<and> profile_ok sample_H64 sample_tree p"
proof -
  obtain p where "resolve_execution_profile sample_H64 sample_tree [''p''] [''p'', ''a.ps1''] sample_cli = Inr p"
    using sample_resolves by (auto simp: resolved_def split: sum.splits)
  with resolved_profile_ok [OF this] show ?thesis by blast
qed

end
