(* ===== verification/Psm_Base64.thy ===== *)
theory Psm_Base64
  imports Psm_Prelude
begin

text \<open>
  \<open>base64.b64encode\<close> and \<open>base64.b64decode(text, validate=True)\<close> of Python 3.11, on bytes as
  characters: the alphabet, the padding a decoder accepts, and that decoding inverts encoding.
\<close>

section \<open>The alphabet\<close>

definition b64_char :: "nat \<Rightarrow> char" where
  "b64_char n = char_of (if n < 26 then 65 + n else if n < 52 then 71 + n else if n < 62 then n - 4
     else if n = 62 then 43 else 47)"

definition b64_val :: "char \<Rightarrow> nat option" where
  "b64_val c = (let n = (of_char c :: nat) in
     if 65 \<le> n \<and> n \<le> 90 then Some (n - 65) else if 97 \<le> n \<and> n \<le> 122 then Some (n - 71)
     else if 48 \<le> n \<and> n \<le> 57 then Some (n + 4) else if n = 43 then Some 62
     else if n = 47 then Some 63 else None)"

lemma b64_val_char [simp]: "n < 64 \<Longrightarrow> b64_val (b64_char n) = Some n"
proof -
  have "list_all (\<lambda>n. b64_val (b64_char n) = Some n) [0..<64]" by code_simp
  then show "n < 64 \<Longrightarrow> b64_val (b64_char n) = Some n" by (simp add: list_all_iff)
qed

section \<open>Encoding\<close>

fun b64_sextets :: "nat list \<Rightarrow> nat list" where
  "b64_sextets (a # b # c # rest) =
     a div 4 # (a mod 4 * 16 + b div 16) # (b mod 16 * 4 + c div 64) # c mod 64 # b64_sextets rest"
| "b64_sextets [a, b] = [a div 4, a mod 4 * 16 + b div 16, b mod 16 * 4]"
| "b64_sextets [a] = [a div 4, a mod 4 * 16]"
| "b64_sextets [] = []"

definition b64_padding :: "nat \<Rightarrow> string" where
  "b64_padding n = (if n mod 3 = 1 then ''=='' else if n mod 3 = 2 then ''='' else [])"

definition b64encode :: "string \<Rightarrow> string" where
  "b64encode bytes = map b64_char (b64_sextets (map of_char bytes)) @ b64_padding (length bytes)"

section \<open>Decoding\<close>

fun b64_bytes :: "nat list \<Rightarrow> nat list" where
  "b64_bytes (p # q # r # s # rest) =
     (p * 4 + q div 16) # (q mod 16 * 16 + r div 4) # (r mod 4 * 64 + s) # b64_bytes rest"
| "b64_bytes [p, q, r] = [p * 4 + q div 16, q mod 16 * 16 + r div 4]"
| "b64_bytes [p, q] = [p * 4 + q div 16]"
| "b64_bytes _ = []"

text \<open>
  \<open>binascii.a2b_base64(text, strict_mode=True)\<close>: digits of the alphabet and then only \<open>=\<close>, not at the start. An
  incomplete last group must have exactly its padding, and its left-over bits are dropped; after a complete group
  any number of \<open>=\<close> is ignored.
\<close>

definition b64decode :: "string \<Rightarrow> string option" where
  "b64decode s =
     (let digits = takeWhile (\<lambda>c. b64_val c \<noteq> None) s; pads = dropWhile (\<lambda>c. b64_val c \<noteq> None) s;
          r = length digits mod 4 in
      if list_ex (\<lambda>c. c \<noteq> CHR ''='') pads \<or> (digits = [] \<and> pads \<noteq> []) \<or> r = 1
        \<or> (r = 2 \<and> length pads \<noteq> 2) \<or> (r = 3 \<and> length pads \<noteq> 1) then None
      else Some (map char_of (b64_bytes (map (\<lambda>c. the (b64_val c)) digits))))"

section \<open>Round trip\<close>

lemma sextets_less: "list_all (\<lambda>b. b < 256) bs \<Longrightarrow> list_all (\<lambda>n. n < 64) (b64_sextets bs)"
proof (induction bs rule: b64_sextets.induct)
  case (1 a b c rest)
  then have "a div 4 < 64" "b div 16 < 16" "c div 64 < 4" by auto
  then have "a mod 4 * 16 + b div 16 < 64" "b mod 16 * 4 + c div 64 < 64"
    using mod_less_divisor [of 4 a] mod_less_divisor [of 16 b] by linarith+
  with 1 \<open>a div 4 < 64\<close> show ?case by simp
next
  case (2 a b)
  then have "a div 4 < 64" "b div 16 < 16" by auto
  then have "a mod 4 * 16 + b div 16 < 64" "b mod 16 * 4 < 64"
    using mod_less_divisor [of 4 a] mod_less_divisor [of 16 b] by linarith+
  with \<open>a div 4 < 64\<close> show ?case by simp
next
  case (3 a)
  have "a mod 4 * 16 < 64" using mod_less_divisor [of 4 a] by linarith
  with 3 show ?case by auto
qed simp

lemma bytes_sextets: "list_all (\<lambda>b. b < 256) bs \<Longrightarrow> b64_bytes (b64_sextets bs) = bs"
proof (induction bs rule: b64_sextets.induct)
  case (1 a b c rest)
  then have c: "b div 16 < 16" "c div 64 < 4" by auto
  have "(a mod 4 * 16 + b div 16) div 16 = a mod 4" "(a mod 4 * 16 + b div 16) mod 16 = b div 16"
    "(b mod 16 * 4 + c div 64) div 4 = b mod 16" "(b mod 16 * 4 + c div 64) mod 4 = c div 64"
    using c by simp_all
  with 1 show ?case by simp
next
  case (2 a b)
  then have "b div 16 < 16" by auto
  then have "(a mod 4 * 16 + b div 16) div 16 = a mod 4" "(a mod 4 * 16 + b div 16) mod 16 = b div 16" by simp_all
  then show ?case by simp
qed simp_all

lemma length_sextets: "length (b64_sextets bs) mod 4 = (if length bs mod 3 = 1 then 2 else if length bs mod 3 = 2 then 3 else 0)"
proof (induction bs rule: b64_sextets.induct)
  case (1 a b c rest)
  have "length (a # b # c # rest) mod 3 = length rest mod 3" by simp
  with 1 show ?case by simp
qed simp_all

lemma takeWhile_digits_pads:
  assumes "list_all (\<lambda>n. n < 64) ns" and "pads \<in> {[], ''='', ''==''}"
  shows "takeWhile (\<lambda>c. b64_val c \<noteq> None) (map b64_char ns @ pads) = map b64_char ns"
    and "dropWhile (\<lambda>c. b64_val c \<noteq> None) (map b64_char ns @ pads) = pads"
proof -
  have "b64_val (CHR ''='') = None" by (simp add: b64_val_def)
  with assms show "takeWhile (\<lambda>c. b64_val c \<noteq> None) (map b64_char ns @ pads) = map b64_char ns"
    and "dropWhile (\<lambda>c. b64_val c \<noteq> None) (map b64_char ns @ pads) = pads"
    by (induction ns) auto
qed

lemma b64decode_encode: "b64decode (b64encode bytes) = Some bytes"
proof -
  let ?bs = "map of_char bytes :: nat list"
  have b: "list_all (\<lambda>b. b < 256) ?bs" by (simp add: list_all_iff)
  note s = sextets_less [OF b]
  have p: "b64_padding (length bytes) \<in> {[], ''='', ''==''}" by (simp add: b64_padding_def)
  have v: "map (\<lambda>c. the (b64_val c)) (map b64_char (b64_sextets ?bs)) = b64_sextets ?bs"
    using s by (auto simp: list_all_iff intro: map_idI)
  have len: "length (map b64_char (b64_sextets ?bs)) mod 4
      = (if length bytes mod 3 = 1 then 2 else if length bytes mod 3 = 2 then 3 else 0)"
    using length_sextets [of ?bs] by simp
  have e: "map b64_char (b64_sextets ?bs) = [] \<longleftrightarrow> bytes = []"
  proof
    assume "map b64_char (b64_sextets ?bs) = []"
    then have "b64_bytes (b64_sextets ?bs) = []" by simp
    then show "bytes = []" unfolding bytes_sextets [OF b] by simp
  qed simp
  have ok: "list_ex (\<lambda>c. c \<noteq> CHR ''='') (b64_padding (length bytes))
      \<or> (map b64_char (b64_sextets ?bs) = [] \<and> b64_padding (length bytes) \<noteq> [])
      \<or> length (map b64_char (b64_sextets ?bs)) mod 4 = 1
      \<or> (length (map b64_char (b64_sextets ?bs)) mod 4 = 2 \<and> length (b64_padding (length bytes)) \<noteq> 2)
      \<or> (length (map b64_char (b64_sextets ?bs)) mod 4 = 3 \<and> length (b64_padding (length bytes)) \<noteq> 1) \<longleftrightarrow> False"
    unfolding len e by (auto simp: b64_padding_def)
  have "map char_of ?bs = bytes" by (simp add: comp_def)
  then show ?thesis
    unfolding b64decode_def b64encode_def Let_def takeWhile_digits_pads [OF s p] ok v bytes_sextets [OF b] by simp
qed

text \<open>What the strict decoder refuses and what it lets through\<close>

lemma strict_padding:
  "b64decode ''='' = None" "b64decode ''AA='' = None" "b64decode ''AA==='' = None" "b64decode ''AAA=='' = None"
  "b64decode ''AA==AA=='' = None" "b64decode ''AAAA==='' = b64decode ''AAAA''"
  by code_simp+

end
