(* ===== verification/Psm_Protocol.thy ===== *)
theory Psm_Protocol
  imports Psm_Base64 Psm_QueueMirror Psm_Registry Psm_Models
begin

text \<open>
  The signed messages between a controller and a remote worker (\<open>remote_protocol.py\<close>): job requests
  with an inline artifact or a reference to an uploaded one, job results bound to their request, and
  the guard against replayed requests. Signing, verification and key ids run an Ed25519
  implementation and are parameters, as is SHA-256. The guard's SQLite table is the list of its rows;
  the checks that its file is the one that was opened are outside.
\<close>

section \<open>Fields\<close>

definition bad_message :: "string \<Rightarrow> 'a res" where
  "bad_message m = throw RemoteProtocolError m"

lemma bad_message_neq [simp]: "bad_message m \<noteq> Inr x" "Inr x \<noteq> bad_message m"
  by (simp_all add: bad_message_def)

lemma if_bad_message_eq_Inr [simp]: "(if b then bad_message m else r) = Inr x \<longleftrightarrow> \<not> b \<and> r = Inr x"
  by simp

definition validate_identity :: "string \<Rightarrow> string \<Rightarrow> string res" where
  "validate_identity label text = (if id_match text then Inr text else bad_message (label @ '' identity is invalid''))"

text \<open>The canonical form of a UUID, in either case of its digits\<close>

definition uuid_text :: "string \<Rightarrow> bool" where
  "uuid_text s \<longleftrightarrow> length s = 36 \<and> list_all (\<lambda>(i, c). if i \<in> {8, 13, 18, 23} then c = CHR ''-'' else hex_val c \<noteq> None) (enumerate 0 s)"

definition validate_job_id :: "string \<Rightarrow> string res" where
  "validate_job_id text = (if uuid_text text then Inr text else bad_message ''Worker job ID must be a canonical UUID'')"

definition validate_entrypoint :: "string \<Rightarrow> string res" where
  "validate_entrypoint text =
     (if text = [] \<or> 1024 < length text \<or> CHR 0x5C \<in> set text then bad_message ''Worker entrypoint is invalid''
      else if starts_with ''/'' text \<or> ''..'' \<in> set (path_parts text) \<or> path_parts text = []
      then bad_message ''Worker entrypoint must be a safe relative POSIX path'' else Inr text)"

definition validate_options :: "json \<Rightarrow> json res" where
  "validate_options v = (if \<not> is_dict v then bad_message ''Worker options must be an object''
     else if 1024 * 1024 < int (length (canonical_json_bytes v)) then bad_message ''Worker options exceed 1 MiB'' else Inr v)"

definition protocol_time :: "string \<Rightarrow> instant res" where
  "protocol_time s = (case from_iso s of
     None \<Rightarrow> bad_message (''Invalid protocol timestamp: '' @ s)
   | Some (t, None) \<Rightarrow> bad_message ''Protocol timestamps must include a timezone''
   | Some (t, Some off) \<Rightarrow> Inr (to_utc t off))"

section \<open>Signatures\<close>

record crypto =
  cr_H :: "string \<Rightarrow> string"
  cr_sign :: "string \<Rightarrow> string \<Rightarrow> string res"
  cr_verify :: "string \<Rightarrow> string \<Rightarrow> string \<Rightarrow> bool res"
  cr_key_id :: "string \<Rightarrow> string res"

definition unsigned :: "json \<Rightarrow> json" where
  "unsigned v = jdel ''signature'' v"

definition signature_envelope :: "crypto \<Rightarrow> json \<Rightarrow> string \<Rightarrow> string \<Rightarrow> json res" where
  "signature_envelope C payload private_key public_key =
     res_bind (cr_sign C private_key (canonical_json_bytes payload)) (\<lambda>signature.
     res_bind (cr_key_id C public_key) (\<lambda>key.
       Inr (JObj [(''algorithm'', JStr ''Ed25519''), (''key_id'', JStr key), (''value'', JStr (b64encode signature))])))"

definition signed :: "crypto \<Rightarrow> json \<Rightarrow> string \<Rightarrow> string \<Rightarrow> json res" where
  "signed C payload private_key public_key =
     res_bind (signature_envelope C payload private_key public_key) (\<lambda>s. Inr (jset ''signature'' s payload))"

definition verify_signature :: "crypto \<Rightarrow> json \<Rightarrow> string \<Rightarrow> unit res" where
  "verify_signature C v public_key =
     (let signature = get_none ''signature'' v in
      if \<not> is_dict signature \<or> get_none ''algorithm'' signature \<noteq> JStr ''Ed25519''
      then bad_message ''Message signature is missing or unsupported''
      else res_bind (cr_key_id C public_key) (\<lambda>key.
        if get_none ''key_id'' signature \<noteq> JStr key then bad_message ''Message key ID is not trusted''
        else case b64decode (text_field ''value'' signature) of
            None \<Rightarrow> bad_message ''Message signature encoding is invalid''
          | Some raw \<Rightarrow> res_bind (cr_verify C public_key (canonical_json_bytes (unsigned v)) raw) (\<lambda>ok.
              if ok then Inr () else bad_message ''Message signature verification failed'')))"

section \<open>Job requests\<close>

definition inline_artifact :: "crypto \<Rightarrow> string \<Rightarrow> json res" where
  "inline_artifact C artifact =
     (if artifact = [] then bad_message ''Worker job artifact cannot be empty''
      else if 64 * 1024 * 1024 < int (length artifact) then bad_message ''Worker job artifact exceeds 64 MiB''
      else Inr (JObj [(''encoding'', JStr ''base64''), (''sha256'', JStr (cr_H C artifact)),
        (''size'', JInt (int (length artifact))), (''data'', JStr (b64encode artifact))]))"

text \<open>\<open>isinstance(v, int) and 1 <= v <= maximum\<close>\<close>

definition int_in :: "json \<Rightarrow> int \<Rightarrow> bool" where
  "int_in v maximum \<longleftrightarrow> is_int v \<and> (case py_int v of Inr n \<Rightarrow> 1 \<le> n \<and> n \<le> maximum | Inl e \<Rightarrow> False)"

text \<open>
  A reference to an uploaded artifact. A transfer id that is no UUID and one that is not written
  canonically are refused alike; the model has one message for the two.
\<close>

definition reference_artifact :: "json \<Rightarrow> json res" where
  "reference_artifact reference =
     (let ref = (if is_dict reference then reference else JObj []);
          transfer_id = text_field ''transfer_id'' ref; sha = py_lower (text_field ''sha256'' ref) in
      if \<not> uuid_text transfer_id then bad_message ''Worker transfer reference ID is invalid''
      else if \<not> int_in (get_none ''size'' ref) (128 * 1024 * 1024) then bad_message ''Worker transfer reference size is invalid''
      else if \<not> hex_digest_text sha then bad_message ''Worker transfer reference SHA-256 is invalid''
      else Inr (JObj [(''encoding'', JStr ''transfer-v1''), (''transfer_id'', JStr transfer_id),
        (''sha256'', JStr sha), (''size'', get_none ''size'' ref)]))"

definition request_artifact :: "crypto \<Rightarrow> string option \<Rightarrow> json option \<Rightarrow> json res" where
  "request_artifact C artifact reference = (case (artifact, reference) of
     (Some a, None) \<Rightarrow> inline_artifact C a
   | (None, Some r) \<Rightarrow> reference_artifact r
   | _ \<Rightarrow> bad_message ''Worker request requires exactly one inline artifact or transfer reference'')"

definition request_payload ::
    "instant \<Rightarrow> string \<Rightarrow> string \<Rightarrow> string \<Rightarrow> string \<Rightarrow> int \<Rightarrow> json \<Rightarrow> string \<Rightarrow> json \<Rightarrow> json" where
  "request_payload now job_id controller_id worker_id nonce ttl artifact entrypoint options = JObj
     [(''schema'', JInt 1), (''kind'', JStr ''psmatrix.worker-job''), (''job_id'', JStr job_id),
      (''controller_id'', JStr controller_id), (''worker_id'', JStr worker_id), (''issued_at'', JStr (iso now)),
      (''expires_at'', JStr (iso (now + usec_per_sec * ttl))), (''nonce'', JStr nonce), (''action'', JStr ''test''),
      (''artifact'', artifact), (''entrypoint'', JStr entrypoint), (''options'', options)]"

text \<open>\<open>create_job_request\<close>; the job id and the nonce are given or freshly drawn by the caller.\<close>

definition create_job_request ::
    "crypto \<Rightarrow> instant \<Rightarrow> string \<Rightarrow> string \<Rightarrow> string option \<Rightarrow> json option \<Rightarrow> string \<Rightarrow> json \<Rightarrow> string \<Rightarrow> string
      \<Rightarrow> int \<Rightarrow> string \<Rightarrow> string \<Rightarrow> json res" where
  "create_job_request C now controller_id worker_id artifact reference entrypoint options private_key public_key
       ttl job_id nonce =
     res_bind (validate_identity ''Controller'' controller_id) (\<lambda>controller_id.
     res_bind (validate_identity ''Worker'' worker_id) (\<lambda>worker_id.
     res_bind (validate_entrypoint entrypoint) (\<lambda>entrypoint.
     res_bind (validate_options options) (\<lambda>options.
     if \<not> (1 \<le> ttl \<and> ttl \<le> 3600) then bad_message ''Job TTL must be between 1 and 3600 seconds''
     else res_bind (request_artifact C artifact reference) (\<lambda>artifact_value.
       res_bind (validate_job_id job_id) (\<lambda>job_id.
         signed C (request_payload now job_id controller_id worker_id nonce ttl artifact_value entrypoint options)
           private_key public_key))))))"

section \<open>The replay guard\<close>

type_synonym replay_guard = "(string \<times> string \<times> string) list"

text \<open>\<open>consume\<close>: one transaction that forgets the nonces whose expiry lies before the clock and inserts the
  new one. An insertion that violates the primary key undoes the deletion.\<close>

definition live_nonces :: "instant \<Rightarrow> replay_guard \<Rightarrow> replay_guard" where
  "live_nonces now g = filter (\<lambda>(c, n, e). \<not> e < iso now) g"

definition has_nonce :: "string \<Rightarrow> string \<Rightarrow> replay_guard \<Rightarrow> bool" where
  "has_nonce controller_id nonce g \<longleftrightarrow> (controller_id, nonce) \<in> (\<lambda>row. (fst row, fst (snd row))) ` set g"

definition consume :: "instant \<Rightarrow> string \<Rightarrow> string \<Rightarrow> instant \<Rightarrow> replay_guard \<Rightarrow> replay_guard \<times> unit res" where
  "consume now controller_id nonce expires g =
     (let live = live_nonces now g in
      if has_nonce controller_id nonce live
      then (g, bad_message ''Worker request nonce has already been used'')
      else (live @ [(controller_id, nonce, iso expires)], Inr ()))"

section \<open>Verifying a request\<close>

definition max_skew :: int where
  "max_skew = 120 * usec_per_sec"

text \<open>The checks before the guard: the controller, the nonce and the expiry of an authentic request\<close>

definition check_request :: "crypto \<Rightarrow> string \<Rightarrow> string \<Rightarrow> instant \<Rightarrow> json \<Rightarrow> (string \<times> string \<times> instant) res" where
  "check_request C expected_worker_id public_key now request =
     (if \<not> eq_int (get_none ''schema'' request) 1 \<or> get_none ''kind'' request \<noteq> JStr ''psmatrix.worker-job''
      then bad_message ''Unsupported worker request''
      else
        res_bind (validate_identity ''Expected worker'' expected_worker_id) (\<lambda>_.
        res_bind (validate_identity ''Worker'' (text_field ''worker_id'' request)) (\<lambda>worker_id.
        if worker_id \<noteq> expected_worker_id then bad_message ''Worker request targets a different worker''
        else
          res_bind (validate_job_id (text_field ''job_id'' request)) (\<lambda>_.
          res_bind (validate_entrypoint (text_field ''entrypoint'' request)) (\<lambda>_.
          res_bind (validate_options (get_none ''options'' request)) (\<lambda>_.
          if get_none ''action'' request \<noteq> JStr ''test'' then bad_message ''Unsupported worker action''
          else
            res_bind (verify_signature C request public_key) (\<lambda>_.
            res_bind (protocol_time (text_field ''issued_at'' request)) (\<lambda>issued.
            res_bind (protocol_time (text_field ''expires_at'' request)) (\<lambda>expires.
            if expires \<le> issued \<or> 3600 * usec_per_sec < expires - issued
            then bad_message ''Worker request validity window is invalid''
            else if now + max_skew < issued then bad_message ''Worker request was issued in the future''
            else if expires < now - max_skew then bad_message ''Worker request has expired''
            else if length (text_field ''nonce'' request) < 24 \<or> 256 < length (text_field ''nonce'' request)
            then bad_message ''Worker request nonce is invalid''
            else
              res_bind (validate_identity ''Controller'' (text_field ''controller_id'' request)) (\<lambda>controller_id.
                Inr (controller_id, text_field ''nonce'' request, expires)))))))))))"

text \<open>After the guard: the bytes of the artifact\<close>

type_synonym resolver = "string \<Rightarrow> string \<Rightarrow> string \<Rightarrow> int \<Rightarrow> string res"

definition artifact_bytes :: "resolver option \<Rightarrow> string \<Rightarrow> json \<Rightarrow> string \<Rightarrow> int \<Rightarrow> string res" where
  "artifact_bytes resolver controller_id artifact sha n =
     (let encoding = get_none ''encoding'' artifact in
      if encoding = JStr ''base64'' then
        (case b64decode (text_field ''data'' artifact) of
           None \<Rightarrow> bad_message ''Worker request artifact encoding is invalid'' | Some raw \<Rightarrow> Inr raw)
      else if encoding = JStr ''transfer-v1'' then
        (case resolver of
           None \<Rightarrow> bad_message ''Worker transfer reference cannot be resolved''
         | Some fetch \<Rightarrow>
             if \<not> uuid_text (text_field ''transfer_id'' artifact) then bad_message ''Worker transfer reference ID is invalid''
             else fetch controller_id (text_field ''transfer_id'' artifact) sha n)
      else bad_message ''Worker request artifact encoding is unsupported'')"

definition check_artifact :: "crypto \<Rightarrow> resolver option \<Rightarrow> string \<Rightarrow> json \<Rightarrow> string res" where
  "check_artifact C resolver controller_id request =
     (let artifact = get_none ''artifact'' request;
          maximum = (if get_none ''encoding'' artifact = JStr ''base64'' then 64 * 1024 * 1024 else 128 * 1024 * 1024);
          sha = py_lower (text_field ''sha256'' artifact) in
      if \<not> is_dict artifact then bad_message ''Worker request artifact is malformed''
      else if \<not> int_in (get_none ''size'' artifact) maximum then bad_message ''Worker request artifact size is invalid''
      else if \<not> hex_digest_text sha then bad_message ''Worker request artifact SHA-256 is invalid''
      else
        res_bind (py_int (get_none ''size'' artifact)) (\<lambda>n.
        res_bind (artifact_bytes resolver controller_id artifact sha n) (\<lambda>raw.
        if int (length raw) \<noteq> n \<or> cr_H C raw \<noteq> sha then bad_message ''Worker request artifact integrity check failed''
        else Inr raw)))"

text \<open>\<open>verify_job_request\<close>; the guard reads the clock again.\<close>

definition verify_job_request ::
    "crypto \<Rightarrow> string \<Rightarrow> string \<Rightarrow> resolver option \<Rightarrow> instant \<Rightarrow> instant \<Rightarrow> json \<Rightarrow> replay_guard option
      \<Rightarrow> replay_guard option \<times> string res" where
  "verify_job_request C expected_worker_id public_key resolver now now' request guard =
     (case check_request C expected_worker_id public_key now request of
        Inl e \<Rightarrow> (guard, Inl e)
      | Inr (controller_id, nonce, expires) \<Rightarrow>
          (case guard of
             None \<Rightarrow> (guard, check_artifact C resolver controller_id request)
           | Some g \<Rightarrow>
               (case consume now' controller_id nonce expires g of
                  (g', Inl e) \<Rightarrow> (Some g', Inl e)
                | (g', Inr _) \<Rightarrow> (Some g', check_artifact C resolver controller_id request))))"

definition request_sha256 :: "crypto \<Rightarrow> json \<Rightarrow> string" where
  "request_sha256 C request = cr_H C (canonical_json_bytes (unsigned request))"

section \<open>Job results\<close>

definition result_payload :: "crypto \<Rightarrow> instant \<Rightarrow> json \<Rightarrow> string \<Rightarrow> json \<Rightarrow> json \<Rightarrow> json \<Rightarrow> json" where
  "result_payload C now request worker_id capabilities report reset = JObj
     [(''schema'', JInt 1), (''kind'', JStr ''psmatrix.worker-result''), (''job_id'', get_none ''job_id'' request),
      (''worker_id'', JStr worker_id), (''controller_id'', get_none ''controller_id'' request),
      (''request_sha256'', JStr (request_sha256 C request)), (''request_nonce'', get_none ''nonce'' request),
      (''created_at'', JStr (iso now)), (''status'', get_none ''status'' report), (''capabilities'', capabilities),
      (''reset'', reset), (''report'', report)]"

definition create_job_result ::
    "crypto \<Rightarrow> instant \<Rightarrow> json \<Rightarrow> string \<Rightarrow> json \<Rightarrow> json \<Rightarrow> json \<Rightarrow> string \<Rightarrow> string \<Rightarrow> json res" where
  "create_job_result C now request worker_id capabilities report reset private_key public_key =
     res_bind (validate_identity ''Worker'' worker_id) (\<lambda>worker_id.
     if \<not> is_dict capabilities \<or> \<not> is_dict report \<or> \<not> is_dict reset then bad_message ''Worker result payload is malformed''
     else signed C (result_payload C now request worker_id capabilities report reset) private_key public_key)"

definition dict_or_empty :: "json \<Rightarrow> json" where
  "dict_or_empty v = (if is_dict v then v else JObj [])"

definition reset_cycle_ok :: "json \<Rightarrow> bool" where
  "reset_cycle_ok reset \<longleftrightarrow> py_true (get_or ''required'' (JBool True) reset) \<longrightarrow>
     py_true (get_none ''passed'' (dict_or_empty (get_none ''before'' reset)))
     \<and> py_true (get_none ''passed'' (dict_or_empty (get_none ''after'' reset)))"

text \<open>\<open>report.get("worker_id") not in {None, expected}\<close>: a list or a dict has no hash.\<close>

definition claims_other_worker :: "string \<Rightarrow> json \<Rightarrow> bool res" where
  "claims_other_worker expected v = (case v of
     JArr _ \<Rightarrow> throw TypeError ''unhashable type'' | JObj _ \<Rightarrow> throw TypeError ''unhashable type''
   | _ \<Rightarrow> Inr (v \<noteq> JNull \<and> v \<noteq> JStr expected))"

definition verify_job_result :: "crypto \<Rightarrow> json \<Rightarrow> string \<Rightarrow> string \<Rightarrow> json \<Rightarrow> json res" where
  "verify_job_result C request expected_worker_id public_key result =
     (let capabilities = get_none ''capabilities'' result; report = get_none ''report'' result; reset = get_none ''reset'' result in
      if \<not> eq_int (get_none ''schema'' result) 1 \<or> get_none ''kind'' result \<noteq> JStr ''psmatrix.worker-result''
      then bad_message ''Unsupported worker result''
      else
        res_bind (validate_identity ''Expected worker'' expected_worker_id) (\<lambda>_.
        res_bind (validate_job_id (text_field ''job_id'' result)) (\<lambda>_.
        if get_none ''worker_id'' result \<noteq> JStr expected_worker_id
            \<or> \<not> py_eq (get_none ''job_id'' result) (get_none ''job_id'' request)
        then bad_message ''Worker result identity or job ID mismatch''
        else if \<not> py_eq (get_none ''controller_id'' result) (get_none ''controller_id'' request)
            \<or> \<not> py_eq (get_none ''request_nonce'' result) (get_none ''nonce'' request)
        then bad_message ''Worker result is not bound to the request''
        else if get_none ''request_sha256'' result \<noteq> JStr (request_sha256 C request)
        then bad_message ''Worker result request hash mismatch''
        else
          res_bind (verify_signature C result public_key) (\<lambda>_.
          if \<not> is_dict capabilities \<or> \<not> is_dict report \<or> \<not> is_dict reset
          then bad_message ''Worker result payload is malformed''
          else if \<not> py_eq (get_none ''status'' result) (get_none ''status'' report)
          then bad_message ''Worker result status conflicts with the embedded report''
          else
            res_bind (protocol_time (text_field ''created_at'' result)) (\<lambda>created.
            res_bind (protocol_time (text_field ''issued_at'' request)) (\<lambda>issued.
            res_bind (protocol_time (text_field ''expires_at'' request)) (\<lambda>expires.
            if created < issued - max_skew \<or> expires + max_skew < created
            then bad_message ''Worker result timestamp is outside the request validity window''
            else if \<not> reset_cycle_ok reset
            then bad_message ''Worker result lacks a successful required reset cycle''
            else
              res_bind (claims_other_worker expected_worker_id (get_none ''worker_id'' report)) (\<lambda>other.
              if other then bad_message ''Embedded report claims a different worker''
              else Inr (JObj [(''valid'', JBool True), (''result'', result), (''report'', report),
                (''capabilities'', capabilities), (''reset'', reset)])))))))))"

end
