(* ===== verification/Psm_ProtocolProps.thy ===== *)
theory Psm_ProtocolProps
  imports Psm_Protocol
begin

text \<open>
  What the signed messages guarantee: the facts a verified request and a verified result establish,
  that a request made by a controller is accepted by its worker, and how long the guard remembers a
  nonce.
\<close>

section \<open>Signatures\<close>

text \<open>The contract of the key pair: what the private key signs, the public key verifies.\<close>

definition key_pair :: "crypto \<Rightarrow> string \<Rightarrow> string \<Rightarrow> bool" where
  "key_pair C private_key public_key \<longleftrightarrow>
     (\<forall>m s. cr_sign C private_key m = Inr s \<longrightarrow> cr_verify C public_key m s = Inr True)"

text \<open>The signature of a message verifies over its other fields.\<close>

definition authentic :: "crypto \<Rightarrow> string \<Rightarrow> json \<Rightarrow> bool" where
  "authentic C public_key v \<longleftrightarrow> (\<exists>key raw.
     cr_key_id C public_key = Inr key \<and> get_none ''key_id'' (get_none ''signature'' v) = JStr key
     \<and> b64decode (text_field ''value'' (get_none ''signature'' v)) = Some raw
     \<and> cr_verify C public_key (canonical_json_bytes (unsigned v)) raw = Inr True)"

lemma verify_signature_authentic: "verify_signature C v pk = Inr () \<Longrightarrow> authentic C pk v"
  by (auto simp: verify_signature_def authentic_def Let_def bad_message_def split: if_splits option.splits)

lemma verify_signed:
  assumes "key_pair C sk pk" "is_dict p" "jget ''signature'' p = None" "signed C p sk pk = Inr v"
  shows "verify_signature C v pk = Inr ()"
proof -
  from assms(4) obtain s key where s: "cr_sign C sk (canonical_json_bytes p) = Inr s" "cr_key_id C pk = Inr key"
    and v: "v = jset ''signature'' (JObj [(''algorithm'', JStr ''Ed25519''), (''key_id'', JStr key), (''value'', JStr (b64encode s))]) p"
    by (auto simp: signed_def signature_envelope_def)
  from v have sig: "get_none ''signature'' v = JObj [(''algorithm'', JStr ''Ed25519''), (''key_id'', JStr key), (''value'', JStr (b64encode s))]"
    by (simp add: get_or_def)
  have "unsigned v = p" unfolding unsigned_def v using assms(2,3) by (rule jdel_jset_new)
  moreover have "text_field ''value'' (get_none ''signature'' v) = b64encode s"
    unfolding sig by (rule text_field_JStr) simp
  ultimately show ?thesis
    using assms(1) s unfolding verify_signature_def Let_def sig by (simp add: get_or_def b64decode_encode key_pair_def)
qed

lemma signed_fields: "signed C p sk pk = Inr v \<Longrightarrow> k \<noteq> ''signature'' \<Longrightarrow> jget k v = jget k p"
  by (auto simp: signed_def)

section \<open>Times\<close>

lemma protocol_time_iso: "valid_instant t \<Longrightarrow> protocol_time (iso t) = Inr t"
  by (simp add: protocol_time_def from_iso_iso to_utc_def)

section \<open>The guard\<close>

lemma consume_fresh:
  assumes "\<not> has_nonce c n g"
  shows "consume now c n e g = (live_nonces now g @ [(c, n, iso e)], Inr ())"
  using assms by (auto simp: consume_def live_nonces_def has_nonce_def Let_def)

lemma consume_ok:
  assumes "consume now c n e g = (g', Inr u)"
  shows "g' = live_nonces now g @ [(c, n, iso e)]" and "\<not> has_nonce c n (live_nonces now g)"
  using assms by (auto simp: consume_def bad_message_def Let_def split: if_splits)

lemma consume_seen:
  assumes "(c, n, iso e) \<in> set g" "valid_instant e" "valid_instant now" "now \<le> e"
  shows "consume now c n e' g = (g, bad_message ''Worker request nonce has already been used'')"
proof -
  from assms have "(c, n, iso e) \<in> set (live_nonces now g)" by (simp add: live_nonces_def)
  then have "has_nonce c n (live_nonces now g)" by (force simp: has_nonce_def)
  then show ?thesis by (simp add: consume_def Let_def)
qed

lemma consume_keeps:
  assumes "(c, n, iso e) \<in> set g" "valid_instant e" "valid_instant now" "now \<le> e"
  shows "(c, n, iso e) \<in> set (fst (consume now c' n' e' g))"
  using assms by (auto simp: consume_def live_nonces_def Let_def)

lemma verify_accepted:
  assumes "verify_job_request C w pk res now now' r (Some g) = (g1, Inr a)"
  obtains c n e where "check_request C w pk now r = Inr (c, n, e)" "consume now' c n e g = (the g1, Inr ())"
    "g1 = Some (the g1)" "check_artifact C res c r = Inr a"
  using assms by (auto simp: verify_job_request_def split: sum.splits prod.splits)

lemma check_request_ok:
  assumes "check_request C w pk now r = Inr (c, n, e)"
  shows "c = text_field ''controller_id'' r" "n = text_field ''nonce'' r"
    "protocol_time (text_field ''expires_at'' r) = Inr e"
  using assms by (auto simp: check_request_def bad_message_def validate_identity_def split: if_splits)


text \<open>The remembered nonces of a worker that keeps verifying requests, its guard's clock never later than \<open>until\<close>\<close>

inductive guard_run :: "instant \<Rightarrow> replay_guard \<Rightarrow> replay_guard \<Rightarrow> bool" for until where
  guard_start: "guard_run until g g"
| guard_step: "guard_run until g g' \<Longrightarrow> valid_instant now' \<Longrightarrow> now' \<le> until
    \<Longrightarrow> guard_run until g (the (fst (verify_job_request C w pk resolver now now' r (Some g'))))"

lemma verify_guard:
  "fst (verify_job_request C w pk res now now' r (Some g)) = Some g
   \<or> (\<exists>c n e. fst (verify_job_request C w pk res now now' r (Some g)) = Some (fst (consume now' c n e g)))"
  by (simp add: verify_job_request_def split: sum.splits prod.splits) (metis fst_conv)

lemma guard_run_keeps:
  assumes "guard_run until g g'" "(c, n, iso until) \<in> set g" "valid_instant until"
  shows "(c, n, iso until) \<in> set g'"
  using assms
proof (induction rule: guard_run.induct)
  case (guard_step g g' now' C w pk resolver now r)
  then show ?case using verify_guard [of C w pk resolver now now' r g'] consume_keeps by force
qed


section \<open>Accepted requests\<close>

definition in_window :: "instant \<Rightarrow> json \<Rightarrow> bool" where
  "in_window now r \<longleftrightarrow> (\<exists>issued expires. protocol_time (text_field ''issued_at'' r) = Inr issued
     \<and> protocol_time (text_field ''expires_at'' r) = Inr expires \<and> issued < expires
     \<and> expires \<le> issued + 3600 * usec_per_sec \<and> issued \<le> now + max_skew \<and> now \<le> expires + max_skew)"

lemma check_request_facts:
  assumes "check_request C w pk now r = Inr x"
  shows "text_field ''worker_id'' r = w" "get_none ''action'' r = JStr ''test''" "authentic C pk r" "in_window now r"
    "24 \<le> length (text_field ''nonce'' r) \<and> length (text_field ''nonce'' r) \<le> 256"
  using assms by (auto simp: check_request_def validate_identity_def in_window_def
      intro: verify_signature_authentic split: if_splits)

lemma check_artifact_facts:
  assumes "check_artifact C res c r = Inr a"
  shows "cr_H C a = py_lower (text_field ''sha256'' (get_none ''artifact'' r))"
    "py_int (get_none ''size'' (get_none ''artifact'' r)) = Inr (int (length a))" "a \<noteq> []"
  using assms by (auto simp: check_artifact_def bad_message_def Let_def int_in_def split: if_splits sum.splits)

text \<open>C27: A worker accepts only a request that is addressed to it, signed over all its other fields with the
  controller's key and inside its validity window; the bytes it runs have the digest and the size of the signed request.\<close>

theorem accepted_request_authentic:
  assumes "snd (verify_job_request C w pk res now now' r guard) = Inr a"
  shows "text_field ''worker_id'' r = w \<and> authentic C pk r \<and> in_window now r
    \<and> cr_H C a = py_lower (text_field ''sha256'' (get_none ''artifact'' r))
    \<and> py_int (get_none ''size'' (get_none ''artifact'' r)) = Inr (int (length a))"
proof -
  from assms obtain c n e where "check_request C w pk now r = Inr (c, n, e)" "check_artifact C res c r = Inr a"
    by (auto simp: verify_job_request_def split: sum.splits prod.splits option.splits)
  from check_request_facts [OF this(1)] check_artifact_facts [OF this(2)]
  show ?thesis by simp
qed

text \<open>Whatever a worker verifies after it accepted a request, it refuses every later message with the same
  controller and nonce, as long as the guard's clock has not passed the expiry of the request.\<close>

lemma nonce_once:
  assumes "verify_job_request C w pk res now now' r (Some g) = (Some g1, Inr a)"
    and "protocol_time (text_field ''expires_at'' r) = Inr e" "valid_instant e"
    and "guard_run e g1 g2"
    and "text_field ''controller_id'' r2 = text_field ''controller_id'' r" "text_field ''nonce'' r2 = text_field ''nonce'' r"
    and "valid_instant t'" "t' \<le> e"
  shows "\<exists>x. verify_job_request C2 w2 pk2 res2 t t' r2 (Some g2) = (Some g2, Inl x)"
proof -
  from assms(1) obtain c n e' where k: "check_request C w pk now r = Inr (c, n, e')" "consume now' c n e' g = (g1, Inr ())"
    by (elim verify_accepted) auto
  note f = check_request_ok [OF k(1)]
  from f(3) assms(2) have "e' = e" by simp
  with consume_ok(1) [OF k(2)] have "(c, n, iso e) \<in> set g1" by simp
  then have in2: "(c, n, iso e) \<in> set g2" by (rule guard_run_keeps [OF assms(4) _ assms(3)])
  show ?thesis
  proof (cases "check_request C2 w2 pk2 t r2")
    case (Inr x)
    obtain c2 n2 e2 where x: "x = (c2, n2, e2)" by (cases x)
    note Inr [unfolded x]
    moreover from check_request_ok(1,2) [OF this] f(1,2) assms(5,6) have "c2 = c" "n2 = n" by simp_all
    ultimately show ?thesis using consume_seen [OF in2 assms(3,7,8), of e2]
      by (simp add: verify_job_request_def bad_message_def)
  qed (simp add: verify_job_request_def)
qed

text \<open>C28: The guard forgets a nonce at its expiry while requests are accepted for 120 seconds more: in that window
  an accepted request is accepted a second time.\<close>

theorem replay_after_expiry:
  assumes "verify_job_request C w pk res now now' r (Some g) = (Some g1, Inr a)"
    and "protocol_time (text_field ''expires_at'' r) = Inr e" "valid_instant e"
    and "now \<le> t" "t \<le> e + max_skew" "valid_instant t'" "e < t'"
  shows "\<exists>g2. verify_job_request C w pk res t t' r (Some g1) = (Some g2, Inr a)"
proof -
  from assms(1) obtain c n e' where k: "check_request C w pk now r = Inr (c, n, e')" "consume now' c n e' g = (g1, Inr ())"
    and a: "check_artifact C res c r = Inr a"
    by (elim verify_accepted) auto
  note f = check_request_ok [OF k(1)]
  from f(3) assms(2) have e: "e' = e" by simp
  have "check_request C w pk t r = Inr (c, n, e)"
    using k(1) assms(2,4,5) by (auto simp: check_request_def e)
  moreover have "\<not> has_nonce c n (live_nonces t' g1)"
    using consume_ok [OF k(2)] assms(3,6,7) by (auto simp: e has_nonce_def live_nonces_def)
  ultimately show ?thesis using a by (simp add: verify_job_request_def consume_def Let_def)
qed


section \<open>Created requests\<close>

lemma request_payload_fields:
  "jget ''schema'' (request_payload t j c w n ttl a ep opts) = Some (JInt 1)"
  "jget ''kind'' (request_payload t j c w n ttl a ep opts) = Some (JStr ''psmatrix.worker-job'')"
  "jget ''job_id'' (request_payload t j c w n ttl a ep opts) = Some (JStr j)"
  "jget ''controller_id'' (request_payload t j c w n ttl a ep opts) = Some (JStr c)"
  "jget ''worker_id'' (request_payload t j c w n ttl a ep opts) = Some (JStr w)"
  "jget ''issued_at'' (request_payload t j c w n ttl a ep opts) = Some (JStr (iso t))"
  "jget ''expires_at'' (request_payload t j c w n ttl a ep opts) = Some (JStr (iso (t + usec_per_sec * ttl)))"
  "jget ''nonce'' (request_payload t j c w n ttl a ep opts) = Some (JStr n)"
  "jget ''action'' (request_payload t j c w n ttl a ep opts) = Some (JStr ''test'')"
  "jget ''artifact'' (request_payload t j c w n ttl a ep opts) = Some a"
  "jget ''entrypoint'' (request_payload t j c w n ttl a ep opts) = Some (JStr ep)"
  "jget ''options'' (request_payload t j c w n ttl a ep opts) = Some opts"
  "jget ''signature'' (request_payload t j c w n ttl a ep opts) = None"
  "is_dict (request_payload t j c w n ttl a ep opts)"
  by (simp_all add: request_payload_def)

lemma validate_ok [simp]:
  "validate_identity l s = Inr x \<longleftrightarrow> id_match s \<and> x = s"
  "validate_job_id s = Inr x \<longleftrightarrow> uuid_text s \<and> x = s"
  by (auto simp: validate_identity_def validate_job_id_def)

lemma validate_entrypoint_same: "validate_entrypoint s = Inr x \<Longrightarrow> x = s"
  by (simp add: validate_entrypoint_def)

lemma validate_options_same: "validate_options v = Inr x \<Longrightarrow> x = v"
  by (simp add: validate_options_def)

lemma lower_hex_digest:
  assumes "hex_digest_text s"
  shows "py_lower s = s"
proof -
  have "\<forall>c \<in> set ''0123456789abcdef''. lower_char c = c" by (simp add: lower_char_def)
  with assms show ?thesis unfolding py_lower_def hex_digest_text_def list_all_iff by (intro map_idI) blast
qed

lemma inline_artifact_checked:
  assumes "inline_artifact C a = Inr v" "jget ''artifact'' r = Some v" "hex_digest_text (cr_H C a)"
  shows "check_artifact C res c r = Inr a"
proof -
  from assms(1) have a: "a \<noteq> []" "int (length a) \<le> 64 * 1024 * 1024"
    and v: "v = JObj [(''encoding'', JStr ''base64''), (''sha256'', JStr (cr_H C a)),
        (''size'', JInt (int (length a))), (''data'', JStr (b64encode a))]"
    by (auto simp: inline_artifact_def)
  have t: "text_field ''sha256'' v = cr_H C a" "text_field ''data'' v = b64encode a"
    unfolding v by (rule text_field_JStr; simp)+
  have g: "get_none ''encoding'' v = JStr ''base64''" "get_none ''size'' v = JInt (int (length a))" "is_dict v"
    unfolding v by (simp_all add: get_or_def)
  from a(1) have "1 \<le> int (length a)" by (cases a) simp_all
  with a(2) have n: "int_in (JInt (int (length a))) (64 * 1024 * 1024)" by (simp add: int_in_def)
  have art: "get_none ''artifact'' r = v" using assms(2) by (simp add: get_or_def)
  show ?thesis
    unfolding check_artifact_def Let_def art g t artifact_bytes_def
    using n assms(3) g(3) by (simp add: lower_hex_digest b64decode_encode)
qed

lemma created_request_checked:
  assumes "create_job_request C t c w (Some a) None ep opts sk pk ttl j n = Inr r" "key_pair C sk pk"
    and "24 \<le> length n" "length n \<le> 256" "valid_instant t" "valid_instant (t + usec_per_sec * ttl)"
    and "t \<le> now + max_skew" "now \<le> t + usec_per_sec * ttl + max_skew"
  shows "check_request C w pk now r = Inr (c, n, t + usec_per_sec * ttl)"
    and "\<exists>v. inline_artifact C a = Inr v \<and> jget ''artifact'' r = Some v"
    and "id_match w" "uuid_text j" "jget ''job_id'' r = Some (JStr j)" "text_field ''issued_at'' r = iso t"
      "text_field ''expires_at'' r = iso (t + usec_per_sec * ttl)"
proof -
  from assms(1) obtain v where v: "inline_artifact C a = Inr v" and ids: "id_match c" "id_match w" "uuid_text j"
      and ep: "validate_entrypoint ep = Inr ep" and opts: "validate_options opts = Inr opts"
      and ttl: "1 \<le> ttl" "ttl \<le> 3600" and r: "signed C (request_payload t j c w n ttl v ep opts) sk pk = Inr r"
    by (auto simp: create_job_request_def request_artifact_def dest: validate_entrypoint_same validate_options_same)
  have f: "k \<noteq> ''signature'' \<Longrightarrow> jget k r = jget k (request_payload t j c w n ttl v ep opts)" for k
    by (rule signed_fields [OF r])
  note fs = f [of "''schema''"] f [of "''kind''"] f [of "''worker_id''"] f [of "''job_id''"] f [of "''entrypoint''"]
    f [of "''options''"] f [of "''action''"] f [of "''issued_at''"] f [of "''expires_at''"] f [of "''nonce''"]
    f [of "''controller_id''"] f [of "''artifact''"]
  note g = fs [unfolded request_payload_fields, simplified]
  note t = g(3-5,8-11) [THEN text_field_JStr]
  have "verify_signature C r pk = Inr ()"
    by (rule verify_signed [OF assms(2) _ _ r]) (simp_all add: request_payload_fields)
  with ids ep opts ttl assms(3-8) show "check_request C w pk now r = Inr (c, n, t + usec_per_sec * ttl)"
    by (simp add: check_request_def t get_or_def g protocol_time_iso)
  show "\<exists>v. inline_artifact C a = Inr v \<and> jget ''artifact'' r = Some v" using v g by simp
  show "id_match w" "uuid_text j" "jget ''job_id'' r = Some (JStr j)" "text_field ''issued_at'' r = iso t"
    "text_field ''expires_at'' r = iso (t + usec_per_sec * ttl)" using ids g t by simp_all
qed

lemma request_roundtrip:
  assumes "create_job_request C t c w (Some a) None ep opts sk pk ttl j n = Inr r" "key_pair C sk pk"
    and "24 \<le> length n" "length n \<le> 256" "valid_instant t" "valid_instant (t + usec_per_sec * ttl)"
    and "t \<le> now + max_skew" "now \<le> t + usec_per_sec * ttl + max_skew"
    and "hex_digest_text (cr_H C a)" "\<not> has_nonce c n g"
  shows "verify_job_request C w pk res now now' r (Some g)
    = (Some (live_nonces now' g @ [(c, n, iso (t + usec_per_sec * ttl))]), Inr a)"
proof -
  note k = created_request_checked [OF assms(1-8)]
  from k(2) have "check_artifact C res c r = Inr a" using inline_artifact_checked [OF _ _ assms(9)] by blast
  then show ?thesis by (simp add: verify_job_request_def k(1) consume_fresh [OF assms(10)])
qed


section \<open>Results\<close>

definition result_in_window :: "json \<Rightarrow> json \<Rightarrow> bool" where
  "result_in_window request result \<longleftrightarrow> (\<exists>created issued expires.
     protocol_time (text_field ''created_at'' result) = Inr created
     \<and> protocol_time (text_field ''issued_at'' request) = Inr issued
     \<and> protocol_time (text_field ''expires_at'' request) = Inr expires
     \<and> issued - max_skew \<le> created \<and> created \<le> expires + max_skew)"

text \<open>C29: A controller accepts only a result signed by its worker, bound to the digest, job and nonce of the request,
  created in the validity window, with the status of its report and a passed reset cycle where one is required.\<close>

theorem accepted_result_bound:
  assumes "verify_job_result C request w pk result = Inr v"
  shows "get_none ''worker_id'' result = JStr w \<and> authentic C pk result
    \<and> get_none ''request_sha256'' result = JStr (request_sha256 C request)
    \<and> py_eq (get_none ''job_id'' result) (get_none ''job_id'' request)
    \<and> py_eq (get_none ''request_nonce'' result) (get_none ''nonce'' request)
    \<and> py_eq (get_none ''status'' result) (get_none ''status'' (get_none ''report'' result))
    \<and> result_in_window request result \<and> reset_cycle_ok (get_none ''reset'' result)
    \<and> get_none ''report'' v = get_none ''report'' result"
  using assms by (auto simp: verify_job_result_def Let_def result_in_window_def get_or_JObj
      intro: verify_signature_authentic)

lemma result_payload_fields:
  "jget ''schema'' (result_payload C t q w caps rep rst) = Some (JInt 1)"
  "jget ''kind'' (result_payload C t q w caps rep rst) = Some (JStr ''psmatrix.worker-result'')"
  "jget ''job_id'' (result_payload C t q w caps rep rst) = Some (get_none ''job_id'' q)"
  "jget ''worker_id'' (result_payload C t q w caps rep rst) = Some (JStr w)"
  "jget ''controller_id'' (result_payload C t q w caps rep rst) = Some (get_none ''controller_id'' q)"
  "jget ''request_sha256'' (result_payload C t q w caps rep rst) = Some (JStr (request_sha256 C q))"
  "jget ''request_nonce'' (result_payload C t q w caps rep rst) = Some (get_none ''nonce'' q)"
  "jget ''created_at'' (result_payload C t q w caps rep rst) = Some (JStr (iso t))"
  "jget ''status'' (result_payload C t q w caps rep rst) = Some (get_none ''status'' rep)"
  "jget ''capabilities'' (result_payload C t q w caps rep rst) = Some caps"
  "jget ''reset'' (result_payload C t q w caps rep rst) = Some rst"
  "jget ''report'' (result_payload C t q w caps rep rst) = Some rep"
  "jget ''signature'' (result_payload C t q w caps rep rst) = None"
  "is_dict (result_payload C t q w caps rep rst)"
  by (simp_all add: result_payload_def)


lemma created_result_verified:
  assumes "create_job_result C t' r w caps rep rst wsk wpk = Inr x" "key_pair C wsk wpk"
    and "id_match w" "uuid_text j" "jget ''job_id'' r = Some (JStr j)" "text_field ''issued_at'' r = iso t"
    and "text_field ''expires_at'' r = iso e" "valid_instant t" "valid_instant e" "valid_instant t'"
    and "t \<le> t' + max_skew" "t' \<le> e + max_skew" "reset_cycle_ok rst" "get_none ''worker_id'' rep \<in> {JNull, JStr w}"
  shows "verify_job_result C r w wpk x = Inr (JObj [(''valid'', JBool True), (''result'', x), (''report'', rep),
    (''capabilities'', caps), (''reset'', rst)])"
proof -
  from assms(1) have d: "is_dict caps" "is_dict rep" "is_dict rst"
      and x: "signed C (result_payload C t' r w caps rep rst) wsk wpk = Inr x"
    by (auto simp: create_job_result_def)
  have f: "k \<noteq> ''signature'' \<Longrightarrow> jget k x = jget k (result_payload C t' r w caps rep rst)" for k
    by (rule signed_fields [OF x])
  note g = f [of "''schema''", unfolded result_payload_fields, simplified] f [of "''kind''", unfolded result_payload_fields, simplified]
    f [of "''job_id''", unfolded result_payload_fields, simplified] f [of "''worker_id''", unfolded result_payload_fields, simplified]
    f [of "''controller_id''", unfolded result_payload_fields, simplified]
    f [of "''request_sha256''", unfolded result_payload_fields, simplified]
    f [of "''request_nonce''", unfolded result_payload_fields, simplified]
    f [of "''created_at''", unfolded result_payload_fields, simplified]
    f [of "''status''", unfolded result_payload_fields, simplified]
    f [of "''capabilities''", unfolded result_payload_fields, simplified]
    f [of "''reset''", unfolded result_payload_fields, simplified] f [of "''report''", unfolded result_payload_fields, simplified]
  have n: "get_none k x = v" if "jget k x = Some v" for k v using that by (simp add: get_or_def)
  note gn = g [THEN n]
  have j: "get_none ''job_id'' r = JStr j" using assms(5) by (simp add: get_or_def)
  have tj: "text_field ''job_id'' x = j" using g(3) unfolding j by (rule text_field_JStr)
  have tc: "text_field ''created_at'' x = iso t'" using g(8) by (rule text_field_JStr)
  have s: "verify_signature C x wpk = Inr ()"
    by (rule verify_signed [OF assms(2) _ _ x]) (simp_all add: result_payload_fields)
  have o: "claims_other_worker w (get_none ''worker_id'' rep) = Inr False"
    using assms(14) by (auto simp: claims_other_worker_def)
  have e1: "eq_int (JInt 1) 1" by (simp add: eq_int_def)
  show ?thesis
    unfolding verify_job_result_def Let_def gn tj tc assms(6,7) protocol_time_iso [OF assms(8)]
      protocol_time_iso [OF assms(9)] protocol_time_iso [OF assms(10)]
    using assms(3,4,11-13) d s o e1 j by simp
qed

text \<open>C26: A request a controller creates for an inline artifact is accepted by its worker while it is valid and
  yields the artifact; the result the worker then creates is accepted by the controller with its report.\<close>

theorem exchange_roundtrip:
  assumes "create_job_request C t c w (Some a) None ep opts sk pk ttl j n = Inr r" "key_pair C sk pk"
    and "24 \<le> length n" "length n \<le> 256" "valid_instant t" "valid_instant (t + usec_per_sec * ttl)"
    and "t \<le> now + max_skew" "now \<le> t + usec_per_sec * ttl + max_skew"
    and "hex_digest_text (cr_H C a)" "\<not> has_nonce c n g"
    and "create_job_result C t' r w caps rep rst wsk wpk = Inr x" "key_pair C wsk wpk"
    and "valid_instant t'" "t \<le> t' + max_skew" "t' \<le> t + usec_per_sec * ttl + max_skew"
    and "reset_cycle_ok rst" "get_none ''worker_id'' rep \<in> {JNull, JStr w}"
  shows "verify_job_request C w pk res now now' r (Some g)
      = (Some (live_nonces now' g @ [(c, n, iso (t + usec_per_sec * ttl))]), Inr a)
    \<and> verify_job_result C r w wpk x = Inr (JObj [(''valid'', JBool True), (''result'', x), (''report'', rep),
      (''capabilities'', caps), (''reset'', rst)])"
  using request_roundtrip [OF assms(1-10)] created_result_verified [OF assms(11,12)
    created_request_checked(3-7) [OF assms(1-8)] assms(5,6,13-17)] by simp


section \<open>An exchange\<close>

text \<open>Messages that are their own signature, a request and the result of its worker\<close>

definition demo_crypto :: crypto where
  "demo_crypto = \<lparr>cr_H = (\<lambda>m. replicate 64 CHR ''a''), cr_sign = (\<lambda>k m. Inr m), cr_verify = (\<lambda>k m s. Inr (s = m)),
     cr_key_id = Inr\<rparr>"

definition demo_start :: instant where
  "demo_start = 1000 * usec_per_sec"

definition demo_nonce :: string where
  "demo_nonce = replicate 32 CHR ''n''"

definition demo_job :: string where
  "demo_job = ''00000000-0000-4000-8000-000000000001''"

definition demo_request_res :: "json res" where
  "demo_request_res = create_job_request demo_crypto demo_start ''ctl'' ''w1'' (Some ''zip'') None ''main.ps1'' (JObj [])
     ''sk'' ''pk'' 300 demo_job demo_nonce"

definition demo_request :: json where
  "demo_request = (case demo_request_res of Inr r \<Rightarrow> r | Inl e \<Rightarrow> JNull)"

definition demo_report :: json where
  "demo_report = JObj [(''status'', JStr ''passed'')]"

definition demo_reset :: json where
  "demo_reset = JObj [(''required'', JBool False)]"

definition demo_result_res :: "json res" where
  "demo_result_res = create_job_result demo_crypto (demo_start + usec_per_sec) demo_request ''w1'' (JObj []) demo_report
     demo_reset ''wsk'' ''wpk''"

definition demo_result :: json where
  "demo_result = (case demo_result_res of Inr r \<Rightarrow> r | Inl e \<Rightarrow> JNull)"

lemma demo_key_pair: "key_pair demo_crypto sk pk"
  by (simp add: key_pair_def demo_crypto_def)

lemma demo_ids: "id_match ''w1''" "id_match ''ctl''"
  by code_simp+

lemma demo_uuid: "uuid_text demo_job"
  by code_simp

lemma demo_digest: "hex_digest_text (cr_H demo_crypto m)"
  by (simp add: demo_crypto_def hex_digest_text_def list_all_iff)

lemma demo_signed: "signed demo_crypto p sk pk \<noteq> Inl e"
  by (simp add: signed_def signature_envelope_def demo_crypto_def)

lemma demo_created: "create_job_request demo_crypto demo_start ''ctl'' ''w1'' (Some ''zip'') None ''main.ps1'' (JObj [])
     ''sk'' ''pk'' 300 demo_job demo_nonce = Inr demo_request"
proof -
  have e: "validate_entrypoint ''main.ps1'' = Inr ''main.ps1''" by code_simp
  have o: "validate_options (JObj []) = Inr (JObj [])" by code_simp
  obtain r where r: "demo_request_res = Inr r"
    using demo_ids demo_uuid demo_signed e o
    by (simp add: demo_request_res_def create_job_request_def request_artifact_def inline_artifact_def
        validate_identity_def validate_job_id_def) (metis sum.exhaust)
  show ?thesis unfolding demo_request_def demo_request_res_def [symmetric] r by (simp only: sum.case)
qed

lemma demo_finished: "create_job_result demo_crypto (demo_start + usec_per_sec) demo_request ''w1'' (JObj []) demo_report
     demo_reset ''wsk'' ''wpk'' = Inr demo_result"
proof -
  obtain r where r: "demo_result_res = Inr r"
    using demo_ids demo_signed
    by (simp add: demo_result_res_def create_job_result_def validate_identity_def demo_report_def demo_reset_def)
      (metis sum.exhaust)
  show ?thesis unfolding demo_result_def demo_result_res_def [symmetric] r by (simp only: sum.case)
qed


lemma demo_times: "valid_instant demo_start" "valid_instant (demo_start + usec_per_sec * 300)"
    "valid_instant (demo_start + usec_per_sec)" "valid_instant (demo_start + 301 * usec_per_sec)"
    "demo_start \<le> demo_start + usec_per_sec + max_skew" "demo_start + usec_per_sec \<le> demo_start + usec_per_sec * 300 + max_skew"
  by (simp_all add: demo_start_def valid_instant_def max_skew_def)

lemma demo_lengths: "24 \<le> length demo_nonce" "length demo_nonce \<le> 256"
  by (simp_all add: demo_nonce_def)

lemma demo_reports: "reset_cycle_ok demo_reset" "get_none ''worker_id'' demo_report \<in> {JNull, JStr ''w1''}"
  by (simp_all add: reset_cycle_ok_def demo_reset_def demo_report_def get_or_JObj)

abbreviation demo_guard :: replay_guard where
  "demo_guard \<equiv> [(''ctl'', demo_nonce, iso (demo_start + usec_per_sec * 300))]"

lemma demo_accepted: "verify_job_request demo_crypto ''w1'' ''pk'' None demo_start demo_start demo_request (Some [])
    = (Some demo_guard, Inr ''zip'')"
  by (subst request_roundtrip [OF demo_created demo_key_pair demo_lengths demo_times(1,2)])
    (simp_all add: demo_digest has_nonce_def live_nonces_def max_skew_def)

lemma demo_expiry: "protocol_time (text_field ''expires_at'' demo_request) = Inr (demo_start + usec_per_sec * 300)"
  unfolding created_request_checked(7) [OF demo_created demo_key_pair demo_lengths demo_times(1,2,5,6)]
  by (rule protocol_time_iso [OF demo_times(2)])

lemma demo_verified: "verify_job_result demo_crypto demo_request ''w1'' ''wpk'' demo_result
    = Inr (JObj [(''valid'', JBool True), (''result'', demo_result), (''report'', demo_report), (''capabilities'', JObj []),
      (''reset'', demo_reset)])"
proof -
  have k: "demo_start \<le> demo_start + max_skew" "demo_start \<le> demo_start + usec_per_sec * 300 + max_skew"
    by (simp_all add: max_skew_def)
  show ?thesis
    by (rule created_result_verified [OF demo_finished demo_key_pair created_request_checked(3-7) [OF demo_created
          demo_key_pair demo_lengths demo_times(1,2) k] demo_times(1,2,3,5,6) demo_reports])
qed

theorem exchange_roundtrip_witness:
  "verify_job_request demo_crypto ''w1'' ''pk'' None demo_start demo_start demo_request (Some [])
     = (Some demo_guard, Inr ''zip'')
   \<and> verify_job_result demo_crypto demo_request ''w1'' ''wpk'' demo_result
     = Inr (JObj [(''valid'', JBool True), (''result'', demo_result), (''report'', demo_report), (''capabilities'', JObj []),
      (''reset'', demo_reset)])"
proof -
  have k: "demo_start \<le> demo_start + max_skew" "demo_start \<le> demo_start + usec_per_sec * 300 + max_skew"
    "\<not> has_nonce ''ctl'' demo_nonce []" by (simp_all add: max_skew_def has_nonce_def)
  show ?thesis
    using exchange_roundtrip [OF demo_created demo_key_pair demo_lengths demo_times(1,2) k(1,2) demo_digest k(3)
        demo_finished demo_key_pair demo_times(3,5,6) demo_reports, of None demo_start]
    by (simp add: live_nonces_def)
qed

theorem accepted_request_authentic_witness:
  "authentic demo_crypto ''pk'' demo_request \<and> in_window demo_start demo_request
   \<and> py_lower (text_field ''sha256'' (get_none ''artifact'' demo_request)) = cr_H demo_crypto ''zip''"
proof -
  have a: "snd (verify_job_request demo_crypto ''w1'' ''pk'' None demo_start demo_start demo_request (Some [])) = Inr ''zip''"
    by (simp add: demo_accepted)
  show ?thesis using accepted_request_authentic [OF a] by simp
qed

lemma nonce_once_witness:
  "\<exists>x. verify_job_request demo_crypto ''w1'' ''pk'' None (demo_start + usec_per_sec) (demo_start + usec_per_sec) demo_request
     (Some demo_guard) = (Some demo_guard, Inl x)"
  by (rule nonce_once [OF demo_accepted demo_expiry demo_times(2) guard_start refl refl demo_times(3)]) simp

theorem replay_after_expiry_witness:
  "\<exists>g2. verify_job_request demo_crypto ''w1'' ''pk'' None (demo_start + 301 * usec_per_sec) (demo_start + 301 * usec_per_sec)
     demo_request (Some demo_guard) = (Some g2, Inr ''zip'')"
  by (rule replay_after_expiry [OF demo_accepted demo_expiry demo_times(2) _ _ demo_times(4)]) (simp_all add: max_skew_def)

theorem accepted_result_bound_witness:
  "authentic demo_crypto ''wpk'' demo_result \<and> result_in_window demo_request demo_result
   \<and> get_none ''request_sha256'' demo_result = JStr (request_sha256 demo_crypto demo_request)"
  using accepted_result_bound [OF demo_verified] by simp

end
