(* ===== verification/Psm_Repair.thy ===== *)
theory Psm_Repair
  imports Psm_Diagnostics Psm_ModelsRead Psm_Trees Psm_Canon
begin

text \<open>
  The repair engine (\<open>repair.py\<close>): a plan binds the diagnostics of a report to the hashes of the
  sources, a patch bundle is a list of checked text edits, and applying a bundle is a transaction on the
  project's files with backups, validated by a test run and rolled back when the run is not
  accepted. The project is a tree of files with their permission bits. The folder of a transaction is
  new for each one and outside the project tree; it holds the backups and \<open>transaction.json\<close>. A write that
  fails is an answer of the parameter \<open>fault\<close>; the unified diff, kept for display, is a parameter.
\<close>

section \<open>Files of the project\<close>

record project =
  pj_tree :: node
  pj_mode :: "string list \<Rightarrow> int"

text \<open>\<open>atomic_write_bytes\<close>: the file that replaces the old one was made by \<open>mkstemp\<close>, with mode 0600.\<close>

definition temp_mode :: int where
  "temp_mode = 384"

definition write_bytes :: "string list \<Rightarrow> string \<Rightarrow> project \<Rightarrow> project" where
  "write_bytes path bytes pj = pj\<lparr>pj_tree := set_file (pj_tree pj) path bytes, pj_mode := (pj_mode pj)(path := temp_mode)\<rparr>"

definition set_mode :: "string list \<Rightarrow> int \<Rightarrow> project \<Rightarrow> project" where
  "set_mode path mode pj = pj\<lparr>pj_mode := (pj_mode pj)(path := mode)\<rparr>"

definition repair_error :: "string \<Rightarrow> 'a res" where
  "repair_error m = throw RepairError m"

lemma repair_error_neq [simp]: "repair_error m \<noteq> Inr x" "Inr x \<noteq> repair_error m"
  by (simp_all add: repair_error_def)

lemma if_repair_error_eq_Inr [simp]: "(if b then repair_error m else r) = Inr x \<longleftrightarrow> \<not> b \<and> r = Inr x"
  by simp

text \<open>\<open>resolve_project_file\<close> with its default \<open>must_exist\<close>; the cursor runs over the parts below the root.\<close>

definition resolve_project_file :: "node \<Rightarrow> string list \<Rightarrow> string \<Rightarrow> string list res" where
  "resolve_project_file fs root value =
     res_bind (resolve fs root) (\<lambda>root.
     res_bind (resolve_strict fs (path_join root value)) (\<lambda>resolved.
     if \<not> is_within root resolved then repair_error (''Path escapes repair root: '' @ value)
     else if list_ex (\<lambda>i. is_symlink fs (take i resolved)) [length root + 1..<length resolved + 1]
     then repair_error (''Symlink paths are not allowed in repair transactions: '' @ value)
     else if \<not> is_file fs resolved
     then repair_error (''Repair source is not a regular file: '' @ path_text resolved)
     else Inr resolved))"

section \<open>Edits\<close>

text \<open>\<open>text.find(old)\<close> and \<open>text.count(old)\<close>; occurrences do not overlap.\<close>

fun find_sub :: "string \<Rightarrow> string \<Rightarrow> nat option" where
  "find_sub old [] = (if old = [] then Some 0 else None)"
| "find_sub old (c # s) = (if starts_with old (c # s) then Some 0 else map_option Suc (find_sub old s))"

function count_sub :: "string \<Rightarrow> string \<Rightarrow> nat" where
  "count_sub old s =
     (if old = [] then length s + 1
      else case find_sub old s of None \<Rightarrow> 0 | Some i \<Rightarrow> 1 + count_sub old (drop (i + length old) s))"
  by pat_completeness auto
termination
proof (relation "measure (\<lambda>(old, s). length s)")
  fix old s i
  assume "old \<noteq> []" "find_sub old s = Some i"
  moreover have "s \<noteq> []" using calculation by auto
  ultimately show "((old, drop (i + length old) s), old, s) \<in> measure (\<lambda>(old, s). length s)" by simp
qed simp

declare count_sub.simps [simp del]

text \<open>The loop that looks for the occurrence: the start of the last match and where to go on\<close>

fun seek :: "string \<Rightarrow> string \<Rightarrow> nat \<Rightarrow> nat \<Rightarrow> nat option" where
  "seek old s 0 from = None"
| "seek old s (Suc k) from =
     (case find_sub old (drop from s) of
        None \<Rightarrow> None
      | Some i \<Rightarrow> if k = 0 then Some (from + i) else seek old s k (from + i + length old))"

definition replace_occurrence :: "string \<Rightarrow> string \<Rightarrow> string \<Rightarrow> int option \<Rightarrow> (string \<times> int) res" where
  "replace_occurrence s old new occurrence =
     (let n = int (count_sub old s); k = (case occurrence of None \<Rightarrow> 1 | Some k \<Rightarrow> k) in
      if old = [] then repair_error ''Patch edit 'old' value cannot be empty''
      else if n = 0 then repair_error ''Expected patch text was not found''
      else if occurrence = None \<and> n \<noteq> 1
      then repair_error (''Patch text is ambiguous: found '' @ int_str n @ '' occurrences'')
      else if k < 1 \<or> n < k
      then repair_error (''Patch occurrence '' @ int_str k @ '' is outside 1..'' @ int_str n)
      else case seek old s (nat k) 0 of
          None \<Rightarrow> repair_error ''Expected patch text was not found''
        | Some i \<Rightarrow> Inr (take i s @ new @ drop (i + length old) s, k))"

text \<open>\<open>hmac.compare_digest\<close> of two \<open>str\<close>, which must be ASCII\<close>

definition compare_digest :: "string \<Rightarrow> string \<Rightarrow> bool res" where
  "compare_digest a b =
     (if list_all (\<lambda>c. (of_char c :: nat) < 128) (a @ b) then Inr (a = b)
      else throw TypeError ''comparing strings with non-ASCII characters is not supported'')"

section \<open>Replaying an action\<close>

record prepared_file =
  pf_source :: "string list"
  pf_before :: string
  pf_after :: string
  pf_mode :: int

definition replay_edit :: "json \<Rightarrow> string \<Rightarrow> string res" where
  "replay_edit edit updated =
     res_bind (dget_none ''old'' edit) (\<lambda>_.
     res_bind (py_int (py_or (get_none ''occurrence'' edit) (JInt 1))) (\<lambda>occurrence.
     res_bind (replace_occurrence updated (text_field ''old'' edit) (text_field ''new'' edit) (Some occurrence)) (\<lambda>r.
       Inr (fst r))))"

fun replay_edits :: "json list \<Rightarrow> string \<Rightarrow> string res" where
  "replay_edits [] updated = Inr updated"
| "replay_edits (edit # edits) updated = res_bind (replay_edit edit updated) (replay_edits edits)"

definition replay_action :: "(string \<Rightarrow> string) \<Rightarrow> string list \<Rightarrow> project \<Rightarrow> json \<Rightarrow> prepared_file res" where
  "replay_action H root pj action =
     (let path_value = py_str (get_none ''path'' action); edits = get_none ''edits'' action in
      res_bind (resolve_project_file (pj_tree pj) root (text_field ''path'' action)) (\<lambda>source.
      res_bind (read_bytes (pj_tree pj) source) (\<lambda>before.
      res_bind (compare_digest (H before) (text_field ''before_sha256'' action)) (\<lambda>same.
      if \<not> same then repair_error (''Source hash mismatch before patch: '' @ path_value)
      else case utf8_decode before of
          None \<Rightarrow> repair_error (''Only UTF-8 source repair is supported: '' @ path_value)
        | Some text \<Rightarrow>
            if \<not> is_list edits \<or> \<not> py_true edits then repair_error ''Patch action has no edits''
            else
              res_bind (replay_edits (list_items edits) text) (\<lambda>updated.
              res_bind (compare_digest (H (utf8 updated)) (text_field ''after_sha256'' action)) (\<lambda>same.
              if \<not> same then repair_error (''Patch replay hash mismatch: '' @ path_value)
              else Inr \<lparr>pf_source = source, pf_before = before, pf_after = utf8 updated,
                pf_mode = pj_mode pj source\<rparr>))))))"


section \<open>Proposing a patch\<close>

definition max_patch_files :: nat where
  "max_patch_files = 32"

definition max_edit_bytes :: int where
  "max_edit_bytes = 2 * 1024 * 1024"

definition plan_value :: "json option \<Rightarrow> json" where
  "plan_value plan = (case plan of None \<Rightarrow> JObj [] | Some p \<Rightarrow> py_or p (JObj []))"

text \<open>\<open>plan_sources\<close>: the last source of a path counts\<close>

definition plan_sources :: "json option \<Rightarrow> (string \<Rightarrow> json option) res" where
  "plan_sources plan =
     res_bind (py_iter (get_or ''sources'' (JArr []) (plan_value plan))) (\<lambda>items.
       Inr (map_of (rev (map (\<lambda>item. (py_str (get_none ''path'' item), item)) (filter is_dict items)))))"

text \<open>A set of texts, in the order it is later sorted in: \<open>{str(value) for value in values if str(value)}\<close>\<close>

definition text_set :: "json \<Rightarrow> string list res" where
  "text_set values = res_bind (py_iter values) (\<lambda>vs. Inr (sort (remdups (filter (\<lambda>s. s \<noteq> []) (map py_str vs)))))"

definition edit_codes :: "json option \<Rightarrow> (string \<Rightarrow> json option) \<Rightarrow> string \<Rightarrow> json \<Rightarrow> string list res" where
  "edit_codes plan sources relative edit =
     res_bind (text_set (get_or ''diagnostic_codes'' (JArr []) edit)) (\<lambda>supplied.
     case plan of
       None \<Rightarrow> Inr supplied
     | Some p \<Rightarrow>
         res_bind (text_set (case sources relative of None \<Rightarrow> JArr []
             | Some item \<Rightarrow> get_or ''diagnostic_codes'' (JArr []) item)) (\<lambda>allowed.
         let unknown = filter (\<lambda>c. c \<notin> set allowed) supplied in
         if unknown \<noteq> [] then repair_error (''Patch edit for '' @ relative
             @ '' references diagnostics outside the repair plan: '' @ join '', '' unknown)
         else Inr (if supplied = [] then allowed else supplied)))"

text \<open>One edit: the record of it, the bytes edited so far and the text it leaves\<close>

definition propose_edit ::
    "json option \<Rightarrow> (string \<Rightarrow> json option) \<Rightarrow> string \<Rightarrow> json \<Rightarrow> int \<Rightarrow> string \<Rightarrow> (json \<times> int \<times> string) res" where
  "propose_edit plan sources relative edit bytes updated =
     (let old = get_none ''old'' edit; new = get_none ''new'' edit; given = get_none ''occurrence'' edit in
      if \<not> is_dict edit then repair_error (''Patch edits for '' @ relative @ '' must be objects'')
      else if \<not> is_str old \<or> \<not> is_str new then repair_error ''Patch edit old/new values must be strings''
      else let bytes' = bytes + int (length (utf8 (py_str old))) + int (length (utf8 (py_str new))) in
      if max_edit_bytes < bytes' then repair_error ''Patch proposal exceeds maximum edit bytes''
      else
        res_bind (if given = JNull then Inr None else res_bind (py_int given) (\<lambda>k. Inr (Some k))) (\<lambda>occurrence.
        res_bind (replace_occurrence updated (py_str old) (py_str new) occurrence) (\<lambda>(updated', k).
        res_bind (edit_codes plan sources relative edit) (\<lambda>codes.
          Inr (JObj [(''old'', old), (''new'', new), (''occurrence'', JInt k),
             (''diagnostic_codes'', JArr (map JStr codes)), (''reason'', JStr (text_field ''reason'' edit))],
           bytes', updated')))))"

fun propose_edits ::
    "json option \<Rightarrow> (string \<Rightarrow> json option) \<Rightarrow> string \<Rightarrow> json list \<Rightarrow> int \<Rightarrow> string \<Rightarrow> (json list \<times> int \<times> string) res" where
  "propose_edits plan sources relative [] bytes updated = Inr ([], bytes, updated)"
| "propose_edits plan sources relative (edit # edits) bytes updated =
     res_bind (propose_edit plan sources relative edit bytes updated) (\<lambda>(row, bytes', updated').
     res_bind (propose_edits plan sources relative edits bytes' updated') (\<lambda>(rows, rest). Inr (row # rows, rest)))"

type_synonym unified_diff = "string \<Rightarrow> string \<Rightarrow> string \<Rightarrow> string"

definition proposed_action ::
    "(string \<Rightarrow> string) \<Rightarrow> unified_diff \<Rightarrow> project \<Rightarrow> string list \<Rightarrow> string \<Rightarrow> string \<Rightarrow> string \<Rightarrow> json list \<Rightarrow> string \<Rightarrow> json" where
  "proposed_action H diff pj source relative before text rows updated = JObj
     [(''path'', JStr relative), (''before_sha256'', JStr (H before)), (''after_sha256'', JStr (H (utf8 updated))),
      (''mode'', JInt (pj_mode pj source)), (''edits'', JArr rows), (''unified_diff'', JStr (diff relative text updated))]"

text \<open>The source must still have the hash the proposal or the plan names for it.\<close>

definition expected_hash :: "(string \<Rightarrow> json option) \<Rightarrow> string \<Rightarrow> json \<Rightarrow> json" where
  "expected_hash sources relative raw =
     (let given = get_none ''before_sha256'' raw in
      case sources relative of Some item \<Rightarrow> if given = JNull then get_none ''sha256'' item else given | None \<Rightarrow> given)"

definition propose_file ::
    "(string \<Rightarrow> string) \<Rightarrow> unified_diff \<Rightarrow> string list \<Rightarrow> project \<Rightarrow> json option \<Rightarrow> (string \<Rightarrow> json option) \<Rightarrow> json \<Rightarrow> int
      \<Rightarrow> (json \<times> int) res" where
  "propose_file H diff root pj plan sources raw bytes =
     (if \<not> is_dict raw then repair_error ''Patch file entries must be objects''
      else
        res_bind (resolve_project_file (pj_tree pj) root (text_field ''path'' raw)) (\<lambda>source.
        let relative = posix (relative_to root source); edits = get_none ''edits'' raw;
            expected = expected_hash sources relative raw in
        res_bind (read_bytes (pj_tree pj) source) (\<lambda>before.
        case utf8_decode before of
          None \<Rightarrow> repair_error (''Only UTF-8 source repair is supported: '' @ relative)
        | Some text \<Rightarrow>
            res_bind (if expected = JNull then Inr True else compare_digest (py_lower (py_str expected)) (H before)) (\<lambda>same.
            if \<not> same then repair_error (''Source changed since diagnosis: '' @ relative)
            else if \<not> is_list edits \<or> \<not> py_true edits
            then repair_error (''Patch file '' @ relative @ '' requires non-empty edits'')
            else
              res_bind (propose_edits plan sources relative (list_items edits) bytes text) (\<lambda>(rows, bytes', updated).
              if updated = text then repair_error (''Patch proposal does not change '' @ relative)
              else Inr (proposed_action H diff pj source relative before text rows updated, bytes'))))))"

fun propose_files ::
    "(string \<Rightarrow> string) \<Rightarrow> unified_diff \<Rightarrow> string list \<Rightarrow> project \<Rightarrow> json option \<Rightarrow> (string \<Rightarrow> json option) \<Rightarrow> json list \<Rightarrow> int
      \<Rightarrow> (json list \<times> int) res" where
  "propose_files H diff root pj plan sources [] bytes = Inr ([], bytes)"
| "propose_files H diff root pj plan sources (raw # files) bytes =
     res_bind (propose_file H diff root pj plan sources raw bytes) (\<lambda>(action, bytes').
     res_bind (propose_files H diff root pj plan sources files bytes') (\<lambda>(actions, rest). Inr (action # actions, rest)))"

definition bundle_material :: "json option \<Rightarrow> json list \<Rightarrow> (string \<times> json) list" where
  "bundle_material plan actions =
     [(''schema'', JInt 1), (''plan_id'', get_none ''plan_id'' (plan_value plan)),
      (''report_sha256'', get_none ''report_sha256'' (plan_value plan)),
      (''validation_argv_sha256'', get_none ''validation_argv_sha256'' (plan_value plan)),
      (''baseline_targets'', get_or ''baseline_targets'' (JArr []) (plan_value plan)), (''actions'', JArr actions)]"

definition edited_codes :: "json list \<Rightarrow> string list" where
  "edited_codes actions = sort (remdups (map py_str (concat (map (\<lambda>edit. list_items (get_none ''diagnostic_codes'' edit))
     (concat (map (\<lambda>action. list_items (get_none ''edits'' action)) actions))))))"

definition patch_bundle :: "(string \<Rightarrow> string) \<Rightarrow> string \<Rightarrow> json option \<Rightarrow> json list \<Rightarrow> int \<Rightarrow> json" where
  "patch_bundle H now plan actions bytes =
     JObj ([(''schema'', JInt 1), (''kind'', JStr ''psmatrix.patch-bundle''),
        (''bundle_id'', JStr (''rpb_'' @ take 24 (H (canonical_json_bytes (JObj (bundle_material plan actions)))))),
        (''created_at'', JStr now)] @ tl (bundle_material plan actions)
      @ [(''summary'', JObj [(''files'', JInt (int (length actions))), (''edit_bytes'', JInt bytes),
        (''diagnostic_codes'', JArr (map JStr (edited_codes actions)))])])"

definition propose_patch ::
    "(string \<Rightarrow> string) \<Rightarrow> unified_diff \<Rightarrow> string \<Rightarrow> string list \<Rightarrow> project \<Rightarrow> json \<Rightarrow> json option \<Rightarrow> json res" where
  "propose_patch H diff now root pj proposal plan =
     (let files = get_none ''files'' proposal in
      res_bind (resolve (pj_tree pj) root) (\<lambda>root.
      if \<not> is_list files \<or> \<not> py_true files then repair_error ''Patch proposal requires a non-empty files array''
      else if max_patch_files < length (list_items files)
      then repair_error (''Patch proposal exceeds '' @ nat_str max_patch_files @ '' files'')
      else
        res_bind (plan_sources plan) (\<lambda>sources.
        res_bind (propose_files H diff root pj plan sources (list_items files) 0) (\<lambda>(actions, bytes).
          Inr (patch_bundle H now plan actions bytes)))))"

section \<open>Applying a bundle\<close>

record applied_file =
  ap_path :: string
  ap_before_sha256 :: string
  ap_after_sha256 :: string
  ap_diff :: string

record transaction =
  tn_id :: string
  tn_backups :: "(string \<times> string) list"
  tn_payload :: json

text \<open>The writes of a transaction that may fail, by the number of the file\<close>

datatype write_step = Backup nat | BackupMode nat | Write nat | WriteMode nat | Record | Restore nat | RestoreMode nat

type_synonym faults = "write_step \<Rightarrow> exn option"

text \<open>The loop that prepares the actions; what was prepared before an exception is kept for the undoing.\<close>

fun prepare ::
    "(string \<Rightarrow> string) \<Rightarrow> faults \<Rightarrow> string list \<Rightarrow> project \<Rightarrow> json list \<Rightarrow> nat \<Rightarrow> string list
      \<Rightarrow> prepared_file list \<times> unit res" where
  "prepare H fault root pj [] i seen = ([], Inr ())"
| "prepare H fault root pj (action # actions) i seen =
     (if \<not> is_dict action then ([], repair_error ''Patch actions must be objects'')
      else case replay_action H root pj action of
          Inl e \<Rightarrow> ([], Inl e)
        | Inr pf \<Rightarrow>
            let relative = posix (relative_to root (pf_source pf)); key = casefold relative in
            if key \<in> set seen then ([], repair_error (''Duplicate patch action for source: '' @ relative))
            else case (fault (Backup i), fault (BackupMode i)) of
                (None, None) \<Rightarrow> (case prepare H fault root pj actions (Suc i) (key # seen) of (pfs, r) \<Rightarrow> (pf # pfs, r))
              | (Some e, _) \<Rightarrow> ([], Inl e)
              | (None, Some e) \<Rightarrow> ([], Inl e))"

fun write_all :: "faults \<Rightarrow> prepared_file list \<Rightarrow> nat \<Rightarrow> project \<Rightarrow> project \<times> unit res" where
  "write_all fault [] i pj = (pj, Inr ())"
| "write_all fault (pf # pfs) i pj =
     (case fault (Write i) of
        Some e \<Rightarrow> (pj, Inl e)
      | None \<Rightarrow>
          let written = write_bytes (pf_source pf) (pf_after pf) pj in
          case fault (WriteMode i) of
            Some e \<Rightarrow> (written, Inl e)
          | None \<Rightarrow> write_all fault pfs (Suc i) (set_mode (pf_source pf) (pf_mode pf) written))"

text \<open>Undoing, from the last file to the first; a write that fails is passed over.\<close>

definition restore_file :: "faults \<Rightarrow> nat \<Rightarrow> prepared_file \<Rightarrow> project \<Rightarrow> project" where
  "restore_file fault i pf pj =
     (if fault (Restore i) \<noteq> None then pj
      else let written = write_bytes (pf_source pf) (pf_before pf) pj in
        if fault (RestoreMode i) \<noteq> None then written else set_mode (pf_source pf) (pf_mode pf) written)"

fun restore_all :: "faults \<Rightarrow> prepared_file list \<Rightarrow> nat \<Rightarrow> project \<Rightarrow> project" where
  "restore_all fault [] i pj = pj"
| "restore_all fault (pf # pfs) i pj = restore_file fault i pf (restore_all fault pfs (Suc i) pj)"

definition applied_of :: "(string \<Rightarrow> string) \<Rightarrow> unified_diff \<Rightarrow> string list \<Rightarrow> prepared_file \<Rightarrow> applied_file" where
  "applied_of H diff root pf =
     (let relative = posix (relative_to root (pf_source pf)) in
      \<lparr>ap_path = relative, ap_before_sha256 = H (pf_before pf), ap_after_sha256 = H (pf_after pf),
       ap_diff = diff relative (the (utf8_decode (pf_before pf))) (the (utf8_decode (pf_after pf)))\<rparr>)"

definition applied_row :: "applied_file \<Rightarrow> json" where
  "applied_row a = JObj [(''path'', JStr (ap_path a)), (''before_sha256'', JStr (ap_before_sha256 a)),
     (''after_sha256'', JStr (ap_after_sha256 a)), (''diff'', JStr (ap_diff a))]"

definition transaction_payload :: "string \<Rightarrow> string list \<Rightarrow> json \<Rightarrow> string \<Rightarrow> applied_file list \<Rightarrow> json" where
  "transaction_payload tid root bundle now applied = JObj
     [(''schema'', JInt 1), (''transaction_id'', JStr tid), (''root'', JStr (path_text root)),
      (''bundle_id'', get_none ''bundle_id'' bundle), (''created_at'', JStr now), (''status'', JStr ''applied''),
      (''files'', JArr (map applied_row applied))]"

definition apply_bundle ::
    "(string \<Rightarrow> string) \<Rightarrow> unified_diff \<Rightarrow> faults \<Rightarrow> string \<Rightarrow> string \<Rightarrow> string list \<Rightarrow> json \<Rightarrow> project
      \<Rightarrow> project \<times> (applied_file list \<times> transaction) res" where
  "apply_bundle H diff fault uuid now root bundle pj =
     (let actions = get_none ''actions'' bundle; tid = ''rtx_'' @ uuid in
      case resolve (pj_tree pj) root of
        Inl e \<Rightarrow> (pj, Inl e)
      | Inr root \<Rightarrow>
          if \<not> eq_int (get_none ''schema'' bundle) 1 \<or> get_none ''kind'' bundle \<noteq> JStr ''psmatrix.patch-bundle''
          then (pj, repair_error ''Unsupported patch bundle schema'')
          else if \<not> is_list actions \<or> \<not> py_true actions \<or> max_patch_files < length (list_items actions)
          then (pj, repair_error ''Patch bundle action count is invalid'')
          else case prepare H fault root pj (list_items actions) 0 [] of
              (pfs, Inl e) \<Rightarrow> (restore_all fault pfs 0 pj, Inl e)
            | (pfs, Inr _) \<Rightarrow>
                (case write_all fault pfs 0 pj of
                   (pj', Inl e) \<Rightarrow> (restore_all fault pfs 0 pj', Inl e)
                 | (pj', Inr _) \<Rightarrow>
                     (case fault Record of
                        Some e \<Rightarrow> (restore_all fault pfs 0 pj', Inl e)
                      | None \<Rightarrow>
                          let applied = map (applied_of H diff root) pfs in
                          (pj', Inr (applied, \<lparr>tn_id = tid,
                             tn_backups = map (\<lambda>pf. (posix (relative_to root (pf_source pf)), pf_before pf)) pfs,
                             tn_payload = transaction_payload tid root bundle now applied\<rparr>)))))"

end
