(* ===== verification/Psm_RepairRun.thy ===== *)
theory Psm_RepairRun
  imports Psm_Repair Psm_Acts
begin

text \<open>
  Plans, rollback and the validated application of a bundle (\<open>repair.py\<close>). The child process that runs
  the tests is a parameter, as is what \<open>argparse\<close> makes of its arguments: the child may change the project and leaves an exit code, the bytes of a report
  file if it wrote one, and its output. A session is the contents of its JSON file.
\<close>

section \<open>Rolling back\<close>

fun rollback_files ::
    "string list \<Rightarrow> (string \<times> string) list \<Rightarrow> json list \<Rightarrow> project \<Rightarrow> project \<times> string list res" where
  "rollback_files root backups [] pj = (pj, Inr [])"
| "rollback_files root backups (value # vals) pj =
     (let relative = text_field ''path'' value in
      case res_bind (dget_none ''path'' value) (\<lambda>_. resolve_project_file (pj_tree pj) root relative) of
        Inl e \<Rightarrow> (pj, Inl e)
      | Inr destination \<Rightarrow>
          (case map_of backups relative of
             None \<Rightarrow> (pj, repair_error (''Repair backup missing: '' @ relative))
           | Some bytes \<Rightarrow>
               (case rollback_files root backups vals (write_bytes destination bytes pj) of
                  (pj', r) \<Rightarrow> (pj', res_bind r (\<lambda>restored. Inr (relative # restored))))))"

definition rolled_back_payload :: "string \<Rightarrow> json \<Rightarrow> json" where
  "rolled_back_payload now payload = jset ''rolled_back_at'' (JStr now) (jset ''status'' (JStr ''rolled_back'') payload)"

definition rollback_transaction ::
    "string \<Rightarrow> string list \<Rightarrow> transaction \<Rightarrow> project \<Rightarrow> project \<times> (string list \<times> transaction) res" where
  "rollback_transaction now root tn pj =
     (case res_bind (resolve (pj_tree pj) root) (\<lambda>root.
         res_bind (py_iter (get_or ''files'' (JArr []) (tn_payload tn))) (\<lambda>vals. Inr (root, vals))) of
        Inl e \<Rightarrow> (pj, Inl e)
      | Inr (root, vals) \<Rightarrow>
          (case rollback_files root (tn_backups tn) vals pj of
             (pj', r) \<Rightarrow> (pj', res_bind r (\<lambda>restored.
               Inr (restored, tn\<lparr>tn_payload := rolled_back_payload now (tn_payload tn)\<rparr>)))))"

section \<open>The plan\<close>

definition report_diagnostics_dict :: "(string \<Rightarrow> string) \<Rightarrow> json \<Rightarrow> (json list \<times> json) res" where
  "report_diagnostics_dict H report =
     (let given = get_none ''diagnostics'' report in
      res_bind (if is_list given then Inr (list_items given)
        else res_bind (py_iter (get_or ''targets'' (JArr []) report)) (\<lambda>items.
          res_bind (res_map target_report_from_dict items) (\<lambda>targets. Inr (collect_diagnostics H targets)))) (\<lambda>vals.
      let normalized = filter is_dict vals in Inr (normalized, summarize_diagnostics normalized)))"

definition validation_argv_sha256 :: "(string \<Rightarrow> string) \<Rightarrow> string list \<Rightarrow> string" where
  "validation_argv_sha256 H argv = H (canonical_json_bytes (JArr (map JStr argv)))"

definition sensitive_options :: "string list" where
  "sensitive_options = [''--arg'', ''--param'', ''--param-json'', ''--env'', ''--stdin-text'']"

fun redact_argv :: "bool \<Rightarrow> string list \<Rightarrow> string list" where
  "redact_argv hide [] = []"
| "redact_argv hide (value # argv) =
     (if hide then ''<redacted>'' # redact_argv False argv
      else value # redact_argv (value \<in> set sensitive_options) argv)"

definition redact_validation_argv :: "string list \<Rightarrow> string list" where
  "redact_validation_argv argv = redact_argv False argv"

record plan_source =
  ps_path :: string
  ps_sha256 :: string
  ps_size :: int
  ps_codes :: "string list"
  ps_diagnostics :: "json list"

text \<open>\<open>try: source = resolve_project_file(root, value) except RepairError: continue\<close>\<close>

definition project_file_or_skip :: "node \<Rightarrow> string list \<Rightarrow> string \<Rightarrow> string list option res" where
  "project_file_or_skip fs root value = (case resolve_project_file fs root value of
     Inr p \<Rightarrow> Inr (Some p)
   | Inl e \<Rightarrow> if exn_class e = RepairError then Inr None else Inl e)"

definition add_diagnostic :: "string \<Rightarrow> json \<Rightarrow> plan_source \<Rightarrow> plan_source" where
  "add_diagnostic code diagnostic s = s\<lparr>ps_codes := (if code \<in> set (ps_codes s) then ps_codes s else ps_codes s @ [code]),
     ps_diagnostics := ps_diagnostics s @ [diagnostic]\<rparr>"

fun group_sources ::
    "(string \<Rightarrow> string) \<Rightarrow> node \<Rightarrow> string list \<Rightarrow> json list \<Rightarrow> plan_source list \<Rightarrow> plan_source list res" where
  "group_sources H fs root [] sources = Inr sources"
| "group_sources H fs root (diagnostic # diagnostics) sources =
     (let source_value = text_field ''source'' diagnostic; code = py_str (py_or (get_none ''code'' diagnostic) (JStr ''UNKNOWN'')) in
      if source_value = [] then group_sources H fs root diagnostics sources
      else
        res_bind (project_file_or_skip fs root source_value) (\<lambda>found. case found of
            None \<Rightarrow> group_sources H fs root diagnostics sources
          | Some source \<Rightarrow>
              res_bind (read_bytes fs source) (\<lambda>bytes.
              let relative = posix (relative_to root source);
                  fresh = \<lparr>ps_path = relative, ps_sha256 = H bytes, ps_size = int (length bytes), ps_codes = [], ps_diagnostics = []\<rparr>;
                  known = (if find_by ps_path relative sources = None then sources @ [fresh] else sources) in
              group_sources H fs root diagnostics (upd_by ps_path relative (add_diagnostic code diagnostic) known))))"

definition diagnostic_key_of :: "json \<Rightarrow> (int \<times> int \<times> string) res" where
  "diagnostic_key_of d =
     res_bind (py_int (py_or (get_none ''line'' d) (JInt 0))) (\<lambda>line.
     res_bind (py_int (py_or (get_none ''column'' d) (JInt 0))) (\<lambda>column.
       Inr (line, column, py_str (get_none ''code'' d))))"

definition source_row :: "plan_source \<Rightarrow> json res" where
  "source_row s =
     res_bind (res_map diagnostic_key_of (ps_diagnostics s)) (\<lambda>keys.
       Inr (JObj [(''path'', JStr (ps_path s)), (''sha256'', JStr (ps_sha256 s)), (''size'', JInt (ps_size s)),
         (''diagnostic_codes'', JArr (map JStr (sort (ps_codes s)))),
         (''diagnostics'', JArr (map snd (sort_key fst (zip keys (ps_diagnostics s)))))]))"

fun baseline_rows :: "node \<Rightarrow> string list \<Rightarrow> json list \<Rightarrow> ((string \<times> string) \<times> json) list res" where
  "baseline_rows fs root [] = Inr []"
| "baseline_rows fs root (target # targets) =
     (if \<not> is_dict target \<or> text_field ''source'' target = [] then baseline_rows fs root targets
      else
        res_bind (project_file_or_skip fs root (text_field ''source'' target)) (\<lambda>found. case found of
            None \<Rightarrow> baseline_rows fs root targets
          | Some source \<Rightarrow>
              let relative = posix (relative_to root source); rid = text_field ''runtime_id'' target in
              res_bind (baseline_rows fs root targets) (\<lambda>rows.
                Inr (((relative, rid), JObj [(''path'', JStr relative), (''runtime_id'', JStr rid),
                  (''runtime_version'', JStr (text_field ''runtime_version'' target)),
                  (''status'', JStr (text_field ''status'' target))]) # rows))))"

definition plan_constraints :: json where
  "plan_constraints = JObj [(''existing_files_only'', JBool True), (''symlinks_allowed'', JBool False),
     (''maximum_files'', JInt (int max_patch_files)), (''maximum_edit_bytes'', JInt max_edit_bytes),
     (''required_validation_status'', JStr ''PASS''), (''rollback_on_failure'', JBool True)]"

definition plan_material ::
    "(string \<Rightarrow> string) \<Rightarrow> json \<Rightarrow> string list \<Rightarrow> json list \<Rightarrow> json list \<Rightarrow> string list \<Rightarrow> json \<Rightarrow> (string \<times> json) list" where
  "plan_material H report root sources baseline argv summary =
     [(''schema'', JInt 1), (''report_sha256'', JStr (H (canonical_json_bytes report))), (''root'', JStr (path_text root)),
      (''sources'', JArr sources), (''baseline_targets'', JArr baseline),
      (''validation_argv_sha256'', JStr (validation_argv_sha256 H argv)),
      (''validation_argv_redacted'', JArr (map JStr (redact_validation_argv argv))), (''diagnostic_summary'', summary)]"

definition repair_plan :: "(string \<Rightarrow> string) \<Rightarrow> string \<Rightarrow> (string \<times> json) list \<Rightarrow> json" where
  "repair_plan H now material =
     JObj ([(''schema'', JInt 1), (''kind'', JStr ''psmatrix.repair-plan''),
        (''plan_id'', JStr (''rpl_'' @ take 24 (H (canonical_json_bytes (JObj material))))), (''created_at'', JStr now)]
      @ tl material @ [(''constraints'', plan_constraints)])"

definition build_repair_plan ::
    "(string \<Rightarrow> string) \<Rightarrow> string \<Rightarrow> node \<Rightarrow> json \<Rightarrow> string list \<Rightarrow> string list \<Rightarrow> json res" where
  "build_repair_plan H now fs report root argv =
     res_bind (resolve fs root) (\<lambda>root.
     res_bind (report_diagnostics_dict H report) (\<lambda>(diagnostics, summary).
     res_bind (group_sources H fs root diagnostics []) (\<lambda>sources.
     res_bind (res_map source_row sources) (\<lambda>rows.
     res_bind (py_iter (get_or ''targets'' (JArr []) report)) (\<lambda>targets.
     res_bind (baseline_rows fs root targets) (\<lambda>baseline.
       Inr (repair_plan H now (plan_material H report root (map snd (sort_key fst (zip (map ps_path sources) rows)))
         (map snd (sort_key fst baseline)) argv summary))))))))"

section \<open>Validation\<close>

text \<open>
  What \<open>argparse\<close> makes of the arguments of the \<open>test\<close> command, as far as the repair engine looks at it;
  \<open>ta_outputs\<close> are the six report options. The parser itself is a parameter.
\<close>

record test_args =
  ta_command :: string
  ta_install_missing :: bool
  ta_network :: string
  ta_sandbox :: string
  ta_paths :: "string list"
  ta_outputs :: "string option list"

type_synonym arg_parser = "string list \<Rightarrow> test_args res"

definition strip_dashes :: "string list \<Rightarrow> string list" where
  "strip_dashes argv = (case argv of a # rest \<Rightarrow> if a = ''--'' then rest else argv | [] \<Rightarrow> [])"

definition validate_test_argv :: "arg_parser \<Rightarrow> node \<Rightarrow> string list \<Rightarrow> string list \<Rightarrow> string list \<Rightarrow> string list res" where
  "validate_test_argv parse fs root argv home =
     (let argv = strip_dashes argv in
      if argv = [] \<or> hd argv \<noteq> ''test'' then repair_error (''Repair validation arguments must begin with 'test'' @ [CHR 0x27])
      else
        res_bind (parse (''--home'' # path_text home # argv)) (\<lambda>parsed.
        if ta_command parsed \<noteq> ''test'' then repair_error ''Repair validation may only call the test command''
        else if ta_install_missing parsed then repair_error ''Repair validation cannot install runtimes''
        else if ta_network parsed \<noteq> ''none'' \<or> ta_sandbox parsed = ''direct''
        then repair_error ''Repair validation requires network=none and a non-direct sandbox''
        else
          res_bind (res_map (resolve_project_file fs root) (ta_paths parsed)) (\<lambda>_.
          if list_ex (\<lambda>v. v \<noteq> None) (ta_outputs parsed)
          then repair_error ''Repair validation report outputs are managed by the repair engine''
          else Inr argv)))"

text \<open>The child \<open>python -m psmatrix\<close>: its arguments, and what it does to the project\<close>

type_synonym child = "string list \<Rightarrow> project \<Rightarrow> project \<times> (int \<times> string option \<times> string \<times> string) res"

definition validation_command :: "string list \<Rightarrow> string list \<Rightarrow> string list \<Rightarrow> string list" where
  "validation_command home argv report_path =
     [''--home'', path_text home] @ argv @ [''--report-json'', path_text report_path, ''--json'']"

definition read_validation :: "int \<times> string option \<times> string \<times> string \<Rightarrow> (int \<times> json \<times> string \<times> string) res" where
  "read_validation = (\<lambda>(code, report, out, err). case report of
       None \<Rightarrow> repair_error (''Validation did not produce a report (exit '' @ int_str code @ ''): ''
         @ drop (length err - 4096) err)
     | Some bytes \<Rightarrow>
         (case utf8_decode bytes of
            None \<Rightarrow> throw ValueError ''invalid utf-8''
          | Some t \<Rightarrow> (case loads t of
                None \<Rightarrow> throw ValueError ''invalid JSON''
              | Some v \<Rightarrow> if is_dict v then Inr (code, v, out, err)
                  else repair_error ''Validation report root must be an object'')))"

definition run_validation ::
    "arg_parser \<Rightarrow> child \<Rightarrow> string list \<Rightarrow> string list \<Rightarrow> string list \<Rightarrow> string list
      \<Rightarrow> (project, int \<times> json \<times> string \<times> string) act" where
  "run_validation parse child root home argv report_path =
     act_bind (\<lambda>pj. act_res (validate_test_argv parse (pj_tree pj) root argv home) pj) (\<lambda>argv.
     act_bind (child (validation_command home argv report_path)) (\<lambda>r. act_res (read_validation r)))"


fun covered_targets :: "node \<Rightarrow> string list \<Rightarrow> json list \<Rightarrow> (string \<times> string) list res" where
  "covered_targets fs root [] = Inr []"
| "covered_targets fs root (target # targets) =
     (if \<not> is_dict target then covered_targets fs root targets
      else
        res_bind (project_file_or_skip fs root (text_field ''source'' target)) (\<lambda>found. case found of
            None \<Rightarrow> covered_targets fs root targets
          | Some source \<Rightarrow> res_bind (covered_targets fs root targets) (\<lambda>rest.
              Inr ((posix (relative_to root source), text_field ''runtime_id'' target) # rest))))"

text \<open>The expected targets that a validation report omits\<close>

definition missing_targets :: "node \<Rightarrow> string list \<Rightarrow> json \<Rightarrow> json \<Rightarrow> (string \<times> string) list res" where
  "missing_targets fs root report baseline =
     res_bind (py_iter baseline) (\<lambda>items.
     let expected = map (\<lambda>item. (text_field ''path'' item, text_field ''runtime_id'' item)) (filter is_dict items) in
     if expected = [] then Inr []
     else
       res_bind (py_iter (get_or ''targets'' (JArr []) report)) (\<lambda>targets.
       res_bind (covered_targets fs root targets) (\<lambda>actual.
         Inr (sort (remdups (filter (\<lambda>k. k \<notin> set actual) expected))))))"

definition missing_text :: "(string \<times> string) list \<Rightarrow> string" where
  "missing_text missing = ''Validation report omitted baseline targets: ''
     @ ensure_ascii (dumps_spaced (JArr (map (\<lambda>(path, rid). JObj [(''path'', JStr path), (''runtime_id'', JStr rid)]) missing)))"

text \<open>What the validation of an applied bundle came to\<close>

record validation =
  vd_exit_code :: int
  vd_report :: json
  vd_stdout :: string
  vd_stderr :: string
  vd_accepted :: bool
  vd_error :: "string option"

definition judge :: "node \<Rightarrow> string list \<Rightarrow> string list \<Rightarrow> json \<Rightarrow> int \<times> json \<times> string \<times> string \<Rightarrow> validation" where
  "judge fs root statuses baseline = (\<lambda>(code, report, out, err). case missing_targets fs root report baseline of
     Inl e \<Rightarrow> \<lparr>vd_exit_code = 2, vd_report = report, vd_stdout = out, vd_stderr = err, vd_accepted = False,
       vd_error = Some (class_name (exn_class e) @ '': '' @ exn_str e)\<rparr>
   | Inr missing \<Rightarrow> \<lparr>vd_exit_code = code, vd_report = report, vd_stdout = out, vd_stderr = err,
       vd_accepted = (code = 0 \<and> py_str (get_none ''status'' report) \<in> set statuses \<and> missing = []),
       vd_error = (if missing = [] then None else Some (missing_text missing))\<rparr>)"

definition validate ::
    "(project, int \<times> json \<times> string \<times> string) act \<Rightarrow> string list \<Rightarrow> string list \<Rightarrow> json \<Rightarrow> (project, validation) act" where
  "validate run root statuses baseline = (\<lambda>pj. case run pj of
     (pj', Inl e) \<Rightarrow> (pj', Inr \<lparr>vd_exit_code = 2, vd_report = JObj [], vd_stdout = [], vd_stderr = [],
       vd_accepted = False, vd_error = Some (class_name (exn_class e) @ '': '' @ exn_str e)\<rparr>)
   | (pj', Inr r) \<Rightarrow> (pj', Inr (judge (pj_tree pj') root statuses baseline r)))"

section \<open>Sessions and attempts\<close>

definition session_payload :: "string \<Rightarrow> string \<Rightarrow> int \<Rightarrow> json option \<Rightarrow> json res" where
  "session_payload uuid now max_attempts session = (case session of
     Some payload \<Rightarrow>
       res_bind (dget_none ''schema'' payload) (\<lambda>schema.
         if eq_int schema 1 then Inr payload else repair_error ''Unsupported repair session schema'')
   | None \<Rightarrow> Inr (JObj [(''schema'', JInt 1), (''kind'', JStr ''psmatrix.repair-session''),
       (''session_id'', JStr (''rrs_'' @ uuid)), (''created_at'', JStr now), (''max_attempts'', JInt max_attempts),
       (''attempts'', JArr []), (''status'', JStr ''active'')]))"

record repair_state =
  rs_project :: project
  rs_session :: "json option"

abbreviation on_project :: "(project, 'a) act \<Rightarrow> (repair_state, 'a) act" where
  "on_project \<equiv> act_on rs_project (\<lambda>p s. s\<lparr>rs_project := p\<rparr>)"

definition stream_row :: "(string \<Rightarrow> string) \<Rightarrow> string \<Rightarrow> json" where
  "stream_row H text = JObj [(''bytes'', JInt (int (length (utf8 text)))), (''sha256'', JStr (H (utf8 text)))]"

definition attempt_row ::
    "(string \<Rightarrow> string) \<Rightarrow> string \<Rightarrow> int \<Rightarrow> json \<Rightarrow> string list \<Rightarrow> applied_file list \<Rightarrow> transaction \<Rightarrow> validation \<Rightarrow> json
      \<Rightarrow> string list \<Rightarrow> json" where
  "attempt_row H now n bundle argv files tn v summary rolled_back = JObj
     [(''attempt'', JInt n), (''started_at'', JStr now), (''bundle_id'', get_none ''bundle_id'' bundle),
      (''transaction_id'', JStr (tn_id tn)), (''files'', JArr (map applied_row files)),
      (''validation_argv'', JArr (map JStr (redact_validation_argv argv))),
      (''validation_argv_sha256'', JStr (validation_argv_sha256 H argv)), (''validation_exit_code'', JInt (vd_exit_code v)),
      (''validation_status'', if py_true (vd_report v) then get_none ''status'' (vd_report v) else JNull),
      (''validation_report_sha256'', if py_true (vd_report v) then JStr (H (canonical_json_bytes (vd_report v))) else JNull),
      (''diagnostic_summary'', summary), (''accepted'', JBool (vd_accepted v)),
      (''rolled_back'', JArr (map JStr rolled_back)), (''error'', opt_str (vd_error v)),
      (''stdout'', stream_row H (vd_stdout v)), (''stderr'', stream_row H (vd_stderr v))]"

text \<open>The checks before anything is touched\<close>

definition check_bundle :: "(string \<Rightarrow> string) \<Rightarrow> json \<Rightarrow> string list \<Rightarrow> unit res" where
  "check_bundle H bundle argv =
     (let expected = get_none ''validation_argv_sha256'' bundle in
      if \<not> py_true (get_none ''plan_id'' bundle) \<or> \<not> py_true (get_none ''report_sha256'' bundle)
      then repair_error ''Validated repair requires a diagnosis-bound patch bundle''
      else if \<not> py_true expected then repair_error ''Patch bundle is missing the validation argument digest''
      else res_bind (compare_digest (py_str expected) (validation_argv_sha256 H argv)) (\<lambda>same.
        if same then Inr () else repair_error ''Validation arguments do not match the diagnosed repair plan''))"

record repair_env =
  re_H :: "string \<Rightarrow> string"
  re_diff :: unified_diff
  re_fault :: faults
  re_uuid :: string
  re_now :: string
  re_parse :: arg_parser
  re_child :: child
  re_statuses :: "string list"
  re_max_attempts :: int
  re_home :: "string list"

text \<open>The session and the number of the attempt that may be made in it\<close>

definition open_session :: "repair_env \<Rightarrow> json option \<Rightarrow> (json \<times> int) res" where
  "open_session E session =
     res_bind (session_payload (re_uuid E) (re_now E) (re_max_attempts E) session) (\<lambda>payload.
     res_bind (py_len (get_or ''attempts'' (JArr []) payload)) (\<lambda>n.
     res_bind (py_int (get_or ''max_attempts'' (JInt (re_max_attempts E)) payload)) (\<lambda>maximum.
       if maximum \<le> n then repair_error ''Maximum repair attempts reached'' else Inr (payload, n + 1))))"

definition record_attempt :: "repair_env \<Rightarrow> json \<Rightarrow> validation \<Rightarrow> json \<Rightarrow> json res" where
  "record_attempt E payload v attempt = (case get_or ''attempts'' (JArr []) payload of
     JArr attempts \<Rightarrow> Inr (jset ''status'' (JStr (if vd_accepted v then ''accepted'' else ''active''))
       (jset ''updated_at'' (JStr (re_now E)) (jset ''attempts'' (JArr (attempts @ [attempt])) payload)))
   | _ \<Rightarrow> throw AttributeError ''append'')"

text \<open>A run that is not accepted is rolled back.\<close>

definition settle :: "repair_env \<Rightarrow> string list \<Rightarrow> transaction \<Rightarrow> validation \<Rightarrow> (project, string list) act" where
  "settle E root tn v = (if vd_accepted v then act_return []
     else act_bind (rollback_transaction (re_now E) root tn) (\<lambda>restored. act_return (fst restored)))"

definition transaction_folder :: "repair_env \<Rightarrow> transaction \<Rightarrow> string list" where
  "transaction_folder E tn = re_home E @ [''repair-transactions'', tn_id tn]"

text \<open>The record of the attempt goes into the session file.\<close>

definition close_attempt ::
    "repair_env \<Rightarrow> json \<Rightarrow> string list \<Rightarrow> json \<Rightarrow> int \<Rightarrow> applied_file list \<Rightarrow> transaction \<Rightarrow> validation \<Rightarrow> string list
      \<Rightarrow> (repair_state, json) act" where
  "close_attempt E bundle argv payload n files tn v restored =
     act_bind (act_res (if py_true (vd_report v)
         then res_bind (report_diagnostics_dict (re_H E) (vd_report v)) (\<lambda>r. Inr (snd r)) else Inr (JObj [(''count'', JInt 0)]))) (\<lambda>summary.
     let attempt = attempt_row (re_H E) (re_now E) n bundle argv files tn v summary restored in
     act_bind (act_res (record_attempt E payload v attempt)) (\<lambda>session.
     act_bind (\<lambda>s. (s\<lparr>rs_session := Some session\<rparr>, Inr ())) (\<lambda>_.
     act_bind (act_res (jitem ''session_id'' session)) (\<lambda>session_id.
       act_return (JObj [(''schema'', JInt 1), (''session_id'', session_id), (''attempt'', attempt),
         (''report'', vd_report v), (''accepted'', JBool (vd_accepted v)),
         (''transaction_path'', JStr (path_text (transaction_folder E tn)))])))))"

definition validation_run ::
    "repair_env \<Rightarrow> string list \<Rightarrow> string list \<Rightarrow> transaction \<Rightarrow> (project, int \<times> json \<times> string \<times> string) act" where
  "validation_run E root argv tn = run_validation (re_parse E) (re_child E) root (re_home E) argv
     (transaction_folder E tn @ [''validation-report.json''])"

definition apply_and_validate ::
    "repair_env \<Rightarrow> string list \<Rightarrow> json \<Rightarrow> string list \<Rightarrow> (repair_state, json) act" where
  "apply_and_validate E root bundle argv =
     act_bind (\<lambda>s. act_res (resolve (pj_tree (rs_project s)) root) s) (\<lambda>root.
     act_bind (act_res (check_bundle (re_H E) bundle argv)) (\<lambda>_.
     act_bind (\<lambda>s. act_res (open_session E (rs_session s)) s) (\<lambda>(payload, n).
     act_bind (on_project (apply_bundle (re_H E) (re_diff E) (re_fault E) (re_uuid E) (re_now E) root bundle)) (\<lambda>(files, tn).
     act_bind (on_project (validate (validation_run E root argv tn) root (re_statuses E)
         (get_or ''baseline_targets'' (JArr []) bundle))) (\<lambda>v.
     act_bind (on_project (settle E root tn v)) (\<lambda>restored.
       close_attempt E bundle argv payload n files tn v restored))))))"

end
