(* ===== verification/Psm_RepairProps.thy ===== *)
theory Psm_RepairProps
  imports Psm_RepairRun
begin

text \<open>
  What the repair engine guarantees: applying a bundle changes all of its files or, when no restoring write fails,
  none; a bundle that was proposed for the present files applies; a rollback and a rejected validation bring the
  contents back; a patch is kept only after a passing run that covers the diagnosed targets; and the attempts of a
  session are bounded.
\<close>

section \<open>Sources\<close>

definition plain_root :: "string list \<Rightarrow> bool" where
  "plain_root root \<longleftrightarrow> list_all (\<lambda>p. p = ''..'' \<or> plain_part p) root"

lemma project_file_facts:
  assumes "resolve_project_file fs root v = Inr s" "link_free fs []"
  shows "link_free fs s" "''..'' \<notin> set s" "\<exists>b. lookup_node fs s = Some (RegFile b)"
    "\<exists>r. resolve fs root = Inr r \<and> is_within r s"
proof -
  from assms(1) obtain r where r: "resolve fs root = Inr r" "is_within r s" "is_file fs s"
      and q: "resolve fs (path_join r v) = Inr s"
    by (auto simp: resolve_project_file_def resolve_strict_def)
  show l: "link_free fs s" using q assms(2) unfolding resolve_def by (rule resolve_from_result)
  show u: "''..'' \<notin> set s" by (rule resolve_no_up [OF q])
  from r(3) obtain b where "stat_path fs s = Inr (RegFile b)" by (auto simp: is_file_def split: sum.splits node.splits)
  then show "\<exists>b. lookup_node fs s = Some (RegFile b)" by (simp add: stat_path_direct [OF l u])
  from r show "\<exists>r. resolve fs root = Inr r \<and> is_within r s" by blast
qed

text \<open>The check for symbolic links comes after they were followed, and never refuses anything.\<close>

lemma symlinks_never_refused:
  assumes "link_free fs []"
  shows "resolve_project_file fs root value =
     res_bind (resolve fs root) (\<lambda>root.
     res_bind (resolve_strict fs (path_join root value)) (\<lambda>resolved.
     if \<not> is_within root resolved then repair_error (''Path escapes repair root: '' @ value)
     else if \<not> is_file fs resolved
     then repair_error (''Repair source is not a regular file: '' @ path_text resolved)
     else Inr resolved))"
proof -
  have "\<not> list_ex (\<lambda>i. is_symlink fs (take i s)) [k + 1..<length s + 1]" if "resolve_strict fs p = Inr s" for p s k
  proof -
    from that have s: "resolve fs p = Inr s" by (auto simp: resolve_strict_def)
    then have "link_free fs s" using assms unfolding resolve_def by (rule resolve_from_result)
    then show ?thesis using not_symlink resolve_no_up [OF s] by (simp only: list_ex_iff set_upt) auto
  qed
  then show ?thesis unfolding resolve_project_file_def by (intro res_bind_cong refl) simp
qed

lemma project_file_again:
  assumes "resolve fs root = Inr r" "s = r @ rel" "link_free fs s" "list_all plain_part s" "lookup_node fs s = Some (RegFile b)"
  shows "resolve_project_file fs root (posix rel) = Inr s"
proof -
  have u: "''..'' \<notin> set s" using assms(4) by (auto simp: list_all_iff plain_part_def)
  have rel: "list_all plain_part rel" using assms(2,4) by simp
  have st: "stat_path fs s = Inr (RegFile b)" using stat_path_direct [OF assms(3) u] assms(5) by simp
  have j: "path_join r (posix rel) = s" using path_parts_posix [OF rel] assms(2) by (simp add: path_join_def)
  have "is_within r s" using assms(2) by (simp add: is_within_def)
  moreover have "is_file fs s" by (simp add: is_file_def st)
  moreover have "\<not> list_ex (\<lambda>i. is_symlink fs (take i s)) [length r + 1..<length s + 1]"
    using not_symlink [OF assms(3) u] by (simp only: list_ex_iff set_upt) auto
  ultimately show ?thesis
    unfolding resolve_project_file_def assms(1) res_bind_simps j resolve_strict_def st resolve_plain_path [OF assms(3,4)]
    by simp
qed



text \<open>A reported source that no longer exists raises an \<open>OSError\<close>, which the loops over the sources do not catch.\<close>

lemma walk_error: "walk_from fs n org d ps = Inl e \<Longrightarrow> exn_class e = OSError"
proof (induction fs n org d ps rule: walk_from.induct)
  case (1 fs n org d)
  then show ?case by (auto simp: os_error_def split: option.splits)
next
  case (2 fs n org d p ps)
  then show ?case by (auto simp: os_error_def split: option.splits node.splits if_splits nat.splits)
qed

lemma missing_source_aborts_plan:
  assumes "resolve fs root = Inr r" "resolve fs r = Inr r" "stat_path fs (path_join r (text_field ''source'' d)) = Inl e" "text_field ''source'' d \<noteq> []"
  shows "group_sources H fs r (d # ds) sources = Inl e"
proof -
  have "exn_class e \<noteq> RepairError" using assms(3) walk_error unfolding stat_path_def by fastforce
  with assms show ?thesis
    by (simp add: Let_def project_file_or_skip_def resolve_project_file_def resolve_strict_def)
qed

section \<open>All files or none\<close>

definition fits :: "project \<Rightarrow> prepared_file \<Rightarrow> bool" where
  "fits pj pf \<longleftrightarrow> lookup_node (pj_tree pj) (pf_source pf) = Some (RegFile (pf_before pf))
     \<and> pf_mode pf = pj_mode pj (pf_source pf)"

definition source_key :: "string list \<Rightarrow> prepared_file \<Rightarrow> string" where
  "source_key root pf = casefold (posix (relative_to root (pf_source pf)))"

lemma replay_action_facts:
  assumes "replay_action H root pj action = Inr pf" "link_free (pj_tree pj) []"
  shows "fits pj pf" "link_free (pj_tree pj) (pf_source pf)" "''..'' \<notin> set (pf_source pf)"
    "resolve_project_file (pj_tree pj) root (text_field ''path'' action) = Inr (pf_source pf)"
proof -
  from assms(1) obtain s before where r: "resolve_project_file (pj_tree pj) root (text_field ''path'' action) = Inr s"
      and b: "read_bytes (pj_tree pj) s = Inr before"
      and pf: "pf_source pf = s" "pf_before pf = before" "pf_mode pf = pj_mode pj s"
    by (auto simp: replay_action_def Let_def split: option.splits)
  note f = project_file_facts [OF r assms(2)]
  from f(3) obtain c where c: "lookup_node (pj_tree pj) s = Some (RegFile c)" by blast
  then have "stat_path (pj_tree pj) s = Inr (RegFile c)" by (simp add: stat_path_direct [OF f(1,2)])
  with b have "before = c" by (simp add: read_bytes_def)
  with c pf show "fits pj pf" by (simp add: fits_def)
  show "link_free (pj_tree pj) (pf_source pf)" "''..'' \<notin> set (pf_source pf)"
    "resolve_project_file (pj_tree pj) root (text_field ''path'' action) = Inr (pf_source pf)"
    using f r pf by simp_all
qed

lemma prepare_facts:
  assumes "prepare H fault root pj actions i seen = (pfs, r)" "link_free (pj_tree pj) []"
  shows "list_all (\<lambda>pf. fits pj pf \<and> link_free (pj_tree pj) (pf_source pf) \<and> ''..'' \<notin> set (pf_source pf)
      \<and> source_key root pf \<notin> set seen) pfs \<and> distinct (map (source_key root) pfs)"
  using assms
proof (induction H fault root pj actions i seen arbitrary: pfs r rule: prepare.induct)
  case (2 H fault root pj action actions i seen)
  show ?case
  proof (cases "is_dict action")
    case True
    show ?thesis
    proof (cases "replay_action H root pj action")
      case (Inr pf)
      note f = replay_action_facts [OF Inr "2.prems"(2)]
      show ?thesis
      proof (cases "source_key root pf \<in> set seen \<or> fault (Backup i) \<noteq> None \<or> fault (BackupMode i) \<noteq> None")
        case True
        with "2.prems"(1) \<open>is_dict action\<close> Inr have "pfs = []"
          by (auto simp: Let_def source_key_def split: option.splits if_splits)
        then show ?thesis by simp
      next
        case False
        obtain pfs' r' where p: "prepare H fault root pj actions (Suc i) (source_key root pf # seen) = (pfs', r')"
          by (metis prod.exhaust)
        with False "2.prems"(1) \<open>is_dict action\<close> Inr have e: "pfs = pf # pfs'"
          by (auto simp: Let_def source_key_def)
        from "2.IH" [OF _ Inr refl refl] False True p "2.prems"(2)
        have "list_all (\<lambda>pf'. fits pj pf' \<and> link_free (pj_tree pj) (pf_source pf') \<and> ''..'' \<notin> set (pf_source pf')
            \<and> source_key root pf' \<notin> set (source_key root pf # seen)) pfs' \<and> distinct (map (source_key root) pfs')"
          by (simp add: source_key_def [abs_def])
        with e f False show ?thesis by (auto simp: list_all_iff)
      qed
    qed (use 2 True in auto)
  qed (use 2 in auto)
qed simp

lemma distinct_sources: "distinct (map (source_key root) pfs) \<Longrightarrow> distinct (map pf_source pfs)"
  by (auto simp: distinct_map source_key_def comp_def inj_on_def)

definition undone :: "faults \<Rightarrow> bool" where
  "undone fault \<longleftrightarrow> (\<forall>i. fault (Restore i) = None \<and> fault (RestoreMode i) = None)"

lemma restore_file_back:
  assumes "undone fault" "fits pj pf"
  shows "restore_file fault i pf (write_bytes (pf_source pf) c pj) = pj"
    and "restore_file fault i pf (set_mode (pf_source pf) m (write_bytes (pf_source pf) c pj)) = pj"
    and "restore_file fault i pf pj = pj"
  using assms
  by (simp_all add: restore_file_def undone_def fits_def write_bytes_def set_mode_def set_file_back set_file_same)

lemma restore_idle: "undone fault \<Longrightarrow> list_all (fits pj) pfs \<Longrightarrow> restore_all fault pfs i pj = pj"
  by (induction pfs arbitrary: i) (simp_all add: restore_file_back)

lemma fits_write:
  assumes "fits pj pf" "fits pj pf'" "pf_source pf \<noteq> pf_source pf'"
  shows "fits (write_bytes (pf_source pf) c pj) pf'" "fits (set_mode (pf_source pf) m (write_bytes (pf_source pf) c pj)) pf'"
  using assms by (auto simp: fits_def write_bytes_def set_mode_def lookup_set_other)

lemma undo_writes:
  assumes "undone fault" "list_all (fits pj) pfs" "distinct (map pf_source pfs)" "write_all fault pfs i pj = (pj', r)"
  shows "restore_all fault pfs i pj' = pj"
  using assms
proof (induction pfs arbitrary: pj i)
  case (Cons pf pfs)
  let ?w = "write_bytes (pf_source pf) (pf_after pf) pj"
  let ?m = "set_mode (pf_source pf) (pf_mode pf) ?w"
  have fit: "fits pj pf" "list_all (fits ?w) pfs" "list_all (fits ?m) pfs" "distinct (map pf_source pfs)"
    using Cons.prems(2,3) by (auto simp: list_all_iff image_iff intro: fits_write)
  show ?case
  proof (cases "fault (Write i)")
    case None
    show ?thesis
    proof (cases "fault (WriteMode i)")
      case None
      with \<open>fault (Write i) = None\<close> Cons.prems(4) have "write_all fault pfs (Suc i) ?m = (pj', r)" by (simp add: Let_def)
      from Cons.IH [OF Cons.prems(1) fit(3,4) this] show ?thesis using Cons.prems(1) fit(1) by (simp add: restore_file_back)
    next
      case (Some e)
      with \<open>fault (Write i) = None\<close> Cons.prems(4) have "pj' = ?w" by (simp add: Let_def)
      with Cons.prems(1) fit(1,2) show ?thesis by (simp add: restore_idle restore_file_back)
    qed
  next
    case (Some e)
    with Cons.prems(4) have "pj' = pj" by simp
    with Cons.prems(1,2) show ?thesis by (simp add: restore_idle restore_file_back)
  qed
qed simp


lemma write_all_ok:
  assumes "write_all fault pfs i pj = (pj', Inr u)" "list_all (fits pj) pfs" "distinct (map pf_source pfs)"
  shows "pj_mode pj' = pj_mode pj \<and> same_shape (pj_tree pj) (pj_tree pj')
    \<and> (\<forall>pf \<in> set pfs. lookup_node (pj_tree pj') (pf_source pf) = Some (RegFile (pf_after pf)))
    \<and> (\<forall>q c. q \<notin> pf_source ` set pfs \<longrightarrow> lookup_node (pj_tree pj) q = Some (RegFile c)
        \<longrightarrow> lookup_node (pj_tree pj') q = Some (RegFile c))"
  using assms
proof (induction pfs arbitrary: pj i)
  case (Cons pf pfs)
  let ?m = "set_mode (pf_source pf) (pf_mode pf) (write_bytes (pf_source pf) (pf_after pf) pj)"
  from Cons.prems(1) have w: "write_all fault pfs (Suc i) ?m = (pj', Inr u)"
    by (auto simp: Let_def split: option.splits)
  have fit: "fits pj pf" "list_all (fits ?m) pfs" "distinct (map pf_source pfs)" "pf_source pf \<notin> pf_source ` set pfs"
    using Cons.prems(2,3) by (auto simp: list_all_iff image_iff intro: fits_write)
  note ih = Cons.IH [OF w fit(2,3)]
  have m: "pj_mode ?m = pj_mode pj" "lookup_node (pj_tree ?m) (pf_source pf) = Some (RegFile (pf_after pf))"
      "same_shape (pj_tree pj) (pj_tree ?m)"
      "\<And>q c. q \<noteq> pf_source pf \<Longrightarrow> lookup_node (pj_tree pj) q = Some (RegFile c) \<Longrightarrow> lookup_node (pj_tree ?m) q = Some (RegFile c)"
    using fit(1) by (auto simp: fits_def set_mode_def write_bytes_def lookup_set_other intro: same_shape_set_file)
  show ?case
  proof (intro conjI)
    show "pj_mode pj' = pj_mode pj" using ih m(1) by simp
    show "same_shape (pj_tree pj) (pj_tree pj')" using ih m(3) same_shape_trans by blast
    show "\<forall>pf' \<in> set (pf # pfs). lookup_node (pj_tree pj') (pf_source pf') = Some (RegFile (pf_after pf'))"
      using ih m(2) fit(4) by simp
    show "\<forall>q c. q \<notin> pf_source ` set (pf # pfs) \<longrightarrow> lookup_node (pj_tree pj) q = Some (RegFile c)
        \<longrightarrow> lookup_node (pj_tree pj') q = Some (RegFile c)"
      using ih m(4) by simp
  qed
qed simp

lemma prepare_prefix:
  "prepare H fault root pj actions i seen = (pfs, r)
    \<Longrightarrow> list_all2 (\<lambda>action pf. replay_action H root pj action = Inr pf) (take (length pfs) actions) pfs"
proof (induction H fault root pj actions i seen arbitrary: pfs rule: prepare.induct)
  case (2 H fault root pj action actions i seen)
  then show ?case by (auto simp: Let_def split: if_splits sum.splits option.splits prod.splits)
qed simp

lemma prepare_replays:
  "prepare H fault root pj actions i seen = (pfs, Inr u)
    \<Longrightarrow> list_all2 (\<lambda>action pf. replay_action H root pj action = Inr pf) actions pfs"
proof (induction H fault root pj actions i seen arbitrary: pfs rule: prepare.induct)
  case (2 H fault root pj action actions i seen)
  then show ?case by (auto simp: Let_def split: if_splits sum.splits option.splits prod.splits)
qed simp

text \<open>What a successful application is made of\<close>

lemma apply_bundle_ok:
  assumes "apply_bundle H diff fault uuid now root bundle pj = (pj', Inr (applied, tn))"
  obtains r pfs where "resolve (pj_tree pj) root = Inr r"
    "prepare H fault r pj (list_items (get_none ''actions'' bundle)) 0 [] = (pfs, Inr ())"
    "write_all fault pfs 0 pj = (pj', Inr ())" "applied = map (applied_of H diff r) pfs"
    "tn_backups tn = map (\<lambda>pf. (posix (relative_to r (pf_source pf)), pf_before pf)) pfs"
    "tn_payload tn = transaction_payload (''rtx_'' @ uuid) r bundle now applied"
  using assms by (auto simp: apply_bundle_def Let_def repair_error_def split: sum.splits if_splits prod.splits option.splits)

text \<open>Whatever fails on the way, a file of the bundle holds its former bytes or the new ones.\<close>

abbreviation file_at :: "project \<Rightarrow> string list \<Rightarrow> string \<Rightarrow> bool" where
  "file_at pj q c \<equiv> lookup_node (pj_tree pj) q = Some (RegFile c)"

lemma file_at_write [simp]:
  "pj_mode (write_bytes p c pj) q = (if q = p then temp_mode else pj_mode pj q)"
  "pj_mode (set_mode p m pj) q = (if q = p then m else pj_mode pj q)"
  "pj_tree (set_mode p m pj) = pj_tree pj" "pj_tree (write_bytes p c pj) = set_file (pj_tree pj) p c"
  by (simp_all add: write_bytes_def set_mode_def)

lemma write_all_part:
  assumes "write_all fault pfs i pj = (pj', r)" "list_all (fits pj) pfs" "distinct (map pf_source pfs)"
  shows "(\<forall>pf \<in> set pfs. file_at pj' (pf_source pf) (pf_before pf) \<or> file_at pj' (pf_source pf) (pf_after pf))
    \<and> (\<forall>q c. q \<notin> pf_source ` set pfs \<longrightarrow> file_at pj q c \<longrightarrow> file_at pj' q c)
    \<and> (\<forall>q. q \<notin> pf_source ` set pfs \<longrightarrow> pj_mode pj' q = pj_mode pj q)"
  using assms
proof (induction pfs arbitrary: pj i)
  case (Cons pf pfs)
  let ?w = "write_bytes (pf_source pf) (pf_after pf) pj"
  let ?m = "set_mode (pf_source pf) (pf_mode pf) ?w"
  have fit: "fits pj pf" "list_all (fits pj) pfs" "list_all (fits ?w) pfs" "list_all (fits ?m) pfs"
      "distinct (map pf_source pfs)" "pf_source pf \<notin> pf_source ` set pfs"
    using Cons.prems(2,3) by (auto simp: list_all_iff image_iff intro: fits_write)
  have at: "file_at ?w (pf_source pf) (pf_after pf)" "\<And>q c. q \<noteq> pf_source pf \<Longrightarrow> file_at pj q c \<Longrightarrow> file_at ?w q c"
    using fit(1) by (auto simp: fits_def lookup_set_other)
  consider "fault (Write i) \<noteq> None" | "fault (Write i) = None" "fault (WriteMode i) \<noteq> None"
    | "fault (Write i) = None" "fault (WriteMode i) = None" by blast
  then show ?case
  proof cases
    case 1
    with Cons.prems(1,2) have "pj' = pj" "list_all (fits pj) (pf # pfs)" by auto
    then show ?thesis by (simp add: list_all_iff fits_def)
  next
    case 2
    with Cons.prems(1) have "pj' = ?w" by (auto simp: Let_def)
    with fit(3) at show ?thesis by (auto simp: list_all_iff fits_def)
  next
    case 3
    with Cons.prems(1) have w: "write_all fault pfs (Suc i) ?m = (pj', r)" by (simp add: Let_def)
    from Cons.IH [OF w fit(4,5)] fit(6) at show ?thesis by simp
  qed
qed simp

lemma restore_all_part:
  assumes "\<forall>pf \<in> set pfs. \<exists>c. file_at pj (pf_source pf) c" "distinct (map pf_source pfs)"
  shows "(\<forall>j < length pfs. if fault (Restore (i + j)) = None
        then file_at (restore_all fault pfs i pj) (pf_source (pfs ! j)) (pf_before (pfs ! j))
        else \<forall>c. file_at pj (pf_source (pfs ! j)) c \<longrightarrow> file_at (restore_all fault pfs i pj) (pf_source (pfs ! j)) c)
    \<and> (\<forall>j < length pfs. fault (Restore (i + j)) = None \<and> fault (RestoreMode (i + j)) = None
        \<longrightarrow> pj_mode (restore_all fault pfs i pj) (pf_source (pfs ! j)) = pf_mode (pfs ! j))
    \<and> (\<forall>q c. q \<notin> pf_source ` set pfs \<longrightarrow> file_at pj q c \<longrightarrow> file_at (restore_all fault pfs i pj) q c)
    \<and> (\<forall>q. q \<notin> pf_source ` set pfs \<longrightarrow> pj_mode (restore_all fault pfs i pj) q = pj_mode pj q)"
  using assms
proof (induction pfs arbitrary: i)
  case (Cons pf pfs)
  let ?r = "restore_all fault pfs (Suc i) pj"
  let ?s = "pf_source pf"
  have d: "?s \<notin> pf_source ` set pfs" "\<forall>pf \<in> set pfs. \<exists>c. file_at pj (pf_source pf) c" "distinct (map pf_source pfs)"
    using Cons.prems by auto
  note ih = Cons.IH [OF d(2,3), of "Suc i"]
  obtain c where c: "file_at pj ?s c" using Cons.prems(1) by auto
  with ih d(1) have cr: "file_at ?r ?s c" by blast
  have step: "file_at (restore_file fault i pf ?r) q x" if "q \<noteq> ?s" "file_at ?r q x" for q x
    using that cr by (auto simp: restore_file_def Let_def intro: lookup_set_other)
  have same: "pj_mode (restore_file fault i pf ?r) q = pj_mode ?r q" if "q \<noteq> ?s" for q
    using that by (simp add: restore_file_def Let_def)
  have head: "if fault (Restore i) = None then file_at (restore_file fault i pf ?r) ?s (pf_before pf)
      else file_at (restore_file fault i pf ?r) ?s c"
    using cr by (auto simp: restore_file_def Let_def)
  have head_mode: "fault (Restore i) = None \<and> fault (RestoreMode i) = None
      \<Longrightarrow> pj_mode (restore_file fault i pf ?r) ?s = pf_mode pf"
    by (simp add: restore_file_def Let_def)
  have other: "pf_source (pfs ! j) \<noteq> ?s" if "j < length pfs" for j
    using d(1) that by (metis image_eqI nth_mem)
  have "(if fault (Restore (i + j)) = None then file_at (restore_file fault i pf ?r) (pf_source ((pf # pfs) ! j)) (pf_before ((pf # pfs) ! j))
        else \<forall>c. file_at pj (pf_source ((pf # pfs) ! j)) c \<longrightarrow> file_at (restore_file fault i pf ?r) (pf_source ((pf # pfs) ! j)) c)
      \<and> (fault (Restore (i + j)) = None \<and> fault (RestoreMode (i + j)) = None
        \<longrightarrow> pj_mode (restore_file fault i pf ?r) (pf_source ((pf # pfs) ! j)) = pf_mode ((pf # pfs) ! j))"
    if "j < Suc (length pfs)" for j
  proof (cases j)
    case 0
    with head head_mode c show ?thesis by auto
  next
    case (Suc k)
    with that have k: "k < length pfs" by simp
    with ih Suc step same other [OF k] show ?thesis by (auto split: if_split_asm)
  qed
  then show ?case using ih step same by simp
qed simp

text \<open>What a failed application leaves: \<open>pfs\<close> are the files that were prepared, by their number.\<close>

definition left_behind :: "faults \<Rightarrow> project \<Rightarrow> prepared_file list \<Rightarrow> project \<Rightarrow> bool" where
  "left_behind fault pj pfs pj' \<longleftrightarrow>
     (\<forall>j < length pfs. file_at pj' (pf_source (pfs ! j)) (pf_before (pfs ! j))
        \<or> fault (Restore j) \<noteq> None \<and> file_at pj' (pf_source (pfs ! j)) (pf_after (pfs ! j)))
     \<and> (\<forall>j < length pfs. pj_mode pj' (pf_source (pfs ! j)) = pj_mode pj (pf_source (pfs ! j))
        \<or> fault (Restore j) \<noteq> None \<or> fault (RestoreMode j) \<noteq> None)
     \<and> (\<forall>q c. q \<notin> pf_source ` set pfs \<longrightarrow> file_at pj q c \<longrightarrow> file_at pj' q c)
     \<and> (\<forall>q. q \<notin> pf_source ` set pfs \<longrightarrow> pj_mode pj' q = pj_mode pj q)"

lemma undo_left_behind:
  assumes "list_all (fits pj) pfs" "distinct (map pf_source pfs)"
    and "pj1 = pj \<or> write_all fault pfs 0 pj = (pj1, r)"
  shows "left_behind fault pj pfs (restore_all fault pfs 0 pj1)"
proof -
  have w: "(\<forall>pf \<in> set pfs. file_at pj1 (pf_source pf) (pf_before pf) \<or> file_at pj1 (pf_source pf) (pf_after pf))
    \<and> (\<forall>q c. q \<notin> pf_source ` set pfs \<longrightarrow> file_at pj q c \<longrightarrow> file_at pj1 q c)
    \<and> (\<forall>q. q \<notin> pf_source ` set pfs \<longrightarrow> pj_mode pj1 q = pj_mode pj q)"
  proof (cases "pj1 = pj")
    case True
    with assms(1) show ?thesis by (simp add: list_all_iff fits_def)
  next
    case False
    with assms(3) write_all_part [OF _ assms(1,2)] show ?thesis by blast
  qed
  then have "\<forall>pf \<in> set pfs. \<exists>c. file_at pj1 (pf_source pf) c" by blast
  note r = restore_all_part [OF this assms(2), of fault 0, simplified]
  have modes: "pf_mode (pfs ! j) = pj_mode pj (pf_source (pfs ! j))" if "j < length pfs" for j
    using assms(1) that by (simp add: list_all_length fits_def)
  have one: "file_at (restore_all fault pfs 0 pj1) (pf_source (pfs ! j)) (pf_before (pfs ! j))
      \<or> fault (Restore j) \<noteq> None \<and> file_at (restore_all fault pfs 0 pj1) (pf_source (pfs ! j)) (pf_after (pfs ! j))"
    if j: "j < length pfs" for j
  proof -
    from w j have "file_at pj1 (pf_source (pfs ! j)) (pf_before (pfs ! j)) \<or> file_at pj1 (pf_source (pfs ! j)) (pf_after (pfs ! j))"
      by simp
    with r j show ?thesis by (metis (no_types, lifting))
  qed
  show ?thesis unfolding left_behind_def
  proof (intro conjI)
    show "\<forall>j < length pfs. file_at (restore_all fault pfs 0 pj1) (pf_source (pfs ! j)) (pf_before (pfs ! j))
      \<or> fault (Restore j) \<noteq> None \<and> file_at (restore_all fault pfs 0 pj1) (pf_source (pfs ! j)) (pf_after (pfs ! j))"
      using one by blast
    show "\<forall>j < length pfs. pj_mode (restore_all fault pfs 0 pj1) (pf_source (pfs ! j)) = pj_mode pj (pf_source (pfs ! j))
        \<or> fault (Restore j) \<noteq> None \<or> fault (RestoreMode j) \<noteq> None" using r modes by auto
    show "\<forall>q c. q \<notin> pf_source ` set pfs \<longrightarrow> file_at pj q c \<longrightarrow> file_at (restore_all fault pfs 0 pj1) q c" using r w by blast
    show "\<forall>q. q \<notin> pf_source ` set pfs \<longrightarrow> pj_mode (restore_all fault pfs 0 pj1) q = pj_mode pj q" using r w by simp
  qed
qed

text \<open>How an application that raises ends\<close>

lemma apply_bundle_raises:
  assumes "apply_bundle H diff fault uuid now root bundle pj = (pj', Inl e)" "link_free (pj_tree pj) []"
  shows "pj' = pj \<or> (\<exists>r pfs pj1. resolve (pj_tree pj) root = Inr r
    \<and> list_all2 (\<lambda>action pf. replay_action H r pj action = Inr pf)
        (take (length pfs) (list_items (get_none ''actions'' bundle))) pfs
    \<and> list_all (fits pj) pfs \<and> distinct (map pf_source pfs)
    \<and> (pj1 = pj \<or> (\<exists>q. write_all fault pfs 0 pj = (pj1, q))) \<and> pj' = restore_all fault pfs 0 pj1)"
proof (cases "resolve (pj_tree pj) root")
  case (Inr r)
  obtain pfs p where p: "prepare H fault r pj (list_items (get_none ''actions'' bundle)) 0 [] = (pfs, p)" by fastforce
  obtain pj1 q where q: "write_all fault pfs 0 pj = (pj1, q)" by fastforce
  from prepare_facts [OF p assms(2)] have f: "list_all (fits pj) pfs" "distinct (map pf_source pfs)"
    by (auto simp: list_all_iff dest: distinct_sources)
  have "pj' = pj \<or> (\<exists>pj2. (pj2 = pj \<or> pj2 = pj1) \<and> pj' = restore_all fault pfs 0 pj2)"
    using assms(1) Inr p q by (auto simp: apply_bundle_def Let_def split: if_splits sum.splits option.splits)
  with Inr p q f prepare_prefix [OF p] show ?thesis by auto
qed (use assms(1) in \<open>simp add: apply_bundle_def\<close>)

text \<open>C30: Applying a bundle that succeeds replays every action: each file holds the bytes its action yields, all
  other files and every mode are as before. When it raises - a check refuses an action, or any write
  fails - the files are put back: every prepared file holds its former bytes and has its former mode,
  except those whose own restoring write fails too (such an \<open>OSError\<close> is passed over), which keep the new bytes;
  files outside the bundle are untouched, and when no restoring write fails nothing has changed.\<close>

theorem apply_all_or_nothing:
  assumes "apply_bundle H diff fault uuid now root bundle pj = (pj', out)" "link_free (pj_tree pj) []"
  shows "case out of
      Inl e \<Rightarrow> (pj' = pj \<or> (\<exists>r pfs. resolve (pj_tree pj) root = Inr r \<and> list_all2 (\<lambda>action pf. replay_action H r pj action = Inr pf)
          (take (length pfs) (list_items (get_none ''actions'' bundle))) pfs \<and> left_behind fault pj pfs pj'))
        \<and> (undone fault \<longrightarrow> pj' = pj)
    | Inr (applied, tn) \<Rightarrow> \<exists>r pfs. resolve (pj_tree pj) root = Inr r \<and> applied = map (applied_of H diff r) pfs
        \<and> list_all2 (\<lambda>action pf. replay_action H r pj action = Inr pf) (list_items (get_none ''actions'' bundle)) pfs
        \<and> (\<forall>pf \<in> set pfs. lookup_node (pj_tree pj') (pf_source pf) = Some (RegFile (pf_after pf)))
        \<and> (\<forall>q c. q \<notin> pf_source ` set pfs \<longrightarrow> lookup_node (pj_tree pj) q = Some (RegFile c)
            \<longrightarrow> lookup_node (pj_tree pj') q = Some (RegFile c))
        \<and> pj_mode pj' = pj_mode pj"
proof (cases out)
  case (Inr x)
  obtain applied tn where x: "x = (applied, tn)" by (cases x)
  from assms(1) Inr x have a: "apply_bundle H diff fault uuid now root bundle pj = (pj', Inr (applied, tn))" by simp
  from a obtain r pfs where k: "resolve (pj_tree pj) root = Inr r"
    "prepare H fault r pj (list_items (get_none ''actions'' bundle)) 0 [] = (pfs, Inr ())"
    "write_all fault pfs 0 pj = (pj', Inr ())" "applied = map (applied_of H diff r) pfs"
    by (rule apply_bundle_ok)
  from prepare_facts [OF k(2) assms(2)] have "list_all (fits pj) pfs" "distinct (map pf_source pfs)"
    by (auto simp: list_all_iff dest: distinct_sources)
  from write_all_ok [OF k(3) this] prepare_replays [OF k(2)] k(1,4) Inr x show ?thesis by auto
next
  case (Inl e)
  note raised = apply_bundle_raises [OF assms(1) [unfolded Inl] assms(2)]
  then have "pj' = pj \<or> (\<exists>r pfs. resolve (pj_tree pj) root = Inr r \<and> list_all2 (\<lambda>action pf. replay_action H r pj action = Inr pf)
      (take (length pfs) (list_items (get_none ''actions'' bundle))) pfs \<and> left_behind fault pj pfs pj')"
    using undo_left_behind by metis
  moreover have "pj' = pj" if "undone fault"
    using raised restore_idle [OF that] undo_writes [OF that] by metis
  ultimately show ?thesis using Inl by simp
qed


section \<open>A proposal applies\<close>

definition ascii_digest :: "(string \<Rightarrow> string) \<Rightarrow> bool" where
  "ascii_digest H \<longleftrightarrow> (\<forall>m. list_all (\<lambda>c. (of_char c :: nat) < 128) (H m))"

lemma compare_digest_same: "ascii_digest H \<Longrightarrow> compare_digest (H m) (H m) = Inr True"
  by (simp add: compare_digest_def ascii_digest_def)

lemma replace_occurrence_again:
  assumes "replace_occurrence s old new occurrence = Inr (t, k)"
  shows "replace_occurrence s old new (Some k) = Inr (t, k)" "k \<noteq> 0"
  using assms by (auto simp: replace_occurrence_def Let_def split: option.splits)

text \<open>The effect of a list of proposed edits on a text: each replaces one place where its \<open>old\<close> text stands,
  namely the only one, or the one whose number it gives.\<close>

definition edit_place :: "json \<Rightarrow> string \<Rightarrow> string \<Rightarrow> nat \<Rightarrow> bool" where
  "edit_place edit old s i \<longleftrightarrow> old \<noteq> [] \<and> take (length old) (drop i s) = old
     \<and> (if get_none ''occurrence'' edit = JNull then count_sub old s = 1 \<and> seek old s 1 0 = Some i
        else \<exists>k. py_int (get_none ''occurrence'' edit) = Inr (int k) \<and> seek old s k 0 = Some i)"

fun edits_to :: "json list \<Rightarrow> string \<Rightarrow> string \<Rightarrow> bool" where
  "edits_to [] s t \<longleftrightarrow> t = s"
| "edits_to (edit # edits) s t \<longleftrightarrow> (\<exists>old new i. get_none ''old'' edit = JStr old \<and> get_none ''new'' edit = JStr new
     \<and> edit_place edit old s i \<and> edits_to edits (take i s @ new @ drop (i + length old) s) t)"

lemma find_sub_place: "find_sub old s = Some i \<Longrightarrow> take (length old) (drop i s) = old"
proof (induction s arbitrary: i)
  case (Cons c s)
  then show ?case by (auto simp: starts_with_def split: if_splits)
qed (simp split: if_splits)

lemma seek_place: "seek old s k from = Some i \<Longrightarrow> take (length old) (drop i s) = old"
proof (induction old s k "from" rule: seek.induct)
  case (2 old s k "from")
  then show ?case by (auto split: option.splits if_splits dest!: find_sub_place simp: add.commute)
qed simp

lemma replace_occurrence_place:
  assumes "replace_occurrence s old new occurrence = Inr (t, k)"
  shows "\<exists>i. old \<noteq> [] \<and> take (length old) (drop i s) = old \<and> seek old s (nat k) 0 = Some i
    \<and> t = take i s @ new @ drop (i + length old) s \<and> 1 \<le> k
    \<and> (case occurrence of None \<Rightarrow> count_sub old s = 1 \<and> k = 1 | Some k' \<Rightarrow> k = k')"
  using assms by (auto simp: replace_occurrence_def Let_def dest: seek_place find_sub_place split: option.splits)

lemma propose_edit_rewrites:
  assumes "propose_edit plan sources relative edit bytes s = Inr (row, bytes', t)"
  shows "\<exists>old new i. get_none ''old'' edit = JStr old \<and> get_none ''new'' edit = JStr new
     \<and> edit_place edit old s i \<and> t = take i s @ new @ drop (i + length old) s"
proof -
  from assms obtain old new occurrence k where e: "get_none ''old'' edit = JStr old" "get_none ''new'' edit = JStr new"
      and r: "replace_occurrence s old new occurrence = Inr (t, k)"
      and o: "(if get_none ''occurrence'' edit = JNull then occurrence = None
        else \<exists>n. py_int (get_none ''occurrence'' edit) = Inr n \<and> occurrence = Some n)"
    by (auto simp: propose_edit_def Let_def is_str_iff split: prod.splits if_splits)
  from replace_occurrence_place [OF r] obtain i where i: "old \<noteq> []" "take (length old) (drop i s) = old"
      "seek old s (nat k) 0 = Some i" "t = take i s @ new @ drop (i + length old) s" "1 \<le> k"
      "case occurrence of None \<Rightarrow> count_sub old s = 1 \<and> k = 1 | Some k' \<Rightarrow> k = k'" by blast
  have "edit_place edit old s i"
  proof (cases "get_none ''occurrence'' edit = JNull")
    case False
    with o i(6) have "py_int (get_none ''occurrence'' edit) = Inr (int (nat k))" using i(5) by auto
    with i(3) have "\<exists>k'. py_int (get_none ''occurrence'' edit) = Inr (int k') \<and> seek old s k' 0 = Some i" by blast
    with False i(1,2) show ?thesis unfolding edit_place_def by simp
  qed (use o i in \<open>auto simp: edit_place_def\<close>)
  with e i(4) show ?thesis by blast
qed

lemma propose_edits_rewrites:
  "propose_edits plan sources relative edits bytes s = Inr (rows, bytes', t) \<Longrightarrow> edits_to edits s t"
proof (induction plan sources relative edits bytes s arbitrary: rows rule: propose_edits.induct)
  case (2 plan sources relative edit edits bytes updated)
  then obtain row b u rows' where p: "propose_edit plan sources relative edit bytes updated = Inr (row, b, u)"
      "propose_edits plan sources relative edits b u = Inr (rows', bytes', t)"
    by (auto split: prod.splits)
  from "2.IH" [OF p(1) refl refl p(2)] propose_edit_rewrites [OF p(1)] show ?case by auto
qed simp

lemma replay_proposed_edit:
  assumes "propose_edit plan sources relative edit bytes s = Inr (row, bytes', t)"
  shows "replay_edit row s = Inr t"
proof -
  from assms obtain old new occurrence k codes where e: "get_none ''old'' edit = JStr old" "get_none ''new'' edit = JStr new"
      and r: "replace_occurrence s old new occurrence = Inr (t, k)"
      and row: "row = JObj [(''old'', JStr old), (''new'', JStr new), (''occurrence'', JInt k),
        (''diagnostic_codes'', JArr (map JStr codes)), (''reason'', JStr (text_field ''reason'' edit))]"
    by (auto simp: propose_edit_def Let_def is_str_iff split: prod.splits)
  note again = replace_occurrence_again [OF r]
  have "text_field ''old'' row = old" "text_field ''new'' row = new" unfolding row by (rule text_field_JStr; simp)+
  with again show ?thesis by (simp add: replay_edit_def row get_or_JObj py_or_def)
qed

lemma replay_proposed_edits:
  "propose_edits plan sources relative edits bytes s = Inr (rows, bytes', t) \<Longrightarrow>
    replay_edits rows s = Inr t \<and> length rows = length edits"
proof (induction plan sources relative edits bytes s arbitrary: rows rule: propose_edits.induct)
  case (2 plan sources relative edit edits bytes updated)
  then obtain row b u rows' where p: "propose_edit plan sources relative edit bytes updated = Inr (row, b, u)"
      "propose_edits plan sources relative edits b u = Inr (rows', bytes', t)" "rows = row # rows'"
    by (auto split: prod.splits)
  from "2.IH" [OF p(1) refl refl p(2)] p(3) replay_proposed_edit [OF p(1)] show ?case by simp
qed simp

lemma resolved_root:
  assumes "resolve fs root = Inr r" "link_free fs []" "plain_root root"
  shows "resolve fs r = Inr r" "list_all plain_part r" "link_free fs r"
proof -
  show p: "list_all plain_part r" using assms(1,3) unfolding plain_root_def by (rule resolve_plain)
  show l: "link_free fs r" using assms(1,2) unfolding resolve_def by (rule resolve_from_result)
  show "resolve fs r = Inr r" by (rule resolve_plain_path [OF l p])
qed

text \<open>A source that was found is found again by its name relative to the root.\<close>

lemma project_file_by_name:
  assumes "resolve_project_file fs r v = Inr s" "link_free fs []" "list_all plain_part r" "link_free fs r"
  shows "resolve_project_file fs r (posix (relative_to r s)) = Inr s" "list_all plain_part s" "is_within r s"
proof -
  have rr: "resolve fs r = Inr r" by (rule resolve_plain_path [OF assms(4,3)])
  note f = project_file_facts [OF assms(1,2)]
  from f(3) obtain b where b: "lookup_node fs s = Some (RegFile b)" by blast
  from assms(1) rr have q: "resolve fs (path_join r v) = Inr s"
    by (auto simp: resolve_project_file_def resolve_strict_def)
  have "list_all (\<lambda>p. p = ''..'' \<or> plain_part p) (path_join r v)"
    using assms(3) by (auto simp: path_join_def list_all_iff dest: in_path_parts)
  with q show pl: "list_all plain_part s" by (rule resolve_plain)
  from f(4) rr show w: "is_within r s" by simp
  then have "s = r @ relative_to r s" by (simp add: is_within_def relative_to_def) (metis append_take_drop_id)
  from project_file_again [OF rr this f(1) pl b] show "resolve_project_file fs r (posix (relative_to r s)) = Inr s" .
qed

text \<open>An action of the bundle announces the text that the edits of its entry of the proposal make of the file.\<close>

definition announced :: "(string \<Rightarrow> string) \<Rightarrow> string list \<Rightarrow> project \<Rightarrow> json \<Rightarrow> json \<Rightarrow> prepared_file \<Rightarrow> bool" where
  "announced H r pj raw action pf \<longleftrightarrow> is_dict action \<and> replay_action H r pj action = Inr pf
     \<and> source_key r pf = casefold (text_field ''path'' action)
     \<and> H (pf_after pf) = text_field ''after_sha256'' action \<and> posix (relative_to r (pf_source pf)) = text_field ''path'' action
     \<and> resolve_project_file (pj_tree pj) r (text_field ''path'' raw) = Inr (pf_source pf)
     \<and> (\<exists>old new. utf8_decode (pf_before pf) = Some old \<and> pf_after pf = utf8 new
         \<and> edits_to (list_items (get_none ''edits'' raw)) old new)"

lemma replay_proposed_file:
  assumes "propose_file H diff r pj plan sources raw bytes = Inr (action, bytes')" "link_free (pj_tree pj) []"
    and "list_all plain_part r" "link_free (pj_tree pj) r" "ascii_digest H"
  shows "\<exists>pf. announced H r pj raw action pf"
proof -
  from assms(1) obtain s before body rows updated b where s: "resolve_project_file (pj_tree pj) r (text_field ''path'' raw) = Inr s"
      and b: "read_bytes (pj_tree pj) s = Inr before" "utf8_decode before = Some body"
      and e: "propose_edits plan sources (posix (relative_to r s)) (list_items (get_none ''edits'' raw)) bytes body = Inr (rows, b, updated)"
      and ne: "list_items (get_none ''edits'' raw) \<noteq> []"
      and a: "action = proposed_action H diff pj s (posix (relative_to r s)) before body rows updated"
    by (auto simp: propose_file_def Let_def is_list_iff split: option.splits prod.splits)
  note replay = replay_proposed_edits [OF e]
  have rows: "rows \<noteq> []" using replay ne by (cases rows) auto
  have t: "text_field ''path'' action = posix (relative_to r s)" "text_field ''before_sha256'' action = H before"
      "text_field ''after_sha256'' action = H (utf8 updated)"
    unfolding a proposed_action_def by (rule text_field_JStr; simp)+
  have g: "get_none ''edits'' action = JArr rows" by (simp add: a proposed_action_def get_or_JObj)
  note found = project_file_by_name(1) [OF s assms(2-4)]
  have "is_dict action" by (simp add: a proposed_action_def)
  moreover have "edits_to (list_items (get_none ''edits'' raw)) body updated" using propose_edits_rewrites [OF e] .
  moreover let ?pf = "\<lparr>pf_source = s, pf_before = before, pf_after = utf8 updated, pf_mode = pj_mode pj s\<rparr>"
  have "replay_action H r pj action = Inr ?pf"
    unfolding replay_action_def Let_def t g found
    using b rows replay by (simp add: compare_digest_same [OF assms(5)])
  ultimately have "announced H r pj raw action ?pf"
    unfolding announced_def using s b t by (simp add: source_key_def) blast
  then show ?thesis by blast
qed


lemma replay_proposed_files:
  assumes "propose_files H diff r pj plan sources files bytes = Inr (actions, n)" "link_free (pj_tree pj) []"
    and "list_all plain_part r" "link_free (pj_tree pj) r" "ascii_digest H"
  shows "list_all2 (\<lambda>raw action. \<exists>pf. announced H r pj raw action pf) files actions"
  using assms
proof (induction H diff r pj plan sources files bytes arbitrary: actions rule: propose_files.induct)
  case (2 H diff r pj plan sources raw files bytes)
  then obtain action b rest where p: "propose_file H diff r pj plan sources raw bytes = Inr (action, b)"
      "propose_files H diff r pj plan sources files b = Inr (rest, n)" "actions = action # rest"
    by (auto split: prod.splits)
  from "2.IH" [OF p(1) refl p(2) "2.prems"(2-5)] replay_proposed_file [OF p(1) "2.prems"(2-5)] p(3) show ?case by simp
qed simp

lemma prepare_announced:
  assumes "list_all2 (\<lambda>raw action. \<exists>pf. announced H r pj raw action pf) files actions"
    and "distinct (map (\<lambda>a. casefold (text_field ''path'' a)) actions)"
    and "\<forall>a \<in> set actions. casefold (text_field ''path'' a) \<notin> set seen" and "\<forall>step. fault step = None"
  shows "\<exists>pfs. prepare H fault r pj actions i seen = (pfs, Inr ())
    \<and> list_all2 (\<lambda>(raw, action) pf. announced H r pj raw action pf) (zip files actions) pfs"
  using assms
proof (induction files actions arbitrary: i seen rule: list_all2_induct)
  case (Cons raw files action actions)
  then obtain pf where pf: "announced H r pj raw action pf" by blast
  then have k: "is_dict action" "replay_action H r pj action = Inr pf" "source_key r pf = casefold (text_field ''path'' action)"
    by (simp_all add: announced_def)
  have fresh: "\<forall>a \<in> set actions. casefold (text_field ''path'' a) \<notin> set (source_key r pf # seen)"
    using Cons.prems(1,2) k(3) by (auto simp: image_iff)
  have "distinct (map (\<lambda>a. casefold (text_field ''path'' a)) actions)" using Cons.prems(1) by simp
  from Cons.IH [OF this fresh Cons.prems(3)] obtain pfs
    where pfs: "prepare H fault r pj actions (Suc i) (source_key r pf # seen) = (pfs, Inr ())"
      "list_all2 (\<lambda>(raw, action) pf. announced H r pj raw action pf) (zip files actions) pfs" by blast
  have f: "fault (Backup i) = None" "fault (BackupMode i) = None" using Cons.prems(3) by simp_all
  have "source_key r pf \<notin> set seen" using Cons.prems(2) k(3) by simp
  with k(1,2) pfs(1) f have "prepare H fault r pj (action # actions) i seen = (pf # pfs, Inr ())"
    by (simp add: Let_def source_key_def)
  with pf pfs(2) show ?case by (intro exI [of _ "pf # pfs"]) simp
qed simp

lemma write_all_no_fault: "\<forall>step. fault step = None \<Longrightarrow> \<exists>pj'. write_all fault pfs i pj = (pj', Inr ())"
  by (induction pfs arbitrary: i pj) (simp_all add: Let_def)

text \<open>C31: A proposal that was accepted for the present files applies, provided that it names no file twice (up to
  letter case) and no write fails: every file it names holds the text its edits make of the old one,
  each edit replacing its \<open>old\<close> text at the only place where it stands or at the occurrence it
  names, in UTF-8, and the paths and digests recorded are those the bundle announced.\<close>

theorem proposal_applies:
  assumes "propose_patch H diff now root pj proposal plan = Inr bundle" "link_free (pj_tree pj) []" "plain_root root"
    and "ascii_digest H" "\<forall>step. fault step = None"
    and "distinct (map (\<lambda>a. casefold (text_field ''path'' a)) (list_items (get_none ''actions'' bundle)))"
  shows "\<exists>pj' applied tn r. apply_bundle H diff fault uuid now' root bundle pj = (pj', Inr (applied, tn))
    \<and> resolve (pj_tree pj) root = Inr r
    \<and> map ap_path applied = map (text_field ''path'') (list_items (get_none ''actions'' bundle))
    \<and> map ap_after_sha256 applied = map (text_field ''after_sha256'') (list_items (get_none ''actions'' bundle))
    \<and> list_all2 (\<lambda>raw a. \<exists>source before old new.
        resolve_project_file (pj_tree pj) r (text_field ''path'' raw) = Inr source
        \<and> posix (relative_to r source) = ap_path a
        \<and> lookup_node (pj_tree pj) source = Some (RegFile before) \<and> utf8_decode before = Some old
        \<and> edits_to (list_items (get_none ''edits'' raw)) old new
        \<and> lookup_node (pj_tree pj') source = Some (RegFile (utf8 new)) \<and> ap_after_sha256 a = H (utf8 new))
      (list_items (get_none ''files'' proposal)) applied"
proof -
  let ?files = "list_items (get_none ''files'' proposal)"
  from assms(1) obtain r sources actions n where r: "resolve (pj_tree pj) root = Inr r"
      and p: "propose_files H diff r pj plan sources ?files 0 = Inr (actions, n)"
      and len: "?files \<noteq> []" "length ?files \<le> max_patch_files"
      and b: "bundle = patch_bundle H now plan actions n"
    by (auto simp: propose_patch_def Let_def is_list_iff)
  note rr = resolved_root [OF r assms(2,3)]
  note replay = replay_proposed_files [OF p assms(2) rr(2,3) assms(4)]
  have g: "get_none ''actions'' bundle = JArr actions" "eq_int (get_none ''schema'' bundle) 1"
      "get_none ''kind'' bundle = JStr ''psmatrix.patch-bundle''"
    by (simp_all add: b patch_bundle_def bundle_material_def get_or_JObj eq_int_def)
  have d: "distinct (map (\<lambda>a. casefold (text_field ''path'' a)) actions)" using assms(6) by (simp add: g)
  from prepare_announced [OF replay d _ assms(5), of "[]" 0] obtain pfs
    where pfs: "prepare H fault r pj actions 0 [] = (pfs, Inr ())"
      "list_all2 (\<lambda>(raw, action) pf. announced H r pj raw action pf) (zip ?files actions) pfs" by auto
  obtain pj' where w: "write_all fault pfs 0 pj = (pj', Inr ())" using write_all_no_fault [OF assms(5)] by blast
  have same: "length ?files = length actions" using replay by (rule list_all2_lengthD)
  then have ne: "actions \<noteq> []" "length actions \<le> max_patch_files" using len by auto
  have k: "length pfs = length actions"
    "\<And>i. i < length actions \<Longrightarrow> announced H r pj (?files ! i) (actions ! i) (pfs ! i)"
    using pfs(2) same by (auto simp: list_all2_conv_all_nth)
  let ?applied = "map (applied_of H diff r) pfs"
  have "map ap_path ?applied = map (text_field ''path'') actions"
    "map ap_after_sha256 ?applied = map (text_field ''after_sha256'') actions"
    using k by (auto intro!: nth_equalityI simp: applied_of_def announced_def Let_def)
  moreover from prepare_facts [OF pfs(1) assms(2)] have f: "list_all (fits pj) pfs" "distinct (map pf_source pfs)"
    by (auto simp: list_all_iff dest: distinct_sources)
  from write_all_ok [OF w f] have at: "\<And>i. i < length pfs \<Longrightarrow> file_at pj' (pf_source (pfs ! i)) (pf_after (pfs ! i))" by simp
  have "list_all2 (\<lambda>raw a. \<exists>source before old new.
        resolve_project_file (pj_tree pj) r (text_field ''path'' raw) = Inr source
        \<and> posix (relative_to r source) = ap_path a \<and> file_at pj source before \<and> utf8_decode before = Some old
        \<and> edits_to (list_items (get_none ''edits'' raw)) old new
        \<and> file_at pj' source (utf8 new) \<and> ap_after_sha256 a = H (utf8 new)) ?files ?applied"
  proof (rule list_all2_all_nthI)
    fix i assume "i < length ?files"
    with same k(1) have i: "i < length actions" "i < length pfs" by simp_all
    from k(2) [OF i(1)] at [OF i(2)] f(1) i(2)
    show "\<exists>source before old new. resolve_project_file (pj_tree pj) r (text_field ''path'' (?files ! i)) = Inr source
        \<and> posix (relative_to r source) = ap_path (?applied ! i) \<and> file_at pj source before \<and> utf8_decode before = Some old
        \<and> edits_to (list_items (get_none ''edits'' (?files ! i))) old new
        \<and> file_at pj' source (utf8 new) \<and> ap_after_sha256 (?applied ! i) = H (utf8 new)"
      by (clarsimp simp: announced_def list_all_length fits_def applied_of_def Let_def) metis
  qed (simp add: same k(1))
  moreover obtain tn where "apply_bundle H diff fault uuid now' root bundle pj = (pj', Inr (?applied, tn))"
    using r pfs w g ne assms(5) by (simp add: apply_bundle_def Let_def)
  ultimately show ?thesis using r unfolding g(1) list_items.simps
    by (intro exI [of _ pj'] exI [of _ ?applied] exI [of _ tn] exI [of _ r] conjI)
qed

section \<open>Rolling back\<close>

text \<open>The tree after the files were written, one after the other\<close>

definition written_tree :: "prepared_file list \<Rightarrow> node \<Rightarrow> node" where
  "written_tree pfs t = fold (\<lambda>pf t. set_file t (pf_source pf) (pf_after pf)) pfs t"

lemma written_tree_simps [simp]:
  "written_tree [] t = t"
  "written_tree (pf # pfs) t = written_tree pfs (set_file t (pf_source pf) (pf_after pf))"
  by (simp_all add: written_tree_def)

lemma write_all_tree: "write_all fault pfs i pj = (pj', Inr u) \<Longrightarrow> pj_tree pj' = written_tree pfs (pj_tree pj)"
  by (induction pfs arbitrary: i pj) (auto simp: Let_def write_bytes_def set_mode_def split: option.splits)

definition holds :: "node \<Rightarrow> prepared_file \<Rightarrow> bool" where
  "holds t pf \<longleftrightarrow> lookup_node t (pf_source pf) = Some (RegFile (pf_before pf))"

lemma written_tree_other:
  assumes "list_all (holds t) pfs" "distinct (map pf_source pfs)" "lookup_node t q = Some (RegFile c)" "q \<notin> pf_source ` set pfs"
  shows "lookup_node (written_tree pfs t) q = Some (RegFile c)
    \<and> written_tree pfs (set_file t q d) = set_file (written_tree pfs t) q d \<and> same_shape t (written_tree pfs t)"
  using assms
proof (induction pfs arbitrary: t c)
  case (Cons pf pfs)
  let ?m = "set_file t (pf_source pf) (pf_after pf)"
  from Cons.prems have t: "holds t pf" "lookup_node ?m q = Some (RegFile c)" and q: "q \<noteq> pf_source pf" "q \<notin> pf_source ` set pfs"
    and d: "distinct (map pf_source pfs)" and m: "list_all (holds ?m) pfs"
    by (auto simp: holds_def list_all_iff image_iff intro: lookup_set_other)
  have "set_file (set_file t q d) (pf_source pf) (pf_after pf) = set_file ?m q d"
    using t(1) Cons.prems(3) q(1) by (intro set_file_commute) (auto simp: holds_def)
  moreover have "same_shape t ?m" using t(1) by (intro same_shape_set_file) (simp add: holds_def)
  ultimately show ?case using Cons.IH [OF m d t(2) q(2)] same_shape_trans by fastforce
qed simp

lemma rollback_files_ok:
  assumes "pj_tree pj = written_tree pfs t" "list_all (holds t) pfs" "distinct (map pf_source pfs)"
    and "\<forall>pf \<in> set pfs. map_of backups (posix (relative_to r (pf_source pf))) = Some (pf_before pf)"
    and "\<forall>pf \<in> set pfs. link_free t (pf_source pf) \<and> list_all plain_part (pf_source pf) \<and> is_within r (pf_source pf)"
    and "list_all plain_part r" "link_free t r"
  shows "\<exists>pj'. rollback_files r backups (map (\<lambda>pf. applied_row (applied_of H diff r pf)) pfs) pj
      = (pj', Inr (map (\<lambda>pf. ap_path (applied_of H diff r pf)) pfs))
    \<and> pj_tree pj' = t \<and> pj_mode pj' = (\<lambda>q. if q \<in> pf_source ` set pfs then temp_mode else pj_mode pj q)"
  using assms
proof (induction pfs arbitrary: pj)
  case Nil
  then show ?case by simp
next
  case (Cons pf pfs)
  let ?s = "pf_source pf" and ?name = "posix (relative_to r (pf_source pf))"
  let ?w = "write_bytes ?s (pf_before pf) pj"
  from Cons.prems have h: "holds t pf" "list_all (holds t) pfs" "distinct (map pf_source pfs)" "?s \<notin> pf_source ` set pfs"
    by auto
  then have l: "lookup_node t ?s = Some (RegFile (pf_before pf))" by (simp add: holds_def)
  have other: "lookup_node (written_tree pfs t) ?s = Some (RegFile (pf_before pf))"
      "written_tree pfs (set_file t ?s d) = set_file (written_tree pfs t) ?s d" "same_shape t (written_tree pfs t)" for d
    using written_tree_other [OF h(2,3) l h(4)] by blast+
  have tree: "pj_tree pj = set_file (written_tree pfs t) ?s (pf_after pf)"
    using Cons.prems(1) other(2) by simp
  have shape: "same_shape t (pj_tree pj)"
    using other(1,3) same_shape_set_file same_shape_trans unfolding tree by blast
  have at: "lookup_node (pj_tree pj) ?s = Some (RegFile (pf_after pf))" using other(1) unfolding tree by simp
  have s: "?s = r @ relative_to r ?s" "list_all plain_part ?s" "link_free (pj_tree pj) ?s" "link_free (pj_tree pj) r"
    using Cons.prems(5,7) link_free_shape [OF shape]
    by (auto simp: is_within_def relative_to_def) (metis append_take_drop_id)
  have found: "resolve_project_file (pj_tree pj) r ?name = Inr ?s"
    by (rule project_file_again [OF resolve_plain_path [OF s(4) Cons.prems(6)] s(1,3,2) at])
  have w: "pj_tree ?w = written_tree pfs t"
    using set_file_back [OF other(1)] by (simp add: write_bytes_def tree)
  from Cons.IH [OF w h(2,3)] Cons.prems(4-7) obtain pj' where
    "rollback_files r backups (map (\<lambda>pf. applied_row (applied_of H diff r pf)) pfs) ?w
       = (pj', Inr (map (\<lambda>pf. ap_path (applied_of H diff r pf)) pfs))"
    "pj_tree pj' = t" "pj_mode pj' = (\<lambda>q. if q \<in> pf_source ` set pfs then temp_mode else pj_mode ?w q)" by auto
  moreover have "text_field ''path'' (applied_row (applied_of H diff r pf)) = ?name"
    unfolding applied_row_def applied_of_def Let_def by (rule text_field_JStr) simp
  moreover have "is_dict (applied_row (applied_of H diff r pf))" by (simp add: applied_row_def)
  ultimately show ?case
    using found Cons.prems(4) by (auto simp: Let_def applied_of_def write_bytes_def)
qed


lemma rollback_ok:
  assumes "apply_bundle H diff fault uuid now root bundle pj = (pj1, Inr (applied, tn))" "link_free (pj_tree pj) []"
    and "plain_root root" "pj_tree pj2 = pj_tree pj1"
  shows "\<exists>pj3 tn' r pfs. rollback_transaction now' root tn pj2 = (pj3, Inr (map ap_path applied, tn')) \<and> pj_tree pj3 = pj_tree pj
    \<and> resolve (pj_tree pj) root = Inr r \<and> applied = map (applied_of H diff r) pfs
    \<and> pj_mode pj3 = (\<lambda>q. if q \<in> pf_source ` set pfs then temp_mode else pj_mode pj2 q)"
proof -
  let ?t = "pj_tree pj"
  from assms(1) obtain r pfs where k: "resolve ?t root = Inr r"
    "prepare H fault r pj (list_items (get_none ''actions'' bundle)) 0 [] = (pfs, Inr ())"
    "write_all fault pfs 0 pj = (pj1, Inr ())" "applied = map (applied_of H diff r) pfs"
    "tn_backups tn = map (\<lambda>pf. (posix (relative_to r (pf_source pf)), pf_before pf)) pfs"
    "tn_payload tn = transaction_payload (''rtx_'' @ uuid) r bundle now applied"
    by (rule apply_bundle_ok)
  note rr = resolved_root [OF k(1) assms(2,3)]
  from prepare_facts [OF k(2) assms(2)] have f: "list_all (fits pj) pfs" "distinct (map (source_key r) pfs)"
    and lf: "\<forall>pf \<in> set pfs. link_free ?t (pf_source pf)" by (auto simp: list_all_iff)
  then have h: "list_all (holds ?t) pfs" by (auto simp: list_all_iff fits_def holds_def)
  note d = distinct_sources [OF f(2)]
  have tree: "pj_tree pj2 = written_tree pfs ?t" using write_all_tree [OF k(3)] assms(4) by simp
  have shape: "same_shape ?t (pj_tree pj2)" using write_all_ok [OF k(3) f(1) d] assms(4) by simp
  have "distinct (map fst (tn_backups tn))"
    using f(2) unfolding k(5) by (auto simp: distinct_map comp_def inj_on_def source_key_def)
  then have backups: "\<forall>pf \<in> set pfs. map_of (tn_backups tn) (posix (relative_to r (pf_source pf))) = Some (pf_before pf)"
    by (auto simp: k(5))
  have src: "\<forall>pf \<in> set pfs. link_free ?t (pf_source pf) \<and> list_all plain_part (pf_source pf) \<and> is_within r (pf_source pf)"
  proof
    fix pf assume "pf \<in> set pfs"
    then obtain action where "replay_action H r pj action = Inr pf"
      using prepare_replays [OF k(2)] by (auto simp: list_all2_conv_all_nth in_set_conv_nth)
    from project_file_by_name(2,3) [OF replay_action_facts(4) [OF this assms(2)] assms(2) rr(2,3)] lf \<open>pf \<in> set pfs\<close>
    show "link_free ?t (pf_source pf) \<and> list_all plain_part (pf_source pf) \<and> is_within r (pf_source pf)" by blast
  qed
  from rollback_files_ok [OF tree h d backups src rr(2,3)] obtain pj3 where
    "rollback_files r (tn_backups tn) (map (\<lambda>pf. applied_row (applied_of H diff r pf)) pfs) pj2
      = (pj3, Inr (map (\<lambda>pf. ap_path (applied_of H diff r pf)) pfs))" "pj_tree pj3 = ?t"
    "pj_mode pj3 = (\<lambda>q. if q \<in> pf_source ` set pfs then temp_mode else pj_mode pj2 q)" by blast
  moreover have "resolve (pj_tree pj2) root = Inr r" using k(1) resolve_shape [OF shape] by simp
  moreover have "get_or ''files'' (JArr []) (tn_payload tn) = JArr (map applied_row applied)"
    by (simp add: k(6) transaction_payload_def get_or_JObj)
  ultimately show ?thesis
    using k(1,4) by (simp add: rollback_transaction_def comp_def) blast
qed

text \<open>C32: Rolling back restores the contents of every file of the project, but leaves the files it rewrote with
  mode 0600.\<close>

theorem rollback_restores_contents:
  assumes "apply_bundle H diff fault uuid now root bundle pj = (pj1, Inr (applied, tn))" "link_free (pj_tree pj) []"
    and "plain_root root"
  shows "\<exists>pj2 tn' r pfs. rollback_transaction now' root tn pj1 = (pj2, Inr (map ap_path applied, tn'))
    \<and> pj_tree pj2 = pj_tree pj
    \<and> resolve (pj_tree pj) root = Inr r \<and> applied = map (applied_of H diff r) pfs
    \<and> (\<forall>pf \<in> set pfs. pj_mode pj2 (pf_source pf) = temp_mode)"
  using rollback_ok [OF assms refl, of now'] by fastforce

section \<open>The validated application\<close>

lemma judge_accepted:
  assumes "vd_accepted (judge fs root statuses baseline (code, report, out, err))"
  shows "code = 0" "py_str (get_none ''status'' report) \<in> set statuses" "missing_targets fs root report baseline = Inr []"
  using assms by (auto simp: judge_def split: sum.splits)

text \<open>The run of the tests that accepts a repair: its arguments passed the checks, the child was called with
  them and wrote a report, succeeded, reports an accepted status and covers the baseline.\<close>

definition passing_run :: "repair_env \<Rightarrow> string list \<Rightarrow> json \<Rightarrow> string list \<Rightarrow> transaction \<Rightarrow> project \<Rightarrow> bool" where
  "passing_run E root bundle argv tn pj \<longleftrightarrow> (\<exists>args bytes text report out err.
     validate_test_argv (re_parse E) (pj_tree pj) root argv (re_home E) = Inr args
     \<and> snd (re_child E (validation_command (re_home E) args (transaction_folder E tn @ [''validation-report.json''])) pj)
         = Inr (0, Some bytes, out, err)
     \<and> utf8_decode bytes = Some text \<and> loads text = Some report \<and> is_dict report
     \<and> py_str (get_none ''status'' report) \<in> set (re_statuses E)
     \<and> missing_targets (pj_tree pj) root report (get_or ''baseline_targets'' (JArr []) bundle) = Inr [])"

text \<open>The tests run on a copy of the project: the child changes no file of it.\<close>

definition reads_only :: "child \<Rightarrow> bool" where
  "reads_only child \<longleftrightarrow> (\<forall>args pj. fst (child args pj) = pj)"

lemma keeps_reading: "keeps view (\<lambda>s. act_res (f s) s)"
  by (simp add: keeps_def)

lemma keeps_saving: "keeps rs_project (\<lambda>s. (s\<lparr>rs_session := x\<rparr>, Inr ()))"
  by (simp add: keeps_def)

lemma validation_run_keeps:
  assumes "reads_only (re_child E)"
  shows "fst (validation_run E root argv tn pj) = pj"
proof -
  have "keeps (\<lambda>pj. pj) (re_child E args)" for args using assms by (simp add: keeps_def reads_only_def)
  then have "keeps (\<lambda>pj. pj) (validation_run E root argv tn)"
    unfolding validation_run_def run_validation_def by (intro frame_intros keeps_reading)
  then show ?thesis by (simp add: keeps_def)
qed

lemma validate_facts:
  assumes "validate (validation_run E root argv tn) root (re_statuses E) (get_or ''baseline_targets'' (JArr []) bundle) pj
      = (pj', Inr v)"
    and "reads_only (re_child E)"
  shows "pj' = pj" "vd_accepted v \<Longrightarrow> passing_run E root bundle argv tn pj"
proof -
  obtain pj1 r where r: "validation_run E root argv tn pj = (pj1, r)" by fastforce
  with validation_run_keeps [OF assms(2), of root argv tn pj] have p: "pj1 = pj" by simp
  with r assms(1) show "pj' = pj" by (auto simp: validate_def split: sum.splits)
  assume "vd_accepted v"
  with r assms(1) obtain code report out err where c: "r = Inr (code, report, out, err)"
      and j: "vd_accepted (judge (pj_tree pj1) root (re_statuses E) (get_or ''baseline_targets'' (JArr []) bundle) (code, report, out, err))"
    by (cases r) (auto simp: validate_def)
  from r c obtain args pj2 x where x: "validate_test_argv (re_parse E) (pj_tree pj) root argv (re_home E) = Inr args"
      "re_child E (validation_command (re_home E) args (transaction_folder E tn @ [''validation-report.json''])) pj = (pj2, Inr x)"
      "read_validation x = Inr (code, report, out, err)"
    unfolding validation_run_def run_validation_def by (auto simp: act_bind_result)
  then obtain bytes t where "x = (code, Some bytes, out, err)" "utf8_decode bytes = Some t" "loads t = Some report" "is_dict report"
    by (cases x) (auto simp: read_validation_def split: option.splits if_splits)
  with x judge_accepted [OF j] p show "passing_run E root bundle argv tn pj"
    unfolding passing_run_def by (metis snd_conv)
qed

lemma act_on_result:
  "act_on get put m s = (s', Inr x) \<longleftrightarrow> (\<exists>t. m (get s) = (t, Inr x) \<and> s' = put t s)"
  by (auto simp: act_on_def split: prod.splits)

lemma close_attempt_ok:
  assumes "close_attempt E bundle argv payload n files tn v restored s = (s', Inr answer)"
  shows "rs_project s' = rs_project s" "get_none ''accepted'' answer = JBool (vd_accepted v)"
    "\<exists>session attempt. rs_session s' = Some session \<and> record_attempt E payload v attempt = Inr session"
  using assms by (auto simp: close_attempt_def act_bind_result Let_def get_or_JObj)

text \<open>The stages of an attempt: it ends before anything is applied, with a failed application, or after the
  validation, which never raises.\<close>

lemma attempt_stages:
  assumes "apply_and_validate E root bundle argv s = (s', out)"
  shows "(rs_project s' = rs_project s \<and> (\<exists>e. out = Inl e))
    \<or> (\<exists>r. resolve (pj_tree (rs_project s)) root = Inr r \<and>
        ((\<exists>e. apply_bundle (re_H E) (re_diff E) (re_fault E) (re_uuid E) (re_now E) r bundle (rs_project s) = (rs_project s', Inl e)
            \<and> out = Inl e)
       \<or> (\<exists>payload n pj1 files tn pj2 v pj3 restored.
            apply_bundle (re_H E) (re_diff E) (re_fault E) (re_uuid E) (re_now E) r bundle (rs_project s) = (pj1, Inr (files, tn))
            \<and> validate (validation_run E r argv tn) r (re_statuses E) (get_or ''baseline_targets'' (JArr []) bundle) pj1 = (pj2, Inr v)
            \<and> settle E r tn v pj2 = (pj3, restored)
            \<and> (case restored of Inl e \<Rightarrow> rs_project s' = pj3 \<and> out = Inl e
               | Inr names \<Rightarrow> close_attempt E bundle argv payload n files tn v names (s\<lparr>rs_project := pj3\<rparr>) = (s', out)))))"
proof (cases "resolve (pj_tree (rs_project s)) root")
  case (Inr r)
  show ?thesis
  proof (cases "check_bundle (re_H E) bundle argv")
    case ok: (Inr u)
    show ?thesis
    proof (cases "open_session E (rs_session s)")
      case session: (Inr p)
      obtain payload n where p: "p = (payload, n)" by (cases p)
      obtain pj1 a where a: "apply_bundle (re_H E) (re_diff E) (re_fault E) (re_uuid E) (re_now E) r bundle (rs_project s) = (pj1, a)"
        by fastforce
      show ?thesis
      proof (cases a)
        case (Inl e)
        with assms \<open>resolve _ _ = Inr r\<close> ok session p a show ?thesis
          by (auto simp: apply_and_validate_def act_bind_def act_on_def)
      next
        case applied: (Inr x)
        obtain files tn where x: "x = (files, tn)" by (cases x)
        obtain pj2 v where v: "validate (validation_run E r argv tn) r (re_statuses E)
            (get_or ''baseline_targets'' (JArr []) bundle) pj1 = (pj2, Inr v)"
          by (cases "validation_run E r argv tn pj1"; cases "snd (validation_run E r argv tn pj1)") (auto simp: validate_def)
        obtain pj3 restored where st: "settle E r tn v pj2 = (pj3, restored)" by fastforce
        from assms \<open>resolve _ _ = Inr r\<close> ok session p a applied x v st
        have "case restored of Inl e \<Rightarrow> rs_project s' = pj3 \<and> out = Inl e
            | Inr names \<Rightarrow> close_attempt E bundle argv payload n files tn v names (s\<lparr>rs_project := pj3\<rparr>) = (s', out)"
          by (auto simp: apply_and_validate_def act_bind_def act_on_def split: sum.splits)
        with Inr a applied x v st show ?thesis by blast
      qed
    qed (use assms Inr ok in \<open>auto simp: apply_and_validate_def act_bind_def\<close>)
  qed (use assms Inr in \<open>auto simp: apply_and_validate_def act_bind_def\<close>)
qed (use assms in \<open>auto simp: apply_and_validate_def act_bind_def\<close>)

lemma close_attempt_project: "rs_project (fst (close_attempt E bundle argv payload n files tn v restored s)) = rs_project s"
proof -
  have "keeps rs_project (close_attempt E bundle argv payload n files tn v restored)"
    unfolding close_attempt_def Let_def by (intro frame_intros keeps_saving)
  then show ?thesis by (simp add: keeps_def)
qed

text \<open>C33: Whether an attempt returns or raises, it ends in one of three ways: no file has changed its contents, and
  an answer says that nothing was accepted; or the bundle is applied and a run of its tests on the
  patched project passed (its arguments were checked, the child succeeded, and its report has an
  accepted status and covers the baseline), and an answer says that it was accepted; or the application
  itself raised while some write that restores a file failed, which \<open>apply_all_or_nothing\<close> describes. The
  child that runs the tests changes no file of the project, as it works on copies.\<close>

theorem repair_validated_or_undone:
  assumes "apply_and_validate E root bundle argv s = (s', out)" "link_free (pj_tree (rs_project s)) []" "plain_root root"
    and "reads_only (re_child E)"
  shows "(pj_tree (rs_project s') = pj_tree (rs_project s)
        \<and> (case out of Inr answer \<Rightarrow> get_none ''accepted'' answer = JBool False | Inl e \<Rightarrow> True))
    \<or> (\<exists>r files tn. apply_bundle (re_H E) (re_diff E) (re_fault E) (re_uuid E) (re_now E) r bundle (rs_project s)
          = (rs_project s', Inr (files, tn)) \<and> passing_run E r bundle argv tn (rs_project s')
        \<and> (case out of Inr answer \<Rightarrow> get_none ''accepted'' answer = JBool True | Inl e \<Rightarrow> True))
    \<or> (\<exists>r e. apply_bundle (re_H E) (re_diff E) (re_fault E) (re_uuid E) (re_now E) r bundle (rs_project s)
          = (rs_project s', Inl e) \<and> out = Inl e \<and> \<not> undone (re_fault E))"
  using attempt_stages [OF assms(1)]
proof (elim disjE exE conjE)
  fix r e
  assume r: "resolve (pj_tree (rs_project s)) root = Inr r"
    and a: "apply_bundle (re_H E) (re_diff E) (re_fault E) (re_uuid E) (re_now E) r bundle (rs_project s) = (rs_project s', Inl e)"
    and o: "out = Inl e"
  show ?thesis
  proof (cases "undone (re_fault E)")
    case True
    have "rs_project s' = rs_project s"
      using apply_bundle_raises [OF a assms(2)] restore_idle [OF True] undo_writes [OF True] by metis
    then show ?thesis using o by simp
  qed (use a o in blast)
next
  fix r payload n pj1 files tn pj2 v pj3 restored
  assume k: "resolve (pj_tree (rs_project s)) root = Inr r"
    "apply_bundle (re_H E) (re_diff E) (re_fault E) (re_uuid E) (re_now E) r bundle (rs_project s) = (pj1, Inr (files, tn))"
    "validate (validation_run E r argv tn) r (re_statuses E) (get_or ''baseline_targets'' (JArr []) bundle) pj1 = (pj2, Inr v)"
    "settle E r tn v pj2 = (pj3, restored)"
    "case restored of Inl e \<Rightarrow> rs_project s' = pj3 \<and> out = Inl e
      | Inr names \<Rightarrow> close_attempt E bundle argv payload n files tn v names (s\<lparr>rs_project := pj3\<rparr>) = (s', out)"
  note vf = validate_facts [OF k(3) assms(4)]
  have r: "plain_root r" using resolved_root(2) [OF k(1) assms(2,3)] by (auto simp: plain_root_def list_all_iff)
  have p3: "rs_project s' = pj3"
    using k(5) close_attempt_project [where s = "s\<lparr>rs_project := pj3\<rparr>"]
    by (cases restored) (auto simp: prod_eq_iff)
  have accepted: "case out of Inr answer \<Rightarrow> get_none ''accepted'' answer = JBool (vd_accepted v) | Inl e \<Rightarrow> True"
    using k(5) close_attempt_ok(2) by (auto split: sum.splits)
  show ?thesis
  proof (cases "vd_accepted v")
    case True
    with k(4) have "pj3 = pj2" by (simp add: settle_def)
    with True vf p3 k(2) have "apply_bundle (re_H E) (re_diff E) (re_fault E) (re_uuid E) (re_now E) r bundle (rs_project s)
        = (rs_project s', Inr (files, tn)) \<and> passing_run E r bundle argv tn (rs_project s')" by simp
    moreover have "case out of Inr answer \<Rightarrow> get_none ''accepted'' answer = JBool True | Inl e \<Rightarrow> True"
      using accepted True by (simp split: sum.splits)
    ultimately show ?thesis by blast
  next
    case False
    from rollback_ok [OF k(2) assms(2) r refl, of "re_now E"] vf(1) k(4) False
    have "pj_tree pj3 = pj_tree (rs_project s)" by (auto simp: settle_def act_bind_def)
    moreover have "case out of Inr answer \<Rightarrow> get_none ''accepted'' answer = JBool False | Inl e \<Rightarrow> True"
      using accepted False by (simp split: sum.splits)
    ultimately show ?thesis using p3 by simp
  qed
qed auto

section \<open>Sessions\<close>

text \<open>Repeated attempts on one session file\<close>

inductive repair_run :: "repair_state \<Rightarrow> repair_state \<Rightarrow> bool" where
  repair_start: "repair_run s s"
| repair_step: "repair_run s s' \<Longrightarrow> repair_run s (fst (apply_and_validate E root bundle argv s'))"

definition session_ok :: "json option \<Rightarrow> bool" where
  "session_ok session \<longleftrightarrow> (\<forall>payload. session = Some payload \<longrightarrow> (\<exists>attempts maximum.
     get_or ''attempts'' (JArr []) payload = JArr attempts \<and> jget ''max_attempts'' payload = Some (JInt maximum)
     \<and> int (length attempts) \<le> maximum))"


lemma bind_kept:
  assumes "keeps view m" "\<And>s'. view s' = view s \<Longrightarrow> Q s'"
    and "\<And>s' x. m s = (s', Inr x) \<Longrightarrow> view s' = view s \<Longrightarrow> Q (fst (k x s'))"
  shows "Q (fst (act_bind m k s))"
proof -
  obtain s' r where m: "m s = (s', r)" by (cases "m s")
  with assms(1) have v: "view s' = view s" by (rule keepsD)
  show ?thesis
  proof (cases r)
    case (Inl e)
    with m v assms(2) show ?thesis by (simp add: act_bind_Inl)
  next
    case (Inr x)
    with m v assms(3) show ?thesis by (simp add: act_bind_Inr)
  qed
qed

lemma keeps_session: "keeps rs_session (on_project m)"
  by (rule keeps_on) simp

lemma recording_session:
  "rs_session (fst (act_bind (act_res r) (\<lambda>session. act_bind (\<lambda>s. (s\<lparr>rs_session := Some session\<rparr>, Inr ())) (\<lambda>_.
      act_bind (act_res (f session)) (\<lambda>x. act_return (g session x)))) (s :: repair_state)))
    = (case r of Inl e \<Rightarrow> rs_session s | Inr session \<Rightarrow> Some session)"
proof (cases r)
  case (Inr session)
  then show ?thesis by (cases "f session") (simp_all add: act_bind_def)
qed (simp add: act_bind_def)

text \<open>An attempt leaves the session file alone or adds one attempt to the session that it opened.\<close>

definition session_grown :: "json option \<Rightarrow> json option \<Rightarrow> bool" where
  "session_grown session session' \<longleftrightarrow> session' = session \<or> (\<exists>E payload n v attempt recorded.
     open_session E session = Inr (payload, n) \<and> record_attempt E payload v attempt = Inr recorded
     \<and> session' = Some recorded)"

lemma close_attempt_session:
  assumes "open_session E session = Inr (payload, n)" "rs_session s = session"
  shows "session_grown session (rs_session (fst (close_attempt E b argv payload n files tn v restored s)))"
  unfolding close_attempt_def Let_def
proof (rule bind_kept [where view = rs_session])
  fix s' :: repair_state and summary
  assume "rs_session s' = rs_session s"
  with assms show "session_grown session (rs_session (fst (act_bind (act_res (record_attempt E payload v
      (attempt_row (re_H E) (re_now E) n b argv files tn v summary restored))) (\<lambda>session.
      act_bind (\<lambda>s. (s\<lparr>rs_session := Some session\<rparr>, Inr ())) (\<lambda>_. act_bind (act_res (jitem ''session_id'' session)) (\<lambda>session_id.
        act_return (JObj [(''schema'', JInt 1), (''session_id'', session_id),
          (''attempt'', attempt_row (re_H E) (re_now E) n b argv files tn v summary restored),
          (''report'', vd_report v), (''accepted'', JBool (vd_accepted v)),
          (''transaction_path'', JStr (path_text (transaction_folder E tn)))])))) s')))"
    unfolding recording_session session_grown_def by (auto split: sum.splits)
qed (use assms in \<open>auto simp: keeps_def session_grown_def\<close>)

lemma attempt_session: "session_grown (rs_session s) (rs_session (fst (apply_and_validate E root b argv s)))"
proof -
  have same: "rs_session s' = rs_session s \<Longrightarrow> session_grown (rs_session s) (rs_session s')" for s'
    by (simp add: session_grown_def)
  show ?thesis
    unfolding apply_and_validate_def case_prod_beta
    by (intro bind_kept [where view = rs_session and Q = "\<lambda>s'. session_grown (rs_session s) (rs_session s')"]
        keeps_session keeps_reading keeps_return close_attempt_session same) auto
qed

lemma session_ok_recorded:
  assumes "session_ok session" "open_session E session = Inr (payload, n)" "record_attempt E payload v attempt = Inr session'"
  shows "session_ok (Some session')"
proof -
  have "\<exists>attempts maximum. get_or ''attempts'' (JArr []) payload = JArr attempts
    \<and> jget ''max_attempts'' payload = Some (JInt maximum) \<and> int (length attempts) < maximum"
  proof (cases session)
    case None
    with assms(2) show ?thesis by (auto simp: open_session_def session_payload_def get_or_def)
  next
    case (Some p)
    with assms(2) have "payload = p" by (auto simp: open_session_def session_payload_def split: if_splits)
    with Some assms(1) obtain attempts maximum where a: "get_or ''attempts'' (JArr []) payload = JArr attempts"
        "jget ''max_attempts'' payload = Some (JInt maximum)" unfolding session_ok_def by blast
    with assms(2) show ?thesis by (auto simp: open_session_def get_or_def)
  qed
  with assms(3) show ?thesis by (auto simp: session_ok_def record_attempt_def get_or_def)
qed

text \<open>The attempts recorded in a session never exceed its maximum, whatever bundles are tried.\<close>

lemma attempts_bounded:
  assumes "repair_run s s'" "session_ok (rs_session s)"
  shows "session_ok (rs_session s')"
  using assms
proof (induction rule: repair_run.induct)
  case (repair_step s s' E root b argv)
  then have "session_ok (rs_session s')" by simp
  with attempt_session [of s' E root b argv] session_ok_recorded show ?case
    unfolding session_grown_def by metis
qed


section \<open>A repair\<close>

definition demo_digest :: "string \<Rightarrow> string" where
  "demo_digest m = (case m of [] \<Rightarrow> [] | c # _ \<Rightarrow> if (of_char c :: nat) < 128 then [c] else [])"

definition demo_project :: project where
  "demo_project = \<lparr>pj_tree = Folder [(''p'', Folder [(''a.ps1'', RegFile ''bad''), (''b.ps1'', RegFile ''ok'')])], pj_mode = (\<lambda>p. 420)\<rparr>"

definition demo_proposal :: json where
  "demo_proposal = JObj [(''files'', JArr [JObj [(''path'', JStr ''a.ps1''),
     (''edits'', JArr [JObj [(''old'', JStr ''bad''), (''new'', JStr ''good'')]])]])]"

definition demo_plan :: json where
  "demo_plan = JObj [(''plan_id'', JStr ''rpl''), (''report_sha256'', JStr ''r''),
     (''validation_argv_sha256'', JStr (validation_argv_sha256 demo_digest [''test'']))]"

definition demo_bundle :: json where
  "demo_bundle = (case propose_patch demo_digest (\<lambda>r a b. r) ''t'' [''p''] demo_project demo_proposal (Some demo_plan) of
     Inr b \<Rightarrow> b | Inl e \<Rightarrow> JNull)"

lemma demo_proposed: "propose_patch demo_digest (\<lambda>r a b. r) ''t'' [''p''] demo_project demo_proposal (Some demo_plan) = Inr demo_bundle"
proof -
  have "(case propose_patch demo_digest (\<lambda>r a b. r) ''t'' [''p''] demo_project demo_proposal (Some demo_plan) of
     Inr b \<Rightarrow> True | Inl e \<Rightarrow> False)" by code_simp
  then show ?thesis unfolding demo_bundle_def by (auto split: sum.splits)
qed


lemma demo_ascii: "ascii_digest demo_digest"
  by (simp add: ascii_digest_def demo_digest_def split: list.split)

lemma demo_link_free: "link_free (pj_tree demo_project) []"
  by (simp add: link_free_def demo_project_def)

lemma demo_root: "plain_root [''p'']"
  by (simp add: plain_root_def plain_part_def)

lemma demo_actions: "map (text_field ''path'') (list_items (get_none ''actions'' demo_bundle)) = [''a.ps1'']"
  by code_simp

definition disk_full :: faults where
  "disk_full step = (if step = WriteMode 0 then Some (Exn OSError ''No space left on device'') else None)"

lemma demo_refused: "\<exists>pj' e. apply_bundle demo_digest (\<lambda>r a b. r) disk_full ''u'' ''t'' [''p''] demo_bundle demo_project = (pj', Inl e)"
proof -
  have "(case apply_bundle demo_digest (\<lambda>r a b. r) disk_full ''u'' ''t'' [''p''] demo_bundle demo_project of
     (pj', Inl e) \<Rightarrow> True | (pj', Inr x) \<Rightarrow> False)" by code_simp
  then show ?thesis by (auto split: prod.splits sum.splits)
qed

lemma demo_applied: "\<exists>pj' applied tn. apply_bundle demo_digest (\<lambda>r a b. r) (\<lambda>step. None) ''u'' ''t'' [''p''] demo_bundle demo_project
    = (pj', Inr (applied, tn)) \<and> map ap_path applied = [''a.ps1'']
    \<and> lookup_node (pj_tree pj') [''p'', ''a.ps1''] = Some (RegFile ''good'')"
proof -
  have "(case apply_bundle demo_digest (\<lambda>r a b. r) (\<lambda>step. None) ''u'' ''t'' [''p''] demo_bundle demo_project of
     (pj', Inr (applied, tn)) \<Rightarrow> map ap_path applied = [''a.ps1''] \<and> lookup_node (pj_tree pj') [''p'', ''a.ps1''] = Some (RegFile ''good'')
   | (pj', Inl e) \<Rightarrow> False)" by code_simp
  then show ?thesis by (auto split: prod.splits sum.splits)
qed

text \<open>A full disk: the second write fails, and so does the write that restores the first file.\<close>

definition twin_project :: project where
  "twin_project = \<lparr>pj_tree = Folder [(''p'', Folder [(''a.ps1'', RegFile ''bad''), (''b.ps1'', RegFile ''bad'')])], pj_mode = (\<lambda>p. 420)\<rparr>"

definition twin_action :: "string \<Rightarrow> json" where
  "twin_action name = JObj [(''path'', JStr name), (''before_sha256'', JStr ''b''), (''after_sha256'', JStr ''g''),
     (''edits'', JArr [JObj [(''old'', JStr ''bad''), (''new'', JStr ''good''), (''occurrence'', JInt 1)]])]"

definition twin_bundle :: json where
  "twin_bundle = JObj [(''schema'', JInt 1), (''kind'', JStr ''psmatrix.patch-bundle''),
     (''actions'', JArr [twin_action ''a.ps1'', twin_action ''b.ps1''])]"

definition disk_stays_full :: faults where
  "disk_stays_full step = (if step \<in> {Write 1, Restore 0} then Some (Exn OSError ''No space left on device'') else None)"

lemma half_patched_project:
  "(case apply_bundle demo_digest (\<lambda>r a b. r) disk_stays_full ''u'' ''t'' [''p''] twin_bundle twin_project of
     (pj', Inl e) \<Rightarrow> lookup_node (pj_tree pj') [''p'', ''a.ps1''] = Some (RegFile ''good'')
       \<and> lookup_node (pj_tree pj') [''p'', ''b.ps1''] = Some (RegFile ''bad'')
   | (pj', Inr x) \<Rightarrow> False)"
  by code_simp

theorem apply_all_or_nothing_witness:
  "\<exists>e. apply_bundle demo_digest (\<lambda>r a b. r) disk_full ''u'' ''t'' [''p''] demo_bundle demo_project = (demo_project, Inl e)"
proof -
  obtain pj' e where a: "apply_bundle demo_digest (\<lambda>r a b. r) disk_full ''u'' ''t'' [''p''] demo_bundle demo_project = (pj', Inl e)"
    using demo_refused by blast
  have "undone disk_full" by (simp add: undone_def disk_full_def)
  with apply_all_or_nothing [OF a demo_link_free] a show ?thesis by simp
qed

text \<open>A proposal that names a file twice is accepted, but the bundle it makes is refused.\<close>

definition twice_proposal :: json where
  "twice_proposal = JObj [(''files'', JArr (replicate 2 (JObj [(''path'', JStr ''a.ps1''),
     (''edits'', JArr [JObj [(''old'', JStr ''bad''), (''new'', JStr ''good'')]])])))]"

lemma duplicate_path_proposed_but_refused:
  "(case propose_patch demo_digest (\<lambda>r a b. r) ''t'' [''p''] demo_project twice_proposal None of
     Inr bundle \<Rightarrow> snd (apply_bundle demo_digest (\<lambda>r a b. r) (\<lambda>step. None) ''u'' ''t'' [''p''] bundle demo_project)
       = repair_error ''Duplicate patch action for source: a.ps1''
   | Inl e \<Rightarrow> False)"
  by code_simp

theorem proposal_applies_witness:
  "\<exists>pj' applied tn. apply_bundle demo_digest (\<lambda>r a b. r) (\<lambda>step. None) ''u'' ''t'' [''p''] demo_bundle demo_project
     = (pj', Inr (applied, tn)) \<and> map ap_path applied = [''a.ps1'']
    \<and> lookup_node (pj_tree pj') [''p'', ''a.ps1''] = Some (RegFile ''good'')"
proof -
  have "distinct (map (\<lambda>a. casefold (text_field ''path'' a)) (list_items (get_none ''actions'' demo_bundle)))" by code_simp
  from proposal_applies [OF demo_proposed demo_link_free demo_root demo_ascii _ this, of "\<lambda>step. None" "''u''" "''t''"]
  obtain pj' applied tn where a: "apply_bundle demo_digest (\<lambda>r a b. r) (\<lambda>step. None) ''u'' ''t'' [''p''] demo_bundle demo_project
      = (pj', Inr (applied, tn))"
    "map ap_path applied = map (text_field ''path'') (list_items (get_none ''actions'' demo_bundle))" by fast
  with demo_actions demo_applied show ?thesis by auto
qed

theorem rollback_restores_contents_witness:
  "\<exists>pj1 applied tn pj2 tn'. apply_bundle demo_digest (\<lambda>r a b. r) (\<lambda>step. None) ''u'' ''t'' [''p''] demo_bundle demo_project
     = (pj1, Inr (applied, tn)) \<and> rollback_transaction ''t'' [''p''] tn pj1 = (pj2, Inr ([''a.ps1''], tn'))
     \<and> pj_tree pj1 \<noteq> pj_tree demo_project \<and> pj_tree pj2 = pj_tree demo_project"
proof -
  obtain pj1 applied tn where a: "apply_bundle demo_digest (\<lambda>r a b. r) (\<lambda>step. None) ''u'' ''t'' [''p''] demo_bundle demo_project
      = (pj1, Inr (applied, tn))" "map ap_path applied = [''a.ps1'']"
      "lookup_node (pj_tree pj1) [''p'', ''a.ps1''] = Some (RegFile ''good'')"
    using demo_applied by (elim exE conjE) (rule that)
  have "pj_tree pj1 \<noteq> pj_tree demo_project" using a(3) by (auto simp: demo_project_def)
  with rollback_restores_contents [OF a(1) demo_link_free demo_root, of "''t''"] a(1,2) show ?thesis by auto
qed

definition demo_parse :: arg_parser where
  "demo_parse args = Inr \<lparr>ta_command = ''test'', ta_install_missing = False, ta_network = ''none'', ta_sandbox = ''auto'',
     ta_paths = [], ta_outputs = replicate 6 None\<rparr>"

definition demo_child :: "int \<Rightarrow> child" where
  "demo_child code args pj = (pj, Inr (code, Some (utf8 (dumps (JObj [(''status'', JStr ''PASS'')]))), [], []))"

definition demo_env :: "int \<Rightarrow> repair_env" where
  "demo_env code = \<lparr>re_H = demo_digest, re_diff = (\<lambda>r a b. r), re_fault = (\<lambda>step. None), re_uuid = ''u'', re_now = ''t'',
     re_parse = demo_parse, re_child = demo_child code, re_statuses = [''PASS''], re_max_attempts = 3, re_home = [''h'']\<rparr>"

definition demo_state :: repair_state where
  "demo_state = \<lparr>rs_project = demo_project, rs_session = None\<rparr>"

lemma demo_attempt:
  "\<exists>s' answer. apply_and_validate (demo_env 1) [''p''] demo_bundle [''test''] demo_state = (s', Inr answer)
     \<and> get_none ''accepted'' answer = JBool False \<and> rs_session s' \<noteq> None"
proof -
  have "(case apply_and_validate (demo_env 1) [''p''] demo_bundle [''test''] demo_state of
      (s', Inr answer) \<Rightarrow> get_none ''accepted'' answer = JBool False \<and> rs_session s' \<noteq> None | (s', Inl e) \<Rightarrow> False)" by code_simp
  then show ?thesis by (auto split: prod.splits sum.splits)
qed

theorem repair_validated_or_undone_witness:
  "\<exists>s' answer. apply_and_validate (demo_env 1) [''p''] demo_bundle [''test''] demo_state = (s', Inr answer)
     \<and> pj_tree (rs_project s') = pj_tree demo_project"
proof -
  obtain s' answer where a: "apply_and_validate (demo_env 1) [''p''] demo_bundle [''test''] demo_state = (s', Inr answer)"
      "get_none ''accepted'' answer = JBool False" using demo_attempt by blast
  have "link_free (pj_tree (rs_project demo_state)) []" using demo_link_free by (simp add: demo_state_def)
  moreover have "reads_only (re_child (demo_env 1))" by (simp add: reads_only_def demo_env_def demo_child_def)
  ultimately have "pj_tree (rs_project s') = pj_tree (rs_project demo_state)"
    using repair_validated_or_undone [OF a(1) _ demo_root] a(2) by auto
  with a(1) show ?thesis by (auto simp: demo_state_def)
qed

text \<open>An attempt that was accepted may still raise, when the diagnostics of its report cannot be read: then the
  patch stays and the session does not know of it.\<close>

definition odd_child :: child where
  "odd_child args pj = (pj, Inr (0, Some (utf8 (dumps (JObj [(''status'', JStr ''PASS''), (''targets'', JInt 1)]))), [], []))"

lemma accepted_patch_unrecorded:
  "(case apply_and_validate ((demo_env 0)\<lparr>re_child := odd_child\<rparr>) [''p''] demo_bundle [''test''] demo_state of
     (s', Inl e) \<Rightarrow> lookup_node (pj_tree (rs_project s')) [''p'', ''a.ps1''] = Some (RegFile ''good'') \<and> rs_session s' = None
   | (s', Inr answer) \<Rightarrow> False)"
  by code_simp

lemma attempts_bounded_witness:
  "\<exists>s'. repair_run demo_state s' \<and> rs_session s' \<noteq> None \<and> session_ok (rs_session s')"
proof -
  obtain s' answer where a: "apply_and_validate (demo_env 1) [''p''] demo_bundle [''test''] demo_state = (s', Inr answer)"
      "rs_session s' \<noteq> None" using demo_attempt by blast
  have r: "repair_run demo_state s'"
    using repair_step [OF repair_start [of demo_state], of "demo_env 1" "[''p'']" demo_bundle "[''test'']"] a(1) by simp
  have "session_ok (rs_session demo_state)" by (simp add: session_ok_def demo_state_def)
  from attempts_bounded [OF r this] r a(2) show ?thesis by blast
qed

end
