(* ===== verification/Psm_HttpAuth.thy ===== *)
theory Psm_HttpAuth
  imports Psm_Files
begin

text \<open>
  Authentication of HTTP clients (\<open>http_auth.py\<close>): the authorization config, introspection of bearer tokens
  with its cache, and the decision who a caller is. The answer of the introspection endpoint is a parameter; the
  client's address, its TLS certificate and its \<open>Authorization\<close> header are the request. Time is in
  microseconds since the epoch.
\<close>

section \<open>The config\<close>

record auth_config =
  ac_mode :: string
  ac_resource_url :: string
  ac_servers :: "string list"
  ac_scopes :: "string list"
  ac_introspection_url :: "string option"
  ac_client_id_env :: "string option"
  ac_client_secret_env :: "string option"
  ac_audience :: "string option"
  ac_cache_seconds :: int

definition auth_error :: "string \<Rightarrow> 'a res" where
  "auth_error m = throw HTTPAuthError m"

lemma auth_error_neq [simp]: "auth_error m \<noteq> Inr x" "Inr x \<noteq> auth_error m"
  by (simp_all add: auth_error_def)

lemma if_auth_error_eq_Inr [simp]: "(if b then auth_error m else r) = Inr x \<longleftrightarrow> \<not> b \<and> r = Inr x"
  by simp

definition default_config :: "string \<Rightarrow> string \<Rightarrow> auth_config" where
  "default_config mode url = \<lparr>ac_mode = mode, ac_resource_url = url, ac_servers = [], ac_scopes = [''psmatrix:mcp''],
     ac_introspection_url = None, ac_client_id_env = None, ac_client_secret_env = None, ac_audience = None,
     ac_cache_seconds = 30\<rparr>"

definition config_fields :: "string list" where
  "config_fields = [''schema'', ''mode'', ''resource_url'', ''authorization_servers'', ''required_scopes'',
     ''introspection_url'', ''introspection_client_id_env'', ''introspection_client_secret_env'', ''audience'',
     ''cache_seconds'']"

definition https_text :: "json \<Rightarrow> bool" where
  "https_text v \<longleftrightarrow> is_str v \<and> starts_with ''https://'' (py_str v)"

definition text_opt :: "string \<Rightarrow> json \<Rightarrow> string option" where
  "text_opt k v = (let s = text_field k v in if s = [] then None else Some s)"

definition parse_config :: "string \<Rightarrow> string \<Rightarrow> json \<Rightarrow> auth_config res" where
  "parse_config url default_mode v =
     (let unknown = sort (filter (\<lambda>k. k \<notin> set config_fields) (remdups (map fst (dict_items v))));
          resource = py_str (py_or (get_none ''resource_url'' v) (JStr url));
          mode = py_str (py_or (get_none ''mode'' v) (JStr default_mode));
          servers = py_or (get_none ''authorization_servers'' v) (JArr []);
          scopes = py_or (get_none ''required_scopes'' v) (JArr [JStr ''psmatrix:mcp'']);
          introspection = get_none ''introspection_url'' v in
      if \<not> is_dict v \<or> \<not> eq_int (get_none ''schema'' v) 1
      then auth_error ''HTTP authorization config schema is unsupported''
      else if unknown \<noteq> []
      then auth_error (''HTTP authorization config contains unknown fields: '' @ join '', '' unknown)
      else if resource \<noteq> url
      then auth_error ''HTTP authorization resource_url must exactly match the public MCP URL''
      else if mode \<notin> {''none-localhost'', ''mtls'', ''oauth-introspection'', ''hybrid''}
      then auth_error ''HTTP authorization mode is invalid''
      else if \<not> is_list servers \<or> 16 < length (list_items servers) \<or> \<not> list_all https_text (list_items servers)
      then auth_error ''Authorization server list is invalid''
      else if \<not> is_list scopes \<or> 64 < length (list_items scopes)
        \<or> \<not> list_all (\<lambda>s. is_str s \<and> py_str s \<noteq> [] \<and> length (py_str s) \<le> 128) (list_items scopes)
      then auth_error ''Required OAuth scope list is invalid''
      else if mode \<in> {''oauth-introspection'', ''hybrid''} \<and> \<not> https_text introspection
      then auth_error ''OAuth introspection mode requires an HTTPS introspection_url''
      else
        res_bind (py_int (py_or (get_none ''cache_seconds'' v) (JInt 30))) (\<lambda>cache_seconds.
        if cache_seconds < 0 \<or> 300 < cache_seconds
        then auth_error ''OAuth introspection cache_seconds is outside the supported range''
        else Inr \<lparr>ac_mode = mode, ac_resource_url = resource, ac_servers = map py_str (list_items servers),
          ac_scopes = map py_str (list_items scopes),
          ac_introspection_url = (if py_true introspection then Some (py_str introspection) else None),
          ac_client_id_env = text_opt ''introspection_client_id_env'' v,
          ac_client_secret_env = text_opt ''introspection_client_secret_env'' v,
          ac_audience = text_opt ''audience'' v, ac_cache_seconds = cache_seconds\<rparr>))"

definition load_config :: "node \<Rightarrow> string list option \<Rightarrow> string \<Rightarrow> string \<Rightarrow> auth_config res" where
  "load_config fs path url default_mode = (case path of
     None \<Rightarrow> Inr (default_config default_mode url)
   | Some p \<Rightarrow> res_bind (resolve fs p) (\<lambda>p. res_bind (read_json fs p) (parse_config url default_mode)))"

definition protected_resource_metadata :: "auth_config \<Rightarrow> json" where
  "protected_resource_metadata c = JObj [(''resource'', JStr (ac_resource_url c)),
     (''authorization_servers'', JArr (map JStr (ac_servers c))), (''scopes_supported'', JArr (map JStr (ac_scopes c))),
     (''bearer_methods_supported'', JArr [JStr ''header'']),
     (''resource_signing_alg_values_supported'', JArr [JStr ''EdDSA''])]"

section \<open>Introspection\<close>

text \<open>\<open>text.split()\<close>\<close>

fun words_from :: "string \<Rightarrow> string \<Rightarrow> string list" where
  "words_from w [] = (if w = [] then [] else [rev w])"
| "words_from w (c # s) =
     (if is_space c then (if w = [] then words_from [] s else rev w # words_from [] s) else words_from (c # w) s)"

definition words :: "string \<Rightarrow> string list" where
  "words s = words_from [] s"

type_synonym token_cache = "string \<Rightarrow> (int \<times> json) option"

text \<open>The POST to the endpoint with the token and the client credentials: a failure text, or the status and the body\<close>

type_synonym endpoint = "string \<Rightarrow> string \<Rightarrow> (string \<times> string) option \<Rightarrow> string + (int \<times> string)"

record auth_env =
  ae_H :: "string \<Rightarrow> string"
  ae_environ :: "string \<Rightarrow> string option"
  ae_endpoint :: endpoint

definition env_value :: "auth_env \<Rightarrow> string option \<Rightarrow> string" where
  "env_value E name = (case name of None \<Rightarrow> [] | Some n \<Rightarrow> (case ae_environ E n of None \<Rightarrow> [] | Some s \<Rightarrow> s))"

definition credentials :: "auth_env \<Rightarrow> auth_config \<Rightarrow> (string \<times> string) option res" where
  "credentials E c =
     (let client = env_value E (ac_client_id_env c); secret = env_value E (ac_client_secret_env c) in
      if (client = []) \<noteq> (secret = []) then auth_error ''OAuth introspection client credentials are incomplete''
      else Inr (if client = [] then None else Some (client, secret)))"

definition raw_scope :: "json \<Rightarrow> json" where
  "raw_scope v = py_or (py_or (get_none ''scope'' v) (get_none ''scp'' v)) (JStr '''')"

definition token_scopes :: "json \<Rightarrow> string list res" where
  "token_scopes v = (case raw_scope v of
     JStr s \<Rightarrow> if 16384 < length s then auth_error ''Bearer token scope response is oversized'' else Inr (words s)
   | JArr items \<Rightarrow> if 256 < length items then auth_error ''Bearer token scope response is malformed or oversized''
       else Inr (map py_str items)
   | _ \<Rightarrow> auth_error ''Bearer token scope response is malformed or oversized'')"

definition token_identity :: "json \<Rightarrow> string" where
  "token_identity v = py_str (py_or (py_or (get_none ''sub'' v) (get_none ''client_id'' v)) (JStr ''''))"

definition check_audience :: "auth_config \<Rightarrow> json \<Rightarrow> unit res" where
  "check_audience c v = (case ac_audience c of
     None \<Rightarrow> Inr ()
   | Some expected \<Rightarrow>
       (let audience = get_none ''aud'' v in
        res_bind (if is_str audience then Inr [py_str audience]
          else res_bind (py_iter (py_or audience (JArr []))) (\<lambda>items. Inr (map py_str items))) (\<lambda>audiences.
        if expected \<notin> set audiences then auth_error ''Bearer token audience does not include this MCP resource''
        else Inr ())))"

definition token_expiry :: "json \<Rightarrow> int option res" where
  "token_expiry v = (let expiry = get_none ''exp'' v in
     if expiry = JNull then Inr None else res_bind (py_int expiry) (\<lambda>e. Inr (Some e)))"

definition usec :: int where
  "usec = 1000000"

text \<open>The checks on an answer of the endpoint; the result is the expiry of the token.\<close>

definition check_token :: "auth_config \<Rightarrow> int \<Rightarrow> json \<Rightarrow> int option res" where
  "check_token c now v =
     (if \<not> is_dict v \<or> \<not> is_true (get_none ''active'' v) then auth_error ''Bearer token is inactive''
      else
        res_bind (token_expiry v) (\<lambda>expiry.
        if (case expiry of None \<Rightarrow> False | Some e \<Rightarrow> e \<le> now div usec) then auth_error ''Bearer token is expired''
        else
          res_bind (check_audience c v) (\<lambda>_.
          res_bind (token_scopes v) (\<lambda>scopes.
          if list_ex (\<lambda>s. s = [] \<or> 128 < length s) scopes then auth_error ''Bearer token contains an invalid scope''
          else if 512 < length (token_identity v) then auth_error ''Bearer token identity is oversized''
          else
            let missing = sort (filter (\<lambda>s. s \<notin> set scopes) (remdups (ac_scopes c))) in
            if missing \<noteq> [] then auth_error (''Bearer token lacks required scope(s): '' @ join '', '' missing)
            else Inr expiry))))"

definition cache_ttl :: "auth_config \<Rightarrow> int \<Rightarrow> int option \<Rightarrow> int" where
  "cache_ttl c now expiry = (case expiry of
     None \<Rightarrow> ac_cache_seconds c | Some e \<Rightarrow> min (ac_cache_seconds c) (max 0 (e - now div usec)))"

definition ask_endpoint :: "auth_env \<Rightarrow> auth_config \<Rightarrow> string \<Rightarrow> json res" where
  "ask_endpoint E c token = (case ac_introspection_url c of
     None \<Rightarrow> auth_error ''OAuth introspection endpoint is not configured''
   | Some url \<Rightarrow>
       if url = [] then auth_error ''OAuth introspection endpoint is not configured''
       else
         res_bind (credentials E c) (\<lambda>client.
         case ae_endpoint E url token client of
           Inl m \<Rightarrow> auth_error (''OAuth introspection failed: '' @ m)
         | Inr (status, data) \<Rightarrow>
             if status \<noteq> 200 then auth_error (''OAuth introspection returned HTTP '' @ int_str status)
             else (case utf8_decode data of
                 None \<Rightarrow> throw ValueError ''invalid utf-8''
               | Some t \<Rightarrow> (case loads t of
                   None \<Rightarrow> auth_error ''OAuth introspection response is not JSON'' | Some v \<Rightarrow> Inr v))))"

definition introspect :: "auth_env \<Rightarrow> auth_config \<Rightarrow> int \<Rightarrow> string \<Rightarrow> token_cache \<Rightarrow> token_cache \<times> json res" where
  "introspect E c now token cache =
     (let key = ae_H E token;
          cached = (case cache key of None \<Rightarrow> None | Some (until, v) \<Rightarrow> if now < until then Some v else None) in
      if token = [] \<or> 16384 < length token then (cache, auth_error ''Bearer token is empty or oversized'')
      else case cached of
          Some v \<Rightarrow> (cache, Inr v)
        | None \<Rightarrow>
            (case res_bind (ask_endpoint E c token) (\<lambda>v. res_bind (check_token c now v) (\<lambda>expiry. Inr (v, expiry))) of
               Inl e \<Rightarrow> (cache, Inl e)
             | Inr (v, expiry) \<Rightarrow> (cache(key \<mapsto> (now + usec * cache_ttl c now expiry, v)), Inr v)))"

section \<open>Who is calling\<close>

record request =
  rq_address :: string
  rq_certificate :: "(string \<times> json) option"
  rq_authorization :: string

record principal =
  pr_principal :: string
  pr_method :: string
  pr_scopes :: "string list"
  pr_detail :: json

text \<open>\<open>ipaddress.ip_address(address).is_loopback\<close> on the texts of socket addresses\<close>

definition octet :: "string \<Rightarrow> nat option" where
  "octet s = (if s \<noteq> [] \<and> length s \<le> 3 \<and> list_all is_digit s \<and> (length s = 1 \<or> hd s \<noteq> CHR ''0'') \<and> dec_val s \<le> 255
     then Some (dec_val s) else None)"

definition loopback :: "string \<Rightarrow> bool" where
  "loopback address \<longleftrightarrow> address = ''::1'' \<or>
     (case map octet (split_on (CHR ''.'') address) of
        [Some a, Some b, Some c, Some d] \<Rightarrow> a = 127 | _ \<Rightarrow> False)"

definition principal_scopes :: "json \<Rightarrow> string list res" where
  "principal_scopes v = (case raw_scope v of
     JStr s \<Rightarrow> Inr (sort (words s))
   | r \<Rightarrow> res_bind (py_iter (py_or r (JArr []))) (\<lambda>items. Inr (sort (remdups (map py_str items)))))"

definition authenticate :: "auth_env \<Rightarrow> auth_config \<Rightarrow> int \<Rightarrow> request \<Rightarrow> token_cache \<Rightarrow> token_cache \<times> principal res" where
  "authenticate E c now rq cache =
     (let mode = ac_mode c; token = strip_space (drop 7 (rq_authorization rq)) in
      if mode = ''none-localhost'' then
        (cache, if \<not> loopback (rq_address rq) then auth_error ''Unauthenticated HTTP MCP is restricted to loopback clients''
          else Inr \<lparr>pr_principal = ''loopback:'' @ rq_address rq, pr_method = ''none-localhost'', pr_scopes = [],
            pr_detail = JObj []\<rparr>)
      else case (rq_certificate rq, mode \<in> {''mtls'', ''hybrid''}) of
        (Some (digest, subject), True) \<Rightarrow>
          (cache, Inr \<lparr>pr_principal = ''mtls:sha256:'' @ digest, pr_method = ''mtls'', pr_scopes = ac_scopes c,
             pr_detail = JObj [(''certificate_sha256'', JStr digest), (''subject'', subject)]\<rparr>)
      | _ \<Rightarrow>
          if mode = ''mtls'' then (cache, auth_error ''A trusted client TLS certificate is required'')
          else if starts_with ''Bearer '' (rq_authorization rq) \<and> mode \<in> {''oauth-introspection'', ''hybrid''} then
            (case introspect E c now token cache of
               (cache', Inl e) \<Rightarrow> (cache', Inl e)
             | (cache', Inr v) \<Rightarrow>
                 (cache',
                  res_bind (principal_scopes v) (\<lambda>scopes.
                  let identity = (if token_identity v = [] then ae_H E token else token_identity v) in
                  if 512 < length identity then auth_error ''Bearer token identity is oversized''
                  else Inr \<lparr>pr_principal = ''oauth:'' @ identity, pr_method = ''oauth-introspection'', pr_scopes = scopes,
                    pr_detail = JObj [(''issuer'', get_none ''iss'' v), (''subject'', get_none ''sub'' v),
                      (''client_id'', get_none ''client_id'' v)]\<rparr>)))
          else (cache, auth_error ''A valid bearer token or trusted client certificate is required''))"

end
