(* ===== verification/Psm_HttpAuthProps.thy ===== *)
theory Psm_HttpAuthProps
  imports Psm_HttpAuth
begin

text \<open>
  Who is let in: every principal of the token modes stands on an answer that the endpoint gave for the token of the
  request, now or to an earlier request with the same token, and that was active, made for this resource and has
  the required scopes; a cached answer is used for less than a second after the token expired.
\<close>


definition names_audience :: "json \<Rightarrow> string \<Rightarrow> bool" where
  "names_audience v aud \<longleftrightarrow> (case get_none ''aud'' v of
     JStr s \<Rightarrow> s = aud | JArr items \<Rightarrow> aud \<in> py_str ` set items | JObj kvs \<Rightarrow> aud \<in> fst ` set kvs | _ \<Rightarrow> False)"

definition expires_after :: "json \<Rightarrow> (int \<Rightarrow> bool) \<Rightarrow> bool" where
  "expires_after v still \<longleftrightarrow> (get_none ''exp'' v \<noteq> JNull \<longrightarrow> (\<exists>e. py_int (get_none ''exp'' v) = Inr e \<and> still e))"

text \<open>An answer that lets its token in at the given time\<close>

definition valid_token :: "auth_config \<Rightarrow> int \<Rightarrow> json \<Rightarrow> bool" where
  "valid_token c now v \<longleftrightarrow> is_dict v \<and> is_true (get_none ''active'' v) \<and> expires_after v (\<lambda>e. now div usec < e)
     \<and> (\<forall>aud. ac_audience c = Some aud \<longrightarrow> names_audience v aud)
     \<and> (\<exists>scopes. token_scopes v = Inr scopes \<and> set (ac_scopes c) \<subseteq> set scopes)"


lemma usec_pos: "0 < usec"
  by (simp add: usec_def)

lemma usec_split: "usec * (t div usec) + t mod usec = t" "0 \<le> t mod usec" "t mod usec < usec"
  using usec_pos by simp_all

lemma check_audience_names:
  assumes "check_audience c v = Inr ()" "ac_audience c = Some aud"
  shows "names_audience v aud"
proof -
  from assms have "(is_str (get_none ''aud'' v) \<and> aud = py_str (get_none ''aud'' v))
    \<or> (\<not> is_str (get_none ''aud'' v) \<and> (\<exists>items. py_iter (py_or (get_none ''aud'' v) (JArr [])) = Inr items \<and> aud \<in> py_str ` set items))"
    by (auto simp: check_audience_def Let_def split: if_splits)
  then show ?thesis
    by (cases "get_none ''aud'' v") (force simp: names_audience_def py_or_def py_str_def split: if_splits)+
qed

lemma check_token_ok:
  assumes "check_token c now v = Inr expiry"
  shows "valid_token c now v" "token_expiry v = Inr expiry" "\<And>e. expiry = Some e \<Longrightarrow> now div usec < e"
proof -
  from assms obtain scopes where f: "is_dict v" "is_true (get_none ''active'' v)" "token_expiry v = Inr expiry"
      "\<not> (case expiry of None \<Rightarrow> False | Some e \<Rightarrow> e \<le> now div usec)" "check_audience c v = Inr ()"
      "token_scopes v = Inr scopes" "sort (filter (\<lambda>s. s \<notin> set scopes) (remdups (ac_scopes c))) = []"
    unfolding check_token_def Let_def by auto
  from f(7) have "set (sort (filter (\<lambda>s. s \<notin> set scopes) (remdups (ac_scopes c)))) = {}" by (simp only: set_empty)
  then have "set (ac_scopes c) \<subseteq> set scopes" by auto
  moreover have "expires_after v (\<lambda>e. now div usec < e)"
    using f(3,4) by (auto simp: expires_after_def token_expiry_def split: if_splits)
  ultimately show "valid_token c now v" using f check_audience_names by (auto simp: valid_token_def)
  show "token_expiry v = Inr expiry" by (rule f(3))
  show "now div usec < e" if "expiry = Some e" for e using f(4) that by simp
qed


lemma introspect_cases:
  assumes "introspect E c now token cache = (cache', r)"
  obtains (failed) e where "r = Inl e" "cache' = cache"
    | (cached) until v where "r = Inr v" "cache' = cache" "cache (ae_H E token) = Some (until, v)" "now < until"
    | (asked) v expiry where "r = Inr v" "check_token c now v = Inr expiry" "ask_endpoint E c token = Inr v"
        "cache' = cache(ae_H E token \<mapsto> (now + usec * cache_ttl c now expiry, v))"
proof -
  let ?a = "res_bind (ask_endpoint E c token) (\<lambda>v. res_bind (check_token c now v) (\<lambda>expiry. Inr (v, expiry)))"
  consider (bad) "token = [] \<or> 16384 < length token"
    | (hit) until v where "cache (ae_H E token) = Some (until, v)" "now < until" "\<not> (token = [] \<or> 16384 < length token)"
    | (miss) "\<not> (\<exists>until v. cache (ae_H E token) = Some (until, v) \<and> now < until)" "\<not> (token = [] \<or> 16384 < length token)"
    by blast
  then show thesis
  proof cases
    case bad
    with assms show ?thesis by (intro failed) (auto simp: introspect_def auth_error_def)
  next
    case hit
    with assms show ?thesis by (intro cached) (auto simp: introspect_def)
  next
    case miss
    then have m: "introspect E c now token cache = (case ?a of Inl e \<Rightarrow> (cache, Inl e)
        | Inr (v, expiry) \<Rightarrow> (cache(ae_H E token \<mapsto> (now + usec * cache_ttl c now expiry, v)), Inr v))"
      by (auto simp: introspect_def Let_def split: option.splits)
    show ?thesis
    proof (cases ?a)
      case (Inl e)
      with assms m show ?thesis by (intro failed) auto
    next
      case (Inr x)
      obtain v expiry where x: "x = (v, expiry)" by (cases x)
      with Inr have "check_token c now v = Inr expiry" "ask_endpoint E c token = Inr v" by auto
      with assms m Inr x show ?thesis by (intro asked) auto
    qed
  qed
qed













text \<open>
  The cached answer of a token is used until its expiry plus the fraction of a second at which it was asked for.
\<close>

lemma cached_token_outlives_expiry:
  assumes "introspect E c now token cache = (cache', Inr v)" "cache (ae_H E token) = None"
    and "token_expiry v = Inr (Some e)" "e - now div usec \<le> ac_cache_seconds c"
    and "usec * e \<le> t" "t < usec * e + now mod usec"
  shows "introspect E c t token cache' = (cache', Inr v)"
  using assms(1)
proof (cases rule: introspect_cases)
  case (asked v' expiry)
  note k = check_token_ok [OF asked(2)]
  from asked(1) have v: "v' = v" by simp
  with k(2) assms(3) have x: "expiry = Some e" by simp
  have "cache_ttl c now expiry = e - now div usec" using k(3) [OF x] assms(4) by (simp add: cache_ttl_def x)
  then have "usec * cache_ttl c now expiry = usec * e - usec * (now div usec)" by (simp only: right_diff_distrib)
  then have "now + usec * cache_ttl c now expiry = usec * e + now mod usec" using usec_split(1) [of now] by linarith
  with asked(4) v assms(6) have "cache' (ae_H E token) = Some (usec * e + now mod usec, v)" by simp
  moreover have "\<not> (token = [] \<or> 16384 < length token)" using assms(1) by (auto simp: introspect_def Let_def)
  ultimately show ?thesis using assms(6) by (simp add: introspect_def)
qed (use assms(2) in auto)


section \<open>A caller\<close>

definition demo_auth :: auth_config where
  "demo_auth = (default_config ''oauth-introspection'' ''https://m'')\<lparr>ac_introspection_url := Some ''https://i''\<rparr>"

definition demo_answer :: json where
  "demo_answer = JObj [(''active'', JBool True), (''exp'', JInt 102), (''scope'', JStr ''psmatrix:mcp''), (''sub'', JStr ''u'')]"

definition demo_auth_env :: auth_env where
  "demo_auth_env = \<lparr>ae_H = (\<lambda>m. m), ae_environ = (\<lambda>n. None),
     ae_endpoint = (\<lambda>url token client. Inr (200, utf8 (dumps demo_answer)))\<rparr>"




text \<open>A token that expired at second 102 is accepted at 102.5, from the answer of second 100.9.\<close>

lemma cached_token_outlives_expiry_witness:
  "\<exists>cache. introspect demo_auth_env demo_auth 102500000 ''tok'' cache = (cache, Inr demo_answer)"
proof -
  have "(case introspect demo_auth_env demo_auth 100900000 ''tok'' (\<lambda>k. None) of
      (cache, Inr v) \<Rightarrow> v = demo_answer | (cache, Inl e) \<Rightarrow> False)" by code_simp
  then obtain cache where a: "introspect demo_auth_env demo_auth 100900000 ''tok'' (\<lambda>k. None) = (cache, Inr demo_answer)"
    by (auto split: prod.splits sum.splits)
  have e: "token_expiry demo_answer = Inr (Some 102)" by code_simp
  have "introspect demo_auth_env demo_auth 102500000 ''tok'' cache = (cache, Inr demo_answer)"
    by (rule cached_token_outlives_expiry [OF a _ e]) (simp_all add: usec_def demo_auth_def default_config_def)
  then show ?thesis by blast
qed

end
