(* ===== verification/Psm_Versions.thy ===== *)
theory Psm_Versions
  imports Psm_RuntimeIds
begin

text \<open>
  Names and versions of PowerShell modules as \<open>module_manager.py\<close> and \<open>module_compat.py\<close> read them: the accepted
  texts, the two version orders (the sort key and the comparison of the range checks) and NuGet version ranges.
\<close>

section \<open>Names and versions\<close>

definition module_name_ok :: "string \<Rightarrow> bool" where
  "module_name_ok s = (case s of [] \<Rightarrow> False
     | c # r \<Rightarrow> is_alnum c \<and> length r \<le> 127 \<and> list_all (\<lambda>d. is_alnum d \<or> d \<in> set ''_.-'') r)"

definition number_char :: "char \<Rightarrow> bool" where
  "number_char c \<longleftrightarrow> is_digit c \<or> c = CHR ''.''"

definition dotted_numbers :: "string \<Rightarrow> bool" where
  "dotted_numbers s = (let ps = split_on (CHR ''.'') s in
     2 \<le> length ps \<and> length ps \<le> 4 \<and> list_all (\<lambda>p. p \<noteq> [] \<and> list_all is_digit p) ps)"

definition version_tail_ok :: "string \<Rightarrow> bool" where
  "version_tail_ok s = (case s of [] \<Rightarrow> True
     | c # r \<Rightarrow> c \<in> set ''-+'' \<and> r \<noteq> [] \<and> list_all (\<lambda>d. is_alnum d \<or> d \<in> set ''.-'') r)"

definition module_version_ok :: "string \<Rightarrow> bool" where
  "module_version_ok s \<longleftrightarrow> dotted_numbers (takeWhile number_char s) \<and> version_tail_ok (dropWhile number_char s)"

section \<open>The two orders\<close>

definition version_main :: "string \<Rightarrow> string" where
  "version_main s = takeWhile (\<lambda>c. c \<noteq> CHR ''-'') s"

definition version_suffix :: "string \<Rightarrow> string" where
  "version_suffix s = drop 1 (dropWhile (\<lambda>c. c \<noteq> CHR ''-'') s)"

definition version_numbers :: "string \<Rightarrow> int list res" where
  "version_numbers s =
     res_bind (res_map (\<lambda>p. py_int (JStr p)) (split_on (CHR ''.'') (version_main s))) (\<lambda>ns.
     Inr (ns @ replicate (4 - length ns) 0))"

text \<open>The sort key; a version without a suffix comes after the same version with one.\<close>

definition module_version_key :: "string \<Rightarrow> (int list \<times> string) res" where
  "module_version_key s = res_bind (version_numbers s) (\<lambda>ns.
     Inr (ns @ [if version_suffix s = [] then 1 else 0], version_suffix s))"

definition normalize_version :: "string \<Rightarrow> (int list \<times> string) res" where
  "normalize_version s = res_bind (version_numbers s) (\<lambda>ns. Inr (take 4 ns, version_suffix s))"

definition version_compare :: "string \<Rightarrow> string \<Rightarrow> int res" where
  "version_compare left right =
     res_bind (normalize_version left) (\<lambda>(l, ls).
     res_bind (normalize_version right) (\<lambda>(r, rs).
     Inr (if l \<noteq> r then (if l < r then -1 else 1)
       else if ls = rs then 0
       else if ls = [] then 1
       else if rs = [] then -1
       else if ls < rs then -1 else 1)))"

section \<open>Ranges\<close>

definition compat_error :: "string \<Rightarrow> 'a res" where
  "compat_error m = throw CompatibilityError m"

lemma compat_error_neq [simp]: "compat_error m \<noteq> Inr x" "Inr x \<noteq> compat_error m"
  by (simp_all add: compat_error_def)

lemma if_compat_error_eq_Inr [simp]: "(if b then compat_error m else r) = Inr x \<longleftrightarrow> \<not> b \<and> r = Inr x"
  by simp

definition above_minimum :: "string \<Rightarrow> string \<Rightarrow> bool \<Rightarrow> bool res" where
  "above_minimum version minimum exclusive = (if minimum = [] then Inr True
     else res_bind (version_compare version minimum) (\<lambda>c. Inr (\<not> (c < 0 \<or> c = 0 \<and> exclusive))))"

definition below_maximum :: "string \<Rightarrow> string \<Rightarrow> bool \<Rightarrow> bool res" where
  "below_maximum version maximum exclusive = (if maximum = [] then Inr True
     else res_bind (version_compare version maximum) (\<lambda>c. Inr (\<not> (0 < c \<or> c = 0 \<and> exclusive))))"

definition version_satisfies :: "string \<Rightarrow> string \<Rightarrow> bool res" where
  "version_satisfies version expression =
     (let text = strip_space expression; body = butlast (tl text);
          minimum = strip_space (takeWhile (\<lambda>c. c \<noteq> CHR '','') body);
          maximum = strip_space (drop 1 (dropWhile (\<lambda>c. c \<noteq> CHR '','') body)) in
      if text = [] then Inr False
      else if hd text \<notin> set ''[('' then res_bind (version_compare version text) (\<lambda>c. Inr (0 \<le> c))
      else if last text \<notin> set '')]'' then compat_error (''Unsupported NuGet version range: '' @ expression)
      else if CHR '','' \<notin> set body then
        (if strip_space body = [] then Inr False
         else res_bind (version_compare version (strip_space body)) (\<lambda>c. Inr (c = 0)))
      else
        res_bind (above_minimum version minimum (hd text = CHR ''('')) (\<lambda>above.
        if \<not> above then Inr False else below_maximum version maximum (last text = CHR '')'')))"

section \<open>Lemmas\<close>

lemma digits_us_chars: "digits_us s \<Longrightarrow> list_all (\<lambda>c. is_digit c \<or> c = CHR ''_'') s"
  by (induction s rule: digits_us.induct) (auto split: if_splits)

lemma digits_us_digits: "list_all is_digit s \<Longrightarrow> s \<noteq> [] \<Longrightarrow> digits_us s"
proof (induction s rule: digits_us.induct)
  case (3 c d s)
  then have "d \<noteq> CHR ''_''" by (auto simp: is_digit_def)
  with 3 show ?case by simp
qed simp_all

lemma digit_not_space: "is_digit c \<Longrightarrow> \<not> is_space c"
  by (auto simp: is_digit_def is_space_def Let_def)

lemma strip_space_same: "s \<noteq> [] \<Longrightarrow> \<not> is_space (hd s) \<Longrightarrow> \<not> is_space (last s) \<Longrightarrow> strip_space s = s"
proof -
  assume s: "s \<noteq> []" "\<not> is_space (hd s)" "\<not> is_space (last s)"
  then have "dropWhile is_space s = s" by (cases s) simp_all
  moreover have "dropWhile is_space (rev s) = rev s" using s by (cases "rev s") (auto simp: last_rev [symmetric] hd_rev)
  ultimately show ?thesis by (simp add: strip_space_def)
qed

lemma int_of_digits:
  assumes "list_all is_digit s" "s \<noteq> []"
  shows "int_of_text s = Some (int (dec_val s))"
proof -
  have hl: "is_digit (hd s)" "is_digit (last s)" using assms by (auto simp: list_all_iff)
  then have "strip_space s = s" using assms(2) by (intro strip_space_same) (auto dest: digit_not_space)
  moreover obtain c r where s: "s = c # r" using assms(2) by (cases s) auto
  moreover have "c \<noteq> CHR ''-''" "c \<noteq> CHR ''+''" using hl(1) s by (auto simp: is_digit_def)
  moreover have "digits_us (c # r)" using digits_us_digits [OF assms] s by simp
  moreover have "filter (\<lambda>c. c \<noteq> CHR ''_'') s = s"
    using assms(1) by (intro filter_True) (auto simp: list_all_iff is_digit_def)
  ultimately show ?thesis unfolding int_of_text_def Let_def by simp
qed

text \<open>A valid version has numbers and a suffix, unless build metadata follows its numbers.\<close>

definition plain_version :: "string \<Rightarrow> bool" where
  "plain_version s \<longleftrightarrow> module_version_ok s \<and> CHR ''+'' \<notin> set (version_main s)"

lemma version_parts:
  assumes "plain_version s"
  shows "version_main s = takeWhile number_char s"
proof -
  let ?n = "takeWhile number_char s" and ?r = "dropWhile number_char s"
  have n: "CHR ''-'' \<notin> set ?n" by (auto dest: set_takeWhileD simp: number_char_def)
  have r: "?r = [] \<or> hd ?r = CHR ''-''"
  proof (rule ccontr)
    assume c: "\<not> ?thesis"
    then obtain c t where cr: "?r = c # t" by (cases ?r) auto
    with c assms have "c = CHR ''+''" by (auto simp: plain_version_def module_version_ok_def version_tail_ok_def)
    have "version_main (?n @ CHR ''+'' # t) = ?n @ CHR ''+'' # takeWhile (\<lambda>c. c \<noteq> CHR ''-'') t"
      unfolding version_main_def using n by (subst takeWhile_append2) auto
    moreover have "s = ?n @ CHR ''+'' # t" using cr \<open>c = CHR ''+''\<close> by (metis takeWhile_dropWhile_id)
    ultimately have "CHR ''+'' \<in> set (version_main s)" by simp
    with assms show False by (simp add: plain_version_def)
  qed
  have "version_main (?n @ ?r) = ?n"
  proof (cases ?r)
    case Nil
    have "takeWhile (\<lambda>c. c \<noteq> CHR ''-'') ?n = ?n" using n by (auto simp: takeWhile_eq_all_conv)
    then show ?thesis by (simp only: Nil append_Nil2 version_main_def)
  next
    case (Cons c t)
    with r have c: "?r = CHR ''-'' # t" by simp
    have "takeWhile (\<lambda>c. c \<noteq> CHR ''-'') (?n @ CHR ''-'' # t) = ?n" using n by (subst takeWhile_append2) auto
    then show ?thesis by (simp only: c version_main_def)
  qed
  then show ?thesis by simp
qed

lemma plain_version_numbers:
  assumes "plain_version s"
  shows "\<exists>ns. version_numbers s = Inr ns \<and> length ns = 4"
proof -
  let ?ps = "split_on (CHR ''.'') (version_main s)"
  have p: "length ?ps \<le> 4" "list_all (\<lambda>p. p \<noteq> [] \<and> list_all is_digit p) ?ps"
    using assms version_parts [OF assms] by (auto simp: plain_version_def module_version_ok_def dotted_numbers_def Let_def)
  have "res_map (\<lambda>p. py_int (JStr p)) ?ps = Inr (map (\<lambda>p. int (dec_val p)) ?ps)"
    using p(2) by (auto simp: res_map_Inr_iff list_all2_map2 list_all_iff list.rel_eq int_of_digits intro!: list.rel_refl_strong)
  with p(1) show ?thesis by (auto simp: version_numbers_def)
qed

lemma plain_version_keys:
  assumes "plain_version s"
  obtains ns where "module_version_key s = Inr (ns @ [if version_suffix s = [] then 1 else 0], version_suffix s)"
    "normalize_version s = Inr (ns, version_suffix s)" "length ns = 4"
  using plain_version_numbers [OF assms] by (auto simp: module_version_key_def normalize_version_def intro: that)

lemma less_append_same_length:
  fixes xs ys :: "'a :: linorder list"
  assumes "length xs = length ys"
  shows "xs @ us < ys @ vs \<longleftrightarrow> xs < ys \<or> xs = ys \<and> us < vs"
  using assms by (induction xs ys rule: list_induct2) auto

lemma le_append_same_length:
  fixes xs ys :: "'a :: linorder list"
  assumes "length xs = length ys"
  shows "xs @ us \<le> ys @ vs \<longleftrightarrow> xs < ys \<or> xs = ys \<and> us \<le> vs"
  using less_append_same_length [OF assms, of us vs] assms by (auto simp: le_less)

text \<open>For valid versions without build metadata the comparison of the range checks and the sort key are defined and
  give the same order, so the first package that a range admits is the newest one.\<close>

lemma version_orders_agree:
  assumes "plain_version a" "plain_version b"
  shows "\<exists>ka kb. module_version_key a = Inr ka \<and> module_version_key b = Inr kb
    \<and> version_compare a b = Inr (if ka < kb then -1 else if ka = kb then 0 else 1)"
proof -
  from plain_version_keys [OF assms(1)] obtain m where m:
    "module_version_key a = Inr (m @ [if version_suffix a = [] then 1 else 0], version_suffix a)"
    "normalize_version a = Inr (m, version_suffix a)" "length m = 4" .
  from plain_version_keys [OF assms(2)] obtain n where n:
    "module_version_key b = Inr (n @ [if version_suffix b = [] then 1 else 0], version_suffix b)"
    "normalize_version b = Inr (n, version_suffix b)" "length n = 4" .
  have len: "length m = length n" using m(3) n(3) by simp
  have "version_compare a b = Inr (if (m @ [if version_suffix a = [] then 1 else 0], version_suffix a)
        < (n @ [if version_suffix b = [] then 1 else 0], version_suffix b) then -1
      else if (m @ [if version_suffix a = [] then 1 else 0], version_suffix a)
        = (n @ [if version_suffix b = [] then 1 else 0], version_suffix b) then 0 else 1)"
    using len by (auto simp: version_compare_def m(2) n(2) less_prod_def less_append_same_length le_append_same_length)
  with m(1) n(1) show ?thesis by blast
qed

lemma version_orders_agree_witness:
  "\<exists>ka kb. module_version_key ''1.2-beta'' = Inr ka \<and> module_version_key ''1.2.0'' = Inr kb
    \<and> version_compare ''1.2-beta'' ''1.2.0'' = Inr (if ka < kb then -1 else if ka = kb then 0 else 1)"
proof -
  have "plain_version ''1.2-beta''" "plain_version ''1.2.0''" by code_simp+
  then show ?thesis by (rule version_orders_agree)
qed

text \<open>Build metadata after the numbers passes the check of a version and then has no key.\<close>

lemma build_metadata_has_no_key:
  "module_version_ok ''1.0.0+build'' \<and> (case module_version_key ''1.0.0+build'' of Inl e \<Rightarrow> exn_class e = ValueError | Inr k \<Rightarrow> False)"
  by code_simp

end
