(* ===== verification/Psm_Mirror.thy ===== *)
theory Psm_Mirror
  imports Psm_Versions Psm_Trees
begin

text \<open>
  The offline module mirror (\<open>module_compat.py\<close>): what a module package says of itself, the index of the
  mirror with its digest, adding a package, lookup and verification. The mirror is a folder in a tree; its index is
  the JSON value in \<open>index.json\<close>. Opening a zip archive and parsing XML are parameters.
\<close>

section \<open>Packages\<close>

record module_dependency =
  dp_name :: string
  dp_range :: string
  dp_group :: "string option"

record mirror_package =
  mp_name :: string
  mp_version :: string
  mp_sha256 :: string
  mp_size :: int
  mp_path :: string
  mp_dependencies :: "module_dependency list"

datatype xml = Elem (xml_tag: string) (xml_attrib: "(string \<times> string) list") (xml_text: string) (xml_children: "xml list")

text \<open>The members of an archive with their bytes, and the parsed text, or why that fails\<close>

record package_env =
  pk_H :: "string \<Rightarrow> string"
  pk_unzip :: "string \<Rightarrow> string + (string \<times> string) list"
  pk_xml :: "string \<Rightarrow> string + xml"

definition local_tag :: "string \<Rightarrow> string" where
  "local_tag tag = last (split_on (CHR ''}'') tag)"

text \<open>\<open>element.iter()\<close>, every element with its parent\<close>

fun iter_xml :: "xml option \<Rightarrow> xml \<Rightarrow> (xml option \<times> xml) list" where
  "iter_xml parent (Elem tag attrib txt children) =
     (parent, Elem tag attrib txt children)
     # concat (map (iter_xml (Some (Elem tag attrib txt children))) children)"

definition safe_zip_name :: "string \<Rightarrow> unit res" where
  "safe_zip_name name =
     (let n = map (\<lambda>c. if c = CHR 0x5C then CHR ''/'' else c) name in
      if starts_with ''/'' n \<or> ''..'' \<in> set (path_parts n) \<or> path_parts n = []
      then compat_error (''Unsafe package path: '' @ name) else Inr ())"

definition ends_with :: "string \<Rightarrow> string \<Rightarrow> bool" where
  "ends_with p s \<longleftrightarrow> eat_suffix p s \<noteq> None"

definition attribute :: "string \<Rightarrow> xml \<Rightarrow> string option" where
  "attribute k e = map_of (xml_attrib e) k"

definition attribute_text :: "string \<Rightarrow> xml \<Rightarrow> string" where
  "attribute_text k e = (case attribute k e of None \<Rightarrow> [] | Some s \<Rightarrow> s)"

definition nuspec_root :: "package_env \<Rightarrow> string \<Rightarrow> xml res" where
  "nuspec_root E package = (case pk_unzip E package of
     Inl m \<Rightarrow> compat_error (''Unable to inspect module package: '' @ m)
   | Inr members \<Rightarrow>
       res_bind (res_map safe_zip_name (map fst members)) (\<lambda>_.
       case filter (\<lambda>(n, b). ends_with ''.nuspec'' (py_lower n)) members of
         [(n, b)] \<Rightarrow> (case pk_xml E b of
             Inl m \<Rightarrow> compat_error (''Unable to inspect module package: '' @ m) | Inr root \<Rightarrow> Inr root)
       | _ \<Rightarrow> compat_error ''Module package must contain exactly one .nuspec''))"

text \<open>The last nonempty \<open>id\<close> and \<open>version\<close> among the children of \<open>metadata\<close>\<close>

definition identity_field :: "string \<Rightarrow> xml list \<Rightarrow> string" where
  "identity_field key children =
     (case filter (\<lambda>c. local_tag (xml_tag c) = key \<and> xml_text c \<noteq> []) (rev children) of
        [] \<Rightarrow> [] | c # _ \<Rightarrow> strip_space (xml_text c))"

definition read_dependency :: "xml option \<times> xml \<Rightarrow> module_dependency res" where
  "read_dependency = (\<lambda>(parent, node).
     (let name = attribute_text ''id'' node; rng = strip_space (attribute_text ''version'' node);
          grp = (case parent of None \<Rightarrow> None
            | Some p \<Rightarrow> if local_tag (xml_tag p) = ''group'' then attribute ''targetFramework'' p else None) in
      if \<not> module_name_ok name \<or> rng = [] \<or> 128 < length rng
      then compat_error ''Module package dependency metadata is invalid''
      else Inr \<lparr>dp_name = name, dp_range = rng, dp_group = grp\<rparr>))"

definition dependency_id :: "module_dependency \<Rightarrow> string \<times> string \<times> string option" where
  "dependency_id d = (casefold (dp_name d), dp_range d, dp_group d)"

definition dependency_order :: "module_dependency \<Rightarrow> string \<times> string \<times> string" where
  "dependency_order d = (casefold (dp_name d), dp_range d, case dp_group d of None \<Rightarrow> [] | Some g \<Rightarrow> g)"

definition unique_dependencies :: "module_dependency list \<Rightarrow> module_dependency list" where
  "unique_dependencies ds =
     sort_key dependency_order (map snd (fold (\<lambda>d. AList.update (dependency_id d) d) ds []))"

definition read_nuspec :: "package_env \<Rightarrow> string \<Rightarrow> (string \<times> string \<times> module_dependency list) res" where
  "read_nuspec E package =
     res_bind (nuspec_root E package) (\<lambda>root.
     case filter (\<lambda>(p, e). local_tag (xml_tag e) = ''metadata'') (iter_xml None root) of
       [] \<Rightarrow> compat_error ''Module package nuspec has no metadata''
     | (_, metadata) # _ \<Rightarrow>
         (let name = identity_field ''id'' (xml_children metadata);
              version = identity_field ''version'' (xml_children metadata) in
          if \<not> module_name_ok name \<or> \<not> module_version_ok version
          then compat_error ''Module package identity is invalid''
          else
            res_bind (res_map read_dependency
              (filter (\<lambda>(p, e). local_tag (xml_tag e) = ''dependency'') (iter_xml None metadata))) (\<lambda>ds.
            Inr (name, version, unique_dependencies ds))))"

section \<open>The index\<close>

record mirror =
  mi_root :: "string list"
  mi_tree :: node
  mi_index :: "json option"

definition empty_index :: json where
  "empty_index = JObj [(''schema'', JInt 1), (''kind'', JStr ''psmatrix.module-mirror''), (''packages'', JArr []),
     (''generation'', JInt 0)]"

definition index_digest :: "(string \<Rightarrow> string) \<Rightarrow> json \<Rightarrow> string" where
  "index_digest H v = H (ensure_ascii (dumps (jdel ''digest'' v)))"

definition load_index :: "(string \<Rightarrow> string) \<Rightarrow> mirror \<Rightarrow> json res" where
  "load_index H m = (case mi_index m of
     None \<Rightarrow> Inr empty_index
   | Some v \<Rightarrow>
       if \<not> is_dict v \<or> \<not> eq_int (get_none ''schema'' v) 1 \<or> get_none ''kind'' v \<noteq> JStr ''psmatrix.module-mirror''
         \<or> \<not> is_list (get_none ''packages'' v)
       then compat_error ''Offline module mirror index is malformed''
       else if get_none ''digest'' v \<noteq> JStr (index_digest H v)
       then compat_error ''Offline module mirror index integrity check failed''
       else Inr v)"

definition write_index :: "(string \<Rightarrow> string) \<Rightarrow> json \<Rightarrow> mirror \<Rightarrow> mirror" where
  "write_index H v m = m\<lparr>mi_index := Some (jset ''digest'' (JStr (index_digest H v)) (jdel ''digest'' v))\<rparr>"

definition index_packages :: "json \<Rightarrow> json list" where
  "index_packages v = list_items (get_none ''packages'' v)"

text \<open>\<open>str(item.get("name", "")).casefold() == name.casefold()\<close>, and the same version\<close>

definition same_name :: "string \<Rightarrow> json \<Rightarrow> bool res" where
  "same_name name item = res_bind (dget ''name'' (JStr '''') item) (\<lambda>n. Inr (casefold (py_str n) = casefold name))"

definition same_package :: "string \<Rightarrow> string \<Rightarrow> json \<Rightarrow> bool res" where
  "same_package name version item =
     res_bind (same_name name item) (\<lambda>b. Inr (b \<and> get_none ''version'' item = JStr version))"

text \<open>\<open>[x for x in xs if test(x)]\<close> where the test may raise\<close>

definition res_filter :: "('a \<Rightarrow> bool res) \<Rightarrow> 'a list \<Rightarrow> 'a list res" where
  "res_filter f xs = res_bind (res_map f xs) (\<lambda>bs. Inr (map snd (filter fst (zip bs xs))))"

text \<open>\<open>sorted(xs, key=f)\<close> where the key may raise\<close>

definition res_sort :: "('a \<Rightarrow> ('k :: linorder) res) \<Rightarrow> 'a list \<Rightarrow> 'a list res" where
  "res_sort f xs = res_bind (res_map f xs) (\<lambda>ks. Inr (map snd (sort_key fst (zip ks xs))))"

definition index_order :: "json \<Rightarrow> (string \<times> int list \<times> string) res" where
  "index_order item =
     res_bind (jitem ''name'' item) (\<lambda>n.
     res_bind (jitem ''version'' item) (\<lambda>v.
     res_bind (module_version_key (py_str v)) (\<lambda>k. Inr (casefold (py_str n), k))))"

definition dependency_row :: "module_dependency \<Rightarrow> json" where
  "dependency_row d = JObj [(''name'', JStr (dp_name d)), (''version_range'', JStr (dp_range d)), (''group'', opt_str (dp_group d))]"

definition package_row ::
    "string \<Rightarrow> string \<Rightarrow> string \<Rightarrow> int \<Rightarrow> string \<Rightarrow> string \<Rightarrow> string \<Rightarrow> module_dependency list \<Rightarrow> json" where
  "package_row name version digest n path source added_at ds = JObj
     [(''name'', JStr name), (''version'', JStr version), (''sha256'', JStr digest), (''size'', JInt n),
      (''path'', JStr path), (''source'', JStr source), (''added_at'', JStr added_at),
      (''dependencies'', JArr (map dependency_row ds))]"

definition package_path :: "string \<Rightarrow> string \<Rightarrow> string \<Rightarrow> string list" where
  "package_path name version digest = [''packages'', name, version, digest @ ''.nupkg'']"

text \<open>The index with the package: rows of the same name and version give way to the new one.\<close>

definition add_row :: "string \<Rightarrow> string \<Rightarrow> json \<Rightarrow> string \<Rightarrow> json \<Rightarrow> json res" where
  "add_row name version row updated_at v =
     res_bind (res_filter (\<lambda>i. res_bind (same_package name version i) (\<lambda>b. Inr (\<not> b))) (index_packages v)) (\<lambda>rows.
     res_bind (res_sort index_order (rows @ [row])) (\<lambda>rows.
     res_bind (py_int (get_or ''generation'' (JInt 0) v)) (\<lambda>g.
     Inr (jset ''updated_at'' (JStr updated_at) (jset ''generation'' (JInt (g + 1)) (jset ''packages'' (JArr rows) v))))))"

text \<open>\<open>destination.exists()\<close> and otherwise the copy, then the size of the destination\<close>

definition store_copy :: "string list \<Rightarrow> string \<Rightarrow> mirror \<Rightarrow> mirror" where
  "store_copy destination bytes m =
     (if path_exists (mi_tree m) destination then m else m\<lparr>mi_tree := set_file (mi_tree m) destination bytes\<rparr>)"

definition store_package ::
    "package_env \<Rightarrow> string \<Rightarrow> string \<Rightarrow> string \<times> string \<times> module_dependency list \<Rightarrow> string \<Rightarrow> string \<Rightarrow> string
      \<Rightarrow> mirror \<Rightarrow> mirror \<times> mirror_package res" where
  "store_package E digest bytes = (\<lambda>(name, version, ds) source added_at updated_at m.
     (let path = package_path name version digest; destination = mi_root m @ path; m' = store_copy destination bytes m in
      case res_bind (load_index (pk_H E) m) (\<lambda>v.
          res_bind (res_filter (same_package name version) (index_packages v)) (\<lambda>existing.
          if list_ex (\<lambda>i. get_none ''sha256'' i \<noteq> JStr digest) existing
          then compat_error (''Mirror already contains '' @ name @ '' '' @ version @ '' with a different digest'')
          else Inr v)) of
        Inl e \<Rightarrow> (m, Inl e)
      | Inr v \<Rightarrow>
          (case res_bind (read_bytes (mi_tree m') destination) (\<lambda>b.
              res_bind (add_row name version (package_row name version digest (int (length b)) (posix path) source added_at ds)
                updated_at v) (\<lambda>v'. Inr (int (length b), v'))) of
             Inl e \<Rightarrow> (m', Inl e)
           | Inr (n, v') \<Rightarrow>
               (write_index (pk_H E) v' m',
                Inr \<lparr>mp_name = name, mp_version = version, mp_sha256 = digest, mp_size = n, mp_path = posix path,
                  mp_dependencies = ds\<rparr>))))"

definition checked_package :: "package_env \<Rightarrow> string list \<Rightarrow> string \<Rightarrow> mirror \<Rightarrow>
    (string \<times> string \<times> (string \<times> string \<times> module_dependency list)) res" where
  "checked_package E package expected m =
     res_bind (resolve (mi_tree m) package) (\<lambda>p.
     if \<not> is_file (mi_tree m) p \<or> is_symlink (mi_tree m) p
     then compat_error (''Module package is missing or unsafe: '' @ path_text p)
     else
       res_bind (read_bytes (mi_tree m) p) (\<lambda>bytes.
       let digest = pk_H E bytes in
       if \<not> hex_digest_text (py_lower expected) \<or> digest \<noteq> py_lower expected
       then compat_error ''Module package SHA-256 verification failed''
       else res_bind (read_nuspec E bytes) (\<lambda>spec. Inr (digest, bytes, spec))))"

definition add_package ::
    "package_env \<Rightarrow> string list \<Rightarrow> string \<Rightarrow> string \<Rightarrow> string \<Rightarrow> string \<Rightarrow> mirror \<Rightarrow> mirror \<times> mirror_package res" where
  "add_package E package expected source added_at updated_at m = (case checked_package E package expected m of
     Inl e \<Rightarrow> (m, Inl e)
   | Inr (digest, bytes, spec) \<Rightarrow> store_package E digest bytes spec source added_at updated_at m)"

section \<open>Lookup and verification\<close>

definition list_packages :: "(string \<Rightarrow> string) \<Rightarrow> string \<Rightarrow> mirror \<Rightarrow> json list res" where
  "list_packages H name m = res_bind (load_index H m) (\<lambda>v.
     if name = [] then Inr (index_packages v) else res_filter (same_name name) (index_packages v))"

definition exact_package :: "(string \<Rightarrow> string) \<Rightarrow> string \<Rightarrow> string \<Rightarrow> mirror \<Rightarrow> json option res" where
  "exact_package H name version m = res_bind (list_packages H name m) (\<lambda>items.
     res_find (\<lambda>i. res_bind (dget_none ''version'' i) (\<lambda>v. Inr (v = JStr version))) items)"

definition failure_row :: "json \<Rightarrow> string \<Rightarrow> json" where
  "failure_row item m = JObj [(''name'', JStr (py_str (get_none ''name'' item))), (''error'', JStr m)]"

definition verify_entry :: "(string \<Rightarrow> string) \<Rightarrow> mirror \<Rightarrow> json \<Rightarrow> json list res" where
  "verify_entry H m item =
     res_bind (dget_none ''path'' item) (\<lambda>raw.
     res_bind (resolve (mi_tree m) (path_join (mi_root m) (py_str (py_or raw (JStr ''''))))) (\<lambda>p.
     if \<not> is_within (mi_root m) p then Inr [failure_row item ''path-escape'']
     else if \<not> is_file (mi_tree m) p \<or> is_symlink (mi_tree m) p then Inr [failure_row item ''missing'']
     else
       res_bind (read_bytes (mi_tree m) p) (\<lambda>b.
       if get_none ''sha256'' item \<noteq> JStr (H b) \<or> \<not> eq_int (get_none ''size'' item) (int (length b))
       then Inr [failure_row item ''digest-or-size-mismatch''] else Inr [])))"

definition verify_mirror :: "(string \<Rightarrow> string) \<Rightarrow> mirror \<Rightarrow> json res" where
  "verify_mirror H m =
     res_bind (load_index H m) (\<lambda>v.
     res_bind (res_concat (map (verify_entry H m) (index_packages v))) (\<lambda>failures.
     Inr (JObj [(''valid'', JBool (failures = [])), (''packages'', JInt (int (length (index_packages v)))),
       (''generation'', get_or ''generation'' (JInt 0) v), (''index_digest'', get_none ''digest'' v),
       (''failures'', JArr failures)])))"

end
