(* ===== verification/Psm_Resolve.thy ===== *)
theory Psm_Resolve
  imports Psm_Mirror
begin

text \<open>
  Resolving module selections against the mirror (\<open>resolve_mirror_lock\<close> of \<open>module_compat.py\<close>): a worklist of
  demands, each a name, a version range and who asks; the newest package that satisfies the demands seen so far is
  taken, its dependencies join the list, and a package that a later demand rules out is a conflict.
\<close>

section \<open>Candidates\<close>

text \<open>\<open>str(item[k])\<close>\<close>

definition item_text :: "string \<Rightarrow> json \<Rightarrow> string res" where
  "item_text k item = (if \<not> is_dict item then throw TypeError ''indices must be integers''
     else res_bind (jitem k item) (\<lambda>v. Inr (py_str v)))"

text \<open>\<open>values.sort(key=..., reverse=True)\<close>, which keeps the order of equal keys\<close>

definition newest_first :: "json list \<Rightarrow> json list res" where
  "newest_first items =
     res_bind (res_map (\<lambda>i. res_bind (item_text ''version'' i) module_version_key) items) (\<lambda>ks.
     Inr (rev (map snd (sort_key fst (rev (zip ks items))))))"

definition packages_by_name :: "json list \<Rightarrow> (string \<times> json list) list res" where
  "packages_by_name records =
     res_bind (res_map (\<lambda>i. res_bind (item_text ''name'' i) (\<lambda>n. Inr (casefold n, i))) records) (\<lambda>pairs.
     res_map (\<lambda>k. res_bind (newest_first (map snd (filter (\<lambda>p. fst p = k) pairs))) (\<lambda>items. Inr (k, items)))
       (dedup_first (map fst pairs)))"

fun res_all :: "('a \<Rightarrow> bool res) \<Rightarrow> 'a list \<Rightarrow> bool res" where
  "res_all f [] = Inr True"
| "res_all f (x # xs) = res_bind (f x) (\<lambda>b. if b then res_all f xs else Inr False)"

definition meets :: "(string \<times> string) list \<Rightarrow> json \<Rightarrow> bool res" where
  "meets ranges item = res_all (\<lambda>(rng, parent). res_bind (item_text ''version'' item) (\<lambda>v. version_satisfies v rng)) ranges"

definition range_detail :: "(string \<times> string) list \<Rightarrow> string" where
  "range_detail ranges = join '', '' (map (\<lambda>(rng, parent). rng @ '' from '' @ parent) ranges)"

definition conflict :: "string \<Rightarrow> (string \<times> string) list \<Rightarrow> 'a res" where
  "conflict name ranges = compat_error (''Dependency conflict for '' @ name @ '': '' @ range_detail ranges)"

definition unsatisfied :: "string \<Rightarrow> (string \<times> string) list \<Rightarrow> 'a res" where
  "unsatisfied name ranges = compat_error (''Mirror cannot satisfy dependency '' @ name @ '': '' @ range_detail ranges)"

lemma conflict_neq [simp]: "conflict n c \<noteq> Inr x" "unsatisfied n c \<noteq> Inr x"
  by (simp_all add: conflict_def unsatisfied_def)

section \<open>The worklist\<close>

record demand =
  dm_name :: string
  dm_range :: string
  dm_parent :: string

definition item_id :: "json \<Rightarrow> string res" where
  "item_id item = res_bind (item_text ''name'' item) (\<lambda>n. res_bind (item_text ''version'' item) (\<lambda>v. Inr (n @ ''@'' @ v)))"

definition demands_of :: "json \<Rightarrow> demand list res" where
  "demands_of item =
     res_bind (py_iter (get_or ''dependencies'' (JArr []) item)) (\<lambda>ds.
     res_map (\<lambda>d. if \<not> is_dict d then compat_error ''Mirror dependency record is malformed''
       else res_bind (item_id item) (\<lambda>p.
         Inr \<lparr>dm_name = text_field ''name'' d, dm_range = text_field ''version_range'' d, dm_parent = p\<rparr>)) ds)"

type_synonym resolution = "(string \<times> json) list"
type_synonym ranges = "string \<Rightarrow> (string \<times> string) list"

definition candidates :: "(string \<times> json list) list \<Rightarrow> string \<Rightarrow> json list" where
  "candidates by_name key = (case map_of by_name key of None \<Rightarrow> [] | Some items \<Rightarrow> items)"

lemma res_filter_Nil [simp]: "res_filter f [] = Inr []"
  by (simp add: res_filter_def)

lemma candidates_key: "candidates by_name key \<noteq> [] \<Longrightarrow> key \<in> fst ` set by_name"
  by (auto simp: candidates_def map_of_eq_None_iff dest: map_of_SomeD split: option.splits intro: rev_image_eqI)

lemma res_filter_Cons_candidates: "res_filter f (candidates by_name key) = Inr (x # xs) \<Longrightarrow> key \<in> fst ` set by_name"
  by (rule candidates_key) auto

lemma open_keys_decrease:
  assumes "map_of resolved key = None" "res_filter f (candidates by_name key) = Inr (x # xs)"
  shows "card (fst ` set by_name - insert key (fst ` set resolved)) < card (fst ` set by_name - fst ` set resolved)"
proof (rule psubset_card_mono)
  have "key \<in> fst ` set by_name" "key \<notin> fst ` set resolved"
    using assms by (auto dest: res_filter_Cons_candidates simp: map_of_eq_None_iff)
  then show "fst ` set by_name - insert key (fst ` set resolved) \<subset> fst ` set by_name - fst ` set resolved" by blast
qed simp

function resolve_loop ::
    "(string \<times> json list) list \<Rightarrow> resolution \<Rightarrow> ranges \<Rightarrow> demand list \<Rightarrow> (resolution \<times> ranges) res" where
  "resolve_loop by_name resolved ranges [] = Inr (resolved, ranges)"
| "resolve_loop by_name resolved ranges (d # queue) =
     (let key = casefold (dm_name d); rs = ranges key @ [(dm_range d, dm_parent d)]; ranges' = ranges(key := rs) in
      case map_of resolved key of
        Some current \<Rightarrow>
          res_bind (meets rs current) (\<lambda>ok.
          if \<not> ok then conflict (dm_name d) rs else resolve_loop by_name resolved ranges' queue)
      | None \<Rightarrow>
          res_bind (res_filter (meets rs) (candidates by_name key)) (\<lambda>found.
          case found of
            [] \<Rightarrow> unsatisfied (dm_name d) rs
          | selected # _ \<Rightarrow>
              res_bind (demands_of selected) (\<lambda>new.
              resolve_loop by_name (resolved @ [(key, selected)]) ranges' (queue @ new))))"
  by pat_completeness auto
termination
  by (relation "measures [\<lambda>(by_name, resolved, ranges, queue). card (fst ` set by_name - fst ` set resolved),
      \<lambda>(by_name, resolved, ranges, queue). length queue]")
    (auto, (drule (1) open_keys_decrease, simp)+)

declare resolve_loop.simps(2) [simp del]

section \<open>The lock\<close>

definition root_demand :: "string \<times> string \<Rightarrow> demand res" where
  "root_demand = (\<lambda>(name, version).
     if \<not> module_name_ok name \<or> \<not> module_version_ok version
     then compat_error (''Invalid root module selection: '' @ name @ ''='' @ version)
     else Inr \<lparr>dm_name = name, dm_range = ''['' @ version @ '']'', dm_parent = ''root''\<rparr>)"

definition revalidate :: "ranges \<Rightarrow> string \<times> json \<Rightarrow> unit res" where
  "revalidate ranges = (\<lambda>(key, selected).
     res_bind (meets (ranges key) selected) (\<lambda>ok.
     if ok then Inr () else res_bind (item_text ''name'' selected) (\<lambda>n. conflict n (ranges key))))"

definition lock_row :: "bool \<Rightarrow> json \<Rightarrow> json res" where
  "lock_row require_verified item =
     res_bind (item_text ''name'' item) (\<lambda>name.
     res_bind (item_text ''version'' item) (\<lambda>version.
     res_bind (item_text ''sha256'' item) (\<lambda>digest.
     Inr (JObj [(''name'', JStr name), (''version'', JStr version), (''sha256'', JStr digest),
       (''require_verified'', JBool require_verified)]))))"

definition edge_rows :: "json \<Rightarrow> json list res" where
  "edge_rows selected =
     res_bind (py_iter (get_or ''dependencies'' (JArr []) selected)) (\<lambda>ds.
     res_map (\<lambda>d. res_bind (item_id selected) (\<lambda>p.
       res_bind (item_text ''name'' d) (\<lambda>n.
       res_bind (item_text ''version_range'' d) (\<lambda>r.
       Inr (JObj [(''from'', JStr p), (''to'', JStr n), (''version_range'', JStr r), (''group'', get_none ''group'' d)]))))) ds)"

definition by_item_name :: "json list \<Rightarrow> json list res" where
  "by_item_name items = res_sort (\<lambda>i. res_bind (item_text ''name'' i) (\<lambda>n. Inr (casefold n))) items"

definition lock_graph :: "(string \<times> string) list \<Rightarrow> json list \<Rightarrow> json \<Rightarrow> json" where
  "lock_graph selections edges digest = JObj
     [(''schema'', JInt 1),
      (''roots'', JArr (map (\<lambda>(name, version). JObj [(''name'', JStr name), (''version'', JStr version)])
         (sort_key (\<lambda>p. casefold (fst p)) selections))),
      (''edges'', JArr edges), (''mirror_index_digest'', digest)]"

definition lock_payload :: "(string \<Rightarrow> string) \<Rightarrow> json list \<Rightarrow> json \<Rightarrow> json" where
  "lock_payload H modules graph = JObj
     [(''schema'', JInt 1), (''powershell_modules'', JArr modules), (''native_commands'', JArr []),
      (''psmatrix_graph'', jset ''graph_sha256'' (JStr (H (canonical_json_bytes graph))) graph)]"

definition resolve_selections :: "json list \<Rightarrow> (string \<times> string) list \<Rightarrow> resolution res" where
  "resolve_selections records selections =
     res_bind (packages_by_name records) (\<lambda>by_name.
     res_bind (res_map root_demand selections) (\<lambda>queue.
     res_bind (resolve_loop by_name [] (\<lambda>k. []) queue) (\<lambda>(resolved, ranges).
     res_bind (res_map (revalidate ranges) resolved) (\<lambda>_. Inr resolved))))"

definition resolve_mirror_lock ::
    "(string \<Rightarrow> string) \<Rightarrow> (string \<times> string) list \<Rightarrow> bool \<Rightarrow> mirror \<Rightarrow> json res" where
  "resolve_mirror_lock H selections require_verified m =
     (if selections = [] \<or> 256 < length selections
      then compat_error ''Mirror lock requires a bounded non-empty selection''
      else
        res_bind (list_packages H [] m) (\<lambda>records.
        res_bind (resolve_selections records selections) (\<lambda>resolved.
        res_bind (by_item_name (map snd resolved)) (\<lambda>items.
        res_bind (res_map (lock_row require_verified) items) (\<lambda>modules.
        res_bind (res_concat (map edge_rows items)) (\<lambda>edges.
        res_bind (verify_mirror H m) (\<lambda>verification.
        Inr (lock_payload H modules (lock_graph selections edges (get_none ''index_digest'' verification))))))))))"

end
