(* ===== verification/Psm_Locks.thy ===== *)
theory Psm_Locks
  imports Psm_Versions Psm_Files
begin

text \<open>
  Dependency lockfiles (\<open>dependencies.py\<close>): the exact modules and native commands a project pins, as they are
  read from JSON. Compiling a version pattern is a parameter that answers with the number of its groups and whether
  one is named \<open>version\<close>.
\<close>

record module_lock =
  ml_name :: string
  ml_version :: string
  ml_sha256 :: string
  ml_require_verified :: bool

record native_lock =
  nl_name :: string
  nl_command :: string
  nl_version_args :: "string list"
  nl_version_pattern :: string
  nl_expected_version :: string
  nl_required :: bool

record dependency_lock =
  dl_path :: "string list"
  dl_sha256 :: string
  dl_modules :: "module_lock list"
  dl_native :: "native_lock list"

definition lock_error :: "string \<Rightarrow> 'a res" where
  "lock_error m = throw DependencyError m"

lemma lock_error_neq [simp]: "lock_error m \<noteq> Inr x" "Inr x \<noteq> lock_error m"
  by (simp_all add: lock_error_def)

lemma if_lock_error_eq_Inr [simp]: "(if b then lock_error m else r) = Inr x \<longleftrightarrow> \<not> b \<and> r = Inr x"
  by simp

section \<open>Modules\<close>

definition any_hex_digest :: "string \<Rightarrow> bool" where
  "any_hex_digest s \<longleftrightarrow> length s = 64 \<and> list_all (\<lambda>c. c \<in> set ''0123456789abcdefABCDEF'') s"

definition max_locked_modules :: nat where
  "max_locked_modules = 512"

definition parse_module_lock :: "json \<Rightarrow> module_lock res" where
  "parse_module_lock item =
     (let name = get_none ''name'' item; version = get_none ''version'' item; digest = get_none ''sha256'' item in
      if \<not> is_dict item then lock_error ''PowerShell module entries must be objects''
      else if \<not> is_str name \<or> \<not> module_name_ok (py_str name)
      then lock_error (''Invalid PowerShell module name: '' @ py_repr name)
      else if \<not> is_str version \<or> \<not> module_version_ok (py_str version)
      then lock_error (''Invalid PowerShell module version: '' @ py_repr version)
      else if \<not> is_str digest \<or> \<not> any_hex_digest (py_str digest)
      then lock_error (''Invalid SHA-256 for module '' @ py_str name @ '' '' @ py_str version)
      else Inr \<lparr>ml_name = py_str name, ml_version = py_str version, ml_sha256 = py_lower (py_str digest),
        ml_require_verified = py_true (get_or ''require_verified'' (JBool False) item)\<rparr>)"

text \<open>The entries in order; the first argument holds the names seen so far.\<close>

fun parse_module_locks :: "string set \<Rightarrow> json list \<Rightarrow> module_lock list res" where
  "parse_module_locks seen [] = Inr []"
| "parse_module_locks seen (item # items) =
     res_bind (parse_module_lock item) (\<lambda>m.
     if casefold (ml_name m) \<in> seen then lock_error (''Duplicate PowerShell module lock: '' @ ml_name m)
     else res_bind (parse_module_locks (insert (casefold (ml_name m)) seen) items) (\<lambda>ms. Inr (m # ms)))"

section \<open>Native commands\<close>

definition max_locked_native :: nat where
  "max_locked_native = 256"

definition command_ok :: "string \<Rightarrow> bool" where
  "command_ok s = (case s of [] \<Rightarrow> False
     | c # r \<Rightarrow> is_alnum c \<and> length r \<le> 127 \<and> list_all (\<lambda>d. is_alnum d \<or> d \<in> set ''_.+-'') r)"

definition identifier_char :: "char \<Rightarrow> bool" where
  "identifier_char c \<longleftrightarrow> is_alnum c \<or> c = CHR ''_''"

text \<open>\<open>(?<name>\<close> of PowerShell becomes \<open>(?P<name>\<close>.\<close>

function python_pattern :: "string \<Rightarrow> string" where
  "python_pattern s = (case s of [] \<Rightarrow> []
     | c # r \<Rightarrow>
         (let t = drop 3 s; name = takeWhile identifier_char t; rest = dropWhile identifier_char t in
          if starts_with ''(?<'' s \<and> name \<noteq> [] \<and> \<not> is_digit (hd name) \<and> rest \<noteq> [] \<and> hd rest = CHR ''>''
          then ''(?P<'' @ name @ ''>'' @ python_pattern (tl rest)
          else c # python_pattern r))"
  by pat_completeness auto
termination
proof (relation "measure length", goal_cases)
  case (2 s c r t name rest)
  have "length (dropWhile identifier_char (drop 2 r)) \<le> length (drop 2 r)" by (rule length_dropWhile_le)
  with 2 show ?case by (auto simp: less_Suc_eq_le)
qed auto

declare python_pattern.simps [simp del]

definition parse_native_lock :: "(string \<Rightarrow> string + (nat \<times> bool)) \<Rightarrow> json \<Rightarrow> native_lock res" where
  "parse_native_lock groups item =
     (let name = get_none ''name'' item; command = get_or ''command'' name item;
          args = get_or ''version_args'' (JArr [JStr ''--version'']) item;
          pattern = get_none ''version_pattern'' item; expected = get_none ''expected_version'' item;
          texts = map py_str (list_items args); n = py_str name in
      if \<not> is_dict item then lock_error ''Native command entries must be objects''
      else if \<not> is_str name \<or> \<not> module_name_ok n then lock_error (''Invalid native dependency name: '' @ py_repr name)
      else if \<not> is_str command \<or> \<not> command_ok (py_str command)
      then lock_error (''Invalid native dependency command: '' @ py_repr command)
      else if \<not> is_list args \<or> \<not> list_all is_str (list_items args) \<or> list_ex (\<lambda>a. CHR 0x00 \<in> set a) texts
      then lock_error (''version_args for '' @ n @ '' must be an array of strings'')
      else if 32 < length texts \<or> 8192 < sum_list (map (\<lambda>a. length (utf8 a)) texts)
      then lock_error (''version_args for '' @ n @ '' exceed limits'')
      else if \<not> is_str pattern \<or> py_str pattern = [] \<or> 1024 < length (py_str pattern)
      then lock_error (''version_pattern for '' @ n @ '' is required and must be <=1024 characters'')
      else if \<not> is_str expected \<or> py_str expected = [] \<or> 256 < length (py_str expected)
      then lock_error (''expected_version for '' @ n @ '' is required'')
      else case groups (python_pattern (py_str pattern)) of
          Inl m \<Rightarrow> lock_error (''Invalid version_pattern for '' @ n @ '': '' @ m)
        | Inr (count, named) \<Rightarrow>
            if count < 1 \<and> \<not> named then lock_error (''version_pattern for '' @ n @ '' must contain a capture group'')
            else Inr \<lparr>nl_name = n, nl_command = py_str command, nl_version_args = texts,
              nl_version_pattern = py_str pattern, nl_expected_version = py_str expected,
              nl_required = py_true (get_or ''required'' (JBool True) item)\<rparr>)"

fun parse_native_locks :: "(string \<Rightarrow> string + (nat \<times> bool)) \<Rightarrow> string set \<Rightarrow> json list \<Rightarrow> native_lock list res" where
  "parse_native_locks groups seen [] = Inr []"
| "parse_native_locks groups seen (item # items) =
     res_bind (parse_native_lock groups item) (\<lambda>m.
     if casefold (nl_name m) \<in> seen then lock_error (''Duplicate native dependency lock: '' @ nl_name m)
     else res_bind (parse_native_locks groups (insert (casefold (nl_name m)) seen) items) (\<lambda>ms. Inr (m # ms)))"

section \<open>The lockfile\<close>

definition parse_lock :: "(string \<Rightarrow> string + (nat \<times> bool)) \<Rightarrow> json \<Rightarrow> (module_lock list \<times> native_lock list) res" where
  "parse_lock groups v =
     (let raw_modules = get_or ''powershell_modules'' (JArr []) v; raw_native = get_or ''native_commands'' (JArr []) v in
      if \<not> is_dict v \<or> \<not> eq_int (get_none ''schema'' v) 1 then lock_error ''Dependency lockfile schema must be 1''
      else if \<not> is_list raw_modules \<or> \<not> is_list raw_native then lock_error ''Dependency lists must be arrays''
      else if max_locked_modules < length (list_items raw_modules) \<or> max_locked_native < length (list_items raw_native)
      then lock_error ''Dependency lockfile exceeds entry limits''
      else
        res_bind (parse_module_locks {} (list_items raw_modules)) (\<lambda>modules.
        res_bind (parse_native_locks groups {} (list_items raw_native)) (\<lambda>native.
        Inr (sort_key (\<lambda>m. casefold (ml_name m)) modules, sort_key (\<lambda>m. casefold (nl_name m)) native))))"

definition load_dependency_lock ::
    "(string \<Rightarrow> string) \<Rightarrow> (string \<Rightarrow> string + (nat \<times> bool)) \<Rightarrow> node \<Rightarrow> string list \<Rightarrow> dependency_lock res" where
  "load_dependency_lock H groups fs path =
     res_bind (resolve fs path) (\<lambda>p.
     if \<not> is_file fs p then lock_error (''Dependency lockfile not found: '' @ path_text p)
     else
       res_bind (read_bytes fs p) (\<lambda>raw.
       case utf8_decode raw of
         None \<Rightarrow> lock_error ''Invalid dependency lockfile JSON: invalid utf-8''
       | Some t \<Rightarrow> (case loads t of
           None \<Rightarrow> lock_error ''Invalid dependency lockfile JSON: invalid JSON''
         | Some v \<Rightarrow> res_bind (parse_lock groups v) (\<lambda>(modules, native).
             Inr \<lparr>dl_path = p, dl_sha256 = H raw, dl_modules = modules, dl_native = native\<rparr>))))"

definition module_lock_row :: "module_lock \<Rightarrow> json" where
  "module_lock_row m = JObj [(''name'', JStr (ml_name m)), (''version'', JStr (ml_version m)),
     (''sha256'', JStr (ml_sha256 m)), (''require_verified'', JBool (ml_require_verified m))]"

definition native_lock_row :: "native_lock \<Rightarrow> json" where
  "native_lock_row m = JObj [(''name'', JStr (nl_name m)), (''command'', JStr (nl_command m)),
     (''version_args'', JArr (map JStr (nl_version_args m))), (''version_pattern'', JStr (nl_version_pattern m)),
     (''expected_version'', JStr (nl_expected_version m)), (''required'', JBool (nl_required m))]"

definition normalized_lock :: "dependency_lock \<Rightarrow> json" where
  "normalized_lock l = JObj [(''schema'', JInt 1), (''powershell_modules'', JArr (map module_lock_row (dl_modules l))),
     (''native_commands'', JArr (map native_lock_row (dl_native l)))]"

end
