(* ===== verification/Psm_ResolveProps.thy ===== *)
theory Psm_ResolveProps
  imports Psm_Resolve Psm_Locks "HOL-Library.Multiset"
begin

text \<open>
  What a resolved lock guarantees: every selection and every dependency of a chosen package is met by a chosen
  package of the index.
\<close>

section \<open>Comprehensions that may raise\<close>

lemma res_all_True: "res_all f xs = Inr True \<longleftrightarrow> (\<forall>x \<in> set xs. f x = Inr True)"
  by (induction xs) auto

lemma set_res_filter: "res_filter f xs = Inr ys \<Longrightarrow> set ys = {x \<in> set xs. f x = Inr True}"
proof -
  have "list_all2 (\<lambda>x b. f x = Inr b) xs bs \<Longrightarrow> set (map snd (filter fst (zip bs xs))) = {x \<in> set xs. f x = Inr True}" for bs
    by (induction rule: list_all2_induct) auto
  then show "res_filter f xs = Inr ys \<Longrightarrow> set ys = {x \<in> set xs. f x = Inr True}"
    by (auto simp: res_filter_def res_map_Inr_iff)
qed

lemma mset_res_sort: "res_sort f xs = Inr ys \<Longrightarrow> mset ys = mset xs"
proof -
  assume "res_sort f xs = Inr ys"
  then obtain ks where "res_map f xs = Inr ks" "ys = map snd (sort_key fst (zip ks xs))" by (auto simp: res_sort_def)
  then have "length ks = length xs" "mset ys = image_mset snd (mset (zip ks xs))" by (auto dest: res_map_length)
  then show ?thesis by (metis map_snd_zip mset_map)
qed

lemma mset_res_map:
  assumes "res_map f xs = Inr us" "res_map f ys = Inr vs" "mset ys = mset xs"
  shows "mset us = mset vs"
proof -
  have "us = map (\<lambda>x. projr (f x)) xs" "vs = map (\<lambda>x. projr (f x)) ys"
    using assms(1,2) by (auto simp: res_map_Inr_iff list_all2_conv_all_nth intro!: nth_equalityI)
  with assms(3) show ?thesis by simp
qed

lemma sorted_sort_id: "sorted (map f xs) \<Longrightarrow> sort_key f xs = xs"
  by (rule sort_key_id_if_sorted)

lemma sorted_res_sort:
  assumes "res_sort f xs = Inr ys" "res_map f ys = Inr ks"
  shows "sorted ks"
proof -
  from assms(1) obtain ks' where k: "res_map f xs = Inr ks'" "ys = map snd (sort_key fst (zip ks' xs))"
    by (auto simp: res_sort_def)
  have "\<forall>(k, x) \<in> set (zip ks' xs). f x = Inr k"
    using k(1) by (auto simp: res_map_Inr_iff list_all2_conv_all_nth in_set_zip)
  then have "list_all2 (\<lambda>x k. f x = Inr k) ys (map fst (sort_key fst (zip ks' xs)))"
    unfolding k(2) by (auto simp: list_all2_map1 list_all2_map2 intro!: list.rel_refl_strong)
  with assms(2) have "ks = map fst (sort_key fst (zip ks' xs))"
    by (auto simp: res_map_Inr_iff [symmetric])
  then show ?thesis by (simp only: sorted_sort_key)
qed

section \<open>The worklist\<close>

definition satisfied :: "resolution \<Rightarrow> string \<Rightarrow> string \<Rightarrow> bool" where
  "satisfied resolved name rng \<longleftrightarrow> (\<exists>item v. map_of resolved (casefold name) = Some item
     \<and> item_text ''version'' item = Inr v \<and> version_satisfies v rng = Inr True)"

definition settled :: "(string \<times> json list) list \<Rightarrow> resolution \<Rightarrow> ranges \<Rightarrow> bool" where
  "settled by_name resolved ranges \<longleftrightarrow> distinct (map fst resolved)
     \<and> (\<forall>k item. (k, item) \<in> set resolved \<longrightarrow> item \<in> set (candidates by_name k) \<and> meets (ranges k) item = Inr True)"

definition recorded :: "resolution \<Rightarrow> ranges \<Rightarrow> demand \<Rightarrow> bool" where
  "recorded resolved ranges d \<longleftrightarrow> casefold (dm_name d) \<in> fst ` set resolved
     \<and> (dm_range d, dm_parent d) \<in> set (ranges (casefold (dm_name d)))"

definition closed_under_demands :: "resolution \<Rightarrow> ranges \<Rightarrow> resolution \<Rightarrow> bool" where
  "closed_under_demands resolved ranges items \<longleftrightarrow>
     (\<forall>item \<in> snd ` set items. \<forall>ds. demands_of item = Inr ds \<longrightarrow> (\<forall>d \<in> set ds. recorded resolved ranges d))"

lemma meets_True:
  "meets rs item = Inr True \<longleftrightarrow>
    (\<forall>(rng, parent) \<in> set rs. \<exists>v. item_text ''version'' item = Inr v \<and> version_satisfies v rng = Inr True)"
  by (auto simp: meets_def res_all_True)

lemma resolve_loop_ok:
  assumes "resolve_loop by_name resolved ranges queue = Inr (resolved', ranges')" "settled by_name resolved ranges"
  shows "settled by_name resolved' ranges' \<and> (\<forall>k. set (ranges k) \<subseteq> set (ranges' k))
    \<and> (\<forall>d \<in> set queue. recorded resolved' ranges' d)
    \<and> (\<exists>new. resolved' = resolved @ new \<and> closed_under_demands resolved' ranges' new)"
  using assms
proof (induction by_name resolved ranges queue rule: resolve_loop.induct)
  case (1 by_name resolved ranges)
  then show ?case by (auto simp: closed_under_demands_def)
next
  case (2 by_name resolved ranges d queue)
  let ?k = "casefold (dm_name d)"
  let ?rs = "ranges ?k @ [(dm_range d, dm_parent d)]"
  let ?r = "ranges(?k := ?rs)"
  have grow: "set (ranges k) \<subseteq> set (?r k)" for k by auto
  show ?case
  proof (cases "map_of resolved ?k")
    case (Some current)
    with "2.prems"(1) have m: "meets ?rs current = Inr True" and l: "resolve_loop by_name resolved ?r queue = Inr (resolved', ranges')"
      by (auto simp: resolve_loop.simps(2) Let_def split: if_splits)
    have "settled by_name resolved ?r"
      unfolding settled_def
    proof (intro conjI allI impI)
      fix k item
      assume "(k, item) \<in> set resolved"
      with "2.prems"(2) have i: "map_of resolved k = Some item" "item \<in> set (candidates by_name k)" "meets (ranges k) item = Inr True"
        unfolding settled_def by (simp_all add: map_of_is_SomeI)
      show "item \<in> set (candidates by_name k)" by (rule i(2))
      show "meets (?r k) item = Inr True" using i(1,3) Some m by (cases "k = ?k") simp_all
    qed (use "2.prems"(2) in \<open>simp add: settled_def\<close>)
    from "2.IH"(2) [OF refl refl refl Some m _ l this] have ih: "settled by_name resolved' ranges'"
        "\<forall>k. set (?r k) \<subseteq> set (ranges' k)" "\<forall>d \<in> set queue. recorded resolved' ranges' d"
        "\<exists>new. resolved' = resolved @ new \<and> closed_under_demands resolved' ranges' new" by auto
    moreover from Some have "?k \<in> fst ` set resolved" by (force dest: map_of_SomeD)
    moreover have "(dm_range d, dm_parent d) \<in> set (ranges' ?k)" using ih(2) [rule_format, of ?k] by auto
    moreover have "set (ranges k) \<subseteq> set (ranges' k)" for k using ih(2) grow by blast
    ultimately show ?thesis by (auto simp: recorded_def)
  next
    case None
    with "2.prems"(1) obtain found where found: "res_filter (meets ?rs) (candidates by_name ?k) = Inr found"
        "(case found of [] \<Rightarrow> unsatisfied (dm_name d) ?rs | selected # _ \<Rightarrow> res_bind (demands_of selected) (\<lambda>new.
            resolve_loop by_name (resolved @ [(?k, selected)]) ?r (queue @ new))) = Inr (resolved', ranges')"
      by (auto simp: resolve_loop.simps(2) Let_def)
    then obtain selected rest new where f: "res_filter (meets ?rs) (candidates by_name ?k) = Inr (selected # rest)"
        "demands_of selected = Inr new"
        and l: "resolve_loop by_name (resolved @ [(?k, selected)]) ?r (queue @ new) = Inr (resolved', ranges')"
      by (cases found) auto
    have "selected \<in> set (candidates by_name ?k)" "meets ?rs selected = Inr True"
      using set_res_filter [OF f(1)] by auto
    moreover have "?k \<notin> fst ` set resolved" using None by (simp add: map_of_eq_None_iff)
    ultimately have "settled by_name (resolved @ [(?k, selected)]) ?r"
      using "2.prems"(2) unfolding settled_def by (fastforce simp: image_iff)
    from "2.IH"(1) [OF refl refl refl None f(1) refl f(2) l this] obtain new' where ih: "settled by_name resolved' ranges'"
        "\<forall>k. set (?r k) \<subseteq> set (ranges' k)" "\<forall>d \<in> set (queue @ new). recorded resolved' ranges' d"
        "resolved' = (resolved @ [(?k, selected)]) @ new'" "closed_under_demands resolved' ranges' new'" by auto
    have "(dm_range d, dm_parent d) \<in> set (ranges' ?k)" using ih(2) [rule_format, of ?k] by auto
    then have "recorded resolved' ranges' d" using ih(4) by (simp add: recorded_def)
    moreover have "closed_under_demands resolved' ranges' ((?k, selected) # new')"
      using ih(3,5) f(2) by (auto simp: closed_under_demands_def)
    moreover have "set (ranges k) \<subseteq> set (ranges' k)" for k using ih(2) grow by blast
    ultimately show ?thesis using ih(1,3,4) by auto
  qed
qed

lemma packages_by_name_in:
  assumes "packages_by_name records = Inr by_name" "item \<in> set (candidates by_name k)"
  shows "item \<in> set records" "\<exists>n. item_text ''name'' item = Inr n \<and> casefold n = k"
proof -
  from assms(1) obtain pairs where p: "res_map (\<lambda>i. res_bind (item_text ''name'' i) (\<lambda>n. Inr (casefold n, i))) records = Inr pairs"
      "res_map (\<lambda>k. res_bind (newest_first (map snd (filter (\<lambda>p. fst p = k) pairs))) (\<lambda>items. Inr (k, items)))
        (dedup_first (map fst pairs)) = Inr by_name"
    by (auto simp: packages_by_name_def)
  from assms(2) obtain items where "(k, items) \<in> set by_name" "item \<in> set items"
    by (cases "map_of by_name k") (auto simp: candidates_def dest: map_of_SomeD)
  with res_map_in [OF p(2)] have n: "newest_first (map snd (filter (\<lambda>p. fst p = k) pairs)) = Inr items" by auto
  then have "set items \<subseteq> snd ` set (filter (\<lambda>p. fst p = k) pairs)"
    by (fastforce simp: newest_first_def dest: set_zip_rightD)
  with \<open>item \<in> set items\<close> have "(k, item) \<in> set pairs" by auto
  with res_map_in [OF p(1)] show "item \<in> set records" "\<exists>n. item_text ''name'' item = Inr n \<and> casefold n = k" by auto
qed

lemma recorded_satisfied:
  assumes "settled by_name resolved ranges" "recorded resolved ranges d"
  shows "satisfied resolved (dm_name d) (dm_range d)"
proof -
  let ?k = "casefold (dm_name d)"
  from assms(2) obtain item where i: "map_of resolved ?k = Some item"
    unfolding recorded_def by (metis map_of_eq_None_iff not_Some_eq)
  with assms(1) have "meets (ranges ?k) item = Inr True" by (auto simp: settled_def dest: map_of_SomeD)
  with assms(2) have "\<exists>v. item_text ''version'' item = Inr v \<and> version_satisfies v (dm_range d) = Inr True"
    by (auto simp: meets_True recorded_def)
  with i show ?thesis by (auto simp: satisfied_def)
qed

lemma resolve_selections_ok:
  assumes "resolve_selections records selections = Inr resolved"
  shows "distinct (map fst resolved)"
    and "(k, item) \<in> set resolved \<Longrightarrow> item \<in> set records \<and> (\<exists>n. item_text ''name'' item = Inr n \<and> casefold n = k)"
    and "(name, version) \<in> set selections \<Longrightarrow> satisfied resolved name (''['' @ version @ '']'')"
    and "(k, item) \<in> set resolved \<Longrightarrow> demands_of item = Inr ds \<Longrightarrow> d \<in> set ds \<Longrightarrow> satisfied resolved (dm_name d) (dm_range d)"
proof -
  from assms obtain by_name queue ranges where k: "packages_by_name records = Inr by_name"
      "res_map root_demand selections = Inr queue" "resolve_loop by_name [] (\<lambda>k. []) queue = Inr (resolved, ranges)"
    by (auto simp: resolve_selections_def)
  have "settled by_name [] (\<lambda>k. [])" by (simp add: settled_def)
  from resolve_loop_ok [OF k(3) this] have r: "settled by_name resolved ranges"
      "\<forall>d \<in> set queue. recorded resolved ranges d" "closed_under_demands resolved ranges resolved" by auto
  from r(1) show "distinct (map fst resolved)" by (simp add: settled_def)
  show "item \<in> set records \<and> (\<exists>n. item_text ''name'' item = Inr n \<and> casefold n = k)" if "(k, item) \<in> set resolved"
  proof -
    from that r(1) have "item \<in> set (candidates by_name k)" by (simp add: settled_def)
    with packages_by_name_in [OF k(1) this] show ?thesis by simp
  qed
  show "satisfied resolved name (''['' @ version @ '']'')" if "(name, version) \<in> set selections"
  proof -
    from res_map_all [OF k(2) that] obtain d where "d \<in> set queue" "dm_name d = name" "dm_range d = ''['' @ version @ '']''"
      by (auto simp: root_demand_def)
    with recorded_satisfied [OF r(1), of d] r(2) show ?thesis by simp
  qed
  show "satisfied resolved (dm_name d) (dm_range d)" if "(k, item) \<in> set resolved" "demands_of item = Inr ds" "d \<in> set ds"
    using that r(3) by (intro recorded_satisfied [OF r(1)]) (auto simp: closed_under_demands_def)
qed

lemma list_packages_index: "list_packages H [] m = Inr records \<longleftrightarrow> (\<exists>v. load_index H m = Inr v \<and> records = index_packages v)"
  by (auto simp: list_packages_def)

text \<open>C36: A lock that is resolved against the mirror holds one package of its index for each name, meets every
  selection with its exact version, and meets every dependency of every package in it with a package in it.\<close>

theorem lock_closed:
  assumes "resolve_mirror_lock H selections require_verified m = Inr payload"
  shows "\<exists>v resolved items. load_index H m = Inr v \<and> mset items = mset (map snd resolved)
    \<and> res_map (lock_row require_verified) items = Inr (list_items (get_none ''powershell_modules'' payload))
    \<and> distinct (map fst resolved)
    \<and> (\<forall>(k, item) \<in> set resolved. item \<in> set (index_packages v) \<and> (\<exists>n. item_text ''name'' item = Inr n \<and> casefold n = k))
    \<and> (\<forall>(name, version) \<in> set selections. satisfied resolved name (''['' @ version @ '']''))
    \<and> (\<forall>item \<in> set items. \<forall>ds. demands_of item = Inr ds \<longrightarrow> (\<forall>d \<in> set ds. satisfied resolved (dm_name d) (dm_range d)))"
proof -
  from assms obtain v resolved items modules graph where k: "load_index H m = Inr v"
      "resolve_selections (index_packages v) selections = Inr resolved" "by_item_name (map snd resolved) = Inr items"
      "res_map (lock_row require_verified) items = Inr modules" "payload = lock_payload H modules graph"
    by (auto simp: resolve_mirror_lock_def list_packages_index)
  note ok = resolve_selections_ok [OF k(2)]
  have ms: "mset items = mset (map snd resolved)" using k(3) unfolding by_item_name_def by (rule mset_res_sort)
  then have "set items = snd ` set resolved" by (metis set_map set_mset_mset)
  moreover have "list_items (get_none ''powershell_modules'' payload) = modules"
    by (simp add: k(5) lock_payload_def get_or_JObj)
  ultimately show ?thesis using k(1,4) ms ok
    by (intro exI [of _ v] exI [of _ resolved] exI [of _ items] conjI) auto
qed

section \<open>Reading the lock back\<close>

definition row_ok :: "json \<Rightarrow> bool" where
  "row_ok item \<longleftrightarrow> (\<exists>name version digest. jget ''name'' item = Some (JStr name) \<and> module_name_ok name
     \<and> jget ''version'' item = Some (JStr version) \<and> module_version_ok version
     \<and> jget ''sha256'' item = Some (JStr digest) \<and> hex_digest_text digest)"

lemma hex_digest_any: "hex_digest_text s \<Longrightarrow> any_hex_digest s \<and> py_lower s = s"
proof -
  assume s: "hex_digest_text s"
  have "\<forall>c \<in> set ''0123456789abcdef''. lower_char c = c \<and> c \<in> set ''0123456789abcdefABCDEF''" by code_simp
  with s have "\<forall>c \<in> set s. lower_char c = c" "\<forall>c \<in> set s. c \<in> set ''0123456789abcdefABCDEF''"
    unfolding hex_digest_text_def list_all_iff by blast+
  with s show ?thesis unfolding hex_digest_text_def any_hex_digest_def py_lower_def list_all_iff by (metis map_idI)
qed

lemma lock_row_ok:
  assumes "row_ok item" "lock_row b item = Inr row"
  shows "\<exists>m. parse_module_lock row = Inr m \<and> module_lock_row m = row \<and> Inr (ml_name m) = item_text ''name'' item"
proof -
  from assms(1) obtain name version digest where r: "jget ''name'' item = Some (JStr name)" "module_name_ok name"
      "jget ''version'' item = Some (JStr version)" "module_version_ok version"
      "jget ''sha256'' item = Some (JStr digest)" "hex_digest_text digest" unfolding row_ok_def by blast
  have "is_dict item" using r(1) by (cases item) (simp_all add: jget_def)
  with r have t: "item_text ''name'' item = Inr name" "item_text ''version'' item = Inr version" "item_text ''sha256'' item = Inr digest"
    by (simp_all add: item_text_def jitem_def)
  with assms(2) have "row = JObj [(''name'', JStr name), (''version'', JStr version), (''sha256'', JStr digest), (''require_verified'', JBool b)]"
    by (simp add: lock_row_def)
  with r(2,4) t hex_digest_any [OF r(6)] show ?thesis
    by (simp add: parse_module_lock_def get_or_JObj module_lock_row_def Let_def)
qed

lemma parse_rows:
  assumes "list_all2 (\<lambda>row m. parse_module_lock row = Inr m) rows ms" "distinct (map (\<lambda>m. casefold (ml_name m)) ms)"
    and "seen \<inter> set (map (\<lambda>m. casefold (ml_name m)) ms) = {}"
  shows "parse_module_locks seen rows = Inr ms"
  using assms by (induction arbitrary: seen rule: list_all2_induct) auto

text \<open>Rows of items with distinct folded names, in the order of the names, are accepted and pin exactly the items.\<close>

lemma lock_rows_parse:
  assumes "by_item_name (map snd selected) = Inr items" "distinct (map fst selected)"
    and "\<And>k item. (k, item) \<in> set selected \<Longrightarrow> row_ok item \<and> (\<exists>n. item_text ''name'' item = Inr n \<and> casefold n = k)"
    and "list_all2 (\<lambda>item row. lock_row b item = Inr row) items rows" "length rows \<le> max_locked_modules"
    and "is_dict payload" "get_none ''schema'' payload = JInt 1" "get_or ''native_commands'' (JArr []) payload = JArr []"
    and "get_or ''powershell_modules'' (JArr []) payload = JArr rows"
  shows "\<exists>modules. parse_lock groups payload = Inr (modules, []) \<and> map module_lock_row modules = rows"
proof -
  have ms: "mset items = mset (map snd selected)" using assms(1) unfolding by_item_name_def by (rule mset_res_sort)
  have items: "set items = snd ` set selected" using ms by (metis set_map set_mset_mset)
  have row: "row_ok item" if "item \<in> set items" for item using that items assms(3) by auto
  define lock where "lock row = (case parse_module_lock row of Inr m \<Rightarrow> m)" for row
  have parsed: "parse_module_lock r = Inr (lock r) \<and> module_lock_row (lock r) = r \<and> Inr (ml_name (lock r)) = item_text ''name'' i"
    if "i \<in> set items" "lock_row b i = Inr r" for i r
    using lock_row_ok [OF row [OF that(1)] that(2)] by (auto simp: lock_def)
  let ?ms = "map lock rows"
  have all: "list_all2 (\<lambda>i r. parse_module_lock r = Inr (lock r) \<and> module_lock_row (lock r) = r
      \<and> Inr (ml_name (lock r)) = item_text ''name'' i) items rows"
    using assms(4) parsed by (rule list.rel_mono_strong)
  have keys: "res_map (\<lambda>i. res_bind (item_text ''name'' i) (\<lambda>n. Inr (casefold n))) items = Inr (map (\<lambda>m. casefold (ml_name m)) ?ms)"
    unfolding res_map_Inr_iff list_all2_map2
    using all by (rule list_all2_mono) (metis res_bind_simps(2))
  then have sorted: "sorted (map (\<lambda>m. casefold (ml_name m)) ?ms)"
    using assms(1) sorted_res_sort unfolding by_item_name_def by blast
  have "distinct (map (\<lambda>m. casefold (ml_name m)) ?ms)"
  proof -
    have "res_map (\<lambda>i. res_bind (item_text ''name'' i) (\<lambda>n. Inr (casefold n))) (map snd selected) = Inr (map fst selected)"
      unfolding res_map_Inr_iff list_all2_map1 list_all2_map2 using assms(3) by (auto intro!: list.rel_refl_strong)
    then have "mset (map fst selected) = mset (map (\<lambda>m. casefold (ml_name m)) ?ms)"
      using keys ms by (rule mset_res_map)
    then show ?thesis using assms(2) by (metis mset_eq_imp_distinct_iff)
  qed
  moreover have "list_all2 (\<lambda>row m. parse_module_lock row = Inr m) rows ?ms"
    using all by (auto simp: list_all2_conv_all_nth)
  ultimately have "parse_module_locks {} rows = Inr ?ms" by (intro parse_rows) simp_all
  moreover have "sort_key (\<lambda>m. casefold (ml_name m)) ?ms = ?ms" using sorted by (rule sorted_sort_id)
  moreover have "map module_lock_row ?ms = rows"
    using all by (auto simp: list_all2_conv_all_nth intro: nth_equalityI)
  ultimately show ?thesis using assms(5-9) by (simp add: parse_lock_def Let_def)
qed

text \<open>The lock a resolution writes is accepted by the loader of lockfiles and pins exactly its packages.\<close>

lemma lock_accepted:
  assumes "resolve_mirror_lock H selections b m = Inr payload" "load_index H m = Inr v" "list_all row_ok (index_packages v)"
    and "length (list_items (get_none ''powershell_modules'' payload)) \<le> max_locked_modules"
  shows "\<exists>modules. parse_lock groups payload = Inr (modules, [])
    \<and> map module_lock_row modules = list_items (get_none ''powershell_modules'' payload)"
proof -
  from assms(1,2) obtain resolved items rows graph where k:
      "resolve_selections (index_packages v) selections = Inr resolved" "by_item_name (map snd resolved) = Inr items"
      "res_map (lock_row b) items = Inr rows" "payload = lock_payload H rows graph"
    by (auto simp: resolve_mirror_lock_def list_packages_index)
  note ok = resolve_selections_ok [OF k(1)]
  have "row_ok item \<and> (\<exists>n. item_text ''name'' item = Inr n \<and> casefold n = key)" if "(key, item) \<in> set resolved" for key item
    using ok(2) [OF that] assms(3) by (simp add: list_all_iff)
  moreover have "list_items (get_none ''powershell_modules'' payload) = rows" by (simp add: k(4) lock_payload_def get_or_JObj)
  ultimately show ?thesis
    using lock_rows_parse [OF k(2) ok(1), of b rows payload groups] k(3) assms(4)
    by (simp add: res_map_Inr_iff k(4) lock_payload_def get_or_JObj)
qed

end
