(* ===== verification/Psm_MirrorProps.thy ===== *)
theory Psm_MirrorProps
  imports Psm_ResolveProps
begin

text \<open>
  What a mirror that was only ever filled by adding packages holds: an index whose entries name distinct packages
  that are stored with their digest and size, so that it verifies and its locks can be loaded.
\<close>

section \<open>A new file in a tree\<close>

definition open_way :: "node \<Rightarrow> string list \<Rightarrow> bool" where
  "open_way t p \<longleftrightarrow> (\<forall>i < length p. \<forall>x. lookup_node t (take i p) = Some x \<longrightarrow> (\<exists>es. x = Folder es))"

lemma open_way_Cons:
  assumes "open_way (Folder es) (p # ps)"
  shows "open_way (case map_of es p of Some y \<Rightarrow> y | None \<Rightarrow> Folder []) ps"
proof (cases "map_of es p")
  case None
  have "lookup_node (Folder []) (take i ps) = Some x \<Longrightarrow> x = Folder []" for i x by (cases "take i ps") simp_all
  with None show ?thesis by (auto simp: open_way_def)
next
  case (Some y)
  show ?thesis unfolding open_way_def
  proof (intro allI impI)
    fix i x
    assume "i < length ps" "lookup_node (case map_of es p of Some y \<Rightarrow> y | None \<Rightarrow> Folder []) (take i ps) = Some x"
    with Some assms [unfolded open_way_def, rule_format, of "Suc i" x] show "\<exists>es. x = Folder es" by simp
  qed
qed

lemma lookup_Nil_Folder: "lookup_node (Folder []) ps = Some x \<Longrightarrow> ps = [] \<and> x = Folder []"
  by (cases ps) simp_all

lemma open_way_start: "open_way t (p # ps) \<Longrightarrow> \<exists>es. t = Folder es"
  unfolding open_way_def by (metis length_greater_0_conv list.distinct(1) lookup_node.simps(1) take0)

text \<open>What is in the tree after the file was written\<close>

lemma lookup_set_new:
  assumes "open_way t p" "lookup_node (set_file t p c) q = Some x"
  shows "q = p \<and> x = RegFile c \<or> (\<exists>es. x = Folder es) \<or> q \<noteq> p \<and> lookup_node t q = Some x"
  using assms
proof (induction t p c arbitrary: q rule: set_file.induct)
  case (1 t c)
  then show ?case by (cases q) simp_all
next
  case (2 es p ps c)
  show ?case
  proof (cases q)
    case Nil
    with "2.prems"(2) show ?thesis by auto
  next
    case (Cons r rs)
    show ?thesis
    proof (cases "r = p")
      case True
      let ?y = "case map_of es p of Some y \<Rightarrow> y | None \<Rightarrow> Folder []"
      from "2.prems"(2) Cons True have "lookup_node (set_file ?y ps c) rs = Some x" by (simp add: update_conv)
      from "2.IH" [OF open_way_Cons [OF "2.prems"(1)] this] Cons True show ?thesis
        by (auto dest: lookup_Nil_Folder split: option.splits)
    next
      case False
      with "2.prems"(2) Cons show ?thesis by (simp add: update_conv)
    qed
  qed
qed (auto dest: open_way_start)

lemma lookup_set_here: "open_way t p \<Longrightarrow> lookup_node (set_file t p c) p = Some (RegFile c)"
proof (induction t p c rule: set_file.induct)
  case (2 es p ps c)
  from "2.IH" [OF open_way_Cons [OF "2.prems"]] show ?case by (simp add: update_conv)
qed (auto dest: open_way_start)

lemma lookup_set_kept:
  "lookup_node t p = None \<Longrightarrow> lookup_node t q = Some (RegFile b) \<Longrightarrow> lookup_node (set_file t p c) q = Some (RegFile b)"
proof (induction t p c arbitrary: q rule: set_file.induct)
  case (2 es p ps c)
  then obtain r rs where q: "q = r # rs" by (cases q) simp_all
  show ?case
  proof (cases "r = p")
    case True
    with "2.prems"(2) q obtain y where y: "map_of es p = Some y" "lookup_node y rs = Some (RegFile b)" by (auto split: option.splits)
    with "2.prems"(1) have "lookup_node y ps = None" by simp
    with "2.IH" [of rs] y q True show ?thesis by (simp add: update_conv)
  next
    case False
    with "2.prems"(2) q show ?thesis by (simp add: update_conv)
  qed
qed auto

section \<open>The packages folder\<close>

definition package_dir :: "string list \<Rightarrow> string list" where
  "package_dir root = root @ [''packages'']"

text \<open>Below the packages folder there are folders, and files at depth three.\<close>

definition packages_shape :: "string list \<Rightarrow> node \<Rightarrow> bool" where
  "packages_shape root t \<longleftrightarrow> (\<exists>es. lookup_node t root = Some (Folder es)) \<and> list_all plain_part root \<and> link_free t root
     \<and> (\<forall>q x. lookup_node t (package_dir root @ q) = Some x \<longrightarrow> (\<exists>es. x = Folder es) \<or> (\<exists>b. x = RegFile b \<and> length q = 3))"

lemma lookup_prefix: "lookup_node t (p @ q) = Some x \<Longrightarrow> \<exists>y. lookup_node t p = Some y"
  by (induction t p rule: lookup_node.induct) (auto split: option.splits)

lemma lookup_prefix_Folder: "lookup_node t (p @ r # q) = Some x \<Longrightarrow> \<exists>es. lookup_node t p = Some (Folder es)"
  using lookup_append_Folder by blast

lemma root_prefix:
  assumes "packages_shape root t" "i \<le> length root"
  shows "\<exists>es. lookup_node t (take i root) = Some (Folder es)"
proof (cases "i = length root")
  case True
  with assms(1) show ?thesis by (simp add: packages_shape_def)
next
  case False
  with assms(2) have "root = take i root @ root ! i # drop (Suc i) root" by (simp add: id_take_nth_drop)
  moreover from assms(1) obtain es where "lookup_node t root = Some (Folder es)" by (auto simp: packages_shape_def)
  ultimately show ?thesis by (metis lookup_prefix_Folder)
qed

lemma package_way:
  assumes "packages_shape root t" "length q = 3"
  shows "open_way t (package_dir root @ q)" "link_free t (package_dir root @ q)"
proof -
  have f: "(\<exists>es. x = Folder es) \<or> (\<exists>b. x = RegFile b \<and> i = length (package_dir root @ q))"
    if "i \<le> length (package_dir root @ q)" "lookup_node t (take i (package_dir root @ q)) = Some x" for i x
  proof (cases "i \<le> length root")
    case True
    with that(2) root_prefix [OF assms(1) True] show ?thesis by (auto simp: package_dir_def)
  next
    case False
    then obtain j where j: "i = Suc (length root) + j" by (metis Suc_leI add_Suc less_iff_Suc_add not_le add.commute)
    with that(2) have "lookup_node t (package_dir root @ take j q) = Some x" by (simp add: package_dir_def)
    with assms(1) have "(\<exists>es. x = Folder es) \<or> (\<exists>b. x = RegFile b \<and> length (take j q) = 3)" unfolding packages_shape_def by blast
    with j that(1) assms(2) show ?thesis by (auto simp: package_dir_def)
  qed
  then show "open_way t (package_dir root @ q)" unfolding open_way_def by (metis less_imp_le nat_neq_iff)
  show "link_free t (package_dir root @ q)" unfolding link_free_def using f by blast
qed

lemma packages_shape_set:
  assumes "packages_shape root t" "length q = 3" "lookup_node t (package_dir root @ q) = None"
  shows "packages_shape root (set_file t (package_dir root @ q) c)"
proof -
  let ?p = "package_dir root @ q"
  note way = package_way [OF assms(1,2)]
  have new: "lookup_node (set_file t ?p c) r = Some x \<Longrightarrow> r = ?p \<and> x = RegFile c \<or> (\<exists>es. x = Folder es) \<or> lookup_node t r = Some x" for r x
    using lookup_set_new [OF way(1)] by blast
  have "\<exists>x. lookup_node (set_file t ?p c) root = Some x"
    using lookup_set_here [OF way(1), of c] lookup_prefix [of _ root "''packages'' # q"] by (simp add: package_dir_def)
  then obtain x where x: "lookup_node (set_file t ?p c) root = Some x" by blast
  with new [OF x] assms(1) have "\<exists>es. x = Folder es" by (auto simp: packages_shape_def package_dir_def)
  moreover have "link_free (set_file t ?p c) root"
    unfolding link_free_def
  proof (intro allI impI notI)
    fix i l
    assume i: "i \<le> length root" "lookup_node (set_file t ?p c) (take i root) = Some (Link l)"
    with new [OF i(2)] have "lookup_node t (take i root) = Some (Link l)" by (auto simp: package_dir_def)
    with assms(1) i(1) show False by (auto simp: packages_shape_def link_free_def)
  qed
  moreover have "(\<exists>es. y = Folder es) \<or> (\<exists>b. y = RegFile b \<and> length r = 3)"
    if "lookup_node (set_file t ?p c) (package_dir root @ r) = Some y" for r y
    using new [OF that] assms(1,2) by (auto simp: packages_shape_def)
  ultimately show ?thesis using assms(1) x by (auto simp: packages_shape_def)
qed

section \<open>Index entries\<close>

lemma alnum_part:
  assumes "s = c # r" "is_alnum c" "CHR ''/'' \<notin> set r"
  shows "plain_part s"
  using assms by (auto simp: plain_part_def is_alnum_def is_alpha_def is_digit_def Let_def)

lemma name_part: "module_name_ok n \<Longrightarrow> plain_part n"
  by (cases n) (auto simp: module_name_ok_def list_all_iff is_alnum_def is_alpha_def is_digit_def Let_def intro!: alnum_part)

lemma version_tail_chars: "version_tail_ok s \<Longrightarrow> CHR ''/'' \<notin> set s"
  by (cases s) (auto simp: version_tail_ok_def list_all_iff is_alnum_def is_alpha_def is_digit_def Let_def)

lemma digit_start:
  assumes "list_all (\<lambda>p. p \<noteq> [] \<and> list_all is_digit p) (split_on c s)" "\<not> is_digit c"
  shows "s \<noteq> [] \<and> is_digit (hd s)"
proof (cases s)
  case (Cons x xs)
  show ?thesis
  proof (cases "x = c")
    case False
    with assms(1) Cons show ?thesis by (cases "split_on c xs") auto
  qed (use assms Cons in auto)
qed (use assms in simp)

lemma version_chars:
  assumes "module_version_ok v"
  shows "CHR ''/'' \<notin> set v" "v \<noteq> []" "is_digit (hd v)"
proof -
  let ?n = "takeWhile number_char v" and ?r = "dropWhile number_char v"
  have n: "dotted_numbers ?n" and r: "version_tail_ok ?r" using assms by (simp_all add: module_version_ok_def)
  have "CHR ''/'' \<notin> set ?n" by (auto dest: set_takeWhileD simp: number_char_def is_digit_def)
  moreover have "CHR ''/'' \<notin> set ?r"
    using r by (rule version_tail_chars)
  ultimately show "CHR ''/'' \<notin> set v" by (metis Un_iff set_append takeWhile_dropWhile_id)
  from n have "list_all (\<lambda>p. p \<noteq> [] \<and> list_all is_digit p) (split_on (CHR ''.'') ?n)" by (simp add: dotted_numbers_def Let_def)
  then show "v \<noteq> []" "is_digit (hd v)" using digit_start [of "CHR ''.''" ?n] by (cases v; auto simp: number_char_def split: if_splits)+
qed

lemma version_part: "module_version_ok v \<Longrightarrow> plain_part v"
  using version_chars [of v] by (cases v) (auto simp: is_alnum_def intro: alnum_part)

lemma digest_part:
  assumes "hex_digest_text d"
  shows "plain_part (d @ ''.nupkg'')"
proof -
  have "d \<noteq> []" using assms by (auto simp: hex_digest_text_def)
  then obtain c r where d: "d = c # r" by (cases d) auto
  have "\<forall>c \<in> set ''0123456789abcdef''. is_alnum c \<and> c \<noteq> CHR ''/''" by code_simp
  moreover have "\<forall>c \<in> set d. c \<in> set ''0123456789abcdef''" using assms unfolding hex_digest_text_def list_all_iff by (rule conjunct2)
  ultimately have "\<forall>c \<in> set d. is_alnum c \<and> c \<noteq> CHR ''/''" by blast
  with d show ?thesis by (intro alnum_part [of _ c "r @ ''.nupkg''"]) auto
qed

definition stored_path :: "string list \<Rightarrow> string \<Rightarrow> string \<Rightarrow> string \<Rightarrow> string list" where
  "stored_path root name version digest = package_dir root @ [name, version, digest @ ''.nupkg'']"

lemma stored_path_eq: "root @ package_path name version digest = stored_path root name version digest"
  by (simp add: package_path_def stored_path_def package_dir_def)

definition entry_ok :: "(string \<Rightarrow> string) \<Rightarrow> string list \<Rightarrow> node \<Rightarrow> json \<Rightarrow> bool" where
  "entry_ok H root t item \<longleftrightarrow> (\<exists>name version b source at ds k. item =
       package_row name version (H b) (int (length b)) (posix (package_path name version (H b))) source at ds
     \<and> module_name_ok name \<and> module_version_ok version \<and> hex_digest_text (H b)
     \<and> module_version_key version = Inr k \<and> lookup_node t (stored_path root name version (H b)) = Some (RegFile b))"

definition row_key :: "json \<Rightarrow> string \<times> string" where
  "row_key item = (casefold (text_field ''name'' item), text_field ''version'' item)"

definition rows_ok :: "(string \<Rightarrow> string) \<Rightarrow> string list \<Rightarrow> node \<Rightarrow> json list \<Rightarrow> bool" where
  "rows_ok H root t rows \<longleftrightarrow> list_all (entry_ok H root t) rows \<and> distinct (map row_key rows)"

text \<open>A file whose name announces a digest has it.\<close>

definition contents_ok :: "(string \<Rightarrow> string) \<Rightarrow> string list \<Rightarrow> node \<Rightarrow> bool" where
  "contents_ok H root t \<longleftrightarrow> (\<forall>name version digest b.
     lookup_node t (stored_path root name version digest) = Some (RegFile b) \<longrightarrow> H b = digest)"

definition mirror_ok :: "(string \<Rightarrow> string) \<Rightarrow> mirror \<Rightarrow> bool" where
  "mirror_ok H m \<longleftrightarrow> packages_shape (mi_root m) (mi_tree m) \<and> contents_ok H (mi_root m) (mi_tree m)
     \<and> (\<exists>v rows. load_index H m = Inr v \<and> is_dict v \<and> get_none ''packages'' v = JArr rows
          \<and> rows_ok H (mi_root m) (mi_tree m) rows)"

lemma package_row_fields:
  "get_or ''name'' d (package_row n v g i p s a ds) = JStr n" "get_or ''version'' d (package_row n v g i p s a ds) = JStr v"
  "get_or ''sha256'' d (package_row n v g i p s a ds) = JStr g" "get_or ''size'' d (package_row n v g i p s a ds) = JInt i"
  "get_or ''path'' d (package_row n v g i p s a ds) = JStr p" "is_dict (package_row n v g i p s a ds)"
  "jitem ''name'' (package_row n v g i p s a ds) = Inr (JStr n)" "jitem ''version'' (package_row n v g i p s a ds) = Inr (JStr v)"
  by (simp_all add: package_row_def get_or_JObj jitem_def)

lemma same_package_row:
  "same_package name version (package_row n v g i p s a ds) = Inr (casefold n = casefold name \<and> v = version)"
  by (simp add: same_package_def same_name_def package_row_fields)

lemma row_key_row: "row_key (package_row n v g i p s a ds) = (casefold n, v)"
  by (cases n; cases v) (simp_all add: row_key_def text_field_def py_or_def package_row_fields)

lemma entry_same_package: "entry_ok H root t item \<Longrightarrow> same_package name version item = Inr (row_key item = (casefold name, version))"
  by (auto simp: entry_ok_def same_package_row row_key_row)

lemma entry_row_ok: "entry_ok H root t item \<Longrightarrow> row_ok item"
  by (auto simp: entry_ok_def row_ok_def package_row_def)

lemma entry_kept:
  "entry_ok H root t item \<Longrightarrow> lookup_node t p = None \<Longrightarrow> entry_ok H root (set_file t p c) item"
  unfolding entry_ok_def using lookup_set_kept by metis

lemma res_filter_pure: "(\<And>x. x \<in> set xs \<Longrightarrow> f x = Inr (P x)) \<Longrightarrow> res_filter f xs = Inr (filter P xs)"
proof -
  assume f: "\<And>x. x \<in> set xs \<Longrightarrow> f x = Inr (P x)"
  then have "res_map f xs = Inr (map P xs)"
    by (auto simp: res_map_Inr_iff list_all2_map2 intro!: list.rel_refl_strong)
  moreover have "map snd (filter fst (zip (map P xs) xs)) = filter P xs" by (induction xs) simp_all
  ultimately show ?thesis by (simp add: res_filter_def)
qed

section \<open>Adding a package\<close>

lemma read_bytes_file: "read_bytes fs p = Inr b \<longleftrightarrow> stat_path fs p = Inr (RegFile b)"
proof (cases "stat_path fs p")
  case (Inr x)
  then show ?thesis by (cases x) (simp_all add: read_bytes_def os_error_def)
qed (simp add: read_bytes_def)

lemma stored_plain:
  "list_all plain_part root \<Longrightarrow> module_name_ok n \<Longrightarrow> module_version_ok v \<Longrightarrow> hex_digest_text d
    \<Longrightarrow> list_all plain_part (stored_path root n v d)"
  by (simp add: stored_path_def package_dir_def name_part version_part digest_part) (simp add: plain_part_def)

lemma stored_way:
  assumes "packages_shape root t"
  shows "open_way t (stored_path root n v d)" "link_free t (stored_path root n v d)"
  unfolding stored_path_def by (intro package_way assms; simp)+

lemma stored_stat:
  assumes "packages_shape root t" "module_name_ok n" "module_version_ok v" "hex_digest_text d"
  shows "stat_path t (stored_path root n v d) = Inr x \<longleftrightarrow> lookup_node t (stored_path root n v d) = Some x"
proof (rule stat_path_direct [OF stored_way(2) [OF assms(1)]])
  have "list_all plain_part (stored_path root n v d)" using assms by (intro stored_plain) (simp_all add: packages_shape_def)
  then show "''..'' \<notin> set (stored_path root n v d)" by (auto simp: list_all_iff plain_part_def)
qed

lemma stored_path_inject: "stored_path root n v d = stored_path root n' v' d' \<longleftrightarrow> n = n' \<and> v = v' \<and> d = d'"
  by (auto simp: stored_path_def)

lemma store_copy_ok:
  assumes "packages_shape root t" "contents_ok H root t" "module_name_ok n" "module_version_ok v" "hex_digest_text (H bytes)"
    and "root = mi_root m" "t = mi_tree m" "m' = store_copy (stored_path root n v (H bytes)) bytes m"
  shows "packages_shape root (mi_tree m')" "contents_ok H root (mi_tree m')" "mi_root m' = root" "mi_index m' = mi_index m"
    and "entry_ok H root t item \<Longrightarrow> entry_ok H root (mi_tree m') item"
    and "read_bytes (mi_tree m') (stored_path root n v (H bytes)) = Inr b
      \<Longrightarrow> lookup_node (mi_tree m') (stored_path root n v (H bytes)) = Some (RegFile b) \<and> H b = H bytes"
proof -
  let ?p = "stored_path root n v (H bytes)"
  note st = stored_stat [OF _ assms(3-5)]
  have ex: "path_exists t ?p \<longleftrightarrow> lookup_node t ?p \<noteq> None"
  proof -
    have "path_exists t ?p \<longleftrightarrow> (\<exists>x. stat_path t ?p = Inr x)" by (cases "stat_path t ?p") (simp_all add: path_exists_def)
    also have "\<dots> \<longleftrightarrow> (\<exists>x. lookup_node t ?p = Some x)" by (simp only: st [OF assms(1)])
    finally show ?thesis by simp
  qed
  have tree: "mi_tree m' = t \<and> lookup_node t ?p \<noteq> None \<or> mi_tree m' = set_file t ?p bytes \<and> lookup_node t ?p = None"
    using assms(6-8) ex by (auto simp: store_copy_def)
  have shape: "packages_shape root (mi_tree m')"
    using tree assms(1) packages_shape_set [OF assms(1), of "[n, v, H bytes @ ''.nupkg'']"] by (auto simp: stored_path_def)
  show "packages_shape root (mi_tree m')" by (rule shape)
  show contents: "contents_ok H root (mi_tree m')"
    unfolding contents_ok_def
  proof (intro allI impI)
    fix n' v' d b
    assume l: "lookup_node (mi_tree m') (stored_path root n' v' d) = Some (RegFile b)"
    from tree consider "lookup_node t (stored_path root n' v' d) = Some (RegFile b)" | "stored_path root n' v' d = ?p" "b = bytes"
      using l lookup_set_new [OF stored_way(1) [OF assms(1)], of n v "H bytes" bytes "stored_path root n' v' d" "RegFile b"] by auto
    then show "H b = d" using assms(2) by cases (auto simp: contents_ok_def stored_path_inject)
  qed
  show "mi_root m' = root" "mi_index m' = mi_index m" using assms(6,8) by (auto simp: store_copy_def)
  show "entry_ok H root t item \<Longrightarrow> entry_ok H root (mi_tree m') item" using tree entry_kept by metis
  show "read_bytes (mi_tree m') ?p = Inr b \<Longrightarrow> lookup_node (mi_tree m') ?p = Some (RegFile b) \<and> H b = H bytes"
    using contents by (simp add: read_bytes_file st [OF shape] contents_ok_def)
qed

lemma add_row_ok:
  assumes "add_row name version row at v = Inr v'" "is_dict v" "get_none ''packages'' v = JArr rows"
    and "rows_ok H root t rows" "entry_ok H root t row" "row_key row = (casefold name, version)"
  shows "is_dict v'" "\<exists>rows'. get_none ''packages'' v' = JArr rows' \<and> rows_ok H root t rows'"
    "get_none ''schema'' v' = get_none ''schema'' v" "get_none ''kind'' v' = get_none ''kind'' v"
proof -
  let ?key = "(casefold name, version)"
  have "res_bind (same_package name version i) (\<lambda>b. Inr (\<not> b)) = Inr (row_key i \<noteq> ?key)" if "i \<in> set rows" for i
    using that assms(4) entry_same_package by (auto simp: rows_ok_def list_all_iff)
  then have f: "res_filter (\<lambda>i. res_bind (same_package name version i) (\<lambda>b. Inr (\<not> b))) rows = Inr (filter (\<lambda>i. row_key i \<noteq> ?key) rows)"
    by (rule res_filter_pure)
  from assms(1,3) obtain rows' g where r: "res_sort index_order (filter (\<lambda>i. row_key i \<noteq> ?key) rows @ [row]) = Inr rows'"
      "v' = jset ''updated_at'' (JStr at) (jset ''generation'' (JInt (g + 1)) (jset ''packages'' (JArr rows') v))"
    by (auto simp: add_row_def index_packages_def f)
  note ms = mset_res_sort [OF r(1)]
  then have "set rows' = set (filter (\<lambda>i. row_key i \<noteq> ?key) rows @ [row])" by (metis set_mset_mset)
  then have "list_all (entry_ok H root t) rows'" using assms(4,5) by (auto simp: rows_ok_def list_all_iff)
  moreover have "distinct (map row_key (filter (\<lambda>i. row_key i \<noteq> ?key) rows @ [row]))"
    using assms(4,6) by (auto simp: rows_ok_def distinct_map_filter)
  then have "distinct (map row_key rows')" using ms by (metis mset_eq_imp_distinct_iff mset_map)
  ultimately have "rows_ok H root t rows'" by (simp add: rows_ok_def)
  then show "is_dict v'" "\<exists>rows'. get_none ''packages'' v' = JArr rows' \<and> rows_ok H root t rows'"
    "get_none ''schema'' v' = get_none ''schema'' v" "get_none ''kind'' v' = get_none ''kind'' v"
    by (simp_all add: r(2))
qed

lemma load_index_fields:
  assumes "load_index H m = Inr v"
  shows "is_dict v" "eq_int (get_none ''schema'' v) 1" "get_none ''kind'' v = JStr ''psmatrix.module-mirror''"
    "is_list (get_none ''packages'' v)"
proof -
  have "is_dict v \<and> eq_int (get_none ''schema'' v) 1 \<and> get_none ''kind'' v = JStr ''psmatrix.module-mirror''
      \<and> is_list (get_none ''packages'' v)"
  proof (cases "mi_index m")
    case None
    with assms have "v = empty_index" by (simp add: load_index_def)
    then show ?thesis by (simp add: empty_index_def get_or_JObj)
  next
    case (Some w)
    with assms show ?thesis by (auto simp: load_index_def)
  qed
  then show "is_dict v" "eq_int (get_none ''schema'' v) 1" "get_none ''kind'' v = JStr ''psmatrix.module-mirror''"
    "is_list (get_none ''packages'' v)" by simp_all
qed

lemma load_write_index:
  assumes "is_dict v" "eq_int (get_none ''schema'' v) 1" "get_none ''kind'' v = JStr ''psmatrix.module-mirror''"
    and "is_list (get_none ''packages'' v)"
  shows "load_index H (write_index H v m) = Inr (jset ''digest'' (JStr (index_digest H v)) (jdel ''digest'' v))"
proof -
  have "jdel ''digest'' (jset ''digest'' (JStr (index_digest H v)) (jdel ''digest'' v)) = jdel ''digest'' v"
    by (rule jdel_jset_new) simp_all
  then have "index_digest H (jset ''digest'' (JStr (index_digest H v)) (jdel ''digest'' v)) = index_digest H v"
    by (simp add: index_digest_def)
  with assms show ?thesis by (simp add: load_index_def write_index_def)
qed

lemma store_package_ok:
  assumes ok: "mirror_ok (pk_H E) m" and spec: "module_name_ok name" "module_version_ok version" "hex_digest_text (pk_H E bytes)"
  shows "mirror_ok (pk_H E) (fst (store_package E (pk_H E bytes) bytes (name, version, ds) source added_at updated_at m))"
proof -
  let ?H = "pk_H E" and ?root = "mi_root m"
  let ?p = "stored_path ?root name version (?H bytes)"
  define m' where "m' = store_copy ?p bytes m"
  from ok obtain v rows where v: "packages_shape ?root (mi_tree m)" "contents_ok ?H ?root (mi_tree m)" "load_index ?H m = Inr v"
      "is_dict v" "get_none ''packages'' v = JArr rows" "rows_ok ?H ?root (mi_tree m) rows" by (auto simp: mirror_ok_def)
  note sc = store_copy_ok [OF v(1,2) spec refl refl m'_def]
  have kept: "rows_ok ?H ?root (mi_tree m') rows" using v(6) sc(5) by (auto simp: rows_ok_def list_all_iff)
  have "load_index ?H m' = Inr v" using v(3) sc(4) by (simp add: load_index_def)
  with v(4,5) sc(1,2,3) kept have ok': "mirror_ok ?H m'" unfolding mirror_ok_def by (metis (no_types))
  show ?thesis
  proof (cases "\<exists>r. snd (store_package E (?H bytes) bytes (name, version, ds) source added_at updated_at m) = Inr r")
    case False
    with ok ok' show ?thesis
      by (auto simp: store_package_def Let_def stored_path_eq m'_def [symmetric] split: sum.splits)
  next
    case True
    then obtain b v' where r: "read_bytes (mi_tree m') ?p = Inr b"
        "add_row name version (package_row name version (?H bytes) (int (length b)) (posix (package_path name version (?H bytes))) source added_at ds)
          updated_at v = Inr v'"
      and f: "fst (store_package E (?H bytes) bytes (name, version, ds) source added_at updated_at m) = write_index ?H v' m'"
      using v(3) by (auto simp: store_package_def Let_def stored_path_eq m'_def [symmetric] split: sum.splits)
    let ?row = "package_row name version (?H bytes) (int (length b)) (posix (package_path name version (?H bytes))) source added_at ds"
    from sc(6) [OF r(1)] have b: "lookup_node (mi_tree m') ?p = Some (RegFile b)" "?H b = ?H bytes" by simp_all
    from r(2) obtain k where "module_version_key version = Inr k"
      by (auto simp: add_row_def res_sort_def res_map_Inr_iff list_all2_append1 list_all2_Cons1 index_order_def package_row_fields)
    with b spec have "entry_ok ?H ?root (mi_tree m') ?row" unfolding entry_ok_def by (metis (no_types))
    from add_row_ok [OF r(2) v(4,5) kept this row_key_row] obtain rows' where w: "is_dict v'"
        "get_none ''packages'' v' = JArr rows'" "rows_ok ?H ?root (mi_tree m') rows'"
        "get_none ''schema'' v' = get_none ''schema'' v" "get_none ''kind'' v' = get_none ''kind'' v" by blast
    have "load_index ?H (write_index ?H v' m') = Inr (jset ''digest'' (JStr (index_digest ?H v')) (jdel ''digest'' v'))"
      using load_index_fields [OF v(3)] w by (intro load_write_index) simp_all
    moreover have "mi_root (write_index ?H v' m') = ?root" "mi_tree (write_index ?H v' m') = mi_tree m'"
      using sc(3) by (simp_all add: write_index_def)
    ultimately show ?thesis unfolding f mirror_ok_def using sc(1,2) w by simp
  qed
qed

lemma read_nuspec_ok:
  assumes "read_nuspec E bytes = Inr (name, version, ds)"
  shows "module_name_ok name" "module_version_ok version"
proof -
  from assms obtain root where r: "(case filter (\<lambda>(p, e). local_tag (xml_tag e) = ''metadata'') (iter_xml None root) of
       [] \<Rightarrow> compat_error ''Module package nuspec has no metadata''
     | (_, metadata) # _ \<Rightarrow>
         (let name = identity_field ''id'' (xml_children metadata);
              version = identity_field ''version'' (xml_children metadata) in
          if \<not> module_name_ok name \<or> \<not> module_version_ok version
          then compat_error ''Module package identity is invalid''
          else
            res_bind (res_map read_dependency
              (filter (\<lambda>(p, e). local_tag (xml_tag e) = ''dependency'') (iter_xml None metadata))) (\<lambda>ds.
            Inr (name, version, unique_dependencies ds)))) = Inr (name, version, ds)"
    unfolding read_nuspec_def res_bind_eq_Inr by blast
  then show "module_name_ok name" "module_version_ok version"
    by (cases "filter (\<lambda>(p, e). local_tag (xml_tag e) = ''metadata'') (iter_xml None root)"; auto simp: Let_def)+
qed

lemma checked_package_ok:
  assumes "checked_package E package expected m = Inr (digest, bytes, name, version, ds)"
  shows "digest = pk_H E bytes" "hex_digest_text digest" "module_name_ok name" "module_version_ok version"
  using assms read_nuspec_ok by (auto simp: checked_package_def Let_def)

lemma add_package_ok:
  assumes "mirror_ok (pk_H E) m"
  shows "mirror_ok (pk_H E) (fst (add_package E package expected source added_at updated_at m))"
proof (cases "checked_package E package expected m")
  case (Inl e)
  with assms show ?thesis by (simp add: add_package_def)
next
  case (Inr r)
  obtain digest bytes name version ds where r: "r = (digest, bytes, name, version, ds)" by (cases r)
  note c = checked_package_ok [OF Inr [unfolded r]]
  show ?thesis
    using store_package_ok [OF assms c(3,4), of bytes ds source added_at updated_at] c(1,2)
    by (simp add: add_package_def Inr r)
qed

section \<open>A mirror\<close>

definition fresh_mirror :: "mirror \<Rightarrow> bool" where
  "fresh_mirror m \<longleftrightarrow> mi_index m = None \<and> list_all plain_part (mi_root m) \<and> link_free (mi_tree m) (mi_root m)
     \<and> (\<exists>es. lookup_node (mi_tree m) (mi_root m) = Some (Folder es))
     \<and> lookup_node (mi_tree m) (package_dir (mi_root m)) \<in> {None, Some (Folder [])}"

text \<open>The mirrors that a sequence of additions leads to, whether they succeed or not\<close>

inductive mirror_run :: "package_env \<Rightarrow> mirror \<Rightarrow> bool" for E where
  mirror_start: "fresh_mirror m \<Longrightarrow> mirror_run E m"
| mirror_add: "mirror_run E m \<Longrightarrow> mirror_run E (fst (add_package E package expected source added_at updated_at m))"

lemma fresh_mirror_ok:
  assumes "fresh_mirror m"
  shows "mirror_ok H m"
proof -
  have below: "x = Folder []" if "lookup_node (mi_tree m) (package_dir (mi_root m) @ q) = Some x" for q x
    using that assms by (auto simp: fresh_mirror_def lookup_append [of _ "package_dir _"] dest: lookup_Nil_Folder)
  then have "packages_shape (mi_root m) (mi_tree m)" using assms by (auto simp: packages_shape_def fresh_mirror_def)
  moreover have "contents_ok H (mi_root m) (mi_tree m)" using below by (force simp: contents_ok_def stored_path_def)
  moreover have "load_index H m = Inr empty_index" using assms by (simp add: load_index_def fresh_mirror_def)
  moreover have "is_dict empty_index" "get_none ''packages'' empty_index = JArr []" by (simp_all add: empty_index_def get_or_JObj)
  ultimately show ?thesis by (auto simp: mirror_ok_def rows_ok_def)
qed

lemma mirror_run_ok: "mirror_run E m \<Longrightarrow> mirror_ok (pk_H E) m"
  by (induction rule: mirror_run.induct) (simp_all add: fresh_mirror_ok add_package_ok)

interpretation mi: step_system fresh_mirror
  "\<lambda>m m'. \<exists>package expected source added_at updated_at. m' = fst (add_package E package expected source added_at updated_at m)"
  "mirror_ok (pk_H E)" for E
  by unfold_locales (auto simp: fresh_mirror_ok add_package_ok)

lemma entry_verifies:
  assumes "entry_ok H (mi_root m) (mi_tree m) item" "packages_shape (mi_root m) (mi_tree m)"
  shows "verify_entry H m item = Inr []"
proof -
  from assms(1) obtain name version b source at ds where i:
      "item = package_row name version (H b) (int (length b)) (posix (package_path name version (H b))) source at ds"
      "module_name_ok name" "module_version_ok version" "hex_digest_text (H b)"
      "lookup_node (mi_tree m) (stored_path (mi_root m) name version (H b)) = Some (RegFile b)"
    unfolding entry_ok_def by blast
  let ?p = "stored_path (mi_root m) name version (H b)"
  have plain: "list_all plain_part (package_path name version (H b))"
    using i(2-4) by (simp add: package_path_def name_part version_part digest_part) (simp add: plain_part_def)
  have p: "path_join (mi_root m) (posix (package_path name version (H b))) = ?p"
    using path_parts_posix [OF plain] by (simp add: path_join_def stored_path_eq)
  have "list_all plain_part ?p" using i(2-4) assms(2) by (intro stored_plain) (simp_all add: packages_shape_def)
  then have res: "resolve (mi_tree m) ?p = Inr ?p" by (rule resolve_plain_path [OF stored_way(2) [OF assms(2)]])
  have stat: "stat_path (mi_tree m) ?p = Inr (RegFile b)" using stored_stat [OF assms(2) i(2-4)] i(5) by simp
  have "is_within (mi_root m) ?p" by (simp add: is_within_def stored_path_def package_dir_def)
  moreover have "\<not> is_symlink (mi_tree m) (take (length ?p) ?p)"
    using stored_way(2) [OF assms(2)] \<open>list_all plain_part ?p\<close>
    by (intro not_symlink) (auto simp: list_all_iff plain_part_def stored_path_def)
  moreover have "posix (package_path name version (H b)) \<noteq> []" using plain by (simp add: posix_def package_path_def)
  ultimately show ?thesis
    using res stat by (simp add: verify_entry_def i(1) package_row_fields p py_or_def is_file_def read_bytes_file)
qed

lemma res_concat_none: "(\<And>x. x \<in> set xs \<Longrightarrow> f x = Inr []) \<Longrightarrow> res_concat (map f xs) = Inr []"
  by (induction xs) simp_all

text \<open>C35: After any sequence of additions, failed ones included, the index of a mirror is intact, names every package
  and version once, every entry is the file with its digest and size, and the mirror verifies as valid.\<close>

theorem mirror_index_sound:
  assumes "mirror_run E m"
  shows "\<exists>v r. load_index (pk_H E) m = Inr v \<and> distinct (map row_key (index_packages v))
    \<and> list_all (entry_ok (pk_H E) (mi_root m) (mi_tree m)) (index_packages v)
    \<and> verify_mirror (pk_H E) m = Inr r \<and> get_none ''valid'' r = JBool True"
proof -
  from mirror_run_ok [OF assms] obtain v rows where v: "packages_shape (mi_root m) (mi_tree m)"
      "load_index (pk_H E) m = Inr v" "get_none ''packages'' v = JArr rows" "rows_ok (pk_H E) (mi_root m) (mi_tree m) rows"
    by (auto simp: mirror_ok_def)
  have rows: "index_packages v = rows" by (simp add: index_packages_def v(3))
  have "res_concat (map (verify_entry (pk_H E) m) rows) = Inr []"
    using v(4) entry_verifies [OF _ v(1)] by (intro res_concat_none) (auto simp: rows_ok_def list_all_iff)
  with v(2,4) show ?thesis by (simp add: rows rows_ok_def verify_mirror_def get_or_JObj)
qed

text \<open>The lock that is resolved against a mirror is accepted by the loader of lockfiles and pins exactly the packages
  it was resolved to, as long as it does not exceed the limit of the loader.\<close>

lemma lock_roundtrip:
  assumes "mirror_run E m" "resolve_mirror_lock (pk_H E) selections b m = Inr payload"
    and "length (list_items (get_none ''powershell_modules'' payload)) \<le> max_locked_modules"
  shows "\<exists>modules. parse_lock groups payload = Inr (modules, [])
    \<and> map module_lock_row modules = list_items (get_none ''powershell_modules'' payload)"
proof -
  from mirror_run_ok [OF assms(1)] obtain v rows where v: "load_index (pk_H E) m = Inr v" "get_none ''packages'' v = JArr rows"
      "rows_ok (pk_H E) (mi_root m) (mi_tree m) rows"
    by (auto simp: mirror_ok_def)
  then have "list_all row_ok (index_packages v)"
    using entry_row_ok by (auto simp: index_packages_def rows_ok_def list_all_iff)
  from lock_accepted [OF assms(2) v(1) this assms(3)] show ?thesis .
qed

section \<open>A mirror with three packages\<close>

definition demo_nuspec :: "string \<Rightarrow> string \<Rightarrow> xml list \<Rightarrow> xml" where
  "demo_nuspec name version ds = Elem ''package'' [] [] [Elem ''metadata'' [] []
     ([Elem ''id'' [] name [], Elem ''version'' [] version []] @ ds)]"

definition demo_env :: package_env where
  "demo_env = \<lparr>pk_H = (\<lambda>b. replicate 64 (CHR ''0'')), pk_unzip = (\<lambda>b. Inr [(''m.nuspec'', b)]),
     pk_xml = (\<lambda>b. Inr (
       if b = ''a'' then demo_nuspec ''A'' ''1.0'' [Elem ''dependency'' [(''id'', ''B''), (''version'', ''1.0'')] [] []]
       else if b = ''b'' then demo_nuspec ''B'' ''1.0'' []
       else if b = ''c'' then demo_nuspec ''B'' ''2.0'' []
       else demo_nuspec ''D'' ''1.0+x'' []))\<rparr>"

definition demo_start :: mirror where
  "demo_start = \<lparr>mi_root = [''m''], mi_tree = Folder [(''m'', Folder []), (''a'', RegFile ''a''), (''b'', RegFile ''b''),
     (''c'', RegFile ''c''), (''d'', RegFile ''d'')], mi_index = None\<rparr>"

definition demo_add :: "string \<Rightarrow> mirror \<Rightarrow> mirror \<times> mirror_package res" where
  "demo_add p m = add_package demo_env [p] (replicate 64 (CHR ''0'')) ''manual'' ''t'' ''t'' m"

definition demo_mirror :: mirror where
  "demo_mirror = fst (demo_add ''a'' (fst (demo_add ''c'' (fst (demo_add ''b'' demo_start)))))"

lemma demo_mirror_run: "mirror_run demo_env demo_mirror"
proof -
  have "lookup_node (mi_tree demo_start) [p] \<noteq> Some (Link t)" for p t by (simp add: demo_start_def)
  moreover have "i \<le> 1 \<Longrightarrow> take i [''m''] = [] \<or> take i [''m''] = [''m'']" for i :: nat by (cases i) auto
  ultimately have "fresh_mirror demo_start"
    by (fastforce simp: fresh_mirror_def demo_start_def plain_part_def link_free_def package_dir_def)
  then show ?thesis unfolding demo_mirror_def demo_add_def by (intro mirror_add mirror_start)
qed

lemma demo_lock:
  "\<exists>payload. resolve_mirror_lock (pk_H demo_env) [(''A'', ''1.0'')] True demo_mirror = Inr payload
     \<and> map (text_field ''version'') (list_items (get_none ''powershell_modules'' payload)) = [''1.0'', ''2.0'']"
proof -
  have "(case resolve_mirror_lock (pk_H demo_env) [(''A'', ''1.0'')] True demo_mirror of Inl e \<Rightarrow> False | Inr payload \<Rightarrow>
      map (text_field ''version'') (list_items (get_none ''powershell_modules'' payload)) = [''1.0'', ''2.0''])" by code_simp
  then show ?thesis by (auto split: sum.splits)
qed

theorem mirror_index_sound_witness:
  "\<exists>r. verify_mirror (pk_H demo_env) demo_mirror = Inr r \<and> get_none ''valid'' r = JBool True"
  using mirror_index_sound [OF demo_mirror_run] by blast

theorem lock_closed_witness:
  "\<exists>payload resolved. resolve_mirror_lock (pk_H demo_env) [(''A'', ''1.0'')] True demo_mirror = Inr payload
     \<and> satisfied resolved ''A'' ''[1.0]''"
proof -
  from demo_lock obtain payload where p: "resolve_mirror_lock (pk_H demo_env) [(''A'', ''1.0'')] True demo_mirror = Inr payload" by blast
  from lock_closed [OF this] p show ?thesis by auto
qed

lemma lock_roundtrip_witness:
  "\<exists>payload modules. resolve_mirror_lock (pk_H demo_env) [(''A'', ''1.0'')] True demo_mirror = Inr payload
     \<and> parse_lock (\<lambda>p. Inl p) payload = Inr (modules, []) \<and> length modules = 2"
proof -
  from demo_lock obtain payload where p: "resolve_mirror_lock (pk_H demo_env) [(''A'', ''1.0'')] True demo_mirror = Inr payload"
      "map (text_field ''version'') (list_items (get_none ''powershell_modules'' payload)) = [''1.0'', ''2.0'']"
    by (elim exE conjE) (rule that)
  have n: "length (list_items (get_none ''powershell_modules'' payload)) = 2" using arg_cong [OF p(2), of length] by simp
  from lock_roundtrip [OF demo_mirror_run p(1), of "\<lambda>p. Inl p"] n obtain modules where
      "parse_lock (\<lambda>p. Inl p) payload = Inr (modules, [])"
      "map module_lock_row modules = list_items (get_none ''powershell_modules'' payload)" by (auto simp: max_locked_modules_def)
  with p(1) n show ?thesis by (metis length_map)
qed

text \<open>A package with build metadata in its version is copied into the mirror before the addition fails with a
  \<open>ValueError\<close>.\<close>

lemma build_metadata_leaves_copy:
  "(case demo_add ''d'' demo_start of
      (m, Inl e) \<Rightarrow> exn_class e = ValueError \<and> mi_index m = None
        \<and> lookup_node (mi_tree m) (stored_path [''m''] ''D'' ''1.0+x'' (replicate 64 (CHR ''0''))) = Some (RegFile ''d'')
    | (m, Inr r) \<Rightarrow> False)"
  by code_simp

end
