(* ===== verification/Psm_Modules.thy ===== *)
theory Psm_Modules
  imports Psm_Resolve Psm_Locks
begin

text \<open>
  Installed PowerShell modules (\<open>module_manager.py\<close>): installing a package under its name and version, listing what
  is installed, satisfying a lockfile, building one, and what a run stages. The modules folder maps names and
  versions to folders with their metadata and files; the package cache maps paths to bytes. Reading the entries of
  a zip archive and parsing XML are parameters.
\<close>

section \<open>The store\<close>

text \<open>The metadata file of an installed module: missing, unreadable, or a JSON value\<close>

record module_dir =
  md_metadata :: "json res option"
  md_files :: "(string list \<times> string) list"

record module_store =
  ms_home :: "string list"
  ms_modules :: "(string \<times> (string \<times> module_dir) list) list"
  ms_packages :: "(string list \<times> string) list"

record installation =
  in_name :: string
  in_version :: string
  in_root :: "string list"
  in_sha256 :: string
  in_verified :: bool

record archive_entry =
  ar_name :: string
  ar_encrypted :: bool
  ar_symlink :: bool
  ar_size :: int
  ar_bytes :: string

record module_env =
  mo_H :: "string \<Rightarrow> string"
  mo_entries :: "string \<Rightarrow> string + archive_entry list"
  mo_xml :: "string \<Rightarrow> string + xml"
  mo_now :: string

definition install_error :: "string \<Rightarrow> 'a res" where
  "install_error m = throw ModuleInstallError m"

lemma install_error_neq [simp]: "install_error m \<noteq> Inr x" "Inr x \<noteq> install_error m"
  by (simp_all add: install_error_def)

lemma if_install_error_eq_Inr [simp]: "(if b then install_error m else r) = Inr x \<longleftrightarrow> \<not> b \<and> r = Inr x"
  by simp

definition module_root :: "module_store \<Rightarrow> string \<Rightarrow> string \<Rightarrow> string list" where
  "module_root S name version = ms_home S @ [''modules'', name, version]"

definition cached_package :: "string \<Rightarrow> string \<Rightarrow> string \<Rightarrow> string list" where
  "cached_package name version digest = [name, version, digest @ ''.nupkg'']"

definition cache_text :: "module_store \<Rightarrow> string list \<Rightarrow> string" where
  "cache_text S path = path_text (ms_home S @ ''module-packages'' # path)"

definition find_module :: "string \<Rightarrow> string \<Rightarrow> module_store \<Rightarrow> module_dir option" where
  "find_module name version S = (case map_of (ms_modules S) name of None \<Rightarrow> None | Some vs \<Rightarrow> map_of vs version)"

definition put_module :: "string \<Rightarrow> string \<Rightarrow> module_dir \<Rightarrow> module_store \<Rightarrow> module_store" where
  "put_module name version d S = S\<lparr>ms_modules := AList.update name
     (AList.update version d (case map_of (ms_modules S) name of None \<Rightarrow> [] | Some vs \<Rightarrow> vs)) (ms_modules S)\<rparr>"

text \<open>The copy into the package cache, unless it is there\<close>

definition keep_package :: "string list \<Rightarrow> string \<Rightarrow> module_store \<Rightarrow> module_store" where
  "keep_package path bytes S =
     (if map_of (ms_packages S) path \<noteq> None then S else S\<lparr>ms_packages := AList.update path bytes (ms_packages S)\<rparr>)"

section \<open>Reading a package\<close>

definition first_text :: "string \<Rightarrow> xml list \<Rightarrow> string" where
  "first_text key es = (case filter (\<lambda>e. py_lower (local_tag (xml_tag e)) = key \<and> xml_text e \<noteq> []) es of
     [] \<Rightarrow> [] | e # _ \<Rightarrow> strip_space (xml_text e))"

definition read_identity :: "module_env \<Rightarrow> string \<Rightarrow> (string \<times> string) res" where
  "read_identity E package = (case mo_entries E package of
     Inl m \<Rightarrow> install_error (''Invalid NuGet package: '' @ m)
   | Inr entries \<Rightarrow>
       (case filter (\<lambda>e. ends_with ''.nuspec'' (py_lower (ar_name e))) entries of
          [e] \<Rightarrow> (case mo_xml E (ar_bytes e) of
              Inl m \<Rightarrow> install_error (''Invalid NuGet package: '' @ m)
            | Inr root \<Rightarrow>
                (let es = map snd (iter_xml None root); name = first_text ''id'' es; version = first_text ''version'' es in
                 if name = [] \<or> version = [] then install_error ''NuGet package metadata is missing id/version''
                 else Inr (name, version)))
        | _ \<Rightarrow> install_error ''NuGet package must contain exactly one .nuspec''))"

definition slashed :: "string \<Rightarrow> string" where
  "slashed s = map (\<lambda>c. if c = CHR 0x5C then CHR ''/'' else c) s"

text \<open>The checks on the entries in order; the first argument is the size so far.\<close>

fun check_entries :: "int \<Rightarrow> archive_entry list \<Rightarrow> unit res" where
  "check_entries acc [] = Inr ()"
| "check_entries acc (e # es) =
     (let n = slashed (ar_name e); parts = path_parts n in
      if ar_encrypted e then install_error (''Encrypted package entries are not allowed: '' @ ar_name e)
      else if parts = [] \<or> starts_with ''/'' n \<or> ''..'' \<in> set parts
      then install_error (''Unsafe package path: '' @ ar_name e)
      else if list_ex (\<lambda>p. CHR 0x00 \<in> set p) parts then install_error (''Unsafe package path: '' @ ar_name e)
      else if ar_symlink e then install_error (''Package symlinks are not allowed: '' @ ar_name e)
      else if 536870912 < acc + ar_size e then install_error ''Package exceeds uncompressed size limit''
      else check_entries (acc + ar_size e) es)"

definition is_folder_entry :: "archive_entry \<Rightarrow> bool" where
  "is_folder_entry e \<longleftrightarrow> ar_name e \<noteq> [] \<and> last (ar_name e) \<in> {CHR ''/'', CHR 0x5C}"

definition safe_extract :: "module_env \<Rightarrow> string \<Rightarrow> (string list \<times> string) list res" where
  "safe_extract E package = (case mo_entries E package of
     Inl m \<Rightarrow> throw ValueError m
   | Inr entries \<Rightarrow>
       if 10000 < length entries
       then install_error (''Package contains too many entries: '' @ nat_str (length entries))
       else res_bind (check_entries 0 entries) (\<lambda>_.
         Inr (fold (\<lambda>e. AList.update (path_parts (slashed (ar_name e))) (ar_bytes e))
           (filter (\<lambda>e. \<not> is_folder_entry e) entries) [])))"

text \<open>Packages that wrap their content in a folder are unwrapped at the only manifest.\<close>

definition module_content :: "string \<Rightarrow> (string list \<times> string) list \<Rightarrow> (string list \<times> string) list res" where
  "module_content name files =
     (let manifest = name @ ''.psd1'' in
      if map_of files [manifest] \<noteq> None then Inr files
      else case filter (\<lambda>p. p \<noteq> [] \<and> last p = manifest) (map fst files) of
          [p] \<Rightarrow> Inr (map (\<lambda>(q, b). (drop (length p - 1) q, b)) (filter (\<lambda>(q, b). take (length p - 1) q = butlast p) files))
        | _ \<Rightarrow> install_error (''Package does not contain a unique '' @ manifest @ '' manifest''))"

section \<open>Installing\<close>

record install_request =
  ir_path :: "string list"
  ir_bytes :: "string option"
  ir_name :: string
  ir_version :: string
  ir_sha256 :: string
  ir_trust_local :: bool
  ir_force :: bool

definition check_install :: "module_env \<Rightarrow> install_request \<Rightarrow> (string \<times> string \<times> string \<times> string \<times> bool) res" where
  "check_install E r = (case ir_bytes r of
     None \<Rightarrow> install_error (''Module package not found: '' @ path_text (ir_path r))
   | Some bytes \<Rightarrow>
       (let digest = py_lower (mo_H E bytes); wanted = strip_space (ir_sha256 r) in
        if (ir_sha256 r \<noteq> []) = ir_trust_local r then install_error ''Provide exactly one of --sha256 or --trust-local''
        else if ir_sha256 r \<noteq> [] \<and> \<not> any_hex_digest wanted
        then install_error ''Expected SHA-256 must be 64 hexadecimal characters''
        else if ir_sha256 r \<noteq> [] \<and> digest \<noteq> py_lower wanted
        then install_error (''Module SHA-256 mismatch: expected '' @ py_lower wanted @ '', got '' @ digest)
        else
          res_bind (read_identity E bytes) (\<lambda>(name, version).
          if ir_name r \<noteq> [] \<and> py_lower name \<noteq> py_lower (ir_name r)
          then install_error (''Expected module '' @ ir_name r @ '', package contains '' @ name)
          else if ir_version r \<noteq> [] \<and> version \<noteq> ir_version r
          then install_error (''Expected module version '' @ ir_version r @ '', package contains '' @ version)
          else if \<not> module_name_ok name then install_error (''Unsafe or unsupported module name: '' @ name)
          else if \<not> module_version_ok version then install_error (''Unsupported module version: '' @ version)
          else Inr (bytes, digest, name, version, ir_sha256 r \<noteq> []))))"

definition module_metadata ::
    "module_env \<Rightarrow> install_request \<Rightarrow> string \<Rightarrow> string \<Rightarrow> string \<Rightarrow> bool \<Rightarrow> string \<Rightarrow> json" where
  "module_metadata E r name version digest verified cached = JObj
     [(''schema'', JInt 1), (''name'', JStr name), (''version'', JStr version), (''sha256'', JStr digest),
      (''verified'', JBool verified), (''trust_source'', JStr (if verified then ''sha256'' else ''explicit-local-trust'')),
      (''source'', JStr (path_text (ir_path r))), (''cached_package'', JStr cached), (''installed_at'', JStr (mo_now E))]"

definition the_installation :: "module_store \<Rightarrow> string \<Rightarrow> string \<Rightarrow> string \<Rightarrow> bool \<Rightarrow> installation" where
  "the_installation S name version digest verified = \<lparr>in_name = name, in_version = version,
     in_root = module_root S name version, in_sha256 = digest, in_verified = verified\<rparr>"

text \<open>A module that is installed already: the hash must agree, and the cache is completed.\<close>

definition reinstall ::
    "string \<Rightarrow> string \<Rightarrow> string \<Rightarrow> string \<Rightarrow> module_dir \<Rightarrow> json res \<Rightarrow> module_store \<Rightarrow> module_store \<times> installation res" where
  "reinstall bytes digest name version d metadata S = (case metadata of
     Inl e \<Rightarrow> (S, Inl e)
   | Inr v \<Rightarrow>
       if \<not> is_dict v then (S, throw AttributeError ''get'')
       else if get_none ''sha256'' v \<noteq> JStr digest
       then (S, install_error (''Module '' @ name @ '' '' @ version @ '' already exists with a different package hash''))
       else
         (let path = cached_package name version digest; S1 = keep_package path bytes S; cached = cache_text S path;
              S2 = (if get_none ''cached_package'' v \<noteq> JStr cached
                then put_module name version (d\<lparr>md_metadata := Some (Inr (jset ''cached_package'' (JStr cached) v))\<rparr>) S1 else S1) in
          (S2, Inr (the_installation S name version digest (py_true (get_none ''verified'' v))))))"

definition fresh_install ::
    "module_env \<Rightarrow> install_request \<Rightarrow> string \<Rightarrow> string \<Rightarrow> string \<Rightarrow> string \<Rightarrow> bool \<Rightarrow> module_store \<Rightarrow> module_store \<times> installation res" where
  "fresh_install E r bytes digest name version verified S = (case res_bind (safe_extract E bytes) (module_content name) of
     Inl e \<Rightarrow> (S, Inl e)
   | Inr files \<Rightarrow>
       (let path = cached_package name version digest;
            v = module_metadata E r name version digest verified (cache_text S path) in
        (put_module name version \<lparr>md_metadata = Some (Inr v), md_files = files\<rparr> (keep_package path bytes S),
         Inr (the_installation S name version digest verified))))"

definition install_nupkg :: "module_env \<Rightarrow> install_request \<Rightarrow> module_store \<Rightarrow> module_store \<times> installation res" where
  "install_nupkg E r S = (case check_install E r of
     Inl e \<Rightarrow> (S, Inl e)
   | Inr (bytes, digest, name, version, verified) \<Rightarrow>
       (case find_module name version S of
          Some d \<Rightarrow>
            (case md_metadata d of
               Some metadata \<Rightarrow> if ir_force r then fresh_install E r bytes digest name version verified S
                 else reinstall bytes digest name version d metadata S
             | None \<Rightarrow> fresh_install E r bytes digest name version verified S)
        | None \<Rightarrow> fresh_install E r bytes digest name version verified S))"

section \<open>What is installed\<close>

definition unhealthy_row :: "string list \<Rightarrow> json" where
  "unhealthy_row path = JObj [(''path'', JStr (path_text path)), (''healthy'', JBool False)]"

definition installed_row :: "string list \<Rightarrow> module_dir \<Rightarrow> json res \<Rightarrow> json res" where
  "installed_row path d metadata = (case metadata of
     Inl e \<Rightarrow> Inr (unhealthy_row path)
   | Inr v \<Rightarrow>
       if \<not> is_dict v then throw TypeError ''object does not support item assignment''
       else
         (case jget ''name'' v of
            None \<Rightarrow> Inr (unhealthy_row path)
          | Some n \<Rightarrow> Inr (jset ''healthy'' (JBool (map_of (md_files d) [py_str n @ ''.psd1''] \<noteq> None))
              (jset ''path'' (JStr (path_text path)) v))))"

definition list_versions :: "module_store \<Rightarrow> string \<times> (string \<times> module_dir) list \<Rightarrow> json list res" where
  "list_versions S = (\<lambda>(name, versions).
     res_concat (map (\<lambda>(version, d). case md_metadata d of
         None \<Rightarrow> Inr []
       | Some metadata \<Rightarrow> res_bind (installed_row (module_root S name version) d metadata) (\<lambda>row. Inr [row]))
       (sort_key fst versions)))"

definition list_installed :: "string \<Rightarrow> module_store \<Rightarrow> json list res" where
  "list_installed name S =
     (if name = [] then res_concat (map (list_versions S) (sort_key fst (ms_modules S)))
      else case map_of (ms_modules S) name of None \<Rightarrow> Inr [] | Some vs \<Rightarrow> list_versions S (name, vs))"

definition is_healthy :: "json \<Rightarrow> bool" where
  "is_healthy item \<longleftrightarrow> py_true (get_none ''healthy'' item)"

definition exact_module :: "string \<Rightarrow> string \<Rightarrow> module_store \<Rightarrow> json option res" where
  "exact_module name version S = res_bind (list_installed name S) (\<lambda>items.
     Inr (find (\<lambda>i. is_healthy i \<and> py_str (get_none ''version'' i) = version) items))"

text \<open>\<open>max(items, key=...)\<close>, the first of the greatest\<close>

definition newest_item :: "json list \<Rightarrow> json option res" where
  "newest_item items = res_bind (newest_first items) (\<lambda>sorted. Inr (case sorted of [] \<Rightarrow> None | i # _ \<Rightarrow> Some i))"

definition latest_module :: "string \<Rightarrow> module_store \<Rightarrow> string option res" where
  "latest_module name S =
     res_bind (list_installed name S) (\<lambda>items.
     res_bind (newest_item (filter is_healthy items)) (\<lambda>newest.
     case newest of None \<Rightarrow> Inr None | Some i \<Rightarrow> res_bind (item_text ''path'' i) (\<lambda>p. Inr (Some p))))"

section \<open>Lockfiles\<close>

definition restore_request :: "module_store \<Rightarrow> module_lock \<Rightarrow> string \<Rightarrow> install_request" where
  "restore_request S l bytes = \<lparr>ir_path = ms_home S @ ''module-packages'' # cached_package (ml_name l) (ml_version l) (ml_sha256 l),
     ir_bytes = Some bytes, ir_name = ml_name l, ir_version = ml_version l, ir_sha256 = ml_sha256 l, ir_trust_local = False,
     ir_force = False\<rparr>"

definition restored_module :: "module_env \<Rightarrow> bool \<Rightarrow> module_lock \<Rightarrow> module_store \<Rightarrow> module_store \<times> json option res" where
  "restored_module E restore l S = (case exact_module (ml_name l) (ml_version l) S of
     Inr None \<Rightarrow>
       (case (if restore then map_of (ms_packages S) (cached_package (ml_name l) (ml_version l) (ml_sha256 l)) else None) of
          None \<Rightarrow> (S, Inr None)
        | Some bytes \<Rightarrow>
            (case install_nupkg E (restore_request S l bytes) S of
               (S', Inl e) \<Rightarrow> (S', Inl e)
             | (S', Inr i) \<Rightarrow> (S', exact_module (ml_name l) (ml_version l) S')))
   | r \<Rightarrow> (S, r))"

definition check_locked :: "module_lock \<Rightarrow> json option \<Rightarrow> json res" where
  "check_locked l item = (case item of
     None \<Rightarrow> install_error (''Locked module is unavailable: '' @ ml_name l @ '' '' @ ml_version l @ '' sha256='' @ ml_sha256 l)
   | Some i \<Rightarrow>
       if py_lower (py_str (get_or ''sha256'' (JStr '''') i)) \<noteq> py_lower (ml_sha256 l)
       then install_error (''Locked module hash mismatch for '' @ ml_name l @ '' '' @ ml_version l @ '': expected ''
         @ ml_sha256 l @ '', got '' @ py_str (get_none ''sha256'' i))
       else if ml_require_verified l \<and> \<not> py_true (get_none ''verified'' i)
       then install_error (''Locked module requires verified provenance: '' @ ml_name l @ '' '' @ ml_version l)
       else Inr i)"

fun ensure_locked :: "module_env \<Rightarrow> bool \<Rightarrow> module_lock list \<Rightarrow> module_store \<Rightarrow> module_store \<times> json list res" where
  "ensure_locked E restore [] S = (S, Inr [])"
| "ensure_locked E restore (l # ls) S = (case restored_module E restore l S of
     (S1, r) \<Rightarrow>
       (case res_bind r (check_locked l) of
          Inl e \<Rightarrow> (S1, Inl e)
        | Inr item \<Rightarrow>
            (case ensure_locked E restore ls S1 of (S2, rest) \<Rightarrow> (S2, res_bind rest (\<lambda>items. Inr (item # items))))))"

text \<open>The selection by casefolded name; an earlier entry of the same name gives way in place.\<close>

definition select_items :: "json list \<Rightarrow> (string \<times> json) list res" where
  "select_items items = res_bind (res_map (item_text ''name'') items) (\<lambda>names.
     Inr (fold (\<lambda>(n, i). AList.update (casefold n) i) (zip names items) []))"

fun add_tools :: "module_store \<Rightarrow> string list \<Rightarrow> (string \<times> json) list \<Rightarrow> (string \<times> json) list res" where
  "add_tools S [] selected = Inr selected"
| "add_tools S (name # names) selected =
     (if map_of selected (casefold name) \<noteq> None then add_tools S names selected
      else
        res_bind (list_installed name S) (\<lambda>items.
        res_bind (newest_item (filter is_healthy items)) (\<lambda>newest.
        add_tools S names (case newest of None \<Rightarrow> selected | Some i \<Rightarrow> AList.update (casefold name) i selected))))"

definition staged_row :: "string list \<Rightarrow> json \<Rightarrow> json res" where
  "staged_row destination i =
     res_bind (item_text ''path'' i) (\<lambda>_.
     res_bind (item_text ''name'' i) (\<lambda>name.
     res_bind (item_text ''version'' i) (\<lambda>version.
     Inr (JObj [(''name'', JStr name), (''version'', JStr version), (''sha256'', JStr (py_str (get_or ''sha256'' (JStr '''') i))),
       (''verified'', JStr (if py_true (get_none ''verified'' i) then ''true'' else ''false'')),
       (''path'', JStr (path_text (destination @ [name, version])))]))))"

text \<open>The modules a run sees; copying them to the destination is left out.\<close>

definition stage_for_run ::
    "module_env \<Rightarrow> string list \<Rightarrow> module_lock list \<Rightarrow> string list \<Rightarrow> module_store \<Rightarrow> module_store \<times> json list res" where
  "stage_for_run E destination locks tools S = (case ensure_locked E True locks S of
     (S', r) \<Rightarrow>
       (S', res_bind r (\<lambda>items.
        res_bind (select_items items) (\<lambda>selected.
        res_bind (add_tools S' tools selected) (\<lambda>selected.
        res_bind (by_item_name (map snd selected)) (\<lambda>items.
        res_map (staged_row destination) items))))))"

text \<open>Every healthy module, staged\<close>

definition stage_all :: "string list \<Rightarrow> module_store \<Rightarrow> json list res" where
  "stage_all destination S =
     res_bind (list_installed [] S) (\<lambda>items.
     res_map (\<lambda>i. res_bind (item_text ''path'' i) (\<lambda>_.
       res_bind (item_text ''name'' i) (\<lambda>name.
       res_bind (item_text ''version'' i) (\<lambda>version.
       Inr (JObj [(''name'', JStr name), (''version'', JStr version), (''path'', JStr (path_text (destination @ [name, version])))])))))
       (filter is_healthy items))"

section \<open>Installing from the mirror\<close>

definition mirror_request :: "mirror \<Rightarrow> string \<Rightarrow> string \<Rightarrow> json \<Rightarrow> install_request res" where
  "mirror_request m name version item =
     res_bind (item_text ''path'' item) (\<lambda>path.
     res_bind (item_text ''sha256'' item) (\<lambda>digest.
     res_bind (resolve (mi_tree m) (path_join (mi_root m) path)) (\<lambda>p.
     res_bind (if is_file (mi_tree m) p then res_bind (read_bytes (mi_tree m) p) (\<lambda>b. Inr (Some b)) else Inr None) (\<lambda>bytes.
     Inr \<lparr>ir_path = p, ir_bytes = bytes, ir_name = name, ir_version = version, ir_sha256 = digest, ir_trust_local = False,
       ir_force = False\<rparr>))))"

definition installation_row :: "installation \<Rightarrow> json" where
  "installation_row i = JObj [(''name'', JStr (in_name i)), (''version'', JStr (in_version i)), (''sha256'', JStr (in_sha256 i)),
     (''path'', JStr (path_text (in_root i)))]"

definition install_into ::
    "module_env \<Rightarrow> string \<Rightarrow> string \<Rightarrow> mirror \<Rightarrow> module_store \<Rightarrow> module_store \<times> json res" where
  "install_into E name version m S =
     (case res_bind (exact_package (mo_H E) name version m) (\<lambda>item. case item of
         None \<Rightarrow> compat_error (''Mirror package unavailable: '' @ name @ '' '' @ version)
       | Some i \<Rightarrow> mirror_request m name version i) of
        Inl e \<Rightarrow> (S, Inl e)
      | Inr r \<Rightarrow> (case install_nupkg E r S of (S', x) \<Rightarrow> (S', res_bind x (\<lambda>i. Inr (installation_row i)))))"

section \<open>Building a lockfile\<close>

fun select_exact :: "module_store \<Rightarrow> (string \<times> string) list \<Rightarrow> (string \<times> json) list \<Rightarrow> (string \<times> json) list res" where
  "select_exact S [] selected = Inr selected"
| "select_exact S ((name, version) # rest) selected =
     res_bind (exact_module name version S) (\<lambda>item. case item of
       None \<Rightarrow> install_error (''Installed module not found: '' @ name @ '' '' @ version)
     | Some i \<Rightarrow> select_exact S rest (AList.update (casefold name) i selected))"

definition newer :: "json \<Rightarrow> json \<Rightarrow> bool res" where
  "newer i current =
     res_bind (item_text ''version'' i) (\<lambda>v. res_bind (module_version_key v) (\<lambda>kv.
     res_bind (item_text ''version'' current) (\<lambda>c. res_bind (module_version_key c) (\<lambda>kc. Inr (kc < kv)))))"

text \<open>The newest item of every name, over what is selected already\<close>

fun select_newest :: "json list \<Rightarrow> (string \<times> json) list \<Rightarrow> (string \<times> json) list res" where
  "select_newest [] selected = Inr selected"
| "select_newest (i # items) selected =
     res_bind (item_text ''name'' i) (\<lambda>n.
     case map_of selected (casefold n) of
       None \<Rightarrow> select_newest items (AList.update (casefold n) i selected)
     | Some current \<Rightarrow> res_bind (newer i current) (\<lambda>b.
         select_newest items (if b then AList.update (casefold n) i selected else selected)))"

text \<open>With names given, the first item of every name is kept: the loop skips a name that is selected.\<close>

fun select_first :: "json list \<Rightarrow> (string \<times> json) list \<Rightarrow> (string \<times> json) list res" where
  "select_first [] selected = Inr selected"
| "select_first (i # items) selected =
     res_bind (item_text ''name'' i) (\<lambda>n.
     select_first items (if map_of selected (casefold n) \<noteq> None then selected else AList.update (casefold n) i selected))"

definition folded_name :: "json \<Rightarrow> string" where
  "folded_name i = casefold (py_str (get_or ''name'' (JStr '''') i))"

definition select_names :: "json list \<Rightarrow> string list \<Rightarrow> (string \<times> json) list \<Rightarrow> (string \<times> json) list res" where
  "select_names installed names selected =
     (let requested = set (map casefold names); available = filter (\<lambda>i. folded_name i \<in> requested) installed;
          missing = sort (filter (\<lambda>k. k \<notin> set (map folded_name available)) (remdups (map casefold names))) in
      if missing \<noteq> [] then install_error (''Installed module(s) not found: '' @ join '', '' missing)
      else select_first available selected)"

definition build_row :: "bool \<Rightarrow> json \<Rightarrow> json res" where
  "build_row require_verified i =
     (if require_verified \<and> \<not> py_true (get_none ''verified'' i)
      then res_bind (item_text ''name'' i) (\<lambda>n. res_bind (item_text ''version'' i) (\<lambda>v.
        install_error (''Module is not hash-verified: '' @ n @ '' '' @ v)))
      else lock_row require_verified i)"

definition build_lock :: "string list \<Rightarrow> (string \<times> string) list \<Rightarrow> bool \<Rightarrow> module_store \<Rightarrow> json res" where
  "build_lock names selections require_verified S =
     res_bind (list_installed [] S) (\<lambda>all.
     let installed = filter is_healthy all in
     res_bind (select_exact S selections []) (\<lambda>selected.
     res_bind (if names \<noteq> [] then select_names installed names selected
       else if selections = [] then select_newest installed selected else Inr selected) (\<lambda>selected.
     res_bind (by_item_name (map snd selected)) (\<lambda>items.
     res_bind (res_map (build_row require_verified) items) (\<lambda>rows.
     Inr (JObj [(''schema'', JInt 1), (''powershell_modules'', JArr rows), (''native_commands'', JArr [])]))))))"

end
