(* ===== verification/Psm_Compat.thy ===== *)
theory Psm_Compat
  imports Psm_Modules
begin

text \<open>
  The compatibility matrix of \<open>module_compat.py\<close>: loading its specification, planning it against the mirror and the
  installed runtimes, and running it, which installs the packages of every target from the mirror and starts a child
  process with a lockfile. The runtime probe, the scan for PowerShell files and the child process are parameters.
\<close>

section \<open>The specification\<close>

record compat_target =
  ct_id :: string
  ct_runtime :: string
  ct_modules :: "(string \<times> string) list"
  ct_pester :: "string option"
  ct_analyzer :: "string option"
  ct_required :: bool

record compat_spec =
  cs_path :: "string list"
  cs_name :: string
  cs_sources :: "string list list"
  cs_targets :: "compat_target list"
  cs_sha256 :: string

definition compat_source :: "node \<Rightarrow> string list \<Rightarrow> json \<Rightarrow> string list res" where
  "compat_source fs root raw =
     res_bind (resolve fs (path_join root (py_str raw))) (\<lambda>p.
     if \<not> is_within root p then compat_error ''Compatibility source escapes specification root''
     else if \<not> path_exists fs p \<or> is_symlink fs p
     then compat_error (''Compatibility source is missing or unsafe: '' @ path_text p) else Inr p)"

text \<open>The entries in order; the first argument holds the folded names seen so far.\<close>

fun compat_modules :: "string set \<Rightarrow> json list \<Rightarrow> (string \<times> string) list res" where
  "compat_modules seen [] = Inr []"
| "compat_modules seen (item # items) =
     (let name = text_field ''name'' item; version = text_field ''version'' item in
      if \<not> is_dict item then compat_error ''Compatibility module entry must be an object''
      else if \<not> module_name_ok name \<or> \<not> module_version_ok version then compat_error ''Compatibility module identity is invalid''
      else if casefold name \<in> seen then compat_error ''Compatibility target contains duplicate module names''
      else res_bind (compat_modules (insert (casefold name) seen) items) (\<lambda>ms. Inr ((name, version) # ms)))"

definition tool_version :: "string \<Rightarrow> json \<Rightarrow> string option res" where
  "tool_version tool v = (case v of
     JNull \<Rightarrow> Inr None
   | JStr s \<Rightarrow> if module_version_ok s then Inr (Some s) else compat_error (tool @ '' version is invalid'')
   | _ \<Rightarrow> compat_error (tool @ '' version is invalid''))"

definition compat_target_of :: "string set \<Rightarrow> json \<Rightarrow> compat_target res" where
  "compat_target_of seen raw =
     (let target_id = text_field ''id'' raw; runtime = text_field ''runtime'' raw;
          modules = py_or (get_none ''modules'' raw) (JArr []) in
      if \<not> is_dict raw then compat_error ''Compatibility target must be an object''
      else if \<not> module_name_ok target_id \<or> target_id \<in> seen then compat_error ''Compatibility target id is invalid or duplicated''
      else if runtime = [] \<or> 128 < length runtime then compat_error ''Compatibility runtime identity is invalid''
      else if \<not> is_list modules \<or> 256 < length (list_items modules) then compat_error ''Compatibility target modules are invalid''
      else
        res_bind (compat_modules {} (list_items modules)) (\<lambda>ms.
        res_bind (tool_version ''Pester'' (get_none ''pester'' raw)) (\<lambda>pester.
        res_bind (tool_version ''PSScriptAnalyzer'' (get_none ''psscriptanalyzer'' raw)) (\<lambda>analyzer.
        Inr \<lparr>ct_id = target_id, ct_runtime = runtime, ct_modules = sort_key (\<lambda>m. casefold (fst m)) ms, ct_pester = pester,
          ct_analyzer = analyzer, ct_required = py_true (get_or ''required'' (JBool True) raw)\<rparr>))))"

fun compat_targets :: "string set \<Rightarrow> json list \<Rightarrow> compat_target list res" where
  "compat_targets seen [] = Inr []"
| "compat_targets seen (raw # rest) =
     res_bind (compat_target_of seen raw) (\<lambda>t.
     res_bind (compat_targets (insert (ct_id t) seen) rest) (\<lambda>ts. Inr (t # ts)))"

definition parse_compat_spec :: "node \<Rightarrow> string list \<Rightarrow> json \<Rightarrow> (string \<times> string list list \<times> compat_target list) res" where
  "parse_compat_spec fs root v =
     (let name = text_field ''name'' v; sources = get_none ''sources'' v; targets = get_none ''targets'' v in
      if \<not> is_dict v \<or> \<not> eq_int (get_none ''schema'' v) 1 \<or> get_none ''kind'' v \<noteq> JStr ''psmatrix.compatibility-matrix''
      then compat_error ''Unsupported compatibility matrix schema''
      else if \<not> module_name_ok name then compat_error ''Compatibility matrix name is invalid''
      else if \<not> is_list sources \<or> list_items sources = [] \<or> 1024 < length (list_items sources)
      then compat_error ''Compatibility matrix sources must be a bounded non-empty array''
      else
        res_bind (res_map (compat_source fs root) (list_items sources)) (\<lambda>ps.
        if \<not> is_list targets \<or> list_items targets = [] \<or> 512 < length (list_items targets)
        then compat_error ''Compatibility targets must be a bounded non-empty array''
        else res_bind (compat_targets {} (list_items targets)) (\<lambda>ts. Inr (name, ps, ts))))"

definition load_compat_spec :: "(string \<Rightarrow> string) \<Rightarrow> node \<Rightarrow> string list \<Rightarrow> compat_spec res" where
  "load_compat_spec H fs path =
     res_bind (resolve fs path) (\<lambda>p.
     res_bind (read_json fs p) (\<lambda>v.
     res_bind (parse_compat_spec fs (butlast p) v) (\<lambda>(name, sources, targets).
     res_bind (sha256_file H fs p) (\<lambda>digest.
     Inr \<lparr>cs_path = p, cs_name = name, cs_sources = sources, cs_targets = targets, cs_sha256 = digest\<rparr>))))"

definition template_target :: "string \<Rightarrow> bool \<Rightarrow> string \<Rightarrow> json" where
  "template_target target_id required pester = JObj [(''id'', JStr target_id), (''runtime'', JStr ''7.6.4''), (''required'', JBool required),
     (''pester'', JStr pester), (''psscriptanalyzer'', JStr ''1.24.0''), (''modules'', JArr [])]"

definition compatibility_template :: json where
  "compatibility_template = JObj [(''schema'', JInt 1), (''kind'', JStr ''psmatrix.compatibility-matrix''),
     (''name'', JStr ''powershell-project-compatibility''), (''sources'', JArr [JStr ''.'']),
     (''targets'', JArr [template_target ''core-7.6-pester5-analyzer1'' True ''5.7.1'',
        template_target ''core-7.6-pester6-analyzer1'' False ''6.0.0-alpha5''])]"

section \<open>The plan\<close>

definition requested :: "compat_target \<Rightarrow> (string \<times> string) list" where
  "requested t = ct_modules t @ (case ct_pester t of None \<Rightarrow> [] | Some v \<Rightarrow> [(''Pester'', v)])
     @ (case ct_analyzer t of None \<Rightarrow> [] | Some v \<Rightarrow> [(''PSScriptAnalyzer'', v)])"

definition missing_module :: "string \<Rightarrow> string \<Rightarrow> string" where
  "missing_module name version = ''module:'' @ name @ ''@'' @ version"

definition missing_runtime :: "(string \<Rightarrow> bool) \<Rightarrow> compat_target \<Rightarrow> string list" where
  "missing_runtime ready t = (if ready (ct_runtime t) then [] else [''runtime:'' @ ct_runtime t])"

text \<open>For every requested module, the missing text or the record of its package\<close>

definition planned_package :: "(string \<Rightarrow> string) \<Rightarrow> mirror \<Rightarrow> string \<times> string \<Rightarrow> (string + json) res" where
  "planned_package H m = (\<lambda>(name, version).
     res_bind (exact_package H name version m) (\<lambda>item. case item of
       None \<Rightarrow> Inr (Inl (missing_module name version))
     | Some i \<Rightarrow> res_bind (jitem ''sha256'' i) (\<lambda>digest.
         Inr (Inr (JObj [(''name'', JStr name), (''version'', JStr version), (''sha256'', digest)])))))"

record planned_target =
  pt_target :: compat_target
  pt_missing :: "string list"
  pt_packages :: "json list"

definition lefts :: "('a + 'b) list \<Rightarrow> 'a list" where
  "lefts xs = concat (map (\<lambda>x. case x of Inl a \<Rightarrow> [a] | Inr _ \<Rightarrow> []) xs)"

definition rights :: "('a + 'b) list \<Rightarrow> 'b list" where
  "rights xs = concat (map (\<lambda>x. case x of Inl _ \<Rightarrow> [] | Inr b \<Rightarrow> [b]) xs)"

definition plan_target :: "(string \<Rightarrow> string) \<Rightarrow> (string \<Rightarrow> bool) \<Rightarrow> mirror \<Rightarrow> compat_target \<Rightarrow> planned_target res" where
  "plan_target H ready m t =
     res_bind (res_map (planned_package H m) (requested t)) (\<lambda>found.
     Inr \<lparr>pt_target = t, pt_missing = missing_runtime ready t @ lefts found, pt_packages = rights found\<rparr>)"

definition plan_status :: "planned_target \<Rightarrow> string" where
  "plan_status p = (if pt_missing p = [] then ''READY'' else ''INCOMPLETE'')"

definition plan_row :: "nat \<Rightarrow> planned_target \<Rightarrow> json" where
  "plan_row jobs p = JObj [(''id'', JStr (ct_id (pt_target p))), (''runtime'', JStr (ct_runtime (pt_target p))),
     (''required'', JBool (ct_required (pt_target p))), (''status'', JStr (plan_status p)),
     (''missing'', JArr (map JStr (pt_missing p))), (''packages'', JArr (pt_packages p)), (''job_count'', JInt (int jobs))]"

definition missing_required :: "planned_target list \<Rightarrow> string list" where
  "missing_required ps = map (\<lambda>p. ct_id (pt_target p)) (filter (\<lambda>p. ct_required (pt_target p) \<and> pt_missing p \<noteq> []) ps)"

definition plan_compatibility_matrix ::
    "(string \<Rightarrow> string) \<Rightarrow> (string \<Rightarrow> bool) \<Rightarrow> node \<Rightarrow> string list \<Rightarrow> mirror \<Rightarrow> json res" where
  "plan_compatibility_matrix H ready fs path m =
     res_bind (load_compat_spec H fs path) (\<lambda>spec.
     res_bind (verify_mirror H m) (\<lambda>check.
     res_bind (res_map (plan_target H ready m) (cs_targets spec)) (\<lambda>ps.
     let jobs = length (cs_sources spec); ready_count = length (filter (\<lambda>p. pt_missing p = []) ps) in
     Inr (JObj [(''schema'', JInt 1), (''kind'', JStr ''psmatrix.compatibility-plan''), (''name'', JStr (cs_name spec)),
       (''status'', JStr (if missing_required ps = [] \<and> py_true (get_none ''valid'' check) then ''READY'' else ''INCOMPLETE'')),
       (''spec_sha256'', JStr (cs_sha256 spec)), (''mirror'', check),
       (''sources'', JArr (map (\<lambda>p. JStr (path_text p)) (cs_sources spec))), (''targets'', JArr (map (plan_row jobs) ps)),
       (''coverage'', JObj [(''declared'', JInt (int (length ps))), (''ready'', JInt (int ready_count)),
          (''missing_required'', JArr (map JStr (missing_required ps))), (''jobs'', JInt (int (ready_count * jobs)))])]))))"

section \<open>The run\<close>

text \<open>What the child process of a target does: it times out, or ends with a return code, its errors and perhaps a
  report file. It works on the same home, so it takes the module store and leaves one.\<close>

datatype child_outcome = ChildTimeout string | ChildDone int string "json res option"

record compat_env =
  ce_modules :: module_env
  ce_ready :: "string \<Rightarrow> bool"
  ce_scan :: "string list \<Rightarrow> string list list res"
  ce_child :: "string list \<Rightarrow> json \<Rightarrow> module_store \<Rightarrow> module_store \<times> child_outcome"
  ce_python :: string
  ce_home :: "string list"
  ce_temp :: "string list"
  ce_lock_digest :: "json \<Rightarrow> string"

text \<open>The lock row of a package: the requested name and version with the digest of the mirror's index\<close>

definition target_lock_row :: "string \<Rightarrow> string \<Rightarrow> json \<Rightarrow> json" where
  "target_lock_row name version digest = JObj [(''name'', JStr name), (''version'', JStr version), (''sha256'', digest),
     (''require_verified'', JBool True)]"

text \<open>The requested packages are installed one by one; the missing ones are named, the others get a lock row.\<close>

fun install_requested ::
    "module_env \<Rightarrow> mirror \<Rightarrow> (string \<times> string) list \<Rightarrow> module_store \<Rightarrow> module_store \<times> (string list \<times> json list) res" where
  "install_requested E m [] S = (S, Inr ([], []))"
| "install_requested E m ((name, version) # rest) S = (case exact_package (mo_H E) name version m of
     Inl e \<Rightarrow> (S, Inl e)
   | Inr None \<Rightarrow> (case install_requested E m rest S of (S', r) \<Rightarrow>
       (S', res_bind r (\<lambda>(missing, locks). Inr (missing_module name version # missing, locks))))
   | Inr (Some item) \<Rightarrow> (case install_into E name version m S of
       (S1, Inl e) \<Rightarrow> (S1, Inl e)
     | (S1, Inr _) \<Rightarrow> (case jitem ''sha256'' item of
         Inl e \<Rightarrow> (S1, Inl e)
       | Inr digest \<Rightarrow> (case install_requested E m rest S1 of (S', r) \<Rightarrow>
           (S', res_bind r (\<lambda>(missing, locks). Inr (missing, target_lock_row name version digest # locks)))))))"

definition target_lock :: "json list \<Rightarrow> json" where
  "target_lock locks = JObj [(''schema'', JInt 1),
     (''powershell_modules'', JArr (sort_key (\<lambda>l. casefold (py_str (get_none ''name'' l))) locks)), (''native_commands'', JArr [])]"

text \<open>The command line of the child process\<close>

definition compat_command :: "compat_env \<Rightarrow> string list list \<Rightarrow> compat_target \<Rightarrow> string list" where
  "compat_command E sources t =
     [ce_python E, ''-m'', ''psmatrix'', ''--home'', path_text (ce_home E), ''test''] @ map path_text sources
     @ [''--runtime'', ct_runtime t, ''--lockfile'', path_text (ce_temp E @ [ct_id t @ ''.lock.json'']),
        ''--dependencies'', ''required'', ''--pester'', if ct_pester t \<noteq> None then ''required'' else ''off'',
        ''--psscriptanalyzer'', if ct_analyzer t \<noteq> None then ''required'' else ''off'',
        ''--coverage'', if ct_pester t \<noteq> None then ''auto'' else ''off'', ''--cache'', ''off'',
        ''--report-json'', path_text (ce_temp E @ [ct_id t @ ''.report.json''])]"

record target_result =
  rt_target :: compat_target
  rt_status :: string
  rt_row :: json

definition result_head :: "compat_target \<Rightarrow> string \<Rightarrow> (string \<times> json) list" where
  "result_head t status = [(''id'', JStr (ct_id t)), (''runtime'', JStr (ct_runtime t)), (''required'', JBool (ct_required t)),
     (''status'', JStr status)]"

definition report_status :: "json option \<Rightarrow> string" where
  "report_status report = (case report of
     Some v \<Rightarrow> if is_dict v then py_str (get_none ''status'' v) else ''FAIL_CONTROLLER'' | None \<Rightarrow> ''FAIL_CONTROLLER'')"

definition child_row :: "compat_env \<Rightarrow> compat_target \<Rightarrow> json list \<Rightarrow> child_outcome \<Rightarrow> target_result res" where
  "child_row E t locks outcome = (case outcome of
     ChildTimeout m \<Rightarrow> Inr \<lparr>rt_target = t, rt_status = ''FAIL_TIMEOUT'', rt_row = JObj (result_head t ''FAIL_TIMEOUT''
       @ [(''missing'', JArr []), (''report'', JNull), (''stderr'', JStr m)])\<rparr>
   | ChildDone code err report \<Rightarrow>
       res_bind (case report of None \<Rightarrow> Inr None | Some r \<Rightarrow> res_bind r (\<lambda>v. Inr (Some v))) (\<lambda>report.
       let status = report_status report in
       Inr \<lparr>rt_target = t, rt_status = status, rt_row = JObj (result_head t status
         @ [(''missing'', JArr []), (''module_lock_sha256'', JStr (ce_lock_digest E (target_lock locks))),
            (''modules'', JArr locks), (''returncode'', JInt code), (''stderr'', JStr (drop (length err - 8192) err)),
            (''report'', case report of None \<Rightarrow> JNull | Some v \<Rightarrow> v)])\<rparr>))"

definition child_result ::
    "compat_env \<Rightarrow> string list list \<Rightarrow> compat_target \<Rightarrow> json list \<Rightarrow> module_store \<Rightarrow> module_store \<times> target_result res" where
  "child_result E sources t locks S = (case ce_child E (compat_command E sources t) (target_lock locks) S of
     (S', outcome) \<Rightarrow> (S', child_row E t locks outcome))"

definition run_compat_target ::
    "compat_env \<Rightarrow> mirror \<Rightarrow> string list list \<Rightarrow> compat_target \<Rightarrow> module_store \<Rightarrow> module_store \<times> target_result res" where
  "run_compat_target E m sources t S = (case install_requested (ce_modules E) m (requested t) S of
     (S', Inl e) \<Rightarrow> (S', Inl e)
   | (S', Inr (missing, locks)) \<Rightarrow>
       (let missing = missing @ missing_runtime (ce_ready E) t in
        if missing \<noteq> []
        then (S', Inr \<lparr>rt_target = t, rt_status = ''INCOMPLETE'', rt_row = JObj (result_head t ''INCOMPLETE''
          @ [(''missing'', JArr (map JStr missing)), (''report'', JNull)])\<rparr>)
        else child_result E sources t locks S'))"

fun run_compat_targets ::
    "compat_env \<Rightarrow> mirror \<Rightarrow> string list list \<Rightarrow> compat_target list \<Rightarrow> module_store \<Rightarrow> module_store \<times> target_result list res" where
  "run_compat_targets E m sources [] S = (S, Inr [])"
| "run_compat_targets E m sources (t # ts) S = (case run_compat_target E m sources t S of
     (S1, Inl e) \<Rightarrow> (S1, Inl e)
   | (S1, Inr r) \<Rightarrow> (case run_compat_targets E m sources ts S1 of (S', rs) \<Rightarrow> (S', res_bind rs (\<lambda>rs. Inr (r # rs)))))"

definition result_ids :: "(target_result \<Rightarrow> bool) \<Rightarrow> target_result list \<Rightarrow> string list" where
  "result_ids P rs = map (\<lambda>r. ct_id (rt_target r)) (filter P rs)"

definition required_incomplete :: "target_result list \<Rightarrow> string list" where
  "required_incomplete = result_ids (\<lambda>r. ct_required (rt_target r) \<and> rt_status r = ''INCOMPLETE'')"

definition required_failed :: "target_result list \<Rightarrow> string list" where
  "required_failed = result_ids (\<lambda>r. ct_required (rt_target r) \<and> rt_status r \<notin> {''PASS'', ''INCOMPLETE''})"

definition compat_status :: "target_result list \<Rightarrow> string" where
  "compat_status rs = (if required_failed rs \<noteq> [] then ''FAIL''
     else if required_incomplete rs \<noteq> [] then ''INCOMPLETE'' else ''PASS'')"

definition count_status :: "(string \<Rightarrow> bool) \<Rightarrow> target_result list \<Rightarrow> json" where
  "count_status P rs = JInt (int (length (filter (\<lambda>r. P (rt_status r)) rs)))"

definition compat_report ::
    "compat_spec \<Rightarrow> json \<Rightarrow> string list list \<Rightarrow> string \<Rightarrow> string \<Rightarrow> target_result list \<Rightarrow> json" where
  "compat_report spec check sources started finished rs = JObj
     [(''schema'', JInt 1), (''kind'', JStr ''psmatrix.compatibility-report''), (''name'', JStr (cs_name spec)),
      (''started_at'', JStr started), (''finished_at'', JStr finished), (''status'', JStr (compat_status rs)),
      (''spec_sha256'', JStr (cs_sha256 spec)), (''mirror'', check),
      (''sources'', JArr (map (\<lambda>p. JStr (path_text p)) sources)), (''targets'', JArr (map rt_row rs)),
      (''summary'', JObj [(''declared'', JInt (int (length rs))), (''passed'', count_status (\<lambda>s. s = ''PASS'') rs),
         (''incomplete'', count_status (\<lambda>s. s = ''INCOMPLETE'') rs),
         (''failed'', count_status (\<lambda>s. s \<notin> {''PASS'', ''INCOMPLETE''}) rs),
         (''required_incomplete'', JArr (map JStr (required_incomplete rs))),
         (''required_failed'', JArr (map JStr (required_failed rs)))])]"

definition compat_sources :: "compat_env \<Rightarrow> node \<Rightarrow> compat_spec \<Rightarrow> string list list res" where
  "compat_sources E fs spec =
     res_bind (res_concat (map (ce_scan E) (cs_sources spec))) (\<lambda>files.
     res_bind (res_map (resolve fs) files) (\<lambda>paths.
     if paths = [] then compat_error ''Compatibility matrix contains no PowerShell sources''
     else Inr (sort (remdups paths))))"

definition execute_compatibility_matrix ::
    "compat_env \<Rightarrow> node \<Rightarrow> string list \<Rightarrow> mirror \<Rightarrow> string \<Rightarrow> string \<Rightarrow> module_store \<Rightarrow> module_store \<times> json res" where
  "execute_compatibility_matrix E fs path m started finished S =
     (case res_bind (load_compat_spec (mo_H (ce_modules E)) fs path) (\<lambda>spec.
        res_bind (verify_mirror (mo_H (ce_modules E)) m) (\<lambda>check.
        if \<not> py_true (get_none ''valid'' check) then compat_error ''Offline module mirror failed integrity verification''
        else res_bind (compat_sources E fs spec) (\<lambda>sources. Inr (spec, check, sources)))) of
        Inl e \<Rightarrow> (S, Inl e)
      | Inr (spec, check, sources) \<Rightarrow>
          (case run_compat_targets E m sources (cs_targets spec) S of (S', r) \<Rightarrow>
            (S', res_bind r (\<lambda>rs. Inr (compat_report spec check sources started finished rs)))))"

end
