(* ===== verification/Psm_ModulesProps.thy ===== *)
theory Psm_ModulesProps
  imports Psm_Modules Psm_ResolveProps
begin

text \<open>
  The module store under installations: every module sits under the name and the version its metadata states, with
  its manifest and with the package of its digest in the cache; a lockfile built from the store is accepted by the
  loader and satisfied by the store.
\<close>

section \<open>The store invariant\<close>

definition hex_digests :: "module_env \<Rightarrow> bool" where
  "hex_digests E \<longleftrightarrow> (\<forall>b. hex_digest_text (mo_H E b))"

definition metadata_ok :: "json \<Rightarrow> string \<Rightarrow> string \<Rightarrow> string \<Rightarrow> bool" where
  "metadata_ok v name version digest \<longleftrightarrow> jget ''name'' v = Some (JStr name) \<and> jget ''version'' v = Some (JStr version)
     \<and> jget ''sha256'' v = Some (JStr digest)"

definition dir_ok :: "module_env \<Rightarrow> (string list \<times> string) list \<Rightarrow> string \<Rightarrow> string \<Rightarrow> module_dir \<Rightarrow> bool" where
  "dir_ok E packages name version d \<longleftrightarrow> module_name_ok name \<and> module_version_ok version
     \<and> map_of (md_files d) [name @ ''.psd1''] \<noteq> None
     \<and> (\<exists>v bytes. md_metadata d = Some (Inr v) \<and> metadata_ok v name version (mo_H E bytes)
          \<and> map_of packages (cached_package name version (mo_H E bytes)) = Some bytes)"

definition packages_ok :: "module_env \<Rightarrow> (string list \<times> string) list \<Rightarrow> bool" where
  "packages_ok E packages \<longleftrightarrow>
     (\<forall>name version digest bytes. map_of packages (cached_package name version digest) = Some bytes \<longrightarrow> mo_H E bytes = digest)"

definition store_ok :: "module_env \<Rightarrow> module_store \<Rightarrow> bool" where
  "store_ok E S \<longleftrightarrow> distinct (map fst (ms_modules S)) \<and> (\<forall>vs \<in> snd ` set (ms_modules S). distinct (map fst vs))
     \<and> packages_ok E (ms_packages S)
     \<and> (\<forall>name version d. find_module name version S = Some d \<longrightarrow> dir_ok E (ms_packages S) name version d)"

text \<open>The folder of a version is deleted by hand; the cache keeps its package.\<close>

definition drop_module :: "string \<Rightarrow> string \<Rightarrow> module_store \<Rightarrow> module_store" where
  "drop_module name version S = S\<lparr>ms_modules := map (\<lambda>(n, vs). (n, if n = name then AList.delete version vs else vs)) (ms_modules S)\<rparr>"

inductive store_run :: "module_env \<Rightarrow> module_store \<Rightarrow> bool" for E where
  store_start: "ms_modules S = [] \<Longrightarrow> ms_packages S = [] \<Longrightarrow> store_run E S"
| store_install: "store_run E S \<Longrightarrow> store_run E (fst (install_nupkg E r S))"
| store_drop: "store_run E S \<Longrightarrow> store_run E (drop_module name version S)"

lemma metadata_dict: "metadata_ok v n g d \<Longrightarrow> is_dict v"
  by (cases v) (simp_all add: metadata_ok_def jget_def)

lemma find_put_module:
  "find_module n' v' (put_module n v d S) = (if n' = n \<and> v' = v then Some d else find_module n' v' S)"
  by (auto simp: find_module_def put_module_def update_conv' split: option.splits)

lemma put_module_packages [simp]: "ms_packages (put_module n v d S) = ms_packages S" "ms_home (put_module n v d S) = ms_home S"
  by (simp_all add: put_module_def)

lemma put_module_distinct:
  assumes "distinct (map fst (ms_modules S))" "\<forall>vs \<in> snd ` set (ms_modules S). distinct (map fst vs)"
  shows "distinct (map fst (ms_modules (put_module n v d S)))" "\<forall>vs \<in> snd ` set (ms_modules (put_module n v d S)). distinct (map fst vs)"
proof -
  show "distinct (map fst (ms_modules (put_module n v d S)))" using assms(1) by (simp add: put_module_def distinct_update)
  have "set (AList.update k x kvs) \<subseteq> insert (k, x) (set kvs)" for k x and kvs :: "(string \<times> (string \<times> module_dir) list) list"
    by (induction kvs) auto
  moreover have "distinct (map fst (case map_of (ms_modules S) n of None \<Rightarrow> [] | Some vs \<Rightarrow> vs))"
    using assms(2) by (force split: option.splits dest: map_of_SomeD)
  then have "distinct (map fst (AList.update v d (case map_of (ms_modules S) n of None \<Rightarrow> [] | Some vs \<Rightarrow> vs)))"
    by (rule distinct_update)
  ultimately show "\<forall>vs \<in> snd ` set (ms_modules (put_module n v d S)). distinct (map fst vs)"
    using assms(2) by (fastforce simp: put_module_def)
qed

lemma keep_package_same [simp]: "ms_modules (keep_package p b S) = ms_modules S" "ms_home (keep_package p b S) = ms_home S"
  by (simp_all add: keep_package_def)

lemma map_of_keep_package:
  "map_of (ms_packages (keep_package p b S)) q
    = (if q = p \<and> map_of (ms_packages S) p = None then Some b else map_of (ms_packages S) q)"
  by (simp add: keep_package_def update_conv')

lemma keep_package_more: "map_of (ms_packages S) q = Some c \<Longrightarrow> map_of (ms_packages (keep_package p b S)) q = Some c"
  by (auto simp: map_of_keep_package)

lemma cached_package_inj [simp]:
  "cached_package n v d = cached_package n' v' d' \<longleftrightarrow> n = n' \<and> v = v' \<and> d = d'"
  by (simp add: cached_package_def)

lemma keep_package_packages:
  "packages_ok E (ms_packages S) \<Longrightarrow> packages_ok E (ms_packages (keep_package (cached_package n v (mo_H E b)) b S))"
  unfolding packages_ok_def map_of_keep_package by simp

lemma find_keep_package [simp]: "find_module n v (keep_package p b S) = find_module n v S"
  by (simp add: find_module_def)

lemma dir_ok_more:
  assumes "dir_ok E ps n v d" "\<And>q c. map_of ps q = Some c \<Longrightarrow> map_of qs q = Some c"
  shows "dir_ok E qs n v d"
proof -
  from assms(1) obtain j b where "md_metadata d = Some (Inr j)" "metadata_ok j n v (mo_H E b)"
      "map_of ps (cached_package n v (mo_H E b)) = Some b"
    unfolding dir_ok_def by (elim conjE exE) (rule that)
  with assms(1) assms(2) [OF this(3)] show ?thesis
    unfolding dir_ok_def by (intro conjI exI [of _ j] exI [of _ b]) simp_all
qed

lemma store_ok_parts:
  assumes "store_ok E S"
  shows "packages_ok E (ms_packages S)" "find_module n v S = Some d \<Longrightarrow> dir_ok E (ms_packages S) n v d"
    "distinct (map fst (ms_modules S))" "\<forall>vs \<in> snd ` set (ms_modules S). distinct (map fst vs)"
  using assms unfolding store_ok_def by simp_all

lemma keep_package_ok:
  assumes "store_ok E S"
  shows "store_ok E (keep_package (cached_package n v (mo_H E b)) b S)"
    "\<exists>c. map_of (ms_packages (keep_package (cached_package n v (mo_H E b)) b S)) (cached_package n v (mo_H E b)) = Some c
      \<and> mo_H E c = mo_H E b"
proof -
  let ?p = "cached_package n v (mo_H E b)"
  let ?S = "keep_package ?p b S"
  have p: "packages_ok E (ms_packages ?S)" by (rule keep_package_packages) (rule store_ok_parts(1) [OF assms])
  obtain c where c: "map_of (ms_packages ?S) ?p = Some c"
    by (cases "map_of (ms_packages S) ?p") (simp_all add: map_of_keep_package)
  have "mo_H E c = mo_H E b" by (rule p [unfolded packages_ok_def, rule_format, OF c])
  with c show "\<exists>c. map_of (ms_packages ?S) ?p = Some c \<and> mo_H E c = mo_H E b" by simp
  have "dir_ok E (ms_packages ?S) n' v' d" if "find_module n' v' ?S = Some d" for n' v' d
    using that store_ok_parts(2) [OF assms] by (intro dir_ok_more [OF _ keep_package_more]) simp_all
  then show "store_ok E ?S" unfolding store_ok_def keep_package_same
    by (intro conjI allI impI store_ok_parts(3,4) [OF assms] p)
qed

lemma put_module_ok:
  assumes "store_ok E S" "dir_ok E (ms_packages S) n v d"
  shows "store_ok E (put_module n v d S)"
proof -
  have "dir_ok E (ms_packages S) n' v' d'" if "find_module n' v' (put_module n v d S) = Some d'" for n' v' d'
    using that assms(2) store_ok_parts(2) [OF assms(1)] by (simp add: find_put_module split: if_splits)
  then show ?thesis
    unfolding store_ok_def put_module_packages
    by (intro conjI allI impI store_ok_parts(1) [OF assms(1)] put_module_distinct [OF store_ok_parts(3,4) [OF assms(1)]])
qed

lemma map_of_map_key: "map_of (map (\<lambda>(k, x). (k, f k x)) xs) k = map_option (f k) (map_of xs k)"
  by (induction xs) auto

lemma find_drop_module: "find_module n v (drop_module n' v' S) = (if n = n' \<and> v = v' then None else find_module n v S)"
  by (auto simp: find_module_def drop_module_def map_of_map_key delete_conv' split: option.splits)

lemma drop_module_ok:
  assumes "store_ok E S"
  shows "store_ok E (drop_module n v S)"
proof -
  have k: "map fst (ms_modules (drop_module n v S)) = map fst (ms_modules S)" "ms_packages (drop_module n v S) = ms_packages S"
    by (auto simp: drop_module_def)
  moreover have "\<forall>vs \<in> snd ` set (ms_modules (drop_module n v S)). distinct (map fst vs)"
    using store_ok_parts(4) [OF assms] by (force simp: drop_module_def distinct_delete)
  moreover have "dir_ok E (ms_packages S) n' v' d" if "find_module n' v' (drop_module n v S) = Some d" for n' v' d
    using that store_ok_parts(2) [OF assms] by (simp add: find_drop_module split: if_splits)
  ultimately show ?thesis unfolding store_ok_def using store_ok_parts(1,3) [OF assms] by metis
qed

section \<open>Installing keeps it\<close>

lemma check_install_ok:
  assumes "check_install E r = Inr (bytes, digest, name, version, verified)" "hex_digests E"
  shows "digest = mo_H E bytes" "module_name_ok name" "module_version_ok version"
    "verified \<Longrightarrow> py_lower (strip_space (ir_sha256 r)) = digest" "verified \<longleftrightarrow> ir_sha256 r \<noteq> []"
    "ir_version r \<noteq> [] \<Longrightarrow> version = ir_version r"
proof -
  have l: "py_lower (mo_H E b) = mo_H E b" for b using assms(2) hex_digest_any by (simp add: hex_digests_def)
  from assms(1) show "digest = mo_H E bytes" "module_name_ok name" "module_version_ok version"
    "verified \<Longrightarrow> py_lower (strip_space (ir_sha256 r)) = digest" "verified \<longleftrightarrow> ir_sha256 r \<noteq> []"
    "ir_version r \<noteq> [] \<Longrightarrow> version = ir_version r"
    by (auto simp: check_install_def l Let_def split: option.splits)
qed

lemma module_content_manifest:
  assumes "module_content name files = Inr content"
  shows "map_of content [name @ ''.psd1''] \<noteq> None"
proof (cases "map_of files [name @ ''.psd1''] = None")
  case True
  let ?ps = "filter (\<lambda>p. p \<noteq> [] \<and> last p = name @ ''.psd1'') (map fst files)"
  from assms True obtain p where p: "?ps = [p]"
      "content = map (\<lambda>(q, b). (drop (length p - 1) q, b)) (filter (\<lambda>(q, b). take (length p - 1) q = butlast p) files)"
    by (cases ?ps; cases "tl ?ps") (auto simp: module_content_def Let_def)
  then have "p \<in> set ?ps" by simp
  then obtain b where "(p, b) \<in> set files" "p \<noteq> []" "last p = name @ ''.psd1''" by auto
  moreover from this have "drop (length p - 1) p = [name @ ''.psd1'']" by (metis append_butlast_last_id append_eq_conv_conj length_butlast)
  ultimately have "([name @ ''.psd1''], b) \<in> set content" unfolding p(2) by (force simp: butlast_conv_take)
  then show ?thesis by (metis map_of_eq_None_iff fst_conv image_eqI)
qed (use assms in \<open>auto simp: module_content_def Let_def\<close>)

lemma fresh_install_ok:
  assumes "store_ok E S" "module_name_ok name" "module_version_ok version" "digest = mo_H E bytes"
  shows "store_ok E (fst (fresh_install E r bytes digest name version verified S))"
proof (cases "res_bind (safe_extract E bytes) (module_content name)")
  case (Inl e)
  with assms(1) show ?thesis by (simp add: fresh_install_def)
next
  case (Inr files)
  then have m: "map_of files [name @ ''.psd1''] \<noteq> None" using module_content_manifest by auto
  let ?S = "keep_package (cached_package name version digest) bytes S"
  let ?v = "module_metadata E r name version digest verified (cache_text S (cached_package name version digest))"
  from keep_package_ok [OF assms(1), of name version bytes] obtain c where c: "store_ok E ?S"
      "map_of (ms_packages ?S) (cached_package name version digest) = Some c" "mo_H E c = digest"
    by (auto simp: assms(4))
  have "metadata_ok ?v name version (mo_H E c)" by (simp add: metadata_ok_def module_metadata_def c(3))
  with c m assms(2,3) have "dir_ok E (ms_packages ?S) name version \<lparr>md_metadata = Some (Inr ?v), md_files = files\<rparr>"
    by (auto simp: dir_ok_def)
  with c(1) show ?thesis by (simp add: fresh_install_def Inr Let_def put_module_ok)
qed

lemma reinstall_ok:
  assumes "store_ok E S" "find_module name version S = Some d" "md_metadata d = Some metadata" "digest = mo_H E bytes"
  shows "store_ok E (fst (reinstall bytes digest name version d metadata S))"
proof -
  from assms(1,2) have d: "dir_ok E (ms_packages S) name version d" by (simp add: store_ok_def)
  with assms(3) obtain v b where v: "metadata = Inr v" "metadata_ok v name version (mo_H E b)" "is_dict v"
      "map_of (ms_packages S) (cached_package name version (mo_H E b)) = Some b"
    by (auto simp: dir_ok_def dest: metadata_dict)
  let ?p = "cached_package name version digest"
  let ?S = "keep_package ?p bytes S"
  have S: "store_ok E ?S" unfolding assms(4) by (rule keep_package_ok(1) [OF assms(1)])
  have "metadata_ok (jset ''cached_package'' (JStr (cache_text S ?p)) v) name version (mo_H E b)"
    using v(2) by (simp add: metadata_ok_def)
  with d v have "dir_ok E (ms_packages S) name version (d\<lparr>md_metadata := Some (Inr (jset ''cached_package'' (JStr (cache_text S ?p)) v))\<rparr>)"
    unfolding dir_ok_def by auto
  then have "dir_ok E (ms_packages ?S) name version (d\<lparr>md_metadata := Some (Inr (jset ''cached_package'' (JStr (cache_text S ?p)) v))\<rparr>)"
    by (rule dir_ok_more) (rule keep_package_more)
  with S assms(1) v(1,3) show ?thesis by (simp add: reinstall_def Let_def put_module_ok)
qed

lemma install_ok:
  assumes "store_ok E S" "hex_digests E"
  shows "store_ok E (fst (install_nupkg E r S))"
proof (cases "check_install E r")
  case (Inl e)
  with assms(1) show ?thesis by (simp add: install_nupkg_def)
next
  case (Inr x)
  obtain bytes digest name version verified where x: "x = (bytes, digest, name, version, verified)" by (cases x)
  note c = check_install_ok [OF Inr [unfolded x] assms(2)]
  note fresh = fresh_install_ok [OF assms(1) c(2,3,1)]
  show ?thesis
  proof (cases "find_module name version S")
    case (Some d)
    then show ?thesis using fresh reinstall_ok [OF assms(1) Some _ c(1)]
      by (cases "md_metadata d") (simp_all add: install_nupkg_def Inr x)
  qed (simp add: install_nupkg_def Inr x fresh)
qed

lemma store_run_ok:
  assumes "store_run E S" "hex_digests E"
  shows "store_ok E S"
  using assms(1)
proof induction
  case (store_start S)
  then show ?case by (simp add: store_ok_def packages_ok_def find_module_def)
qed (simp_all add: install_ok drop_module_ok assms(2))

text \<open>Installing from the mirror and ensuring locks are installations, so they keep it too.\<close>

lemma install_into_ok:
  assumes "store_ok E S" "hex_digests E"
  shows "store_ok E (fst (install_into E name version m S))"
proof (cases "res_bind (exact_package (mo_H E) name version m) (\<lambda>item. case item of
    None \<Rightarrow> compat_error (''Mirror package unavailable: '' @ name @ '' '' @ version) | Some i \<Rightarrow> mirror_request m name version i)")
  case (Inl e)
  then show ?thesis using assms(1) unfolding install_into_def Inl by simp
next
  case (Inr r)
  show ?thesis unfolding install_into_def Inr using install_ok [OF assms, of r] by (simp add: split_def)
qed

section \<open>What a store lists\<close>

definition metadata_of :: "module_dir \<Rightarrow> json" where
  "metadata_of d = (case md_metadata d of Some (Inr v) \<Rightarrow> v | _ \<Rightarrow> JNull)"

definition store_row :: "module_store \<Rightarrow> string \<Rightarrow> string \<Rightarrow> module_dir \<Rightarrow> json" where
  "store_row S name version d = jset ''healthy'' (JBool True) (jset ''path'' (JStr (path_text (module_root S name version))) (metadata_of d))"

lemma dir_ok_row:
  assumes "dir_ok E ps n v d"
  shows "\<exists>j. md_metadata d = Some (Inr j) \<and> installed_row (module_root S n v) d (Inr j) = Inr (store_row S n v d)"
    "jget ''name'' (store_row S n v d) = Some (JStr n)" "jget ''version'' (store_row S n v d) = Some (JStr v)"
    "\<exists>b. jget ''sha256'' (store_row S n v d) = Some (JStr (mo_H E b)) \<and> map_of ps (cached_package n v (mo_H E b)) = Some b"
    "is_healthy (store_row S n v d)" "is_dict (store_row S n v d)"
proof -
  from assms obtain j b where j: "md_metadata d = Some (Inr j)" "metadata_ok j n v (mo_H E b)"
      "map_of ps (cached_package n v (mo_H E b)) = Some b" "map_of (md_files d) [n @ ''.psd1''] \<noteq> None"
    unfolding dir_ok_def by (elim conjE exE) (rule that)
  note m = j(2) [unfolded metadata_ok_def] metadata_dict [OF j(2)]
  from j m show "\<exists>j. md_metadata d = Some (Inr j) \<and> installed_row (module_root S n v) d (Inr j) = Inr (store_row S n v d)"
    by (simp add: installed_row_def store_row_def metadata_of_def)
  show "jget ''name'' (store_row S n v d) = Some (JStr n)" "jget ''version'' (store_row S n v d) = Some (JStr v)"
    "is_healthy (store_row S n v d)" "is_dict (store_row S n v d)"
    using m by (simp_all add: store_row_def metadata_of_def j(1) is_healthy_def)
  show "\<exists>b. jget ''sha256'' (store_row S n v d) = Some (JStr (mo_H E b)) \<and> map_of ps (cached_package n v (mo_H E b)) = Some b"
    using m j(3) by (intro exI [of _ b]) (simp add: store_row_def metadata_of_def j(1))
qed

lemma res_concat_map: "(\<And>x. x \<in> set xs \<Longrightarrow> f x = Inr (g x)) \<Longrightarrow> res_concat (map f xs) = Inr (concat (map g xs))"
  by (induction xs) simp_all

lemma find_module_in:
  assumes "store_ok E S" "(n, vs) \<in> set (ms_modules S)" "(v, d) \<in> set vs"
  shows "find_module n v S = Some d"
proof -
  have "map_of (ms_modules S) n = Some vs" by (rule map_of_is_SomeI [OF store_ok_parts(3) [OF assms(1)] assms(2)])
  moreover have "distinct (map fst vs)" using store_ok_parts(4) [OF assms(1)] assms(2) by force
  ultimately show ?thesis using assms(3) by (simp add: find_module_def map_of_is_SomeI)
qed

lemma list_versions_ok:
  assumes "store_ok E S" "(n, vs) \<in> set (ms_modules S)"
  shows "list_versions S (n, vs) = Inr (concat (map (\<lambda>(v, d). [store_row S n v d]) (sort_key fst vs)))"
  unfolding list_versions_def prod.case
proof (rule res_concat_map, clarify)
  fix v d
  assume "(v, d) \<in> set (sort_key fst vs)"
  then have "dir_ok E (ms_packages S) n v d"
    using find_module_in [OF assms] store_ok_parts(2) [OF assms(1)] by simp
  from dir_ok_row(1) [OF this, of S] show "(case md_metadata d of None \<Rightarrow> Inr []
      | Some metadata \<Rightarrow> res_bind (installed_row (module_root S n v) d metadata) (\<lambda>row. Inr [row])) = Inr [store_row S n v d]"
    by (elim exE conjE) simp
qed

text \<open>A store without damage lists a row for every folder it holds.\<close>

lemma list_installed_ok:
  assumes "store_ok E S"
  shows "\<exists>items. list_installed name S = Inr items
    \<and> set items = {store_row S n v d |n v d. find_module n v S = Some d \<and> (name = [] \<or> n = name)}"
proof -
  have f: "find_module n v S = Some d \<longleftrightarrow> (\<exists>vs. (n, vs) \<in> set (ms_modules S) \<and> (v, d) \<in> set vs)" for n v d
  proof
    assume "find_module n v S = Some d"
    then show "\<exists>vs. (n, vs) \<in> set (ms_modules S) \<and> (v, d) \<in> set vs"
      unfolding find_module_def by (auto split: option.splits dest!: map_of_SomeD)
  qed (use find_module_in [OF assms] in blast)
  show ?thesis
  proof (cases "name = []")
    case True
    have "list_installed name S = Inr (concat (map (\<lambda>(n, vs). concat (map (\<lambda>(v, d). [store_row S n v d]) (sort_key fst vs)))
        (sort_key fst (ms_modules S))))"
      unfolding list_installed_def if_P [OF True]
      by (rule res_concat_map) (auto simp: list_versions_ok [OF assms])
    moreover have "set (concat (map (\<lambda>(n, vs). concat (map (\<lambda>(v, d). [store_row S n v d]) (sort_key fst vs)))
        (sort_key fst (ms_modules S)))) = {store_row S n v d |n v d. \<exists>vs. (n, vs) \<in> set (ms_modules S) \<and> (v, d) \<in> set vs}"
    proof (intro equalityI subsetI)
      fix x
      assume "x \<in> {store_row S n v d |n v d. \<exists>vs. (n, vs) \<in> set (ms_modules S) \<and> (v, d) \<in> set vs}"
      then obtain n v d vs where "x = store_row S n v d" "(n, vs) \<in> set (ms_modules S)" "(v, d) \<in> set vs" by blast
      then show "x \<in> set (concat (map (\<lambda>(n, vs). concat (map (\<lambda>(v, d). [store_row S n v d]) (sort_key fst vs)))
          (sort_key fst (ms_modules S))))"
        by (auto intro!: bexI [of _ "(n, vs)"] bexI [of _ "(v, d)"])
    qed auto
    ultimately show ?thesis using True by (simp add: f)
  next
    case False
    show ?thesis
    proof (cases "map_of (ms_modules S) name")
      case None
      then show ?thesis using False by (simp add: list_installed_def find_module_def)
    next
      case (Some vs)
      then have m: "(name, vs) \<in> set (ms_modules S)" by (rule map_of_SomeD)
      have "find_module name v S = Some d \<longleftrightarrow> (v, d) \<in> set vs" for v d
        using find_module_in [OF assms m] Some by (auto simp: find_module_def dest: map_of_SomeD)
      then show ?thesis using False Some
        by (intro exI conjI) (simp add: list_installed_def list_versions_ok [OF assms m], force)
    qed
  qed
qed

lemma exact_module_ok:
  assumes "store_ok E S" "name \<noteq> []"
  shows "exact_module name version S = Inr (map_option (store_row S name version) (find_module name version S))"
proof -
  obtain items where items: "list_installed name S = Inr items"
      "set items = {store_row S n v d |n v d. find_module n v S = Some d \<and> (name = [] \<or> n = name)}"
    using list_installed_ok [OF assms(1), of name] by (elim exE conjE) (rule that)
  let ?P = "\<lambda>i. is_healthy i \<and> py_str (get_none ''version'' i) = version"
  have row: "is_healthy (store_row S n v d) \<and> py_str (get_none ''version'' (store_row S n v d)) = v"
    if "find_module n v S = Some d" for n v d
    using dir_ok_row [OF store_ok_parts(2) [OF assms(1) that], of S] by (simp add: get_or_def)
  have "find ?P items = map_option (store_row S name version) (find_module name version S)"
  proof (cases "find ?P items")
    case None
    have "find_module name version S = None"
    proof (rule ccontr)
      assume "find_module name version S \<noteq> None"
      then obtain d where d: "find_module name version S = Some d" by auto
      then have "store_row S name version d \<in> set items" unfolding items(2) by blast
      with None row [OF d] show False unfolding find_None_iff by blast
    qed
    with None show ?thesis by simp
  next
    case (Some i)
    then have i: "i \<in> set items" "?P i" unfolding find_Some_iff by auto
    then obtain v d where d: "i = store_row S name v d" "find_module name v S = Some d" using assms(2) items(2) by auto
    with i(2) row [OF d(2)] have "v = version" by simp
    with d Some show ?thesis by simp
  qed
  with items(1) show ?thesis by (simp add: exact_module_def)
qed

section \<open>Locked modules\<close>

text \<open>A lock holds in a store: the folder of its name and version has the manifest and metadata with its digest, and
  the cache has the package with that digest.\<close>

definition lock_holds :: "module_env \<Rightarrow> module_store \<Rightarrow> module_lock \<Rightarrow> bool" where
  "lock_holds E S l \<longleftrightarrow> (\<exists>d v bytes. find_module (ml_name l) (ml_version l) S = Some d
     \<and> map_of (md_files d) [ml_name l @ ''.psd1''] \<noteq> None \<and> md_metadata d = Some (Inr v)
     \<and> metadata_ok v (ml_name l) (ml_version l) (py_lower (ml_sha256 l))
     \<and> (ml_require_verified l \<longrightarrow> py_true (get_none ''verified'' v))
     \<and> map_of (ms_packages S) (cached_package (ml_name l) (ml_version l) (py_lower (ml_sha256 l))) = Some bytes
     \<and> mo_H E bytes = py_lower (ml_sha256 l))"

lemma lower_digest: "hex_digests E \<Longrightarrow> py_lower (mo_H E b) = mo_H E b"
  using hex_digest_any by (simp add: hex_digests_def)

lemma check_locked_holds:
  assumes "store_ok E S" "hex_digests E" "ml_name l \<noteq> []"
    and "res_bind (exact_module (ml_name l) (ml_version l) S) (check_locked l) = Inr item"
  shows "lock_holds E S l"
proof -
  have c0: "check_locked l (map_option (store_row S (ml_name l) (ml_version l)) (find_module (ml_name l) (ml_version l) S)) = Inr item"
    using assms(4) by (simp only: exact_module_ok [OF assms(1,3)] res_bind_simps)
  then have "find_module (ml_name l) (ml_version l) S \<noteq> None"
    by (cases "find_module (ml_name l) (ml_version l) S") (simp_all add: check_locked_def)
  then obtain d where d: "find_module (ml_name l) (ml_version l) S = Some d" by (elim not_None_eq [THEN iffD1, THEN exE])
  with c0 have c: "check_locked l (Some (store_row S (ml_name l) (ml_version l) d)) = Inr item" by (simp only: option.map)
  let ?row = "store_row S (ml_name l) (ml_version l) d"
  note ok = store_ok_parts(2) [OF assms(1) d]
  from ok obtain v b where v: "md_metadata d = Some (Inr v)" "metadata_ok v (ml_name l) (ml_version l) (mo_H E b)"
      "map_of (ms_packages S) (cached_package (ml_name l) (ml_version l) (mo_H E b)) = Some b"
      "map_of (md_files d) [ml_name l @ ''.psd1''] \<noteq> None"
    unfolding dir_ok_def by (elim conjE exE) (rule that)
  have row: "get_or k x ?row = get_or k x v" if "k \<noteq> ''healthy''" "k \<noteq> ''path''" for k x
    using that by (simp add: store_row_def metadata_of_def v(1))
  have "py_str (get_or ''sha256'' (JStr '''') ?row) = mo_H E b"
    using v(2) by (simp add: row) (simp add: get_or_def metadata_ok_def)
  with c have "mo_H E b = py_lower (ml_sha256 l)" "ml_require_verified l \<longrightarrow> py_true (get_none ''verified'' v)"
    by (auto simp: check_locked_def lower_digest [OF assms(2)] row split: if_splits)
  with v d show ?thesis unfolding lock_holds_def by (intro exI [of _ d] exI [of _ v] exI [of _ b]) simp
qed

text \<open>An installation that is not forced keeps what it finds.\<close>

lemma put_module_holds:
  assumes "lock_holds E S l" "find_module n v S = Some d" "md_metadata d = Some (Inr j)" "is_dict j"
  shows "lock_holds E (put_module n v (d\<lparr>md_metadata := Some (Inr (jset ''cached_package'' x j))\<rparr>) S) l"
  using assms unfolding lock_holds_def
  by (elim exE conjE) (auto simp: find_put_module metadata_ok_def)

lemma put_new_holds:
  assumes "lock_holds E S l" "find_module n v S = None"
  shows "lock_holds E (put_module n v d S) l"
proof -
  from assms have "\<not> (ml_name l = n \<and> ml_version l = v)" unfolding lock_holds_def by auto
  with assms(1) show ?thesis unfolding lock_holds_def find_put_module put_module_packages by auto
qed

lemma keep_package_holds:
  assumes "lock_holds E S l"
  shows "lock_holds E (keep_package p b S) l"
  using assms keep_package_more unfolding lock_holds_def find_keep_package by fast

lemma install_holds:
  assumes "store_ok E S" "lock_holds E S l" "\<not> ir_force r"
  shows "lock_holds E (fst (install_nupkg E r S)) l"
proof (cases "check_install E r")
  case (Inl e)
  with assms(2) show ?thesis by (simp add: install_nupkg_def)
next
  case (Inr x)
  obtain bytes digest name version verified where x: "x = (bytes, digest, name, version, verified)" by (cases x)
  show ?thesis
  proof (cases "find_module name version S")
    case None
    then have "lock_holds E (put_module name version d (keep_package p bytes S)) l" for d p
      by (intro put_new_holds keep_package_holds assms(2)) simp
    then have "lock_holds E (fst (fresh_install E r bytes digest name version verified S)) l"
      using assms(2) by (simp add: fresh_install_def Let_def split: sum.split)
    then show ?thesis by (simp add: install_nupkg_def Inr x None)
  next
    case (Some d)
    from store_ok_parts(2) [OF assms(1) Some] obtain j where j: "md_metadata d = Some (Inr j)" "is_dict j"
      unfolding dir_ok_def by (elim conjE exE) (metis metadata_dict)
    have "lock_holds E (put_module name version (d\<lparr>md_metadata := Some (Inr (jset ''cached_package'' y j))\<rparr>) (keep_package p bytes S)) l" for y p
      using Some j by (intro put_module_holds keep_package_holds assms(2)) simp_all
    then show ?thesis using assms(2,3) j keep_package_holds [OF assms(2)]
      by (simp add: install_nupkg_def Inr x Some reinstall_def Let_def)
  qed
qed

lemma restored_module_cases:
  assumes "store_ok E S" "ml_name l \<noteq> []"
  shows "(restored_module E restore l S = (S, exact_module (ml_name l) (ml_version l) S))
    \<or> (\<exists>b. fst (restored_module E restore l S) = fst (install_nupkg E (restore_request S l b) S)
        \<and> (\<forall>i. snd (restored_module E restore l S) = Inr i \<longrightarrow>
            exact_module (ml_name l) (ml_version l) (fst (restored_module E restore l S)) = Inr i))"
proof (cases "find_module (ml_name l) (ml_version l) S")
  case None
  then have e: "exact_module (ml_name l) (ml_version l) S = Inr None" using exact_module_ok [OF assms] by simp
  show ?thesis
  proof (cases "if restore then map_of (ms_packages S) (cached_package (ml_name l) (ml_version l) (ml_sha256 l)) else None")
    case None
    then show ?thesis by (simp add: restored_module_def e)
  next
    case (Some b)
    obtain S' ri where i: "install_nupkg E (restore_request S l b) S = (S', ri)" by (cases "install_nupkg E (restore_request S l b) S")
    show ?thesis by (rule disjI2, rule exI [of _ b]) (cases ri; simp add: restored_module_def e Some i)
  qed
qed (simp add: restored_module_def exact_module_ok [OF assms])

lemma restored_module_ok:
  assumes "store_ok E S" "hex_digests E" "ml_name l \<noteq> []" "restored_module E restore l S = (S1, x)"
  shows "store_ok E S1" "lock_holds E S l' \<Longrightarrow> lock_holds E S1 l'" "res_bind x (check_locked l) = Inr item \<Longrightarrow> lock_holds E S1 l"
proof -
  have f: "\<not> ir_force (restore_request S l b)" for b by (simp add: restore_request_def)
  show s: "store_ok E S1" "lock_holds E S l' \<Longrightarrow> lock_holds E S1 l'"
    using restored_module_cases [OF assms(1,3), of restore] assms(4) install_ok [OF assms(1,2)] install_holds [OF assms(1) _ f] assms(1)
    by auto
  assume c: "res_bind x (check_locked l) = Inr item"
  then have "exact_module (ml_name l) (ml_version l) S1 = x"
    using restored_module_cases [OF assms(1,3), of restore] assms(4) by (cases x) auto
  with c show "lock_holds E S1 l" by (intro check_locked_holds [OF s(1) assms(2,3)]) simp
qed

lemma ensure_locked_ok:
  assumes "store_ok E S" "hex_digests E" "\<forall>l \<in> set locks. ml_name l \<noteq> []" "ensure_locked E restore locks S = (S', x)"
  shows "store_ok E S'" "lock_holds E S l' \<Longrightarrow> lock_holds E S' l'" "x = Inr items \<Longrightarrow> l \<in> set locks \<Longrightarrow> lock_holds E S' l"
proof -
  have "store_ok E S' \<and> (\<forall>l. lock_holds E S l \<longrightarrow> lock_holds E S' l)
      \<and> (\<forall>items. x = Inr items \<longrightarrow> (\<forall>l \<in> set locks. lock_holds E S' l))"
    using assms(1,3,4)
  proof (induction locks arbitrary: S S' x)
    case (Cons l ls)
    obtain S1 r where r: "restored_module E restore l S = (S1, r)" by (cases "restored_module E restore l S")
    obtain S2 y where y: "ensure_locked E restore ls S1 = (S2, y)" by (cases "ensure_locked E restore ls S1")
    note ok = restored_module_ok [OF Cons.prems(1) assms(2) _ r]
    from Cons.IH [OF ok(1) _ y] Cons.prems(2) have ih: "store_ok E S2" "\<forall>l. lock_holds E S1 l \<longrightarrow> lock_holds E S2 l"
        "\<forall>items. y = Inr items \<longrightarrow> (\<forall>l \<in> set ls. lock_holds E S2 l)" by simp_all
    show ?case
    proof (cases "res_bind r (check_locked l)")
      case (Inl e)
      with Cons.prems(2,3) ok(1,2) show ?thesis by (auto simp: r)
    next
      case (Inr item)
      with Cons.prems(3) have "S' = S2" "x = res_bind y (\<lambda>items. Inr (item # items))" by (simp_all add: r y)
      with ih ok(2,3) [OF _ _] Inr Cons.prems(2) show ?thesis by (cases y) auto
    qed
  qed simp
  then show "store_ok E S'" "lock_holds E S l' \<Longrightarrow> lock_holds E S' l'" "x = Inr items \<Longrightarrow> l \<in> set locks \<Longrightarrow> lock_holds E S' l"
    by auto
qed

section \<open>A lock that is built is satisfied\<close>

definition stored :: "module_store \<Rightarrow> json \<Rightarrow> bool" where
  "stored S item \<longleftrightarrow> (\<exists>n v d. find_module n v S = Some d \<and> item = store_row S n v d)"

definition keyed :: "module_store \<Rightarrow> (string \<times> json) list \<Rightarrow> bool" where
  "keyed S selected \<longleftrightarrow> distinct (map fst selected)
     \<and> (\<forall>(k, item) \<in> set selected. stored S item \<and> (\<exists>n. item_text ''name'' item = Inr n \<and> casefold n = k))"

lemma list_all_stored:
  assumes "store_ok E S"
  shows "\<exists>items. list_installed [] S = Inr items \<and> (\<forall>i \<in> set items. stored S i)"
proof -
  from list_installed_ok [OF assms, of "[]"] obtain items where items: "list_installed [] S = Inr items"
      "set items = {store_row S n v d |n v d. find_module n v S = Some d}" by auto
  then have "\<forall>i \<in> set items. stored S i" unfolding stored_def by (simp only: items(2)) (simp, blast)
  with items(1) show ?thesis by simp
qed

lemma stored_row:
  assumes "store_ok E S" "hex_digests E" "stored S item"
  shows "\<exists>n v d b. find_module n v S = Some d \<and> item = store_row S n v d \<and> module_name_ok n \<and> module_version_ok v
    \<and> jget ''name'' item = Some (JStr n) \<and> jget ''version'' item = Some (JStr v) \<and> jget ''sha256'' item = Some (JStr (mo_H E b))
    \<and> item_text ''name'' item = Inr n \<and> item_text ''version'' item = Inr v \<and> item_text ''sha256'' item = Inr (mo_H E b)
    \<and> row_ok item"
proof -
  from assms(3) obtain n v d where i: "find_module n v S = Some d" "item = store_row S n v d"
    unfolding stored_def by (elim exE conjE) (rule that)
  note ok = store_ok_parts(2) [OF assms(1) i(1)]
  note row = dir_ok_row [OF ok, of S, folded i(2)]
  from row(4) obtain b where b: "jget ''sha256'' item = Some (JStr (mo_H E b))" by (elim exE conjE) (rule that)
  have nv: "module_name_ok n" "module_version_ok v" using ok unfolding dir_ok_def by simp_all
  moreover have "row_ok item" unfolding row_ok_def using row(2,3) b nv assms(2) by (simp add: hex_digests_def)
  moreover have "item_text ''name'' item = Inr n" "item_text ''version'' item = Inr v" "item_text ''sha256'' item = Inr (mo_H E b)"
    using row(2,3,6) b by (simp_all add: item_text_def jitem_def)
  ultimately show ?thesis using i row(2,3) b by (intro exI conjI) assumption+
qed

lemma keyed_update:
  assumes "keyed S selected" "stored S item" "item_text ''name'' item = Inr n"
  shows "keyed S (AList.update (casefold n) item selected)"
proof -
  have "set (AList.update k x kvs) \<subseteq> insert (k, x) (set kvs)" for k x and kvs :: "(string \<times> json) list"
    by (induction kvs) auto
  from this [of "casefold n" item selected] assms show ?thesis
    unfolding keyed_def by (auto simp: distinct_update)
qed

lemma select_exact_keyed:
  assumes "select_exact S selections selected = Inr selected'" "keyed S selected"
    and "\<forall>(n, v) \<in> set selections. n \<noteq> []" "store_ok E S"
  shows "keyed S selected'"
  using assms
proof (induction S selections selected rule: select_exact.induct)
  case (2 S n v rest sel)
  from "2.prems"(3) have n: "n \<noteq> []" by simp
  have e: "exact_module n v S = Inr (map_option (store_row S n v) (find_module n v S))"
    by (rule exact_module_ok [OF "2.prems"(4) n])
  show ?case
  proof (cases "find_module n v S")
    case None
    with "2.prems"(1) show ?thesis by (simp add: e)
  next
    case (Some d)
    note ok = dir_ok_row [OF store_ok_parts(2) [OF "2.prems"(4) Some], of S]
    have "keyed S (AList.update (casefold n) (store_row S n v d) sel)"
      using ok(2,6) Some by (intro keyed_update [OF "2.prems"(2)]) (auto simp: stored_def item_text_def jitem_def)
    with "2.prems" Some show ?thesis by (intro "2.IH" [of "Some (store_row S n v d)"]) (simp_all add: e)
  qed
qed simp

lemma select_first_keyed:
  assumes "select_first items selected = Inr selected'" "keyed S selected" "\<forall>i \<in> set items. stored S i"
  shows "keyed S selected'"
  using assms
  by (induction items selected rule: select_first.induct) (auto simp: keyed_update split: if_splits)

lemma select_newest_keyed:
  assumes "select_newest items selected = Inr selected'" "keyed S selected" "\<forall>i \<in> set items. stored S i"
  shows "keyed S selected'"
  using assms
proof (induction items selected rule: select_newest.induct)
  case (2 i items selected)
  from "2.prems"(1) obtain n where n: "item_text ''name'' i = Inr n" by auto
  have u: "keyed S (AList.update (casefold n) i selected)" using "2.prems"(2,3) n by (simp add: keyed_update)
  show ?case
  proof (cases "map_of selected (casefold n)")
    case None
    with "2.prems" n u show ?thesis by (intro "2.IH"(1) [OF n None]) simp_all
  next
    case (Some current)
    with "2.prems"(1) n obtain b where b: "newer i current = Inr b" by auto
    with "2.prems" n u Some show ?thesis by (intro "2.IH"(2) [OF n Some b]) simp_all
  qed
qed simp

definition built_payload :: "json list \<Rightarrow> json" where
  "built_payload rows = JObj [(''schema'', JInt 1), (''powershell_modules'', JArr rows), (''native_commands'', JArr [])]"

lemma built_selection:
  assumes "store_ok E S" "hex_digests E" "build_lock names selections b S = Inr payload" "\<forall>(n, v) \<in> set selections. n \<noteq> []"
  shows "\<exists>selected items rows. keyed S selected \<and> by_item_name (map snd selected) = Inr items
    \<and> res_map (build_row b) items = Inr rows
    \<and> payload = built_payload rows"
proof -
  obtain all where all: "list_installed [] S = Inr all" "\<forall>i \<in> set all. stored S i"
    using list_all_stored [OF assms(1)] by (elim exE conjE) (rule that)
  from all(2) have st: "\<forall>i \<in> set (filter is_healthy all). stored S i" by simp
  let ?pick = "\<lambda>sel. if names \<noteq> [] then select_names (filter is_healthy all) names sel
    else if selections = [] then select_newest (filter is_healthy all) sel else Inr sel"
  note step = res_bind_eq_Inr [THEN iffD1, elim_format]
  from assms(3) have "res_bind (select_exact S selections []) (\<lambda>sel. res_bind (?pick sel) (\<lambda>selected.
      res_bind (by_item_name (map snd selected)) (\<lambda>items. res_bind (res_map (build_row b) items) (\<lambda>rows.
      Inr (built_payload rows))))) = Inr payload"
    unfolding build_lock_def Let_def all(1) res_bind_simps built_payload_def .
  then obtain sel1 selected items rows where k: "select_exact S selections [] = Inr sel1" "?pick sel1 = Inr selected"
      "by_item_name (map snd selected) = Inr items" "res_map (build_row b) items = Inr rows" "built_payload rows = payload"
    by (elim step exE conjE) (rule that, assumption+, rule sum.inject(2) [THEN iffD1])
  have k1: "keyed S sel1" using select_exact_keyed [OF k(1) _ assms(4,1)] by (simp add: keyed_def)
  have "keyed S selected"
  proof (cases "names \<noteq> []")
    case True
    with k(2) have "select_first (filter (\<lambda>i. folded_name i \<in> set (map casefold names)) (filter is_healthy all)) sel1 = Inr selected"
      by (simp add: select_names_def Let_def split: if_splits)
    then show ?thesis using st by (intro select_first_keyed [OF _ k1]) auto
  next
    case False
    with k(2) k1 show ?thesis using select_newest_keyed [OF _ k1 st] by (simp split: if_splits)
  qed
  moreover have "payload = built_payload rows" by (rule k(5) [symmetric])
  ultimately show ?thesis using k(3,4) by (intro exI conjI) assumption+
qed

lemma build_row_lock: "build_row b i = Inr r \<Longrightarrow> lock_row b i = Inr r \<and> (b \<longrightarrow> py_true (get_none ''verified'' i))"
  by (auto simp: build_row_def split: if_splits)


lemma ensure_locked_same:
  assumes "\<forall>l \<in> set locks. \<exists>i. exact_module (ml_name l) (ml_version l) S = Inr (Some i) \<and> check_locked l (Some i) = Inr i"
  shows "\<exists>items. ensure_locked E restore locks S = (S, Inr items)"
  using assms
proof (induction locks)
  case (Cons l ls)
  then obtain i items where "exact_module (ml_name l) (ml_version l) S = Inr (Some i)" "check_locked l (Some i) = Inr i"
      "ensure_locked E restore ls S = (S, Inr items)" by auto
  then show ?case by (simp add: restored_module_def)
qed simp

text \<open>The lock row of a stored item reads back to a lock that the item satisfies.\<close>

lemma stored_row_lock:
  assumes "store_ok E S" "hex_digests E" "stored S item" "build_row b item = Inr row" "parse_module_lock row = Inr m"
  shows "ml_name m \<noteq> [] \<and> exact_module (ml_name m) (ml_version m) S = Inr (Some item) \<and> check_locked m (Some item) = Inr item"
proof -
  from stored_row [OF assms(1-3)] obtain n v d bs where i: "find_module n v S = Some d" "item = store_row S n v d" "module_name_ok n"
      "module_version_ok v" "jget ''sha256'' item = Some (JStr (mo_H E bs))"
      "item_text ''name'' item = Inr n" "item_text ''version'' item = Inr v" "item_text ''sha256'' item = Inr (mo_H E bs)"
    by (elim exE conjE) (rule that)
  from build_row_lock [OF assms(4)] have row: "lock_row b item = Inr row" and ver: "b \<longrightarrow> py_true (get_none ''verified'' item)" by simp_all
  from row i(6-8) have "row = JObj [(''name'', JStr n), (''version'', JStr v), (''sha256'', JStr (mo_H E bs)), (''require_verified'', JBool b)]"
    by (simp add: lock_row_def)
  with assms(5) have m: "ml_name m = n" "ml_version m = v" "ml_sha256 m = mo_H E bs" "ml_require_verified m = b"
    by (auto simp: parse_module_lock_def get_or_JObj Let_def lower_digest [OF assms(2)] split: if_splits)
  have n: "n \<noteq> []" using i(3) by (auto simp: module_name_ok_def)
  moreover have "get_or ''sha256'' (JStr []) item = JStr (mo_H E bs)" by (simp add: get_or_def i(5))
  ultimately show ?thesis using ver i(1,2) exact_module_ok [OF assms(1) n]
    by (simp add: m check_locked_def)
qed

lemma parse_module_locks_names: "parse_module_locks seen rows = Inr ms \<Longrightarrow> m \<in> set ms \<Longrightarrow> ml_name m \<noteq> []"
proof (induction seen rows arbitrary: ms rule: parse_module_locks.induct)
  case (2 seen item items)
  then obtain m' ms' where p: "parse_module_lock item = Inr m'" "ms = m' # ms'"
      "parse_module_locks (insert (casefold (ml_name m')) seen) items = Inr ms'"
    by (auto split: if_splits)
  then have "casefold (ml_name m') \<notin> seen" using "2.prems"(1) by (auto split: if_splits)
  moreover have "ml_name m' \<noteq> []"
    using p(1) by (auto simp: parse_module_lock_def Let_def module_name_ok_def split: if_splits)
  ultimately show ?case using p "2.IH" "2.prems"(2) by auto
qed simp

lemma parse_lock_names:
  assumes "parse_lock groups payload = Inr (locks, natives)"
  shows "\<forall>l \<in> set locks. ml_name l \<noteq> []"
proof -
  from assms obtain modules where m: "parse_module_locks {} (list_items (get_or ''powershell_modules'' (JArr []) payload)) = Inr modules"
      "locks = sort_key (\<lambda>m. casefold (ml_name m)) modules"
    unfolding parse_lock_def Let_def by (auto split: if_splits)
  show ?thesis unfolding m(2) set_sort using parse_module_locks_names [OF m(1)] by simp
qed

lemma list_all2_right: "list_all2 P xs ys \<Longrightarrow> y \<in> set ys \<Longrightarrow> \<exists>x \<in> set xs. P x y"
  by (induction rule: list_all2_induct) auto

lemma parse_rows_names:
  "parse_module_locks seen rows = Inr ms \<Longrightarrow> list_all2 (\<lambda>row m. parse_module_lock row = Inr m) rows ms"
  by (induction seen rows arbitrary: ms rule: parse_module_locks.induct) (auto split: if_splits)

section \<open>The properties\<close>

text \<open>C37: When the locks of an accepted lockfile are ensured in a store that installations and deletions built, every lock holds in
  the store afterwards: the folder of exactly its name and version has its manifest and metadata with the locked
  digest (verified when the lock asks for it), and the cache has a package with that digest; whatever other locks held
  before still hold, and the store stays sound, also when the call fails.\<close>

theorem locked_modules_hold:
  assumes "store_run E S" "hex_digests E" "parse_lock groups payload = Inr (locks, natives)"
    and "ensure_locked E restore locks S = (S', x)"
  shows "store_ok E S' \<and> (\<forall>l. lock_holds E S l \<longrightarrow> lock_holds E S' l) \<and> (\<forall>l \<in> set locks. \<forall>items. x = Inr items \<longrightarrow> lock_holds E S' l)"
  using ensure_locked_ok [OF store_run_ok [OF assms(1,2)] assms(2) parse_lock_names [OF assms(3)] assms(4)] by simp

text \<open>C38: A lock that is built from a store, within the bound of the lockfile format, is accepted by the loader, pins
  exactly its rows, and is satisfied by the store as it is: nothing is restored and no lock is refused.\<close>

theorem built_lock_satisfied:
  assumes "store_run E S" "hex_digests E" "build_lock names selections b S = Inr payload" "\<forall>(n, v) \<in> set selections. n \<noteq> []"
    and "length (list_items (get_none ''powershell_modules'' payload)) \<le> max_locked_modules"
  shows "\<exists>modules items. parse_lock groups payload = Inr (modules, [])
    \<and> map module_lock_row modules = list_items (get_none ''powershell_modules'' payload)
    \<and> ensure_locked E restore modules S = (S, Inr items)"
proof -
  have ok: "store_ok E S" by (rule store_run_ok [OF assms(1,2)])
  from built_selection [OF ok assms(2-4)] obtain selected items rows where k: "keyed S selected"
      "by_item_name (map snd selected) = Inr items" "res_map (build_row b) items = Inr rows" "payload = built_payload rows"
    by (elim exE conjE) (rule that)
  have rows: "list_items (get_none ''powershell_modules'' payload) = rows" by (simp add: k(4) built_payload_def get_or_JObj)
  have row_ok: "row_ok item \<and> (\<exists>n. item_text ''name'' item = Inr n \<and> casefold n = key)" if "(key, item) \<in> set selected" for key item
    using k(1) that stored_row [OF ok assms(2)] unfolding keyed_def by fast
  have "list_all2 (\<lambda>item row. lock_row b item = Inr row) items rows"
    using k(3) unfolding res_map_Inr_iff by (rule list_all2_mono) (simp add: build_row_lock)
  then obtain modules where m: "parse_lock groups payload = Inr (modules, [])" "map module_lock_row modules = rows"
    using lock_rows_parse [OF k(2) _ row_ok, of b rows payload groups] k(1) assms(5) rows
    by (auto simp: keyed_def k(4) built_payload_def get_or_JObj)
  have "\<exists>i. exact_module (ml_name l) (ml_version l) S = Inr (Some i) \<and> check_locked l (Some i) = Inr i" if "l \<in> set modules" for l
  proof -
    from m(1) obtain ms where ms: "parse_module_locks {} rows = Inr ms" "modules = sort_key (\<lambda>m. casefold (ml_name m)) ms"
      unfolding parse_lock_def Let_def by (auto simp: k(4) built_payload_def get_or_JObj split: if_splits)
    from that have "l \<in> set ms" by (simp add: ms(2))
    from list_all2_right [OF parse_rows_names [OF ms(1)] this] obtain row where r: "row \<in> set rows" "parse_module_lock row = Inr l"
      by (elim bexE) (rule that)
    from res_map_in [OF k(3) r(1)] obtain item where i: "item \<in> set items" "build_row b item = Inr row" by blast
    have "mset items = mset (map snd selected)" using k(2) unfolding by_item_name_def by (rule mset_res_sort)
    then have "set items = snd ` set selected" by (metis set_map set_mset_mset)
    with i(1) k(1) have "stored S item" unfolding keyed_def by auto
    from stored_row_lock [OF ok assms(2) this i(2) r(2)] show ?thesis by blast
  qed
  then obtain found where "ensure_locked E restore modules S = (S, Inr found)"
    using ensure_locked_same [of modules S E restore] by blast
  with m show ?thesis unfolding rows by (intro exI conjI)
qed

section \<open>Concrete runs\<close>

definition demo_env :: module_env where
  "demo_env = \<lparr>mo_H = (\<lambda>b. replicate 63 (CHR ''0'') @ nat_str (length b mod 10)),
     mo_entries = (\<lambda>b. Inr [\<lparr>ar_name = ''m.nuspec'', ar_encrypted = False, ar_symlink = False, ar_size = 1, ar_bytes = b\<rparr>,
       \<lparr>ar_name = ''tools/M.psd1'', ar_encrypted = False, ar_symlink = False, ar_size = 1, ar_bytes = ''x''\<rparr>]),
     mo_xml = (\<lambda>b. Inr (Elem ''package'' [] [] [Elem ''metadata'' [] []
       [Elem ''id'' [] ''M'' [], Elem ''version'' [] (if length b = 1 then ''1.0'' else ''2.0'') []]])),
     mo_now = ''t''\<rparr>"

definition demo_install :: "string \<Rightarrow> module_store \<Rightarrow> module_store" where
  "demo_install b S = fst (install_nupkg demo_env \<lparr>ir_path = [''p''], ir_bytes = Some b, ir_name = ''M'', ir_version = '''',
     ir_sha256 = mo_H demo_env b, ir_trust_local = False, ir_force = False\<rparr> S)"

definition demo_store :: module_store where
  "demo_store = demo_install ''ab'' (demo_install ''a'' \<lparr>ms_home = [''h''], ms_modules = [], ms_packages = []\<rparr>)"

lemma demo_store_run: "store_run demo_env demo_store"
  unfolding demo_store_def demo_install_def by (intro store_install store_start) simp_all

lemma demo_hex: "hex_digests demo_env"
proof -
  have "\<forall>n \<in> set [0..<10]. nat_str n \<noteq> [] \<and> length (nat_str n) = 1 \<and> list_all (\<lambda>c. c \<in> set ''0123456789abcdef'') (nat_str n)" by code_simp
  then have "length (nat_str (length b mod 10)) = 1 \<and> list_all (\<lambda>c. c \<in> set ''0123456789abcdef'') (nat_str (length b mod 10))" for b :: string
    by simp
  then show ?thesis by (simp add: hex_digests_def hex_digest_text_def demo_env_def list_all_iff)
qed

definition demo_payload :: json where
  "demo_payload = (case build_lock [] [] True demo_store of Inr p \<Rightarrow> p | Inl e \<Rightarrow> JNull)"

lemma demo_payload_built: "build_lock [] [] True demo_store = Inr demo_payload"
  "map (get_none ''version'') (list_items (get_none ''powershell_modules'' demo_payload)) = [JStr ''2.0'']"
  by code_simp+

theorem built_lock_satisfied_witness:
  "\<exists>modules items. parse_lock (\<lambda>p. Inl p) demo_payload = Inr (modules, []) \<and> length modules = 1
    \<and> ensure_locked demo_env True modules demo_store = (demo_store, Inr items)"
proof -
  have n: "length (list_items (get_none ''powershell_modules'' demo_payload)) = 1"
    using demo_payload_built(2) by (metis length_map list.size(3,4) One_nat_def add.right_neutral add_Suc_right)
  then have "length (list_items (get_none ''powershell_modules'' demo_payload)) \<le> max_locked_modules" by (simp add: max_locked_modules_def)
  from built_lock_satisfied [OF demo_store_run demo_hex demo_payload_built(1) _ this, of "\<lambda>p. Inl p" True] n
  show ?thesis by (metis length_map empty_iff list.set(1))
qed

text \<open>The newest version is deleted by hand, and the lock restores it from the cache.\<close>

definition lost_store :: module_store where
  "lost_store = drop_module ''M'' ''2.0'' demo_store"

theorem locked_modules_hold_witness:
  "\<exists>locks natives S' items. parse_lock (\<lambda>p. Inl p) demo_payload = Inr (locks, natives) \<and> locks \<noteq> []
    \<and> ensure_locked demo_env True locks lost_store = (S', Inr items) \<and> S' \<noteq> lost_store \<and> (\<forall>l \<in> set locks. lock_holds demo_env S' l)"
proof -
  have run: "store_run demo_env lost_store" unfolding lost_store_def by (intro store_drop demo_store_run)
  have "(case parse_lock (\<lambda>p. Inl p) demo_payload of Inl e \<Rightarrow> False | Inr (locks, natives) \<Rightarrow> locks \<noteq> [] \<and>
      (case ensure_locked demo_env True locks lost_store of (S', x) \<Rightarrow> S' \<noteq> lost_store \<and> \<not> isl x))"
    by code_simp
  then obtain locks natives S' x where p: "parse_lock (\<lambda>p. Inl p) demo_payload = Inr (locks, natives)" "locks \<noteq> []"
      "ensure_locked demo_env True locks lost_store = (S', x)" "S' \<noteq> lost_store" "\<not> isl x"
    by (auto split: sum.splits prod.splits)
  from p(5) obtain items where x: "x = Inr items" by (cases x) simp_all
  from locked_modules_hold [OF run demo_hex p(1,3)] p x show ?thesis by blast
qed

text \<open>Without names the newest version of a module is locked; naming the module locks the version listed first.\<close>

lemma named_lock_takes_first:
  "(case build_lock [''M''] [] True demo_store of Inl e \<Rightarrow> False
    | Inr p \<Rightarrow> map (get_none ''version'') (list_items (get_none ''powershell_modules'' p)) = [JStr ''1.0''])
   \<and> map (get_none ''version'') (list_items (get_none ''powershell_modules'' demo_payload)) = [JStr ''2.0'']"
  by code_simp

end
