(* ===== verification/Psm_CompatProps.thy ===== *)
theory Psm_CompatProps
  imports Psm_Compat Psm_ModulesProps
begin

text \<open>
  A compatibility run over the mirror, the module store and the child processes: what a verdict PASS guarantees.
\<close>

section \<open>Installing a package\<close>

abbreviation exact_lock :: "string \<Rightarrow> string \<Rightarrow> string \<Rightarrow> module_lock" where
  "exact_lock name version digest \<equiv> \<lparr>ml_name = name, ml_version = version, ml_sha256 = digest, ml_require_verified = False\<rparr>"

lemma holds_found:
  assumes "store_ok E S" "hex_digests E" "find_module n v S = Some d" "md_metadata d = Some (Inr j)"
    and "jget ''sha256'' j = Some (JStr digest)"
  shows "lock_holds E S (exact_lock n v digest)"
proof -
  from store_ok_parts(2) [OF assms(1,3)] obtain b where b: "metadata_ok j n v (mo_H E b)"
      "map_of (ms_packages S) (cached_package n v (mo_H E b)) = Some b" "map_of (md_files d) [n @ ''.psd1''] \<noteq> None"
    unfolding dir_ok_def assms(4) by (elim conjE exE) simp
  with assms(5) have "mo_H E b = digest" by (simp add: metadata_ok_def)
  with assms b lower_digest [OF assms(2), of b] show ?thesis
    unfolding lock_holds_def by (intro exI [of _ d] exI [of _ j] exI [of _ b]) simp
qed

lemma fresh_install_found:
  assumes "fresh_install E r bytes digest name version verified S = (S', Inr i)"
  shows "\<exists>d j. find_module name version S' = Some d \<and> md_metadata d = Some (Inr j) \<and> jget ''sha256'' j = Some (JStr digest)"
    "in_name i = name" "in_version i = version"
proof -
  let ?v = "module_metadata E r name version digest verified (cache_text S (cached_package name version digest))"
  from assms obtain files where S': "S' = put_module name version \<lparr>md_metadata = Some (Inr ?v), md_files = files\<rparr>
        (keep_package (cached_package name version digest) bytes S)"
      "i = the_installation S name version digest verified"
    unfolding fresh_install_def Let_def by (cases "res_bind (safe_extract E bytes) (module_content name)") auto
  have "jget ''sha256'' ?v = Some (JStr digest)" by (simp add: module_metadata_def)
  with S' show "\<exists>d j. find_module name version S' = Some d \<and> md_metadata d = Some (Inr j) \<and> jget ''sha256'' j = Some (JStr digest)"
    by (simp add: find_put_module)
  from S' show "in_name i = name" "in_version i = version" by (simp_all add: the_installation_def)
qed

lemma reinstall_found:
  assumes "reinstall bytes digest name version d metadata S = (S', Inr i)" "find_module name version S = Some d"
    "md_metadata d = Some metadata"
  shows "\<exists>d j. find_module name version S' = Some d \<and> md_metadata d = Some (Inr j) \<and> jget ''sha256'' j = Some (JStr digest)"
    "in_name i = name" "in_version i = version"
proof -
  from assms(1) obtain v where v: "metadata = Inr v" "is_dict v" "get_none ''sha256'' v = JStr digest"
    by (cases metadata) (auto simp: reinstall_def split: if_splits)
  have s: "jget ''sha256'' v = Some (JStr digest)" using v(3) by (auto simp: get_or_def split: option.splits)
  note r = assms(1) [unfolded v(1) reinstall_def Let_def sum.case]
  from r v have "i = the_installation S name version digest (py_true (get_none ''verified'' v))" by simp
  then show "in_name i = name" "in_version i = version" by (simp_all add: the_installation_def)
  from r v s assms(2,3)
  show "\<exists>d j. find_module name version S' = Some d \<and> md_metadata d = Some (Inr j) \<and> jget ''sha256'' j = Some (JStr digest)"
    by (auto simp: find_put_module v(1) split: if_splits)
qed

lemma install_success:
  assumes "install_nupkg E r S = (S', Inr i)" "store_ok E S" "hex_digests E" "\<not> ir_force r" "\<not> ir_trust_local r"
    and "ir_name r \<noteq> []" "ir_version r \<noteq> []"
  shows "py_lower (in_name i) = py_lower (ir_name r)"
    "lock_holds E S' (exact_lock (in_name i) (ir_version r) (py_lower (strip_space (ir_sha256 r))))"
proof -
  from assms(1) obtain bytes digest name version verified where c: "check_install E r = Inr (bytes, digest, name, version, verified)"
    unfolding install_nupkg_def by (cases "check_install E r") auto
  note ok = check_install_ok [OF c assms(3)]
  have sha: "ir_sha256 r \<noteq> []" and n: "py_lower name = py_lower (ir_name r)"
    using c assms(5,6) by (auto simp: check_install_def Let_def split: option.splits if_splits)
  have d: "py_lower (strip_space (ir_sha256 r)) = digest" using ok(4,5) sha by simp
  have v: "version = ir_version r" using ok(6) assms(7) by simp
  have S': "store_ok E S'" using install_ok [OF assms(2,3), of r] assms(1) by simp
  have f: "(\<exists>d j. find_module name version S' = Some d \<and> md_metadata d = Some (Inr j) \<and> jget ''sha256'' j = Some (JStr digest))
      \<and> in_name i = name"
  proof (cases "\<exists>d0 md. find_module name version S = Some d0 \<and> md_metadata d0 = Some md")
    case True
    then obtain d0 md where d0: "find_module name version S = Some d0" "md_metadata d0 = Some md" by blast
    with assms(1,4) have "reinstall bytes digest name version d0 md S = (S', Inr i)" by (simp add: install_nupkg_def c)
    from reinstall_found [OF this d0] show ?thesis by blast
  next
    case False
    with assms(1) have "fresh_install E r bytes digest name version verified S = (S', Inr i)"
      by (auto simp: install_nupkg_def c split: option.splits)
    from fresh_install_found [OF this] show ?thesis by blast
  qed
  with n show "py_lower (in_name i) = py_lower (ir_name r)" by simp
  from f show "lock_holds E S' (exact_lock (in_name i) (ir_version r) (py_lower (strip_space (ir_sha256 r))))"
    unfolding d v [symmetric] using holds_found [OF S' assms(3)] by blast
qed

section \<open>Installing what a target requests\<close>

text \<open>The package the mirror lists under a name and version is installed: under a name that differs at most in case,
  with the digest of the index.\<close>

definition package_installed :: "module_env \<Rightarrow> mirror \<Rightarrow> module_store \<Rightarrow> string \<times> string \<Rightarrow> bool" where
  "package_installed E m S p \<longleftrightarrow> (\<exists>item name. exact_package (mo_H E) (fst p) (snd p) m = Inr (Some item)
     \<and> py_lower name = py_lower (fst p)
     \<and> lock_holds E S (exact_lock name (snd p) (py_lower (strip_space (py_str (get_none ''sha256'' item))))))"

lemma install_into_found:
  assumes "install_into E name version m S = (S', Inr row)" "exact_package (mo_H E) name version m = Inr (Some item)"
    and "store_ok E S" "hex_digests E" "name \<noteq> []" "version \<noteq> []"
  shows "package_installed E m S' (name, version)"
proof -
  from assms(1,2) obtain r i where r: "mirror_request m name version item = Inr r" "install_nupkg E r S = (S', Inr i)"
    unfolding install_into_def by (cases "mirror_request m name version item") (auto split: prod.splits)
  then have f: "ir_name r = name" "ir_version r = version" "\<not> ir_force r" "\<not> ir_trust_local r"
      "item_text ''sha256'' item = Inr (ir_sha256 r)"
    by (auto simp: mirror_request_def)
  then have "py_str (get_none ''sha256'' item) = ir_sha256 r"
    by (auto simp: item_text_def jitem_def get_or_def split: if_splits option.splits)
  with install_success [OF r(2) assms(3,4) f(3,4)] f(1,2) assms(2,5,6) show ?thesis
    unfolding package_installed_def by (intro exI [of _ item] exI [of _ "in_name i"]) simp
qed

lemma install_into_holds:
  assumes "store_ok E S" "lock_holds E S l"
  shows "lock_holds E (fst (install_into E name version m S)) l"
proof (cases "res_bind (exact_package (mo_H E) name version m) (\<lambda>item. case item of
    None \<Rightarrow> compat_error (''Mirror package unavailable: '' @ name @ '' '' @ version) | Some i \<Rightarrow> mirror_request m name version i)")
  case (Inl e)
  then show ?thesis using assms(2) unfolding install_into_def Inl by simp
next
  case (Inr r)
  then have "\<not> ir_force r" by (auto simp: mirror_request_def split: option.splits)
  then show ?thesis unfolding install_into_def Inr using install_holds [OF assms, of r] by (simp add: split_def)
qed

definition grows :: "module_env \<Rightarrow> module_store \<Rightarrow> module_store \<Rightarrow> bool" where
  "grows E S S' \<longleftrightarrow> store_ok E S' \<and> (\<forall>l. lock_holds E S l \<longrightarrow> lock_holds E S' l)"

lemma grows_trans: "grows E S S1 \<Longrightarrow> grows E S1 S2 \<Longrightarrow> grows E S S2"
  by (simp add: grows_def)

lemma grows_refl: "store_ok E S \<Longrightarrow> grows E S S"
  by (simp add: grows_def)

lemma grows_installed: "grows E S S' \<Longrightarrow> package_installed E m S p \<Longrightarrow> package_installed E m S' p"
  unfolding grows_def package_installed_def by blast

lemma install_into_grows: "store_ok E S \<Longrightarrow> hex_digests E \<Longrightarrow> install_into E name version m S = (S', x) \<Longrightarrow> grows E S S'"
  using install_into_ok [of E S name version m] install_into_holds [of E S _ name version m] by (simp add: grows_def)

text \<open>The lock row a request gets from the mirror\<close>

definition mirror_lock :: "module_env \<Rightarrow> mirror \<Rightarrow> string \<times> string \<Rightarrow> json res" where
  "mirror_lock E m = (\<lambda>(name, version). res_bind (exact_package (mo_H E) name version m) (\<lambda>item. case item of
     None \<Rightarrow> compat_error (missing_module name version)
   | Some i \<Rightarrow> res_bind (jitem ''sha256'' i) (\<lambda>digest. Inr (target_lock_row name version digest))))"

lemma install_requested_locks:
  "install_requested E m ps S = (S', Inr ([], locks)) \<Longrightarrow> res_map (mirror_lock E m) ps = Inr locks"
proof (induction ps arbitrary: S locks)
  case Nil
  then show ?case by simp
next
  case (Cons p ps)
  obtain name version where p: "p = (name, version)" by (cases p)
  note run = Cons.prems [unfolded p install_requested.simps]
  from run obtain item where item: "exact_package (mo_H E) name version m = Inr (Some item)"
    by (auto split: sum.splits option.splits prod.splits)
  obtain S1 row where S1: "install_into E name version m S = (S1, Inr row)"
    using run by (auto simp: item split: sum.splits prod.splits)
  obtain digest where digest: "jitem ''sha256'' item = Inr digest" using run by (auto simp: item S1 split: sum.splits)
  obtain r where r: "install_requested E m ps S1 = (S', r)" "res_bind r (\<lambda>(missing, locks).
      Inr (missing, target_lock_row name version digest # locks)) = Inr ([], locks)"
    using run by (auto simp: item S1 digest split: prod.splits)
  then obtain rest where rest: "r = Inr ([], rest)" "locks = target_lock_row name version digest # rest" by (cases r) auto
  from Cons.IH [OF r(1) [unfolded rest(1)]] show ?case
    by (simp add: p rest(2) mirror_lock_def item digest)
qed

lemma install_requested_ok:
  assumes "install_requested E m ps S = (S', x)" "store_ok E S" "hex_digests E"
  shows "grows E S S' \<and> (\<forall>locks. x = Inr ([], locks) \<longrightarrow> (\<forall>p \<in> set ps. fst p \<noteq> [] \<and> snd p \<noteq> []) \<longrightarrow>
    (\<forall>p \<in> set ps. package_installed E m S' p))"
  using assms(1,2)
proof (induction ps arbitrary: S S' x)
  case Nil
  then show ?case by (simp add: grows_refl)
next
  case (Cons p ps)
  obtain name version where p: "p = (name, version)" by (cases p)
  note run = Cons.prems(1) [unfolded p install_requested.simps]
  show ?case
  proof (cases "exact_package (mo_H E) name version m")
    case (Inl e)
    with run Cons.prems(2) show ?thesis by (auto simp: grows_refl)
  next
    case (Inr found)
    show ?thesis
    proof (cases found)
      case None
      obtain S2 r where r: "install_requested E m ps S = (S2, r)" by (cases "install_requested E m ps S")
      with run Inr None have "S' = S2" "x = res_bind r (\<lambda>(missing, locks). Inr (missing_module name version # missing, locks))"
        by simp_all
      with Cons.IH [OF r Cons.prems(2)] show ?thesis by (cases r) auto
    next
      case (Some item)
      obtain S1 y where y: "install_into E name version m S = (S1, y)" by (cases "install_into E name version m S")
      note g = install_into_grows [OF Cons.prems(2) assms(3) y]
      then have S1: "store_ok E S1" by (simp add: grows_def)
      show ?thesis
      proof (cases y)
        case (Inl e)
        with run Inr Some y g show ?thesis by auto
      next
        case (Inr row)
        obtain S2 r where r: "install_requested E m ps S1 = (S2, r)" by (cases "install_requested E m ps S1")
        from Cons.IH [OF r S1] have g2: "grows E S1 S2" and i2: "\<forall>locks. r = Inr ([], locks) \<longrightarrow>
            (\<forall>p \<in> set ps. fst p \<noteq> [] \<and> snd p \<noteq> []) \<longrightarrow> (\<forall>p \<in> set ps. package_installed E m S2 p)" by simp_all
        show ?thesis
        proof (cases "jitem ''sha256'' item")
          case (Inl e)
          with run \<open>exact_package _ _ _ _ = _\<close> Some y Inr g show ?thesis by auto
        next
          case sha: (Inr digest)
          with run \<open>exact_package _ _ _ _ = _\<close> Some y Inr r have x: "S' = S2" "x = res_bind r (\<lambda>(missing, locks).
              Inr (missing, target_lock_row name version digest # locks))" by simp_all
          have "package_installed E m S2 p" if "name \<noteq> []" "version \<noteq> []"
            unfolding p using install_into_found [OF y [unfolded Inr] _ Cons.prems(2) assms(3) that] g2 Some
              \<open>exact_package _ _ _ _ = _\<close> by (blast intro: grows_installed)
          with x i2 grows_trans [OF g g2] show ?thesis by (cases r) (auto simp: p)
        qed
      qed
    qed
  qed
qed

section \<open>The run\<close>

text \<open>The child process of a target was started with the lock file of its requests, one row for each with the digest of
  the mirror's index, on a store that has all of them installed, and ended with a report whose status is PASS; what it
  left behind is still there.\<close>

definition child_passed :: "compat_env \<Rightarrow> mirror \<Rightarrow> string list list \<Rightarrow> module_store \<Rightarrow> compat_target \<Rightarrow> bool" where
  "child_passed E m sources S t \<longleftrightarrow> (\<exists>locks S0 S1 code err v. res_map (mirror_lock (ce_modules E) m) (requested t) = Inr locks
     \<and> (\<forall>p \<in> set (requested t). package_installed (ce_modules E) m S0 p)
     \<and> ce_child E (compat_command E sources t) (target_lock locks) S0 = (S1, ChildDone code err (Some (Inr v)))
     \<and> is_dict v \<and> py_str (get_none ''status'' v) = ''PASS'' \<and> grows (ce_modules E) S1 S)"

text \<open>The child process keeps the store sound and keeps what is installed: it may restore a locked module from the
  package cache and deletes none.\<close>

definition child_grows :: "compat_env \<Rightarrow> bool" where
  "child_grows E \<longleftrightarrow> (\<forall>command lock S. store_ok (ce_modules E) S \<longrightarrow> grows (ce_modules E) S (fst (ce_child E command lock S)))"

definition target_sound :: "compat_env \<Rightarrow> mirror \<Rightarrow> string list list \<Rightarrow> module_store \<Rightarrow> compat_target \<Rightarrow> bool" where
  "target_sound E m sources S t \<longleftrightarrow> ce_ready E (ct_runtime t) \<and> child_passed E m sources S t
     \<and> (\<forall>p \<in> set (requested t). package_installed (ce_modules E) m S p)"

definition named_requests :: "compat_target \<Rightarrow> bool" where
  "named_requests t \<longleftrightarrow> (\<forall>p \<in> set (requested t). fst p \<noteq> [] \<and> snd p \<noteq> [])"

lemma report_status_PASS: "report_status r = ''PASS'' \<Longrightarrow> \<exists>v. r = Some v \<and> is_dict v \<and> py_str (get_none ''status'' v) = ''PASS''"
  by (auto simp: report_status_def split: option.splits if_splits)

lemma child_row_target: "child_row E t locks outcome = Inr r \<Longrightarrow> rt_target r = t"
  by (auto simp: child_row_def Let_def split: child_outcome.splits)

lemma child_row_PASS:
  assumes "child_row E t locks outcome = Inr r" "rt_status r = ''PASS''"
  shows "\<exists>code err v. outcome = ChildDone code err (Some (Inr v)) \<and> is_dict v \<and> py_str (get_none ''status'' v) = ''PASS''"
proof (cases outcome)
  case (ChildTimeout m)
  with assms show ?thesis by (auto simp: child_row_def)
next
  case (ChildDone code err report)
  show ?thesis
  proof (cases report)
    case None
    with assms ChildDone show ?thesis by (auto simp: child_row_def Let_def report_status_def)
  next
    case (Some x)
    with assms ChildDone obtain v where "x = Inr v" "rt_status r = report_status (Some v)"
      by (auto simp: child_row_def Let_def)
    with ChildDone Some assms(2) show ?thesis by (auto dest!: report_status_PASS)
  qed
qed

lemma run_compat_target_ok:
  assumes "run_compat_target E m sources t S = (S', x)" "store_ok (ce_modules E) S" "hex_digests (ce_modules E)" "child_grows E"
  shows "grows (ce_modules E) S S' \<and> (\<forall>r. x = Inr r \<longrightarrow> rt_target r = t
    \<and> (rt_status r = ''PASS'' \<longrightarrow> named_requests t \<longrightarrow> target_sound E m sources S' t))"
proof -
  let ?M = "ce_modules E"
  obtain S1 y where y: "install_requested ?M m (requested t) S = (S1, y)" by (cases "install_requested ?M m (requested t) S")
  note ok = install_requested_ok [OF y assms(2,3)]
  note run = assms(1) [unfolded run_compat_target_def y prod.case]
  show ?thesis
  proof (cases y)
    case (Inl e)
    with run ok show ?thesis by auto
  next
    case (Inr found)
    obtain missing locks where f: "found = (missing, locks)" by (cases found)
    show ?thesis
    proof (cases "missing @ missing_runtime (ce_ready E) t = []")
      case True
      obtain outcome where c: "ce_child E (compat_command E sources t) (target_lock locks) S1 = (S', outcome)"
          "x = child_row E t locks outcome"
        using run Inr f True by (auto simp: child_result_def split: prod.splits)
      have "missing = []" and ready: "ce_ready E (ct_runtime t)" using True by (simp_all add: missing_runtime_def split: if_splits)
      with y Inr f have r: "install_requested ?M m (requested t) S = (S1, Inr ([], locks))" by simp
      have "store_ok ?M S1" using ok by (simp add: grows_def)
      with assms(4) c(1) have g: "grows ?M S1 S'" unfolding child_grows_def by (metis fst_conv)
      have "target_sound E m sources S' t" if named: "named_requests t" and row: "x = Inr row" "rt_status row = ''PASS''" for row
      proof -
        have i: "\<forall>p \<in> set (requested t). package_installed ?M m S1 p"
          using ok named Inr f \<open>missing = []\<close> by (simp add: named_requests_def)
        have keep: "grows ?M S' S'" using g grows_refl by (simp add: grows_def)
        obtain code err v where v: "outcome = ChildDone code err (Some (Inr v))" "is_dict v" "py_str (get_none ''status'' v) = ''PASS''"
          using child_row_PASS c(2) row by metis
        have "child_passed E m sources S' t"
          unfolding child_passed_def using c(1) [unfolded v(1)] i install_requested_locks [OF r] v(2,3) keep by blast
        with ready i grows_installed [OF g] show ?thesis by (simp add: target_sound_def)
      qed
      with ok g c(2) show ?thesis by (auto intro: grows_trans dest: child_row_target)
    next
      case False
      with run Inr f have "S' = S1" "x = Inr \<lparr>rt_target = t, rt_status = ''INCOMPLETE'', rt_row = JObj (result_head t ''INCOMPLETE''
          @ [(''missing'', JArr (map JStr (missing @ missing_runtime (ce_ready E) t))), (''report'', JNull)])\<rparr>"
        by (simp_all add: Let_def)
      with ok show ?thesis by simp
    qed
  qed
qed

lemma target_sound_grows: "grows (ce_modules E) S S' \<Longrightarrow> target_sound E m sources S t \<Longrightarrow> target_sound E m sources S' t"
  using grows_installed unfolding target_sound_def child_passed_def by (blast intro: grows_trans)

lemma run_compat_targets_ok:
  assumes "run_compat_targets E m sources ts S = (S', x)" "store_ok (ce_modules E) S" "hex_digests (ce_modules E)" "child_grows E"
  shows "grows (ce_modules E) S S' \<and> (\<forall>rs. x = Inr rs \<longrightarrow> map rt_target rs = ts
    \<and> (\<forall>r \<in> set rs. rt_status r = ''PASS'' \<longrightarrow> named_requests (rt_target r) \<longrightarrow> target_sound E m sources S' (rt_target r)))"
  using assms(1,2)
proof (induction ts arbitrary: S S' x)
  case Nil
  then show ?case by (auto simp: grows_refl)
next
  case (Cons t ts)
  obtain S1 y where y: "run_compat_target E m sources t S = (S1, y)" by (cases "run_compat_target E m sources t S")
  note ok = run_compat_target_ok [OF y Cons.prems(2) assms(3,4)]
  then have S1: "store_ok (ce_modules E) S1" by (simp add: grows_def)
  obtain S2 z where z: "run_compat_targets E m sources ts S1 = (S2, z)" by (cases "run_compat_targets E m sources ts S1")
  note run = Cons.prems(1) [unfolded run_compat_targets.simps y prod.case z]
  note ih = Cons.IH [OF z S1]
  show ?case
  proof (cases y)
    case (Inl e)
    with run ok show ?thesis by auto
  next
    case (Inr r)
    with run have x: "S' = S2" "x = res_bind z (\<lambda>rs. Inr (r # rs))" by simp_all
    from ok Inr have r: "rt_target r = t" "rt_status r = ''PASS'' \<Longrightarrow> named_requests t \<Longrightarrow> target_sound E m sources S1 t"
      by simp_all
    from ih ok have g: "grows (ce_modules E) S1 S2" "grows (ce_modules E) S S2" by (auto intro: grows_trans)
    then show ?thesis using x ih r target_sound_grows [OF g(1)] by (cases z) auto
  qed
qed

section \<open>The specification\<close>

lemma version_ok_nonempty: "module_version_ok v \<Longrightarrow> v \<noteq> []"
  by (auto simp: module_version_ok_def dotted_numbers_def Let_def)

lemma name_ok_nonempty: "module_name_ok v \<Longrightarrow> v \<noteq> []"
  by (auto simp: module_name_ok_def)

lemma compat_modules_named: "compat_modules seen items = Inr ms \<Longrightarrow> \<forall>(n, v) \<in> set ms. n \<noteq> [] \<and> v \<noteq> []"
proof (induction items arbitrary: seen ms)
  case (Cons item items)
  then obtain ms' where "module_name_ok (text_field ''name'' item)" "module_version_ok (text_field ''version'' item)"
      "compat_modules (insert (casefold (text_field ''name'' item)) seen) items = Inr ms'"
      "ms = (text_field ''name'' item, text_field ''version'' item) # ms'"
    by (auto simp: Let_def split: if_splits)
  with Cons.IH name_ok_nonempty version_ok_nonempty show ?case by simp
qed simp

lemma tool_version_named: "tool_version tool v = Inr (Some s) \<Longrightarrow> s \<noteq> []"
  by (auto simp: tool_version_def dest: version_ok_nonempty split: json.splits if_splits)

lemma compat_target_named:
  assumes "compat_target_of seen raw = Inr t"
  shows "named_requests t"
proof -
  note t = assms [unfolded compat_target_of_def Let_def if_compat_error_eq_Inr res_bind_eq_Inr sum.inject]
  then obtain ms p a where k: "compat_modules {} (list_items (py_or (get_none ''modules'' raw) (JArr []))) = Inr ms"
      "tool_version ''Pester'' (get_none ''pester'' raw) = Inr p"
      "tool_version ''PSScriptAnalyzer'' (get_none ''psscriptanalyzer'' raw) = Inr a"
      "\<lparr>ct_id = text_field ''id'' raw, ct_runtime = text_field ''runtime'' raw,
        ct_modules = sort_key (\<lambda>m. casefold (fst m)) ms, ct_pester = p, ct_analyzer = a,
        ct_required = py_true (get_or ''required'' (JBool True) raw)\<rparr> = t"
    by (elim conjE exE) (rule that)
  have f: "ct_modules t = sort_key (\<lambda>m. casefold (fst m)) ms" "ct_pester t = p" "ct_analyzer t = a"
    unfolding k(4) [symmetric] by simp_all
  have "\<forall>q \<in> set ms. fst q \<noteq> [] \<and> snd q \<noteq> []" using compat_modules_named [OF k(1)] by auto
  moreover have "p = Some s \<Longrightarrow> s \<noteq> []" "a = Some s \<Longrightarrow> s \<noteq> []" for s using k(2,3) tool_version_named by simp_all
  ultimately show ?thesis
    unfolding named_requests_def requested_def f by (cases p; cases a) auto
qed

lemma compat_targets_named: "compat_targets seen raws = Inr ts \<Longrightarrow> \<forall>t \<in> set ts. named_requests t"
  by (induction seen raws arbitrary: ts rule: compat_targets.induct) (auto dest: compat_target_named)

lemma load_compat_spec_named: "load_compat_spec H fs path = Inr spec \<Longrightarrow> \<forall>t \<in> set (cs_targets spec). named_requests t"
  by (auto simp: load_compat_spec_def parse_compat_spec_def Let_def dest: compat_targets_named split: if_splits)

lemma compat_status_PASS: "compat_status rs = ''PASS'' \<longleftrightarrow> (\<forall>r \<in> set rs. ct_required (rt_target r) \<longrightarrow> rt_status r = ''PASS'')"
  by (auto simp: compat_status_def required_failed_def required_incomplete_def result_ids_def filter_empty_conv)

text \<open>C39: When a compatibility run over a store that installations and deletions built reports PASS, then for every
  required target of the specification the runtime was ready, every requested package is installed with the digest the
  mirror lists for it, and the child process, started on a store with those packages installed and with a lock file that
  lists exactly the requests of the target with the digests of the mirror, reported PASS; the store is sound and keeps what
  it had. The child works on the same home; it is taken to keep the store sound and what is installed
  (\<open>child_grows\<close>).\<close>

theorem compat_pass_sound:
  assumes "store_run (ce_modules E) S" "hex_digests (ce_modules E)" "child_grows E"
    and "execute_compatibility_matrix E fs path m started finished S = (S', Inr result)"
    and "get_none ''status'' result = JStr ''PASS''"
  shows "grows (ce_modules E) S S' \<and> (\<exists>spec sources. load_compat_spec (mo_H (ce_modules E)) fs path = Inr spec
    \<and> compat_sources E fs spec = Inr sources
    \<and> (\<forall>t \<in> set (cs_targets spec). ct_required t \<longrightarrow> target_sound E m sources S' t))"
proof -
  let ?H = "mo_H (ce_modules E)"
  let ?prepared = "res_bind (load_compat_spec ?H fs path) (\<lambda>spec. res_bind (verify_mirror ?H m) (\<lambda>check.
      if \<not> py_true (get_none ''valid'' check) then compat_error ''Offline module mirror failed integrity verification''
      else res_bind (compat_sources E fs spec) (\<lambda>sources. Inr (spec, check, sources))))"
  note run = assms(4) [unfolded execute_compatibility_matrix_def]
  from run obtain p where p: "?prepared = Inr p" by (cases ?prepared) simp_all
  obtain spec check sources where pe: "p = (spec, check, sources)" by (cases p)
  from p have k: "load_compat_spec ?H fs path = Inr spec" "compat_sources E fs spec = Inr sources"
    unfolding pe by (auto split: if_splits)
  obtain x where x: "run_compat_targets E m sources (cs_targets spec) S = (S', x)"
      "res_bind x (\<lambda>rs. Inr (compat_report spec check sources started finished rs)) = Inr result"
    using run unfolding p pe by (auto split: prod.splits)
  then obtain rs where rs: "x = Inr rs" "result = compat_report spec check sources started finished rs" by auto
  note ok = run_compat_targets_ok [OF x(1) store_run_ok [OF assms(1,2)] assms(2,3)]
  have "compat_status rs = ''PASS''" using assms(5) by (simp add: rs(2) compat_report_def get_or_JObj)
  then have pass: "\<forall>r \<in> set rs. ct_required (rt_target r) \<longrightarrow> rt_status r = ''PASS''" by (simp only: compat_status_PASS)
  have "target_sound E m sources S' t" if t: "t \<in> set (cs_targets spec)" "ct_required t" for t
  proof -
    from ok rs(1) have "map rt_target rs = cs_targets spec" by simp
    with t(1) obtain r where r: "r \<in> set rs" "rt_target r = t" by (metis imageE set_map)
    with pass t(2) have "rt_status r = ''PASS''" by simp
    with ok rs(1) r load_compat_spec_named [OF k(1)] t(1) show ?thesis by blast
  qed
  with ok k show ?thesis by blast
qed

section \<open>Concrete runs\<close>

definition demo_packages :: package_env where
  "demo_packages = \<lparr>pk_H = mo_H demo_env, pk_unzip = (\<lambda>b. Inr [(''m.nuspec'', b)]), pk_xml = mo_xml demo_env\<rparr>"

definition demo_mirror :: mirror where
  "demo_mirror = fst (add_package demo_packages [''a''] (mo_H demo_env ''a'') ''manual'' ''t'' ''t''
     \<lparr>mi_root = [''m''], mi_tree = Folder [(''m'', Folder []), (''a'', RegFile ''a'')], mi_index = None\<rparr>)"

definition demo_target :: "string \<Rightarrow> json" where
  "demo_target name = JObj [(''id'', JStr ''t''), (''runtime'', JStr ''7.4.0''),
     (''modules'', JArr [JObj [(''name'', JStr name), (''version'', JStr ''1.0'')]])]"

definition demo_files :: "string \<Rightarrow> node" where
  "demo_files name = Folder [(''s'', RegFile (utf8 (dumps (JObj [(''schema'', JInt 1), (''kind'', JStr ''psmatrix.compatibility-matrix''),
     (''name'', JStr ''c''), (''sources'', JArr [JStr ''x.ps1'']), (''targets'', JArr [demo_target name])])))),
     (''x.ps1'', RegFile [])]"

definition demo_compat :: compat_env where
  "demo_compat = \<lparr>ce_modules = demo_env, ce_ready = (\<lambda>runtime. True), ce_scan = (\<lambda>p. Inr [p]),
     ce_child = (\<lambda>command lock S. (S, ChildDone 0 [] (Some (Inr (JObj [(''status'', JStr ''PASS'')]))))),
     ce_python = ''python'', ce_home = [''h''], ce_temp = [''t''],
     ce_lock_digest = (\<lambda>lock. [])\<rparr>"

definition empty_store :: module_store where
  "empty_store = \<lparr>ms_home = [''h''], ms_modules = [], ms_packages = []\<rparr>"

theorem compat_pass_sound_witness:
  "\<exists>S' spec. load_compat_spec (mo_H demo_env) (demo_files ''M'') [''s''] = Inr spec \<and> cs_targets spec \<noteq> []
    \<and> (\<forall>t \<in> set (cs_targets spec). ct_required t \<and> (\<forall>p \<in> set (requested t). package_installed demo_env demo_mirror S' p))"
proof -
  have run: "store_run (ce_modules demo_compat) empty_store" by (rule store_start) (simp_all add: empty_store_def)
  have hex: "hex_digests (ce_modules demo_compat)" using demo_hex by (simp add: demo_compat_def)
  have child: "child_grows demo_compat" by (simp add: child_grows_def demo_compat_def grows_refl)
  have "(case execute_compatibility_matrix demo_compat (demo_files ''M'') [''s''] demo_mirror ''t'' ''t'' empty_store of (S', x) \<Rightarrow>
      (case x of Inl e \<Rightarrow> False | Inr result \<Rightarrow> get_none ''status'' result = JStr ''PASS''))" by code_simp
  then obtain S' result where x: "execute_compatibility_matrix demo_compat (demo_files ''M'') [''s''] demo_mirror ''t'' ''t'' empty_store
      = (S', Inr result)" "get_none ''status'' result = JStr ''PASS''" by (auto split: prod.splits sum.splits)
  have "(case load_compat_spec (mo_H demo_env) (demo_files ''M'') [''s''] of Inl e \<Rightarrow> False
      | Inr spec \<Rightarrow> cs_targets spec \<noteq> [] \<and> list_all ct_required (cs_targets spec))" by code_simp
  then obtain spec where spec: "load_compat_spec (mo_H demo_env) (demo_files ''M'') [''s''] = Inr spec" "cs_targets spec \<noteq> []"
      "\<forall>t \<in> set (cs_targets spec). ct_required t" by (auto simp: list_all_iff split: sum.splits)
  have e: "ce_modules demo_compat = demo_env" by (simp add: demo_compat_def)
  from compat_pass_sound [OF run hex child x, unfolded e target_sound_def] spec show ?thesis by auto
qed

text \<open>The template is a specification the loader accepts.\<close>

lemma template_accepted:
  "(case parse_compat_spec (Folder []) [] compatibility_template of Inl e \<Rightarrow> False
    | Inr (name, sources, targets) \<Rightarrow> sources = [[]] \<and> map requested targets
        = [[(''Pester'', ''5.7.1''), (''PSScriptAnalyzer'', ''1.24.0'')], [(''Pester'', ''6.0.0-alpha5''), (''PSScriptAnalyzer'', ''1.24.0'')]])"
  by code_simp

text \<open>A specification that writes a name in another case is planned READY, but the lock of the target names a module
  that is not installed under that name.\<close>

lemma renamed_request_unsatisfied:
  "(case plan_compatibility_matrix (mo_H demo_env) (\<lambda>runtime. True) (demo_files ''m'') [''s''] demo_mirror of
      Inl e \<Rightarrow> False | Inr plan \<Rightarrow> get_none ''status'' plan = JStr ''READY'')
   \<and> (case install_requested demo_env demo_mirror [(''m'', ''1.0'')] empty_store of (S', x) \<Rightarrow> (case x of Inl e \<Rightarrow> False
      | Inr (missing, locks) \<Rightarrow> missing = [] \<and> (case parse_lock (\<lambda>p. Inl p) (target_lock locks) of Inl e \<Rightarrow> False
          | Inr (modules, natives) \<Rightarrow> (case snd (ensure_locked demo_env True modules S') of
              Inl e \<Rightarrow> exn_class e = ModuleInstallError | Inr items \<Rightarrow> False))))"
  by code_simp

text \<open>A target may list Pester among its modules and as its tool; its lock then has Pester twice and is refused.\<close>

lemma tool_listed_twice_refused:
  "(case compat_target_of {} (JObj [(''id'', JStr ''t''), (''runtime'', JStr ''7.4.0''), (''pester'', JStr ''5.7.1''),
        (''modules'', JArr [JObj [(''name'', JStr ''Pester''), (''version'', JStr ''5.7.1'')]])]) of Inl e \<Rightarrow> False
    | Inr t \<Rightarrow> (case parse_lock (\<lambda>p. Inl p) (target_lock (map (\<lambda>(n, v). module_lock_row \<lparr>ml_name = n, ml_version = v,
        ml_sha256 = replicate 64 (CHR ''0''), ml_require_verified = True\<rparr>) (requested t))) of
        Inl e \<Rightarrow> exn_class e = DependencyError | Inr locks \<Rightarrow> False))"
  by code_simp

end
