(* ===== verification/Psm_Redaction.thy ===== *)
theory Psm_Redaction
  imports Psm_RunConfig Psm_Base64
begin

text \<open>
  Redaction of the values that were injected into a child process (\<open>redaction.py\<close>): the tokens of a value and of its
  common encodings, and their removal from texts, JSON values and results. The lossy decoding of bytes that are not
  valid UTF-8 is a parameter. No token is left in what was redacted, unless it lies inside the mark itself.
\<close>

section \<open>Tokens\<close>

definition redaction_mark :: string where
  "redaction_mark = ''<PSMATRIX_REDACTED>''"

definition decode_text :: "(string \<Rightarrow> string) \<Rightarrow> string \<Rightarrow> string" where
  "decode_text lossy raw = (case utf8_decode raw of None \<Rightarrow> lossy raw | Some t \<Rightarrow> t)"

definition bytes_hex :: "string \<Rightarrow> string" where
  "bytes_hex raw = concat (map (\<lambda>c. let n = (of_char c :: nat) in [hex_digit (n div 16), hex_digit (n mod 16)]) raw)"

definition url_base64 :: "string \<Rightarrow> string" where
  "url_base64 raw = map (\<lambda>c. if c = CHR ''+'' then CHR ''-'' else if c = CHR ''/'' then CHR ''_'' else c) (b64encode raw)"

definition value_tokens :: "(string \<Rightarrow> string) \<Rightarrow> string \<Rightarrow> string list" where
  "value_tokens lossy raw = (if raw = [] then []
     else filter (\<lambda>t. 4 \<le> length t) [decode_text lossy raw]
       @ filter (\<lambda>t. 8 \<le> length t) [b64encode raw, url_base64 raw, bytes_hex raw])"

definition value_short_tokens :: "(string \<Rightarrow> string) \<Rightarrow> string \<Rightarrow> string list" where
  "value_short_tokens lossy raw = (if raw = [] then [] else filter (\<lambda>t. length t < 4) [decode_text lossy raw])"

text \<open>The bytes of the values a profile injects\<close>

definition profile_values :: "execution_profile \<Rightarrow> string list" where
  "profile_values p = map utf8 (xp_arguments p) @ map (\<lambda>(k, v). utf8 (py_str v)) (xp_parameters p)
     @ map (\<lambda>(k, v). utf8 v) (xp_environment p)
     @ (case xp_stdin_data p of None \<Rightarrow> [] | Some b \<Rightarrow> if b = [] then [] else [b])"

record redactor =
  rd_tokens :: "string list"
  rd_short :: "string list"

text \<open>\<open>sorted(set(...), key=len, reverse=True)\<close>: tokens of the same length come in the order of the set, which is any.\<close>

definition longest_first :: "string set \<Rightarrow> string list \<Rightarrow> bool" where
  "longest_first A ts \<longleftrightarrow> distinct ts \<and> set ts = A \<and> sorted_wrt (\<lambda>a b. length b \<le> length a) ts"

definition is_redactor :: "(string \<Rightarrow> string) \<Rightarrow> string list \<Rightarrow> redactor \<Rightarrow> bool" where
  "is_redactor lossy raws R \<longleftrightarrow> longest_first (set (concat (map (value_tokens lossy) raws))) (rd_tokens R)
     \<and> longest_first (set (concat (map (value_short_tokens lossy) raws))) (rd_short R)"

definition by_length :: "string list \<Rightarrow> string list" where
  "by_length ts = rev (sort_key length (rev (remdups ts)))"

definition redactor_of :: "(string \<Rightarrow> string) \<Rightarrow> string list \<Rightarrow> redactor" where
  "redactor_of lossy raws = \<lparr>rd_tokens = by_length (concat (map (value_tokens lossy) raws)),
     rd_short = by_length (concat (map (value_short_tokens lossy) raws))\<rparr>"

section \<open>Redaction\<close>

text \<open>\<open>str.splitlines(keepends=True)\<close>\<close>

definition ends_line :: "char \<Rightarrow> bool" where
  "ends_line c \<longleftrightarrow> c \<in> {CHR 0x0A, CHR 0x0B, CHR 0x0C, CHR 0x0D, CHR 0x1C, CHR 0x1D, CHR 0x1E, CHR 0x85}"

fun text_lines :: "string \<Rightarrow> string list" where
  "text_lines [] = []"
| "text_lines (c # s) =
     (if c = CHR 0x0D then
        (case s of d # r \<Rightarrow> if d = CHR 0x0A then [c, d] # text_lines r else [c] # text_lines s | [] \<Rightarrow> [[c]])
      else if ends_line c then [c] # text_lines s
      else (case text_lines s of [] \<Rightarrow> [[c]] | l # ls \<Rightarrow> (c # l) # ls))"

definition line_content :: "string \<Rightarrow> string" where
  "line_content l = rev (dropWhile (\<lambda>c. c = CHR 0x0D \<or> c = CHR 0x0A) (rev l))"

definition redact_line :: "string list \<Rightarrow> string \<Rightarrow> string" where
  "redact_line short l = (if line_content l \<in> set short then redaction_mark @ drop (length (line_content l)) l else l)"

definition redact_text :: "redactor \<Rightarrow> string \<Rightarrow> string" where
  "redact_text R s = (let t = foldl (\<lambda>t p. replace_all p redaction_mark t) s (rd_tokens R) in
     if rd_short R = [] then t else concat (map (redact_line (rd_short R)) (text_lines t)))"

definition redact_execution :: "redactor \<Rightarrow> execution_result \<Rightarrow> execution_result" where
  "redact_execution R e = e\<lparr>ex_stdout := redact_text R (ex_stdout e), ex_stderr := redact_text R (ex_stderr e)\<rparr>"

fun redact_value :: "redactor \<Rightarrow> json \<Rightarrow> json" where
  "redact_value R (JStr s) = JStr (redact_text R s)"
| "redact_value R (JArr vs) = JArr (map (redact_value R) vs)"
| "redact_value R (JObj kvs) = JObj (map (\<lambda>(k, v). (k, redact_value R v)) kvs)"
| "redact_value R v = v"

text \<open>A check, as a dataclass: every field is redacted.\<close>

definition redact_check :: "redactor \<Rightarrow> verification_check \<Rightarrow> verification_check" where
  "redact_check R c = c\<lparr>vc_kind := redact_text R (vc_kind c), vc_subject := redact_text R (vc_subject c),
     vc_expected := redact_value R (vc_expected c), vc_actual := redact_value R (vc_actual c),
     vc_message := map_option (redact_text R) (vc_message c)\<rparr>"

definition contains_secret :: "redactor \<Rightarrow> json \<Rightarrow> bool" where
  "contains_secret R v = (let raw = dumps_spaced v in list_ex (\<lambda>t. t \<noteq> [] \<and> contains t raw) (rd_tokens R @ rd_short R))"

section \<open>Redactors exist\<close>

lemma longest_first_by_length: "longest_first (set ts) (by_length ts)"
proof -
  have "sorted_wrt (\<lambda>a b. length a \<le> length b) (sort_key length (rev (remdups ts)))"
    using sorted_sort_key [of length "rev (remdups ts)"] by (simp add: sorted_map)
  then show ?thesis by (simp add: longest_first_def by_length_def sorted_wrt_rev distinct_sort)
qed

lemma redactor_of_ok: "is_redactor lossy raws (redactor_of lossy raws)"
  by (simp add: is_redactor_def redactor_of_def longest_first_by_length del: set_concat)

section \<open>Replacing leaves nothing\<close>

lemma starts_with_step [simp]: "starts_with (d # t) (c # s) \<longleftrightarrow> d = c \<and> starts_with t s" "\<not> starts_with (d # t) []"
  by (auto simp: starts_with_iff)

lemma starts_with_stop: "c \<notin> set t \<Longrightarrow> starts_with t (a @ c # b) \<longleftrightarrow> starts_with t a"
proof (induction t arbitrary: a)
  case (Cons d t)
  then show ?case by (cases a) auto
qed (simp add: starts_with_iff)

lemma contains_stop:
  assumes "c \<notin> set t" "t \<noteq> []"
  shows "contains t (a @ c # b) \<longleftrightarrow> contains t a \<or> contains t b"
proof (induction a)
  case Nil
  from assms have "\<not> starts_with t (c # b)" by (cases t) auto
  with assms show ?case by simp
next
  case (Cons d a)
  with starts_with_stop [OF assms(1), of "d # a" b] show ?case by simp
qed

lemma contains_sub: "contains t s \<Longrightarrow> contains t (a @ s @ b)"
  unfolding contains_iff by (metis append.assoc)

text \<open>A token that has no angle bracket and does not lie in the mark cannot be put together around one.\<close>

definition plain_token :: "string \<Rightarrow> bool" where
  "plain_token t \<longleftrightarrow> t \<noteq> [] \<and> CHR ''<'' \<notin> set t \<and> CHR ''>'' \<notin> set t \<and> \<not> contains t redaction_mark"

lemma mark_parts: "redaction_mark = CHR ''<'' # ''PSMATRIX_REDACTED'' @ [CHR ''>'']"
  by (simp add: redaction_mark_def)

lemma contains_around_mark:
  assumes "plain_token t"
  shows "contains t (a @ redaction_mark @ b) \<longleftrightarrow> contains t a \<or> contains t b"
proof -
  from assms have t: "CHR ''<'' \<notin> set t" "CHR ''>'' \<notin> set t" "t \<noteq> []" and m: "\<not> contains t redaction_mark"
    by (simp_all add: plain_token_def)
  have "\<not> contains t ''PSMATRIX_REDACTED''"
    using m contains_sub [of t "''PSMATRIX_REDACTED''" "''<''" "''>''"] by (auto simp: redaction_mark_def)
  moreover have "a @ redaction_mark @ b = a @ CHR ''<'' # (''PSMATRIX_REDACTED'' @ CHR ''>'' # b)" by (simp add: mark_parts)
  ultimately show ?thesis by (simp only: contains_stop [OF t(1,3)] contains_stop [OF t(2,3)]) simp
qed

lemma replace_all_first:
  assumes "p \<noteq> []" "contains p s"
  shows "\<exists>a b. s = a @ p @ b \<and> \<not> contains p a \<and> replace_all p q s = a @ q @ replace_all p q b"
  using assms(2)
proof (induction s)
  case (Cons c s)
  show ?case
  proof (cases "starts_with p (c # s)")
    case True
    then obtain b where b: "c # s = p @ b" unfolding starts_with_iff by blast
    then have d: "drop (length p) (c # s) = b" by simp
    have "replace_all p q (c # s) = q @ replace_all p q (drop (length p) (c # s))"
      using True assms(1) by (subst replace_all.simps) simp
    then have "replace_all p q (c # s) = q @ replace_all p q b" unfolding d .
    with b assms(1) show ?thesis by (intro exI [of _ "[]"] exI [of _ b]) simp
  next
    case False
    with Cons obtain a b where ab: "s = a @ p @ b" "\<not> contains p a" "replace_all p q s = a @ q @ replace_all p q b" by auto
    have "\<not> starts_with p (c # a)"
    proof
      assume "starts_with p (c # a)"
      then obtain r where "c # a = p @ r" unfolding starts_with_iff by blast
      then have "(c # a) @ p @ b = p @ (r @ p @ b)" by simp
      then have "starts_with p ((c # a) @ p @ b)" unfolding starts_with_iff by blast
      with False ab(1) show False by simp
    qed
    moreover have "replace_all p q (c # s) = c # replace_all p q s"
      using False assms(1) by (subst replace_all.simps) simp
    ultimately show ?thesis using ab by (intro exI [of _ "c # a"] exI [of _ b]) simp
  qed
qed (use assms(1) in simp)

lemma replace_all_absent: "\<not> contains p s \<Longrightarrow> replace_all p q s = s"
proof (induction s)
  case Nil
  then show ?case by (subst replace_all.simps) simp
next
  case (Cons c s)
  then show ?case by (subst replace_all.simps) simp
qed

lemma replace_all_removes:
  assumes "plain_token t" "p \<noteq> []" "t = p \<or> \<not> contains t s"
  shows "\<not> contains t (replace_all p redaction_mark s)"
  using assms(3)
proof (induction "length s" arbitrary: s rule: less_induct)
  case less
  show ?case
  proof (cases "contains p s")
    case True
    from replace_all_first [OF assms(2) True] obtain a b where ab: "s = a @ p @ b" "\<not> contains p a"
        "replace_all p redaction_mark s = a @ redaction_mark @ replace_all p redaction_mark b" by blast
    have "\<not> contains t a" using less.prems ab(1,2) contains_sub [of t a "[]" "p @ b"] by auto
    moreover have "t = p \<or> \<not> contains t b" using less.prems ab(1) contains_sub [of t b "a @ p" "[]"] by auto
    with less.hyps [of b] ab(1) assms(2) have "\<not> contains t (replace_all p redaction_mark b)" by simp
    ultimately show ?thesis unfolding ab(3) contains_around_mark [OF assms(1)] by simp
  next
    case False
    with less.prems show ?thesis by (auto simp: replace_all_absent)
  qed
qed

lemma fold_removes:
  assumes "\<forall>t \<in> set ts. plain_token t" "plain_token u" "u \<in> set ts \<or> \<not> contains u s"
  shows "\<not> contains u (foldl (\<lambda>t p. replace_all p redaction_mark t) s ts)"
  using assms(1,3)
proof (induction ts arbitrary: s)
  case (Cons p ts)
  then have "p \<noteq> []" by (simp add: plain_token_def)
  with Cons replace_all_removes [OF assms(2), of p s] show ?case
    by (cases "u = p \<or> \<not> contains u s") auto
qed simp

lemma concat_text_lines: "concat (text_lines s) = s"
proof (induction "length s" arbitrary: s rule: less_induct)
  case less
  show ?case
  proof (cases s)
    case (Cons c r)
    have r: "concat (text_lines r) = r" by (rule less) (simp add: Cons)
    have tail: "concat (text_lines t) = t" if "r = d # t" for d t by (rule less) (simp add: Cons that)
    show ?thesis
    proof (cases "c = CHR 0x0D")
      case True
      with r tail show ?thesis unfolding Cons by (cases r) simp_all
    next
      case False
      with r show ?thesis unfolding Cons by (cases "text_lines r") simp_all
    qed
  qed simp
qed

lemma line_content_prefix: "\<exists>e. l = line_content l @ e"
proof -
  define P where "P = (\<lambda>c. c = CHR 0x0D \<or> c = CHR 0x0A)"
  have "rev (takeWhile P (rev l) @ dropWhile P (rev l)) = l" by (simp only: takeWhile_dropWhile_id rev_rev_ident)
  then have "l = rev (dropWhile P (rev l)) @ rev (takeWhile P (rev l))" by (simp only: rev_append)
  then show ?thesis unfolding line_content_def P_def [symmetric] by (rule exI)
qed

lemma redact_lines_keep:
  assumes "plain_token t" "\<not> contains t (pre @ concat ls)"
  shows "\<not> contains t (pre @ concat (map (redact_line short) ls))"
  using assms(2)
proof (induction ls arbitrary: pre)
  case (Cons l ls)
  show ?case
  proof (cases "line_content l \<in> set short")
    case True
    obtain e where e: "l = line_content l @ e" using line_content_prefix by blast
    then have r: "redact_line short l = redaction_mark @ e" using True unfolding redact_line_def by (metis append_eq_conv_conj)
    have c: "\<not> contains t (pre @ line_content l @ e @ concat ls)" using Cons.prems e by (metis append.assoc concat.simps(2))
    then have "\<not> contains t pre" "\<not> contains t (e @ concat ls)"
      using contains_sub [of t pre "[]" "line_content l @ e @ concat ls"] contains_sub [of t "e @ concat ls" "pre @ line_content l" "[]"]
      by auto
    with Cons.IH [of e] show ?thesis by (simp add: r contains_around_mark [OF assms(1)])
  next
    case False
    with Cons.IH [of "pre @ l"] Cons.prems show ?thesis by (simp add: redact_line_def)
  qed
qed simp

lemma redact_text_removes:
  assumes "\<forall>t \<in> set (rd_tokens R). plain_token t" "u \<in> set (rd_tokens R)"
  shows "\<not> contains u (redact_text R s)"
proof -
  from assms have u: "plain_token u" by simp
  let ?t = "foldl (\<lambda>t p. replace_all p redaction_mark t) s (rd_tokens R)"
  have "\<not> contains u ?t" using fold_removes [OF assms(1) u] assms(2) by blast
  with redact_lines_keep [OF u, of "[]" "text_lines ?t"] show ?thesis
    by (simp add: redact_text_def Let_def concat_text_lines)
qed

section \<open>The properties\<close>

text \<open>The texts of a JSON value, without the keys\<close>

fun json_texts :: "json \<Rightarrow> string list" where
  "json_texts (JStr s) = [s]"
| "json_texts (JArr vs) = concat (map json_texts vs)"
| "json_texts (JObj kvs) = concat (map (\<lambda>(k, v). json_texts v) kvs)"
| "json_texts v = []"

lemma redact_value_texts: "u \<in> set (json_texts (redact_value R v)) \<Longrightarrow> \<exists>s. u = redact_text R s"
  by (induction v rule: json_texts.induct) (auto split: prod.splits)

text \<open>What a value leaves in a text: the value itself when it has at least four characters, and its base64, its
  URL-safe base64 and its hexadecimal form when they have at least eight\<close>

definition token_of :: "(string \<Rightarrow> string) \<Rightarrow> string \<Rightarrow> string \<Rightarrow> bool" where
  "token_of lossy raw t \<longleftrightarrow> raw \<noteq> [] \<and> (t = decode_text lossy raw \<and> 4 \<le> length t
     \<or> (t = b64encode raw \<or> t = url_base64 raw \<or> t = bytes_hex raw) \<and> 8 \<le> length t)"

lemma token_of_value: "t \<in> set (value_tokens lossy raw) \<longleftrightarrow> token_of lossy raw t"
  by (auto simp: value_tokens_def token_of_def)

text \<open>C40: After redaction by any redactor of the injected values, whatever order it gives tokens of the same length, no
  injected value of at least four characters and no base64, URL-safe base64 or hexadecimal form of a value of at
  least eight characters is left in the output streams of a result, in any text of a JSON value (its keys stay
  as they are) or in the texts of a check, when these tokens have no angle bracket and do not lie in the mark.
  Shorter values are only removed where they fill a line, and stay readable elsewhere.\<close>

theorem redaction_complete:
  assumes "is_redactor lossy raws R" "raw \<in> set raws" "raw \<noteq> []"
    and "u = decode_text lossy raw \<and> 4 \<le> length u
      \<or> (u = b64encode raw \<or> u = url_base64 raw \<or> u = bytes_hex raw) \<and> 8 \<le> length u"
    and "\<forall>raw \<in> set raws. \<forall>t. token_of lossy raw t \<longrightarrow> plain_token t"
  shows "\<not> contains u (ex_stdout (redact_execution R e)) \<and> \<not> contains u (ex_stderr (redact_execution R e))
    \<and> (\<forall>s \<in> set (json_texts (redact_value R v)). \<not> contains u s)
    \<and> \<not> contains u (vc_kind (redact_check R c))
    \<and> \<not> contains u (vc_subject (redact_check R c)) \<and> (\<forall>m. vc_message (redact_check R c) = Some m \<longrightarrow> \<not> contains u m)
    \<and> (\<forall>s \<in> set (json_texts (vc_expected (redact_check R c)) @ json_texts (vc_actual (redact_check R c))). \<not> contains u s)"
proof -
  have ts: "set (rd_tokens R) = (\<Union>raw \<in> set raws. set (value_tokens lossy raw))"
    using assms(1) by (simp add: is_redactor_def longest_first_def)
  have "token_of lossy raw u" using assms(3,4) by (simp add: token_of_def)
  with ts assms(2,5) have gone: "\<not> contains u (redact_text R s)" for s by (intro redact_text_removes) (auto simp: token_of_value)
  then have "\<not> contains u s" if "s \<in> set (json_texts (redact_value R w))" for s w
    using redact_value_texts [OF that] by blast
  with gone show ?thesis by (auto simp: redact_execution_def redact_check_def)
qed

section \<open>Concrete values\<close>

definition demo_execution :: execution_result where
  "demo_execution = \<lparr>ex_command = [''-ArgumentsJson'', dumps (JArr [JStr ''hunter2-secret''])], ex_cwd = ''/w'', ex_exit_code = Some 0,
     ex_timed_out = False, ex_duration_ms = 1, ex_stdout = ''token=hunter2-secret'', ex_stderr = bytes_hex ''hunter2-secret'',
     ex_stdout_truncated = False, ex_stderr_truncated = False, ex_resource_violation = None\<rparr>"

definition demo_redactor :: redactor where
  "demo_redactor = redactor_of id [''hunter2-secret'']"

theorem redaction_complete_witness:
  "contains ''hunter2-secret'' (ex_stdout demo_execution)
   \<and> \<not> contains ''hunter2-secret'' (ex_stdout (redact_execution demo_redactor demo_execution))"
proof -
  have r: "is_redactor id [''hunter2-secret''] demo_redactor" unfolding demo_redactor_def by (rule redactor_of_ok)
  have t: "''hunter2-secret'' = decode_text id ''hunter2-secret''" by code_simp
  have "list_all plain_token (value_tokens id ''hunter2-secret'')" by code_simp
  then have p: "\<forall>raw \<in> set [''hunter2-secret'']. \<forall>t. token_of id raw t \<longrightarrow> plain_token t"
    by (simp add: list_all_iff token_of_value)
  have "contains ''hunter2-secret'' (ex_stdout demo_execution)" by code_simp
  moreover have "''hunter2-secret'' \<in> set [''hunter2-secret'']" "''hunter2-secret'' \<noteq> []" "4 \<le> length ''hunter2-secret''" by simp_all
  ultimately show ?thesis using redaction_complete [OF r _ _ _ p, of "''hunter2-secret''" "''hunter2-secret''" demo_execution] t by blast
qed

text \<open>A value of three characters, and a key of a JSON value, stay readable.\<close>

lemma short_value_stays:
  "contains ''pin'' (redact_text (redactor_of id [''pin'']) ''the pin is'')
   \<and> redact_value (redactor_of id [''hunter2-secret'']) (JObj [(''hunter2-secret'', JNull)]) = JObj [(''hunter2-secret'', JNull)]"
  by code_simp

text \<open>An argument stays readable in the command of the redacted result.\<close>

lemma argument_stays_in_command:
  "list_ex (contains ''hunter2-secret'') (ex_command (redact_execution demo_redactor demo_execution))"
  by code_simp

text \<open>Two redactors of the same values, with another order of tokens of the same length, give other texts.\<close>

lemma redaction_depends_on_set_order:
  "\<exists>R R'. is_redactor id [''abcd'', ''bcde''] R \<and> is_redactor id [''abcd'', ''bcde''] R' \<and> redact_text R ''abcde'' \<noteq> redact_text R' ''abcde''"
proof (intro exI conjI)
  let ?long = "[b64encode ''abcd'', b64encode ''bcde'', bytes_hex ''abcd'', bytes_hex ''bcde'']"
  let ?R = "\<lparr>rd_tokens = ?long @ [''abcd'', ''bcde''], rd_short = []\<rparr>"
  let ?R' = "\<lparr>rd_tokens = ?long @ [''bcde'', ''abcd''], rd_short = []\<rparr>"
  show "is_redactor id [''abcd'', ''bcde''] ?R" "is_redactor id [''abcd'', ''bcde''] ?R'" "redact_text ?R ''abcde'' \<noteq> redact_text ?R' ''abcde''"
    by code_simp+
qed

text \<open>The search for secrets looks into the escaped JSON text and misses a value with a quote.\<close>

lemma escaped_secret_missed:
  "let secret = ''pass'' @ [CHR 0x22] @ ''word'' in \<not> contains_secret (redactor_of id [secret]) (JObj [(''leak'', JStr secret)])"
  by code_simp

end
