(* ===== verification/Psm_Evidence.thy ===== *)
theory Psm_Evidence
  imports Psm_Trees Psm_Canon
begin

text \<open>
  Evidence about a run: the files a target changed (\<open>snapshot.py\<close>), the bill of materials of a report (\<open>sbom.py\<close>),
  provenance statements (\<open>attestation.py\<close>) and the report of a matrix that is run locally and remotely
  (\<open>hybrid.py\<close>). The walk over the workspace, SHA-256, name-based UUIDs, envelope signatures, the local child process
  and the remote submission are parameters.
\<close>

section \<open>Changed files\<close>

record snapshot_item =
  sn_size :: int
  sn_mtime_ns :: int
  sn_sha256 :: "string option"

type_synonym snapshot = "(string \<times> snapshot_item) list"

text \<open>The walk gives the parts of every file below the root with its bytes and its time of modification.\<close>

definition snapshot_tree ::
    "(string \<Rightarrow> string) \<Rightarrow> int \<Rightarrow> string set \<Rightarrow> (string list \<times> string \<times> int) list \<Rightarrow> snapshot" where
  "snapshot_tree H max_file_size excluded files =
     map (\<lambda>(parts, bytes, mtime). (posix parts, \<lparr>sn_size = int (length bytes), sn_mtime_ns = mtime,
         sn_sha256 = if int (length bytes) \<le> max_file_size then Some (H bytes) else None\<rparr>))
       (filter (\<lambda>(parts, bytes, mtime). parts = [] \<or> hd parts \<notin> excluded) (sort_key fst files))"

definition change_between :: "string \<Rightarrow> snapshot_item option \<Rightarrow> snapshot_item option \<Rightarrow> file_change option" where
  "change_between path old new = (case (old, new) of
     (None, Some n) \<Rightarrow> Some \<lparr>fc_path = path, fc_change = ''created'', fc_size_before = None, fc_size_after = Some (sn_size n),
       fc_sha256_before = None, fc_sha256_after = sn_sha256 n\<rparr>
   | (Some d, None) \<Rightarrow> Some \<lparr>fc_path = path, fc_change = ''deleted'', fc_size_before = Some (sn_size d), fc_size_after = None,
       fc_sha256_before = sn_sha256 d, fc_sha256_after = None\<rparr>
   | (Some d, Some n) \<Rightarrow> if d = n then None
       else Some \<lparr>fc_path = path, fc_change = ''modified'', fc_size_before = Some (sn_size d), fc_size_after = Some (sn_size n),
         fc_sha256_before = sn_sha256 d, fc_sha256_after = sn_sha256 n\<rparr>
   | (None, None) \<Rightarrow> None)"

definition diff_snapshots :: "snapshot \<Rightarrow> snapshot \<Rightarrow> file_change list" where
  "diff_snapshots before after =
     concat (map (\<lambda>path. case change_between path (map_of before path) (map_of after path) of None \<Rightarrow> [] | Some c \<Rightarrow> [c])
       (sort (remdups (map fst before @ map fst after))))"

section \<open>Bill of materials\<close>

definition sha256_hashes :: "string \<Rightarrow> (string \<times> json) list" where
  "sha256_hashes value = (if length value = 64
     then [(''hashes'', JArr [JObj [(''alg'', JStr ''SHA-256''), (''content'', JStr value)]])] else [])"

definition runtime_component :: "target_report \<Rightarrow> json" where
  "runtime_component t =
     (let value = py_or (get_none ''sha256'' (tr_runtime t)) (get_none ''repo_digest'' (tr_runtime t)) in
      JObj ([(''type'', JStr ''framework''), (''bom-ref'', JStr (''runtime:'' @ tr_runtime_id t)), (''name'', JStr ''PowerShell''),
        (''version'', JStr (tr_runtime_version t)),
        (''properties'', JArr [JObj [(''name'', JStr ''psmatrix:runtime-id''), (''value'', JStr (tr_runtime_id t))],
           JObj [(''name'', JStr ''psmatrix:backend''),
             (''value'', JStr (py_str (get_or ''backend'' (JStr ''native'') (tr_runtime t))))]])]
        @ (if py_true value then sha256_hashes (removeprefix ''sha256:'' (py_str value)) else [])))"

definition module_reference :: "string \<Rightarrow> string \<Rightarrow> string" where
  "module_reference name version = ''pkg:nuget/'' @ name @ ''@'' @ version"

definition module_component :: "string \<Rightarrow> string \<Rightarrow> json \<Rightarrow> json" where
  "module_component name version m =
     JObj ([(''type'', JStr ''library''), (''bom-ref'', JStr (module_reference name version)), (''name'', JStr name),
       (''version'', JStr version), (''purl'', JStr (module_reference name version))]
       @ sha256_hashes (py_str (get_or ''sha256'' (JStr '''') m)))"

text \<open>Modules in order; the first argument holds the names and versions seen so far, which are returned with the new ones.\<close>

fun module_components :: "(string \<times> string) set \<Rightarrow> json list \<Rightarrow> (string \<times> string) set \<times> json list" where
  "module_components seen [] = (seen, [])"
| "module_components seen (m # ms) =
     (let name = py_str (get_or ''name'' (JStr '''') m); version = py_str (get_or ''version'' (JStr '''') m) in
      if \<not> is_dict m \<or> name = [] \<or> version = [] \<or> (name, version) \<in> seen then module_components seen ms
      else (case module_components (insert (name, version) seen) ms of
        (seen', cs) \<Rightarrow> (seen', module_component name version m # cs)))"

definition target_modules :: "target_report \<Rightarrow> json list res" where
  "target_modules t = (if is_dict (tr_dependencies t) then py_iter (get_or ''powershell_modules'' (JArr []) (tr_dependencies t)) else Inr [])"

fun sbom_components :: "string set \<Rightarrow> (string \<times> string) set \<Rightarrow> target_report list \<Rightarrow> json list res" where
  "sbom_components runtimes modules [] = Inr []"
| "sbom_components runtimes modules (t # ts) =
     res_bind (target_modules t)
       (\<lambda>ms. case module_components modules ms of (modules', cs) \<Rightarrow>
         res_bind (sbom_components (insert (tr_runtime_id t) runtimes) modules' ts) (\<lambda>rest.
         Inr ((if tr_runtime_id t \<in> runtimes then [] else [runtime_component t]) @ cs @ rest)))"

definition application_component :: "string \<Rightarrow> json" where
  "application_component version = (let ref = JStr (''pkg:pypi/psmatrix@'' @ version) in
     JObj [(''type'', JStr ''application''), (''bom-ref'', ref), (''name'', JStr ''psmatrix''), (''version'', JStr version), (''purl'', ref)])"

definition report_digest :: "(string \<Rightarrow> string) \<Rightarrow> json \<Rightarrow> string" where
  "report_digest H report = H (canonical_json_bytes report)"

definition component_references :: "json list \<Rightarrow> string list" where
  "component_references cs = sort (map (\<lambda>c. py_str (get_none ''bom-ref'' c)) cs)"

definition build_sbom :: "(string \<Rightarrow> string) \<Rightarrow> (string \<Rightarrow> string) \<Rightarrow> matrix_report \<Rightarrow> json res" where
  "build_sbom H uuid5 r =
     (let digest = report_digest H (matrix_report_dict r); app = application_component (mr_tool_version r) in
      res_bind (sbom_components {} {} (mr_targets r)) (\<lambda>cs.
      Inr (JObj [(''bomFormat'', JStr ''CycloneDX''), (''specVersion'', JStr ''1.5''),
        (''serialNumber'', JStr (''urn:uuid:'' @ uuid5 digest)), (''version'', JInt 1),
        (''metadata'', JObj [(''timestamp'', JStr (mr_finished_at r)),
           (''tools'', JObj [(''components'', JArr [JObj [(''type'', JStr ''application''), (''name'', JStr ''PSMatrix''),
              (''version'', JStr (mr_tool_version r))]])]),
           (''component'', app),
           (''properties'', JArr [JObj [(''name'', JStr ''psmatrix:report-schema''), (''value'', JStr (int_str (mr_schema r)))],
              JObj [(''name'', JStr ''psmatrix:matrix-status''), (''value'', JStr (mr_status r))],
              JObj [(''name'', JStr ''psmatrix:report-sha256''), (''value'', JStr digest)]])]),
        (''components'', JArr cs),
        (''dependencies'', JArr [JObj [(''ref'', JStr (''pkg:pypi/psmatrix@'' @ mr_tool_version r)),
           (''dependsOn'', JArr (map JStr (component_references cs)))]])])))"

section \<open>Provenance\<close>

definition attest_error :: "string \<Rightarrow> 'a res" where
  "attest_error m = throw AttestationError m"

lemma attest_error_neq [simp]: "attest_error m \<noteq> Inr x"
  by (simp add: attest_error_def)

lemma if_attest_error_eq_Inr [simp]: "(if b then attest_error m else r) = Inr x \<longleftrightarrow> \<not> b \<and> r = Inr x"
  by simp

definition digest_row :: "string \<Rightarrow> string \<Rightarrow> json" where
  "digest_row uri digest = JObj [(''uri'', JStr uri), (''digest'', JObj [(''sha256'', JStr digest)])]"

text \<open>The sources and runtimes of the targets; the first argument holds the names and digests seen so far.\<close>

fun resolved_rows :: "(string \<times> string) set \<Rightarrow> json list \<Rightarrow> (string \<times> string) list" where
  "resolved_rows seen [] = []"
| "resolved_rows seen (t # ts) =
     (if \<not> is_dict t then resolved_rows seen ts
      else
        (let source = (text_field ''source'' t, text_field ''source_sha256'' t); new = snd source \<noteq> [] \<and> source \<notin> seen;
             seen1 = (if new then insert source seen else seen);
             raw = get_none ''runtime'' t; runtime = (if is_dict raw then raw else JObj []);
             key = (text_field ''runtime_id'' t, text_field ''sha256'' runtime); new' = snd key \<noteq> [] \<and> key \<notin> seen1 in
         (if new then [source] else []) @ (if new' then [(''urn:psmatrix:runtime:'' @ fst key, snd key)] else [])
         @ resolved_rows (if new' then insert key seen1 else seen1) ts))"

definition resolved_dependencies :: "json list \<Rightarrow> json list" where
  "resolved_dependencies targets = map (\<lambda>(uri, digest). digest_row uri digest)
     (sort_key (\<lambda>(uri, digest). (uri, dumps_spaced (JObj [(''sha256'', JStr digest)]))) (resolved_rows {} targets))"

record provenance_input =
  pv_artifact :: "string list"
  pv_builder_id :: string
  pv_invocation_id :: "string option"
  pv_worker_identity :: "string option"
  pv_fresh_id :: string
  pv_now :: string

definition provenance_statement :: "(string \<Rightarrow> string) \<Rightarrow> provenance_input \<Rightarrow> string \<Rightarrow> json list \<Rightarrow> json \<Rightarrow> json" where
  "provenance_statement H i bytes targets report =
     (let matrix = get_none ''matrix'' report;
          invocation = (case pv_invocation_id i of Some s \<Rightarrow> if s = [] then pv_fresh_id i else s | None \<Rightarrow> pv_fresh_id i) in
      JObj [(''_type'', JStr ''https://in-toto.io/Statement/v1''),
        (''subject'', JArr [JObj [(''name'', JStr (name_of (pv_artifact i))), (''digest'', JObj [(''sha256'', JStr (H bytes))])]]),
        (''predicateType'', JStr ''https://slsa.dev/provenance/v1''),
        (''predicate'', JObj
          [(''buildDefinition'', JObj
             [(''buildType'', JStr ''https://psmatrix.dev/buildtypes/powershell-validation/v1''),
              (''externalParameters'', JObj [(''matrix'', if is_dict matrix then matrix else JObj []), (''status'', get_none ''status'' report)]),
              (''internalParameters'', JObj [(''tool'', JStr ''PSMatrix''), (''toolVersion'', get_none ''tool_version'' report),
                 (''reportSchema'', get_none ''schema'' report), (''workerIdentity'', opt_str (pv_worker_identity i))]),
              (''resolvedDependencies'', JArr (resolved_dependencies targets))]),
           (''runDetails'', JObj
             [(''builder'', JObj [(''id'', JStr (pv_builder_id i))]),
              (''metadata'', JObj [(''invocationId'', JStr invocation), (''startedOn'', get_none ''started_at'' report),
                 (''finishedOn'', py_or (get_none ''finished_at'' report) (JStr (pv_now i)))]),
              (''byproducts'', JArr [JObj [(''name'', JStr ''matrix-report.json''),
                 (''digest'', JObj [(''sha256'', JStr (report_digest H report))])]])])])])"

definition build_slsa_provenance :: "(string \<Rightarrow> string) \<Rightarrow> node \<Rightarrow> provenance_input \<Rightarrow> json \<Rightarrow> json res" where
  "build_slsa_provenance H fs i report =
     res_bind (resolve fs (pv_artifact i)) (\<lambda>p.
     if \<not> is_file fs p then attest_error (''Attested artifact not found: '' @ path_text p)
     else if pv_builder_id i = [] then attest_error ''builder_id cannot be empty''
     else
       res_bind (dget ''targets'' (JArr []) report) (\<lambda>raw.
       res_bind (py_iter raw) (\<lambda>targets.
       res_bind (read_bytes fs p) (\<lambda>bytes.
       Inr (provenance_statement H (i\<lparr>pv_artifact := p\<rparr>) bytes targets report)))))"

definition subject_matches :: "string \<Rightarrow> json \<Rightarrow> bool" where
  "subject_matches digest s \<longleftrightarrow> is_dict s \<and> is_dict (get_none ''digest'' s) \<and> get_none ''sha256'' (get_none ''digest'' s) = JStr digest"

definition verify_provenance ::
    "(string \<Rightarrow> string) \<Rightarrow> (json \<Rightarrow> json res) \<Rightarrow> node \<Rightarrow> json \<Rightarrow> string list option \<Rightarrow> json res" where
  "verify_provenance H verify_dsse fs envelope artifact =
     res_bind (verify_dsse envelope) (\<lambda>result.
     res_bind (jitem ''statement'' result) (\<lambda>statement.
     res_bind (dget_none ''_type'' statement) (\<lambda>kind.
     if kind \<noteq> JStr ''https://in-toto.io/Statement/v1'' then attest_error ''Unsupported in-toto statement type''
     else if get_none ''predicateType'' statement \<noteq> JStr ''https://slsa.dev/provenance/v1''
     then attest_error ''Unsupported provenance predicate type''
     else if \<not> is_list (get_none ''subject'' statement) \<or> list_items (get_none ''subject'' statement) = []
     then attest_error ''Provenance statement contains no subjects''
     else (case artifact of
        None \<Rightarrow> Inr (jset ''artifact_valid'' JNull result)
      | Some path \<Rightarrow>
          res_bind (resolve fs path) (\<lambda>p.
          res_bind (sha256_file H fs p) (\<lambda>digest.
          if list_ex (subject_matches digest) (list_items (get_none ''subject'' statement))
          then Inr (jset ''artifact_valid'' (JBool True) result)
          else attest_error ''Attested artifact digest does not match''))))))"

definition load_attestation :: "node \<Rightarrow> string list \<Rightarrow> json res" where
  "load_attestation fs path =
     res_bind (resolve fs path) (\<lambda>p. res_bind (read_json fs p) (\<lambda>v.
     if is_dict v then Inr v else attest_error ''Attestation root must be an object''))"

section \<open>The hybrid matrix\<close>

definition hybrid_error :: "string \<Rightarrow> 'a res" where
  "hybrid_error m = throw HybridError m"

lemma hybrid_error_neq [simp]: "hybrid_error m \<noteq> Inr x"
  by (simp add: hybrid_error_def)

lemma if_hybrid_error_eq_Inr [simp]: "(if b then hybrid_error m else r) = Inr x \<longleftrightarrow> \<not> b \<and> r = Inr x"
  by simp

definition forbidden_local_args :: "string list" where
  "forbidden_local_args = [''--report-json'', ''--report-junit'', ''--report-sarif'', ''--report-html'', ''--report-sbom'',
     ''--evidence-bundle'', ''--json'', ''--runtime'', ''--matrix'']"

fun validate_local_args :: "string list \<Rightarrow> unit res" where
  "validate_local_args [] = Inr ()"
| "validate_local_args (v # vs) = (let key = takeWhile (\<lambda>c. c \<noteq> CHR ''='') v in
     if key \<in> set forbidden_local_args then hybrid_error (''Hybrid local argument is managed internally: '' @ key)
     else validate_local_args vs)"

text \<open>The local child process: a start failure or timeout, or its exit code, streams and report file\<close>

datatype hybrid_outcome = HybridFailed string | HybridDone int string string "json res"

record hybrid_env =
  hy_python :: string
  hy_temp :: "string list"
  hy_local :: "string list \<Rightarrow> hybrid_outcome"
  hy_endpoint :: "string list \<Rightarrow> string res"
  hy_submit :: "string list \<Rightarrow> string list list \<Rightarrow> json res"

record hybrid_request =
  hr_home :: "string list"
  hr_root :: "string list"
  hr_entrypoint :: "string list"
  hr_runtimes :: "string list"
  hr_args :: "string list"
  hr_endpoints :: "string list list"
  hr_include :: "string list list"

definition hybrid_command :: "hybrid_env \<Rightarrow> hybrid_request \<Rightarrow> string list \<Rightarrow> string list \<Rightarrow> string list" where
  "hybrid_command E q home entrypoint =
     [hy_python E, ''-m'', ''psmatrix'', ''--home'', path_text home, ''test'', path_text entrypoint]
     @ concat (map (\<lambda>r. [''--runtime'', r]) (hr_runtimes q)) @ hr_args q
     @ [''--report-json'', path_text (hy_temp E @ [''local-report.json''])]"

definition load_local_report :: "json res \<Rightarrow> json res" where
  "load_local_report r = (case r of
     Inl e \<Rightarrow> hybrid_error (''Hybrid local report is missing or malformed: '' @ exn_text e)
   | Inr v \<Rightarrow> if \<not> is_dict v \<or> \<not> is_list (get_none ''targets'' v) then hybrid_error ''Hybrid local report root is malformed'' else Inr v)"

definition tail_of :: "nat \<Rightarrow> string \<Rightarrow> string" where
  "tail_of n s = drop (length s - n) s"

text \<open>The report of the local part, and what is recorded of its process\<close>

definition run_hybrid_local :: "hybrid_env \<Rightarrow> node \<Rightarrow> hybrid_request \<Rightarrow> string list \<Rightarrow> (json list \<times> json) res" where
  "run_hybrid_local E fs q entrypoint =
     (if hr_runtimes q = [] then Inr ([], JNull)
      else res_bind (resolve fs (hr_home q)) (\<lambda>home. let command = hybrid_command E q home entrypoint in
        case hy_local E command of
           HybridFailed m \<Rightarrow> hybrid_error (''Hybrid local matrix failed to execute: '' @ m)
         | HybridDone code out err report \<Rightarrow>
             res_bind (load_local_report report) (\<lambda>v.
             Inr ([v], JObj [(''command'', JArr (map JStr command)), (''exit_code'', JInt code),
               (''stdout'', JStr (tail_of 16384 out)), (''stderr'', JStr (tail_of 16384 err))]))))"

definition run_endpoint :: "hybrid_env \<Rightarrow> node \<Rightarrow> string list list \<Rightarrow> string list \<Rightarrow> (json \<times> json) res" where
  "run_endpoint E fs files path =
     res_bind (hy_endpoint E path) (\<lambda>worker_id.
     res_bind (hy_submit E path files) (\<lambda>verified.
     res_bind (jitem ''report'' verified) (\<lambda>report.
     res_bind (jitem ''capabilities'' verified) (\<lambda>capabilities.
     res_bind (jitem ''reset'' verified) (\<lambda>reset.
     res_bind (resolve fs path) (\<lambda>resolved.
     res_bind (dget_none ''status'' report) (\<lambda>status.
     Inr (report, JObj [(''endpoint'', JStr (path_text resolved)), (''worker_id'', JStr worker_id), (''signature_valid'', JBool True),
       (''capabilities'', capabilities), (''reset'', reset), (''status'', status)]))))))))"

definition component_status :: "json \<Rightarrow> string" where
  "component_status report = py_str (py_or (get_none ''status'' report) (JStr ''FAIL_WORKER''))"

definition hybrid_successful :: "string \<Rightarrow> bool" where
  "hybrid_successful s \<longleftrightarrow> s \<in> {''PASS'', ''PASS_WITH_DIFFERENCES''}"

definition hybrid_status :: "string list \<Rightarrow> string" where
  "hybrid_status ss = (if list_all hybrid_successful ss then ''PASS''
     else if ''INCOMPLETE'' \<in> set ss \<and> list_all (\<lambda>s. hybrid_successful s \<or> s = ''INCOMPLETE'') ss then ''INCOMPLETE'' else ''FAIL'')"

definition dict_rows :: "string \<Rightarrow> json \<Rightarrow> json list res" where
  "dict_rows k report = res_bind (py_iter (get_or k (JArr []) report)) (\<lambda>rows. Inr (filter is_dict rows))"

definition hybrid_report ::
    "string \<Rightarrow> string \<Rightarrow> string \<Rightarrow> string list \<Rightarrow> json \<Rightarrow> json list \<Rightarrow> string list \<Rightarrow> json list \<Rightarrow> json list \<Rightarrow> json" where
  "hybrid_report version started finished runtimes process workers statuses targets diagnostics =
     JObj [(''schema'', JInt 7), (''tool_version'', JStr version), (''started_at'', JStr started),
       (''finished_at'', JStr finished), (''status'', JStr (hybrid_status statuses)), (''targets'', JArr targets),
       (''differential'', JArr []), (''diagnostics'', JArr diagnostics),
       (''matrix'', JObj [(''hybrid'', JBool True), (''local_runtimes'', JArr (map JStr runtimes)),
          (''local_process'', process), (''remote_workers'', JArr workers), (''component_statuses'', JArr (map JStr statuses))])]"

definition execute_hybrid_matrix :: "hybrid_env \<Rightarrow> node \<Rightarrow> string \<Rightarrow> string \<Rightarrow> string \<Rightarrow> hybrid_request \<Rightarrow> json res" where
  "execute_hybrid_matrix E fs version started finished q =
     res_bind (resolve fs (hr_root q)) (\<lambda>root.
     res_bind (resolve fs (hr_entrypoint q)) (\<lambda>entrypoint.
     if \<not> is_file fs entrypoint then hybrid_error (''Hybrid entrypoint not found: '' @ path_text entrypoint)
     else if \<not> is_within root entrypoint then hybrid_error ''Hybrid entrypoint escapes project root''
     else if hr_runtimes q = [] \<and> hr_endpoints q = []
     then hybrid_error ''Hybrid matrix requires at least one local runtime or remote endpoint''
     else
       res_bind (validate_local_args (hr_args q)) (\<lambda>_.
       res_bind (run_hybrid_local E fs q entrypoint) (\<lambda>(reports, process).
       res_bind (res_map (resolve fs) (hr_include q)) (\<lambda>include.
       res_bind (res_map (run_endpoint E fs (entrypoint # include)) (hr_endpoints q)) (\<lambda>remotes.
       let reports = reports @ map fst remotes; statuses = map component_status reports in
       res_bind (res_concat (map (dict_rows ''targets'') reports)) (\<lambda>targets.
       res_bind (res_concat (map (dict_rows ''diagnostics'') reports)) (\<lambda>diagnostics.
       Inr (hybrid_report version started finished (hr_runtimes q) process (map snd remotes) statuses targets diagnostics)))))))))"

section \<open>The difference of two snapshots\<close>

lemma change_between_path: "change_between path old new = Some c \<Longrightarrow> fc_path c = path"
  by (auto simp: change_between_def split: option.splits if_splits)

lemma change_between_None [simp]: "change_between path old new = None \<longleftrightarrow> old = new"
  by (auto simp: change_between_def split: option.splits)

lemma change_between_same [simp]: "change_between path x x = None"
  by simp

lemma diff_snapshots_paths:
  "map fc_path (diff_snapshots before after) =
     filter (\<lambda>p. map_of before p \<noteq> map_of after p) (sort (remdups (map fst before @ map fst after)))"
proof -
  have "map fc_path (concat (map (\<lambda>path. case change_between path (map_of before path) (map_of after path) of None \<Rightarrow> [] | Some c \<Rightarrow> [c]) ps))
    = filter (\<lambda>p. map_of before p \<noteq> map_of after p) ps" for ps
    by (induction ps) (auto split: option.splits dest: change_between_path)
  then show ?thesis by (simp only: diff_snapshots_def)
qed

text \<open>The changes are sorted by path, at most one each, and there is one for exactly the paths whose items differ.\<close>

lemma diff_snapshots_exact:
  shows "sorted (map fc_path (diff_snapshots before after))" (is ?sorted)
    and "distinct (map fc_path (diff_snapshots before after))" (is ?distinct)
    and "path \<in> fc_path ` set (diff_snapshots before after) \<longleftrightarrow> map_of before path \<noteq> map_of after path" (is ?exact)
proof -
  show ?sorted ?distinct unfolding diff_snapshots_paths by (intro sorted_wrt_filter sorted_sort distinct_filter) simp+
  have "path \<in> set (map fst before @ map fst after)" if "map_of before path \<noteq> map_of after path"
    using that by (metis map_of_eq_None_iff set_map set_append UnCI)
  then show ?exact by (subst set_map [symmetric], unfold diff_snapshots_paths) auto
qed

lemma diff_snapshots_same: "diff_snapshots s s = []"
  using diff_snapshots_paths [of s s] by simp

lemma diff_snapshots_item:
  assumes "c \<in> set (diff_snapshots before after)"
  shows "change_between (fc_path c) (map_of before (fc_path c)) (map_of after (fc_path c)) = Some c"
proof -
  from assms obtain p where p: "change_between p (map_of before p) (map_of after p) = Some c"
    by (auto simp: diff_snapshots_def split: option.splits)
  then show ?thesis using change_between_path [OF p] by simp
qed

lemma diff_snapshots_change:
  "c \<in> set (diff_snapshots before after) \<longleftrightarrow> change_between (fc_path c) (map_of before (fc_path c)) (map_of after (fc_path c)) = Some c"
proof
  assume "c \<in> set (diff_snapshots before after)"
  then show "change_between (fc_path c) (map_of before (fc_path c)) (map_of after (fc_path c)) = Some c"
    by (rule diff_snapshots_item)
next
  assume c: "change_between (fc_path c) (map_of before (fc_path c)) (map_of after (fc_path c)) = Some c"
  then have "map_of before (fc_path c) \<noteq> map_of after (fc_path c)" by (metis change_between_None option.distinct(1))
  then have "fc_path c \<in> fc_path ` set (diff_snapshots before after)" by (simp add: diff_snapshots_exact)
  then obtain d where d: "d \<in> set (diff_snapshots before after)" "fc_path d = fc_path c" by auto
  then have "change_between (fc_path c) (map_of before (fc_path c)) (map_of after (fc_path c)) = Some d"
    using diff_snapshots_item [OF d(1)] by simp
  with c d show "c \<in> set (diff_snapshots before after)" by simp
qed

section \<open>Provenance is accepted for the attested bytes\<close>

lemma build_slsa_shape:
  assumes "build_slsa_provenance H fs i report = Inr st"
  obtains p bytes targets where "resolve fs (pv_artifact i) = Inr p" "read_bytes fs p = Inr bytes" "pv_builder_id i \<noteq> []"
    "st = provenance_statement H (i\<lparr>pv_artifact := p\<rparr>) bytes targets report"
  using assms by (auto simp: build_slsa_provenance_def res_bind_eq_Inr)

lemma statement_fields:
  "get_none ''_type'' (provenance_statement H i bytes targets report) = JStr ''https://in-toto.io/Statement/v1''"
  "get_none ''predicateType'' (provenance_statement H i bytes targets report) = JStr ''https://slsa.dev/provenance/v1''"
  "get_none ''subject'' (provenance_statement H i bytes targets report)
     = JArr [JObj [(''name'', JStr (name_of (pv_artifact i))), (''digest'', JObj [(''sha256'', JStr (H bytes))])]]"
  "is_dict (provenance_statement H i bytes targets report)"
  by (simp_all add: provenance_statement_def Let_def get_or_def)

lemma subject_matches_built [simp]:
  "subject_matches d (JObj [(''name'', n), (''digest'', JObj [(''sha256'', JStr d')])]) \<longleftrightarrow> d' = d"
  by (simp add: subject_matches_def get_or_def)

text \<open>A statement that was built for an artifact is accepted, later, exactly for files with the digest of those bytes.\<close>

lemma built_provenance_accepted:
  assumes "build_slsa_provenance H fs i report = Inr st"
    and "verify_dsse envelope = Inr result" "is_dict result" "jget ''statement'' result = Some st"
    and "resolve fs' path = Inr p'" "read_bytes fs' p' = Inr bytes'"
  shows "\<exists>p bytes. resolve fs (pv_artifact i) = Inr p \<and> read_bytes fs p = Inr bytes
    \<and> (H bytes' = H bytes \<longrightarrow> verify_provenance H verify_dsse fs' envelope (Some path) = Inr (jset ''artifact_valid'' (JBool True) result))
    \<and> (H bytes' \<noteq> H bytes \<longrightarrow> verify_provenance H verify_dsse fs' envelope (Some path) = attest_error ''Attested artifact digest does not match'')"
proof -
  from assms(1) obtain p bytes targets where b: "resolve fs (pv_artifact i) = Inr p" "read_bytes fs p = Inr bytes"
    and st: "st = provenance_statement H (i\<lparr>pv_artifact := p\<rparr>) bytes targets report" by (rule build_slsa_shape)
  let ?st = "provenance_statement H (i\<lparr>pv_artifact := p\<rparr>) bytes targets report"
  have k: "dget_none ''_type'' ?st = Inr (JStr ''https://in-toto.io/Statement/v1'')"
    using statement_fields(1,4) [of H "i\<lparr>pv_artifact := p\<rparr>" bytes targets report] by (simp add: dget_def)
  have "verify_provenance H verify_dsse fs' envelope (Some path) =
      (if H bytes' = H bytes then Inr (jset ''artifact_valid'' (JBool True) result)
       else attest_error ''Attested artifact digest does not match'')"
    using assms(2-6) st k
    by (simp add: verify_provenance_def sha256_file_def statement_fields jitem_def)
  with b show ?thesis by auto
qed

lemma accepted_artifact_subject:
  assumes "verify_provenance H verify_dsse fs envelope (Some path) = Inr r"
  obtains p bytes result statement s where "verify_dsse envelope = Inr result" "jitem ''statement'' result = Inr statement"
    "resolve fs path = Inr p" "read_bytes fs p = Inr bytes"
    "s \<in> set (list_items (get_none ''subject'' statement))" "subject_matches (H bytes) s"
proof -
  from assms obtain result statement p bytes where f: "verify_dsse envelope = Inr result" "jitem ''statement'' result = Inr statement"
    "resolve fs path = Inr p" "read_bytes fs p = Inr bytes"
    and "list_ex (subject_matches (H bytes)) (list_items (get_none ''subject'' statement))"
    by (auto simp: verify_provenance_def sha256_file_def split: if_splits)
  then obtain s where "s \<in> set (list_items (get_none ''subject'' statement))" "subject_matches (H bytes) s"
    unfolding list_ex_iff by blast
  with f show thesis by (rule that)
qed

section \<open>The bill of materials names every runtime\<close>

definition reference_of :: "json \<Rightarrow> json" where
  "reference_of c = get_none ''bom-ref'' c"

lemma reference_of_runtime [simp]: "reference_of (runtime_component t) = JStr (''runtime:'' @ tr_runtime_id t)"
  by (simp add: reference_of_def runtime_component_def Let_def get_or_def)

lemma sbom_names_runtimes:
  "sbom_components rs ms ts = Inr cs \<Longrightarrow> t \<in> set ts \<Longrightarrow> tr_runtime_id t \<notin> rs
   \<Longrightarrow> JStr (''runtime:'' @ tr_runtime_id t) \<in> reference_of ` set cs"
proof (induction ts arbitrary: rs ms cs)
  case (Cons u ts)
  from Cons.prems(1) obtain xs where "target_modules u = Inr xs" by (cases "target_modules u") simp_all
  with Cons.prems(1) obtain ms' ys rest where
    r: "sbom_components (insert (tr_runtime_id u) rs) ms' ts = Inr rest"
    and cs: "cs = (if tr_runtime_id u \<in> rs then [] else [runtime_component u]) @ ys @ rest"
    by (cases "module_components ms xs") auto
  show ?case
  proof (cases "tr_runtime_id t = tr_runtime_id u")
    case True
    with Cons.prems(3) cs have "runtime_component u \<in> set cs" by simp
    then show ?thesis using True reference_of_runtime [of u] by (metis imageI)
  next
    case False
    with Cons.prems(2,3) have "t \<in> set ts" "tr_runtime_id t \<notin> insert (tr_runtime_id u) rs" by auto
    from Cons.IH [OF r this] show ?thesis unfolding cs by auto
  qed
qed simp

section \<open>Verdict of a hybrid matrix\<close>

lemma hybrid_pass: "hybrid_status ss = ''PASS'' \<longleftrightarrow> list_all hybrid_successful ss"
  by (simp add: hybrid_status_def)

lemma hybrid_report_status:
  "get_none ''status'' (hybrid_report version started finished runtimes process workers statuses targets diagnostics) = JStr (hybrid_status statuses)"
  by (simp add: hybrid_report_def get_or_def)

lemma local_args_managed:
  "validate_local_args vs = Inr () \<longleftrightarrow> (\<forall>v \<in> set vs. takeWhile (\<lambda>c. c \<noteq> CHR ''='') v \<notin> set forbidden_local_args)"
  by (induction vs) (auto simp: Let_def)

text \<open>A hybrid report that passes combines component reports that all passed.\<close>

lemma hybrid_pass_sound:
  assumes "execute_hybrid_matrix E fs version started finished q = Inr r" "get_none ''status'' r = JStr ''PASS''"
  shows "\<exists>entrypoint extra reports process remotes. run_hybrid_local E fs q entrypoint = Inr (reports, process)
    \<and> res_map (run_endpoint E fs (entrypoint # extra)) (hr_endpoints q) = Inr remotes
    \<and> (\<forall>report \<in> set (reports @ map fst remotes). hybrid_successful (component_status report))"
proof -
  from assms(1) obtain entrypoint reports process extra remotes targets diagnostics where
    l: "run_hybrid_local E fs q entrypoint = Inr (reports, process)"
    and m: "res_map (run_endpoint E fs (entrypoint # extra)) (hr_endpoints q) = Inr remotes"
    and r: "r = hybrid_report version started finished (hr_runtimes q) process (map snd remotes)
      (map component_status (reports @ map fst remotes)) targets diagnostics"
    by (simp only: execute_hybrid_matrix_def res_bind_eq_Inr if_hybrid_error_eq_Inr Let_def split_paired_Ex prod.case sum.inject)
      (elim exE conjE, rule that, assumption+, erule sym)
  from assms(2) have "list_all hybrid_successful (map component_status (reports @ map fst remotes))"
    by (simp only: r hybrid_report_status hybrid_pass json.inject)
  then have "\<forall>report \<in> set (reports @ map fst remotes). hybrid_successful (component_status report)"
    by (simp only: list_all_iff set_map ball_simps)
  with l m show ?thesis by (intro exI conjI)
qed

end
